(* ===== verification/Floatile_Prelude.thy ===== *)
theory Floatile_Prelude
  imports Complex_Main "HOL-Library.Word" "HOL-Library.Char_ord" "HOL-Library.List_Lexorder"
begin

text \<open>
  Shared vocabulary of the development: Rust's \<^theory_text>\<open>Result\<close>, its strings and
  machine integers, the ordered map \<^theory_text>\<open>BTreeMap\<close> and the loops that stop at the
  first error.

  \<^item> \<open>result\<close> is \<open>Result<T, E>\<close>; \<open>try_bind\<close> is the \<open>?\<close> operator.
  \<^item> A Rust \<open>str\<close> is its UTF-8 byte sequence, a \<open>char list\<close>: \<open>len()\<close> is
    \<open>length\<close>, \<open>chars().count()\<close> is \<open>char_count\<close>, the order is the bytewise
    lexicographic order of \<open>List_Lexorder\<close>.
  \<^item> \<open>u8\<close>, \<open>u16\<close>, \<open>u32\<close> and \<open>u64\<close> are words.
  \<^item> An \<open>f32\<close> or \<open>f64\<close> that is only compared is an \<open>ieee\<close>.
  \<^item> \<open>Instant\<close> is a \<open>nat\<close> of nanoseconds: \<open>duration_since\<close> saturates at
    zero, as subtraction on \<open>nat\<close> does.
  \<^item> A \<open>BTreeMap\<close> is the list of its entries in key order; the locale \<open>ordered_map\<close>
    states its contract and is interpreted on these lists.
\<close>

section \<open>Hint collections\<close>

named_theorems bt_simps \<open>equations of the ordered map operations\<close>
named_theorems bt_wf_intros \<open>well-formedness of ordered maps\<close>
named_theorems code_names \<open>definitions of the stable names and limits of the code\<close>

section \<open>Machine integers\<close>

type_synonym u8 = "8 word"
type_synonym u16 = "16 word"
type_synonym u32 = "32 word"
type_synonym u64 = "64 word"

text \<open>Arithmetic on \<open>usize\<close> with the overflow check that panics: \<open>None\<close> is the panic.\<close>

definition usize_add :: "nat \<Rightarrow> nat \<Rightarrow> nat option" where
  "usize_add a b = (if a + b < 2 ^ 64 then Some (a + b) else None)"

definition usize_sub :: "nat \<Rightarrow> nat \<Rightarrow> nat option" where
  "usize_sub a b = (if b \<le> a then Some (a - b) else None)"

lemma unat_Suc_less: "(a :: 'a::len word) < b \<Longrightarrow> unat (a + 1) = Suc (unat a)"
proof -
  assume less: "a < b"
  have "1 + a \<noteq> 0"
  proof
    assume "1 + a = 0"
    then have "a = - 1" by (metis add.commute eq_neg_iff_add_eq_0)
    with less word_n1_ge [of b] show False by simp
  qed
  then show ?thesis using unatSuc [of a] by (simp add: add.commute)
qed

text \<open>\<open>u32::try_from(n).ok()\<close> on a \<open>u64\<close>.\<close>

definition u32_try_from :: "u64 \<Rightarrow> u32 option" where
  "u32_try_from n = (if unat n < 2 ^ 32 then Some (ucast n) else None)"

lemma u32_try_from_Some: "u32_try_from n = Some m \<Longrightarrow> unat m = unat n"
  by (auto simp: u32_try_from_def unsigned_ucast_eq take_bit_eq_mod split: if_splits)

text \<open>\<open>next.wrapping_add(1).max(1)\<close>: the successor of an identifier that never is 0.\<close>

definition next_id_nonzero :: "u32 \<Rightarrow> u32" where
  "next_id_nonzero n = max (n + 1) 1"

lemma next_id_nonzero_gt_0: "0 < next_id_nonzero n"
proof -
  have "(0::u32) < 1" by simp
  also have "1 \<le> next_id_nonzero n" by (simp add: next_id_nonzero_def)
  finally show ?thesis .
qed

section \<open>Results\<close>

datatype ('a, 'e) result = Ok 'a | Err 'e

fun try_bind :: "('a, 'e) result \<Rightarrow> ('a \<Rightarrow> ('b, 'e) result) \<Rightarrow> ('b, 'e) result" where
  "try_bind (Ok a) f = f a"
| "try_bind (Err e) f = Err e"

fun map_err :: "('e \<Rightarrow> 'f) \<Rightarrow> ('a, 'e) result \<Rightarrow> ('a, 'f) result" where
  "map_err f (Ok a) = Ok a"
| "map_err f (Err e) = Err (f e)"

fun ok_or :: "'e \<Rightarrow> 'a option \<Rightarrow> ('a, 'e) result" where
  "ok_or e (Some a) = Ok a"
| "ok_or e None = Err e"

fun is_ok :: "('a, 'e) result \<Rightarrow> bool" where
  "is_ok (Ok a) = True"
| "is_ok (Err e) = False"

lemma try_bind_Ok_iff [simp]: "try_bind m f = Ok b \<longleftrightarrow> (\<exists>a. m = Ok a \<and> f a = Ok b)"
  by (cases m) auto

lemma try_bind_Err_iff: "try_bind m f = Err e \<longleftrightarrow> m = Err e \<or> (\<exists>a. m = Ok a \<and> f a = Err e)"
  by (cases m) auto

lemma map_err_Ok_iff [simp]: "map_err f m = Ok a \<longleftrightarrow> m = Ok a"
  by (cases m) auto

lemma ok_or_Ok_iff [simp]: "ok_or e x = Ok a \<longleftrightarrow> x = Some a"
  by (cases x) auto

lemma ok_or_Err_iff: "ok_or e x = Err e' \<longleftrightarrow> x = None \<and> e' = e"
  by (cases x) auto

lemma map_err_Err_iff: "map_err f r = Err e \<longleftrightarrow> (\<exists>d. r = Err d \<and> e = f d)"
  by (cases r) auto

lemma is_ok_iff: "is_ok r \<longleftrightarrow> (\<exists>a. r = Ok a)"
  by (cases r) auto

text \<open>A \<open>for\<close> loop whose body may return early with an error; the loop state is threaded.\<close>

fun try_fold :: "('x \<Rightarrow> 's \<Rightarrow> ('s, 'e) result) \<Rightarrow> 'x list \<Rightarrow> 's \<Rightarrow> ('s, 'e) result" where
  "try_fold f [] s = Ok s"
| "try_fold f (x # xs) s = try_bind (f x s) (try_fold f xs)"

text \<open>The same without a state: every element is checked, the first failure is returned.\<close>

fun try_all :: "('x \<Rightarrow> (unit, 'e) result) \<Rightarrow> 'x list \<Rightarrow> (unit, 'e) result" where
  "try_all f [] = Ok ()"
| "try_all f (x # xs) = try_bind (f x) (\<lambda>_. try_all f xs)"

lemma try_all_Ok_iff [simp]: "try_all f xs = Ok () \<longleftrightarrow> (\<forall>x \<in> set xs. f x = Ok ())"
  by (induction xs) auto

lemma try_all_cong [fundef_cong]:
  "xs = ys \<Longrightarrow> (\<And>x. x \<in> set ys \<Longrightarrow> f x = g x) \<Longrightarrow> try_all f xs = try_all g ys"
proof (induction ys arbitrary: xs)
  case (Cons y ys)
  have "f y = g y" by (rule Cons.prems) simp
  moreover have "try_all f ys = try_all g ys" by (rule Cons.IH) (auto intro: Cons.prems)
  ultimately show ?case using Cons.prems(1) by simp
qed simp

lemma try_fold_cong [fundef_cong]:
  "xs = ys \<Longrightarrow> s = t \<Longrightarrow> (\<And>x s. x \<in> set ys \<Longrightarrow> f x s = g x s) \<Longrightarrow> try_fold f xs s = try_fold g ys t"
proof (induction ys arbitrary: xs s t)
  case (Cons y ys)
  have "f y t = g y t" by (rule Cons.prems) simp
  moreover have "try_fold f ys u = try_fold g ys u" for u
    by (rule Cons.IH) (auto intro: Cons.prems)
  ultimately show ?case using Cons.prems(1,2) by (cases "g y t") auto
qed simp

text \<open>An invariant kept by the body holds after the loop.\<close>

lemma try_fold_invariant:
  assumes "try_fold f xs s = Ok t" and "P s"
    and "\<And>x s t. x \<in> set xs \<Longrightarrow> P s \<Longrightarrow> f x s = Ok t \<Longrightarrow> P t"
  shows "P t"
  using assms
proof (induction xs arbitrary: s)
  case (Cons x xs)
  then obtain u where "f x s = Ok u" "try_fold f xs u = Ok t" by auto
  moreover from this Cons.prems have "P u" by auto
  ultimately show ?case using Cons.IH [of u] Cons.prems(3) by auto
qed simp

section \<open>Strings\<close>

text \<open>
  UTF-8 continuation bytes have the form \<open>10xxxxxx\<close>; every other byte starts a character.
\<close>

definition utf8_continuation :: "char \<Rightarrow> bool" where
  "utf8_continuation c \<longleftrightarrow> (128::nat) \<le> of_char c \<and> (of_char c :: nat) < 192"

definition char_count :: "string \<Rightarrow> nat" where
  "char_count s = length (filter (\<lambda>c. \<not> utf8_continuation c) s)"

lemma char_count_le_length: "char_count s \<le> length s"
  by (simp add: char_count_def)

lemma char_count_append: "char_count (s @ t) = char_count s + char_count t"
  by (simp add: char_count_def)

text \<open>\<open>starts_with\<close>, \<open>ends_with\<close> and \<open>contains\<close> of a string.\<close>

definition starts_with :: "string \<Rightarrow> string \<Rightarrow> bool" where
  "starts_with s p \<longleftrightarrow> take (length p) s = p"

definition ends_with :: "string \<Rightarrow> string \<Rightarrow> bool" where
  "ends_with s p \<longleftrightarrow> starts_with (rev s) (rev p)"

lemma starts_with_iff: "starts_with s p \<longleftrightarrow> (\<exists>t. s = p @ t)"
  by (metis append_eq_conv_conj append_take_drop_id starts_with_def)

text \<open>\<open>split(sep)\<close> on a one-byte separator: always at least one part.\<close>

fun split_on :: "char \<Rightarrow> string \<Rightarrow> string list" where
  "split_on sep [] = [[]]"
| "split_on sep (c # cs) =
     (if c = sep then [] # split_on sep cs
      else (case split_on sep cs of [] \<Rightarrow> [[c]] | p # ps \<Rightarrow> (c # p) # ps))"

lemma split_on_nonempty [simp]: "split_on sep s \<noteq> []"
  by (induction s) (auto split: list.splits)

lemma split_on_no_sep: "p \<in> set (split_on sep s) \<Longrightarrow> sep \<notin> set p"
  by (induction s arbitrary: p) (auto split: list.splits if_splits)

lemma split_on_inject: "split_on c s = split_on c t \<Longrightarrow> s = t"
proof (induction s arbitrary: t)
  case Nil
  show ?case
  proof (cases t)
    case (Cons b t')
    with Nil have "split_on c (b # t') = [[]]" by simp
    with split_on_nonempty [of c t'] show ?thesis by (auto split: if_splits list.splits)
  qed simp
next
  case (Cons a s)
  obtain b t' where t: "t = b # t'" using Cons.prems by (cases t) (auto split: if_splits list.splits)
  obtain p ps where p: "split_on c s = p # ps" by (cases "split_on c s") auto
  obtain q qs where q: "split_on c t' = q # qs" by (cases "split_on c t'") auto
  from Cons.prems t p q have "a = b \<and> split_on c s = split_on c t'" by (auto split: if_splits)
  with Cons.IH t show ?case by blast
qed

lemma split_on_absent: "sep \<notin> set s \<Longrightarrow> split_on sep s = [s]"
  by (induction s) auto

lemma split_on_at: "c \<notin> set a \<Longrightarrow> split_on c (a @ c # b) = a # split_on c b"
  by (induction a) auto

text \<open>ASCII classes, as the methods \<open>is_ascii_*\<close> of \<open>char\<close> and \<open>u8\<close>.\<close>

definition is_ascii_lowercase :: "char \<Rightarrow> bool" where
  "is_ascii_lowercase c \<longleftrightarrow> CHR ''a'' \<le> c \<and> c \<le> CHR ''z''"

definition is_ascii_uppercase :: "char \<Rightarrow> bool" where
  "is_ascii_uppercase c \<longleftrightarrow> CHR ''A'' \<le> c \<and> c \<le> CHR ''Z''"

definition is_ascii_digit :: "char \<Rightarrow> bool" where
  "is_ascii_digit c \<longleftrightarrow> CHR ''0'' \<le> c \<and> c \<le> CHR ''9''"

definition is_ascii_alphanumeric :: "char \<Rightarrow> bool" where
  "is_ascii_alphanumeric c \<longleftrightarrow> is_ascii_lowercase c \<or> is_ascii_uppercase c \<or> is_ascii_digit c"

lemma eq_char_of_iff: "c = char_of (n::nat) \<longleftrightarrow> of_char c = n mod 256"
  by (metis char_of_char of_char_of)

definition to_ascii_lower :: "char \<Rightarrow> char" where
  "to_ascii_lower c = (if is_ascii_uppercase c then char_of ((of_char c :: nat) + 32) else c)"

text \<open>
  \<open>char::is_whitespace\<close> over the decoded characters (Unicode White_Space): the ASCII
  controls 9 to 13 and the space, and the UTF-8 encodings of U+0085, U+00A0, U+1680,
  U+2000 to U+200A, U+2028, U+2029, U+202F, U+205F and U+3000.
\<close>

fun has_whitespace :: "string \<Rightarrow> bool" where
  "has_whitespace [] = False"
| "has_whitespace (c # cs) =
     (let b = (of_char c :: nat)
      in (9 \<le> b \<and> b \<le> 13) \<or> b = 32
         \<or> (case map of_char (take 2 cs) of
              [] \<Rightarrow> False
            | d # ds \<Rightarrow>
                (b = 194 \<and> (d = 133 \<or> d = (160::nat)))
                \<or> (case ds of
                     [] \<Rightarrow> False
                   | e # _ \<Rightarrow>
                       (b = 225 \<and> d = 154 \<and> e = 128)
                       \<or> (b = 226 \<and> d = 128 \<and> (e \<le> 138 \<or> e = 168 \<or> e = 169 \<or> e = 175))
                       \<or> (b = 226 \<and> d = 129 \<and> e = 159)
                       \<or> (b = 227 \<and> d = 128 \<and> e = 128)))
         \<or> has_whitespace cs)"

text \<open>\<open>str::parse::<u64>\<close>: an optional plus sign, then at least one digit, no overflow.\<close>

fun digits_value :: "nat \<Rightarrow> string \<Rightarrow> nat option" where
  "digits_value acc [] = Some acc"
| "digits_value acc (c # cs) =
     (if is_ascii_digit c then digits_value (10 * acc + (of_char c - 48)) cs else None)"

definition parse_u64 :: "string \<Rightarrow> u64 option" where
  "parse_u64 s =
     (let ds = (case s of c # cs \<Rightarrow> if c = CHR ''+'' then cs else s | [] \<Rightarrow> s)
      in if ds = [] then None
         else (case digits_value 0 ds of
                 None \<Rightarrow> None
               | Some n \<Rightarrow> if n < 2 ^ 64 then Some (of_nat n) else None))"

text \<open>Decimal text of a number, as \<open>format!\<close> writes it.\<close>

fun decimal :: "nat \<Rightarrow> string" where
  "decimal n = (if n < 10 then [char_of (48 + n)] else decimal (n div 10) @ [char_of (48 + n mod 10)])"

declare decimal.simps [simp del]

definition decimal_value :: "string \<Rightarrow> nat" where
  "decimal_value s = foldl (\<lambda>acc c. 10 * acc + (of_char c - 48)) 0 s"

lemma decimal_value_decimal: "decimal_value (decimal n) = n"
proof (induction n rule: decimal.induct)
  case (1 n)
  then show ?case by (subst decimal.simps) (auto simp: decimal_value_def)
qed

lemma decimal_inject: "decimal n = decimal m \<longleftrightarrow> n = m"
  by (metis decimal_value_decimal)

lemma decimal_digits: "c \<in> set (decimal n) \<Longrightarrow> is_ascii_digit c"
proof (induction n rule: decimal.induct)
  case (1 n)
  have digit: "is_ascii_digit (char_of (48 + k))" if "k < 10" for k :: nat
    using that by (simp add: is_ascii_digit_def less_eq_char_def)
  show ?case
    using 1 by (subst (asm) decimal.simps) (auto simp: digit split: if_splits)
qed

lemma space_not_in_decimal: "CHR '' '' \<notin> set (decimal n)"
  by (auto dest: decimal_digits simp: is_ascii_digit_def less_eq_char_def)

lemma append_sep_inject:
  "c \<notin> set xs \<Longrightarrow> c \<notin> set ys \<Longrightarrow> xs @ c # s = ys @ c # t \<Longrightarrow> xs = ys \<and> s = t"
proof (induction xs arbitrary: ys)
  case Nil
  then show ?case by (cases ys) auto
next
  case (Cons x xs)
  then show ?case by (cases ys) auto
qed

section \<open>Floating point\<close>

text \<open>
  An IEEE 754 value: a finite one is a rational, an infinity carries its sign bit.  The two
  zeros compare equal and no definition here separates them.
\<close>

datatype ieee = Fin rat | Infinity (is_negative: bool) | NotANumber

fun ieee_lt :: "ieee \<Rightarrow> ieee \<Rightarrow> bool" where
  "ieee_lt (Fin a) (Fin b) = (a < b)"
| "ieee_lt (Fin _) (Infinity neg) = (\<not> neg)"
| "ieee_lt (Infinity neg) (Fin _) = neg"
| "ieee_lt (Infinity n) (Infinity m) = (n \<and> \<not> m)"
| "ieee_lt NotANumber _ = False"
| "ieee_lt _ NotANumber = False"

fun ieee_le :: "ieee \<Rightarrow> ieee \<Rightarrow> bool" where
  "ieee_le NotANumber _ = False"
| "ieee_le _ NotANumber = False"
| "ieee_le a b = (ieee_lt a b \<or> a = b)"

fun ieee_finite :: "ieee \<Rightarrow> bool" where
  "ieee_finite (Fin _) = True"
| "ieee_finite _ = False"

lemma ieee_finite_iff: "ieee_finite x \<longleftrightarrow> (\<exists>r. x = Fin r)"
  by (cases x) auto

section \<open>Ordered maps\<close>

text \<open>
  The contract of \<open>BTreeMap\<close> its users rely on: what a lookup returns after an insert or a
  removal, that keys are enumerated in increasing order, and the size.
\<close>

locale ordered_map =
  fixes empty :: "'m"
    and lookup :: "'k::linorder \<Rightarrow> 'm \<Rightarrow> 'v option"
    and insert :: "'k \<Rightarrow> 'v \<Rightarrow> 'm \<Rightarrow> 'm"
    and remove :: "'k \<Rightarrow> 'm \<Rightarrow> 'm"
    and entries :: "'m \<Rightarrow> ('k \<times> 'v) list"
    and wf :: "'m \<Rightarrow> bool"
  assumes entries_empty: "entries empty = []"
    and wf_empty: "wf empty"
    and wf_insert: "wf m \<Longrightarrow> wf (insert k v m)"
    and wf_remove: "wf m \<Longrightarrow> wf (remove k m)"
    and entries_sorted: "wf m \<Longrightarrow> sorted_wrt (<) (map fst (entries m))"
    and lookup_entries: "wf m \<Longrightarrow> lookup k m = map_of (entries m) k"
    and lookup_insert: "wf m \<Longrightarrow> lookup k' (insert k v m) = (if k' = k then Some v else lookup k' m)"
    and lookup_remove: "wf m \<Longrightarrow> lookup k' (remove k m) = (if k' = k then None else lookup k' m)"
begin

lemma distinct_keys: "wf m \<Longrightarrow> distinct (map fst (entries m))"
  using entries_sorted [of m] by (simp add: strict_sorted_iff)

lemma finite_dom: "wf m \<Longrightarrow> finite {k. lookup k m \<noteq> None}"
  by (simp add: lookup_entries map_of_eq_None_iff)

lemma size_dom: "wf m \<Longrightarrow> length (entries m) = card {k. lookup k m \<noteq> None}"
proof -
  assume wf: "wf m"
  have "{k. lookup k m \<noteq> None} = set (map fst (entries m))"
    by (simp add: wf lookup_entries map_of_eq_None_iff)
  then have "card {k. lookup k m \<noteq> None} = card (set (map fst (entries m)))" by simp
  also have "\<dots> = length (entries m)"
    using distinct_card [OF distinct_keys [OF wf]] by simp
  finally show ?thesis by simp
qed

lemma size_insert_new:
  assumes "wf m" and "lookup k m = None"
  shows "length (entries (insert k v m)) = Suc (length (entries m))"
proof -
  have dom: "{k'. lookup k' (insert k v m) \<noteq> None} = Set.insert k {k'. lookup k' m \<noteq> None}"
    using assms(1) by (auto simp: lookup_insert)
  have "card (Set.insert k {k'. lookup k' m \<noteq> None}) = Suc (card {k'. lookup k' m \<noteq> None})"
    by (rule card_insert_disjoint [OF finite_dom [OF assms(1)]]) (simp add: assms(2))
  then show ?thesis unfolding size_dom [OF assms(1)] size_dom [OF wf_insert [OF assms(1)]] dom .
qed

lemma size_insert_old:
  assumes "wf m" and "lookup k m \<noteq> None"
  shows "length (entries (insert k v m)) = length (entries m)"
proof -
  have "{k'. lookup k' (insert k v m) \<noteq> None} = {k'. lookup k' m \<noteq> None}"
    using assms by (auto simp: lookup_insert)
  with assms show ?thesis by (simp add: size_dom wf_insert)
qed

lemma size_remove_le: "wf m \<Longrightarrow> length (entries (remove k m)) \<le> length (entries m)"
proof -
  assume wf: "wf m"
  have "{k'. lookup k' (remove k m) \<noteq> None} \<subseteq> {k'. lookup k' m \<noteq> None}"
    using wf by (auto simp: lookup_remove)
  then show ?thesis
    unfolding size_dom [OF wf] size_dom [OF wf_remove [OF wf]] by (rule card_mono [OF finite_dom [OF wf]])
qed

text \<open>Two maps in key order with the same lookups have the same entries.\<close>

lemma entries_ext:
  assumes "wf m" and "wf m'" and "\<And>k. lookup k m = lookup k m'"
  shows "entries m = entries m'"
proof (rule map_sorted_distinct_set_unique [where f = fst])
  show "inj_on fst (set (entries m) \<union> set (entries m'))"
  proof (rule inj_onI)
    fix x y
    assume x: "x \<in> set (entries m) \<union> set (entries m')"
      and y: "y \<in> set (entries m) \<union> set (entries m')" and eq: "fst x = fst y"
    have key: "lookup (fst z) m = Some (snd z)" if "z \<in> set (entries m) \<union> set (entries m')" for z
      using that
    proof
      assume "z \<in> set (entries m)"
      then show ?thesis
        by (simp add: lookup_entries [OF assms(1)] map_of_eq_Some_iff [OF distinct_keys [OF assms(1)]])
    next
      assume "z \<in> set (entries m')"
      then show ?thesis unfolding assms(3)
        by (simp add: lookup_entries [OF assms(2)] map_of_eq_Some_iff [OF distinct_keys [OF assms(2)]])
    qed
    from key [OF x] key [OF y] eq show "x = y" by (simp add: prod_eq_iff)
  qed
  show "sorted (map fst (entries m))" "distinct (map fst (entries m))"
    using entries_sorted [OF assms(1)] by (auto simp: strict_sorted_iff)
  show "sorted (map fst (entries m'))" "distinct (map fst (entries m'))"
    using entries_sorted [OF assms(2)] by (auto simp: strict_sorted_iff)
  have "(k, v) \<in> set (entries m) \<longleftrightarrow> (k, v) \<in> set (entries m')" for k v
    using assms(3) [of k]
    unfolding lookup_entries [OF assms(1)] lookup_entries [OF assms(2)]
      map_of_eq_Some_iff [OF distinct_keys [OF assms(1)], symmetric]
      map_of_eq_Some_iff [OF distinct_keys [OF assms(2)], symmetric] by simp
  then show "set (entries m) = set (entries m')" by auto
qed

end

text \<open>The model: the entries in key order.\<close>

type_synonym ('k, 'v) btree = "('k \<times> 'v) list"

fun bt_lookup :: "'k \<Rightarrow> ('k, 'v) btree \<Rightarrow> 'v option" where
  "bt_lookup k [] = None"
| "bt_lookup k ((k', v) # m) = (if k = k' then Some v else bt_lookup k m)"

fun bt_insert :: "'k::linorder \<Rightarrow> 'v \<Rightarrow> ('k, 'v) btree \<Rightarrow> ('k, 'v) btree" where
  "bt_insert k v [] = [(k, v)]"
| "bt_insert k v ((k', v') # m) =
     (if k < k' then (k, v) # (k', v') # m
      else if k = k' then (k, v) # m
      else (k', v') # bt_insert k v m)"

definition bt_remove :: "'k \<Rightarrow> ('k, 'v) btree \<Rightarrow> ('k, 'v) btree" where
  "bt_remove k m = filter (\<lambda>e. fst e \<noteq> k) m"

definition bt_wf :: "('k::linorder, 'v) btree \<Rightarrow> bool" where
  "bt_wf m \<longleftrightarrow> sorted_wrt (<) (map fst m)"

definition bt_keys :: "('k, 'v) btree \<Rightarrow> 'k list" where
  "bt_keys m = map fst m"

text \<open>\<open>collect()\<close> into a map: later entries overwrite earlier ones.\<close>

definition bt_of_list :: "('k::linorder \<times> 'v) list \<Rightarrow> ('k, 'v) btree" where
  "bt_of_list xs = fold (\<lambda>(k, v). bt_insert k v) xs []"

lemma bt_lookup_map_of: "bt_lookup k m = map_of m k"
  by (induction m) auto

lemma set_bt_insert: "fst ` set (bt_insert k v m) = insert k (fst ` set m)"
proof (induction m)
  case (Cons e m)
  then show ?case by (cases e) (simp add: insert_commute)
qed simp

lemma bt_wf_Nil [simp]: "bt_wf []"
  by (simp add: bt_wf_def)

lemma bt_wf_Cons: "bt_wf ((k, v) # m) \<longleftrightarrow> (\<forall>k' \<in> fst ` set m. k < k') \<and> bt_wf m"
  by (auto simp: bt_wf_def)

lemma bt_wf_insert [bt_wf_intros, intro]: "bt_wf m \<Longrightarrow> bt_wf (bt_insert k v m)"
proof (induction m)
  case (Cons e m)
  obtain k' v' where e: "e = (k', v')" by (cases e)
  show ?case using Cons by (auto simp: e bt_wf_Cons set_bt_insert)
qed (simp add: bt_wf_Cons)

lemma bt_wf_remove [bt_wf_intros, intro]: "bt_wf m \<Longrightarrow> bt_wf (bt_remove k m)"
  by (induction m) (auto simp: bt_wf_Cons bt_remove_def)

lemma bt_wf_distinct: "bt_wf m \<Longrightarrow> distinct (map fst m)"
  by (simp add: bt_wf_def strict_sorted_iff)

lemma bt_lookup_insert [simp, bt_simps]:
  "bt_lookup k' (bt_insert k v m) = (if k' = k then Some v else bt_lookup k' m)"
  by (induction m) auto

lemma bt_lookup_remove [simp, bt_simps]:
  "bt_lookup k' (bt_remove k m) = (if k' = k then None else bt_lookup k' m)"
  by (induction m) (auto simp: bt_remove_def)

lemma bt_lookup_None_iff: "bt_lookup k m = None \<longleftrightarrow> k \<notin> fst ` set m"
  by (simp add: bt_lookup_map_of map_of_eq_None_iff)

lemma bt_lookup_Some_in: "bt_lookup k m = Some v \<Longrightarrow> (k, v) \<in> set m"
  by (simp add: bt_lookup_map_of map_of_SomeD)

lemma bt_lookup_in: "bt_wf m \<Longrightarrow> (k, v) \<in> set m \<Longrightarrow> bt_lookup k m = Some v"
  by (simp add: bt_lookup_map_of bt_wf_distinct)

interpretation bt: ordered_map "[]" bt_lookup bt_insert bt_remove "\<lambda>m. m" bt_wf
proof (unfold_locales, goal_cases)
  case (5 m) then show ?case by (simp add: bt_wf_def)
qed (auto simp: bt_lookup_map_of [symmetric] intro: bt_wf_intros)

lemma bt_eqI: "bt_wf m \<Longrightarrow> bt_wf m' \<Longrightarrow> (\<And>k. bt_lookup k m = bt_lookup k m') \<Longrightarrow> m = m'"
  by (rule bt.entries_ext)

lemma bt_remove_absent: "bt_lookup k m = None \<Longrightarrow> bt_remove k m = m"
  by (induction m) (auto simp: bt_remove_def split: if_splits)

lemma bt_dom_remove: "fst ` set (bt_remove k m) = fst ` set m - {k}"
  by (auto simp: bt_remove_def)

lemma bt_lookup_dom: "bt_lookup k m = Some v \<Longrightarrow> k \<in> fst ` set m"
  by (metis bt_lookup_None_iff option.distinct(1))

lemma bt_length_insert:
  "bt_wf m \<Longrightarrow> length (bt_insert k v m) = (if k \<in> fst ` set m then length m else Suc (length m))"
  using bt.size_insert_new [of m k v] bt.size_insert_old [of m k v] by (auto simp: bt_lookup_None_iff)

lemma bt_length_remove: "length (bt_remove k m) \<le> length m"
  by (simp add: bt_remove_def)

text \<open>Mapping over the values keeps the keys.\<close>

lemma bt_wf_map_values: "bt_wf m \<Longrightarrow> bt_wf (map (\<lambda>(k, v). (k, f v)) m)"
  by (simp add: bt_wf_def comp_def case_prod_unfold)

lemma bt_lookup_map_values: "bt_lookup k (map (\<lambda>(k, v). (k, f v)) m) = map_option f (bt_lookup k m)"
  by (induction m) auto

lemma bt_insert_same: "bt_wf m \<Longrightarrow> bt_lookup k m = Some v \<Longrightarrow> bt_insert k v m = m"
  by (rule bt_eqI) (auto intro: bt_wf_intros)

lemma bt_wf_fold_insert: "bt_wf m \<Longrightarrow> bt_wf (fold (\<lambda>(k, v). bt_insert k v) xs m)"
  by (induction xs arbitrary: m) (auto intro: bt_wf_intros)

lemma bt_wf_of_list [bt_wf_intros, simp]: "bt_wf (bt_of_list xs)"
  by (simp add: bt_of_list_def bt_wf_fold_insert)

lemma bt_lookup_fold_insert:
  "bt_lookup k (fold (\<lambda>(k, v). bt_insert k v) xs m)
     = (case map_of (rev xs) k of Some v \<Rightarrow> Some v | None \<Rightarrow> bt_lookup k m)"
  by (induction xs arbitrary: m) (auto simp: map_add_def split: option.splits)

lemma bt_lookup_of_list: "bt_lookup k (bt_of_list xs) = map_of (rev xs) k"
  by (simp add: bt_of_list_def bt_lookup_fold_insert split: option.splits)

text \<open>The sum of a weight over the values, and how the operations change it.\<close>

definition bt_weight :: "('v \<Rightarrow> nat) \<Rightarrow> ('k, 'v) btree \<Rightarrow> nat" where
  "bt_weight w m = (\<Sum>e\<leftarrow>m. w (snd e))"

lemma bt_weight_Nil [simp]: "bt_weight w [] = 0"
  by (simp add: bt_weight_def)

lemma bt_weight_lookup_le: "bt_lookup k m = Some v \<Longrightarrow> w v \<le> bt_weight w m"
  by (induction m) (auto simp: bt_weight_def split: if_splits)

lemma bt_weight_insert:
  "bt_wf m \<Longrightarrow> bt_weight w (bt_insert k v m) + (case bt_lookup k m of Some u \<Rightarrow> w u | None \<Rightarrow> 0)
     = bt_weight w m + w v"
proof (induction m)
  case (Cons e m)
  obtain k' v' where e: "e = (k', v')" by (cases e)
  have none: "bt_lookup k m = None" if "k < k'"
    using Cons.prems that by (auto simp: e bt_wf_Cons bt_lookup_None_iff)
  have IH: "bt_weight w (bt_insert k v m) + (case bt_lookup k m of Some u \<Rightarrow> w u | None \<Rightarrow> 0)
     = bt_weight w m + w v"
    using Cons by (simp add: e bt_wf_Cons)
  show ?case using none IH by (auto simp: e bt_weight_def)
qed (simp add: bt_weight_def)

lemma bt_weight_remove:
  "bt_wf m \<Longrightarrow> bt_weight w (bt_remove k m) + (case bt_lookup k m of Some u \<Rightarrow> w u | None \<Rightarrow> 0)
     = bt_weight w m"
proof (induction m)
  case (Cons e m)
  obtain k' v' where e: "e = (k', v')" by (cases e)
  have absent: "bt_lookup k' m = None"
    using Cons.prems by (auto simp: e bt_wf_Cons bt_lookup_None_iff)
  then have "bt_remove k' m = m" by (rule bt_remove_absent)
  then have drop: "filter (\<lambda>e. fst e \<noteq> k') m = m" by (simp add: bt_remove_def)
  have IH: "bt_weight w (bt_remove k m) + (case bt_lookup k m of Some u \<Rightarrow> w u | None \<Rightarrow> 0)
     = bt_weight w m"
    using Cons by (simp add: e bt_wf_Cons)
  show ?case using IH drop by (auto simp: e bt_weight_def bt_remove_def)
qed (simp add: bt_weight_def bt_remove_def)

text \<open>The definitions that evaluate character tests on a literal.\<close>

lemmas ascii_eval = is_ascii_lowercase_def is_ascii_uppercase_def is_ascii_digit_def
  is_ascii_alphanumeric_def less_eq_char_def starts_with_def ends_with_def

end
