(* ===== verification/Json.thy ===== *)
theory Json
  imports Floatile_Prelude
begin

text \<open>
  JSON values as \<open>serde_json\<close> holds them, and the state patches of
  \<open>floatile-ui-schema/src/patch.rs\<close>.

  A number is an unsigned 64-bit integer, a negative 64-bit integer or a finite binary64 value,
  which is a rational.  An object is an ordered map from strings to values (the workspace does
  not enable \<open>preserve_order\<close>), so \<open>JObj\<close> carries the entries in key order; \<open>json_wf\<close> says that
  this holds at every level.  The lemmas give the recursion equations of the merge by key, the
  form in which RFC 7386 states it, that a merge keeps values well formed and that it is
  idempotent.
\<close>

section \<open>Values\<close>

datatype json_number = PosInt u64 | NegInt int | Float rat

datatype json =
    JNull
  | JBool bool
  | JNum json_number
  | JStr string
  | JArr "json list"
  | JObj "(string \<times> json) list"

type_synonym json_map = "(string, json) btree"

fun as_object :: "json \<Rightarrow> json_map option" where
  "as_object (JObj m) = Some m"
| "as_object _ = None"

fun as_array :: "json \<Rightarrow> json list option" where
  "as_array (JArr xs) = Some xs"
| "as_array _ = None"

fun as_str :: "json \<Rightarrow> string option" where
  "as_str (JStr s) = Some s"
| "as_str _ = None"

fun as_bool :: "json \<Rightarrow> bool option" where
  "as_bool (JBool b) = Some b"
| "as_bool _ = None"

fun as_u64 :: "json \<Rightarrow> u64 option" where
  "as_u64 (JNum (PosInt n)) = Some n"
| "as_u64 _ = None"

fun is_null :: "json \<Rightarrow> bool" where
  "is_null JNull = True"
| "is_null _ = False"

text \<open>\<open>as_u64().and_then(|n| u32::try_from(n).ok())\<close>\<close>

definition as_u32 :: "json \<Rightarrow> u32 option" where
  "as_u32 v = Option.bind (as_u64 v) u32_try_from"

lemma is_null_iff [simp]: "is_null v \<longleftrightarrow> v = JNull"
  by (cases v) auto

lemma as_object_Some_iff [simp]: "as_object v = Some m \<longleftrightarrow> v = JObj m"
  by (cases v) auto

lemma as_array_Some_iff [simp]: "as_array v = Some xs \<longleftrightarrow> v = JArr xs"
  by (cases v) auto

lemma as_str_Some_iff [simp]: "as_str v = Some s \<longleftrightarrow> v = JStr s"
  by (cases v) auto

text \<open>Every object, at every depth, lists its entries in key order.\<close>

inductive json_wf :: "json \<Rightarrow> bool" where
  json_wf_null: "json_wf JNull"
| json_wf_bool: "json_wf (JBool b)"
| json_wf_num: "json_wf (JNum n)"
| json_wf_str: "json_wf (JStr s)"
| json_wf_arr: "(\<And>v. v \<in> set xs \<Longrightarrow> json_wf v) \<Longrightarrow> json_wf (JArr xs)"
| json_wf_obj: "bt_wf m \<Longrightarrow> (\<And>k v. (k, v) \<in> set m \<Longrightarrow> json_wf v) \<Longrightarrow> json_wf (JObj m)"

inductive_cases json_wf_objE: "json_wf (JObj m)"
inductive_simps json_wf_simps [simp]:
  "json_wf JNull" "json_wf (JBool b)" "json_wf (JNum n)" "json_wf (JStr s)" "json_wf (JArr xs)"

lemma json_wf_obj_iff: "json_wf (JObj m) \<longleftrightarrow> bt_wf m \<and> (\<forall>k v. bt_lookup k m = Some v \<longrightarrow> json_wf v)"
proof
  assume "json_wf (JObj m)"
  then show "bt_wf m \<and> (\<forall>k v. bt_lookup k m = Some v \<longrightarrow> json_wf v)"
    by (auto elim!: json_wf_objE dest: bt_lookup_Some_in)
next
  assume "bt_wf m \<and> (\<forall>k v. bt_lookup k m = Some v \<longrightarrow> json_wf v)"
  then show "json_wf (JObj m)"
    by (auto intro!: json_wf_obj dest: bt_lookup_in)
qed

section \<open>JSON Merge Patch\<close>

text \<open>
  \<open>merge_patch\<close>: an object patch is merged key by key into the target, which is first
  replaced by an empty object if it is none; a null member removes its key; any other patch
  replaces the target.  \<open>merge_entries\<close> is the loop over the members of the patch.
\<close>

fun merge_patch :: "json \<Rightarrow> json \<Rightarrow> json"
  and merge_entries :: "json_map \<Rightarrow> (string \<times> json) list \<Rightarrow> json_map" where
  "merge_patch target (JObj patch) =
     JObj (merge_entries (case target of JObj m \<Rightarrow> m | _ \<Rightarrow> []) patch)"
| "merge_patch target non_object = non_object"
| "merge_entries m [] = m"
| "merge_entries m ((key, val) # rest) =
     merge_entries
       (if is_null val then bt_remove key m
        else bt_insert key
               (merge_patch (case bt_lookup key m of Some entry \<Rightarrow> entry | None \<Rightarrow> JNull) val) m)
       rest"

text \<open>The object a patch is merged into.\<close>

definition merge_base :: "json \<Rightarrow> json_map" where
  "merge_base target = (case target of JObj m \<Rightarrow> m | _ \<Rightarrow> [])"

text \<open>What the merge does to one key.\<close>

definition merge_key :: "json option \<Rightarrow> json option \<Rightarrow> json option" where
  "merge_key old new =
     (case new of
        None \<Rightarrow> old
      | Some v \<Rightarrow> if v = JNull then None
                  else Some (merge_patch (case old of Some e \<Rightarrow> e | None \<Rightarrow> JNull) v))"

lemma merge_base_simps [simp]: "merge_base (JObj m) = m" "merge_base JNull = []"
  by (simp_all add: merge_base_def)

lemma merge_patch_obj [simp]: "merge_patch target (JObj p) = JObj (merge_entries (merge_base target) p)"
  by (simp add: merge_base_def merge_patch.simps(1))

declare merge_patch.simps(1) [simp del]

lemma bt_wf_merge_entries: "bt_wf m \<Longrightarrow> bt_wf (merge_entries m p)"
proof (induction p arbitrary: m)
  case (Cons e p)
  then show ?case by (cases e) (simp add: bt_wf_intros)
qed simp

lemma bt_lookup_merge_entries:
  "bt_wf p \<Longrightarrow> bt_lookup k (merge_entries m p) = merge_key (bt_lookup k m) (bt_lookup k p)"
proof (induction p arbitrary: m)
  case (Cons e p)
  obtain key v where e: "e = (key, v)" by (cases e)
  have absent: "bt_lookup key p = None"
    using Cons.prems by (auto simp: e bt_wf_Cons bt_lookup_None_iff)
  show ?case
    using Cons absent by (auto simp: e bt_wf_Cons merge_key_def split: option.splits)
qed (simp add: merge_key_def)

lemma json_wf_base: "json_wf t \<Longrightarrow> json_wf (JObj (merge_base t))"
  by (cases t) (auto simp: merge_base_def intro: json_wf_obj)

lemma size_bt_lookup: "bt_lookup k m = Some v \<Longrightarrow> size v < size (JObj m)"
  by (induction m) (auto split: if_splits)

text \<open>A merge of well-formed values is well formed.\<close>

lemma merge_patch_wf_aux: "json_wf p \<Longrightarrow> json_wf t \<Longrightarrow> json_wf (merge_patch t p)"
proof (induction p arbitrary: t rule: measure_induct_rule [where f = size])
  case (less p)
  show ?case
  proof (cases "\<exists>m. p = JObj m")
    case True
    then obtain m where p: "p = JObj m" by blast
    have wf: "bt_wf m" using less.prems by (simp add: p json_wf_obj_iff)
    have base: "json_wf (JObj (merge_base t))" by (rule json_wf_base [OF less.prems(2)])
    have IH: "json_wf (merge_patch e v)" if "bt_lookup k m = Some v" "json_wf e" for k v e
      using less.IH [of v e] less.prems(1) size_bt_lookup [OF that(1)] that
      by (simp add: p json_wf_obj_iff)
    have "json_wf w" if "merge_key (bt_lookup k (merge_base t)) (bt_lookup k m) = Some w" for k w
      using that base IH [of k] by (auto simp: merge_key_def json_wf_obj_iff split: option.splits if_splits)
    then show ?thesis
      using base wf by (simp add: p json_wf_obj_iff bt_wf_merge_entries bt_lookup_merge_entries)
  next
    case False
    then show ?thesis using less.prems by (cases p) auto
  qed
qed

text \<open>Applying a patch a second time changes nothing.\<close>

lemma merge_patch_idem_aux:
  "json_wf p \<Longrightarrow> json_wf t \<Longrightarrow> merge_patch (merge_patch t p) p = merge_patch t p"
proof (induction p arbitrary: t rule: measure_induct_rule [where f = size])
  case (less p)
  show ?case
  proof (cases "\<exists>m. p = JObj m")
    case True
    then obtain m where p: "p = JObj m" by blast
    have wf: "bt_wf m" and members: "\<And>k v. bt_lookup k m = Some v \<Longrightarrow> json_wf v"
      using less.prems by (auto simp: p json_wf_obj_iff)
    have base: "bt_wf (merge_base t)" "\<And>k v. bt_lookup k (merge_base t) = Some v \<Longrightarrow> json_wf v"
      using json_wf_base [OF less.prems(2)] by (auto simp: json_wf_obj_iff)
    have IH: "merge_patch (merge_patch e v) v = merge_patch e v"
      if "bt_lookup k m = Some v" "json_wf e" for k v e
      using less.IH [of v e] that members by (auto simp: p dest: size_bt_lookup)
    have "merge_key (merge_key (bt_lookup k (merge_base t)) (bt_lookup k m)) (bt_lookup k m)
            = merge_key (bt_lookup k (merge_base t)) (bt_lookup k m)" for k
      using base(2) [of k] IH [of k] by (auto simp: merge_key_def split: option.splits)
    then have "merge_entries (merge_entries (merge_base t) m) m = merge_entries (merge_base t) m"
      by (intro bt_eqI) (simp_all add: wf base bt_wf_merge_entries bt_lookup_merge_entries)
    then show ?thesis by (simp add: p)
  next
    case False
    then show ?thesis by (cases p) auto
  qed
qed

text \<open>The merge implements RFC 7386: merging a well-formed patch into a well-formed value gives a
  well-formed value and is idempotent, and an object patch gives an object in which a key the patch
  lacks is kept, a key the patch sets to null is absent, and any other is merged recursively.\<close>

theorem merge_patch_rfc7386:
  assumes "json_wf p" and "json_wf t"
  shows "json_wf (merge_patch t p) \<and> merge_patch (merge_patch t p) p = merge_patch t p
    \<and> (\<forall>m. p = JObj m \<longrightarrow> (\<exists>r. merge_patch t p = JObj r
          \<and> (\<forall>k. bt_lookup k r
               = (case bt_lookup k m of
                    None \<Rightarrow> bt_lookup k (merge_base t)
                  | Some JNull \<Rightarrow> None
                  | Some v \<Rightarrow> Some (merge_patch (case bt_lookup k (merge_base t) of Some e \<Rightarrow> e | None \<Rightarrow> JNull) v)))))"
proof (intro conjI allI impI)
  fix m assume p: "p = JObj m"
  with assms(1) have "bt_wf m" by (simp add: json_wf_obj_iff)
  then show "\<exists>r. merge_patch t p = JObj r \<and> (\<forall>k. bt_lookup k r
               = (case bt_lookup k m of
                    None \<Rightarrow> bt_lookup k (merge_base t)
                  | Some JNull \<Rightarrow> None
                  | Some v \<Rightarrow> Some (merge_patch (case bt_lookup k (merge_base t) of Some e \<Rightarrow> e | None \<Rightarrow> JNull) v)))"
    by (auto simp: p bt_lookup_merge_entries merge_key_def split: option.splits json.splits)
qed (use assms in \<open>simp_all add: merge_patch_wf_aux merge_patch_idem_aux\<close>)

lemma merge_patch_rfc7386_witness:
  "merge_patch (merge_patch (JObj [(''a'', JBool True)]) (JObj [(''a'', JNull)])) (JObj [(''a'', JNull)])
     = merge_patch (JObj [(''a'', JBool True)]) (JObj [(''a'', JNull)])"
proof -
  have "json_wf (JObj [(''a'', JNull)])" "json_wf (JObj [(''a'', JBool True)])"
    by (auto simp: bt_wf_def intro!: json_wf_obj)
  from merge_patch_rfc7386 [OF this] show ?thesis by blast
qed

end
