(* ===== verification/Capability.thy ===== *)
theory Capability
  imports Json
begin

text \<open>
  The capability registry and the permission decision of \<open>floatile-core/src/capability.rs\<close>:
  the table of capabilities, the parser of a manifest's parameters, \<open>decide\<close>, and the check
  that an instance grant stays within the plugin's.  Free error texts are left out, the
  variants and the capability they name are kept.

  \<open>scope_order\<close> states what a comparison of scopes promises to the code that grants by it:
  a scope within another allows nothing more.  It is interpreted in \<open>Distribution\<close> on the
  comparison of upgrade plans; the comparison of instance grants below satisfies it only on
  the pairs singled out by \<open>proper_narrowing\<close>.
\<close>

section \<open>The registry\<close>

datatype capability_id =
    UiUpdateState
  | LogWrite
  | ClockRead
  | StorageRead
  | StorageWrite
  | TimerSchedule
  | ThemeSubscribe
  | SystemCpu
  | SystemMemory
  | NetworkHttps

datatype capability_exposure = Inherent | Declared
datatype capability_param_kind = ParamsNone | ParamsStorage | ParamsTimer | ParamsMetrics | ParamsNetwork
datatype capability_risk = RiskInherent | RiskL0 | RiskL2
datatype capability_execution = Sync | SyncAndOperation

record capability_definition =
  cd_id :: capability_id
  cd_name :: string
  cd_exposure :: capability_exposure
  cd_params :: capability_param_kind
  cd_risk :: capability_risk
  cd_execution :: capability_execution
  cd_wit_interface :: string
  cd_wit_functions :: "string list"
  cd_sdk_surface :: string
  cd_author_section :: "string option"
  cd_audit_redaction :: string

definition CAPABILITY_REGISTRY :: "capability_definition list" where
  "CAPABILITY_REGISTRY = [
     \<lparr>cd_id = UiUpdateState, cd_name = ''ui:update-state'', cd_exposure = Inherent,
       cd_params = ParamsNone, cd_risk = RiskInherent, cd_execution = Sync,
       cd_wit_interface = ''host-ui'', cd_wit_functions = [''update-state''],
       cd_sdk_surface = ''ctx.state'', cd_author_section = None,
       cd_audit_redaction = ''size-and-error-path-only''\<rparr>,
     \<lparr>cd_id = LogWrite, cd_name = ''log:write'', cd_exposure = Inherent,
       cd_params = ParamsNone, cd_risk = RiskInherent, cd_execution = Sync,
       cd_wit_interface = ''host-log'', cd_wit_functions = [''log''],
       cd_sdk_surface = ''ctx.log'', cd_author_section = None,
       cd_audit_redaction = ''message-length-only''\<rparr>,
     \<lparr>cd_id = ClockRead, cd_name = ''clock:read'', cd_exposure = Inherent,
       cd_params = ParamsNone, cd_risk = RiskInherent, cd_execution = Sync,
       cd_wit_interface = ''host-clock'', cd_wit_functions = [''now''],
       cd_sdk_surface = ''ctx.clock'', cd_author_section = None,
       cd_audit_redaction = ''no-result-values''\<rparr>,
     \<lparr>cd_id = StorageRead, cd_name = ''storage:read'', cd_exposure = Declared,
       cd_params = ParamsStorage, cd_risk = RiskL0, cd_execution = SyncAndOperation,
       cd_wit_interface = ''host-storage'', cd_wit_functions = [''get'', ''submit-get'', ''take-get-result''],
       cd_sdk_surface = ''ctx.storage'', cd_author_section = Some ''storage'',
       cd_audit_redaction = ''key-metadata-no-values''\<rparr>,
     \<lparr>cd_id = StorageWrite, cd_name = ''storage:write'', cd_exposure = Declared,
       cd_params = ParamsStorage, cd_risk = RiskL0, cd_execution = Sync,
       cd_wit_interface = ''host-storage'', cd_wit_functions = [''set'', ''delete''],
       cd_sdk_surface = ''ctx.storage'', cd_author_section = Some ''storage'',
       cd_audit_redaction = ''key-and-size-no-values''\<rparr>,
     \<lparr>cd_id = TimerSchedule, cd_name = ''timer:schedule'', cd_exposure = Declared,
       cd_params = ParamsTimer, cd_risk = RiskL0, cd_execution = Sync,
       cd_wit_interface = ''host-timer'', cd_wit_functions = [''schedule'', ''cancel''],
       cd_sdk_surface = ''ctx.timer'', cd_author_section = Some ''timer'',
       cd_audit_redaction = ''delay-and-budget-only''\<rparr>,
     \<lparr>cd_id = ThemeSubscribe, cd_name = ''theme:subscribe'', cd_exposure = Declared,
       cd_params = ParamsNone, cd_risk = RiskL0, cd_execution = Sync,
       cd_wit_interface = ''host-theme'', cd_wit_functions = [''get-token'', ''subscribe'', ''unsubscribe''],
       cd_sdk_surface = ''ctx.theme'', cd_author_section = Some ''theme'',
       cd_audit_redaction = ''token-name-no-values''\<rparr>,
     \<lparr>cd_id = SystemCpu, cd_name = ''system:cpu'', cd_exposure = Declared,
       cd_params = ParamsMetrics, cd_risk = RiskL0, cd_execution = Sync,
       cd_wit_interface = ''host-metrics'', cd_wit_functions = [''cpu-percent''],
       cd_sdk_surface = ''ctx.metrics'', cd_author_section = Some ''metrics'',
       cd_audit_redaction = ''result-bucket-only''\<rparr>,
     \<lparr>cd_id = SystemMemory, cd_name = ''system:memory'', cd_exposure = Declared,
       cd_params = ParamsNone, cd_risk = RiskL0, cd_execution = Sync,
       cd_wit_interface = ''host-metrics'', cd_wit_functions = [''memory''],
       cd_sdk_surface = ''ctx.metrics'', cd_author_section = Some ''metrics'',
       cd_audit_redaction = ''result-bucket-only''\<rparr>,
     \<lparr>cd_id = NetworkHttps, cd_name = ''network:https'', cd_exposure = Declared,
       cd_params = ParamsNetwork, cd_risk = RiskL2, cd_execution = SyncAndOperation,
       cd_wit_interface = ''host-http'', cd_wit_functions = [''submit'', ''take-result''],
       cd_sdk_surface = ''ctx.http'', cd_author_section = Some ''httpTemplates'',
       cd_audit_redaction = ''template-origin-status-and-size-only''\<rparr>]"


text \<open>\<open>#[repr(usize)]\<close>: the cast of a capability is its position; the derived order follows it.\<close>

fun cap_index :: "capability_id \<Rightarrow> nat" where
  "cap_index UiUpdateState = 0"
| "cap_index LogWrite = 1"
| "cap_index ClockRead = 2"
| "cap_index StorageRead = 3"
| "cap_index StorageWrite = 4"
| "cap_index TimerSchedule = 5"
| "cap_index ThemeSubscribe = 6"
| "cap_index SystemCpu = 7"
| "cap_index SystemMemory = 8"
| "cap_index NetworkHttps = 9"

lemma cap_index_inject: "cap_index a = cap_index b \<longleftrightarrow> a = b"
  by (cases a; cases b) simp_all

instantiation capability_id :: linorder
begin

definition less_eq_capability_id :: "capability_id \<Rightarrow> capability_id \<Rightarrow> bool" where
  "less_eq_capability_id a b \<longleftrightarrow> cap_index a \<le> cap_index b"

definition less_capability_id :: "capability_id \<Rightarrow> capability_id \<Rightarrow> bool" where
  "less_capability_id a b \<longleftrightarrow> cap_index a < cap_index b"

instance
  by standard (auto simp: less_eq_capability_id_def less_capability_id_def cap_index_inject)

end

definition cap_definition :: "capability_id \<Rightarrow> capability_definition" where
  "cap_definition c = CAPABILITY_REGISTRY ! cap_index c"

definition cap_name :: "capability_id \<Rightarrow> string" where
  "cap_name c = cd_name (cap_definition c)"

definition is_inherent :: "capability_id \<Rightarrow> bool" where
  "is_inherent c \<longleftrightarrow> cd_exposure (cap_definition c) = Inherent"

definition cap_from_name :: "string \<Rightarrow> capability_id option" where
  "cap_from_name name = map_option cd_id (find (\<lambda>d. cd_name d = name) CAPABILITY_REGISTRY)"

definition cap_param_kind :: "capability_id \<Rightarrow> capability_param_kind" where
  "cap_param_kind c = cd_params (cap_definition c)"

text \<open>The table read at each capability.\<close>

lemma cap_name_simps [simp, code_names]:
  "cap_name UiUpdateState = ''ui:update-state''"
  "cap_name LogWrite = ''log:write''"
  "cap_name ClockRead = ''clock:read''"
  "cap_name StorageRead = ''storage:read''"
  "cap_name StorageWrite = ''storage:write''"
  "cap_name TimerSchedule = ''timer:schedule''"
  "cap_name ThemeSubscribe = ''theme:subscribe''"
  "cap_name SystemCpu = ''system:cpu''"
  "cap_name SystemMemory = ''system:memory''"
  "cap_name NetworkHttps = ''network:https''"
  by (simp_all add: cap_name_def cap_definition_def CAPABILITY_REGISTRY_def)

lemma cap_param_kind_simps [simp]:
  "cap_param_kind UiUpdateState = ParamsNone"
  "cap_param_kind LogWrite = ParamsNone"
  "cap_param_kind ClockRead = ParamsNone"
  "cap_param_kind StorageRead = ParamsStorage"
  "cap_param_kind StorageWrite = ParamsStorage"
  "cap_param_kind TimerSchedule = ParamsTimer"
  "cap_param_kind ThemeSubscribe = ParamsNone"
  "cap_param_kind SystemCpu = ParamsMetrics"
  "cap_param_kind SystemMemory = ParamsNone"
  "cap_param_kind NetworkHttps = ParamsNetwork"
  by (simp_all add: cap_param_kind_def cap_definition_def CAPABILITY_REGISTRY_def)

lemma is_inherent_iff: "is_inherent c \<longleftrightarrow> c = UiUpdateState \<or> c = LogWrite \<or> c = ClockRead"
  by (cases c) (simp_all add: is_inherent_def cap_definition_def CAPABILITY_REGISTRY_def)

lemma cap_from_name_name: "cap_from_name (cap_name c) = Some c"
  by (cases c) (simp_all add: cap_from_name_def CAPABILITY_REGISTRY_def)

lemma cap_from_name_Some: "cap_from_name s = Some c \<Longrightarrow> cap_name c = s"
  by (auto simp: cap_from_name_def CAPABILITY_REGISTRY_def split: if_splits)

section \<open>Parameters, grants and decisions\<close>

datatype capability_params =
    Storage "string list" u64
  | Timer u32 u32
  | Metrics u32
  | Network "string list" u32 u64 u64

datatype effective_grant = Prompted | Explicit | DerivedFromInstall
datatype trust_level = TrustNone | TrustDev | SignedUntrusted | SignedTrusted

record grant =
  g_capability :: capability_id
  g_params :: "capability_params option"
  g_effective :: effective_grant

record grants =
  gs_plugin :: string
  gs_caps :: "grant list"
  gs_trust :: trust_level

record instance_grant =
  ig_instance :: u64
  ig_caps :: "grant list"

datatype deny_reason = NotGrantedReason | ScopeViolation | QuotaExceeded | EnvironmentUnavailable | InvalidInput
datatype permission_decision = Allowed | Denied deny_reason

datatype capability_error =
    UnknownCapability string
  | InvalidParams string
  | NotGranted capability_id
  | ExceedsPluginGrant capability_id

definition grants_find :: "capability_id \<Rightarrow> grant list \<Rightarrow> grant option" where
  "grants_find c caps = find (\<lambda>g. g_capability g = c) caps"

lemma grants_find_Some: "grants_find c caps = Some g \<Longrightarrow> g \<in> set caps \<and> g_capability g = c"
  by (auto simp: grants_find_def find_Some_iff)

section \<open>Parsing parameters\<close>

definition invalid_params :: "capability_id \<Rightarrow> capability_error" where
  "invalid_params c = InvalidParams (cap_name c)"

definition validate_storage_key :: "string \<Rightarrow> (unit, capability_error) result" where
  "validate_storage_key key =
     (if key = [] then Err (InvalidParams ''storage:*'')
      else if CHR 0x00 \<in> set key \<or> 256 < char_count key then Err (InvalidParams ''storage:*'')
      else Ok ())"

text \<open>An exact HTTPS origin; \<open>drop 8\<close> is the slice behind the scheme.\<close>

definition validate_https_origin :: "string \<Rightarrow> (unit, capability_error) result" where
  "validate_https_origin origin =
     (if \<not> starts_with origin ''https://''
         \<or> 255 < length origin
         \<or> drop 8 origin = []
         \<or> CHR ''/'' \<in> set (drop 8 origin)
         \<or> CHR ''@'' \<in> set origin
         \<or> CHR ''?'' \<in> set origin
         \<or> CHR ''#'' \<in> set origin
         \<or> has_whitespace origin
      then Err (InvalidParams ''network:https'')
      else Ok ())"

definition bounded_u32 :: "json \<Rightarrow> capability_id \<Rightarrow> u32 \<Rightarrow> u32 \<Rightarrow> (u32, capability_error) result" where
  "bounded_u32 v c lo hi =
     try_bind (ok_or (invalid_params c) (as_u32 v))
       (\<lambda>n. if lo \<le> n \<and> n \<le> hi then Ok n else Err (invalid_params c))"

definition bounded_u64 :: "json \<Rightarrow> capability_id \<Rightarrow> u64 \<Rightarrow> u64 \<Rightarrow> (u64, capability_error) result" where
  "bounded_u64 v c lo hi =
     try_bind (ok_or (invalid_params c) (as_u64 v))
       (\<lambda>n. if lo \<le> n \<and> n \<le> hi then Ok n else Err (invalid_params c))"

text \<open>The loop over the elements of \<open>keys\<close>.\<close>

definition parse_key :: "capability_id \<Rightarrow> json \<Rightarrow> string list \<Rightarrow> (string list, capability_error) result" where
  "parse_key c v keys =
     try_bind (ok_or (invalid_params c) (as_str v))
       (\<lambda>key. try_bind (validate_storage_key key) (\<lambda>_. Ok (keys @ [key])))"

definition parse_storage_field ::
  "capability_id \<Rightarrow> string \<times> json \<Rightarrow> string list \<times> u64 \<Rightarrow> (string list \<times> u64, capability_error) result"
where
  "parse_storage_field c field acc =
     (case field of (k, v) \<Rightarrow> case acc of (keys, max_bytes) \<Rightarrow>
        if k = ''keys'' then
          try_bind (ok_or (invalid_params c) (as_array v))
            (\<lambda>arr. try_bind (try_fold (parse_key c) arr keys) (\<lambda>keys'. Ok (keys', max_bytes)))
        else if k = ''maxBytes'' then
          try_bind (ok_or (invalid_params c) (as_u64 v)) (\<lambda>n. Ok (keys, n))
        else Err (invalid_params c))"

definition parse_timer_field ::
  "capability_id \<Rightarrow> string \<times> json \<Rightarrow> u32 \<times> u32 \<Rightarrow> (u32 \<times> u32, capability_error) result"
where
  "parse_timer_field c field acc =
     (case field of (k, v) \<Rightarrow> case acc of (max_per_minute, max_active) \<Rightarrow>
        if k = ''maxPerMinute'' then
          try_bind (ok_or (invalid_params c) (as_u32 v)) (\<lambda>n. Ok (n, max_active))
        else if k = ''maxActive'' then
          try_bind (ok_or (invalid_params c) (as_u32 v)) (\<lambda>n. Ok (max_per_minute, n))
        else Err (invalid_params c))"

definition parse_metrics_field ::
  "capability_id \<Rightarrow> string \<times> json \<Rightarrow> u32 \<Rightarrow> (u32, capability_error) result"
where
  "parse_metrics_field c field rate =
     (case field of (k, v) \<Rightarrow>
        if k = ''sampleRateHz'' then ok_or (invalid_params c) (as_u32 v)
        else Err (invalid_params c))"

definition parse_origin :: "capability_id \<Rightarrow> json \<Rightarrow> string list \<Rightarrow> (string list, capability_error) result" where
  "parse_origin c v origins =
     try_bind (ok_or (invalid_params c) (as_str v))
       (\<lambda>origin. try_bind (validate_https_origin origin)
          (\<lambda>_. if origin \<in> set origins then Err (invalid_params c) else Ok (origins @ [origin])))"

type_synonym network_acc = "string list \<times> u32 \<times> u64 \<times> u64"

definition parse_network_field ::
  "capability_id \<Rightarrow> string \<times> json \<Rightarrow> network_acc \<Rightarrow> (network_acc, capability_error) result"
where
  "parse_network_field c field acc =
     (case field of (k, v) \<Rightarrow> case acc of (origins, rate, bytes, timeout) \<Rightarrow>
        if k = ''origins'' then
          try_bind (ok_or (invalid_params c) (as_array v))
            (\<lambda>vs. if vs = [] \<or> 16 < length vs then Err (invalid_params c)
                  else try_bind (try_fold (parse_origin c) vs origins)
                         (\<lambda>os. Ok (os, rate, bytes, timeout)))
        else if k = ''maxRequestsPerMinute'' then
          try_bind (bounded_u32 v c 1 600) (\<lambda>n. Ok (origins, n, bytes, timeout))
        else if k = ''maxResponseBytes'' then
          try_bind (bounded_u64 v c 1 (1024 * 1024)) (\<lambda>n. Ok (origins, rate, n, timeout))
        else if k = ''maxTimeoutMs'' then
          try_bind (bounded_u64 v c 100 30000) (\<lambda>n. Ok (origins, rate, bytes, n))
        else Err (invalid_params c))"

definition default_params :: "capability_id \<Rightarrow> (capability_params option, capability_error) result" where
  "default_params c =
     (case cap_param_kind c of
        ParamsStorage \<Rightarrow> Ok (Some (Storage [] (64 * 1024)))
      | ParamsTimer \<Rightarrow> Ok (Some (Timer 60 8))
      | ParamsMetrics \<Rightarrow> Ok (Some (Metrics 1))
      | ParamsNetwork \<Rightarrow> Err (invalid_params c)
      | ParamsNone \<Rightarrow> Ok None)"

text \<open>One branch per family of parameters, over the members of the object.\<close>

definition parse_params_object ::
  "capability_id \<Rightarrow> json_map \<Rightarrow> (capability_params, capability_error) result"
where
  "parse_params_object c obj =
     (case cap_param_kind c of
        ParamsStorage \<Rightarrow>
          try_bind (try_fold (parse_storage_field c) obj ([], 64 * 1024))
            (\<lambda>(keys, max_bytes). Ok (Storage keys max_bytes))
      | ParamsTimer \<Rightarrow>
          try_bind (try_fold (parse_timer_field c) obj (60, 8))
            (\<lambda>(max_per_minute, max_active). Ok (Timer max_per_minute max_active))
      | ParamsMetrics \<Rightarrow>
          try_bind (try_fold (parse_metrics_field c) obj 1) (\<lambda>rate. Ok (Metrics rate))
      | ParamsNetwork \<Rightarrow>
          try_bind (try_fold (parse_network_field c) obj ([], 30, 256 * 1024, 10000))
            (\<lambda>(origins, rate, bytes, timeout).
               if origins = [] then Err (invalid_params c)
               else Ok (Network origins rate bytes timeout))
      | ParamsNone \<Rightarrow> Err (invalid_params c))"

definition parse_capability_params ::
  "capability_id \<Rightarrow> json option \<Rightarrow> (capability_params option, capability_error) result"
where
  "parse_capability_params c params =
     (case params of
        None \<Rightarrow> default_params c
      | Some json \<Rightarrow>
          try_bind (ok_or (invalid_params c) (as_object json))
            (\<lambda>obj. try_bind (parse_params_object c obj) (\<lambda>p. Ok (Some p))))"

section \<open>Decision and narrowing\<close>

fun decide_params :: "capability_params \<Rightarrow> capability_params \<Rightarrow> permission_decision" where
  "decide_params (Storage keys max_bytes) (Storage rk rb) =
     (if \<not> (keys = [] \<or> (\<forall>k \<in> set rk. k \<in> set keys)) then Denied ScopeViolation
      else if max_bytes < rb then Denied QuotaExceeded
      else Allowed)"
| "decide_params (Timer max_per_minute max_active) (Timer rp ra) =
     (if max_per_minute < rp \<or> max_active < ra then Denied QuotaExceeded else Allowed)"
| "decide_params (Metrics rate) (Metrics rr) =
     (if rate < rr then Denied QuotaExceeded else Allowed)"
| "decide_params (Network origins rate bytes timeout) (Network ro rr rb rt) =
     (if \<not> (\<forall>origin \<in> set ro. origin \<in> set origins) then Denied ScopeViolation
      else if rate < rr \<or> bytes < rb \<or> timeout < rt then Denied QuotaExceeded
      else Allowed)"
| "decide_params _ _ = Denied InvalidInput"

definition decide :: "grant option \<Rightarrow> capability_params option \<Rightarrow> permission_decision" where
  "decide g request =
     (case g of
        None \<Rightarrow> Denied NotGrantedReason
      | Some gr \<Rightarrow>
          (case request of
             None \<Rightarrow> (if g_params gr = None then Allowed else Denied ScopeViolation)
           | Some r \<Rightarrow>
               (case g_params gr of
                  None \<Rightarrow> Denied ScopeViolation
                | Some granted \<Rightarrow> decide_params granted r)))"

fun instance_params_within :: "capability_params \<Rightarrow> capability_params \<Rightarrow> bool" where
  "instance_params_within (Storage keys max_bytes) (Storage ik ib) =
     ((keys = [] \<or> (\<forall>k \<in> set ik. k \<in> set keys)) \<and> ib \<le> max_bytes)"
| "instance_params_within (Timer max_per_minute max_active) (Timer ip ia) =
     (ip \<le> max_per_minute \<and> ia \<le> max_active)"
| "instance_params_within (Metrics rate) (Metrics ir) = (ir \<le> rate)"
| "instance_params_within (Network origins rate bytes timeout) (Network io ir ib it) =
     ((\<forall>origin \<in> set io. origin \<in> set origins) \<and> ir \<le> rate \<and> ib \<le> bytes \<and> it \<le> timeout)"
| "instance_params_within _ _ = False"

text \<open>\<open>params_within(plugin, instance)\<close> of \<open>capability.rs\<close>.\<close>

fun instance_within :: "capability_params option \<Rightarrow> capability_params option \<Rightarrow> bool" where
  "instance_within None None = True"
| "instance_within None (Some _) = False"
| "instance_within (Some _) None = True"
| "instance_within (Some p) (Some i) = instance_params_within p i"

definition narrow_check :: "grants \<Rightarrow> grant \<Rightarrow> (unit, capability_error) result" where
  "narrow_check plugin cap =
     try_bind (ok_or (NotGranted (g_capability cap)) (grants_find (g_capability cap) (gs_caps plugin)))
       (\<lambda>granted. if instance_within (g_params granted) (g_params cap) then Ok ()
                  else Err (ExceedsPluginGrant (g_capability cap)))"

definition narrow_instance :: "grants \<Rightarrow> u64 \<Rightarrow> grant list \<Rightarrow> (instance_grant, capability_error) result" where
  "narrow_instance plugin inst caps =
     try_bind (try_all (narrow_check plugin) caps)
       (\<lambda>_. Ok \<lparr>ig_instance = inst, ig_caps = caps\<rparr>)"

section \<open>What the parser guarantees\<close>

fun network_ok :: "network_acc \<Rightarrow> bool" where
  "network_ok (origins, rate, bytes, timeout) \<longleftrightarrow>
     length origins \<le> 16 \<and> distinct origins
     \<and> (\<forall>origin \<in> set origins. validate_https_origin origin = Ok ())
     \<and> 1 \<le> rate \<and> rate \<le> 600 \<and> 1 \<le> bytes \<and> bytes \<le> 1048576 \<and> 100 \<le> timeout \<and> timeout \<le> 30000"

text \<open>The parameters the documentation of each capability admits.\<close>

definition params_valid :: "capability_id \<Rightarrow> capability_params option \<Rightarrow> bool" where
  "params_valid c p =
     (case p of
        None \<Rightarrow> cap_param_kind c = ParamsNone
      | Some (Storage keys max_bytes) \<Rightarrow>
          cap_param_kind c = ParamsStorage \<and> (\<forall>key \<in> set keys. validate_storage_key key = Ok ())
      | Some (Timer max_per_minute max_active) \<Rightarrow> cap_param_kind c = ParamsTimer
      | Some (Metrics rate) \<Rightarrow> cap_param_kind c = ParamsMetrics
      | Some (Network origins rate bytes timeout) \<Rightarrow>
          cap_param_kind c = ParamsNetwork \<and> origins \<noteq> [] \<and> network_ok (origins, rate, bytes, timeout))"

lemma parse_keys_valid:
  assumes "try_fold (parse_key c) vs keys = Ok keys'"
    and "\<forall>key \<in> set keys. validate_storage_key key = Ok ()"
  shows "\<forall>key \<in> set keys'. validate_storage_key key = Ok ()"
  by (rule try_fold_invariant [OF assms(1)]) (use assms(2) in \<open>auto simp: parse_key_def\<close>)

lemma parse_storage_valid:
  assumes "try_fold (parse_storage_field c) obj acc = Ok acc'"
    and "\<forall>key \<in> set (fst acc). validate_storage_key key = Ok ()"
  shows "\<forall>key \<in> set (fst acc'). validate_storage_key key = Ok ()"
  by (rule try_fold_invariant [OF assms(1)])
    (use assms(2) in \<open>auto simp: parse_storage_field_def intro: parse_keys_valid [THEN bspec] split: if_splits\<close>)

definition origins_ok :: "string list \<Rightarrow> bool" where
  "origins_ok os \<longleftrightarrow> distinct os \<and> (\<forall>origin \<in> set os. validate_https_origin origin = Ok ())"

lemma parse_origins_ok:
  "try_fold (parse_origin c) vs os = Ok os' \<Longrightarrow> origins_ok os \<Longrightarrow>
     origins_ok os' \<and> length os' = length os + length vs"
proof (induction vs arbitrary: os)
  case (Cons v vs)
  then obtain os1 where step: "parse_origin c v os = Ok os1" and rest: "try_fold (parse_origin c) vs os1 = Ok os'"
    by auto
  from step Cons.prems(2) have "origins_ok os1" "length os1 = Suc (length os)"
    by (auto simp: parse_origin_def origins_ok_def split: if_splits)
  with Cons.IH [OF rest] show ?case by simp
qed simp

lemma network_ok_iff:
  "network_ok (os, rate, bytes, timeout) \<longleftrightarrow>
     length os \<le> 16 \<and> origins_ok os
     \<and> 1 \<le> rate \<and> rate \<le> 600 \<and> 1 \<le> bytes \<and> bytes \<le> 1048576 \<and> 100 \<le> timeout \<and> timeout \<le> 30000"
  by (auto simp: origins_ok_def)

lemma parse_network_field_ok:
  assumes "parse_network_field c (k, v) acc = Ok acc'" and "network_ok acc"
    and "k = ''origins'' \<Longrightarrow> fst acc = []"
  shows "network_ok acc' \<and> (k \<noteq> ''origins'' \<longrightarrow> fst acc' = fst acc)"
proof -
  obtain os rate bytes timeout where acc: "acc = (os, rate, bytes, timeout)" by (cases acc)
  show ?thesis
  proof (cases "k = ''origins''")
    case True
    with assms(1) obtain vs os' where vs: "v = JArr vs" "length vs \<le> 16"
      and fold: "try_fold (parse_origin c) vs os = Ok os'" and acc': "acc' = (os', rate, bytes, timeout)"
      by (auto simp: parse_network_field_def acc split: if_splits)
    from parse_origins_ok [OF fold] assms(2,3) vs(2) True show ?thesis
      by (simp add: acc acc' network_ok_iff del: network_ok.simps)
  next
    case False
    with assms(1,2) show ?thesis
      by (auto simp: parse_network_field_def acc bounded_u32_def bounded_u64_def split: if_splits)
  qed
qed

lemma parse_network_ok:
  "try_fold (parse_network_field c) obj acc = Ok acc' \<Longrightarrow> distinct (map fst obj) \<Longrightarrow> network_ok acc \<Longrightarrow>
     (''origins'' \<in> fst ` set obj \<longrightarrow> fst acc = []) \<Longrightarrow> network_ok acc'"
proof (induction obj arbitrary: acc)
  case (Cons field obj)
  obtain k v where field: "field = (k, v)" by (cases field)
  from Cons.prems(1) obtain acc1 where step: "parse_network_field c (k, v) acc = Ok acc1"
    and rest: "try_fold (parse_network_field c) obj acc1 = Ok acc'" by (auto simp: field)
  have ok: "network_ok acc1 \<and> (k \<noteq> ''origins'' \<longrightarrow> fst acc1 = fst acc)"
    by (rule parse_network_field_ok [OF step Cons.prems(3)]) (use Cons.prems(4) field in auto)
  show ?case
    by (rule Cons.IH [OF rest]) (use ok Cons.prems(2,4) field in auto)
qed simp

lemma parse_params_valid_aux:
  assumes "parse_capability_params c params = Ok p" and "\<And>v. params = Some v \<Longrightarrow> json_wf v"
  shows "params_valid c p"
proof (cases params)
  case None
  with assms(1) show ?thesis
    by (auto simp: parse_capability_params_def default_params_def params_valid_def
        split: capability_param_kind.splits)
next
  case (Some v)
  with assms obtain obj q where v: "v = JObj obj" and q: "p = Some q" and parse: "parse_params_object c obj = Ok q"
    by (auto simp: parse_capability_params_def)
  have keys: "distinct (map fst obj)"
    using assms(2) [OF Some] by (simp add: v json_wf_obj_iff bt_wf_distinct)
  show ?thesis
  proof (cases "cap_param_kind c")
    case ParamsNetwork
    with parse obtain os rate bytes timeout
      where fold: "try_fold (parse_network_field c) obj ([], 30, 256 * 1024, 10000) = Ok (os, rate, bytes, timeout)"
        and ne: "os \<noteq> []" and q': "q = Network os rate bytes timeout"
      by (auto simp: parse_params_object_def split: if_splits)
    have "network_ok (os, rate, bytes, timeout)"
      by (rule parse_network_ok [OF fold keys]) simp_all
    with ne ParamsNetwork show ?thesis by (simp add: q q' params_valid_def)
  next
    case ParamsStorage
    with parse show ?thesis
      by (auto simp: parse_params_object_def q params_valid_def dest: parse_storage_valid)
  qed (use parse q in \<open>auto simp: parse_params_object_def params_valid_def\<close>)
qed

text \<open>A JSON encoding of valid parameters, in key order, that the parser reads back.\<close>

definition json_u64 :: "u64 \<Rightarrow> json" where
  "json_u64 n = JNum (PosInt n)"

fun params_json :: "capability_params \<Rightarrow> json" where
  "params_json (Storage keys max_bytes) =
     JObj [(''keys'', JArr (map JStr keys)), (''maxBytes'', json_u64 max_bytes)]"
| "params_json (Timer max_per_minute max_active) =
     JObj [(''maxActive'', json_u64 (ucast max_active)), (''maxPerMinute'', json_u64 (ucast max_per_minute))]"
| "params_json (Metrics rate) = JObj [(''sampleRateHz'', json_u64 (ucast rate))]"
| "params_json (Network origins rate bytes timeout) =
     JObj [(''maxRequestsPerMinute'', json_u64 (ucast rate)), (''maxResponseBytes'', json_u64 bytes),
           (''maxTimeoutMs'', json_u64 timeout), (''origins'', JArr (map JStr origins))]"

lemma as_u64_json_u64 [simp]: "as_u64 (json_u64 n) = Some n"
  by (simp add: json_u64_def)

lemma u32_try_from_ucast [simp]: "u32_try_from (ucast n) = Some n"
proof -
  have bound: "unat n < 2 ^ 32" using unsigned_less [of n, where ?'a = nat] by simp
  have eq: "unat (ucast n :: u64) = unat n"
    using bound by (simp add: unsigned_ucast_eq take_bit_nat_eq_self_iff)
  have "ucast (ucast n :: u64) = n"
    by (rule bit_word_eqI) (simp add: bit_simps)
  with bound eq show ?thesis by (simp add: u32_try_from_def)
qed

lemma as_u32_json_u64 [simp]: "as_u32 (json_u64 (ucast n)) = Some n"
  by (simp add: as_u32_def)

lemma json_wf_params_json: "json_wf (params_json p)"
proof (cases p)
  case (Storage keys b)
  then show ?thesis by (auto simp: json_u64_def bt_wf_def intro!: json_wf_obj json_wf_arr json_wf_str)
next
  case (Timer a b)
  then show ?thesis by (auto simp: json_u64_def bt_wf_def intro!: json_wf_obj)
next
  case (Metrics r)
  then show ?thesis by (auto simp: json_u64_def bt_wf_def intro!: json_wf_obj)
next
  case (Network os r b t)
  then show ?thesis by (auto simp: json_u64_def bt_wf_def intro!: json_wf_obj json_wf_arr json_wf_str)
qed

lemma parse_keys_all:
  "\<forall>key \<in> set ks. validate_storage_key key = Ok () \<Longrightarrow>
     try_fold (parse_key c) (map JStr ks) acc = Ok (acc @ ks)"
  by (induction ks arbitrary: acc) (auto simp: parse_key_def)

lemma parse_origins_all:
  "origins_ok (acc @ os) \<Longrightarrow> try_fold (parse_origin c) (map JStr os) acc = Ok (acc @ os)"
proof (induction os arbitrary: acc)
  case (Cons origin os)
  then have "validate_https_origin origin = Ok ()" "origin \<notin> set acc" by (auto simp: origins_ok_def)
  then have "parse_origin c (JStr origin) acc = Ok (acc @ [origin])" by (simp add: parse_origin_def)
  then show ?case using Cons.IH [of "acc @ [origin]"] Cons.prems by simp
qed simp

lemma parse_params_json:
  assumes "params_valid c (Some p)"
  shows "parse_params_object c (case params_json p of JObj m \<Rightarrow> m | _ \<Rightarrow> []) = Ok p"
proof (cases p)
  case (Storage keys b)
  with assms show ?thesis
    by (simp add: params_valid_def parse_params_object_def parse_storage_field_def parse_keys_all)
next
  case (Timer a b)
  with assms show ?thesis by (simp add: params_valid_def parse_params_object_def parse_timer_field_def)
next
  case (Metrics r)
  with assms show ?thesis by (simp add: params_valid_def parse_params_object_def parse_metrics_field_def)
next
  case (Network os r b t)
  with assms have "cap_param_kind c = ParamsNetwork" "os \<noteq> []" "network_ok (os, r, b, t)"
    by (simp_all add: params_valid_def)
  then show ?thesis
    using parse_origins_all [of "[]" os c] Network
    by (simp add: network_ok_iff parse_params_object_def parse_network_field_def bounded_u32_def
        bounded_u64_def del: network_ok.simps)
qed

lemma parse_params_json_Ok: "params_valid c (Some p) \<Longrightarrow> parse_capability_params c (Some (params_json p)) = Ok (Some p)"
  using parse_params_json [of c p] by (cases p) (simp_all add: parse_capability_params_def)

section \<open>Comparing scopes\<close>

text \<open>The decision on the parameters of a grant that was found.\<close>

definition params_allow :: "capability_params option \<Rightarrow> capability_params option \<Rightarrow> bool" where
  "params_allow p request =
     (case request of
        None \<Rightarrow> p = None
      | Some r \<Rightarrow> (case p of None \<Rightarrow> False | Some granted \<Rightarrow> decide_params granted r = Allowed))"

lemma decide_Allowed_iff: "decide g request = Allowed \<longleftrightarrow> (\<exists>gr. g = Some gr \<and> params_allow (g_params gr) request)"
  by (auto simp: decide_def params_allow_def split: option.splits)

text \<open>
  The contract of a comparison of scopes: it is reflexive and transitive, and a scope within
  another allows nothing the other refuses.
\<close>

locale scope_order =
  fixes inside :: "'p \<Rightarrow> 'p \<Rightarrow> bool"
    and allows :: "'p \<Rightarrow> 'r \<Rightarrow> bool"
  assumes within_refl: "inside p p"
    and within_trans: "inside p q \<Longrightarrow> inside q s \<Longrightarrow> inside p s"
    and within_allows: "inside p q \<Longrightarrow> allows p r \<Longrightarrow> allows q r"
begin

definition granted :: "('k \<Rightarrow> 'p option) \<Rightarrow> 'k \<Rightarrow> 'r \<Rightarrow> bool" where
  "granted m k r \<longleftrightarrow> (\<exists>p. m k = Some p \<and> allows p r)"

definition narrower :: "('k \<Rightarrow> 'p option) \<Rightarrow> ('k \<Rightarrow> 'p option) \<Rightarrow> bool" where
  "narrower new old \<longleftrightarrow> (\<forall>k p. new k = Some p \<longrightarrow> (\<exists>q. old k = Some q \<and> inside p q))"

lemma narrower_refl: "narrower m m"
  by (auto simp: narrower_def within_refl)

lemma narrower_trans:
  assumes "narrower a b" and "narrower b c"
  shows "narrower a c"
  unfolding narrower_def
proof (intro allI impI)
  fix k p
  assume "a k = Some p"
  with assms(1) obtain q where q: "b k = Some q" "inside p q" by (auto simp: narrower_def)
  with assms(2) obtain s where "c k = Some s" "inside q s" by (auto simp: narrower_def)
  with q show "\<exists>q. c k = Some q \<and> inside p q" by (blast intro: within_trans)
qed

text \<open>A narrower table of grants grants no request the wider one refuses.\<close>

lemma narrower_granted: "narrower new old \<Longrightarrow> granted new k r \<Longrightarrow> granted old k r"
  unfolding narrower_def granted_def by (blast intro: within_allows)

end

text \<open>The parser of permission parameters admits exactly the scopes the documentation allows: a well-formed
  JSON value parses to parameters of a capability if and only if they are valid for it (the right
  kind, valid storage keys, and for HTTPS between 1 and 16 distinct valid origins and the documented
  ranges).\<close>

theorem params_parser_exact:
  "(\<exists>v. json_wf v \<and> parse_capability_params c (Some v) = Ok (Some q)) = params_valid c (Some q)"
  using parse_params_valid_aux [of c _ "Some q"] parse_params_json_Ok [of c q] json_wf_params_json [of q]
  by blast

end
