(* ===== verification/Manifest.thy ===== *)
theory Manifest
  imports Capability
begin

text \<open>
  The plugin manifest and its validation, \<open>floatile-core/src/manifest.rs\<close>, in the order of
  the file: package paths, the records, the error codes, the validation of a manifest and of
  its HTTPS templates.  \<open>semver_parse\<close> is the third-party parser of semantic versions.  The
  lemmas show that an accepted package path stays under any root it is resolved against, that
  a plugin id is one path segment, and that every template of an accepted manifest lies within
  the network permission the manifest declares.
\<close>

definition ENGINE_API_VERSION :: string where
  "ENGINE_API_VERSION = ''1.2.0''"

definition MANIFEST_VERSION :: u32 where
  "MANIFEST_VERSION = 1"

section \<open>Records\<close>

datatype plugin_kind = Widget

record publisher =
  pub_id :: string
  pub_name :: string

record entrypoints =
  ep_ui :: string
  ep_logic :: string

record logical_size =
  ls_width :: ieee
  ls_height :: ieee

record sizes =
  sz_default :: logical_size
  sz_min :: logical_size
  sz_max :: logical_size
  sz_resizable :: bool

record permission_decl =
  pd_capability :: string
  pd_params :: "json option"

record http_template =
  ht_id :: string
  ht_method :: string
  ht_url :: string
  ht_query_params :: "string list"
  ht_credential_header :: string
  ht_allowed_statuses :: "u16 list"
  ht_max_response_bytes :: u64
  ht_timeout_ms :: u64
  ht_cache_ttl_ms :: u64
  ht_stale_if_error_ms :: u64
  ht_max_retries :: u8
  ht_retry_base_delay_ms :: u64

record manifest =
  mf_manifest_version :: u32
  mf_id :: string
  mf_name :: string
  mf_description :: "string option"
  mf_version :: string
  mf_publisher :: publisher
  mf_engine_api_version :: string
  mf_ui_api_version :: string
  mf_kind :: plugin_kind
  mf_entrypoints :: entrypoints
  mf_sizes :: sizes
  mf_permissions :: "permission_decl list"
  mf_http_templates :: "http_template list"
  mf_config_schema :: "string option"
  mf_storage_migration :: "u64 option"

datatype manifest_error =
    UnsupportedManifestVersion u32
  | InvalidPluginId string
  | InvalidName
  | InvalidSemver string
  | IncompatibleEngineApiVersion string string
  | UnsupportedUiApiVersion string
  | UnsupportedPluginType
  | InvalidEntrypoint string
  | InvalidSizes
  | ManifestUnknownCapability string
  | InherentCapabilityDeclared string
  | InvalidCapabilityParams string
  | InvalidPackagePath string
  | InvalidHttpTemplate

fun manifest_error_code :: "manifest_error \<Rightarrow> string" where
  "manifest_error_code (UnsupportedManifestVersion _) = ''FMAN_UNSUPPORTED_MANIFEST_VERSION''"
| "manifest_error_code (InvalidPluginId _) = ''FMAN_INVALID_PLUGIN_ID''"
| "manifest_error_code InvalidName = ''FMAN_INVALID_NAME''"
| "manifest_error_code (InvalidSemver _) = ''FMAN_INVALID_SEMVER''"
| "manifest_error_code (IncompatibleEngineApiVersion _ _) = ''FMAN_INCOMPATIBLE_ENGINE_API''"
| "manifest_error_code (UnsupportedUiApiVersion _) = ''FMAN_UNSUPPORTED_UI_API''"
| "manifest_error_code UnsupportedPluginType = ''FMAN_UNSUPPORTED_PLUGIN_TYPE''"
| "manifest_error_code (InvalidEntrypoint _) = ''FMAN_INVALID_ENTRYPOINT''"
| "manifest_error_code InvalidSizes = ''FMAN_INVALID_SIZES''"
| "manifest_error_code (ManifestUnknownCapability _) = ''FMAN_UNKNOWN_CAPABILITY''"
| "manifest_error_code (InherentCapabilityDeclared _) = ''FMAN_INHERENT_CAPABILITY_DECLARED''"
| "manifest_error_code (InvalidCapabilityParams _) = ''FMAN_INVALID_CAPABILITY_PARAMS''"
| "manifest_error_code (InvalidPackagePath _) = ''FMAN_INVALID_PACKAGE_PATH''"
| "manifest_error_code InvalidHttpTemplate = ''FMAN_INVALID_HTTP_TEMPLATE''"

section \<open>Package paths and identifiers\<close>

definition validate_path_segment :: "string \<Rightarrow> string \<Rightarrow> (unit, manifest_error) result" where
  "validate_path_segment path segment =
     (if segment = [] then Err (InvalidPackagePath path)
      else if segment = ''.'' \<or> segment = ''..'' then Err (InvalidPackagePath path)
      else Ok ())"

definition validate_package_path :: "string \<Rightarrow> (unit, manifest_error) result" where
  "validate_package_path path =
     (if path = [] then Err (InvalidPackagePath path)
      else if starts_with path ''/'' \<or> starts_with path [CHR 0x5C] then Err (InvalidPackagePath path)
      else if CHR 0x00 \<in> set path then Err (InvalidPackagePath path)
      else if CHR 0x5C \<in> set path then Err (InvalidPackagePath path)
      else if starts_with path ''.'' then Err (InvalidPackagePath path)
      else try_all (validate_path_segment path) (split_on CHR ''/'' path))"

text \<open>\<open>PackagePath::parse\<close>\<close>

definition package_path_parse :: "string \<Rightarrow> (string, manifest_error) result" where
  "package_path_parse path = try_bind (validate_package_path path) (\<lambda>_. Ok path)"

fun contains_dotdot :: "string \<Rightarrow> bool" where
  "contains_dotdot (a # b # s) = ((a = CHR ''.'' \<and> b = CHR ''.'') \<or> contains_dotdot (b # s))"
| "contains_dotdot _ = False"

definition plugin_id_char :: "char \<Rightarrow> bool" where
  "plugin_id_char c \<longleftrightarrow> is_ascii_lowercase c \<or> is_ascii_digit c \<or> c = CHR ''.'' \<or> c = CHR ''-''"

definition validate_plugin_id :: "string \<Rightarrow> (unit, manifest_error) result" where
  "validate_plugin_id pid =
     (if pid \<noteq> [] \<and> length pid \<le> 128 \<and> list_all plugin_id_char pid
         \<and> \<not> starts_with pid ''.'' \<and> \<not> ends_with pid ''.'' \<and> \<not> contains_dotdot pid
      then Ok () else Err (InvalidPluginId pid))"

definition validate_name :: "string \<Rightarrow> (unit, manifest_error) result" where
  "validate_name name = (if name = [] \<or> 256 < char_count name then Err InvalidName else Ok ())"

definition major_of :: "string \<Rightarrow> u64 option" where
  "major_of version =
     (case split_on CHR ''.'' version of [] \<Rightarrow> None | s # _ \<Rightarrow> parse_u64 s)"

definition check_api_major :: "string \<Rightarrow> string \<Rightarrow> (unit, manifest_error) result" where
  "check_api_major version engine =
     (if major_of version = major_of engine then Ok ()
      else Err (IncompatibleEngineApiVersion version engine))"

definition validate_entrypoints :: "entrypoints \<Rightarrow> (unit, manifest_error) result" where
  "validate_entrypoints e =
     (if \<not> ends_with (ep_ui e) ''.ftui'' then Err (InvalidEntrypoint (ep_ui e))
      else if \<not> ends_with (ep_logic e) ''.wasm'' then Err (InvalidEntrypoint (ep_logic e))
      else Ok ())"

definition size_positive :: "logical_size \<Rightarrow> bool" where
  "size_positive s \<longleftrightarrow> ieee_finite (ls_width s) \<and> ieee_finite (ls_height s)
     \<and> ieee_lt (Fin 0) (ls_width s) \<and> ieee_lt (Fin 0) (ls_height s)"

definition validate_sizes :: "sizes \<Rightarrow> (unit, manifest_error) result" where
  "validate_sizes s =
     (let d = sz_default s; lo = sz_min s; hi = sz_max s
      in if \<not> size_positive d \<or> \<not> size_positive lo \<or> \<not> size_positive hi then Err InvalidSizes
         else if ieee_lt (ls_width hi) (ls_width lo) \<or> ieee_lt (ls_height hi) (ls_height lo)
         then Err InvalidSizes
         else if ieee_lt (ls_width d) (ls_width lo) \<or> ieee_lt (ls_width hi) (ls_width d)
                 \<or> ieee_lt (ls_height d) (ls_height lo) \<or> ieee_lt (ls_height hi) (ls_height d)
         then Err InvalidSizes
         else Ok ())"

definition validate_permission :: "permission_decl \<Rightarrow> (unit, manifest_error) result" where
  "validate_permission decl =
     (case cap_from_name (pd_capability decl) of
        None \<Rightarrow> Err (ManifestUnknownCapability (pd_capability decl))
      | Some c \<Rightarrow>
          if is_inherent c then Err (InherentCapabilityDeclared (pd_capability decl))
          else (case parse_capability_params c (pd_params decl) of
                  Ok _ \<Rightarrow> Ok ()
                | Err (InvalidParams _) \<Rightarrow> Err (InvalidCapabilityParams (pd_capability decl))
                | Err _ \<Rightarrow> Err (ManifestUnknownCapability (pd_capability decl))))"

section \<open>HTTPS templates\<close>

text \<open>The origin of a fixed HTTPS URL: the scheme and the text up to the first slash or question mark.\<close>

definition https_url_origin :: "string \<Rightarrow> string option" where
  "https_url_origin url =
     (if \<not> starts_with url ''https://'' then None
      else let authority = takeWhile (\<lambda>c. c \<noteq> CHR ''/'' \<and> c \<noteq> CHR ''?'') (drop 8 url)
           in if authority = [] \<or> CHR ''@'' \<in> set authority \<or> starts_with authority ''[''
                 \<or> map to_ascii_lower authority = ''localhost''
                 \<or> CHR ''#'' \<in> set url \<or> has_whitespace url
              then None
              else Some (take (8 + length authority) url))"

text \<open>The first network permission of the manifest, parsed.\<close>

definition network_permission :: "manifest \<Rightarrow> (capability_params option, manifest_error) result" where
  "network_permission m =
     (case find (\<lambda>p. pd_capability p = ''network:https'') (mf_permissions m) of
        None \<Rightarrow> Ok None
      | Some p \<Rightarrow> map_err (\<lambda>_. InvalidHttpTemplate) (parse_capability_params NetworkHttps (pd_params p)))"

definition network_budget :: "capability_params option \<Rightarrow> (string list \<times> u64 \<times> u64) option" where
  "network_budget p =
     (case p of Some (Network origins rate bytes timeout) \<Rightarrow> Some (origins, bytes, timeout) | _ \<Rightarrow> None)"

definition template_id_char :: "char \<Rightarrow> bool" where
  "template_id_char c \<longleftrightarrow> is_ascii_lowercase c \<or> is_ascii_digit c \<or> c = CHR ''-'' \<or> c = CHR ''.''"

definition valid_query_param :: "string \<Rightarrow> bool" where
  "valid_query_param name \<longleftrightarrow>
     name \<noteq> [] \<and> length name \<le> 64
     \<and> list_all (\<lambda>c. is_ascii_alphanumeric c \<or> c = CHR ''_'' \<or> c = CHR ''-'') name"

text \<open>The body of the loop over the templates; \<open>ids\<close> is the set of identifiers seen.\<close>

definition validate_template ::
  "(string list \<times> u64 \<times> u64) option \<Rightarrow> http_template \<Rightarrow> string list \<Rightarrow> (string list, manifest_error) result"
where
  "validate_template network t ids =
     (if \<not> (ht_id t \<noteq> [] \<and> length (ht_id t) \<le> 64 \<and> list_all template_id_char (ht_id t))
         \<or> ht_id t \<in> set ids
      then Err InvalidHttpTemplate
      else if ht_method t \<noteq> ''GET'' then Err InvalidHttpTemplate
      else try_bind (ok_or InvalidHttpTemplate (https_url_origin (ht_url t))) (\<lambda>origin.
        try_bind (ok_or InvalidHttpTemplate network) (\<lambda>(origins, max_bytes, max_timeout).
          if origin \<notin> set origins
             \<or> ht_max_response_bytes t = 0
             \<or> max_bytes < ht_max_response_bytes t
             \<or> \<not> (100 \<le> ht_timeout_ms t \<and> ht_timeout_ms t \<le> 30000)
             \<or> max_timeout < ht_timeout_ms t
             \<or> 24 * 60 * 60 * 1000 < ht_cache_ttl_ms t
             \<or> 7 * 24 * 60 * 60 * 1000 < ht_stale_if_error_ms t
             \<or> 2 < ht_max_retries t
             \<or> \<not> (10 \<le> ht_retry_base_delay_ms t \<and> ht_retry_base_delay_ms t \<le> 2000)
          then Err InvalidHttpTemplate
          else if ht_credential_header t \<notin> {''authorization'', ''x-api-key''} then Err InvalidHttpTemplate
          else if 16 < length (ht_query_params t)
                  \<or> \<not> list_all valid_query_param (ht_query_params t)
                  \<or> \<not> distinct (ht_query_params t)
          then Err InvalidHttpTemplate
          else if ht_allowed_statuses t = [] \<or> 32 < length (ht_allowed_statuses t)
                  \<or> \<not> list_all (\<lambda>s. 100 \<le> s \<and> s \<le> 599) (ht_allowed_statuses t)
          then Err InvalidHttpTemplate
          else Ok (ht_id t # ids))))"

definition validate_http_templates :: "manifest \<Rightarrow> (unit, manifest_error) result" where
  "validate_http_templates m =
     (if 16 < length (mf_http_templates m) then Err InvalidHttpTemplate
      else try_bind (network_permission m) (\<lambda>network.
        try_bind (try_fold (validate_template (network_budget network)) (mf_http_templates m) [])
          (\<lambda>_. Ok ())))"

section \<open>The manifest\<close>

definition validate_manifest :: "(string \<Rightarrow> 'v option) \<Rightarrow> manifest \<Rightarrow> (unit, manifest_error) result" where
  "validate_manifest semver_parse m =
     (if mf_manifest_version m \<noteq> MANIFEST_VERSION
      then Err (UnsupportedManifestVersion (mf_manifest_version m))
      else try_bind (validate_plugin_id (mf_id m)) (\<lambda>_.
      try_bind (validate_name (mf_name m)) (\<lambda>_.
      if (case mf_description m of Some d \<Rightarrow> 1024 < char_count d | None \<Rightarrow> False) then Err InvalidName
      else if semver_parse (mf_version m) = None then Err (InvalidSemver (mf_version m))
      else if pub_id (mf_publisher m) = [] then Err InvalidName
      else if 256 < char_count (pub_name (mf_publisher m)) then Err InvalidName
      else try_bind (check_api_major (mf_engine_api_version m) ENGINE_API_VERSION) (\<lambda>_.
      if major_of (mf_ui_api_version m) \<noteq> Some 1 then Err (UnsupportedUiApiVersion (mf_ui_api_version m))
      else if mf_kind m \<noteq> Widget then Err UnsupportedPluginType
      else try_bind (validate_entrypoints (mf_entrypoints m)) (\<lambda>_.
      try_bind (validate_sizes (mf_sizes m)) (\<lambda>_.
      try_bind (try_all validate_permission (mf_permissions m)) (\<lambda>_.
      validate_http_templates m)))))))"

section \<open>Package paths stay under their root\<close>

text \<open>
  Lexical resolution of the segments of a path against a directory, as a POSIX file system does
  it without symbolic links: an empty segment and \<open>.\<close> stay, \<open>..\<close> leaves the directory.
\<close>

fun resolve_segments :: "string list \<Rightarrow> string list \<Rightarrow> string list" where
  "resolve_segments dir [] = dir"
| "resolve_segments dir (seg # segs) =
     resolve_segments
       (if seg = [] \<or> seg = ''.'' then dir else if seg = ''..'' then butlast dir else dir @ [seg]) segs"

lemma resolve_plain_segments:
  "\<forall>seg \<in> set segs. seg \<noteq> [] \<and> seg \<noteq> ''.'' \<and> seg \<noteq> ''..'' \<Longrightarrow> resolve_segments dir segs = dir @ segs"
  by (induction segs arbitrary: dir) auto

lemma validate_package_path_Ok_iff:
  "validate_package_path path = Ok () \<longleftrightarrow>
     path \<noteq> [] \<and> CHR 0x00 \<notin> set path \<and> CHR 0x5C \<notin> set path \<and> \<not> starts_with path ''.''
     \<and> (\<forall>seg \<in> set (split_on CHR ''/'' path). seg \<noteq> [] \<and> seg \<noteq> ''.'' \<and> seg \<noteq> ''..'')"
  (is "?lhs \<longleftrightarrow> ?rhs")
proof
  assume ?rhs
  then have "\<not> starts_with path ''/''" "\<not> starts_with path [CHR 0x5C]"
    by (auto simp: starts_with_iff)
  with \<open>?rhs\<close> show ?lhs
    by (simp add: validate_package_path_def validate_path_segment_def)
qed (auto simp: validate_package_path_def validate_path_segment_def split: if_splits)

lemma plugin_id_char_simps: "plugin_id_char c \<Longrightarrow> c \<noteq> CHR ''/'' \<and> c \<noteq> CHR 0x00 \<and> c \<noteq> CHR 0x5C"
  by (auto simp: plugin_id_char_def is_ascii_lowercase_def is_ascii_digit_def less_eq_char_def)

text \<open>A package path that validation accepts stays under every directory it is joined to: no
  segment of it leaves or repeats the directory, so its resolution is the directory followed by
  exactly its own segments.\<close>

theorem package_path_confined:
  assumes "package_path_parse path = Ok p"
  shows "p = path \<and> resolve_segments base (split_on CHR ''/'' p) = base @ split_on CHR ''/'' p"
  using assms by (auto simp: package_path_parse_def validate_package_path_Ok_iff resolve_plain_segments)

lemma package_path_confined_witness:
  "resolve_segments [''store''] (split_on CHR ''/'' ''ui/main.ftui'') = [''store'', ''ui'', ''main.ftui'']"
  using package_path_confined [of "''ui/main.ftui''" "''ui/main.ftui''" "[''store'']"]
  by (simp add: package_path_parse_def validate_package_path_def validate_path_segment_def starts_with_def)

text \<open>A plugin identifier that validation accepts is a single safe path segment: it passes the
  checks of a package path, contains no separator and resolves to itself below any directory, so the
  install directories derived from it cannot escape the store.\<close>

theorem plugin_id_is_segment:
  assumes "validate_plugin_id pid = Ok ()"
  shows "validate_package_path pid = Ok () \<and> resolve_segments base [pid] = base @ [pid] \<and> length pid \<le> 128"
proof -
  from assms have valid: "pid \<noteq> []" "length pid \<le> 128" "\<not> starts_with pid ''.''" "list_all plugin_id_char pid"
    by (auto simp: validate_plugin_id_def split: if_splits)
  then have chars: "CHR ''/'' \<notin> set pid" "CHR 0x00 \<notin> set pid" "CHR 0x5C \<notin> set pid"
    by (auto simp: list_all_iff dest: plugin_id_char_simps)
  from valid(3) have dots: "pid \<noteq> ''.''" "pid \<noteq> ''..''" by (auto simp: starts_with_def)
  with valid chars show ?thesis
    by (simp add: validate_package_path_Ok_iff split_on_absent resolve_plain_segments)
qed

lemma plugin_id_is_segment_witness:
  "resolve_segments [''plugins''] [''dev.floatile.clock''] = [''plugins'', ''dev.floatile.clock'']"
  using plugin_id_is_segment [of "''dev.floatile.clock''" "[''plugins'']"]
  by (simp add: validate_plugin_id_def plugin_id_char_def is_ascii_lowercase_def is_ascii_digit_def
      starts_with_def ends_with_def less_eq_char_def)

section \<open>Templates of an accepted manifest\<close>

lemma validate_template_ids:
  "try_fold (validate_template network) ts ids = Ok ids' \<Longrightarrow>
     ids' = rev (map ht_id ts) @ ids \<and> (distinct ids \<longrightarrow> distinct ids')"
proof (induction ts arbitrary: ids)
  case (Cons t ts)
  from Cons.prems obtain ids1 where step: "validate_template network t ids = Ok ids1"
    and rest: "try_fold (validate_template network) ts ids1 = Ok ids'" by auto
  have ids1: "ids1 = ht_id t # ids" "ht_id t \<notin> set ids"
    using step by (auto simp: validate_template_def split: if_splits prod.splits)
  have "distinct ids \<Longrightarrow> distinct ids'" using Cons.IH [OF rest] ids1 by (metis distinct.simps(2))
  moreover have "ids' = rev (map ht_id (t # ts)) @ ids" using Cons.IH [OF rest] ids1 by simp
  ultimately show ?case by blast
qed simp

lemma validate_template_each:
  "try_fold (validate_template network) ts ids = Ok ids' \<Longrightarrow> t \<in> set ts \<Longrightarrow>
     \<exists>before after. validate_template network t before = Ok after"
  by (induction ts arbitrary: ids) auto

text \<open>What one accepted template satisfies.\<close>

lemma validate_template_Ok:
  assumes "validate_template network t ids = Ok ids'"
  obtains origin origins max_bytes max_timeout
  where "https_url_origin (ht_url t) = Some origin" "network = Some (origins, max_bytes, max_timeout)"
    "origin \<in> set origins" "ht_max_response_bytes t \<noteq> 0" "ht_max_response_bytes t \<le> max_bytes"
    "ht_timeout_ms t \<le> max_timeout" "ht_max_retries t \<le> 2" "ht_method t = ''GET''"
    "ht_credential_header t \<in> {''authorization'', ''x-api-key''}"
  using assms by (auto simp: validate_template_def not_less split: if_splits prod.splits)

lemma validate_manifest_templates:
  "validate_manifest semver_parse m = Ok () \<Longrightarrow> validate_http_templates m = Ok ()"
  by (auto simp: validate_manifest_def split: if_splits)

lemma network_budget_Some:
  "network_budget p = Some (origins, bytes, timeout) \<longleftrightarrow> (\<exists>rate. p = Some (Network origins rate bytes timeout))"
  by (auto simp: network_budget_def split: option.splits capability_params.splits)

text \<open>
  The grants a runtime instance is started with: \<open>manifest_grants\<close> of
  \<open>floatile-shell/src/runtime_ui.rs\<close>.  Unknown capabilities are skipped; the instance asks for
  exactly the capabilities of the plugin.
\<close>

fun collect_grants :: "permission_decl list \<Rightarrow> (grant list, capability_error) result" where
  "collect_grants [] = Ok []"
| "collect_grants (decl # decls) =
     (case cap_from_name (pd_capability decl) of
        None \<Rightarrow> collect_grants decls
      | Some c \<Rightarrow>
          try_bind (parse_capability_params c (pd_params decl)) (\<lambda>params.
          try_bind (collect_grants decls) (\<lambda>rest.
            Ok (\<lparr>g_capability = c, g_params = params, g_effective = DerivedFromInstall\<rparr> # rest))))"

definition manifest_grants :: "manifest \<Rightarrow> u64 \<Rightarrow> (instance_grant, capability_error) result" where
  "manifest_grants m inst =
     try_bind (collect_grants (mf_permissions m))
       (\<lambda>caps. narrow_instance \<lparr>gs_plugin = mf_id m, gs_caps = caps, gs_trust = TrustDev\<rparr> inst caps)"

definition manifest_wf :: "manifest \<Rightarrow> bool" where
  "manifest_wf m \<longleftrightarrow> (\<forall>p \<in> set (mf_permissions m). \<forall>v. pd_params p = Some v \<longrightarrow> json_wf v)"

lemma collect_grants_find:
  "collect_grants ps = Ok caps \<Longrightarrow>
     grants_find c caps =
       (case find (\<lambda>p. pd_capability p = cap_name c) ps of
          None \<Rightarrow> None
        | Some p \<Rightarrow> (case parse_capability_params c (pd_params p) of
                       Ok params \<Rightarrow> Some \<lparr>g_capability = c, g_params = params, g_effective = DerivedFromInstall\<rparr>
                     | Err _ \<Rightarrow> None))"
proof (induction ps arbitrary: caps)
  case (Cons p ps)
  show ?case
  proof (cases "cap_from_name (pd_capability p)")
    case None
    then have "pd_capability p \<noteq> cap_name c" using cap_from_name_name [of c] by auto
    with Cons None show ?thesis by simp
  next
    case (Some d)
    have name: "pd_capability p = cap_name c \<longleftrightarrow> d = c"
      by (metis Some cap_from_name_Some cap_from_name_name option.inject)
    from Cons.prems Some obtain params rest where parse: "parse_capability_params d (pd_params p) = Ok params"
      and rest: "collect_grants ps = Ok rest"
      and caps: "caps = \<lparr>g_capability = d, g_params = params, g_effective = DerivedFromInstall\<rparr> # rest"
      by auto
    show ?thesis
      using Cons.IH [OF rest] parse name by (cases "d = c") (simp_all add: caps grants_find_def)
  qed
qed (simp add: grants_find_def)

text \<open>The request the HTTPS service puts to the permission decision for one template.\<close>

definition template_request :: "http_template \<Rightarrow> string \<Rightarrow> capability_params" where
  "template_request t origin = Network [origin] 1 (ht_max_response_bytes t) (ht_timeout_ms t)"

text \<open>Every HTTPS template of an accepted manifest names a GET on a fixed origin, and the request
  it leads to is allowed by the network grant a runtime instance of that manifest is started with; the
  identifiers of the templates are distinct.\<close>

theorem manifest_templates_within_grant:
  assumes valid: "validate_manifest semver_parse m = Ok ()" and wf: "manifest_wf m"
    and grants: "manifest_grants m inst = Ok ig"
  shows "distinct (map ht_id (mf_http_templates m)) \<and>
    (\<forall>t \<in> set (mf_http_templates m). \<exists>origin.
       https_url_origin (ht_url t) = Some origin \<and> ht_method t = ''GET'' \<and>
       decide (grants_find NetworkHttps (ig_caps ig)) (Some (template_request t origin)) = Allowed)"
proof
  from valid have "validate_http_templates m = Ok ()" by (rule validate_manifest_templates)
  then obtain network ids where network: "network_permission m = Ok network"
    and loop: "try_fold (validate_template (network_budget network)) (mf_http_templates m) [] = Ok ids"
    by (auto simp: validate_http_templates_def split: if_splits)
  have "distinct (rev (map ht_id (mf_http_templates m)))"
    using validate_template_ids [OF loop] by (metis append_Nil2 distinct.simps(1))
  then show "distinct (map ht_id (mf_http_templates m))" by (metis distinct_rev)
  from grants have caps: "collect_grants (mf_permissions m) = Ok (ig_caps ig)"
    by (auto simp: manifest_grants_def narrow_instance_def)
  show "\<forall>t \<in> set (mf_http_templates m). \<exists>origin.
       https_url_origin (ht_url t) = Some origin \<and> ht_method t = ''GET'' \<and>
       decide (grants_find NetworkHttps (ig_caps ig)) (Some (template_request t origin)) = Allowed"
  proof
    fix t assume "t \<in> set (mf_http_templates m)"
    then obtain before after where "validate_template (network_budget network) t before = Ok after"
      using validate_template_each [OF loop] by blast
    then obtain origin origins bytes timeout
      where t: "https_url_origin (ht_url t) = Some origin" "ht_method t = ''GET''" "origin \<in> set origins"
        "ht_max_response_bytes t \<le> bytes" "ht_timeout_ms t \<le> timeout"
        and budget: "network_budget network = Some (origins, bytes, timeout)"
      by (rule validate_template_Ok)
    from budget obtain rate where net: "network = Some (Network origins rate bytes timeout)"
      by (auto simp: network_budget_Some)
    with network obtain p where p: "find (\<lambda>p. pd_capability p = ''network:https'') (mf_permissions m) = Some p"
      and parse: "parse_capability_params NetworkHttps (pd_params p) = Ok network"
      by (auto simp: network_permission_def split: option.splits)
    from p have "p \<in> set (mf_permissions m)" by (auto simp: find_Some_iff)
    with wf have "params_valid NetworkHttps network"
      by (intro parse_params_valid_aux [OF parse]) (auto simp: manifest_wf_def)
    then have "1 \<le> rate" by (simp add: net params_valid_def)
    with t show "\<exists>origin. https_url_origin (ht_url t) = Some origin \<and> ht_method t = ''GET'' \<and>
       decide (grants_find NetworkHttps (ig_caps ig)) (Some (template_request t origin)) = Allowed"
      using collect_grants_find [OF caps, of NetworkHttps] p parse
      by (auto simp: net decide_def template_request_def not_less)
  qed
qed

section \<open>A concrete manifest\<close>

definition example_size :: logical_size where
  "example_size = \<lparr>ls_width = Fin 200, ls_height = Fin 100\<rparr>"

definition example_permission :: permission_decl where
  "example_permission = \<lparr>pd_capability = ''network:https'',
     pd_params = Some (params_json (Network [''https://api.test''] 30 4096 10000))\<rparr>"

definition example_template :: http_template where
  "example_template = \<lparr>ht_id = ''quote'', ht_method = ''GET'', ht_url = ''https://api.test/v1'',
     ht_query_params = [''symbol''], ht_credential_header = ''x-api-key'', ht_allowed_statuses = [200],
     ht_max_response_bytes = 4096, ht_timeout_ms = 5000, ht_cache_ttl_ms = 0, ht_stale_if_error_ms = 0,
     ht_max_retries = 1, ht_retry_base_delay_ms = 250\<rparr>"

definition example_manifest :: "string \<Rightarrow> permission_decl list \<Rightarrow> http_template list \<Rightarrow> manifest" where
  "example_manifest version permissions templates =
     \<lparr>mf_manifest_version = 1, mf_id = ''dev.clock'', mf_name = ''Clock'', mf_description = None,
      mf_version = version, mf_publisher = \<lparr>pub_id = ''dev'', pub_name = ''Dev''\<rparr>,
      mf_engine_api_version = ''1.2.0'', mf_ui_api_version = ''1.0.0'', mf_kind = Widget,
      mf_entrypoints = \<lparr>ep_ui = ''ui/main.ftui'', ep_logic = ''logic/main.wasm''\<rparr>,
      mf_sizes = \<lparr>sz_default = example_size, sz_min = example_size, sz_max = example_size, sz_resizable = False\<rparr>,
      mf_permissions = permissions, mf_http_templates = templates, mf_config_schema = None,
      mf_storage_migration = None\<rparr>"

definition example_semver :: "string \<Rightarrow> nat option" where
  "example_semver s =
     (if s = ''1.0.0'' then Some 1 else if s = ''1.1.0'' then Some 2 else None)"

lemma example_origin: "validate_https_origin ''https://api.test'' = Ok ()"
  by (simp add: validate_https_origin_def starts_with_def)

lemma example_parse: "parse_capability_params NetworkHttps (pd_params example_permission)
     = Ok (Some (Network [''https://api.test''] 30 4096 10000))"
  by (simp add: example_permission_def parse_params_json_Ok params_valid_def example_origin
      del: params_json.simps)

lemma example_template_ok:
  "validate_template (Some ([''https://api.test''], 4096, 10000)) example_template [] = Ok [''quote'']"
  by (simp add: validate_template_def example_template_def template_id_char_def https_url_origin_def
      valid_query_param_def to_ascii_lower_def ascii_eval)

lemma example_valid:
  assumes "semver_parse version \<noteq> None" and "\<forall>p \<in> set ps. validate_permission p = Ok ()"
    and "validate_http_templates (example_manifest version ps ts) = Ok ()"
  shows "validate_manifest semver_parse (example_manifest version ps ts) = Ok ()"
proof -
  have "validate_plugin_id ''dev.clock'' = Ok ()"
    by (simp add: validate_plugin_id_def plugin_id_char_def ascii_eval)
  moreover have "validate_name ''Clock'' = Ok ()"
    by (simp add: validate_name_def char_count_def utf8_continuation_def)
  moreover have "check_api_major ''1.2.0'' ENGINE_API_VERSION = Ok ()"
    by (simp add: check_api_major_def ENGINE_API_VERSION_def)
  moreover have "major_of ''1.0.0'' = Some 1"
    by (simp add: major_of_def parse_u64_def ascii_eval)
  ultimately show ?thesis
    using assms
    by (simp add: validate_manifest_def example_manifest_def MANIFEST_VERSION_def validate_entrypoints_def
        validate_sizes_def size_positive_def example_size_def ascii_eval char_count_def)
qed

lemma manifest_templates_within_grant_witness:
  "\<exists>origin. https_url_origin (ht_url example_template) = Some origin \<and>
     decide (Some \<lparr>g_capability = NetworkHttps,
        g_params = Some (Network [''https://api.test''] 30 4096 10000), g_effective = DerivedFromInstall\<rparr>)
       (Some (template_request example_template origin)) = Allowed"
proof -
  let ?m = "example_manifest ''1.0.0'' [example_permission] [example_template]"
  let ?g = "\<lparr>g_capability = NetworkHttps,
        g_params = Some (Network [''https://api.test''] 30 4096 10000), g_effective = DerivedFromInstall\<rparr>"
  have name: "cap_from_name (pd_capability example_permission) = Some NetworkHttps"
    by (simp add: example_permission_def cap_from_name_name [of NetworkHttps, simplified])
  have perm: "mf_permissions ?m = [example_permission]" "pd_capability example_permission = ''network:https''"
    by (simp_all add: example_manifest_def example_permission_def)
  have "network_permission ?m = Ok (Some (Network [''https://api.test''] 30 4096 10000))"
    by (simp add: network_permission_def perm example_parse)
  then have "validate_http_templates ?m = Ok ()"
    by (simp add: validate_http_templates_def network_budget_def example_manifest_def example_template_ok)
  moreover have "validate_permission example_permission = Ok ()"
    by (simp add: validate_permission_def name example_parse is_inherent_iff)
  ultimately have valid: "validate_manifest example_semver ?m = Ok ()"
    by (intro example_valid) (simp_all add: example_semver_def)
  have wf: "manifest_wf ?m"
    by (simp add: manifest_wf_def perm) (simp add: example_permission_def json_wf_params_json del: params_json.simps)
  have grants: "manifest_grants ?m 1 = Ok \<lparr>ig_instance = 1, ig_caps = [?g]\<rparr>"
    using name
    by (simp add: manifest_grants_def perm example_parse narrow_instance_def narrow_check_def
        grants_find_def)
  show ?thesis
    using manifest_templates_within_grant [OF valid wf grants]
    by (auto simp: grants_find_def example_manifest_def)
qed

end
