(* ===== verification/Install_Digest.thy ===== *)
theory Install_Digest
  imports Floatile_Prelude
begin

text \<open>
  The integrity metadata of an installed plugin, \<open>floatile-core/src/install.rs\<close>: the byte
  stream that is hashed over a set of files, and the hexadecimal encoding of digests.  A byte is
  a \<open>char\<close>; \<open>sha256\<close> is the third-party hash function.  The stream determines the set of
  files (names without NUL), and decoding inverts encoding up to the case of the digits.
\<close>

type_synonym bytes = string
type_synonym file_set = "(string, bytes) btree"

section \<open>The digest over a set of files\<close>

text \<open>\<open>(n as u64).to_le_bytes()\<close>\<close>

fun le_bytes :: "nat \<Rightarrow> nat \<Rightarrow> bytes" where
  "le_bytes 0 n = []"
| "le_bytes (Suc k) n = char_of (n mod 256) # le_bytes k (n div 256)"

definition u64_le_bytes :: "nat \<Rightarrow> bytes" where
  "u64_le_bytes n = le_bytes 8 (n mod 2 ^ 64)"

definition file_stream :: "string \<times> bytes \<Rightarrow> bytes" where
  "file_stream f = fst f @ [CHR 0x00] @ u64_le_bytes (length (snd f)) @ snd f"

definition content_stream :: "file_set \<Rightarrow> bytes" where
  "content_stream files = concat (map file_stream files)"

definition content_digest :: "(bytes \<Rightarrow> bytes) \<Rightarrow> file_set \<Rightarrow> bytes" where
  "content_digest sha256 files = sha256 (content_stream files)"

definition file_digest :: "(bytes \<Rightarrow> bytes) \<Rightarrow> bytes \<Rightarrow> bytes" where
  "file_digest sha256 bytes = sha256 bytes"

text \<open>Names without NUL and lengths below \<open>2 ^ 64\<close>, as the install paths guarantee.\<close>

definition files_ok :: "file_set \<Rightarrow> bool" where
  "files_ok files \<longleftrightarrow> (\<forall>f \<in> set files. CHR 0x00 \<notin> set (fst f) \<and> length (snd f) < 2 ^ 64)"

lemma length_le_bytes [simp]: "length (le_bytes k n) = k"
  by (induction k arbitrary: n) auto

lemma le_bytes_inject: "n < 256 ^ k \<Longrightarrow> m < 256 ^ k \<Longrightarrow> le_bytes k n = le_bytes k m \<Longrightarrow> n = m"
proof (induction k arbitrary: n m)
  case (Suc k)
  have "n div 256 < 256 ^ k" "m div 256 < 256 ^ k"
    using Suc.prems by (auto simp: div_less_iff_less_mult mult.commute)
  with Suc have "n div 256 = m div 256" by auto
  moreover have "(of_char (char_of (n mod 256) :: char) :: nat) = of_char (char_of (m mod 256) :: char)"
    using Suc.prems(3) by simp
  then have "n mod 256 = m mod 256" by simp
  ultimately show ?case by (metis div_mult_mod_eq)
qed simp

lemma u64_le_bytes_inject:
  assumes "n < 2 ^ 64" and "m < 2 ^ 64" and "u64_le_bytes n = u64_le_bytes m"
  shows "n = m"
  using le_bytes_inject [of n 8 m] assms by (simp add: u64_le_bytes_def)

lemma file_stream_inject:
  assumes "file_stream f @ s = file_stream g @ t" and "files_ok [f]" and "files_ok [g]"
  shows "f = g \<and> s = t"
proof -
  let ?tail = "\<lambda>h u. u64_le_bytes (length (snd h)) @ snd h @ u"
  have "fst f @ CHR 0x00 # ?tail f s = fst g @ CHR 0x00 # ?tail g t"
    using assms(1) by (simp add: file_stream_def)
  then have name: "fst f = fst g" and tail: "?tail f s = ?tail g t"
    using append_sep_inject [of "CHR 0x00" "fst f" "fst g"] assms(2,3) by (auto simp: files_ok_def)
  have "u64_le_bytes (length (snd f)) = u64_le_bytes (length (snd g)) \<and> snd f @ s = snd g @ t"
    using tail by (subst (asm) append_eq_append_conv) (simp_all add: u64_le_bytes_def)
  moreover from this have "length (snd f) = length (snd g)"
    using assms(2,3) by (auto simp: files_ok_def intro: u64_le_bytes_inject)
  ultimately show ?thesis using name by (simp add: prod_eq_iff)
qed

lemma stream_inject: "content_stream fs = content_stream gs \<Longrightarrow> files_ok fs \<Longrightarrow> files_ok gs \<Longrightarrow> fs = gs"
proof (induction fs arbitrary: gs)
  case Nil
  then show ?case by (cases gs) (auto simp: content_stream_def file_stream_def)
next
  case (Cons f fs)
  obtain g gs' where gs: "gs = g # gs'"
    using Cons.prems(1) by (cases gs) (auto simp: content_stream_def file_stream_def)
  have "f = g \<and> content_stream fs = content_stream gs'"
    by (rule file_stream_inject) (use Cons.prems in \<open>auto simp: gs content_stream_def files_ok_def\<close>)
  with Cons show ?case by (auto simp: gs files_ok_def)
qed

text \<open>The digest of an installation detects every change of its files: with a hash that separates
  the two byte streams, two sets of files with names without NUL and contents below 2 to the 64 bytes
  have the same content digest exactly if they are the same files under the same names.\<close>

theorem content_digest_detects_changes:
  assumes "files_ok fs" and "files_ok gs"
    and "inj_on sha256 {content_stream fs, content_stream gs}"
  shows "content_digest sha256 fs = content_digest sha256 gs \<longleftrightarrow> fs = gs"
  using assms stream_inject [of fs gs] by (auto simp: content_digest_def inj_on_def)

lemma content_digest_detects_changes_witness:
  "content_digest rev [(''a'', ''xy'')] \<noteq> content_digest rev [(''a'', ''x''), (''b'', ''y'')]"
  using content_digest_detects_changes [of "[(''a'', ''xy'')]" "[(''a'', ''x''), (''b'', ''y'')]" rev]
  by (auto simp: files_ok_def inj_on_def)

section \<open>Hexadecimal digits\<close>

definition HEX :: string where
  "HEX = ''0123456789abcdef''"

definition hex_byte :: "char \<Rightarrow> string" where
  "hex_byte b = [HEX ! (of_char b div 16), HEX ! (of_char b mod 16)]"

definition hex_encode :: "bytes \<Rightarrow> string" where
  "hex_encode bytes = concat (map hex_byte bytes)"

text \<open>\<open>char::to_digit(16)\<close>\<close>

definition to_digit16 :: "char \<Rightarrow> nat option" where
  "to_digit16 c =
     (if is_ascii_digit c then Some (of_char c - 48)
      else if CHR ''a'' \<le> c \<and> c \<le> CHR ''f'' then Some (of_char c - 87)
      else if CHR ''A'' \<le> c \<and> c \<le> CHR ''F'' then Some (of_char c - 55)
      else None)"

text \<open>The loop over chunks of two bytes; an odd length is refused before it.\<close>

fun hex_decode_chunks :: "string \<Rightarrow> bytes option" where
  "hex_decode_chunks (a # b # s) =
     (case to_digit16 a of
        None \<Rightarrow> None
      | Some hi \<Rightarrow>
          (case to_digit16 b of
             None \<Rightarrow> None
           | Some lo \<Rightarrow> map_option (\<lambda>out. char_of (16 * hi + lo) # out) (hex_decode_chunks s)))"
| "hex_decode_chunks _ = Some []"

definition hex_decode :: "string \<Rightarrow> bytes option" where
  "hex_decode s = (if odd (length s) then None else hex_decode_chunks s)"

lemma HEX_digit: "n < 16 \<Longrightarrow> to_digit16 (HEX ! n) = Some n"
proof -
  have "\<forall>n \<in> {0..<16}. to_digit16 (HEX ! n) = Some n"
    by (simp add: atLeastLessThan_nat_numeral HEX_def to_digit16_def is_ascii_digit_def less_eq_char_def)
  then show "n < 16 \<Longrightarrow> to_digit16 (HEX ! n) = Some n" by simp
qed

lemma length_hex_encode: "length (hex_encode bs) = 2 * length bs"
  by (induction bs) (simp_all add: hex_encode_def hex_byte_def)

lemma hex_decode_chunks_encode: "hex_decode_chunks (hex_encode bs) = Some bs"
proof (induction bs)
  case (Cons b bs)
  have "(of_char b :: nat) div 16 < 16" by (rule less_mult_imp_div_less) simp
  with Cons show ?case by (simp add: hex_encode_def hex_byte_def HEX_digit)
qed (simp add: hex_encode_def)

text \<open>Every digit the decoder reads is the lower-case digit of its value.\<close>

lemma to_digit16_Some:
  assumes "to_digit16 a = Some d"
  shows "d < 16 \<and> HEX ! d = to_ascii_lower a"
proof -
  have table: "\<forall>n \<in> {48..<58} \<union> {65..<71} \<union> {97..<103}. \<forall>d.
      to_digit16 (char_of (n::nat)) = Some d \<longrightarrow> d < 16 \<and> HEX ! d = to_ascii_lower (char_of n)"
    by (simp add: atLeastLessThan_nat_numeral HEX_def to_digit16_def to_ascii_lower_def
        is_ascii_digit_def is_ascii_uppercase_def less_eq_char_def eq_char_of_iff)
  have "(of_char a :: nat) \<in> {48..<58} \<union> {65..<71} \<union> {97..<103}"
    using assms by (auto simp: to_digit16_def is_ascii_digit_def less_eq_char_def split: if_splits)
  with table assms show ?thesis by (metis char_of_char)
qed

lemma hex_decode_chunks_Some:
  "hex_decode_chunks s = Some bs \<Longrightarrow> even (length s) \<Longrightarrow> hex_encode bs = map to_ascii_lower s"
proof (induction s arbitrary: bs rule: hex_decode_chunks.induct)
  case (1 a b s)
  from "1.prems" obtain hi lo out where d: "to_digit16 a = Some hi" "to_digit16 b = Some lo"
    and out: "hex_decode_chunks s = Some out" and bs: "bs = char_of (16 * hi + lo) # out"
    by (auto split: option.splits)
  have "hex_encode out = map to_ascii_lower s" using "1.IH" [OF d out] "1.prems"(2) by simp
  moreover have "hi < 16" "lo < 16" "HEX ! hi = to_ascii_lower a" "HEX ! lo = to_ascii_lower b"
    using d by (auto dest: to_digit16_Some)
  ultimately show ?case by (simp add: bs hex_encode_def hex_byte_def)
qed (simp_all add: hex_encode_def)

text \<open>Hexadecimal encoding and decoding are inverse: a digest is read back from its text, and any
  text the decoder accepts is, up to the case of its digits, the text of the bytes it returns.\<close>

theorem hex_roundtrip:
  "hex_decode (hex_encode bs) = Some bs \<and>
   (hex_decode s = Some out \<longrightarrow> map to_ascii_lower s = hex_encode out)"
  by (auto simp: hex_decode_def length_hex_encode hex_decode_chunks_encode hex_decode_chunks_Some
      split: if_splits)

lemma hex_roundtrip_witness:
  "hex_encode [CHR 0xAB, CHR 0x0F] = ''ab0f'' \<and> hex_decode ''Ab0F'' = Some [CHR 0xAB, CHR 0x0F]"
proof -
  have "hex_decode ''Ab0F'' = Some [CHR 0xAB, CHR 0x0F]"
    by (simp add: hex_decode_def to_digit16_def is_ascii_digit_def less_eq_char_def char_of_eq_iff)
  moreover from this have "map to_ascii_lower ''Ab0F'' = hex_encode [CHR 0xAB, CHR 0x0F]"
    using hex_roundtrip [of "[]" "''Ab0F''" "[CHR 0xAB, CHR 0x0F]"] by blast
  moreover have "map to_ascii_lower ''Ab0F'' = ''ab0f''"
    by (simp add: to_ascii_lower_def is_ascii_uppercase_def less_eq_char_def char_of_eq_iff)
  ultimately show ?thesis by simp
qed

end
