(* ===== verification/Distribution.thy ===== *)
theory Distribution
  imports Manifest Install_Digest
begin

text \<open>
  Upgrade plans, rollback plans and package signatures, \<open>floatile-core/src/distribution.rs\<close>.
  Versions are elements of an ordered type that the third-party \<open>semver_parse\<close> reads; hashing,
  base64, the envelope parser and Ed25519 are the fields of \<open>crypto\<close>.

  The comparison of scopes used by the plans is interpreted as a \<open>scope_order\<close>, so a plan that
  asks for no confirmation, and every rollback, grants nothing the current manifest refuses; the
  pre-authentication encoding is injective, so an accepted signature covers exactly the files of
  the package.
\<close>

section \<open>Permission changes\<close>

datatype permission_change_kind = Added | Removed | Expanded | Reduced | Unchanged

record permission_change =
  pc_capability :: capability_id
  pc_kind :: permission_change_kind

record 'v upgrade_plan =
  up_current_version :: 'v
  up_candidate_version :: 'v
  up_permissions :: "permission_change list"
  up_requires_confirmation :: bool

record 'v rollback_plan =
  rp_current_version :: 'v
  rp_target_version :: 'v
  rp_permissions :: "permission_change list"

datatype upgrade_plan_error =
    UpgradePluginMismatch
  | UpgradePublisherMismatch
  | VersionNotNewer
  | StorageMigrationRollback
  | UpgradeInvalidPermission

datatype rollback_plan_error =
    RollbackPluginMismatch
  | RollbackPublisherMismatch
  | VersionNotOlder
  | StorageMigrationIncompatible
  | PermissionExpansion
  | RollbackInvalidPermission

type_synonym permission_map = "(capability_id, capability_params option) btree"

definition key_scope_within :: "string list \<Rightarrow> string list \<Rightarrow> bool" where
  "key_scope_within candidate current =
     (if current = [] then True
      else candidate \<noteq> [] \<and> (\<forall>key \<in> set candidate. key \<in> set current))"

fun params_within :: "capability_params option \<Rightarrow> capability_params option \<Rightarrow> bool" where
  "params_within None None = True"
| "params_within (Some (Storage ck cb)) (Some (Storage keys bytes)) =
     (key_scope_within ck keys \<and> cb \<le> bytes)"
| "params_within (Some (Timer cr ca)) (Some (Timer rate active)) = (cr \<le> rate \<and> ca \<le> active)"
| "params_within (Some (Metrics cr)) (Some (Metrics rate)) = (cr \<le> rate)"
| "params_within (Some (Network co cr cb ct)) (Some (Network origins rate bytes timeout)) =
     ((\<forall>origin \<in> set co. origin \<in> set origins) \<and> cr \<le> rate \<and> cb \<le> bytes \<and> ct \<le> timeout)"
| "params_within _ _ = False"

fun parse_decls ::
  "permission_decl list \<Rightarrow> ((capability_id \<times> capability_params option) list, unit) result" where
  "parse_decls [] = Ok []"
| "parse_decls (decl # decls) =
     try_bind (ok_or () (cap_from_name (pd_capability decl))) (\<lambda>c.
     try_bind (map_err (\<lambda>_. ()) (parse_capability_params c (pd_params decl))) (\<lambda>params.
     try_bind (parse_decls decls) (\<lambda>rest. Ok ((c, params) # rest))))"

text \<open>\<open>collect()\<close> into a \<open>BTreeMap\<close>: of two declarations of a capability the later one counts.\<close>

definition parsed_permissions :: "manifest \<Rightarrow> (permission_map, unit) result" where
  "parsed_permissions m = try_bind (parse_decls (mf_permissions m)) (\<lambda>ps. Ok (bt_of_list ps))"

definition change_kind ::
  "capability_params option option \<Rightarrow> capability_params option option \<Rightarrow> permission_change_kind option"
where
  "change_kind current candidate =
     (case (current, candidate) of
        (None, Some _) \<Rightarrow> Some Added
      | (Some _, None) \<Rightarrow> Some Removed
      | (Some cur, Some cand) \<Rightarrow>
          Some (if cur = cand then Unchanged
                else if params_within cand cur then Reduced
                else Expanded)
      | (None, None) \<Rightarrow> None)"

text \<open>The union of the two key sets, in order.\<close>

definition all_capabilities :: "permission_map \<Rightarrow> permission_map \<Rightarrow> capability_id list" where
  "all_capabilities current candidate =
     bt_keys (bt_of_list (map (\<lambda>c. (c, ())) (bt_keys current @ bt_keys candidate)))"

definition permission_changes :: "manifest \<Rightarrow> manifest \<Rightarrow> (permission_change list, unit) result" where
  "permission_changes current candidate =
     try_bind (parsed_permissions current) (\<lambda>cur.
     try_bind (parsed_permissions candidate) (\<lambda>cand.
       Ok (List.map_filter
             (\<lambda>c. map_option (\<lambda>kind. \<lparr>pc_capability = c, pc_kind = kind\<rparr>)
                     (change_kind (bt_lookup c cur) (bt_lookup c cand)))
             (all_capabilities cur cand))))"

definition widening :: "permission_change \<Rightarrow> bool" where
  "widening change \<longleftrightarrow> pc_kind change = Added \<or> pc_kind change = Expanded"

definition migration_version :: "manifest \<Rightarrow> u64" where
  "migration_version m = (case mf_storage_migration m of None \<Rightarrow> 0 | Some v \<Rightarrow> v)"

definition plan_upgrade ::
  "(string \<Rightarrow> 'v::linorder option) \<Rightarrow> manifest \<Rightarrow> manifest \<Rightarrow> ('v upgrade_plan, upgrade_plan_error) result"
where
  "plan_upgrade semver_parse current candidate =
     (if mf_id current \<noteq> mf_id candidate then Err UpgradePluginMismatch
      else if pub_id (mf_publisher current) \<noteq> pub_id (mf_publisher candidate)
      then Err UpgradePublisherMismatch
      else try_bind (ok_or UpgradeInvalidPermission (semver_parse (mf_version current))) (\<lambda>cur_v.
      try_bind (ok_or UpgradeInvalidPermission (semver_parse (mf_version candidate))) (\<lambda>cand_v.
      if cand_v \<le> cur_v then Err VersionNotNewer
      else if migration_version candidate < migration_version current then Err StorageMigrationRollback
      else try_bind (map_err (\<lambda>_. UpgradeInvalidPermission) (permission_changes current candidate)) (\<lambda>changes.
        Ok \<lparr>up_current_version = cur_v, up_candidate_version = cand_v, up_permissions = changes,
            up_requires_confirmation = list_ex widening changes\<rparr>))))"

definition plan_rollback ::
  "(string \<Rightarrow> 'v::linorder option) \<Rightarrow> manifest \<Rightarrow> manifest \<Rightarrow> ('v rollback_plan, rollback_plan_error) result"
where
  "plan_rollback semver_parse current target =
     (if mf_id current \<noteq> mf_id target then Err RollbackPluginMismatch
      else if pub_id (mf_publisher current) \<noteq> pub_id (mf_publisher target)
      then Err RollbackPublisherMismatch
      else try_bind (ok_or RollbackInvalidPermission (semver_parse (mf_version current))) (\<lambda>cur_v.
      try_bind (ok_or RollbackInvalidPermission (semver_parse (mf_version target))) (\<lambda>target_v.
      if cur_v \<le> target_v then Err VersionNotOlder
      else if migration_version target \<noteq> migration_version current then Err StorageMigrationIncompatible
      else try_bind (map_err (\<lambda>_. RollbackInvalidPermission) (permission_changes current target)) (\<lambda>changes.
        if list_ex widening changes then Err PermissionExpansion
        else Ok \<lparr>rp_current_version = cur_v, rp_target_version = target_v, rp_permissions = changes\<rparr>))))"

section \<open>Scopes\<close>

lemma params_within_refl: "params_within p p"
proof (cases p)
  case (Some q)
  then show ?thesis by (cases q) (auto simp: key_scope_within_def)
qed simp

lemma params_within_trans: "params_within p q \<Longrightarrow> params_within q s \<Longrightarrow> params_within p s"
  by (induction p q rule: params_within.induct; cases s rule: option.exhaust; cases "the s")
    (auto simp: key_scope_within_def split: if_splits)

lemma params_within_allow: "params_within p q \<Longrightarrow> params_allow p r \<Longrightarrow> params_allow q r"
  by (induction p q rule: params_within.induct; cases r; cases "the r")
    (auto simp: key_scope_within_def params_allow_def not_less split: if_splits)

interpretation scope: scope_order params_within params_allow
  by unfold_locales (fact params_within_refl params_within_trans params_within_allow)+

section \<open>What a plan guarantees\<close>

lemma parse_decls_find:
  "parse_decls ps = Ok es \<Longrightarrow> distinct (map pd_capability ps) \<Longrightarrow>
     distinct (map fst es) \<and> cap_name ` fst ` set es = pd_capability ` set ps"
proof (induction ps arbitrary: es)
  case (Cons p ps)
  from Cons.prems(1) obtain c params rest where c: "cap_from_name (pd_capability p) = Some c"
    and rest: "parse_decls ps = Ok rest" and es: "es = (c, params) # rest" by auto
  have name: "cap_name c = pd_capability p" by (rule cap_from_name_Some [OF c])
  from Cons.IH [OF rest] Cons.prems(2)
  have IH: "distinct (map fst rest)" "cap_name ` fst ` set rest = pd_capability ` set ps" by simp_all
  have "c \<notin> fst ` set rest"
  proof
    assume "c \<in> fst ` set rest"
    then have "cap_name c \<in> pd_capability ` set ps" unfolding IH(2) [symmetric] by (rule imageI)
    with Cons.prems(2) name show False by simp
  qed
  with IH name show ?case by (simp add: es)
qed simp

lemma map_of_rev_distinct: "distinct (map fst xs) \<Longrightarrow> map_of (rev xs) = map_of xs"
proof
  fix k
  assume "distinct (map fst xs)"
  then have "map_of (rev xs) k = Some v \<longleftrightarrow> map_of xs k = Some v" for v
    by (simp add: map_of_eq_Some_iff rev_map [symmetric])
  then show "map_of (rev xs) k = map_of xs k" by (metis not_Some_eq)
qed

text \<open>The grants of a runtime instance, seen as a table, are the parsed permissions.\<close>

definition grant_table :: "instance_grant \<Rightarrow> capability_id \<Rightarrow> capability_params option option" where
  "grant_table ig c = map_option g_params (grants_find c (ig_caps ig))"

lemma collect_grants_decls:
  "collect_grants ps = Ok caps \<Longrightarrow> parse_decls ps = Ok es \<Longrightarrow>
     map (\<lambda>g. (g_capability g, g_params g)) caps = es"
proof (induction ps arbitrary: caps es)
  case (Cons p ps)
  then show ?case by (cases "cap_from_name (pd_capability p)") auto
qed simp

lemma grants_find_map_of:
  "map_option g_params (grants_find c caps) = map_of (map (\<lambda>g. (g_capability g, g_params g)) caps) c"
  by (induction caps) (auto simp: grants_find_def)

lemma grant_table_parsed:
  assumes grants: "manifest_grants m inst = Ok ig" and parsed: "parsed_permissions m = Ok pm"
    and distinct: "distinct (map pd_capability (mf_permissions m))"
  shows "grant_table ig c = bt_lookup c pm"
proof -
  from parsed obtain es where es: "parse_decls (mf_permissions m) = Ok es" and pm: "pm = bt_of_list es"
    by (auto simp: parsed_permissions_def)
  from grants have "collect_grants (mf_permissions m) = Ok (ig_caps ig)"
    by (auto simp: manifest_grants_def narrow_instance_def)
  from collect_grants_decls [OF this es] parse_decls_find [OF es distinct] show ?thesis
    by (simp add: grant_table_def grants_find_map_of pm bt_lookup_of_list map_of_rev_distinct)
qed

lemma decide_grant_table:
  "decide (grants_find c (ig_caps ig)) r = Allowed \<longleftrightarrow> scope.granted (grant_table ig) c r"
  by (auto simp: decide_Allowed_iff scope.granted_def grant_table_def)

lemma all_capabilities_mem:
  "c \<in> set (all_capabilities cur cand) \<longleftrightarrow> bt_lookup c cur \<noteq> None \<or> bt_lookup c cand \<noteq> None"
proof -
  have "c \<in> set (all_capabilities cur cand)
     \<longleftrightarrow> bt_lookup c (bt_of_list (map (\<lambda>c. (c, ())) (bt_keys cur @ bt_keys cand))) \<noteq> None"
    by (simp add: all_capabilities_def bt_keys_def bt_lookup_None_iff)
  then show ?thesis
    by (force simp: bt_lookup_of_list map_of_eq_None_iff bt_keys_def bt_lookup_None_iff image_iff)
qed

lemma no_widening_narrower:
  assumes "permission_changes current candidate = Ok changes" and "\<not> list_ex widening changes"
    and "parsed_permissions current = Ok cur" and "parsed_permissions candidate = Ok cand"
  shows "scope.narrower (\<lambda>c. bt_lookup c cand) (\<lambda>c. bt_lookup c cur)"
  unfolding scope.narrower_def
proof (intro allI impI)
  fix c p assume p: "bt_lookup c cand = Some p"
  then have mem: "c \<in> set (all_capabilities cur cand)" by (simp add: all_capabilities_mem)
  have none: "\<not> widening \<lparr>pc_capability = c, pc_kind = kind\<rparr>"
    if "change_kind (bt_lookup c cur) (bt_lookup c cand) = Some kind" for kind
    using assms mem that by (force simp: permission_changes_def list_ex_iff map_filter_def)
  show "\<exists>q. bt_lookup c cur = Some q \<and> params_within p q"
    using none p params_within_refl
    by (cases "bt_lookup c cur") (auto simp: change_kind_def widening_def split: if_splits)
qed

lemma permission_changes_parsed:
  "permission_changes current candidate = Ok changes \<Longrightarrow>
     \<exists>cur cand. parsed_permissions current = Ok cur \<and> parsed_permissions candidate = Ok cand"
  by (auto simp: permission_changes_def)

lemma no_widening_no_new_authority:
  assumes changes: "permission_changes current candidate = Ok changes" "\<not> list_ex widening changes"
    and grants: "manifest_grants current inst = Ok old" "manifest_grants candidate inst = Ok new"
    and distinct: "distinct (map pd_capability (mf_permissions current))"
      "distinct (map pd_capability (mf_permissions candidate))"
    and allowed: "decide (grants_find c (ig_caps new)) r = Allowed"
  shows "decide (grants_find c (ig_caps old)) r = Allowed"
proof -
  obtain cur cand where parsed: "parsed_permissions current = Ok cur" "parsed_permissions candidate = Ok cand"
    using permission_changes_parsed [OF changes(1)] by blast
  have tables: "grant_table old = (\<lambda>c. bt_lookup c cur)" "grant_table new = (\<lambda>c. bt_lookup c cand)"
    using grant_table_parsed [OF grants(1) parsed(1) distinct(1)]
      grant_table_parsed [OF grants(2) parsed(2) distinct(2)] by auto
  have "scope.narrower (grant_table new) (grant_table old)"
    unfolding tables by (rule no_widening_narrower [OF changes parsed])
  then show ?thesis using allowed unfolding decide_grant_table by (rule scope.narrower_granted)
qed
text \<open>C11: An upgrade whose plan asks for no confirmation grants a runtime instance nothing new: when no
  manifest declares a capability twice, every request the instance of the candidate is allowed was
  allowed to the instance of the current version; and the candidate is strictly newer, of the same
  plugin and publisher, with a storage migration at least as high.\<close>

theorem upgrade_without_confirmation_grants_nothing_new:
  assumes "plan_upgrade semver_parse current candidate = Ok plan" and "\<not> up_requires_confirmation plan"
    and "manifest_grants current inst = Ok old" and "manifest_grants candidate inst = Ok new"
    and "distinct (map pd_capability (mf_permissions current))"
    and "distinct (map pd_capability (mf_permissions candidate))"
  shows "mf_id candidate = mf_id current
    \<and> pub_id (mf_publisher candidate) = pub_id (mf_publisher current)
    \<and> up_current_version plan < up_candidate_version plan
    \<and> migration_version current \<le> migration_version candidate
    \<and> (\<forall>c r. decide (grants_find c (ig_caps new)) r = Allowed
              \<longrightarrow> decide (grants_find c (ig_caps old)) r = Allowed)"
proof -
  obtain changes where changes: "permission_changes current candidate = Ok changes"
    and none: "\<not> list_ex widening changes"
    using assms(1,2) by (auto simp: plan_upgrade_def split: if_splits)
  have "\<forall>c r. decide (grants_find c (ig_caps new)) r = Allowed
              \<longrightarrow> decide (grants_find c (ig_caps old)) r = Allowed"
    using no_widening_no_new_authority [OF changes none assms(3-6)] by blast
  with assms(1) show ?thesis by (auto simp: plan_upgrade_def not_le not_less split: if_splits)
qed

text \<open>C12: A rollback the planner accepts goes to a strictly older version of the same plugin and publisher
  with the same storage migration, and restores no authority: when no manifest declares a capability
  twice, every request allowed to the instance of the target was allowed to the instance of the
  current version.\<close>

theorem rollback_restores_no_authority:
  assumes "plan_rollback semver_parse current target = Ok plan"
    and "manifest_grants current inst = Ok old" and "manifest_grants target inst = Ok new"
    and "distinct (map pd_capability (mf_permissions current))"
    and "distinct (map pd_capability (mf_permissions target))"
  shows "mf_id target = mf_id current
    \<and> pub_id (mf_publisher target) = pub_id (mf_publisher current)
    \<and> rp_target_version plan < rp_current_version plan
    \<and> migration_version target = migration_version current
    \<and> (\<forall>c r. decide (grants_find c (ig_caps new)) r = Allowed
              \<longrightarrow> decide (grants_find c (ig_caps old)) r = Allowed)"
proof -
  obtain changes where changes: "permission_changes current target = Ok changes"
    and none: "\<not> list_ex widening changes"
    using assms(1) by (auto simp: plan_rollback_def split: if_splits)
  have "\<forall>c r. decide (grants_find c (ig_caps new)) r = Allowed
              \<longrightarrow> decide (grants_find c (ig_caps old)) r = Allowed"
    using no_widening_no_new_authority [OF changes none assms(2-5)] by blast
  with assms(1) show ?thesis by (auto simp: plan_rollback_def not_le not_less split: if_splits)
qed

definition example_timer :: "u32 \<Rightarrow> permission_decl" where
  "example_timer rate = \<lparr>pd_capability = ''timer:schedule'', pd_params = Some (params_json (Timer rate 8))\<rparr>"

definition timer_grant :: "u32 \<Rightarrow> grant" where
  "timer_grant rate = \<lparr>g_capability = TimerSchedule, g_params = Some (Timer rate 8), g_effective = DerivedFromInstall\<rparr>"

lemma example_timer_simps [simp]:
  "cap_from_name (pd_capability (example_timer rate)) = Some TimerSchedule"
  "parse_capability_params TimerSchedule (pd_params (example_timer rate)) = Ok (Some (Timer rate 8))"
  using cap_from_name_name [of TimerSchedule]
  by (simp_all add: example_timer_def parse_params_json_Ok params_valid_def del: params_json.simps)

lemma example_manifest_simps [simp]:
  "mf_permissions (example_manifest v ps ts) = ps"
  "mf_id (example_manifest v ps ts) = ''dev.clock''"
  "pub_id (mf_publisher (example_manifest v ps ts)) = ''dev''"
  "mf_version (example_manifest v ps ts) = v"
  "mf_http_templates (example_manifest v ps ts) = ts"
  "migration_version (example_manifest v ps ts) = 0"
  by (simp_all add: example_manifest_def migration_version_def)

lemma example_timer_valid:
  assumes "example_semver version \<noteq> None"
  shows "validate_manifest example_semver (example_manifest version (map example_timer rates) []) = Ok ()"
proof (rule example_valid [where semver_parse = example_semver and version = version, OF assms])
  show "\<forall>p \<in> set (map example_timer rates). validate_permission p = Ok ()"
    by (auto simp: validate_permission_def is_inherent_iff)
  have "pd_capability (example_timer rate) \<noteq> ''network:https''" for rate
    by (simp add: example_timer_def)
  then have "find (\<lambda>p. pd_capability p = ''network:https'') (map example_timer rates) = None"
    by (auto simp: find_None_iff)
  then show "validate_http_templates (example_manifest version (map example_timer rates) []) = Ok ()"
    by (simp add: validate_http_templates_def network_permission_def)
qed

lemma timer_manifest_grants:
  assumes "rates \<noteq> []" and "\<forall>rate \<in> set rates. rate \<le> hd rates"
  shows "manifest_grants (example_manifest version (map example_timer rates) []) inst
    = Ok \<lparr>ig_instance = inst, ig_caps = map timer_grant rates\<rparr>"
proof -
  have "collect_grants (map example_timer rates) = Ok (map timer_grant rates)"
    by (induction rates) (simp_all add: timer_grant_def)
  moreover have "grants_find TimerSchedule (map timer_grant rates) = Some (timer_grant (hd rates))"
    using assms(1) by (cases rates) (simp_all add: grants_find_def timer_grant_def)
  ultimately show ?thesis
    using assms(2) by (simp add: manifest_grants_def narrow_instance_def narrow_check_def timer_grant_def
        try_bind_Ok_iff [symmetric])
qed

lemma timer_parsed:
  "rates \<noteq> [] \<Longrightarrow> parsed_permissions (example_manifest version (map example_timer rates) [])
     = Ok [(TimerSchedule, Some (Timer (last rates) 8))]"
proof -
  assume "rates \<noteq> []"
  moreover have "parse_decls (map example_timer rates)
      = Ok (map (\<lambda>rate. (TimerSchedule, Some (Timer rate 8))) rates)"
    by (induction rates) simp_all
  moreover have "fold (\<lambda>(k, v). bt_insert k v) (map (\<lambda>rate. (TimerSchedule, Some (Timer rate 8))) rates) m
      = [(TimerSchedule, Some (Timer (last rates) 8))]"
    if "rates \<noteq> []" "m = [] \<or> (\<exists>r. m = [(TimerSchedule, Some (Timer r 8))])" for rates m
    using that by (induction rates arbitrary: m rule: list_nonempty_induct) auto
  ultimately show ?thesis by (simp add: parsed_permissions_def bt_of_list_def)
qed

definition timer_kind :: "u32 list \<Rightarrow> u32 list \<Rightarrow> permission_change_kind" where
  "timer_kind rates rates' = (if last rates' = last rates then Unchanged else Reduced)"

lemma timer_changes:
  assumes "rates \<noteq> []" and "rates' \<noteq> []" and "last rates' \<le> last rates"
  shows "permission_changes (example_manifest v (map example_timer rates) [])
      (example_manifest v' (map example_timer rates') [])
    = Ok [\<lparr>pc_capability = TimerSchedule, pc_kind = timer_kind rates rates'\<rparr>]"
  using assms
  by (simp add: permission_changes_def timer_parsed all_capabilities_def bt_keys_def bt_of_list_def
      List.map_filter_def change_kind_def timer_kind_def)

lemma timer_upgrade:
  assumes "rates \<noteq> []" and "rates' \<noteq> []" and "last rates' \<le> last rates"
  shows "plan_upgrade example_semver (example_manifest ''1.0.0'' (map example_timer rates) [])
      (example_manifest ''1.1.0'' (map example_timer rates') [])
    = Ok \<lparr>up_current_version = 1, up_candidate_version = 2,
          up_permissions = [\<lparr>pc_capability = TimerSchedule, pc_kind = timer_kind rates rates'\<rparr>],
          up_requires_confirmation = False\<rparr>"
  using timer_changes [OF assms]
  by (simp add: plan_upgrade_def example_semver_def widening_def timer_kind_def)

lemma timer_rollback:
  assumes "rates \<noteq> []" and "rates' \<noteq> []" and "last rates' \<le> last rates"
  shows "plan_rollback example_semver (example_manifest ''1.1.0'' (map example_timer rates) [])
      (example_manifest ''1.0.0'' (map example_timer rates') [])
    = Ok \<lparr>rp_current_version = 2, rp_target_version = 1,
          rp_permissions = [\<lparr>pc_capability = TimerSchedule, pc_kind = timer_kind rates rates'\<rparr>]\<rparr>"
  using timer_changes [OF assms]
  by (simp add: plan_rollback_def example_semver_def widening_def timer_kind_def)

lemma upgrade_without_confirmation_grants_nothing_new_witness:
  "decide (grants_find TimerSchedule [timer_grant 60]) (Some (Timer 30 1)) = Allowed"
proof -
  have "decide (grants_find TimerSchedule [timer_grant 30]) (Some (Timer 30 1)) = Allowed"
    by (simp add: decide_def grants_find_def timer_grant_def)
  then show ?thesis
    using upgrade_without_confirmation_grants_nothing_new
      [OF timer_upgrade [of "[60]" "[30]"] _ timer_manifest_grants [of "[60]" "''1.0.0''" 1]
          timer_manifest_grants [of "[30]" "''1.1.0''" 1]]
    by simp
qed

lemma rollback_restores_no_authority_witness:
  "decide (grants_find TimerSchedule [timer_grant 60]) (Some (Timer 30 1)) = Allowed"
proof -
  have "decide (grants_find TimerSchedule [timer_grant 30]) (Some (Timer 30 1)) = Allowed"
    by (simp add: decide_def grants_find_def timer_grant_def)
  then show ?thesis
    using rollback_restores_no_authority
      [OF timer_rollback [of "[60]" "[30]"] timer_manifest_grants [of "[60]" "''1.1.0''" 1]
          timer_manifest_grants [of "[30]" "''1.0.0''" 1]]
    by simp
qed

text \<open>The plan reads a capability declared twice by its last declaration, the runtime by its first, and
  manifest validation accepts both: the upgrade from a timer at 60 per minute to timers at 600 and at 60
  per minute is planned as unchanged and without confirmation, yet its instance is allowed 600 per
  minute where the current one was refused.\<close>

theorem duplicate_permission_hides_expansion:
  "validate_manifest example_semver (example_manifest ''1.0.0'' [example_timer 60] []) = Ok ()
   \<and> validate_manifest example_semver (example_manifest ''1.1.0'' [example_timer 600, example_timer 60] []) = Ok ()
   \<and> (\<exists>plan old new.
        plan_upgrade example_semver (example_manifest ''1.0.0'' [example_timer 60] [])
          (example_manifest ''1.1.0'' [example_timer 600, example_timer 60] []) = Ok plan
        \<and> \<not> up_requires_confirmation plan
        \<and> list_all (\<lambda>change. pc_kind change = Unchanged) (up_permissions plan)
        \<and> manifest_grants (example_manifest ''1.0.0'' [example_timer 60] []) 1 = Ok old
        \<and> manifest_grants (example_manifest ''1.1.0'' [example_timer 600, example_timer 60] []) 1 = Ok new
        \<and> decide (grants_find TimerSchedule (ig_caps old)) (Some (Timer 600 1)) = Denied QuotaExceeded
        \<and> decide (grants_find TimerSchedule (ig_caps new)) (Some (Timer 600 1)) = Allowed)"
proof -
  let ?old = "\<lparr>ig_instance = 1, ig_caps = [timer_grant 60]\<rparr>"
  let ?new = "\<lparr>ig_instance = 1, ig_caps = [timer_grant 600, timer_grant 60]\<rparr>"
  have "decide (grants_find TimerSchedule (ig_caps ?old)) (Some (Timer 600 1)) = Denied QuotaExceeded"
    "decide (grants_find TimerSchedule (ig_caps ?new)) (Some (Timer 600 1)) = Allowed"
    by (simp_all add: decide_def grants_find_def timer_grant_def)
  moreover have "manifest_grants (example_manifest ''1.0.0'' [example_timer 60] []) 1 = Ok ?old"
    "manifest_grants (example_manifest ''1.1.0'' [example_timer 600, example_timer 60] []) 1 = Ok ?new"
    using timer_manifest_grants [of "[60]" "''1.0.0''" 1] timer_manifest_grants [of "[600, 60]" "''1.1.0''" 1]
    by simp_all
  moreover have "validate_manifest example_semver (example_manifest ''1.0.0'' [example_timer 60] []) = Ok ()"
    "validate_manifest example_semver (example_manifest ''1.1.0'' [example_timer 600, example_timer 60] []) = Ok ()"
    using example_timer_valid [of "''1.0.0''" "[60]"] example_timer_valid [of "''1.1.0''" "[600, 60]"]
    by (simp_all add: example_semver_def)
  ultimately show ?thesis using timer_upgrade [of "[60]" "[600, 60]"] by (simp add: timer_kind_def)
qed

section \<open>The two comparisons of scopes\<close>

definition narrowing_grants :: grants where
  "narrowing_grants = \<lparr>gs_plugin = ''dev.notes'', gs_caps = [\<lparr>g_capability = StorageRead, g_params = Some (Storage [''a''] 8),
     g_effective = DerivedFromInstall\<rparr>], gs_trust = TrustDev\<rparr>"

definition narrowed_grant :: grant where
  "narrowed_grant = \<lparr>g_capability = StorageRead, g_params = Some (Storage [] 8), g_effective = DerivedFromInstall\<rparr>"

text \<open>The check that an instance narrows its plugin's grant differs from the comparison an upgrade
  uses in two cases only: dropping the parameters, and an empty list of storage keys, which means
  every key, under a list that restricts them.  In the second case the instance is granted keys that
  the plugin is refused.\<close>

theorem instance_narrowing_gap:
  "instance_within p i = (params_within i p \<or> (p \<noteq> None \<and> i = None)
     \<or> (\<exists>keys bytes ib. p = Some (Storage keys bytes) \<and> i = Some (Storage [] ib) \<and> keys \<noteq> [] \<and> ib \<le> bytes))
   \<and> narrow_instance narrowing_grants 1 [narrowed_grant] = Ok \<lparr>ig_instance = 1, ig_caps = [narrowed_grant]\<rparr>
   \<and> decide (grants_find StorageRead (gs_caps narrowing_grants)) (Some (Storage [''b''] 0)) = Denied ScopeViolation
   \<and> decide (grants_find StorageRead [narrowed_grant]) (Some (Storage [''b''] 0)) = Allowed"
proof (intro conjI)
  show "instance_within p i = (params_within i p \<or> (p \<noteq> None \<and> i = None)
     \<or> (\<exists>keys bytes ib. p = Some (Storage keys bytes) \<and> i = Some (Storage [] ib) \<and> keys \<noteq> [] \<and> ib \<le> bytes))"
    by (cases "(p, i)" rule: instance_within.cases; simp)
      (rename_tac a b; case_tac a; case_tac b; auto simp: key_scope_within_def)
qed (simp_all add: narrow_instance_def narrow_check_def narrowing_grants_def narrowed_grant_def grants_find_def decide_def)

end
