(* ===== verification/Signature.thy ===== *)
theory Signature
  imports Distribution
begin

text \<open>
  Detached package signatures, the second half of \<open>floatile-core/src/distribution.rs\<close>:
  the digest a signature covers, the DSSE pre-authentication encoding, and the verification of
  an envelope against the host's binding of a publisher to keys.  The third-party functions are
  the fields of \<open>crypto\<close>.  The encoding is injective, and an accepted envelope proves that the
  files are a set its publisher signed, as far as the signature scheme and the hash are sound.
\<close>

definition SIGNATURE_FILE :: string where
  "SIGNATURE_FILE = ''signature.json''"

definition PACKAGE_DIGEST_PAYLOAD_TYPE :: string where
  "PACKAGE_DIGEST_PAYLOAD_TYPE = ''application/vnd.floatile.package-digest.v1''"

definition MAX_SIGNATURE_ENVELOPE_BYTES :: nat where
  "MAX_SIGNATURE_ENVELOPE_BYTES = 16 * 1024"

definition MAX_PACKAGE_SIGNATURES :: nat where
  "MAX_PACKAGE_SIGNATURES = 8"

datatype trusted_publisher_state = PublisherActive | PublisherRevokedState

record trusted_publisher =
  tp_publisher_id :: string
  tp_state :: trusted_publisher_state
  tp_keys :: "bytes list"
  tp_revoked_key_ids :: "string list"

datatype signature_error =
    EnvelopeTooLarge
  | MalformedEnvelope
  | UnsupportedPayloadType
  | InvalidSignatureCount
  | DigestMismatch
  | PublisherMismatch
  | PublisherRevoked
  | KeyRevoked
  | UnknownKey
  | InvalidSignature

record envelope_signature =
  es_keyid :: string
  es_sig :: string

record signature_envelope =
  se_payload_type :: string
  se_payload :: string
  se_signatures :: "envelope_signature list"

text \<open>
  SHA-256, the standard base64 alphabet, the JSON parser of the envelope with unknown fields
  denied, and strict Ed25519 verification: \<open>None\<close> when the key bytes are no valid point.
\<close>

record crypto =
  cr_sha256 :: "bytes \<Rightarrow> bytes"
  cr_b64_decode :: "string \<Rightarrow> bytes option"
  cr_b64_encode :: "bytes \<Rightarrow> string"
  cr_parse_envelope :: "bytes \<Rightarrow> signature_envelope option"
  cr_verify :: "bytes \<Rightarrow> (bytes \<Rightarrow> bytes \<Rightarrow> bool) option"

definition signable_files :: "file_set \<Rightarrow> file_set" where
  "signable_files files = filter (\<lambda>f. fst f \<noteq> SIGNATURE_FILE) files"

definition signable_content_digest :: "crypto \<Rightarrow> file_set \<Rightarrow> bytes" where
  "signable_content_digest cr files = content_digest (cr_sha256 cr) (signable_files files)"

definition publisher_key_id :: "crypto \<Rightarrow> bytes \<Rightarrow> string" where
  "publisher_key_id cr key = hex_encode (cr_sha256 cr key)"

definition dsse_pae :: "string \<Rightarrow> bytes \<Rightarrow> bytes" where
  "dsse_pae payload_type payload =
     ''DSSEv1 '' @ decimal (length payload_type) @ '' '' @ payload_type @ '' ''
       @ decimal (length payload) @ '' '' @ payload"

definition decode_canonical_base64 :: "crypto \<Rightarrow> string \<Rightarrow> (bytes, signature_error) result" where
  "decode_canonical_base64 cr s =
     try_bind (ok_or MalformedEnvelope (cr_b64_decode cr s))
       (\<lambda>decoded. if cr_b64_encode cr decoded \<noteq> s then Err MalformedEnvelope else Ok decoded)"

text \<open>One signature against one key whose identifier it names.\<close>

definition check_signature :: "crypto \<Rightarrow> bytes \<Rightarrow> envelope_signature \<Rightarrow> bytes \<Rightarrow> (bool, signature_error) result" where
  "check_signature cr pae s key =
     try_bind (decode_canonical_base64 cr (es_sig s))
       (\<lambda>sb. if length sb \<noteq> 64 then Err MalformedEnvelope
             else try_bind (ok_or MalformedEnvelope (cr_verify cr key)) (\<lambda>verify. Ok (verify pae sb)))"

text \<open>
  The two nested loops over the signatures and the trusted keys, as one loop over the pairs;
  \<open>matched\<close> records whether a pair named a trusted key.
\<close>

fun verify_pairs ::
  "crypto \<Rightarrow> bytes \<Rightarrow> (envelope_signature \<times> bytes) list \<Rightarrow> bool \<Rightarrow> (unit, signature_error) result"
where
  "verify_pairs cr pae [] matched = Err (if matched then InvalidSignature else UnknownKey)"
| "verify_pairs cr pae ((s, key) # pairs) matched =
     (if es_keyid s \<noteq> publisher_key_id cr key then verify_pairs cr pae pairs matched
      else try_bind (check_signature cr pae s key)
             (\<lambda>good. if good then Ok () else verify_pairs cr pae pairs True))"

definition verify_signature_envelope ::
  "crypto \<Rightarrow> bytes \<Rightarrow> file_set \<Rightarrow> string \<Rightarrow> trusted_publisher \<Rightarrow> (unit, signature_error) result"
where
  "verify_signature_envelope cr envelope_json files manifest_publisher_id tp =
     (if MAX_SIGNATURE_ENVELOPE_BYTES < length envelope_json then Err EnvelopeTooLarge
      else if manifest_publisher_id \<noteq> tp_publisher_id tp then Err PublisherMismatch
      else if tp_state tp = PublisherRevokedState then Err PublisherRevoked
      else try_bind (ok_or MalformedEnvelope (cr_parse_envelope cr envelope_json)) (\<lambda>env.
        if se_payload_type env \<noteq> PACKAGE_DIGEST_PAYLOAD_TYPE then Err UnsupportedPayloadType
        else if se_signatures env = [] \<or> MAX_PACKAGE_SIGNATURES < length (se_signatures env)
        then Err InvalidSignatureCount
        else try_bind (decode_canonical_base64 cr (se_payload env)) (\<lambda>payload.
          if length payload \<noteq> 32 then Err MalformedEnvelope
          else if payload \<noteq> signable_content_digest cr files then Err DigestMismatch
          else if list_ex (\<lambda>s. es_keyid s \<in> set (tp_revoked_key_ids tp)) (se_signatures env) then Err KeyRevoked
          else verify_pairs cr (dsse_pae (se_payload_type env) payload)
                 (List.product (se_signatures env) (tp_keys tp)) False)))"

section \<open>The encoding is injective\<close>

lemma dsse_pae_inject: "dsse_pae t p = dsse_pae t' p' \<Longrightarrow> t = t' \<and> p = p'"
proof -
  let ?tail = "\<lambda>t p. t @ '' '' @ decimal (length p) @ '' '' @ p"
  assume "dsse_pae t p = dsse_pae t' p'"
  then have "decimal (length t) @ CHR '' '' # ?tail t p = decimal (length t') @ CHR '' '' # ?tail t' p'"
    by (simp add: dsse_pae_def)
  then have len: "decimal (length t) = decimal (length t')" and tail: "?tail t p = ?tail t' p'"
    using append_sep_inject [OF space_not_in_decimal space_not_in_decimal] by blast+
  from len have "length t = length t'" by (simp add: decimal_inject)
  with tail have t: "t = t'" and rest: "decimal (length p) @ CHR '' '' # p = decimal (length p') @ CHR '' '' # p'"
    by auto
  with append_sep_inject [OF space_not_in_decimal space_not_in_decimal rest] show ?thesis by simp
qed

section \<open>What an accepted envelope proves\<close>

lemma check_signature_True:
  "check_signature cr pae s key = Ok True \<longleftrightarrow>
     (\<exists>sb verify. decode_canonical_base64 cr (es_sig s) = Ok sb \<and> length sb = 64
        \<and> cr_verify cr key = Some verify \<and> verify pae sb)"
  by (auto simp: check_signature_def split: if_splits)

lemma verify_pairs_Ok:
  "verify_pairs cr pae pairs matched = Ok () \<Longrightarrow>
     \<exists>s key. (s, key) \<in> set pairs \<and> es_keyid s = publisher_key_id cr key
       \<and> check_signature cr pae s key = Ok True"
proof (induction pairs arbitrary: matched)
  case (Cons pair pairs)
  obtain s key where pair: "pair = (s, key)" by (cases pair)
  show ?case
  proof (cases "es_keyid s = publisher_key_id cr key \<and> check_signature cr pae s key = Ok True")
    case False
    with Cons.prems have "\<exists>m. verify_pairs cr pae pairs m = Ok ()"
      by (auto simp: pair split: if_splits)
    with Cons.IH show ?thesis by (meson list.set_intros(2))
  qed (auto simp: pair)
qed simp

lemma verify_signature_envelope_Ok:
  assumes "verify_signature_envelope cr env_json files pub tp = Ok ()"
  obtains s :: envelope_signature and key verify sb
  where "key \<in> set (tp_keys tp)" "es_keyid s = publisher_key_id cr key"
    "es_keyid s \<notin> set (tp_revoked_key_ids tp)" "cr_verify cr key = Some verify"
    "verify (dsse_pae PACKAGE_DIGEST_PAYLOAD_TYPE (signable_content_digest cr files)) sb"
    "pub = tp_publisher_id tp" "tp_state tp = PublisherActive"
proof -
  let ?pae = "dsse_pae PACKAGE_DIGEST_PAYLOAD_TYPE (signable_content_digest cr files)"
  have active: "pub = tp_publisher_id tp" "tp_state tp = PublisherActive"
    using assms by (cases "tp_state tp"; simp add: verify_signature_envelope_def split: if_splits)+
  have "\<exists>env :: signature_envelope. \<not> list_ex (\<lambda>s. es_keyid s \<in> set (tp_revoked_key_ids tp)) (se_signatures env)
      \<and> verify_pairs cr ?pae (List.product (se_signatures env) (tp_keys tp)) False = Ok ()"
    using assms by (auto simp: verify_signature_envelope_def split: if_splits)
  then obtain env :: signature_envelope where unrevoked: "\<forall>s \<in> set (se_signatures env). es_keyid s \<notin> set (tp_revoked_key_ids tp)"
    and loop: "verify_pairs cr ?pae (List.product (se_signatures env) (tp_keys tp)) False = Ok ()"
    by (auto simp: list_ex_iff)
  from verify_pairs_Ok [OF loop] obtain s key
    where mem: "(s, key) \<in> set (List.product (se_signatures env) (tp_keys tp))"
      and names: "es_keyid s = publisher_key_id cr key" "check_signature cr ?pae s key = Ok True" by blast
  from mem have "s \<in> set (se_signatures env)" and key: "key \<in> set (tp_keys tp)" by simp_all
  with unrevoked have fresh: "es_keyid s \<notin> set (tp_revoked_key_ids tp)" by blast
  from names(2) obtain sb verify where "cr_verify cr key = Some verify" "verify ?pae sb"
    unfolding check_signature_True by blast
  from that [OF key names(1) fresh this active] show ?thesis .
qed

text \<open>C13: An accepted envelope authenticates the package: if the trusted keys verify only messages their
  owner signed, the owner signed only the encodings of the digests of the file sets in \<open>released\<close>, and
  the hash separates those sets from the package at hand, then the files of the package without the
  signature file are one of the released sets; the publisher is active and matches the manifest.\<close>

theorem accepted_signature_authenticates_files:
  assumes accepted: "verify_signature_envelope cr env_json files pub tp = Ok ()"
    and sound: "\<And>key verify msg sig. key \<in> set (tp_keys tp) \<Longrightarrow> cr_verify cr key = Some verify \<Longrightarrow>
      verify msg sig \<Longrightarrow> msg \<in> by_owner"
    and by_owner: "\<And>msg. msg \<in> by_owner \<Longrightarrow>
      \<exists>fs \<in> released. msg = dsse_pae PACKAGE_DIGEST_PAYLOAD_TYPE (content_digest (cr_sha256 cr) fs)"
    and hash: "inj_on (cr_sha256 cr) (content_stream ` Set.insert (signable_files files) released)"
    and names: "\<And>fs. fs \<in> Set.insert (signable_files files) released \<Longrightarrow> files_ok fs"
  shows "signable_files files \<in> released \<and> pub = tp_publisher_id tp \<and> tp_state tp = PublisherActive"
proof -
  obtain s key verify sb where "key \<in> set (tp_keys tp)" "cr_verify cr key = Some verify"
    and "verify (dsse_pae PACKAGE_DIGEST_PAYLOAD_TYPE (signable_content_digest cr files)) sb"
    and active: "pub = tp_publisher_id tp" "tp_state tp = PublisherActive"
    using accepted by (rule verify_signature_envelope_Ok)
  then have "dsse_pae PACKAGE_DIGEST_PAYLOAD_TYPE (signable_content_digest cr files) \<in> by_owner"
    by (intro sound)
  from by_owner [OF this] obtain fs where fs: "fs \<in> released"
    and pae: "dsse_pae PACKAGE_DIGEST_PAYLOAD_TYPE (signable_content_digest cr files)
      = dsse_pae PACKAGE_DIGEST_PAYLOAD_TYPE (content_digest (cr_sha256 cr) fs)" by blast
  from dsse_pae_inject [OF pae]
  have eq: "cr_sha256 cr (content_stream (signable_files files)) = cr_sha256 cr (content_stream fs)"
    by (simp add: signable_content_digest_def content_digest_def)
  have "content_stream (signable_files files) = content_stream fs"
    by (rule inj_onD [OF hash eq]) (use fs in auto)
  then have "signable_files files = fs"
  proof (rule stream_inject)
    show "files_ok (signable_files files)" "files_ok fs" using names fs by blast+
  qed
  with fs active show ?thesis by simp
qed

definition example_sha :: "bytes \<Rightarrow> bytes" where
  "example_sha x = take 32 (x @ replicate 32 CHR 0x00)"

definition example_files :: file_set where
  "example_files = [(''manifest.json'', ''m''), (''signature.json'', ''s'')]"

definition example_message :: bytes where
  "example_message = dsse_pae PACKAGE_DIGEST_PAYLOAD_TYPE
     (content_digest example_sha [(''manifest.json'', ''m'')])"

definition example_crypto :: crypto where
  "example_crypto = \<lparr>cr_sha256 = example_sha, cr_b64_decode = Some, cr_b64_encode = id,
     cr_parse_envelope = (\<lambda>_. Some \<lparr>se_payload_type = PACKAGE_DIGEST_PAYLOAD_TYPE,
        se_payload = content_digest example_sha [(''manifest.json'', ''m'')],
        se_signatures = [\<lparr>es_keyid = hex_encode (example_sha ''key''), es_sig = replicate 64 CHR ''x''\<rparr>]\<rparr>),
     cr_verify = (\<lambda>key. Some (\<lambda>msg sig. msg = example_message))\<rparr>"

definition example_publisher :: trusted_publisher where
  "example_publisher = \<lparr>tp_publisher_id = ''dev'', tp_state = PublisherActive, tp_keys = [''key''],
     tp_revoked_key_ids = []\<rparr>"

lemma example_signable: "signable_files example_files = [(''manifest.json'', ''m'')]"
  by (simp add: signable_files_def example_files_def SIGNATURE_FILE_def)

lemma example_accepted:
  "verify_signature_envelope example_crypto ''{}'' example_files ''dev'' example_publisher = Ok ()"
proof -
  have len: "length (content_digest example_sha fs) = 32" for fs
    by (simp add: content_digest_def example_sha_def)
  show ?thesis
    by (simp add: verify_signature_envelope_def example_crypto_def example_publisher_def
        MAX_SIGNATURE_ENVELOPE_BYTES_def MAX_PACKAGE_SIGNATURES_def decode_canonical_base64_def len
        signable_content_digest_def example_signable publisher_key_id_def check_signature_def
        example_message_def)
qed

lemma accepted_signature_authenticates_files_witness:
  "signable_files example_files \<in> {[(''manifest.json'', ''m'')]}"
proof -
  have "signable_files example_files \<in> {[(''manifest.json'', ''m'')]} \<and> ''dev'' = tp_publisher_id example_publisher
      \<and> tp_state example_publisher = PublisherActive"
    by (rule accepted_signature_authenticates_files [OF example_accepted, of "{example_message}"])
      (auto simp: example_crypto_def example_message_def example_signable files_ok_def)
  then show ?thesis by simp
qed

end
