(* ===== verification/Rate_Window.thy ===== *)
theory Rate_Window
  imports Floatile_Prelude
begin

text \<open>
  The fixed-window rate limiter that the timer, log and HTTPS services each implement: a window
  opens at a request that finds the previous one older than the period, and at most \<open>limit\<close>
  requests are admitted in it.  \<open>fixed_window\<close> states the contract of one step; \<open>admitted\<close>
  counts the admissions of a run, and \<open>admitted_le\<close> bounds them in every span of one period:
  twice the limit, since a window may end and another begin within the span.
\<close>

definition seconds :: "nat \<Rightarrow> nat" where
  "seconds n = n * 10 ^ 9"

definition millis :: "nat \<Rightarrow> nat" where
  "millis n = n * 10 ^ 6"

lemma seconds_pos: "0 < n \<Longrightarrow> 0 < seconds n"
  by (simp add: seconds_def)

locale fixed_window =
  fixes start :: "'s \<Rightarrow> nat"
    and used :: "'s \<Rightarrow> nat"
    and limit :: "'s \<Rightarrow> nat"
    and period :: nat
    and step :: "'i \<Rightarrow> nat \<Rightarrow> 's \<Rightarrow> bool \<times> 's"
  assumes period_pos: "0 < period"
    and limit_step: "step i now s = (ok, s') \<Longrightarrow> limit s' = limit s"
    and same_window: "step i now s = (ok, s') \<Longrightarrow> start s' = start s \<Longrightarrow> used s + of_bool ok \<le> used s'"
    and new_window: "step i now s = (ok, s') \<Longrightarrow> start s' \<noteq> start s \<Longrightarrow>
      start s' = now \<and> start s + period \<le> now \<and> of_bool ok \<le> used s'"
    and within_limit: "step i now s = (True, s') \<Longrightarrow> used s' \<le> limit s"
begin

text \<open>The number of requests a run admits; a run is a list of requests and their times.\<close>

fun admitted :: "('i \<times> nat) list \<Rightarrow> 's \<Rightarrow> nat" where
  "admitted [] s = 0"
| "admitted ((i, now) # reqs) s = (case step i now s of (ok, s') \<Rightarrow> of_bool ok + admitted reqs s')"

text \<open>Once a window has opened within the span, no other opens before the span ends.\<close>

lemma admitted_same_window:
  "\<forall>(i, now) \<in> set reqs. t \<le> now \<and> now < t + period \<Longrightarrow> t \<le> start s \<Longrightarrow>
     admitted reqs s \<le> limit s - used s"
proof (induction reqs arbitrary: s)
  case (Cons req reqs)
  obtain i now where req: "req = (i, now)" by (cases req)
  obtain ok s' where step: "step i now s = (ok, s')" by (cases "step i now s")
  have same: "start s' = start s"
    using new_window [OF step] Cons.prems by (force simp: req)
  then have "admitted reqs s' \<le> limit s' - used s'" using Cons by auto
  with same_window [OF step same] limit_step [OF step] within_limit [of i now s s'] step
  show ?case by (cases ok) (auto simp: req)
qed simp

lemma admitted_aux:
  "\<forall>(i, now) \<in> set reqs. t \<le> now \<and> now < t + period \<Longrightarrow>
     admitted reqs s \<le> (limit s - used s) + limit s"
proof (induction reqs arbitrary: s)
  case (Cons req reqs)
  obtain i now where req: "req = (i, now)" by (cases req)
  obtain ok s' where step: "step i now s = (ok, s')" by (cases "step i now s")
  have limit: "limit s' = limit s" by (rule limit_step [OF step])
  show ?case
  proof (cases "start s' = start s")
    case True
    have "admitted reqs s' \<le> (limit s' - used s') + limit s'" using Cons by auto
    with same_window [OF step True] limit within_limit [of i now s s'] step show ?thesis
      by (cases ok) (auto simp: req)
  next
    case False
    with new_window [OF step] have new: "start s' = now" "of_bool ok \<le> used s'" by auto
    have "admitted reqs s' \<le> limit s' - used s'"
      by (rule admitted_same_window [of reqs t]) (use Cons.prems new in \<open>auto simp: req\<close>)
    with new limit within_limit [of i now s s'] step show ?thesis by (cases ok) (auto simp: req)
  qed
qed simp

lemma admitted_le:
  assumes "\<forall>(i, now) \<in> set reqs. t \<le> now \<and> now < t + period"
  shows "admitted reqs s \<le> 2 * limit s"
  using admitted_aux [OF assms, of s] by simp

text \<open>A run that starts with an empty window opened no earlier than the span admits the limit only.\<close>

lemma admitted_fresh:
  assumes "\<forall>(i, now) \<in> set reqs. t \<le> now \<and> now < t + period" and "t \<le> start s"
  shows "admitted reqs s \<le> limit s"
  using admitted_same_window [OF assms] by simp

end

end
