(* ===== verification/Services.thy ===== *)
theory Services
  imports Capability Rate_Window
begin

text \<open>
  The capability services of \<open>floatile-services/src\<close>: timers, the plugin log, metrics,
  theme tokens, private storage, the credential vault, the wall clock and audit records.  Every
  service is a record of its state; an operation takes the time of the call where the code reads
  \<open>Instant::now()\<close> and returns its result with the next state.  The spawned task of a timer
  is an entry of \<open>ts_tasks\<close>, and \<open>timer_fire\<close> is its wake-up.  The timer and the log
  are interpreted as fixed-window limiters; the byte account of the storage is shown exact, so its
  subtraction never underflows.
\<close>

unbundle bit_operations_syntax

section \<open>Errors\<close>

datatype log_error = LogRateExceeded | MessageTooLarge
datatype timer_error = TimerNotAllowed | BudgetExceeded | InvalidDelay | InvalidTimerId | TimerUnavailable
datatype storage_error = StorageNotAllowed | InvalidKey | StorageQuotaExceeded | StorageUnavailable | StorageInternal
datatype metrics_error = MetricsNotAllowed | MetricsRateExceeded | MetricsUnavailable
datatype theme_error = ThemeNotAllowed | UnknownToken | InvalidSubscription | ThemeUnavailable

definition log_error_of_deny :: "deny_reason \<Rightarrow> log_error" where
  "log_error_of_deny r = LogRateExceeded"

definition timer_error_of_deny :: "deny_reason \<Rightarrow> timer_error" where
  "timer_error_of_deny r = (if r = QuotaExceeded then BudgetExceeded else TimerNotAllowed)"

definition storage_error_of_deny :: "deny_reason \<Rightarrow> storage_error" where
  "storage_error_of_deny r = (if r = QuotaExceeded then StorageQuotaExceeded else StorageNotAllowed)"

definition metrics_error_of_deny :: "deny_reason \<Rightarrow> metrics_error" where
  "metrics_error_of_deny r = (if r = QuotaExceeded then MetricsRateExceeded else MetricsNotAllowed)"

definition theme_error_of_deny :: "deny_reason \<Rightarrow> theme_error" where
  "theme_error_of_deny r = ThemeNotAllowed"

section \<open>Timers\<close>

text \<open>The task behind a timer; \<open>tt_cancelled\<close> is the flag it shares with the service.\<close>

record timer_task =
  tt_id :: u32
  tt_due :: nat
  tt_cancelled :: bool
  tt_done :: bool

record timer_service =
  ts_next_id :: u32
  ts_active :: "(u32, nat) btree"
  ts_max_per_minute :: u32
  ts_max_active :: u32
  ts_window_start :: nat
  ts_window_count :: u32
  ts_tasks :: "timer_task list"

definition timer_new :: "nat \<Rightarrow> timer_service" where
  "timer_new now = \<lparr>ts_next_id = 1, ts_active = [], ts_max_per_minute = 60, ts_max_active = 8,
     ts_window_start = now, ts_window_count = 0, ts_tasks = []\<rparr>"

definition timer_set_quota :: "u32 \<Rightarrow> u32 \<Rightarrow> timer_service \<Rightarrow> timer_service" where
  "timer_set_quota per_minute active s = s\<lparr>ts_max_per_minute := per_minute, ts_max_active := active\<rparr>"

definition timer_schedule :: "nat \<Rightarrow> u64 \<Rightarrow> timer_service \<Rightarrow> (u32, timer_error) result \<times> timer_service" where
  "timer_schedule now delay_ms s =
     (if delay_ms = 0 then (Err InvalidDelay, s)
      else let s1 = (if seconds 60 \<le> now - ts_window_start s
                     then s\<lparr>ts_window_start := now, ts_window_count := 0\<rparr> else s)
           in if ts_max_per_minute s1 \<le> ts_window_count s1 then (Err BudgetExceeded, s1)
              else if unat (ts_max_active s1) \<le> length (ts_active s1) then (Err BudgetExceeded, s1)
              else (Ok (ts_next_id s1),
                    s1\<lparr>ts_window_count := ts_window_count s1 + 1,
                       ts_next_id := next_id_nonzero (ts_next_id s1),
                       ts_active := bt_insert (ts_next_id s1) (length (ts_tasks s1)) (ts_active s1),
                       ts_tasks := ts_tasks s1 @
                         [\<lparr>tt_id = ts_next_id s1, tt_due = now + millis (unat delay_ms),
                           tt_cancelled = False, tt_done = False\<rparr>]\<rparr>))"

definition timer_cancel :: "u32 \<Rightarrow> timer_service \<Rightarrow> (unit, timer_error) result \<times> timer_service" where
  "timer_cancel tid s =
     (case bt_lookup tid (ts_active s) of
        Some k \<Rightarrow>
          (Ok (), s\<lparr>ts_active := bt_remove tid (ts_active s),
                    ts_tasks := (ts_tasks s)[k := (ts_tasks s ! k)\<lparr>tt_cancelled := True\<rparr>]\<rparr>)
      | None \<Rightarrow> (Err InvalidTimerId, s))"

definition timer_complete :: "u32 \<Rightarrow> timer_service \<Rightarrow> timer_service" where
  "timer_complete tid s = s\<lparr>ts_active := bt_remove tid (ts_active s)\<rparr>"

text \<open>Task \<open>k\<close> wakes at its due time; it delivers its identifier unless it was cancelled.\<close>

definition timer_fire :: "nat \<Rightarrow> nat \<Rightarrow> timer_service \<Rightarrow> u32 option \<times> timer_service" where
  "timer_fire now k s =
     (if k < length (ts_tasks s) \<and> \<not> tt_done (ts_tasks s ! k) \<and> tt_due (ts_tasks s ! k) \<le> now
      then (if tt_cancelled (ts_tasks s ! k) then None else Some (tt_id (ts_tasks s ! k)),
            s\<lparr>ts_tasks := (ts_tasks s)[k := (ts_tasks s ! k)\<lparr>tt_done := True\<rparr>]\<rparr>)
      else (None, s))"

section \<open>Log\<close>

datatype log_level = LevelDebug | LevelInfo | LevelWarn | LevelError

record log_service =
  lg_plugin :: string
  lg_instance :: u64
  lg_max_per_minute :: u32
  lg_window_start :: nat
  lg_window_count :: u32
  lg_emitted :: "(log_level \<times> string) list"

definition log_new :: "nat \<Rightarrow> string \<Rightarrow> u64 \<Rightarrow> log_service" where
  "log_new now plugin inst = \<lparr>lg_plugin = plugin, lg_instance = inst, lg_max_per_minute = 60,
     lg_window_start = now, lg_window_count = 0, lg_emitted = []\<rparr>"

definition log_write ::
  "nat \<Rightarrow> log_level \<Rightarrow> string \<Rightarrow> log_service \<Rightarrow> (unit, log_error) result \<times> log_service"
where
  "log_write now level message s =
     (let s1 = (if seconds 60 \<le> now - lg_window_start s
                then s\<lparr>lg_window_start := now, lg_window_count := 0\<rparr> else s)
      in if lg_max_per_minute s1 \<le> lg_window_count s1 then (Err LogRateExceeded, s1)
         else let s2 = s1\<lparr>lg_window_count := lg_window_count s1 + 1\<rparr>
              in if 4096 < char_count message then (Err MessageTooLarge, s2)
                 else (Ok (), s2\<lparr>lg_emitted := lg_emitted s2 @ [(level, message)]\<rparr>))"

section \<open>Metrics\<close>

record process_sample =
  ps_cpu_ns :: nat
  ps_rss_bytes :: u64

record metrics_service =
  ms_last :: "(nat \<times> nat) option"
  ms_last_sample :: "nat option"
  ms_min_interval :: nat

record memory_snapshot =
  mem_rss_kib :: u64
  mem_virtual_kib :: u64

definition metrics_new :: "u32 \<Rightarrow> metrics_service" where
  "metrics_new rate = \<lparr>ms_last = None, ms_last_sample = None,
     ms_min_interval = (if rate = 0 then 0 else seconds 1 div unat rate)\<rparr>"

text \<open>\<open>rnd\<close> is the rounding of a binary64 operation; the arguments are seconds.\<close>

definition compute_cpu_percent :: "(rat \<Rightarrow> rat) \<Rightarrow> rat \<Rightarrow> rat \<Rightarrow> rat" where
  "compute_cpu_percent rnd cpu_secs wall_secs =
     (if wall_secs \<le> 0 then 0
      else min (max (rnd (rnd (cpu_secs / wall_secs) * 100)) 0) 100)"

definition metrics_rate_limited :: "nat \<Rightarrow> metrics_service \<Rightarrow> (unit, metrics_error) result \<times> metrics_service" where
  "metrics_rate_limited now s =
     (if (case ms_last_sample s of Some prev \<Rightarrow> now - prev < ms_min_interval s | None \<Rightarrow> False)
      then (Err MetricsRateExceeded, s)
      else (Ok (), s\<lparr>ms_last_sample := Some now\<rparr>))"

definition as_secs :: "(rat \<Rightarrow> rat) \<Rightarrow> nat \<Rightarrow> rat" where
  "as_secs rnd ns = rnd (rat_of_nat ns / 10 ^ 9)"

text \<open>\<open>now\<close> and \<open>now'\<close> are the two readings of the clock; \<open>sample\<close> is the platform's.\<close>

definition metrics_cpu_percent ::
  "(rat \<Rightarrow> rat) \<Rightarrow> nat \<Rightarrow> nat \<Rightarrow> process_sample option \<Rightarrow> metrics_service
     \<Rightarrow> (rat, metrics_error) result \<times> metrics_service"
where
  "metrics_cpu_percent rnd now now' sample s =
     (case metrics_rate_limited now s of
        (Err e, s1) \<Rightarrow> (Err e, s1)
      | (Ok _, s1) \<Rightarrow>
          (case sample of
             None \<Rightarrow> (Err MetricsUnavailable, s1)
           | Some p \<Rightarrow>
               (let s2 = s1\<lparr>ms_last := Some (now', ps_cpu_ns p)\<rparr>
                in case ms_last s1 of
                     None \<Rightarrow> (Ok 0, s2)
                   | Some (prev_now, prev_cpu) \<Rightarrow>
                       (let wall = as_secs rnd (now' - prev_now)
                        in if wall \<le> 0 then (Ok 0, s2)
                           else (Ok (compute_cpu_percent rnd
                                       (rnd (as_secs rnd (ps_cpu_ns p) - as_secs rnd prev_cpu)) wall), s2)))))"

definition metrics_memory :: "process_sample option \<Rightarrow> (memory_snapshot, metrics_error) result" where
  "metrics_memory sample =
     (case sample of
        None \<Rightarrow> Err MetricsUnavailable
      | Some p \<Rightarrow> Ok \<lparr>mem_rss_kib = ps_rss_bytes p div 1024, mem_virtual_kib = 0\<rparr>)"

section \<open>Theme tokens\<close>

record theme_service =
  th_tokens :: "(string, string) btree"
  th_subscriptions :: "u32 set"
  th_next_subscription :: u32

definition DEFAULT_TOKENS :: "(string \<times> string) list" where
  "DEFAULT_TOKENS =
     [(''color.background'', ''#1e1e2e''), (''color.foreground'', ''#cdd6f4''),
      (''color.accent'', ''#89b4fa''), (''font.monospace'', ''monospace'')]"

definition theme_new :: theme_service where
  "theme_new = \<lparr>th_tokens = bt_of_list DEFAULT_TOKENS, th_subscriptions = {}, th_next_subscription = 1\<rparr>"

definition theme_get_token :: "string \<Rightarrow> theme_service \<Rightarrow> (string option, theme_error) result" where
  "theme_get_token name s =
     (if bt_lookup name (th_tokens s) = None then Err UnknownToken
      else Ok (bt_lookup name (th_tokens s)))"

definition theme_subscribe :: "theme_service \<Rightarrow> (u32, theme_error) result \<times> theme_service" where
  "theme_subscribe s =
     (Ok (th_next_subscription s),
      s\<lparr>th_next_subscription := next_id_nonzero (th_next_subscription s),
        th_subscriptions := Set.insert (th_next_subscription s) (th_subscriptions s)\<rparr>)"

definition theme_unsubscribe :: "u32 \<Rightarrow> theme_service \<Rightarrow> (unit, theme_error) result \<times> theme_service" where
  "theme_unsubscribe sid s =
     (if sid \<in> th_subscriptions s then (Ok (), s\<lparr>th_subscriptions := th_subscriptions s - {sid}\<rparr>)
      else (Err InvalidSubscription, s))"

section \<open>Private storage\<close>

record storage_state =
  st_data :: "(string, string) btree"
  st_total_bytes :: nat
  st_max_bytes :: nat

definition storage_new :: "nat \<Rightarrow> storage_state" where
  "storage_new max_bytes = \<lparr>st_data = [], st_total_bytes = 0, st_max_bytes = max_bytes\<rparr>"

definition valid_key :: "string \<Rightarrow> (unit, storage_error) result" where
  "valid_key key =
     (if key = [] \<or> CHR 0x00 \<in> set key \<or> 256 < char_count key then Err InvalidKey else Ok ())"

definition storage_get :: "string \<Rightarrow> storage_state \<Rightarrow> (string option, storage_error) result" where
  "storage_get key s = try_bind (valid_key key) (\<lambda>_. Ok (bt_lookup key (st_data s)))"

text \<open>
  \<open>set\<close> and \<open>delete\<close> compute on \<open>usize\<close>; \<open>None\<close> is the panic of an overflowing operation.
\<close>

definition storage_set ::
  "string \<Rightarrow> string \<Rightarrow> storage_state \<Rightarrow> ((unit, storage_error) result \<times> storage_state) option"
where
  "storage_set key val s =
     (case valid_key key of
        Err e \<Rightarrow> Some (Err e, s)
      | Ok _ \<Rightarrow>
          Option.bind
            (usize_sub (st_total_bytes s) (case bt_lookup key (st_data s) of Some old \<Rightarrow> length old | None \<Rightarrow> 0))
            (\<lambda>rest. Option.bind (usize_add rest (length val))
              (\<lambda>new_total.
                 if st_max_bytes s < new_total then Some (Err StorageQuotaExceeded, s)
                 else Some (Ok (), s\<lparr>st_total_bytes := new_total,
                                     st_data := bt_insert key val (st_data s)\<rparr>))))"

definition storage_delete ::
  "string \<Rightarrow> storage_state \<Rightarrow> ((unit, storage_error) result \<times> storage_state) option"
where
  "storage_delete key s =
     (case valid_key key of
        Err e \<Rightarrow> Some (Err e, s)
      | Ok _ \<Rightarrow>
          (case bt_lookup key (st_data s) of
             None \<Rightarrow> Some (Ok (), s\<lparr>st_data := bt_remove key (st_data s)\<rparr>)
           | Some old \<Rightarrow>
               Option.bind (usize_sub (st_total_bytes s) (length old))
                 (\<lambda>rest. Some (Ok (), s\<lparr>st_data := bt_remove key (st_data s), st_total_bytes := rest\<rparr>))))"

datatype storage_op = StorageSet string string | StorageDelete string

fun storage_step :: "storage_op \<Rightarrow> storage_state \<Rightarrow> ((unit, storage_error) result \<times> storage_state) option" where
  "storage_step (StorageSet key val) s = storage_set key val s"
| "storage_step (StorageDelete key) s = storage_delete key s"

fun storage_run :: "storage_op list \<Rightarrow> storage_state \<Rightarrow> storage_state option" where
  "storage_run [] s = Some s"
| "storage_run (op # ops) s = Option.bind (storage_step op s) (\<lambda>(_, s'). storage_run ops s')"

section \<open>Credentials, clock and audit\<close>

datatype credential_error = CredentialEmpty | CredentialTooLarge | CredentialNotFound | CredentialUnavailable

text \<open>\<open>cv_poisoned\<close>: a use of a secret panicked while it held the lock.\<close>

record credential_vault =
  cv_entries :: "(string, string) btree"
  cv_poisoned :: bool

definition MAX_CREDENTIAL_BYTES :: nat where
  "MAX_CREDENTIAL_BYTES = 8 * 1024"

definition secret_new :: "string \<Rightarrow> (string, credential_error) result" where
  "secret_new val =
     (if val = [] then Err CredentialEmpty
      else if MAX_CREDENTIAL_BYTES < length val then Err CredentialTooLarge
      else Ok val)"

definition vault_put ::
  "string \<Rightarrow> string \<Rightarrow> credential_vault \<Rightarrow> (unit, credential_error) result \<times> credential_vault"
where
  "vault_put reference secret v =
     (case secret_new secret of
        Err e \<Rightarrow> (Err e, v)
      | Ok s \<Rightarrow> (if cv_poisoned v then (Err CredentialUnavailable, v)
                 else (Ok (), v\<lparr>cv_entries := bt_insert reference s (cv_entries v)\<rparr>)))"

definition vault_delete :: "string \<Rightarrow> credential_vault \<Rightarrow> (bool, credential_error) result \<times> credential_vault" where
  "vault_delete reference v =
     (if cv_poisoned v then (Err CredentialUnavailable, v)
      else (Ok (bt_lookup reference (cv_entries v) \<noteq> None),
            v\<lparr>cv_entries := bt_remove reference (cv_entries v)\<rparr>))"

text \<open>The secret is lent to a function of the host; \<open>None\<close> is a panic in it, which poisons the lock.\<close>

definition vault_with_secret ::
  "string \<Rightarrow> (string \<Rightarrow> 'b option) \<Rightarrow> credential_vault
     \<Rightarrow> ('b, credential_error) result option \<times> credential_vault"
where
  "vault_with_secret reference use_secret v =
     (if cv_poisoned v then (Some (Err CredentialUnavailable), v)
      else (case bt_lookup reference (cv_entries v) of
              None \<Rightarrow> (Some (Err CredentialNotFound), v)
            | Some secret \<Rightarrow>
                (case use_secret secret of
                   Some b \<Rightarrow> (Some (Ok b), v)
                 | None \<Rightarrow> (None, v\<lparr>cv_poisoned := True\<rparr>))))"

record clock_snapshot =
  ck_unix_millis :: u64
  ck_utc_offset_minutes :: int

text \<open>\<open>None\<close>: the system time is before the epoch.\<close>

definition clock_now :: "nat option \<Rightarrow> clock_snapshot" where
  "clock_now since_epoch_ms =
     \<lparr>ck_unix_millis =
        (case since_epoch_ms of
           None \<Rightarrow> 0
         | Some ms \<Rightarrow> if ms < 2 ^ 64 then of_nat ms else - 1),
      ck_utc_offset_minutes = 0\<rparr>"

record audit_event =
  ae_plugin :: string
  ae_instance :: u64
  ae_capability :: string
  ae_allowed :: bool
  ae_reason :: "deny_reason option"
  ae_detail :: string

definition audit_event_of ::
  "string \<Rightarrow> u64 \<Rightarrow> capability_id \<Rightarrow> bool \<Rightarrow> deny_reason option \<Rightarrow> string \<Rightarrow> audit_event"
where
  "audit_event_of plugin inst c ok reason detail =
     \<lparr>ae_plugin = plugin, ae_instance = inst, ae_capability = cap_name c, ae_allowed = ok,
      ae_reason = reason, ae_detail = detail\<rparr>"

text \<open>The FNV-1a digest of a value.\<close>

definition fnv1a :: "string \<Rightarrow> u64" where
  "fnv1a val = foldl (\<lambda>hash c. (hash XOR of_nat (of_char c)) * 0x100000001b3) 0xcbf29ce484222325 val"

section \<open>The limiters are fixed windows\<close>

datatype timer_op = Schedule u64 | Cancel u32 | Complete u32 | Fire nat

text \<open>One call on a timer service; the flag says whether a new timer was accepted.\<close>

fun timer_step :: "timer_op \<Rightarrow> nat \<Rightarrow> timer_service \<Rightarrow> bool \<times> timer_service" where
  "timer_step (Schedule delay) now s = (case timer_schedule now delay s of (r, s') \<Rightarrow> (is_ok r, s'))"
| "timer_step (Cancel tid) now s = (False, snd (timer_cancel tid s))"
| "timer_step (Complete tid) now s = (False, timer_complete tid s)"
| "timer_step (Fire k) now s = (False, snd (timer_fire now k s))"

definition log_step :: "log_level \<times> string \<Rightarrow> nat \<Rightarrow> log_service \<Rightarrow> bool \<times> log_service" where
  "log_step m now s = (case log_write now (fst m) (snd m) s of (r, s') \<Rightarrow> (r \<noteq> Err LogRateExceeded, s'))"

lemma window_rollover: "seconds 60 \<le> now - start \<Longrightarrow> start \<noteq> now \<and> start + seconds 60 \<le> now"
  by (auto simp: seconds_def)

lemma timer_cancel_window [simp]:
  "ts_window_start (snd (timer_cancel tid s)) = ts_window_start s"
  "ts_window_count (snd (timer_cancel tid s)) = ts_window_count s"
  "ts_max_per_minute (snd (timer_cancel tid s)) = ts_max_per_minute s"
  by (simp_all add: timer_cancel_def split: option.splits)

lemma timer_fire_window [simp]:
  "ts_window_start (snd (timer_fire now k s)) = ts_window_start s"
  "ts_window_count (snd (timer_fire now k s)) = ts_window_count s"
  "ts_max_per_minute (snd (timer_fire now k s)) = ts_max_per_minute s"
  by (simp_all add: timer_fire_def)

lemma timer_complete_window [simp]:
  "ts_window_start (timer_complete tid s) = ts_window_start s"
  "ts_window_count (timer_complete tid s) = ts_window_count s"
  "ts_max_per_minute (timer_complete tid s) = ts_max_per_minute s"
  by (simp_all add: timer_complete_def)

interpretation timer: fixed_window ts_window_start "\<lambda>s. unat (ts_window_count s)"
  "\<lambda>s. unat (ts_max_per_minute s)" "seconds 60" timer_step
proof
  show "0 < seconds 60" by (simp add: seconds_def)
next
  fix op now s ok s' assume step: "timer_step op now s = (ok, s')"
  show "unat (ts_max_per_minute s') = unat (ts_max_per_minute s)"
    using step by (cases op) (auto simp: timer_schedule_def Let_def split: if_splits)
  show "unat (ts_window_count s) + of_bool ok \<le> unat (ts_window_count s')"
    if "ts_window_start s' = ts_window_start s"
    using step that
    by (cases op) (auto simp: timer_schedule_def Let_def not_le unat_Suc_less dest!: window_rollover split: if_splits)
  show "ts_window_start s' = now \<and> ts_window_start s + seconds 60 \<le> now \<and> of_bool ok \<le> unat (ts_window_count s')"
    if "ts_window_start s' \<noteq> ts_window_start s"
    using step that
    by (cases op) (auto simp: timer_schedule_def Let_def dest!: window_rollover split: if_splits)
next
  fix op now s s' assume step: "timer_step op now s = (True, s')"
  then show "unat (ts_window_count s') \<le> unat (ts_max_per_minute s)"
    by (cases op) (auto simp: timer_schedule_def Let_def not_le unat_Suc_less word_less_nat_alt split: if_splits)
qed

interpretation log: fixed_window lg_window_start "\<lambda>s. unat (lg_window_count s)"
  "\<lambda>s. unat (lg_max_per_minute s)" "seconds 60" log_step
proof
  show "0 < seconds 60" by (simp add: seconds_def)
next
  fix m now s ok s' assume step: "log_step m now s = (ok, s')"
  show "unat (lg_max_per_minute s') = unat (lg_max_per_minute s)"
    using step by (auto simp: log_step_def log_write_def Let_def split: if_splits)
  show "unat (lg_window_count s) + of_bool ok \<le> unat (lg_window_count s')"
    if "lg_window_start s' = lg_window_start s"
    using step that
    by (auto simp: log_step_def log_write_def Let_def not_le unat_Suc_less dest!: window_rollover split: if_splits)
  show "lg_window_start s' = now \<and> lg_window_start s + seconds 60 \<le> now \<and> of_bool ok \<le> unat (lg_window_count s')"
    if "lg_window_start s' \<noteq> lg_window_start s"
    using step that
    by (auto simp: log_step_def log_write_def Let_def dest!: window_rollover split: if_splits)
next
  fix m now s s' assume step: "log_step m now s = (True, s')"
  then show "unat (lg_window_count s') \<le> unat (lg_max_per_minute s)"
    by (auto simp: log_step_def log_write_def Let_def not_le unat_Suc_less word_less_nat_alt split: if_splits)
qed

section \<open>Timers: quotas, delivery, cancellation\<close>

text \<open>Whatever the calls, a timer service accepts at most twice its quota of timers in any minute, and
  at most the quota in a minute that begins no later than the current window: the rollover of the fixed
  window can double the rate across its boundary, but not more.\<close>

theorem timer_rate_bounded:
  assumes "\<forall>(op, now) \<in> set calls. t \<le> now \<and> now < t + seconds 60"
  shows "timer.admitted calls s \<le> 2 * unat (ts_max_per_minute s)
    \<and> (t \<le> ts_window_start s \<longrightarrow> timer.admitted calls s \<le> unat (ts_max_per_minute s))"
  using timer.admitted_le [OF assms] timer.admitted_fresh [OF assms] by blast

lemma timer_rate_bounded_witness:
  "timer.admitted [(Schedule 5, 1), (Schedule 5, 2)] (timer_set_quota 1 8 (timer_new 0)) \<le> 2
   \<and> timer.admitted [(Schedule 5, 1), (Schedule 5, 2)] (timer_set_quota 1 8 (timer_new 0)) = 1"
proof
  show "timer.admitted [(Schedule 5, 1), (Schedule 5, 2)] (timer_set_quota 1 8 (timer_new 0)) \<le> 2"
    using timer_rate_bounded [of "[(Schedule 5, 1), (Schedule 5, 2)]" 0 "timer_set_quota 1 8 (timer_new 0)"]
    by (simp add: timer_set_quota_def timer_new_def seconds_def)
  show "timer.admitted [(Schedule 5, 1), (Schedule 5, 2)] (timer_set_quota 1 8 (timer_new 0)) = 1"
    by (simp add: timer_set_quota_def timer_new_def timer_schedule_def seconds_def)
qed

text \<open>The deliveries of a run: the task, the identifier it delivers and the time.\<close>

fun deliveries :: "(timer_op \<times> nat) list \<Rightarrow> timer_service \<Rightarrow> (nat \<times> u32 \<times> nat) list" where
  "deliveries [] s = []"
| "deliveries ((op, now) # ops) s =
     (case op of
        Fire k \<Rightarrow> (case fst (timer_fire now k s) of Some tid \<Rightarrow> [(k, tid, now)] | None \<Rightarrow> [])
      | _ \<Rightarrow> [])
     @ deliveries ops (snd (timer_step op now s))"

text \<open>A task keeps its identifier and due time; its two flags are never cleared.\<close>

definition task_later :: "timer_task \<Rightarrow> timer_task \<Rightarrow> bool" where
  "task_later a b \<longleftrightarrow> tt_id b = tt_id a \<and> tt_due b = tt_due a
     \<and> (tt_cancelled a \<longrightarrow> tt_cancelled b) \<and> (tt_done a \<longrightarrow> tt_done b)"

lemma nth_update_if: "k < length xs \<Longrightarrow> xs[i := x] ! k = (if i = k then x else xs ! k)"
  by (cases "i = k") auto

lemma task_later_refl [simp]: "task_later a a"
  by (simp add: task_later_def)

lemma timer_step_tasks:
  assumes "k < length (ts_tasks s)"
  shows "k < length (ts_tasks (snd (timer_step op now s)))
    \<and> task_later (ts_tasks s ! k) (ts_tasks (snd (timer_step op now s)) ! k)"
proof (cases op)
  case (Schedule delay)
  with assms show ?thesis by (auto simp: timer_schedule_def Let_def nth_append)
next
  case (Cancel tid)
  with assms show ?thesis
    by (auto simp: timer_cancel_def nth_update_if task_later_def split: option.splits)
next
  case (Complete tid)
  with assms show ?thesis by (simp add: timer_complete_def)
next
  case (Fire j)
  with assms show ?thesis by (auto simp: timer_fire_def nth_update_if task_later_def)
qed

lemma timer_fire_Some:
  "fst (timer_fire now k s) = Some tid \<longleftrightarrow>
     k < length (ts_tasks s) \<and> \<not> tt_done (ts_tasks s ! k) \<and> \<not> tt_cancelled (ts_tasks s ! k)
     \<and> tt_due (ts_tasks s ! k) \<le> now \<and> tt_id (ts_tasks s ! k) = tid"
  by (auto simp: timer_fire_def)

lemma silent_task:
  "k < length (ts_tasks s) \<Longrightarrow> tt_cancelled (ts_tasks s ! k) \<or> tt_done (ts_tasks s ! k) \<Longrightarrow>
     k \<notin> fst ` set (deliveries ops s)"
proof (induction ops arbitrary: s)
  case (Cons e ops)
  obtain op now where e: "e = (op, now)" by (cases e)
  have "k \<notin> fst ` set (deliveries ops (snd (timer_step op now s)))"
    using Cons timer_step_tasks [OF Cons.prems(1), of op now] by (auto simp: task_later_def)
  moreover have "fst (timer_fire now k s) = None"
    using Cons.prems(2) timer_fire_Some [of now k s] by (cases "fst (timer_fire now k s)") auto
  ultimately show ?case by (auto simp: e split: timer_op.splits option.splits)
qed simp

text \<open>A timer is delivered at most once, never before its due time, and with the identifier it was
  scheduled under: in every run of a timer service the deliveries belong to distinct tasks, and each
  is of a task whose due time had passed.\<close>

theorem timer_delivered_once:
  "distinct (map fst (deliveries ops s))
   \<and> (\<forall>(k, tid, now) \<in> set (deliveries ops s). k < length (ts_tasks s) \<longrightarrow>
        tt_due (ts_tasks s ! k) \<le> now \<and> tt_id (ts_tasks s ! k) = tid \<and> \<not> tt_cancelled (ts_tasks s ! k))"
proof (induction ops arbitrary: s)
  case (Cons e ops)
  obtain op now where e: "e = (op, now)" by (cases e)
  let ?s = "snd (timer_step op now s)"
  have rest: "\<forall>(k, tid, now') \<in> set (deliveries ops ?s). k < length (ts_tasks s) \<longrightarrow>
        tt_due (ts_tasks s ! k) \<le> now' \<and> tt_id (ts_tasks s ! k) = tid \<and> \<not> tt_cancelled (ts_tasks s ! k)"
    using Cons.IH [of ?s] timer_step_tasks [of _ s op now] by (fastforce simp: task_later_def)
  show ?case
  proof (cases "\<exists>k tid. op = Fire k \<and> fst (timer_fire now k s) = Some tid")
    case True
    then obtain k tid where op: "op = Fire k" and fire: "fst (timer_fire now k s) = Some tid" by blast
    from fire have k: "k < length (ts_tasks s)" by (simp add: timer_fire_Some)
    have "k \<notin> fst ` set (deliveries ops ?s)"
    proof (rule silent_task)
      show "k < length (ts_tasks ?s)" using k timer_step_tasks by blast
      show "tt_cancelled (ts_tasks ?s ! k) \<or> tt_done (ts_tasks ?s ! k)"
        using fire by (auto simp: op timer_fire_def split: if_splits)
    qed
    moreover have "deliveries (e # ops) s = (k, tid, now) # deliveries ops ?s"
      by (simp add: e op fire)
    ultimately show ?thesis
      using Cons.IH [of ?s] rest fire by (simp add: timer_fire_Some)
  next
    case False
    then have "deliveries (e # ops) s = deliveries ops ?s"
      by (auto simp: e split: timer_op.splits option.splits)
    with Cons.IH [of ?s] rest show ?thesis by simp
  qed
qed simp

lemma timer_delivered_once_witness:
  "deliveries [(Schedule 1, 0), (Fire 0, seconds 1), (Fire 0, seconds 2)] (timer_new 0) = [(0, 1, seconds 1)]
   \<and> distinct (map fst (deliveries [(Schedule 1, 0), (Fire 0, seconds 1), (Fire 0, seconds 2)] (timer_new 0)))"
proof
  show "deliveries [(Schedule 1, 0), (Fire 0, seconds 1), (Fire 0, seconds 2)] (timer_new 0) = [(0, 1, seconds 1)]"
    by (simp add: timer_schedule_def timer_new_def timer_fire_def seconds_def millis_def)
  show "distinct (map fst (deliveries [(Schedule 1, 0), (Fire 0, seconds 1), (Fire 0, seconds 2)] (timer_new 0)))"
    using timer_delivered_once [of "[(Schedule 1, 0), (Fire 0, seconds 1), (Fire 0, seconds 2)]" "timer_new 0"]
    by blast
qed

text \<open>Well-formedness: an active entry points to a task of its own that has its identifier.\<close>

definition timer_wf :: "timer_service \<Rightarrow> bool" where
  "timer_wf s \<longleftrightarrow> bt_wf (ts_active s)
     \<and> (\<forall>tid k. bt_lookup tid (ts_active s) = Some k \<longrightarrow>
          k < length (ts_tasks s) \<and> tt_id (ts_tasks s ! k) = tid)"

lemma timer_wf_new: "timer_wf (timer_new now)"
  by (simp add: timer_wf_def timer_new_def)

lemma timer_wf_step: "timer_wf s \<Longrightarrow> timer_wf (snd (timer_step op now s))"
proof -
  assume wf: "timer_wf s"
  show ?thesis
  proof (cases op)
    case (Schedule delay)
    with wf show ?thesis
      by (auto simp: timer_wf_def timer_schedule_def Let_def nth_append less_SucI dest: less_imp_le)
  next
    case (Fire j)
    have "tt_id ((ts_tasks (snd (timer_fire now j s))) ! k) = tt_id (ts_tasks s ! k)"
      "length (ts_tasks (snd (timer_fire now j s))) = length (ts_tasks s)"
      "ts_active (snd (timer_fire now j s)) = ts_active s" for k
      by (auto simp: timer_fire_def nth_list_update)
    with wf Fire show ?thesis by (simp add: timer_wf_def)
  next
    case (Cancel tid)
    with wf show ?thesis
      by (auto simp: timer_wf_def timer_cancel_def nth_update_if bt_wf_intros split: option.splits)
  qed (use wf in \<open>auto simp: timer_wf_def timer_complete_def bt_wf_intros\<close>)
qed

text \<open>A cancelled timer is never delivered: when a well-formed service accepts the cancellation of an
  identifier, the task behind it delivers nothing in any later run, even if its wake-up is already
  due.\<close>

theorem timer_cancel_is_final:
  assumes wf: "timer_wf s" and cancel: "timer_cancel tid s = (Ok (), s')"
  shows "\<exists>k. bt_lookup tid (ts_active s) = Some k \<and> (\<forall>ops. k \<notin> fst ` set (deliveries ops s'))"
proof -
  from cancel obtain k where k: "bt_lookup tid (ts_active s) = Some k"
    and s': "s' = s\<lparr>ts_active := bt_remove tid (ts_active s),
                    ts_tasks := (ts_tasks s)[k := (ts_tasks s ! k)\<lparr>tt_cancelled := True\<rparr>]\<rparr>"
    by (auto simp: timer_cancel_def split: option.splits)
  from wf k have "k < length (ts_tasks s)" by (auto simp: timer_wf_def)
  then have "k \<notin> fst ` set (deliveries ops s')" for ops
    by (intro silent_task) (simp_all add: s')
  with k show ?thesis by blast
qed

lemma timer_cancel_is_final_witness:
  "\<exists>k. bt_lookup 1 (ts_active (snd (timer_schedule 1 5 (timer_new 0)))) = Some k
     \<and> (\<forall>ops. k \<notin> fst ` set (deliveries ops (snd (timer_cancel 1 (snd (timer_schedule 1 5 (timer_new 0)))))))"
proof (rule timer_cancel_is_final)
  show "timer_wf (snd (timer_schedule 1 5 (timer_new 0)))"
    using timer_wf_step [OF timer_wf_new, of "Schedule 5" 1 0] by (simp split: prod.splits)
  show "timer_cancel 1 (snd (timer_schedule 1 5 (timer_new 0)))
      = (Ok (), snd (timer_cancel 1 (snd (timer_schedule 1 5 (timer_new 0)))))"
    by (simp add: timer_schedule_def timer_new_def timer_cancel_def seconds_def Let_def)
qed

section \<open>Storage: the byte account is exact\<close>

definition storage_wf :: "storage_state \<Rightarrow> bool" where
  "storage_wf s \<longleftrightarrow> bt_wf (st_data s) \<and> st_total_bytes s = bt_weight length (st_data s)
     \<and> st_total_bytes s \<le> st_max_bytes s \<and> st_max_bytes s < 2 ^ 63"

lemma storage_wf_new: "max_bytes < 2 ^ 63 \<Longrightarrow> storage_wf (storage_new max_bytes)"
  by (simp add: storage_wf_def storage_new_def)

text \<open>What one \<open>set\<close> does, on every branch.\<close>

definition stored_len :: "string \<Rightarrow> storage_state \<Rightarrow> nat" where
  "stored_len key s = (case bt_lookup key (st_data s) of Some old \<Rightarrow> length old | None \<Rightarrow> 0)"

lemma stored_len_le: "storage_wf s \<Longrightarrow> stored_len key s \<le> st_total_bytes s"
  by (auto simp: storage_wf_def stored_len_def bt_weight_lookup_le [where w = length] split: option.splits)

lemma storage_set_cases:
  assumes wf: "storage_wf s" and len: "length val < 2 ^ 63"
  shows "storage_set key val s =
    (if valid_key key \<noteq> Ok () then Some (Err InvalidKey, s)
     else if st_max_bytes s < st_total_bytes s - stored_len key s + length val
     then Some (Err StorageQuotaExceeded, s)
     else Some (Ok (), s\<lparr>st_total_bytes := st_total_bytes s - stored_len key s + length val,
                         st_data := bt_insert key val (st_data s)\<rparr>))"
proof -
  have bound: "st_total_bytes s - stored_len key s + length val < 2 ^ 64"
  proof -
    have "st_total_bytes s < 2 ^ 63" using wf by (auto simp: storage_wf_def)
    then show ?thesis using len by simp
  qed
  show ?thesis
    using stored_len_le [OF wf, of key] bound
    by (auto simp: storage_set_def valid_key_def usize_sub_def usize_add_def stored_len_def [symmetric])
qed

lemma storage_set_wf:
  assumes wf: "storage_wf s" and len: "length val < 2 ^ 63"
  shows "\<exists>r s'. storage_set key val s = Some (r, s') \<and> storage_wf s' \<and> st_max_bytes s' = st_max_bytes s"
proof -
  have "bt_weight length (bt_insert key val (st_data s)) + stored_len key s
      = bt_weight length (st_data s) + length val"
    using wf bt_weight_insert [of "st_data s" length key val] by (simp add: storage_wf_def stored_len_def)
  with wf stored_len_le [OF wf, of key] show ?thesis
    by (auto simp: storage_set_cases [OF wf len] storage_wf_def)
qed

lemma storage_delete_wf:
  assumes wf: "storage_wf s"
  shows "\<exists>r s'. storage_delete key s = Some (r, s') \<and> storage_wf s' \<and> st_max_bytes s' = st_max_bytes s"
proof -
  have weight: "bt_weight length (bt_remove key (st_data s)) + stored_len key s
      = bt_weight length (st_data s)"
    using wf bt_weight_remove [of "st_data s" length key] by (simp add: storage_wf_def stored_len_def)
  show ?thesis
    using wf weight stored_len_le [OF wf, of key]
    by (auto simp: storage_delete_def storage_wf_def usize_sub_def stored_len_def bt_wf_intros
        split: result.splits option.splits)
qed

lemma storage_run_wf:
  "storage_wf s \<Longrightarrow> (\<forall>op \<in> set ops. \<forall>key val. op = StorageSet key val \<longrightarrow> length val < 2 ^ 63) \<Longrightarrow>
     \<exists>s'. storage_run ops s = Some s' \<and> storage_wf s' \<and> st_max_bytes s' = st_max_bytes s"
proof (induction ops arbitrary: s)
  case (Cons op ops)
  have "\<exists>r s'. storage_step op s = Some (r, s') \<and> storage_wf s' \<and> st_max_bytes s' = st_max_bytes s"
    using Cons.prems storage_set_wf [OF Cons.prems(1)] storage_delete_wf [OF Cons.prems(1)] by (cases op) auto
  then obtain r s' where step: "storage_step op s = Some (r, s')" "storage_wf s'" "st_max_bytes s' = st_max_bytes s"
    by blast
  with Cons.IH [of s'] Cons.prems(2) show ?case by auto
qed simp

text \<open>The byte account of a private store is exact and its arithmetic never overflows: after any
  sequence of writes and deletions from an empty store, none of the unsigned operations has panicked,
  the total is the sum of the lengths of the stored values, and it is within the quota.\<close>

theorem storage_account_exact:
  assumes "max_bytes < 2 ^ 63"
    and "\<forall>op \<in> set ops. \<forall>key val. op = StorageSet key val \<longrightarrow> length val < 2 ^ 63"
  shows "\<exists>s. storage_run ops (storage_new max_bytes) = Some s
    \<and> st_total_bytes s = (\<Sum>e\<leftarrow>st_data s. length (snd e))
    \<and> (\<Sum>e\<leftarrow>st_data s. length (snd e)) \<le> max_bytes"
proof -
  obtain s where run: "storage_run ops (storage_new max_bytes) = Some s"
    and s: "storage_wf s" "st_max_bytes s = st_max_bytes (storage_new max_bytes)"
    using storage_run_wf [OF storage_wf_new [OF assms(1)] assms(2)] by blast
  from s(2) have "st_max_bytes s = max_bytes" by (simp add: storage_new_def)
  with run s(1) show ?thesis by (auto simp: storage_wf_def bt_weight_def)
qed

lemma storage_account_exact_witness:
  "\<exists>s. storage_run [StorageSet ''a'' ''xyz'', StorageSet ''a'' ''x'', StorageDelete ''b''] (storage_new 4) = Some s
     \<and> st_total_bytes s = (\<Sum>e\<leftarrow>st_data s. length (snd e)) \<and> (\<Sum>e\<leftarrow>st_data s. length (snd e)) \<le> 4"
  by (rule storage_account_exact) auto

text \<open>A write of a private store takes effect exactly if the key is valid and the total that results is
  within the quota; then the key has the value and no other key changes, and otherwise the store is
  unchanged and the error says which of the two failed.\<close>

theorem storage_write_effect:
  assumes "storage_wf s" and "length val < 2 ^ 63"
  shows "\<exists>r s'. storage_set key val s = Some (r, s')
    \<and> (if valid_key key \<noteq> Ok () then r = Err InvalidKey \<and> s' = s
       else if st_max_bytes s < st_total_bytes s - stored_len key s + length val
       then r = Err StorageQuotaExceeded \<and> s' = s
       else r = Ok () \<and> storage_get key s' = Ok (Some val)
          \<and> (\<forall>other. other \<noteq> key \<longrightarrow> storage_get other s' = storage_get other s))"
  unfolding storage_set_cases [OF assms] by (auto simp: storage_get_def)

lemma storage_write_effect_witness:
  "\<exists>r s'. storage_set ''k'' ''v'' (storage_new 4) = Some (r, s') \<and> storage_get ''k'' s' = Ok (Some ''v'')"
  using storage_write_effect [of "storage_new 4" "''v''" "''k''"] storage_wf_new [of 4]
  by (auto simp: valid_key_def char_count_def storage_new_def stored_len_def split: if_splits)

lemma cpu_percent_bounds: "0 \<le> compute_cpu_percent rnd cpu wall \<and> compute_cpu_percent rnd cpu wall \<le> 100"
  by (simp add: compute_cpu_percent_def)

end
