(* ===== verification/Operations.thy ===== *)
theory Operations
  imports Services
begin

text \<open>
  Host-managed asynchronous operations: \<open>floatile-services/src/operation.rs\<close> over the
  vocabulary of \<open>floatile-core/src/operation.rs\<close>.

  The registry is a record: the active table, the retained results, the queue of submitted jobs,
  the spawned tasks with their phase in \<open>run_operation\<close>, and the completion channel.  The calls
  (\<open>op_submit\<close>, \<open>op_cancel\<close>, \<open>op_take\<close>, ...) are functions; \<open>op_step\<close> interleaves them with
  the dispatcher and with the phases of the tasks, one lock-protected section at a time.
  \<open>or_accepted\<close> and \<open>or_ended\<close> are ghost histories of the identifiers accepted and of the
  terminals reached.  The invariant gives the capacity bounds and that every accepted operation is
  queued, running or ended, with exactly one terminal.
\<close>

section \<open>Vocabulary\<close>

type_synonym operation_id = u64

record operation_owner =
  oo_plugin :: string
  oo_instance :: u64
  oo_generation :: u64

datatype operation_failure = OpTimeout | OpCancelled | OpUnavailable | OpInternal | OpResultDropped

fun operation_failure_code :: "operation_failure \<Rightarrow> string" where
  "operation_failure_code OpTimeout = ''timeout''"
| "operation_failure_code OpCancelled = ''cancelled''"
| "operation_failure_code OpUnavailable = ''unavailable''"
| "operation_failure_code OpInternal = ''internal''"
| "operation_failure_code OpResultDropped = ''result-dropped''"

datatype operation_terminal = Succeeded | Failed operation_failure

fun operation_terminal_code :: "operation_terminal \<Rightarrow> string" where
  "operation_terminal_code Succeeded = ''succeeded''"
| "operation_terminal_code (Failed f) = operation_failure_code f"

record operation_completion =
  oc_id :: operation_id
  oc_owner :: operation_owner
  oc_capability :: capability_id
  oc_terminal :: operation_terminal

definition is_current_for :: "operation_completion \<Rightarrow> operation_owner \<Rightarrow> bool" where
  "is_current_for completion owner \<longleftrightarrow> oc_owner completion = owner"

datatype completion_disposition = Delivered | StaleGeneration | DispositionQueueFull | ActorClosed

datatype operation_service_error = InvalidLimits | RuntimeUnavailable | OwnerMismatch

datatype operation_submit_error =
    SubmitPermissionDenied deny_reason
  | SubmitInvalidInput
  | SubmitQueueFull
  | InvalidDeadline
  | SubmitUnavailable
  | IdExhausted

datatype operation_cancel_error = NotActive | CancelPermissionDenied deny_reason | CancelUnavailable

datatype operation_take_error =
    NotAvailable
  | CapabilityMismatch
  | TypeMismatch
  | TakePermissionDenied deny_reason
  | TakeUnavailable

fun operation_submit_error_code :: "operation_submit_error \<Rightarrow> string" where
  "operation_submit_error_code (SubmitPermissionDenied _) = ''permission-denied''"
| "operation_submit_error_code SubmitInvalidInput = ''invalid-input''"
| "operation_submit_error_code SubmitQueueFull = ''queue-full''"
| "operation_submit_error_code InvalidDeadline = ''invalid-deadline''"
| "operation_submit_error_code SubmitUnavailable = ''unavailable''"
| "operation_submit_error_code IdExhausted = ''id-exhausted''"

record operation_limits =
  ol_queue_capacity :: nat
  ol_completion_capacity :: nat
  ol_max_in_flight :: nat
  ol_max_retained_results :: nat
  ol_max_timeout :: nat

definition default_limits :: operation_limits where
  "default_limits = \<lparr>ol_queue_capacity = 16, ol_completion_capacity = 16, ol_max_in_flight = 4,
     ol_max_retained_results = 16, ol_max_timeout = seconds 30\<rparr>"

definition validate_limits :: "operation_limits \<Rightarrow> (operation_limits, operation_service_error) result" where
  "validate_limits l =
     (if ol_queue_capacity l = 0 \<or> ol_completion_capacity l = 0 \<or> ol_max_in_flight l = 0
         \<or> ol_max_retained_results l = 0 \<or> ol_max_timeout l = 0
      then Err InvalidLimits else Ok l)"

section \<open>The registry\<close>

record operation_job =
  oj_id :: operation_id
  oj_capability :: capability_id
  oj_deadline :: nat

text \<open>Where a task is in \<open>run_operation\<close>: executing since a time, with its result, with its
  terminal settled, and removed from the active table.\<close>

datatype 'v operation_phase =
    Executing nat
  | Resolved "('v, operation_failure) result"
  | Settled operation_terminal
  | Deactivated operation_terminal

text \<open>The flag in the active table is the cancellation shared with the job; a stored value
  \<open>'v\<close> carries its Rust type.\<close>

record 'v op_registry =
  or_owner :: operation_owner
  or_limits :: operation_limits
  or_next_id :: u64
  or_active :: "(operation_id, capability_id \<times> bool) btree"
  or_results :: "(operation_id, capability_id \<times> 'v) btree"
  or_queue :: "operation_job list"
  or_running :: "(operation_id, operation_job \<times> 'v operation_phase) btree"
  or_channel :: "operation_completion list"
  or_receiver_closed :: bool
  or_dispatcher_gone :: bool
  or_accepted :: "operation_id list"
  or_ended :: "(operation_id \<times> operation_terminal) list"

definition registry_new ::
  "operation_owner \<Rightarrow> operation_limits \<Rightarrow> bool \<Rightarrow> u64 \<Rightarrow> ('v op_registry, operation_service_error) result"
where
  "registry_new owner limits has_runtime next_id =
     try_bind (validate_limits limits) (\<lambda>l.
       if \<not> has_runtime then Err RuntimeUnavailable
       else Ok \<lparr>or_owner = owner, or_limits = l, or_next_id = next_id, or_active = [], or_results = [],
                or_queue = [], or_running = [], or_channel = [], or_receiver_closed = False,
                or_dispatcher_gone = False, or_accepted = [], or_ended = []\<rparr>)"

text \<open>The process-wide counter: the identifier is the value before the update.\<close>

definition next_operation_id :: "u64 \<Rightarrow> (operation_id \<times> u64, operation_submit_error) result" where
  "next_operation_id n =
     (if n = - 1 then Err IdExhausted
      else if n = 0 then Err IdExhausted
      else Ok (n, n + 1))"

definition op_submit ::
  "nat \<Rightarrow> capability_id \<Rightarrow> nat \<Rightarrow> 'v op_registry \<Rightarrow> (operation_id, operation_submit_error) result \<times> 'v op_registry"
where
  "op_submit now c timeout r =
     (if timeout = 0 \<or> ol_max_timeout (or_limits r) < timeout then (Err InvalidDeadline, r)
      else (case next_operation_id (or_next_id r) of
              Err e \<Rightarrow> (Err e, r)
            | Ok (oid, next_id) \<Rightarrow>
                (let r1 = r\<lparr>or_next_id := next_id, or_active := bt_insert oid (c, False) (or_active r)\<rparr>;
                     job = \<lparr>oj_id = oid, oj_capability = c, oj_deadline = now + timeout\<rparr>
                 in if or_dispatcher_gone r1
                    then (Err SubmitUnavailable, r1\<lparr>or_active := bt_remove oid (or_active r1)\<rparr>)
                    else if length (or_queue r1) < ol_queue_capacity (or_limits r1)
                    then (Ok oid, r1\<lparr>or_queue := or_queue r1 @ [job], or_accepted := oid # or_accepted r1\<rparr>)
                    else (Err SubmitQueueFull, r1\<lparr>or_active := bt_remove oid (or_active r1)\<rparr>))))"

definition op_cancel ::
  "capability_id \<Rightarrow> operation_id \<Rightarrow> 'v op_registry \<Rightarrow> (unit, operation_cancel_error) result \<times> 'v op_registry"
where
  "op_cancel c oid r =
     (case bt_lookup oid (or_active r) of
        None \<Rightarrow> (Err NotActive, r)
      | Some (c', cancelled) \<Rightarrow>
          if c' \<noteq> c then (Err NotActive, r)
          else (Ok (), r\<lparr>or_active := bt_insert oid (c', True) (or_active r)\<rparr>))"

definition op_active_capability :: "operation_id \<Rightarrow> 'v op_registry \<Rightarrow> capability_id option" where
  "op_active_capability oid r = map_option fst (bt_lookup oid (or_active r))"

definition op_cancel_all :: "'v op_registry \<Rightarrow> nat \<times> 'v op_registry" where
  "op_cancel_all r =
     (length (or_active r), r\<lparr>or_active := map (\<lambda>(oid, c, _). (oid, c, True)) (or_active r)\<rparr>)"

definition op_discard :: "operation_id \<Rightarrow> 'v op_registry \<Rightarrow> bool \<times> 'v op_registry" where
  "op_discard oid r =
     (bt_lookup oid (or_results r) \<noteq> None, r\<lparr>or_results := bt_remove oid (or_results r)\<rparr>)"

text \<open>\<open>downcast\<close> is \<open>Box::downcast::<T>\<close>; on a mismatch the removed result is put back.\<close>

definition op_take ::
  "('v \<Rightarrow> 'a option) \<Rightarrow> capability_id \<Rightarrow> operation_id \<Rightarrow> 'v op_registry
     \<Rightarrow> ('a, operation_take_error) result \<times> 'v op_registry"
where
  "op_take downcast c oid r =
     (case bt_lookup oid (or_results r) of
        None \<Rightarrow> (Err NotAvailable, r)
      | Some (c', v) \<Rightarrow>
          (let taken = bt_remove oid (or_results r)
           in if c' \<noteq> c then (Err CapabilityMismatch, r\<lparr>or_results := bt_insert oid (c', v) taken\<rparr>)
              else (case downcast v of
                      Some a \<Rightarrow> (Ok a, r\<lparr>or_results := taken\<rparr>)
                    | None \<Rightarrow> (Err TypeMismatch, r\<lparr>or_results := bt_insert oid (c', v) taken\<rparr>))))"

section \<open>Tasks\<close>

text \<open>
  One poll of the body of \<open>run_operation\<close>: the deadline is checked once when the task starts;
  then the biased select prefers the cancellation, then the work, then the deadline.
\<close>

definition op_poll ::
  "nat \<Rightarrow> nat \<Rightarrow> nat \<Rightarrow> bool \<Rightarrow> ('v, operation_failure) result option \<Rightarrow> ('v, operation_failure) result option"
where
  "op_poll started now deadline cancelled work =
     (if deadline \<le> started then Some (Err OpTimeout)
      else if cancelled then Some (Err OpCancelled)
      else (case work of
              Some res \<Rightarrow> Some res
            | None \<Rightarrow> if deadline \<le> now then Some (Err OpTimeout) else None))"

definition op_cancelled :: "operation_id \<Rightarrow> 'v op_registry \<Rightarrow> bool" where
  "op_cancelled oid r = (case bt_lookup oid (or_active r) of Some (c, cancelled) \<Rightarrow> cancelled | None \<Rightarrow> False)"

definition op_set_phase :: "operation_job \<Rightarrow> 'v operation_phase \<Rightarrow> 'v op_registry \<Rightarrow> 'v op_registry" where
  "op_set_phase job phase r = r\<lparr>or_running := bt_insert (oj_id job) (job, phase) (or_running r)\<rparr>"

definition op_settle :: "operation_job \<Rightarrow> ('v, operation_failure) result \<Rightarrow> 'v op_registry \<Rightarrow> 'v op_registry" where
  "op_settle job res r =
     (case res of
        Ok v \<Rightarrow>
          (if ol_max_retained_results (or_limits r) \<le> length (or_results r)
           then op_set_phase job (Settled (Failed OpResultDropped)) r
           else op_set_phase job (Settled Succeeded)
                  (r\<lparr>or_results := bt_insert (oj_id job) (oj_capability job, v) (or_results r)\<rparr>))
      | Err e \<Rightarrow> op_set_phase job (Settled (Failed e)) r)"

definition op_deactivate :: "operation_job \<Rightarrow> operation_terminal \<Rightarrow> 'v op_registry \<Rightarrow> 'v op_registry" where
  "op_deactivate job t r =
     op_set_phase job (Deactivated t) (r\<lparr>or_active := bt_remove (oj_id job) (or_active r)\<rparr>)"

definition op_completion_of :: "'v op_registry \<Rightarrow> operation_job \<Rightarrow> operation_terminal \<Rightarrow> operation_completion" where
  "op_completion_of r job t =
     \<lparr>oc_id = oj_id job, oc_owner = or_owner r, oc_capability = oj_capability job, oc_terminal = t\<rparr>"

text \<open>The send of the completion and the end of the task; a closed receiver drops the result.\<close>

definition op_complete :: "operation_job \<Rightarrow> operation_terminal \<Rightarrow> 'v op_registry \<Rightarrow> 'v op_registry" where
  "op_complete job t r =
     (let r1 = r\<lparr>or_running := bt_remove (oj_id job) (or_running r),
                 or_ended := (oj_id job, t) # or_ended r\<rparr>
      in if or_receiver_closed r then r1\<lparr>or_results := bt_remove (oj_id job) (or_results r1)\<rparr>
         else r1\<lparr>or_channel := or_channel r1 @ [op_completion_of r job t]\<rparr>)"

section \<open>Interleaving\<close>

inductive op_step :: "'v op_registry \<Rightarrow> 'v op_registry \<Rightarrow> bool" where
  step_submit: "op_step r (snd (op_submit now c timeout r))"
| step_cancel: "op_step r (snd (op_cancel c oid r))"
| step_cancel_all: "op_step r (snd (op_cancel_all r))"
| step_take: "op_step r (snd (op_take (downcast :: 'v \<Rightarrow> unit option) c oid r))"
| step_discard: "op_step r (snd (op_discard oid r))"
| step_other_registry: "or_next_id r < n \<Longrightarrow> op_step r (r\<lparr>or_next_id := n\<rparr>)"
| step_dispatch:
    "or_queue r = job # rest \<Longrightarrow> \<not> or_dispatcher_gone r \<Longrightarrow>
     length (or_running r) < ol_max_in_flight (or_limits r) \<Longrightarrow>
     op_step r (op_set_phase job (Executing now) (r\<lparr>or_queue := rest\<rparr>))"
| step_resolve:
    "bt_lookup oid (or_running r) = Some (job, Executing started) \<Longrightarrow>
     op_poll started now (oj_deadline job) (op_cancelled oid r) work = Some res \<Longrightarrow>
     op_step r (op_set_phase job (Resolved res) r)"
| step_settle:
    "bt_lookup oid (or_running r) = Some (job, Resolved res) \<Longrightarrow> op_step r (op_settle job res r)"
| step_deactivate:
    "bt_lookup oid (or_running r) = Some (job, Settled t) \<Longrightarrow> op_step r (op_deactivate job t r)"
| step_complete:
    "bt_lookup oid (or_running r) = Some (job, Deactivated t) \<Longrightarrow>
     or_receiver_closed r \<or> length (or_channel r) < ol_completion_capacity (or_limits r) \<Longrightarrow>
     op_step r (op_complete job t r)"
| step_receive: "or_channel r = m # ms \<Longrightarrow> op_step r (r\<lparr>or_channel := ms\<rparr>)"
| step_close: "op_step r (r\<lparr>or_receiver_closed := True\<rparr>)"
| step_dispatcher_gone: "op_step r (r\<lparr>or_dispatcher_gone := True\<rparr>)"

inductive op_reachable :: "'v op_registry \<Rightarrow> bool" where
  reachable_new: "registry_new owner limits has_runtime n = Ok r \<Longrightarrow> n \<noteq> 0 \<Longrightarrow> op_reachable r"
| reachable_step: "op_reachable r \<Longrightarrow> op_step r r' \<Longrightarrow> op_reachable r'"

section \<open>Capacities and identifiers\<close>

abbreviation queued_ids :: "'v op_registry \<Rightarrow> operation_id set" where
  "queued_ids r \<equiv> oj_id ` set (or_queue r)"

abbreviation running_ids :: "'v op_registry \<Rightarrow> operation_id set" where
  "running_ids r \<equiv> fst ` set (or_running r)"

abbreviation ended_ids :: "'v op_registry \<Rightarrow> operation_id set" where
  "ended_ids r \<equiv> fst ` set (or_ended r)"

definition op_maps_wf :: "'v op_registry \<Rightarrow> bool" where
  "op_maps_wf r \<longleftrightarrow> bt_wf (or_active r) \<and> bt_wf (or_results r) \<and> bt_wf (or_running r)
     \<and> (\<forall>oid job phase. bt_lookup oid (or_running r) = Some (job, phase) \<longrightarrow> oj_id job = oid)"

definition op_bounded :: "'v op_registry \<Rightarrow> bool" where
  "op_bounded r \<longleftrightarrow>
     length (or_queue r) \<le> ol_queue_capacity (or_limits r)
     \<and> length (or_running r) \<le> ol_max_in_flight (or_limits r)
     \<and> length (or_results r) \<le> ol_max_retained_results (or_limits r)
     \<and> length (or_channel r) \<le> ol_completion_capacity (or_limits r)"

text \<open>Accepted operations are queued, running or ended, each once; the counter is ahead of them.\<close>

definition op_ids_ok :: "'v op_registry \<Rightarrow> bool" where
  "op_ids_ok r \<longleftrightarrow>
     distinct (or_accepted r) \<and> distinct (map oj_id (or_queue r)) \<and> distinct (map fst (or_ended r))
     \<and> set (or_accepted r) = queued_ids r \<union> running_ids r \<union> ended_ids r
     \<and> queued_ids r \<inter> running_ids r = {} \<and> queued_ids r \<inter> ended_ids r = {} \<and> running_ids r \<inter> ended_ids r = {}
     \<and> or_next_id r \<noteq> 0 \<and> (\<forall>oid \<in> set (or_accepted r). oid < or_next_id r \<and> oid \<noteq> 0)"

lemmas op_call_defs = op_submit_def op_cancel_def op_cancel_all_def op_take_def op_discard_def
  op_set_phase_def op_settle_def op_deactivate_def op_complete_def next_operation_id_def Let_def

lemma op_maps_wf_set_phase:
  "op_maps_wf r \<Longrightarrow> op_maps_wf (op_set_phase job phase r)"
  by (auto simp: op_maps_wf_def op_set_phase_def bt_wf_intros)

lemma op_maps_wf_step: "op_step r r' \<Longrightarrow> op_maps_wf r \<Longrightarrow> op_maps_wf r'"
proof (induction rule: op_step.induct)
  case (step_submit r now c timeout)
  then show ?case by (auto simp: op_maps_wf_def op_call_defs bt_wf_intros split: result.splits)
next
  case (step_cancel r c oid)
  then show ?case by (auto simp: op_maps_wf_def op_cancel_def bt_wf_intros split: option.splits)
next
  case (step_cancel_all r)
  then show ?case
    using bt_wf_map_values [of "or_active r" "\<lambda>(c, _). (c, True)"]
    by (simp add: op_maps_wf_def op_cancel_all_def case_prod_unfold)
next
  case (step_take r downcast c oid)
  then show ?case by (auto simp: op_maps_wf_def op_take_def Let_def bt_wf_intros split: option.splits)
next
  case (step_discard r oid)
  then show ?case by (auto simp: op_maps_wf_def op_discard_def bt_wf_intros)
next
  case (step_dispatch r job rest now)
  then show ?case by (intro op_maps_wf_set_phase) (simp add: op_maps_wf_def)
next
  case (step_resolve oid r job started now work res)
  then show ?case by (intro op_maps_wf_set_phase)
next
  case (step_settle oid r job res)
  then have "op_maps_wf (r\<lparr>or_results := bt_insert k v (or_results r)\<rparr>)" for k v
    by (auto simp: op_maps_wf_def bt_wf_intros)
  with step_settle show ?case by (auto simp: op_settle_def op_maps_wf_set_phase split: result.splits)
next
  case (step_deactivate oid r job t)
  then have "op_maps_wf (r\<lparr>or_active := bt_remove k (or_active r)\<rparr>)" for k
    by (auto simp: op_maps_wf_def bt_wf_intros)
  then show ?case by (simp add: op_deactivate_def op_maps_wf_set_phase)
next
  case (step_complete oid r job t)
  then show ?case by (auto simp: op_maps_wf_def op_complete_def Let_def bt_wf_intros)
qed (auto simp: op_maps_wf_def)

lemma op_bounded_set_phase_old:
  "op_maps_wf r \<Longrightarrow> op_bounded r \<Longrightarrow> bt_lookup (oj_id job) (or_running r) = Some x \<Longrightarrow>
     op_bounded (op_set_phase job phase r)"
  by (auto simp: op_bounded_def op_set_phase_def op_maps_wf_def bt_length_insert dest: bt_lookup_dom)

lemma op_bounded_step: "op_step r r' \<Longrightarrow> op_maps_wf r \<Longrightarrow> op_bounded r \<Longrightarrow> op_bounded r'"
proof (induction rule: op_step.induct)
  case (step_submit r now c timeout)
  then show ?case by (auto simp: op_bounded_def op_submit_def Let_def split: result.splits)
next
  case (step_take r downcast c oid)
  have "length (bt_remove oid (or_results r)) \<le> length (or_results r)" by (rule bt_length_remove)
  moreover have "length (bt_insert oid v (bt_remove oid (or_results r))) = length (or_results r)"
    if "bt_lookup oid (or_results r) = Some v" for v
  proof -
    have "bt_insert oid v (bt_remove oid (or_results r)) = or_results r"
      using step_take(1) that by (intro bt_eqI) (auto simp: op_maps_wf_def bt_wf_intros)
    then show ?thesis by simp
  qed
  ultimately show ?case
    using step_take by (auto simp: op_bounded_def op_take_def Let_def split: option.splits)
next
  case (step_discard r oid)
  then show ?case
    using bt_length_remove [of oid "or_results r"] by (auto simp: op_bounded_def op_discard_def)
next
  case (step_dispatch r job rest now)
  then show ?case by (auto simp: op_bounded_def op_set_phase_def op_maps_wf_def bt_length_insert)
next
  case (step_resolve oid r job started now work res)
  then have "oj_id job = oid" by (auto simp: op_maps_wf_def)
  with step_resolve show ?case by (auto intro: op_bounded_set_phase_old)
next
  case (step_settle oid r job res)
  then have oid: "oj_id job = oid" by (auto simp: op_maps_wf_def)
  show ?case
    using step_settle oid
    by (auto simp: op_settle_def op_bounded_def op_set_phase_def op_maps_wf_def bt_length_insert
        dest: bt_lookup_dom split: result.splits)
next
  case (step_deactivate oid r job t)
  then have oid: "oj_id job = oid" by (auto simp: op_maps_wf_def)
  with step_deactivate show ?case
    by (auto simp: op_deactivate_def op_bounded_def op_set_phase_def op_maps_wf_def bt_length_insert
        dest: bt_lookup_dom)
next
  case (step_complete oid r job t)
  then show ?case
    using bt_length_remove [of "oj_id job" "or_running r"] bt_length_remove [of "oj_id job" "or_results r"]
    by (auto simp: op_bounded_def op_complete_def Let_def)
qed (auto simp: op_bounded_def op_cancel_def op_cancel_all_def split: option.splits)

lemma running_ids_set_phase:
  "running_ids (op_set_phase job phase r) = Set.insert (oj_id job) (running_ids r)"
  by (simp add: op_set_phase_def set_bt_insert)

lemma op_set_phase_simps [simp]:
  "or_queue (op_set_phase job phase r) = or_queue r"
  "or_ended (op_set_phase job phase r) = or_ended r"
  "or_accepted (op_set_phase job phase r) = or_accepted r"
  "or_next_id (op_set_phase job phase r) = or_next_id r"
  "or_active (op_set_phase job phase r) = or_active r"
  "or_results (op_set_phase job phase r) = or_results r"
  "or_limits (op_set_phase job phase r) = or_limits r"
  by (simp_all add: op_set_phase_def)

lemma op_ids_ok_same:
  assumes "op_ids_ok r" and "or_queue r' = or_queue r" and "running_ids r' = running_ids r"
    and "or_ended r' = or_ended r" and "or_accepted r' = or_accepted r" and "or_next_id r' = or_next_id r"
  shows "op_ids_ok r'"
  using assms by (simp add: op_ids_ok_def)

lemma running_ids_update:
  "op_maps_wf r \<Longrightarrow> bt_lookup oid (or_running r) = Some (job, phase) \<Longrightarrow>
     oj_id job = oid \<and> running_ids (op_set_phase job phase' r) = running_ids r"
proof -
  assume wf: "op_maps_wf r" and look: "bt_lookup oid (or_running r) = Some (job, phase)"
  then have "oj_id job = oid" by (auto simp: op_maps_wf_def)
  moreover have "oid \<in> running_ids r" using look by (rule bt_lookup_dom)
  ultimately show ?thesis by (simp add: running_ids_set_phase insert_absorb)
qed

lemma op_ids_ok_phase:
  assumes "op_ids_ok r" and "op_maps_wf r" and "bt_lookup oid (or_running r) = Some (job, phase)"
  shows "op_ids_ok (op_set_phase job phase' r)"
  by (rule op_ids_ok_same [OF assms(1)]) (use running_ids_update [OF assms(2,3)] in simp_all)

lemma op_ids_ok_submit:
  assumes ok: "op_ids_ok r"
  shows "op_ids_ok (snd (op_submit now c timeout r))"
proof (cases "timeout = 0 \<or> ol_max_timeout (or_limits r) < timeout \<or> or_next_id r = - 1")
  case True
  with ok show ?thesis by (auto simp: op_submit_def next_operation_id_def)
next
  case False
  let ?n = "or_next_id r"
  have "?n < - 1" using False by (metis word_n1_ge order_le_imp_less_or_eq)
  then have suc: "unat (?n + 1) = Suc (unat ?n)" by (rule unat_Suc_less)
  have next_id: "?n < ?n + 1" "?n \<noteq> 0" "?n + 1 \<noteq> 0"
    using suc ok by (auto simp: word_less_nat_alt op_ids_ok_def)
  have older: "oid < ?n + 1" if "oid < ?n" for oid using that next_id(1) by (rule less_trans)
  have fresh: "?n \<notin> set (or_accepted r)" using ok by (auto simp: op_ids_ok_def)
  then have "?n \<notin> queued_ids r" "?n \<notin> running_ids r" "?n \<notin> ended_ids r"
    using ok by (auto simp: op_ids_ok_def)
  with False ok fresh next_id older show ?thesis
    by (auto simp: op_submit_def next_operation_id_def Let_def op_ids_ok_def)
qed

lemma move_to_second:
  assumes "A = Q' \<union> R \<union> E" and "Q' \<inter> R = {}" and "Q' \<inter> E = {}" and "R \<inter> E = {}"
    and "Q' = Set.insert x Q" and "x \<notin> Q"
  shows "A = Q \<union> Set.insert x R \<union> E" and "Q \<inter> Set.insert x R = {}" and "Q \<inter> E = {}"
    and "Set.insert x R \<inter> E = {}"
  using assms by auto

lemma op_ids_ok_step: "op_step r r' \<Longrightarrow> op_maps_wf r \<Longrightarrow> op_ids_ok r \<Longrightarrow> op_ids_ok r'"
proof (induction rule: op_step.induct)
  case (step_submit r now c timeout)
  then show ?case by (simp add: op_ids_ok_submit)
next
  case (step_cancel r c oid)
  then show ?case by (intro op_ids_ok_same [OF step_cancel(2)]) (auto simp: op_cancel_def split: option.splits)
next
  case (step_cancel_all r)
  then show ?case by (intro op_ids_ok_same [OF step_cancel_all(2)]) (simp_all add: op_cancel_all_def)
next
  case (step_take r downcast c oid)
  then show ?case
    by (intro op_ids_ok_same [OF step_take(2)]) (auto simp: op_take_def Let_def split: option.splits)
next
  case (step_discard r oid)
  then show ?case by (intro op_ids_ok_same [OF step_discard(2)]) (simp_all add: op_discard_def)
next
  case (step_other_registry r n)
  then have "n \<noteq> 0" by (metis word_not_simps(1))
  moreover have "oid < n" if "oid < or_next_id r" for oid
    using that step_other_registry(1) by (rule less_trans)
  ultimately show ?case using step_other_registry(3) by (simp add: op_ids_ok_def)
next
  case (step_dispatch r job rest now)
  let ?Q = "oj_id ` set rest"
  have queue: "or_queue (r\<lparr>or_queue := rest\<rparr>) = rest" "running_ids (r\<lparr>or_queue := rest\<rparr>) = running_ids r"
    by simp_all
  from step_dispatch(1) have ids: "queued_ids r = Set.insert (oj_id job) ?Q" by simp
  from step_dispatch(5) have ok: "distinct (or_accepted r)" "distinct (map oj_id (job # rest))"
      "distinct (map fst (or_ended r))" "or_next_id r \<noteq> 0"
      "\<forall>oid \<in> set (or_accepted r). oid < or_next_id r \<and> oid \<noteq> 0"
    and sets: "set (or_accepted r) = queued_ids r \<union> running_ids r \<union> ended_ids r"
      "queued_ids r \<inter> running_ids r = {}" "queued_ids r \<inter> ended_ids r = {}" "running_ids r \<inter> ended_ids r = {}"
    unfolding op_ids_ok_def step_dispatch(1) by - (elim conjE, assumption)+
  have "oj_id job \<notin> ?Q" using ok(2) by simp
  note moved = move_to_second [OF sets ids this]
  show ?case
    unfolding op_ids_ok_def running_ids_set_phase op_set_phase_simps queue
    using ok moved by simp
next
  case (step_resolve oid r job started now work res)
  then show ?case by (intro op_ids_ok_phase)
next
  case (step_settle oid r job res)
  have "op_ids_ok (op_set_phase job p r)" for p by (rule op_ids_ok_phase) (use step_settle in auto)
  then have "op_ids_ok (op_set_phase job p (r\<lparr>or_results := rs\<rparr>))" for p rs
    by (rule op_ids_ok_same) (simp_all add: op_set_phase_def)
  with \<open>\<And>p. op_ids_ok (op_set_phase job p r)\<close> show ?case
    by (simp add: op_settle_def split: result.splits)
next
  case (step_deactivate oid r job t)
  have "op_ids_ok (op_set_phase job p r)" for p by (rule op_ids_ok_phase) (use step_deactivate in auto)
  then show ?case
    unfolding op_deactivate_def by (rule op_ids_ok_same) (simp_all add: op_set_phase_def)
next
  case (step_complete oid r job t)
  then have "oj_id job = oid" "oid \<in> running_ids r" by (auto simp: op_maps_wf_def dest: bt_lookup_dom)
  with step_complete(4) show ?case
    by (auto simp: op_ids_ok_def op_complete_def Let_def bt_dom_remove)
qed (auto simp: op_ids_ok_def)

lemma op_reachable_inv: "op_reachable r \<Longrightarrow> op_maps_wf r \<and> op_bounded r \<and> op_ids_ok r"
proof (induction rule: op_reachable.induct)
  case (reachable_new owner limits has_runtime n r)
  then show ?case
    by (auto simp: registry_new_def op_maps_wf_def op_bounded_def op_ids_ok_def split: if_splits)
next
  case (reachable_step r r')
  then show ?case using op_maps_wf_step op_bounded_step op_ids_ok_step by blast
qed

text \<open>C10: Whatever the interleaving of calls, dispatcher and tasks, the queue, the tasks in flight, the
  retained results and the completion channel stay within the limits of the registry, and every
  operation that was accepted is queued, running or ended, with one terminal at most: no operation is
  lost and none ends twice.\<close>

theorem operations_bounded_and_ended_once:
  assumes "op_reachable r"
  shows "length (or_queue r) \<le> ol_queue_capacity (or_limits r)
    \<and> length (or_running r) \<le> ol_max_in_flight (or_limits r)
    \<and> length (or_results r) \<le> ol_max_retained_results (or_limits r)
    \<and> length (or_channel r) \<le> ol_completion_capacity (or_limits r)
    \<and> distinct (or_accepted r) \<and> distinct (map fst (or_ended r))
    \<and> set (or_accepted r) = queued_ids r \<union> running_ids r \<union> ended_ids r
    \<and> queued_ids r \<inter> ended_ids r = {} \<and> running_ids r \<inter> ended_ids r = {}"
  using op_reachable_inv [OF assms] by (simp add: op_bounded_def op_ids_ok_def)

definition example_owner :: operation_owner where
  "example_owner = \<lparr>oo_plugin = ''dev.clock'', oo_instance = 1, oo_generation = 1\<rparr>"

definition example_registry :: "nat op_registry" where
  "example_registry = \<lparr>or_owner = example_owner, or_limits = default_limits, or_next_id = 1, or_active = [],
     or_results = [], or_queue = [], or_running = [], or_channel = [], or_receiver_closed = False,
     or_dispatcher_gone = False, or_accepted = [], or_ended = []\<rparr>"

definition example_submitted :: "nat op_registry" where
  "example_submitted = snd (op_submit 0 StorageRead 5 example_registry)"

lemma example_reachable: "op_reachable example_registry"
  by (rule reachable_new [of example_owner default_limits True 1])
    (simp_all add: registry_new_def validate_limits_def default_limits_def seconds_def example_registry_def)

lemma example_submitted_reachable: "op_reachable example_submitted"
  unfolding example_submitted_def by (rule reachable_step [OF example_reachable step_submit])

lemma example_submitted_simps:
  "or_accepted example_submitted = [1]" "or_ended example_submitted = []" "or_running example_submitted = []"
  "or_queue example_submitted = [\<lparr>oj_id = 1, oj_capability = StorageRead, oj_deadline = 5\<rparr>]"
  "or_dispatcher_gone example_submitted = False" "or_active example_submitted = [(1, StorageRead, False)]"
  by (simp_all add: example_submitted_def op_submit_def example_registry_def default_limits_def seconds_def
      next_operation_id_def Let_def)

lemma operations_bounded_and_ended_once_witness:
  "distinct (map fst (or_ended example_submitted)) \<and> length (or_queue example_submitted) = 1"
  using operations_bounded_and_ended_once [OF example_submitted_reachable]
  by (simp add: example_submitted_simps)

section \<open>Operations end\<close>

fun phase_weight :: "'v operation_phase \<Rightarrow> nat" where
  "phase_weight (Executing _) = 5"
| "phase_weight (Resolved _) = 4"
| "phase_weight (Settled _) = 3"
| "phase_weight (Deactivated _) = 2"

definition op_work_left :: "'v op_registry \<Rightarrow> nat" where
  "op_work_left r =
     6 * length (or_queue r) + bt_weight (\<lambda>(job, phase). phase_weight phase) (or_running r)
     + length (or_channel r)"

lemma op_limits_step: "op_step r r' \<Longrightarrow> or_limits r' = or_limits r"
  by (induction rule: op_step.induct)
    (auto simp: op_submit_def op_cancel_def op_cancel_all_def op_take_def op_discard_def op_settle_def
      op_deactivate_def op_complete_def Let_def split: option.splits result.splits)

lemma op_reachable_limits: "op_reachable r \<Longrightarrow> validate_limits (or_limits r) = Ok (or_limits r)"
  by (induction rule: op_reachable.induct)
    (auto simp: registry_new_def validate_limits_def op_limits_step split: if_splits)

lemma op_weight_set_phase:
  assumes "op_maps_wf r" and "bt_lookup oid (or_running r) = Some (job, phase)"
  shows "bt_weight (\<lambda>(job, phase). phase_weight phase) (or_running (op_set_phase job phase' r)) + phase_weight phase
    = bt_weight (\<lambda>(job, phase). phase_weight phase) (or_running r) + phase_weight phase'"
proof -
  have "oj_id job = oid" "bt_wf (or_running r)" using assms by (auto simp: op_maps_wf_def)
  with bt_weight_insert [of "or_running r" "\<lambda>(job, phase). phase_weight phase" oid "(job, phase')"] assms(2)
  show ?thesis by (simp add: op_set_phase_def)
qed

lemma op_work_set_phase:
  assumes "op_maps_wf r" and "bt_lookup oid (or_running r) = Some (job, phase)"
    and "phase_weight phase' < phase_weight phase"
  shows "op_work_left (op_set_phase job phase' r) < op_work_left r"
  using op_weight_set_phase [OF assms(1,2), of phase'] assms(3)
  by (simp add: op_work_left_def op_set_phase_def)

text \<open>While an operation has not ended, a step that makes progress is possible.\<close>

definition op_advances :: "'v op_registry \<Rightarrow> 'v op_registry \<Rightarrow> bool" where
  "op_advances r r' \<longleftrightarrow> op_step r r' \<and> op_work_left r' < op_work_left r
     \<and> or_accepted r' = or_accepted r \<and> or_dispatcher_gone r' = or_dispatcher_gone r"

lemma op_poll_at_deadline: "\<exists>res. op_poll started deadline deadline cancelled None = Some res"
  by (simp add: op_poll_def)

lemma op_advances_running:
  fixes r :: "'v op_registry"
  assumes wf: "op_maps_wf r" and caps: "0 < ol_completion_capacity (or_limits r)"
    and look: "bt_lookup oid (or_running r) = Some (job, phase)"
  shows "\<exists>r'. op_advances r r'"
proof (cases phase)
  case (Executing started)
  obtain res :: "('v, operation_failure) result" where "op_poll started (oj_deadline job) (oj_deadline job) (op_cancelled oid r) None = Some res"
    using op_poll_at_deadline by blast
  with look Executing have "op_step r (op_set_phase job (Resolved res) r)" by (intro step_resolve) auto
  moreover have "op_work_left (op_set_phase job (Resolved res) r) < op_work_left r"
    using op_work_set_phase [OF wf look] Executing by simp
  ultimately show ?thesis
    unfolding op_advances_def by (intro exI [of _ "op_set_phase job (Resolved res) r"]) (simp add: op_set_phase_def)
next
  case (Resolved res)
  have "op_work_left (op_settle job res r) < op_work_left r"
    using op_work_set_phase [OF wf look] Resolved
    by (auto simp: op_settle_def op_work_left_def op_set_phase_def split: result.splits)
  moreover have "op_step r (op_settle job res r)" using look Resolved by (intro step_settle) auto
  ultimately show ?thesis
    unfolding op_advances_def
    by (intro exI [of _ "op_settle job res r"]) (simp add: op_settle_def op_set_phase_def split: result.splits)
next
  case (Settled t)
  have "op_work_left (op_deactivate job t r) < op_work_left r"
    using op_work_set_phase [OF wf look, of "Deactivated t"] Settled
    by (simp add: op_deactivate_def op_work_left_def op_set_phase_def)
  moreover have "op_step r (op_deactivate job t r)" using look Settled by (intro step_deactivate) auto
  ultimately show ?thesis
    unfolding op_advances_def
    by (intro exI [of _ "op_deactivate job t r"]) (simp add: op_deactivate_def op_set_phase_def)
next
  case (Deactivated t)
  show ?thesis
  proof (cases "or_receiver_closed r \<or> length (or_channel r) < ol_completion_capacity (or_limits r)")
    case True
    have "oj_id job = oid" "bt_wf (or_running r)" using wf look by (auto simp: op_maps_wf_def)
    with bt_weight_remove [of "or_running r" "\<lambda>(job, phase). phase_weight phase" oid] look Deactivated
    have "op_work_left (op_complete job t r) < op_work_left r"
      by (auto simp: op_complete_def op_work_left_def Let_def)
    moreover have "op_step r (op_complete job t r)" using look Deactivated True by (intro step_complete) auto
    ultimately show ?thesis
      unfolding op_advances_def by (intro exI [of _ "op_complete job t r"]) (simp add: op_complete_def Let_def)
  next
    case False
    with caps obtain m ms where channel: "or_channel r = m # ms" by (cases "or_channel r") auto
    then have "op_step r (r\<lparr>or_channel := ms\<rparr>)" by (rule step_receive)
    with channel show ?thesis
      unfolding op_advances_def by (intro exI [of _ "r\<lparr>or_channel := ms\<rparr>"]) (simp add: op_work_left_def)
  qed
qed

lemma op_advances_pending:
  assumes reach: "op_reachable r" and alive: "\<not> or_dispatcher_gone r"
    and pending: "or_queue r \<noteq> [] \<or> or_running r \<noteq> []"
  shows "\<exists>r'. op_advances r r'"
proof -
  have wf: "op_maps_wf r" using op_reachable_inv [OF reach] by blast
  have caps: "0 < ol_completion_capacity (or_limits r)" "0 < ol_max_in_flight (or_limits r)"
    using op_reachable_limits [OF reach] by (auto simp: validate_limits_def split: if_splits)
  show ?thesis
  proof (cases "or_running r")
    case (Cons e rest)
    obtain oid job phase where "e = (oid, job, phase)" by (cases e)
    with Cons have "bt_lookup oid (or_running r) = Some (job, phase)" by simp
    with wf caps(1) show ?thesis by (rule op_advances_running)
  next
    case Nil
    with pending obtain job rest where queue: "or_queue r = job # rest" by (cases "or_queue r") auto
    have "op_step r (op_set_phase job (Executing 0) (r\<lparr>or_queue := rest\<rparr>))"
      using queue alive caps Nil by (intro step_dispatch) auto
    then show ?thesis
      unfolding op_advances_def
      by (intro exI [of _ "op_set_phase job (Executing 0) (r\<lparr>or_queue := rest\<rparr>)"])
        (simp add: op_work_left_def op_set_phase_def queue Nil bt_weight_def)
  qed
qed

text \<open>Every accepted operation can end: from any reachable state whose dispatcher lives, a run of the
  dispatcher, the tasks and the receiver leads to a state in which all operations accepted so far have
  ended, without accepting another.\<close>

theorem operations_can_drain:
  assumes "op_reachable r" and "\<not> or_dispatcher_gone r"
  shows "\<exists>r'. op_step\<^sup>*\<^sup>* r r' \<and> or_accepted r' = or_accepted r \<and> set (or_accepted r') = ended_ids r'"
  using assms
proof (induction r rule: measure_induct_rule [where f = op_work_left])
  case (less r)
  show ?case
  proof (cases "or_queue r \<noteq> [] \<or> or_running r \<noteq> []")
    case True
    from op_advances_pending [OF less.prems True] obtain r1 where step: "op_step r r1"
      and adv: "op_work_left r1 < op_work_left r" "or_accepted r1 = or_accepted r" "\<not> or_dispatcher_gone r1"
      using less.prems by (auto simp: op_advances_def)
    have "op_reachable r1" using less.prems(1) step by (rule reachable_step)
    from less.IH [OF adv(1) this adv(3)] obtain r' where "op_step\<^sup>*\<^sup>* r1 r'"
      "or_accepted r' = or_accepted r1" "set (or_accepted r') = ended_ids r'" by blast
    with step adv(2) show ?thesis by (metis converse_rtranclp_into_rtranclp)
  next
    case False
    then have "set (or_accepted r) = ended_ids r"
      using op_reachable_inv [OF less.prems(1)] by (auto simp: op_ids_ok_def)
    then show ?thesis by blast
  qed
qed

lemma operations_can_drain_witness:
  "\<exists>r'. op_step\<^sup>*\<^sup>* example_submitted r' \<and> ended_ids r' = {1}"
  using operations_can_drain [OF example_submitted_reachable] by (auto simp: example_submitted_simps)

section \<open>Cancellation\<close>

text \<open>
  An operation that can no longer succeed: it is cancelled before its result is known, or it has
  already failed.
\<close>

fun phase_failed :: "bool \<Rightarrow> 'v operation_phase \<Rightarrow> bool" where
  "phase_failed cancelled (Executing _) = cancelled"
| "phase_failed cancelled (Resolved res) = (\<not> is_ok res)"
| "phase_failed cancelled (Settled t) = (t \<noteq> Succeeded)"
| "phase_failed cancelled (Deactivated t) = (t \<noteq> Succeeded)"

definition op_doomed :: "operation_id \<Rightarrow> 'v op_registry \<Rightarrow> bool" where
  "op_doomed oid r \<longleftrightarrow>
     (oid \<in> queued_ids r \<and> op_cancelled oid r)
     \<or> (\<exists>job phase. bt_lookup oid (or_running r) = Some (job, phase) \<and> phase_failed (op_cancelled oid r) phase)
     \<or> (\<exists>f. (oid, Failed f) \<in> set (or_ended r))"

lemma op_doomed_cases:
  assumes "op_doomed oid r"
  obtains (queued) "oid \<in> queued_ids r" "op_cancelled oid r"
  | (running) job phase where "bt_lookup oid (or_running r) = Some (job, phase)"
      "phase_failed (op_cancelled oid r) phase"
  | (ended) f where "(oid, Failed f) \<in> set (or_ended r)"
  using assms unfolding op_doomed_def by blast

lemma phase_failed_mono: "phase_failed c phase \<Longrightarrow> (c \<Longrightarrow> c') \<Longrightarrow> phase_failed c' phase"
  by (cases phase) auto

lemma op_doomed_mono:
  assumes "op_doomed oid r" and "queued_ids r \<subseteq> queued_ids r'" and "or_running r' = or_running r"
    and "or_ended r' = or_ended r" and "op_cancelled oid r \<Longrightarrow> op_cancelled oid r'"
  shows "op_doomed oid r'"
  using assms(1)
proof (cases rule: op_doomed_cases)
  case queued
  then have "oid \<in> queued_ids r'" "op_cancelled oid r'" using assms(2,5) by blast+
  then show ?thesis unfolding op_doomed_def by blast
next
  case (running job phase)
  then have "phase_failed (op_cancelled oid r') phase" using assms(5) by (blast intro: phase_failed_mono)
  with running(1) show ?thesis unfolding op_doomed_def assms(3) by blast
next
  case (ended f)
  then show ?thesis unfolding op_doomed_def assms(4) by blast
qed

lemma op_cancelled_cancel_all: "op_cancelled oid r \<Longrightarrow> op_cancelled oid (snd (op_cancel_all r))"
  using bt_lookup_map_values [of oid "\<lambda>(c, _). (c, True)" "or_active r"]
  by (auto simp: op_cancelled_def op_cancel_all_def case_prod_unfold split: option.splits)

lemma op_cancelled_submit:
  "op_cancelled oid r \<Longrightarrow> oid \<noteq> or_next_id r \<Longrightarrow> op_cancelled oid (snd (op_submit now c timeout r))"
  by (auto simp: op_cancelled_def op_submit_def next_operation_id_def Let_def)

lemma op_cancelled_cancel: "op_cancelled oid r \<Longrightarrow> op_cancelled oid (snd (op_cancel c k r))"
  by (auto simp: op_cancelled_def op_cancel_def split: option.splits)

lemma ended_ids_mem: "(oid, t) \<in> set (or_ended r) \<Longrightarrow> oid \<in> ended_ids r"
  by force

lemma op_doomed_accepted: "op_ids_ok r \<Longrightarrow> op_doomed oid r \<Longrightarrow> oid \<in> set (or_accepted r)"
  by (auto simp: op_doomed_def op_ids_ok_def dest: bt_lookup_dom ended_ids_mem)

text \<open>A task's own step: other operations are not touched.\<close>

lemma op_doomed_other:
  assumes "op_doomed oid r" and "oj_id job \<noteq> oid" and "op_cancelled oid r' = op_cancelled oid r"
    and "or_queue r' = or_queue r" and "bt_lookup oid (or_running r') = bt_lookup oid (or_running r)"
    and "set (or_ended r) \<subseteq> set (or_ended r')"
  shows "op_doomed oid r'"
  using assms(1)
proof (cases rule: op_doomed_cases)
  case queued
  then show ?thesis unfolding op_doomed_def assms(3,4) by blast
next
  case (running job phase)
  then show ?thesis unfolding op_doomed_def assms(3,5) by blast
next
  case (ended f)
  with assms(6) show ?thesis unfolding op_doomed_def by blast
qed

lemma op_running_not_elsewhere:
  assumes "op_ids_ok r" and "bt_lookup oid (or_running r) = Some x"
  shows "oid \<notin> queued_ids r" and "oid \<notin> ended_ids r"
  using assms bt_lookup_dom [OF assms(2)] by (auto simp: op_ids_ok_def)

lemma op_doomed_phase:
  assumes "op_ids_ok r" and "op_doomed oid r" and "bt_lookup oid (or_running r) = Some (job, phase)"
  shows "phase_failed (op_cancelled oid r) phase"
  using assms(2,3) op_running_not_elsewhere [OF assms(1,3)] by (force simp: op_doomed_def)

lemma op_doomed_step: "op_step r r' \<Longrightarrow> op_maps_wf r \<Longrightarrow> op_ids_ok r \<Longrightarrow> op_doomed oid r \<Longrightarrow> op_doomed oid r'"
proof (induction rule: op_step.induct)
  case (step_submit r now c timeout)
  then have "oid \<noteq> or_next_id r" using op_doomed_accepted [of r oid] by (auto simp: op_ids_ok_def)
  with step_submit show ?case
    by (intro op_doomed_mono [OF step_submit(3)])
      (auto simp: op_cancelled_submit, auto simp: op_submit_def Let_def split: result.splits)
next
  case (step_cancel r c k)
  then show ?case
    by (intro op_doomed_mono [OF step_cancel(3)])
      (auto simp: op_cancelled_cancel, auto simp: op_cancel_def split: option.splits)
next
  case (step_cancel_all r)
  then show ?case
    by (intro op_doomed_mono [OF step_cancel_all(3)]) (auto simp: op_cancelled_cancel_all, auto simp: op_cancel_all_def)
next
  case (step_take r downcast c k)
  then show ?case
    by (intro op_doomed_mono [OF step_take(3)])
      (auto simp: op_take_def op_cancelled_def Let_def split: option.splits)
next
  case (step_discard r k)
  then show ?case
    by (intro op_doomed_mono [OF step_discard(3)]) (auto simp: op_discard_def op_cancelled_def)
next
  case (step_dispatch r job rest now)
  show ?case
  proof (cases "oid = oj_id job")
    case True
    then have "oid \<in> queued_ids r" using step_dispatch(1) by simp
    with step_dispatch(5,6) have "op_cancelled oid r"
      by (auto simp: op_doomed_def op_ids_ok_def dest: bt_lookup_dom ended_ids_mem)
    then show ?thesis by (simp add: op_doomed_def op_set_phase_def op_cancelled_def True)
  next
    case False
    with step_dispatch(1,6) show ?thesis by (auto simp: op_doomed_def op_set_phase_def op_cancelled_def)
  qed
next
  case (step_resolve k r job started now work res)
  have job: "oj_id job = k" using step_resolve(1,3) by (auto simp: op_maps_wf_def)
  show ?case
  proof (cases "k = oid")
    case True
    have "op_cancelled oid r" using op_doomed_phase [OF step_resolve(4,5)] step_resolve(1) True by force
    with step_resolve(2) True have "\<not> is_ok res" by (auto simp: op_poll_def split: if_splits)
    then show ?thesis by (simp add: op_doomed_def op_set_phase_def job True)
  next
    case False
    show ?thesis
      by (rule op_doomed_other [OF step_resolve(5), of job])
        (use job False in \<open>simp_all add: op_set_phase_def op_cancelled_def\<close>)
  qed
next
  case (step_settle k r job res)
  have job: "oj_id job = k" using step_settle(1,2) by (auto simp: op_maps_wf_def)
  show ?case
  proof (cases "k = oid")
    case True
    have "\<not> is_ok res" using op_doomed_phase [OF step_settle(3,4)] step_settle(1) True by force
    then show ?thesis
      by (cases res) (simp_all add: op_settle_def op_doomed_def op_set_phase_def job True)
  next
    case False
    show ?thesis
      by (rule op_doomed_other [OF step_settle(4), of job])
        (use job False in \<open>simp_all add: op_settle_def op_set_phase_def op_cancelled_def split: result.splits\<close>)
  qed
next
  case (step_deactivate k r job t)
  have job: "oj_id job = k" using step_deactivate(1,2) by (auto simp: op_maps_wf_def)
  show ?case
  proof (cases "k = oid")
    case True
    have "t \<noteq> Succeeded" using op_doomed_phase [OF step_deactivate(3,4)] step_deactivate(1) True by force
    then show ?thesis by (simp add: op_deactivate_def op_doomed_def op_set_phase_def job True)
  next
    case False
    show ?thesis
      by (rule op_doomed_other [OF step_deactivate(4), of job])
        (use job False in \<open>simp_all add: op_deactivate_def op_set_phase_def op_cancelled_def\<close>)
  qed
next
  case (step_complete k r job t)
  have job: "oj_id job = k" using step_complete(1,3) by (auto simp: op_maps_wf_def)
  show ?case
  proof (cases "k = oid")
    case True
    have "t \<noteq> Succeeded" using op_doomed_phase [OF step_complete(4,5)] step_complete(1) True by force
    then obtain f where "t = Failed f" by (cases t) auto
    then show ?thesis by (auto simp: op_complete_def op_doomed_def Let_def job True)
  next
    case False
    show ?thesis
      by (rule op_doomed_other [OF step_complete(5), of job])
        (use job False in \<open>auto simp: op_complete_def op_cancelled_def Let_def\<close>)
  qed
qed (auto simp: op_doomed_def op_cancelled_def)

text \<open>A cancellation that comes before the result is final: when \<open>cancel\<close> accepts an operation that is
  queued or still executing, no later interleaving ends it as a success.\<close>

theorem cancelled_operation_never_succeeds:
  assumes reach: "op_reachable r" and cancel: "op_cancel c oid r = (Ok (), r1)"
    and pending: "oid \<in> queued_ids r \<or> (\<exists>job started. bt_lookup oid (or_running r) = Some (job, Executing started))"
    and run: "op_step\<^sup>*\<^sup>* r1 r2"
  shows "(oid, Succeeded) \<notin> set (or_ended r2)"
proof -
  have reach1: "op_reachable r1" using reachable_step [OF reach step_cancel [of r c oid]] cancel by simp
  have doomed1: "op_doomed oid r1"
    using cancel pending
    by (auto simp: op_cancel_def op_doomed_def op_cancelled_def split: option.splits if_splits)
  from run have "op_reachable r2 \<and> op_doomed oid r2"
  proof (induction rule: rtranclp_induct)
    case base
    with reach1 doomed1 show ?case by blast
  next
    case (step r r')
    then show ?case using op_reachable_inv op_doomed_step reachable_step by metis
  qed
  then have doomed: "op_doomed oid r2" and ids: "op_ids_ok r2" using op_reachable_inv by blast+
  show ?thesis
  proof
    assume ended: "(oid, Succeeded) \<in> set (or_ended r2)"
    then have "oid \<in> ended_ids r2" by force
    then have "oid \<notin> queued_ids r2" "oid \<notin> running_ids r2" using ids by (auto simp: op_ids_ok_def)
    with doomed obtain f where "(oid, Failed f) \<in> set (or_ended r2)"
      by (auto simp: op_doomed_def dest: bt_lookup_dom)
    moreover have "distinct (map fst (or_ended r2))" using ids by (simp add: op_ids_ok_def)
    ultimately show False using ended by (auto dest: eq_key_imp_eq_value)
  qed
qed

lemma cancelled_operation_never_succeeds_witness:
  "(1, Succeeded) \<notin> set (or_ended (snd (op_cancel StorageRead 1 example_submitted)))"
proof (rule cancelled_operation_never_succeeds [OF example_submitted_reachable])
  show "op_cancel StorageRead 1 example_submitted = (Ok (), snd (op_cancel StorageRead 1 example_submitted))"
    by (simp add: op_cancel_def example_submitted_simps)
  show "1 \<in> queued_ids example_submitted \<or> (\<exists>job started.
      bt_lookup 1 (or_running example_submitted) = Some (job, Executing started))"
    by (simp add: example_submitted_simps)
qed (rule rtranclp.rtrancl_refl)

end
