(* ===== verification/Connection.thy ===== *)
theory Connection
  imports Floatile_Prelude
begin

text \<open>
  External data connections, \<open>floatile-core/src/connection.rs\<close>: opaque credential references,
  the health of a connection and the validation under which a stored connection is restored.
  A \<open>connection\<close> is only built by \<open>connection_restore\<close>, whose guarantees are collected in
  \<open>connection_ok\<close>.
\<close>

type_synonym connection_id = u64

datatype connection_health = HealthUnknown | Healthy | Degraded | HealthUnavailable | HealthRevoked

datatype connection_error =
    InvalidConnectionId
  | InvalidProvider
  | InvalidAccountIdentity
  | InvalidCredentialRef
  | InvalidHealth
  | InvalidTimestamps

fun health_as_str :: "connection_health \<Rightarrow> string" where
  "health_as_str HealthUnknown = ''unknown''"
| "health_as_str Healthy = ''healthy''"
| "health_as_str Degraded = ''degraded''"
| "health_as_str HealthUnavailable = ''unavailable''"
| "health_as_str HealthRevoked = ''revoked''"

definition health_parse :: "string \<Rightarrow> (connection_health, connection_error) result" where
  "health_parse s =
     (if s = ''unknown'' then Ok HealthUnknown
      else if s = ''healthy'' then Ok Healthy
      else if s = ''degraded'' then Ok Degraded
      else if s = ''unavailable'' then Ok HealthUnavailable
      else if s = ''revoked'' then Ok HealthRevoked
      else Err InvalidHealth)"

record connection =
  cn_id :: connection_id
  cn_provider :: string
  cn_account_identity :: string
  cn_credential :: string
  cn_health :: connection_health
  cn_credential_generation :: u64
  cn_created_at :: u64
  cn_updated_at :: u64

record connection_grant =
  cg_instance :: u64
  cg_connection :: connection_id
  cg_granted_at :: u64

definition credential_char :: "char \<Rightarrow> bool" where
  "credential_char c \<longleftrightarrow> is_ascii_alphanumeric c \<or> c \<in> {CHR ''-'', CHR ''_'', CHR ''.''}"

definition credential_part :: "string \<Rightarrow> bool" where
  "credential_part part \<longleftrightarrow> part \<noteq> [] \<and> part \<noteq> ''.'' \<and> part \<noteq> ''..'' \<and> list_all credential_char part"

definition valid_credential_ref :: "string \<Rightarrow> bool" where
  "valid_credential_ref val \<longleftrightarrow>
     starts_with val ''cred://''
     \<and> (let path = drop 7 val
        in path \<noteq> [] \<and> \<not> starts_with path ''/'' \<and> \<not> ends_with path ''/''
           \<and> list_all credential_part (split_on CHR ''/'' path))"

definition credential_ref_new :: "string \<Rightarrow> (string, connection_error) result" where
  "credential_ref_new val =
     (if 256 < length val \<or> \<not> valid_credential_ref val then Err InvalidCredentialRef else Ok val)"

definition token_char :: "char \<Rightarrow> bool" where
  "token_char c \<longleftrightarrow> is_ascii_lowercase c \<or> is_ascii_digit c \<or> c = CHR ''-'' \<or> c = CHR ''.''"

definition validate_token :: "string \<Rightarrow> nat \<Rightarrow> (unit, unit) result" where
  "validate_token val maximum =
     (if val = [] \<or> maximum < length val \<or> \<not> list_all token_char val then Err () else Ok ())"

text \<open>
  \<open>char::is_control\<close> over the decoded characters: U+0000 to U+001F, U+007F, and U+0080 to
  U+009F, which UTF-8 writes as C2 and the byte itself.
\<close>

fun has_control :: "string \<Rightarrow> bool" where
  "has_control [] = False"
| "has_control (c # cs) =
     (let b = (of_char c :: nat)
      in b < 32 \<or> b = 127
         \<or> (case cs of
              [] \<Rightarrow> False
            | d # _ \<Rightarrow> b = 194 \<and> (128::nat) \<le> of_char d \<and> (of_char d :: nat) \<le> 159)
         \<or> has_control cs)"

definition validate_text :: "string \<Rightarrow> nat \<Rightarrow> (unit, unit) result" where
  "validate_text val maximum =
     (if val = [] \<or> maximum < length val \<or> has_control val then Err () else Ok ())"

definition connection_restore ::
  "connection_id \<Rightarrow> string \<Rightarrow> string \<Rightarrow> string \<Rightarrow> connection_health \<Rightarrow> u64 \<Rightarrow> u64 \<Rightarrow> u64
     \<Rightarrow> (connection, connection_error) result"
where
  "connection_restore cid provider account credential health generation created updated =
     try_bind (map_err (\<lambda>_. InvalidProvider) (validate_token provider 64)) (\<lambda>_.
     try_bind (map_err (\<lambda>_. InvalidAccountIdentity) (validate_text account 256)) (\<lambda>_.
     if cid = 0 then Err InvalidConnectionId
     else if updated < created then Err InvalidTimestamps
     else Ok \<lparr>cn_id = cid, cn_provider = provider, cn_account_identity = account,
              cn_credential = credential, cn_health = health, cn_credential_generation = generation,
              cn_created_at = created, cn_updated_at = updated\<rparr>))"

definition connection_ok :: "connection \<Rightarrow> bool" where
  "connection_ok c \<longleftrightarrow> cn_id c \<noteq> 0 \<and> cn_created_at c \<le> cn_updated_at c
     \<and> cn_provider c \<noteq> [] \<and> length (cn_provider c) \<le> 64 \<and> list_all token_char (cn_provider c)
     \<and> cn_account_identity c \<noteq> [] \<and> length (cn_account_identity c) \<le> 256
     \<and> \<not> has_control (cn_account_identity c)"

lemma health_parse_as_str [simp]: "health_parse (health_as_str h) = Ok h"
  by (cases h) (simp_all add: health_parse_def)

lemma health_parse_Ok: "health_parse s = Ok h \<Longrightarrow> health_as_str h = s"
  by (auto simp: health_parse_def split: if_splits)

lemma connection_restore_ok: "connection_restore i p a cr h g c u = Ok conn \<Longrightarrow> connection_ok conn"
  by (auto simp: connection_restore_def connection_ok_def validate_token_def validate_text_def split: if_splits)

text \<open>A restored connection restores to itself: storing and loading loses nothing.\<close>

lemma connection_restore_again:
  "connection_ok c \<Longrightarrow>
     connection_restore (cn_id c) (cn_provider c) (cn_account_identity c) (cn_credential c) (cn_health c)
       (cn_credential_generation c) (cn_created_at c) (cn_updated_at c) = Ok c"
  by (auto simp: connection_restore_def connection_ok_def validate_token_def validate_text_def not_less)

end
