(* ===== verification/Https.thy ===== *)
theory Https
  imports Services Connection Manifest Operations
begin

text \<open>
  Connection-bound HTTPS requests, \<open>floatile-services/src/http.rs\<close>: the preparation of a
  request from a template, a granted connection and query values; the body of the operation with
  its cache, retries and stale responses; and the check that a destination address is public.
  \<open>url_lib\<close> and \<open>header_lib\<close> are the third-party URL and header types; the transport is an
  argument, a result per attempt.
\<close>

unbundle bit_operations_syntax

section \<open>Preparation\<close>

datatype http_service_error =
    HttpInvalidInput
  | TemplateUnavailable
  | ConnectionNotGranted
  | CredentialUnavailable
  | DestinationNotPublic
  | HttpUnavailable
  | ResponseRejected

fun operation_failure_of_http :: "http_service_error \<Rightarrow> operation_failure" where
  "operation_failure_of_http HttpInvalidInput = OpInternal"
| "operation_failure_of_http TemplateUnavailable = OpInternal"
| "operation_failure_of_http ConnectionNotGranted = OpInternal"
| "operation_failure_of_http ResponseRejected = OpInternal"
| "operation_failure_of_http CredentialUnavailable = OpUnavailable"
| "operation_failure_of_http DestinationNotPublic = OpUnavailable"
| "operation_failure_of_http HttpUnavailable = OpUnavailable"

record http_response =
  hr_status :: u16
  hr_body :: string

record query_param =
  qp_name :: string
  qp_value :: string

text \<open>The URL type: parsing, starting the query, appending a pair, origin and text.\<close>

record 'u url_lib =
  ul_parse :: "string \<Rightarrow> 'u option"
  ul_query_mut :: "'u \<Rightarrow> 'u"
  ul_append_pair :: "string \<Rightarrow> string \<Rightarrow> 'u \<Rightarrow> 'u"
  ul_origin :: "'u \<Rightarrow> string"
  ul_text :: "'u \<Rightarrow> string"

record header_lib =
  hl_name_ok :: "string \<Rightarrow> bool"
  hl_value_ok :: "string \<Rightarrow> bool"

record cache_key =
  ckey_template :: string
  ckey_connection :: connection_id
  ckey_generation :: u64
  ckey_url :: string

record cached_response =
  cr_stored_at :: nat
  cr_response :: http_response

type_synonym http_cache = "cache_key \<rightharpoonup> cached_response"

record https_service =
  hs_templates :: "(string, http_template) btree"
  hs_connections :: "(connection_id, connection) btree"
  hs_vault :: credential_vault
  hs_cache :: http_cache

record http_transport_request =
  tr_url :: string
  tr_header :: string
  tr_credential :: string
  tr_max_response_bytes :: nat
  tr_allowed_statuses :: "u16 list"

record prepared_http =
  ph_request_params :: capability_params
  ph_timeout :: nat
  ph_transport :: http_transport_request
  ph_cache_key :: cache_key
  ph_cache_ttl :: nat
  ph_stale_if_error :: nat
  ph_max_retries :: nat
  ph_retry_base_delay :: nat

definition https_new :: "http_template list \<Rightarrow> connection list \<Rightarrow> credential_vault \<Rightarrow> https_service" where
  "https_new templates connections vault =
     \<lparr>hs_templates = bt_of_list (map (\<lambda>t. (ht_id t, t)) templates),
      hs_connections = bt_of_list (map (\<lambda>c. (cn_id c, c)) connections),
      hs_vault = vault, hs_cache = Map.empty\<rparr>"

definition MAX_QUERY_VALUE_BYTES :: nat where
  "MAX_QUERY_VALUE_BYTES = 1024"

text \<open>One query value; the state is the URL so far and the names seen.\<close>

definition append_query ::
  "'u url_lib \<Rightarrow> http_template \<Rightarrow> query_param \<Rightarrow> 'u \<times> string list \<Rightarrow> ('u \<times> string list, http_service_error) result"
where
  "append_query ul t q acc =
     (case acc of (url, seen) \<Rightarrow>
        if qp_name q \<notin> set (ht_query_params t) \<or> qp_name q \<in> set seen
           \<or> MAX_QUERY_VALUE_BYTES < length (qp_value q) \<or> CHR 0x00 \<in> set (qp_value q)
        then Err HttpInvalidInput
        else Ok (ul_append_pair ul (qp_name q) (qp_value q) url, qp_name q # seen))"

text \<open>The health events go to the listener of the service.\<close>

type_synonym health_events = "(connection_id \<times> connection_health) list"

definition https_credential ::
  "header_lib \<Rightarrow> https_service \<Rightarrow> connection \<Rightarrow> (string, http_service_error) result \<times> health_events"
where
  "https_credential hl s c =
     (case fst (vault_with_secret (cn_credential c)
                  (\<lambda>secret. Some (if hl_value_ok hl secret then Some secret else None)) (hs_vault s)) of
        Some (Ok (Some secret)) \<Rightarrow> (Ok secret, [])
      | Some (Ok None) \<Rightarrow> (Err CredentialUnavailable, [])
      | _ \<Rightarrow> (Err CredentialUnavailable, [(cn_id c, HealthUnavailable)]))"

definition https_request ::
  "'u url_lib \<Rightarrow> http_template \<Rightarrow> connection \<Rightarrow> 'u \<Rightarrow> string \<Rightarrow> prepared_http"
where
  "https_request ul t c url secret =
     \<lparr>ph_request_params = Network [ul_origin ul url] 1 (ht_max_response_bytes t) (ht_timeout_ms t),
      ph_timeout = millis (unat (ht_timeout_ms t)),
      ph_transport = \<lparr>tr_url = ul_text ul url, tr_header = ht_credential_header t, tr_credential = secret,
                      tr_max_response_bytes = unat (ht_max_response_bytes t),
                      tr_allowed_statuses = ht_allowed_statuses t\<rparr>,
      ph_cache_key = \<lparr>ckey_template = ht_id t, ckey_connection = cn_id c,
                      ckey_generation = cn_credential_generation c, ckey_url = ul_text ul url\<rparr>,
      ph_cache_ttl = millis (unat (ht_cache_ttl_ms t)),
      ph_stale_if_error = millis (unat (ht_stale_if_error_ms t)),
      ph_max_retries = unat (ht_max_retries t),
      ph_retry_base_delay = millis (unat (ht_retry_base_delay_ms t))\<rparr>"

definition https_prepare ::
  "'u url_lib \<Rightarrow> header_lib \<Rightarrow> https_service \<Rightarrow> string \<Rightarrow> connection_id \<Rightarrow> query_param list
     \<Rightarrow> (prepared_http, http_service_error) result \<times> health_events"
where
  "https_prepare ul hl s template_id cid query =
     (case bt_lookup template_id (hs_templates s) of
        None \<Rightarrow> (Err TemplateUnavailable, [])
      | Some t \<Rightarrow>
          (case bt_lookup cid (hs_connections s) of
             None \<Rightarrow> (Err ConnectionNotGranted, [])
           | Some c \<Rightarrow>
               if cn_health c \<in> {HealthUnavailable, HealthRevoked} then (Err CredentialUnavailable, [])
               else if length (ht_query_params t) < length query then (Err HttpInvalidInput, [])
               else (case ul_parse ul (ht_url t) of
                       None \<Rightarrow> (Err HttpInvalidInput, [])
                     | Some url \<Rightarrow>
                         (case try_fold (append_query ul t) query (ul_query_mut ul url, []) of
                            Err e \<Rightarrow> (Err e, [])
                          | Ok (url', seen) \<Rightarrow>
                              if \<not> hl_name_ok hl (ht_credential_header t) then (Err HttpInvalidInput, [])
                              else (case https_credential hl s c of
                                      (Err e, ev) \<Rightarrow> (Err e, ev)
                                    | (Ok secret, ev) \<Rightarrow> (Ok (https_request ul t c url' secret), ev))))))"

section \<open>Execution\<close>

definition retryable :: "http_service_error \<Rightarrow> bool" where
  "retryable e \<longleftrightarrow> e = HttpUnavailable"

text \<open>A fresh entry of the cache.\<close>

definition cache_hit :: "http_cache \<Rightarrow> cache_key \<Rightarrow> nat \<Rightarrow> nat \<Rightarrow> http_response option" where
  "cache_hit cache key now max_age =
     (case cache key of
        None \<Rightarrow> None
      | Some hit \<Rightarrow> if now - cr_stored_at hit \<le> max_age then Some (cr_response hit) else None)"

record http_outcome =
  ho_result :: "(http_response, operation_failure) result"
  ho_cache :: http_cache
  ho_events :: health_events
  ho_calls :: nat

text \<open>
  The retry loop from attempt \<open>n\<close>: \<open>transport n\<close> is what attempt \<open>n\<close> returns and \<open>clock n\<close>
  the time when it does; \<open>calls\<close> counts the executions of the transport.
\<close>

function http_attempts ::
  "prepared_http \<Rightarrow> (nat \<Rightarrow> (http_response, http_service_error) result) \<Rightarrow> (nat \<Rightarrow> nat) \<Rightarrow> http_cache
     \<Rightarrow> nat \<Rightarrow> http_outcome"
where
  "http_attempts p transport clock cache n =
     (let key = ph_cache_key p; cid = ckey_connection key
      in case transport n of
           Ok response \<Rightarrow>
             \<lparr>ho_result = Ok response,
              ho_cache = (if ph_cache_ttl p \<noteq> 0 \<or> ph_stale_if_error p \<noteq> 0
                          then cache(key \<mapsto> \<lparr>cr_stored_at = clock n, cr_response = response\<rparr>) else cache),
              ho_events = [(cid, Healthy)], ho_calls = Suc n\<rparr>
         | Err error \<Rightarrow>
             if n < ph_max_retries p \<and> retryable error
             then http_attempts p transport clock cache (Suc n)
             else (case (if ph_stale_if_error p \<noteq> 0
                         then cache_hit cache key (clock n) (ph_cache_ttl p + ph_stale_if_error p) else None) of
                     Some response \<Rightarrow>
                       \<lparr>ho_result = Ok response, ho_cache = cache, ho_events = [], ho_calls = Suc n\<rparr>
                   | None \<Rightarrow>
                       \<lparr>ho_result = Err (operation_failure_of_http error), ho_cache = cache,
                        ho_events = [(cid, Degraded)], ho_calls = Suc n\<rparr>))"
  by pat_completeness auto
termination
  by (relation "measure (\<lambda>(p, transport, clock, cache, n). ph_max_retries p - n)") auto

declare http_attempts.simps [simp del]

definition http_work ::
  "prepared_http \<Rightarrow> (nat \<Rightarrow> (http_response, http_service_error) result) \<Rightarrow> (nat \<Rightarrow> nat) \<Rightarrow> nat \<Rightarrow> http_cache
     \<Rightarrow> http_outcome"
where
  "http_work p transport clock now cache =
     (case (if ph_cache_ttl p \<noteq> 0 then cache_hit cache (ph_cache_key p) now (ph_cache_ttl p) else None) of
        Some response \<Rightarrow> \<lparr>ho_result = Ok response, ho_cache = cache, ho_events = [], ho_calls = 0\<rparr>
      | None \<Rightarrow> http_attempts p transport clock cache 0)"

text \<open>
  What the production transport does with the response it receives: the status must be allowed,
  and neither the announced length nor the length of the chunks may exceed the budget.
\<close>

fun read_body :: "nat \<Rightarrow> string \<Rightarrow> string option list \<Rightarrow> (string, http_service_error) result" where
  "read_body limit body [] = Ok body"
| "read_body limit body (None # chunks) = Err HttpUnavailable"
| "read_body limit body (Some chunk # chunks) =
     (if limit < length body + length chunk then Err ResponseRejected
      else read_body limit (body @ chunk) chunks)"

definition transport_response ::
  "http_transport_request \<Rightarrow> u16 \<Rightarrow> u64 option \<Rightarrow> string option list \<Rightarrow> (http_response, http_service_error) result"
where
  "transport_response req status content_length chunks =
     (if status \<notin> set (tr_allowed_statuses req)
         \<or> (case content_length of Some n \<Rightarrow> tr_max_response_bytes req < unat n | None \<Rightarrow> False)
      then Err ResponseRejected
      else try_bind (read_body (tr_max_response_bytes req) [] chunks)
             (\<lambda>body. Ok \<lparr>hr_status = status, hr_body = body\<rparr>))"

section \<open>Public addresses\<close>

type_synonym ipv4 = "u8 \<times> u8 \<times> u8 \<times> u8"

definition is_public_ipv4 :: "ipv4 \<Rightarrow> bool" where
  "is_public_ipv4 ip =
     (case ip of (a, b, c, d) \<Rightarrow>
        \<not> (a = 0 \<or> a = 10 \<or> a = 127
           \<or> (a = 100 \<and> 64 \<le> b \<and> b \<le> 127)
           \<or> (a = 169 \<and> b = 254)
           \<or> (a = 172 \<and> 16 \<le> b \<and> b \<le> 31)
           \<or> (a = 192 \<and> b = 0 \<and> c = 0)
           \<or> (a = 192 \<and> b = 0 \<and> c = 2)
           \<or> (a = 192 \<and> b = 168)
           \<or> (a = 198 \<and> (b = 18 \<or> b = 19))
           \<or> (a = 198 \<and> b = 51 \<and> c = 100)
           \<or> (a = 203 \<and> b = 0 \<and> c = 113)
           \<or> 224 \<le> a))"

text \<open>An IPv6 address is its eight segments.\<close>

type_synonym ipv6 = "u16 list"

definition to_ipv4_mapped :: "ipv6 \<Rightarrow> ipv4 option" where
  "to_ipv4_mapped s =
     (if take 6 s = [0, 0, 0, 0, 0, 0xFFFF]
      then Some (ucast (drop_bit 8 (s ! 6)), ucast (s ! 6), ucast (drop_bit 8 (s ! 7)), ucast (s ! 7))
      else None)"

definition is_public_ipv6 :: "ipv6 \<Rightarrow> bool" where
  "is_public_ipv6 s =
     (case to_ipv4_mapped s of
        Some mapped \<Rightarrow> is_public_ipv4 mapped
      | None \<Rightarrow>
          \<not> (s = [0, 0, 0, 0, 0, 0, 0, 1]
             \<or> s = [0, 0, 0, 0, 0, 0, 0, 0]
             \<or> s ! 0 AND 0xFF00 = 0xFF00
             \<or> s ! 0 AND 0xFE00 = 0xFC00
             \<or> s ! 0 AND 0xFFC0 = 0xFE80
             \<or> s ! 0 AND 0xFFC0 = 0xFEC0
             \<or> (s ! 0 = 0x2001 \<and> s ! 1 = 0x0DB8)))"

text \<open>The destination check of the transport: every resolved address must be public.\<close>

datatype ip_addr = V4 ipv4 | V6 ipv6

fun is_public_ip :: "ip_addr \<Rightarrow> bool" where
  "is_public_ip (V4 ip) = is_public_ipv4 ip"
| "is_public_ip (V6 ip) = is_public_ipv6 ip"

definition pinned_address :: "ip_addr list \<Rightarrow> (ip_addr, http_service_error) result" where
  "pinned_address addresses =
     (case addresses of
        [] \<Rightarrow> Err DestinationNotPublic
      | a # _ \<Rightarrow> if list_ex (\<lambda>ip. \<not> is_public_ip ip) addresses then Err DestinationNotPublic else Ok a)"

text \<open>A reference for the check: the special-purpose blocks, as address and prefix length.\<close>

definition ipv4_value :: "ipv4 \<Rightarrow> nat" where
  "ipv4_value ip =
     (case ip of (a, b, c, d) \<Rightarrow> ((unat a * 256 + unat b) * 256 + unat c) * 256 + unat d)"

definition in_block :: "ipv4 \<Rightarrow> ipv4 \<times> nat \<Rightarrow> bool" where
  "in_block ip block =
     (ipv4_value ip div 2 ^ (32 - snd block) = ipv4_value (fst block) div 2 ^ (32 - snd block))"

definition SPECIAL_BLOCKS :: "(ipv4 \<times> nat) list" where
  "SPECIAL_BLOCKS =
     [((0, 0, 0, 0), 8), ((10, 0, 0, 0), 8), ((127, 0, 0, 0), 8), ((100, 64, 0, 0), 10),
      ((169, 254, 0, 0), 16), ((172, 16, 0, 0), 12), ((192, 0, 0, 0), 24), ((192, 0, 2, 0), 24),
      ((192, 168, 0, 0), 16), ((198, 18, 0, 0), 15), ((198, 51, 100, 0), 24), ((203, 0, 113, 0), 24),
      ((224, 0, 0, 0), 3)]"

lemma unat_u8: "unat (a :: u8) < 256"
  using unsigned_less [of a, where ?'a = nat] by simp

lemma u8_eq_nat: "(a :: u8) = b \<longleftrightarrow> unat a = unat b"
  by (auto intro: unsigned_word_eqI)

text \<open>Cutting a number in base 256.\<close>

lemma drop_digit: "d < k \<Longrightarrow> (x * k + d) div k = (x :: nat)"
  by simp

lemma ipv4_div_256: "ipv4_value (a, b, c, d) div 256 = (unat a * 256 + unat b) * 256 + unat c"
  unfolding ipv4_value_def prod.case by (rule drop_digit [OF unat_u8])

lemma ipv4_div_65536: "ipv4_value (a, b, c, d) div 65536 = unat a * 256 + unat b"
proof -
  have "ipv4_value (a, b, c, d) div (256 * 256) = unat a * 256 + unat b"
    unfolding div_mult2_eq ipv4_div_256 by (rule drop_digit [OF unat_u8])
  then show ?thesis by simp
qed

lemma div_block: "ipv4_value (a, b, c, d) div (65536 * k) = (unat a * 256 + unat b) div k"
  unfolding div_mult2_eq ipv4_div_65536 ..

lemma high_digits:
  fixes a b :: nat
  shows "(a * 256 + b) div 64 = a * 4 + b div 64" "(a * 256 + b) div 16 = a * 16 + b div 16"
    "(a * 256 + b) div 2 = a * 128 + b div 2"
  by presburger+

lemma ipv4_value_div:
  "ipv4_value (a, b, c, d) div 16777216 = unat a"
  "ipv4_value (a, b, c, d) div 65536 = unat a * 256 + unat b"
  "ipv4_value (a, b, c, d) div 256 = (unat a * 256 + unat b) * 256 + unat c"
  "ipv4_value (a, b, c, d) div 4194304 = unat a * 4 + unat b div 64"
  "ipv4_value (a, b, c, d) div 1048576 = unat a * 16 + unat b div 16"
  "ipv4_value (a, b, c, d) div 131072 = unat a * 128 + unat b div 2"
  "ipv4_value (a, b, c, d) div 536870912 = unat a div 32"
proof -
  show "ipv4_value (a, b, c, d) div 16777216 = unat a"
    using div_block [of a b c d 256] drop_digit [OF unat_u8, of "unat a" b] by simp
  show "ipv4_value (a, b, c, d) div 536870912 = unat a div 32"
  proof -
    have "(unat a * 256 + unat b) div (256 * 32) = unat a div 32"
      unfolding div_mult2_eq drop_digit [OF unat_u8] ..
    then show ?thesis using div_block [of a b c d 8192] by simp
  qed
qed (use div_block [of a b c d 64] div_block [of a b c d 16] div_block [of a b c d 2] in
    \<open>simp_all add: high_digits ipv4_div_256 ipv4_div_65536\<close>)

text \<open>The number two digits form determines them.\<close>

lemma digits_eq:
  fixes a b n m k :: nat
  assumes "b < k" and "m < k"
  shows "a * k + b = n * k + m \<longleftrightarrow> a = n \<and> b = m"
proof
  assume eq: "a * k + b = n * k + m"
  then have "(a * k + b) div k = (n * k + m) div k" "(a * k + b) mod k = (n * k + m) mod k" by simp_all
  with assms show "a = n \<and> b = m" by simp
qed simp

lemma in_block_cases:
  fixes a b c d :: u8
  shows "in_block (a, b, c, d) ((n, m, k, l), 8) \<longleftrightarrow> a = n"
    and "in_block (a, b, c, d) ((n, m, k, l), 16) \<longleftrightarrow> a = n \<and> b = m"
    and "in_block (a, b, c, d) ((n, m, k, l), 24) \<longleftrightarrow> a = n \<and> b = m \<and> c = k"
    and "in_block (a, b, c, d) ((n, m, k, l), 10) \<longleftrightarrow> a = n \<and> unat b div 64 = unat m div 64"
    and "in_block (a, b, c, d) ((n, m, k, l), 12) \<longleftrightarrow> a = n \<and> unat b div 16 = unat m div 16"
    and "in_block (a, b, c, d) ((n, m, k, l), 15) \<longleftrightarrow> a = n \<and> unat b div 2 = unat m div 2"
    and "in_block (a, b, c, d) ((n, m, k, l), 3) \<longleftrightarrow> unat a div 32 = unat n div 32"
  using digits_eq [OF unat_u8 unat_u8, of "unat a" b "unat n" m]
    digits_eq [OF unat_u8 unat_u8, of "unat a * 256 + unat b" c "unat n * 256 + unat m" k]
    digits_eq [of "unat b div 64" 4 "unat m div 64" "unat a" "unat n"]
    digits_eq [of "unat b div 16" 16 "unat m div 16" "unat a" "unat n"]
    digits_eq [of "unat b div 2" 128 "unat m div 2" "unat a" "unat n"]
    less_mult_imp_div_less [of "unat b" 4 64] less_mult_imp_div_less [of "unat m" 4 64]
    less_mult_imp_div_less [of "unat b" 16 16] less_mult_imp_div_less [of "unat m" 16 16]
    less_mult_imp_div_less [of "unat b" 128 2] less_mult_imp_div_less [of "unat m" 128 2]
    unat_u8 [of b] unat_u8 [of m]
  by (simp_all add: in_block_def ipv4_value_div u8_eq_nat)

lemma div_eq_range:
  fixes n k q :: nat
  assumes "0 < k"
  shows "n div k = q \<longleftrightarrow> q * k \<le> n \<and> n < Suc q * k"
proof -
  have "n div k = q \<longleftrightarrow> q \<le> n div k \<and> n div k < Suc q" by auto
  then show ?thesis using assms by (simp add: less_eq_div_iff_mult_less_eq div_less_iff_less_mult)
qed

lemma u8_ranges:
  fixes a b :: u8
  shows "unat b div 64 = 1 \<longleftrightarrow> 64 \<le> b \<and> b \<le> 127" "unat b div 16 = 1 \<longleftrightarrow> 16 \<le> b \<and> b \<le> 31"
    "unat b div 2 = 9 \<longleftrightarrow> b = 18 \<or> b = 19" "unat a div 32 = 7 \<longleftrightarrow> 224 \<le> a"
  using unat_u8 [of a] by (auto simp: div_eq_range word_le_nat_alt u8_eq_nat)

text \<open>The destination check of the HTTPS transport refuses exactly the addresses of the thirteen
  special-purpose IPv4 blocks it means to exclude, written as prefixes; an IPv4-mapped IPv6 address is
  judged by the IPv4 address it stands for.\<close>

theorem public_ipv4_is_outside_special_blocks:
  "(is_public_ipv4 ip \<longleftrightarrow> list_all (\<lambda>block. \<not> in_block ip block) SPECIAL_BLOCKS)
   \<and> is_public_ip (V6 [0, 0, 0, 0, 0, 0xFFFF, hi, lo])
       = is_public_ip (V4 (ucast (drop_bit 8 hi), ucast hi, ucast (drop_bit 8 lo), ucast lo))"
proof
  obtain a b c d where ip: "ip = (a, b, c, d)" by (cases ip)
  show "is_public_ipv4 ip \<longleftrightarrow> list_all (\<lambda>block. \<not> in_block ip block) SPECIAL_BLOCKS"
    by (simp add: ip is_public_ipv4_def SPECIAL_BLOCKS_def in_block_cases
        u8_ranges [unfolded One_nat_def])
  show "is_public_ip (V6 [0, 0, 0, 0, 0, 0xFFFF, hi, lo])
       = is_public_ip (V4 (ucast (drop_bit 8 hi), ucast hi, ucast (drop_bit 8 lo), ucast lo))"
    by (simp add: is_public_ipv6_def to_ipv4_mapped_def)
qed

section \<open>What a request is limited to\<close>

lemma read_body_length: "read_body limit body chunks = Ok out \<Longrightarrow> length body \<le> limit \<Longrightarrow> length out \<le> limit"
  by (induction limit body chunks rule: read_body.induct) (auto split: if_splits)

text \<open>The URL of a request: the pairs of the query are appended in order.\<close>

definition query_url :: "'u url_lib \<Rightarrow> query_param list \<Rightarrow> 'u \<Rightarrow> 'u" where
  "query_url ul query url = fold (\<lambda>q. ul_append_pair ul (qp_name q) (qp_value q)) query url"

lemma append_query_invariant:
  assumes "try_fold (append_query ul t) query (url, []) = Ok (url', seen)"
  shows "distinct (map qp_name query) \<and> (\<forall>q \<in> set query. qp_name q \<in> set (ht_query_params t)
    \<and> length (qp_value q) \<le> 1024 \<and> CHR 0x00 \<notin> set (qp_value q)) \<and> url' = query_url ul query url"
proof -
  have "distinct (map qp_name query) \<and> set (map qp_name query) \<inter> set seen0 = {}
      \<and> (\<forall>q \<in> set query. qp_name q \<in> set (ht_query_params t)
          \<and> length (qp_value q) \<le> 1024 \<and> CHR 0x00 \<notin> set (qp_value q)) \<and> url' = query_url ul query url"
    if "try_fold (append_query ul t) query (url, seen0) = Ok (url', seen)" for url seen0
    using that
  proof (induction query arbitrary: url seen0)
    case (Cons q query)
    let ?url = "ul_append_pair ul (qp_name q) (qp_value q) url"
    from Cons.prems obtain acc where step: "append_query ul t q (url, seen0) = Ok acc"
      and rest: "try_fold (append_query ul t) query acc = Ok (url', seen)" by auto
    from step have q: "qp_name q \<in> set (ht_query_params t)" "qp_name q \<notin> set seen0"
        "length (qp_value q) \<le> 1024" "CHR 0x00 \<notin> set (qp_value q)" and acc: "acc = (?url, qp_name q # seen0)"
      by (auto simp: append_query_def MAX_QUERY_VALUE_BYTES_def split: if_splits)
    from rest acc have rest: "try_fold (append_query ul t) query (?url, qp_name q # seen0) = Ok (url', seen)" by simp
    from Cons.IH [OF rest] q show ?case by (auto simp: query_url_def)
  qed (simp add: query_url_def)
  with assms show ?thesis by blast
qed

lemma query_url_origin:
  assumes "\<And>name val u. ul_origin ul (ul_append_pair ul name val u) = ul_origin ul u"
  shows "ul_origin ul (query_url ul query url) = ul_origin ul url"
  by (induction query arbitrary: url) (simp_all add: query_url_def assms)

text \<open>C38: A prepared request comes from a template of the manifest and a connection that was granted and is
  neither unavailable nor revoked; its query names are distinct parameters of the template with bounded
  values free of NUL, its credential is the secret of that connection.  The request that is sent has the URL of the
  template with the pairs of the query appended in order, and it has the origin of the template's URL, which is also the
  origin put to the permission decision, with the budget and the timeout of the template.  Relied on: the URL library
  parses the text of the template, and appending to the query of a URL keeps its origin.\<close>

theorem prepared_request_is_confined:
  assumes prepared: "https_prepare ul hl s template_id cid query = (Ok p, ev)"
    and origin: "\<And>u. ul_origin ul (ul_query_mut ul u) = ul_origin ul u"
      "\<And>name val u. ul_origin ul (ul_append_pair ul name val u) = ul_origin ul u"
  shows "\<exists>t c base. bt_lookup template_id (hs_templates s) = Some t \<and> ul_parse ul (ht_url t) = Some base
    \<and> bt_lookup cid (hs_connections s) = Some c \<and> cn_health c \<notin> {HealthUnavailable, HealthRevoked}
    \<and> distinct (map qp_name query)
    \<and> (\<forall>q \<in> set query. qp_name q \<in> set (ht_query_params t) \<and> length (qp_value q) \<le> 1024
         \<and> CHR 0x00 \<notin> set (qp_value q))
    \<and> bt_lookup (cn_credential c) (cv_entries (hs_vault s)) = Some (tr_credential (ph_transport p))
    \<and> tr_url (ph_transport p) = ul_text ul (query_url ul query (ul_query_mut ul base))
    \<and> ul_origin ul (query_url ul query (ul_query_mut ul base)) = ul_origin ul base
    \<and> ph_request_params p = Network [ul_origin ul base] 1 (ht_max_response_bytes t) (ht_timeout_ms t)
    \<and> ckey_connection (ph_cache_key p) = cn_id c \<and> ckey_generation (ph_cache_key p) = cn_credential_generation c"
proof -
  from prepared obtain t c base url seen secret where
      t: "bt_lookup template_id (hs_templates s) = Some t" "ul_parse ul (ht_url t) = Some base"
    and c: "bt_lookup cid (hs_connections s) = Some c" "cn_health c \<notin> {HealthUnavailable, HealthRevoked}"
    and fold: "try_fold (append_query ul t) query (ul_query_mut ul base, []) = Ok (url, seen)"
    and secret: "https_credential hl s c = (Ok secret, ev)"
    and p: "p = https_request ul t c url secret"
    by (auto simp: https_prepare_def split: option.splits if_splits result.splits prod.splits)
  note url = append_query_invariant [OF fold]
  from secret have "bt_lookup (cn_credential c) (cv_entries (hs_vault s)) = Some secret"
    by (auto simp: https_credential_def vault_with_secret_def split: option.splits result.splits if_splits)
  moreover have "ul_origin ul (query_url ul query (ul_query_mut ul base)) = ul_origin ul base"
    by (simp add: query_url_origin [OF origin(2)] origin(1))
  ultimately show ?thesis using t c url
    by (intro exI [of _ t] exI [of _ c] exI [of _ base]) (simp add: p https_request_def)
qed

lemma http_attempts_provenance:
  "n \<le> ph_max_retries p \<Longrightarrow> http_attempts p transport clock cache n = out \<Longrightarrow>
     ho_calls out \<le> Suc (ph_max_retries p) \<and> n < ho_calls out
     \<and> (\<forall>response. ho_result out = Ok response \<longrightarrow>
          transport (ho_calls out - 1) = Ok response
          \<or> (\<exists>hit. cache (ph_cache_key p) = Some hit \<and> cr_response hit = response
               \<and> clock (ho_calls out - 1) - cr_stored_at hit \<le> ph_cache_ttl p + ph_stale_if_error p))"
proof (induction p transport clock cache n arbitrary: out rule: http_attempts.induct)
  case (1 p transport clock cache n)
  show ?case
  proof (cases "transport n")
    case (Ok response)
    with 1 show ?thesis by (subst (asm) http_attempts.simps) (auto simp: Let_def)
  next
    case (Err error)
    show ?thesis
    proof (cases "n < ph_max_retries p \<and> retryable error")
      case True
      then have "http_attempts p transport clock cache (Suc n) = out"
        using "1.prems"(2) Err by (subst (asm) http_attempts.simps) (simp add: Let_def)
      with "1.IH" [OF refl refl Err True] True show ?thesis by auto
    next
      case False
      with "1.prems" Err show ?thesis
        by (subst (asm) http_attempts.simps)
          (auto simp: Let_def cache_hit_def split: option.splits if_splits)
    qed
  qed
qed

text \<open>One operation contacts the server at most once more than the retries of its template, and a
  response it returns is the one its last attempt received, or the cached response under its own key
  (template, connection, credential generation and URL) no older than the time to live and the stale
  period together; with a fresh entry it does not contact the server at all.\<close>

theorem http_response_provenance:
  "ho_calls (http_work p transport clock now cache) \<le> Suc (ph_max_retries p)
   \<and> (ho_result (http_work p transport clock now cache) = Ok response \<longrightarrow>
        (0 < ho_calls (http_work p transport clock now cache)
           \<and> transport (ho_calls (http_work p transport clock now cache) - 1) = Ok response)
        \<or> (\<exists>hit age. cache (ph_cache_key p) = Some hit \<and> cr_response hit = response
             \<and> age \<in> {now, clock (ho_calls (http_work p transport clock now cache) - 1)}
             \<and> age - cr_stored_at hit \<le> ph_cache_ttl p + ph_stale_if_error p))
   \<and> (\<forall>fresh. ph_cache_ttl p \<noteq> 0 \<and> cache_hit cache (ph_cache_key p) now (ph_cache_ttl p) = Some fresh \<longrightarrow>
        ho_calls (http_work p transport clock now cache) = 0
        \<and> ho_result (http_work p transport clock now cache) = Ok fresh)"
proof (cases "\<exists>r. ph_cache_ttl p \<noteq> 0 \<and> cache_hit cache (ph_cache_key p) now (ph_cache_ttl p) = Some r")
  case True
  then show ?thesis
    by (auto simp: http_work_def cache_hit_def split: option.splits if_splits)
next
  case False
  then have "http_work p transport clock now cache = http_attempts p transport clock cache 0"
    by (auto simp: http_work_def split: option.splits)
  with http_attempts_provenance [OF le0 refl, of p transport clock cache] False show ?thesis by auto
qed

text \<open>The production transport never hands on a response whose status the template does not allow or
  whose body exceeds the budget, whatever length the server announces and however the body is chunked.\<close>

theorem transport_response_within_budget:
  assumes "transport_response req status content_length chunks = Ok response"
  shows "hr_status response \<in> set (tr_allowed_statuses req)
    \<and> length (hr_body response) \<le> tr_max_response_bytes req"
  using assms read_body_length [of "tr_max_response_bytes req" "[]" chunks]
  by (auto simp: transport_response_def split: if_splits)

lemma transport_response_within_budget_witness:
  "length (hr_body \<lparr>hr_status = 200, hr_body = ''abc''\<rparr>) \<le> 4"
proof -
  let ?req = "\<lparr>tr_url = ''https://a/'', tr_header = ''x-api-key'', tr_credential = ''k'',
      tr_max_response_bytes = 4, tr_allowed_statuses = [200]\<rparr>"
  have "transport_response ?req 200 None [Some ''ab'', Some ''c''] = Ok \<lparr>hr_status = 200, hr_body = ''abc''\<rparr>"
    by (simp add: transport_response_def)
  from transport_response_within_budget [OF this] show ?thesis by simp
qed

section \<open>A concrete request\<close>

text \<open>A URL is the text of its base and that of its query.\<close>

definition example_url_lib :: "(string \<times> string) url_lib" where
  "example_url_lib = \<lparr>ul_parse = (\<lambda>s. Some (s, [])), ul_query_mut = (\<lambda>u. (fst u, ''?'')),
     ul_append_pair = (\<lambda>name val u. (fst u, snd u @ name @ ''='' @ val)), ul_origin = (\<lambda>u. take 16 (fst u)),
     ul_text = (\<lambda>u. fst u @ snd u)\<rparr>"

definition example_header_lib :: header_lib where
  "example_header_lib = \<lparr>hl_name_ok = (\<lambda>_. True), hl_value_ok = (\<lambda>_. True)\<rparr>"

definition example_connection :: connection where
  "example_connection = \<lparr>cn_id = 7, cn_provider = ''api'', cn_account_identity = ''me'',
     cn_credential = ''cred://api/me'', cn_health = Healthy, cn_credential_generation = 3,
     cn_created_at = 1, cn_updated_at = 2\<rparr>"

definition example_service :: https_service where
  "example_service = https_new [example_template] [example_connection]
     \<lparr>cv_entries = [(''cred://api/me'', ''secret'')], cv_poisoned = False\<rparr>"

definition example_query :: "query_param list" where
  "example_query = [\<lparr>qp_name = ''symbol'', qp_value = ''X''\<rparr>]"

definition example_prepared :: prepared_http where
  "example_prepared = https_request example_url_lib example_template example_connection
     (''https://api.test/v1'', ''?symbol=X'') ''secret''"

lemma example_prepare:
  "https_prepare example_url_lib example_header_lib example_service ''quote'' 7 example_query
     = (Ok example_prepared, [])"
  by (simp add: https_prepare_def example_service_def https_new_def bt_of_list_def example_url_lib_def
      example_header_lib_def example_query_def append_query_def MAX_QUERY_VALUE_BYTES_def
      https_credential_def vault_with_secret_def example_prepared_def example_template_def example_connection_def)

lemma prepared_request_is_confined_witness:
  "ckey_generation (ph_cache_key example_prepared) = 3
   \<and> bt_lookup ''cred://api/me'' (cv_entries (hs_vault example_service)) = Some (tr_credential (ph_transport example_prepared))
   \<and> ph_request_params example_prepared = Network [''https://api.test''] 1 4096 5000"
proof -
  have "ul_origin example_url_lib (ul_query_mut example_url_lib u) = ul_origin example_url_lib u"
    "ul_origin example_url_lib (ul_append_pair example_url_lib name val u) = ul_origin example_url_lib u" for name val u
    by (simp_all add: example_url_lib_def)
  from prepared_request_is_confined [OF example_prepare this] show ?thesis
    by (auto simp: example_service_def https_new_def bt_of_list_def example_connection_def example_url_lib_def example_template_def)
qed

lemma http_response_provenance_witness:
  "ho_calls (http_work example_prepared (\<lambda>_. Err HttpUnavailable) (\<lambda>_. 0) 0 Map.empty) \<le> 2
   \<and> ho_result (http_work example_prepared (\<lambda>_. Err HttpUnavailable) (\<lambda>_. 0) 0 Map.empty) \<noteq> Ok \<lparr>hr_status = 200, hr_body = []\<rparr>"
  using http_response_provenance [of example_prepared "\<lambda>_. Err HttpUnavailable" "\<lambda>_. 0" 0 Map.empty
      "\<lparr>hr_status = 200, hr_body = []\<rparr>"]
  by (auto simp: example_prepared_def https_request_def example_template_def)

end
