(* ===== verification/Broker.thy ===== *)
theory Broker
  imports Https
begin

text \<open>
  The permission broker, \<open>floatile-services/src/broker.rs\<close>: the only entry from the WIT
  adapters to the capability services.  The broker is a record of its grants, its audit log and
  the services; every method is a function to its result and the next broker.  \<open>now\<close> is the
  time of the call.  Storage writes may panic on an overflow (\<open>None\<close>), which the account of
  \<open>Services\<close> excludes.

  \<open>broker_exec\<close> collects the calls a guest can make; the theorems show that without a grant no
  call reaches a service, that the declared quotas bound what a grant admits, and that the audit
  log depends on values only through their length.
\<close>

text \<open>The typed results of operations.\<close>

datatype op_value = StorageValue "string option" | HttpValue http_response

fun downcast_storage :: "op_value \<Rightarrow> string option option" where
  "downcast_storage (StorageValue v) = Some v"
| "downcast_storage _ = None"

fun downcast_http :: "op_value \<Rightarrow> http_response option" where
  "downcast_http (HttpValue r) = Some r"
| "downcast_http _ = None"

record broker =
  br_plugin :: string
  br_generation :: u64
  br_instance :: u64
  br_caps :: "grant list"
  br_audit :: "audit_event list"
  br_timer :: timer_service
  br_log :: log_service
  br_storage :: storage_state
  br_metrics :: metrics_service
  br_theme :: theme_service
  br_operations :: "op_value op_registry option"
  br_https :: "https_service option"
  br_https_rate_max :: u32
  br_rate_started :: nat
  br_rate_used :: u32
  br_health :: health_events

section \<open>Construction\<close>

text \<open>The inherent capabilities are added unless the grant lists them.\<close>

definition merge_inherent :: "grant list \<Rightarrow> grant list" where
  "merge_inherent caps =
     fold (\<lambda>d caps. if list_ex (\<lambda>g. g_capability g = cd_id d) caps then caps
                     else caps @ [\<lparr>g_capability = cd_id d, g_params = None, g_effective = DerivedFromInstall\<rparr>])
       (filter (\<lambda>d. cd_exposure d = Inherent) CAPABILITY_REGISTRY) caps"

record broker_quota =
  bq_storage_max_bytes :: nat
  bq_timer :: "(u32 \<times> u32) option"
  bq_metrics_rate :: u32
  bq_https_rate :: u32

text \<open>The loop over the grants that collects the quotas.\<close>

fun quota_of_grant :: "grant \<Rightarrow> broker_quota \<Rightarrow> broker_quota" where
  "quota_of_grant g q =
     (case (g_capability g, g_params g) of
        (StorageWrite, Some (Storage _ max_bytes)) \<Rightarrow> q\<lparr>bq_storage_max_bytes := unat max_bytes\<rparr>
      | (TimerSchedule, Some (Timer per_minute active)) \<Rightarrow> q\<lparr>bq_timer := Some (per_minute, active)\<rparr>
      | (SystemCpu, Some (Metrics rate)) \<Rightarrow> q\<lparr>bq_metrics_rate := rate\<rparr>
      | (NetworkHttps, Some (Network _ rate _ _)) \<Rightarrow> q\<lparr>bq_https_rate := rate\<rparr>
      | _ \<Rightarrow> q)"

definition default_quota :: broker_quota where
  "default_quota = \<lparr>bq_storage_max_bytes = 64 * 1024, bq_timer = None, bq_metrics_rate = 1, bq_https_rate = 0\<rparr>"

definition broker_new :: "nat \<Rightarrow> string \<Rightarrow> u64 \<Rightarrow> instance_grant \<Rightarrow> broker" where
  "broker_new now plugin generation ig =
     (let caps = merge_inherent (ig_caps ig);
          quota = fold quota_of_grant caps default_quota
      in \<lparr>br_plugin = plugin, br_generation = generation, br_instance = ig_instance ig, br_caps = caps,
          br_audit = [],
          br_timer = (case bq_timer quota of
                        Some (per_minute, active) \<Rightarrow> timer_set_quota per_minute active (timer_new now)
                      | None \<Rightarrow> timer_new now),
          br_log = log_new now plugin (ig_instance ig),
          br_storage = storage_new (bq_storage_max_bytes quota),
          br_metrics = metrics_new (bq_metrics_rate quota),
          br_theme = theme_new, br_operations = None, br_https = None,
          br_https_rate_max = bq_https_rate quota, br_rate_started = now, br_rate_used = 0, br_health = []\<rparr>)"

definition broker_with_operations ::
  "op_value op_registry \<Rightarrow> broker \<Rightarrow> (broker, operation_service_error) result"
where
  "broker_with_operations reg b =
     (if oo_plugin (or_owner reg) \<noteq> br_plugin b \<or> oo_instance (or_owner reg) \<noteq> br_instance b
         \<or> oo_generation (or_owner reg) \<noteq> br_generation b
      then Err OwnerMismatch else Ok (b\<lparr>br_operations := Some reg\<rparr>))"

definition broker_with_https :: "https_service \<Rightarrow> broker \<Rightarrow> broker" where
  "broker_with_https https b = b\<lparr>br_https := Some https\<rparr>"

section \<open>Authorization\<close>

definition audit :: "capability_id \<Rightarrow> bool \<Rightarrow> deny_reason option \<Rightarrow> string \<Rightarrow> broker \<Rightarrow> broker" where
  "audit c ok reason detail b =
     b\<lparr>br_audit := br_audit b @ [audit_event_of (br_plugin b) (br_instance b) c ok reason detail]\<rparr>"

definition authorize ::
  "capability_id \<Rightarrow> capability_params option \<Rightarrow> string \<Rightarrow> broker \<Rightarrow> (unit, deny_reason) result \<times> broker"
where
  "authorize c request detail b =
     (case decide (grants_find c (br_caps b)) request of
        Allowed \<Rightarrow> (Ok (), audit c True None detail b)
      | Denied reason \<Rightarrow> (Err reason, audit c False (Some reason) detail b))"

definition authorize_existing_grant :: "capability_id \<Rightarrow> string \<Rightarrow> broker \<Rightarrow> (unit, deny_reason) result \<times> broker" where
  "authorize_existing_grant c detail b =
     authorize c (Option.bind (grants_find c (br_caps b)) g_params) detail b"

text \<open>\<open>self.authorize(..)?\<close> followed by the call on the service.\<close>

definition guarded ::
  "capability_id \<Rightarrow> capability_params option \<Rightarrow> string \<Rightarrow> (deny_reason \<Rightarrow> 'e)
     \<Rightarrow> (broker \<Rightarrow> ('a, 'e) result \<times> broker) \<Rightarrow> broker \<Rightarrow> ('a, 'e) result \<times> broker"
where
  "guarded c request detail conv f b =
     (case authorize c request detail b of
        (Ok _, b1) \<Rightarrow> f b1
      | (Err reason, b1) \<Rightarrow> (Err (conv reason), b1))"

section \<open>Synchronous capabilities\<close>

definition broker_clock_now :: "nat option \<Rightarrow> broker \<Rightarrow> clock_snapshot \<times> broker" where
  "broker_clock_now since_epoch b = (clock_now since_epoch, snd (authorize ClockRead None ''clock'' b))"

definition redact_size :: "string \<Rightarrow> string" where
  "redact_size val = ''message len='' @ decimal (char_count val)"

definition broker_log :: "nat \<Rightarrow> log_level \<Rightarrow> string \<Rightarrow> broker \<Rightarrow> (unit, log_error) result \<times> broker" where
  "broker_log now level message =
     guarded LogWrite None (redact_size message) log_error_of_deny
       (\<lambda>b. case log_write now level message (br_log b) of (res, s) \<Rightarrow> (res, b\<lparr>br_log := s\<rparr>))"

definition broker_timer_schedule :: "nat \<Rightarrow> u64 \<Rightarrow> broker \<Rightarrow> (u32, timer_error) result \<times> broker" where
  "broker_timer_schedule now delay_ms =
     guarded TimerSchedule (Some (Timer 1 1)) ''schedule timer'' timer_error_of_deny
       (\<lambda>b. case timer_schedule now delay_ms (br_timer b) of (res, s) \<Rightarrow> (res, b\<lparr>br_timer := s\<rparr>))"

definition broker_timer_cancel :: "u32 \<Rightarrow> broker \<Rightarrow> (unit, timer_error) result \<times> broker" where
  "broker_timer_cancel tid =
     guarded TimerSchedule (Some (Timer 1 1)) ''cancel timer'' timer_error_of_deny
       (\<lambda>b. case timer_cancel tid (br_timer b) of (res, s) \<Rightarrow> (res, b\<lparr>br_timer := s\<rparr>))"

definition broker_timer_complete :: "u32 \<Rightarrow> broker \<Rightarrow> broker" where
  "broker_timer_complete tid b = b\<lparr>br_timer := timer_complete tid (br_timer b)\<rparr>"

definition broker_storage_get :: "string \<Rightarrow> broker \<Rightarrow> (string option, storage_error) result \<times> broker" where
  "broker_storage_get key =
     guarded StorageRead (Some (Storage [key] 0)) (''storage get key='' @ key) storage_error_of_deny
       (\<lambda>b. (storage_get key (br_storage b), b))"

text \<open>The writes: the service call is partial, its panic is \<open>None\<close>.\<close>

definition broker_storage_set :: "string \<Rightarrow> string \<Rightarrow> broker \<Rightarrow> ((unit, storage_error) result \<times> broker) option" where
  "broker_storage_set key val b =
     (case authorize StorageWrite (Some (Storage [key] (of_nat (length val))))
             (''storage set key='' @ key @ '' len='' @ decimal (length val)) b of
        (Err reason, b1) \<Rightarrow> Some (Err (storage_error_of_deny reason), b1)
      | (Ok _, b1) \<Rightarrow>
          map_option (\<lambda>(res, s). (res, b1\<lparr>br_storage := s\<rparr>)) (storage_set key val (br_storage b1)))"

definition broker_storage_delete :: "string \<Rightarrow> broker \<Rightarrow> ((unit, storage_error) result \<times> broker) option" where
  "broker_storage_delete key b =
     (case authorize StorageWrite (Some (Storage [key] 0)) (''storage delete key='' @ key) b of
        (Err reason, b1) \<Rightarrow> Some (Err (storage_error_of_deny reason), b1)
      | (Ok _, b1) \<Rightarrow>
          map_option (\<lambda>(res, s). (res, b1\<lparr>br_storage := s\<rparr>)) (storage_delete key (br_storage b1)))"

definition broker_metrics_cpu_percent ::
  "(rat \<Rightarrow> rat) \<Rightarrow> nat \<Rightarrow> nat \<Rightarrow> process_sample option \<Rightarrow> broker \<Rightarrow> (rat, metrics_error) result \<times> broker"
where
  "broker_metrics_cpu_percent rnd now now' sample =
     guarded SystemCpu (Some (Metrics 1)) ''metrics cpu-percent'' metrics_error_of_deny
       (\<lambda>b. case metrics_cpu_percent rnd now now' sample (br_metrics b) of (res, s) \<Rightarrow> (res, b\<lparr>br_metrics := s\<rparr>))"

definition broker_metrics_memory ::
  "process_sample option \<Rightarrow> broker \<Rightarrow> (memory_snapshot, metrics_error) result \<times> broker"
where
  "broker_metrics_memory sample =
     guarded SystemMemory None ''metrics memory'' metrics_error_of_deny (\<lambda>b. (metrics_memory sample, b))"

definition broker_theme_get_token :: "string \<Rightarrow> broker \<Rightarrow> (string option, theme_error) result \<times> broker" where
  "broker_theme_get_token name =
     guarded ThemeSubscribe None ''theme get-token'' theme_error_of_deny
       (\<lambda>b. (theme_get_token name (br_theme b), b))"

definition broker_theme_subscribe :: "broker \<Rightarrow> (u32, theme_error) result \<times> broker" where
  "broker_theme_subscribe =
     guarded ThemeSubscribe None ''theme subscribe'' theme_error_of_deny
       (\<lambda>b. case theme_subscribe (br_theme b) of (res, s) \<Rightarrow> (res, b\<lparr>br_theme := s\<rparr>))"

definition broker_theme_unsubscribe :: "u32 \<Rightarrow> broker \<Rightarrow> (unit, theme_error) result \<times> broker" where
  "broker_theme_unsubscribe sid =
     guarded ThemeSubscribe None ''theme unsubscribe'' theme_error_of_deny
       (\<lambda>b. case theme_unsubscribe sid (br_theme b) of (res, s) \<Rightarrow> (res, b\<lparr>br_theme := s\<rparr>))"

section \<open>Operations\<close>

fun deny_reason_of_submit :: "operation_submit_error \<Rightarrow> deny_reason" where
  "deny_reason_of_submit (SubmitPermissionDenied reason) = reason"
| "deny_reason_of_submit SubmitQueueFull = QuotaExceeded"
| "deny_reason_of_submit IdExhausted = QuotaExceeded"
| "deny_reason_of_submit SubmitInvalidInput = InvalidInput"
| "deny_reason_of_submit InvalidDeadline = InvalidInput"
| "deny_reason_of_submit SubmitUnavailable = EnvironmentUnavailable"

definition submit_authorized_operation ::
  "nat \<Rightarrow> capability_id \<Rightarrow> nat \<Rightarrow> broker \<Rightarrow> (operation_id, operation_submit_error) result \<times> broker"
where
  "submit_authorized_operation now c timeout b =
     (case (case br_operations b of
              Some reg \<Rightarrow> (case op_submit now c timeout reg of (res, reg') \<Rightarrow> (res, b\<lparr>br_operations := Some reg'\<rparr>))
            | None \<Rightarrow> (Err SubmitUnavailable, b)) of
        (Ok oid, b1) \<Rightarrow> (Ok oid, b1)
      | (Err e, b1) \<Rightarrow>
          (Err e, audit c False (Some (deny_reason_of_submit e))
                    (''operation submit failed='' @ operation_submit_error_code e) b1))"

definition submit_operation ::
  "nat \<Rightarrow> capability_id \<Rightarrow> capability_params option \<Rightarrow> nat \<Rightarrow> string \<Rightarrow> broker
     \<Rightarrow> (operation_id, operation_submit_error) result \<times> broker"
where
  "submit_operation now c request timeout detail =
     guarded c request detail SubmitPermissionDenied (submit_authorized_operation now c timeout)"

definition submit_storage_get ::
  "nat \<Rightarrow> string \<Rightarrow> nat \<Rightarrow> broker \<Rightarrow> (operation_id, operation_submit_error) result \<times> broker"
where
  "submit_storage_get now key timeout b =
     (if valid_key key \<noteq> Ok () then (Err SubmitInvalidInput, b)
      else submit_operation now StorageRead (Some (Storage [key] 0)) timeout
             (''operation=storage-get key='' @ decimal (length key) @ ''B'') b)"

definition cancel_operation ::
  "capability_id \<Rightarrow> operation_id \<Rightarrow> broker \<Rightarrow> (unit, operation_cancel_error) result \<times> broker"
where
  "cancel_operation c oid b =
     (case authorize_existing_grant c (''operation='' @ decimal (unat oid) @ '' action=cancel'') b of
        (Err reason, b1) \<Rightarrow> (Err (CancelPermissionDenied reason), b1)
      | (Ok _, b1) \<Rightarrow>
          (case br_operations b1 of
             None \<Rightarrow> (Err CancelUnavailable, b1)
           | Some reg \<Rightarrow>
               (case op_cancel c oid reg of (res, reg') \<Rightarrow> (res, b1\<lparr>br_operations := Some reg'\<rparr>))))"

definition cancel_operation_by_id ::
  "operation_id \<Rightarrow> broker \<Rightarrow> (unit, operation_cancel_error) result \<times> broker"
where
  "cancel_operation_by_id oid b =
     (case br_operations b of
        None \<Rightarrow> (Err CancelUnavailable, b)
      | Some reg \<Rightarrow>
          (case op_active_capability oid reg of
             None \<Rightarrow> (Err NotActive, b)
           | Some c \<Rightarrow> cancel_operation c oid b))"

definition take_operation_result ::
  "(op_value \<Rightarrow> 'a option) \<Rightarrow> capability_id \<Rightarrow> operation_id \<Rightarrow> broker
     \<Rightarrow> ('a, operation_take_error) result \<times> broker"
where
  "take_operation_result downcast c oid b =
     (case authorize_existing_grant c (''operation='' @ decimal (unat oid) @ '' action=take-result'') b of
        (Err reason, b1) \<Rightarrow> (Err (TakePermissionDenied reason), b1)
      | (Ok _, b1) \<Rightarrow>
          (case br_operations b1 of
             None \<Rightarrow> (Err TakeUnavailable, b1)
           | Some reg \<Rightarrow>
               (case op_take downcast c oid reg of (res, reg') \<Rightarrow> (res, b1\<lparr>br_operations := Some reg'\<rparr>))))"

definition take_storage_get_result ::
  "operation_id \<Rightarrow> broker \<Rightarrow> (string option, operation_take_error) result \<times> broker"
where
  "take_storage_get_result = take_operation_result downcast_storage StorageRead"

definition take_https_result ::
  "operation_id \<Rightarrow> broker \<Rightarrow> (http_response, operation_take_error) result \<times> broker"
where
  "take_https_result = take_operation_result downcast_http NetworkHttps"

fun disposition_code :: "completion_disposition \<Rightarrow> string" where
  "disposition_code Delivered = ''delivered''"
| "disposition_code StaleGeneration = ''stale-generation''"
| "disposition_code DispositionQueueFull = ''queue-full''"
| "disposition_code ActorClosed = ''actor-closed''"

definition audit_operation_completion ::
  "operation_completion \<Rightarrow> completion_disposition \<Rightarrow> broker \<Rightarrow> bool \<times> broker"
where
  "audit_operation_completion completion disposition b =
     (case br_operations b of
        None \<Rightarrow> (False, b)
      | Some reg \<Rightarrow>
          if \<not> is_current_for completion (or_owner reg) then (False, b)
          else (True, audit (oc_capability completion) True None
                  (''operation='' @ decimal (unat (oc_id completion)) @ '' terminal=''
                   @ operation_terminal_code (oc_terminal completion) @ '' delivery=''
                   @ disposition_code disposition) b))"

definition discard_operation_result :: "operation_id \<Rightarrow> broker \<Rightarrow> bool \<times> broker" where
  "discard_operation_result oid b =
     (case br_operations b of
        None \<Rightarrow> (False, b)
      | Some reg \<Rightarrow> (case op_discard oid reg of (res, reg') \<Rightarrow> (res, b\<lparr>br_operations := Some reg'\<rparr>)))"

definition cancel_all_operations :: "broker \<Rightarrow> nat \<times> broker" where
  "cancel_all_operations b =
     (case br_operations b of
        None \<Rightarrow> (0, b)
      | Some reg \<Rightarrow> (case op_cancel_all reg of (n, reg') \<Rightarrow> (n, b\<lparr>br_operations := Some reg'\<rparr>)))"

section \<open>HTTPS\<close>

definition reserve_https_rate :: "nat \<Rightarrow> broker \<Rightarrow> bool \<times> broker" where
  "reserve_https_rate now b =
     (let b1 = (if seconds 60 \<le> now - br_rate_started b
                then b\<lparr>br_rate_started := now, br_rate_used := 0\<rparr> else b)
      in if br_https_rate_max b1 \<le> br_rate_used b1 then (False, b1)
         else (True, b1\<lparr>br_rate_used := br_rate_used b1 + 1\<rparr>))"

definition submit_error_of_prepare :: "http_service_error \<Rightarrow> operation_submit_error" where
  "submit_error_of_prepare e =
     (if e \<in> {HttpInvalidInput, TemplateUnavailable, ConnectionNotGranted} then SubmitInvalidInput
      else SubmitUnavailable)"

definition submit_https ::
  "'u url_lib \<Rightarrow> header_lib \<Rightarrow> nat \<Rightarrow> string \<Rightarrow> connection_id \<Rightarrow> query_param list \<Rightarrow> broker
     \<Rightarrow> (operation_id, operation_submit_error) result \<times> broker"
where
  "submit_https ul hl now template_id cid query b =
     (case br_https b of
        None \<Rightarrow>
          (case authorize_existing_grant NetworkHttps
                  (''https template='' @ decimal (length template_id) @ ''B service=unconfigured'') b of
             (Err reason, b1) \<Rightarrow> (Err (SubmitPermissionDenied reason), b1)
           | (Ok _, b1) \<Rightarrow>
               (Err SubmitUnavailable,
                audit NetworkHttps False (Some EnvironmentUnavailable) ''https service=unconfigured'' b1))
      | Some https \<Rightarrow>
          (case https_prepare ul hl https template_id cid query of
             (Err e, events) \<Rightarrow> (Err (submit_error_of_prepare e), b\<lparr>br_health := br_health b @ events\<rparr>)
           | (Ok p, events) \<Rightarrow>
               guarded NetworkHttps (Some (ph_request_params p))
                 (''operation=https template='' @ decimal (length template_id) @ ''B connection=''
                  @ decimal (unat cid)) SubmitPermissionDenied
                 (\<lambda>b1. case reserve_https_rate now b1 of
                        (False, b2) \<Rightarrow>
                          (Err (SubmitPermissionDenied QuotaExceeded),
                           audit NetworkHttps False (Some QuotaExceeded) ''https rate-limit'' b2)
                      | (True, b2) \<Rightarrow> submit_authorized_operation now NetworkHttps (ph_timeout p) b2)
                 (b\<lparr>br_health := br_health b @ events\<rparr>)))"

section \<open>Complete mediation\<close>

text \<open>The calls the WIT adapters forward for a guest; \<open>'u\<close> is the URL type.\<close>

datatype broker_call =
    CallClock "nat option"
  | CallLog nat log_level string
  | CallTimerSchedule nat u64
  | CallTimerCancel u32
  | CallStorageGet string
  | CallStorageSet string string
  | CallStorageDelete string
  | CallCpu nat nat "process_sample option"
  | CallMemory "process_sample option"
  | CallThemeToken string
  | CallThemeSubscribe
  | CallThemeUnsubscribe u32
  | CallSubmitStorageGet nat string nat
  | CallTakeStorageGet operation_id
  | CallSubmitHttps nat string connection_id "query_param list"
  | CallTakeHttps operation_id
  | CallCancelOperation capability_id operation_id

fun call_capability :: "broker_call \<Rightarrow> capability_id" where
  "call_capability (CallClock _) = ClockRead"
| "call_capability (CallLog _ _ _) = LogWrite"
| "call_capability (CallTimerSchedule _ _) = TimerSchedule"
| "call_capability (CallTimerCancel _) = TimerSchedule"
| "call_capability (CallStorageGet _) = StorageRead"
| "call_capability (CallStorageSet _ _) = StorageWrite"
| "call_capability (CallStorageDelete _) = StorageWrite"
| "call_capability (CallCpu _ _ _) = SystemCpu"
| "call_capability (CallMemory _) = SystemMemory"
| "call_capability (CallThemeToken _) = ThemeSubscribe"
| "call_capability CallThemeSubscribe = ThemeSubscribe"
| "call_capability (CallThemeUnsubscribe _) = ThemeSubscribe"
| "call_capability (CallSubmitStorageGet _ _ _) = StorageRead"
| "call_capability (CallTakeStorageGet _) = StorageRead"
| "call_capability (CallSubmitHttps _ _ _ _) = NetworkHttps"
| "call_capability (CallTakeHttps _) = NetworkHttps"
| "call_capability (CallCancelOperation c _) = c"

text \<open>The next broker of a call; \<open>None\<close> is a panic.\<close>

fun broker_exec ::
  "'u url_lib \<Rightarrow> header_lib \<Rightarrow> (rat \<Rightarrow> rat) \<Rightarrow> broker_call \<Rightarrow> broker \<Rightarrow> broker option" where
  "broker_exec ul hl rnd (CallClock t) b = Some (snd (broker_clock_now t b))"
| "broker_exec ul hl rnd (CallLog now level msg) b = Some (snd (broker_log now level msg b))"
| "broker_exec ul hl rnd (CallTimerSchedule now delay) b = Some (snd (broker_timer_schedule now delay b))"
| "broker_exec ul hl rnd (CallTimerCancel tid) b = Some (snd (broker_timer_cancel tid b))"
| "broker_exec ul hl rnd (CallStorageGet key) b = Some (snd (broker_storage_get key b))"
| "broker_exec ul hl rnd (CallStorageSet key val) b = map_option snd (broker_storage_set key val b)"
| "broker_exec ul hl rnd (CallStorageDelete key) b = map_option snd (broker_storage_delete key b)"
| "broker_exec ul hl rnd (CallCpu now now' sample) b = Some (snd (broker_metrics_cpu_percent rnd now now' sample b))"
| "broker_exec ul hl rnd (CallMemory sample) b = Some (snd (broker_metrics_memory sample b))"
| "broker_exec ul hl rnd (CallThemeToken name) b = Some (snd (broker_theme_get_token name b))"
| "broker_exec ul hl rnd CallThemeSubscribe b = Some (snd (broker_theme_subscribe b))"
| "broker_exec ul hl rnd (CallThemeUnsubscribe sid) b = Some (snd (broker_theme_unsubscribe sid b))"
| "broker_exec ul hl rnd (CallSubmitStorageGet now key timeout) b = Some (snd (submit_storage_get now key timeout b))"
| "broker_exec ul hl rnd (CallTakeStorageGet oid) b = Some (snd (take_storage_get_result oid b))"
| "broker_exec ul hl rnd (CallSubmitHttps now t cid query) b = Some (snd (submit_https ul hl now t cid query b))"
| "broker_exec ul hl rnd (CallTakeHttps oid) b = Some (snd (take_https_result oid b))"
| "broker_exec ul hl rnd (CallCancelOperation c oid) b = Some (snd (cancel_operation c oid b))"

lemmas broker_call_defs = broker_clock_now_def broker_log_def broker_timer_schedule_def
  broker_timer_cancel_def broker_storage_get_def broker_storage_set_def broker_storage_delete_def
  broker_metrics_cpu_percent_def broker_metrics_memory_def broker_theme_get_token_def
  broker_theme_subscribe_def broker_theme_unsubscribe_def submit_storage_get_def submit_operation_def
  take_storage_get_result_def take_https_result_def take_operation_result_def cancel_operation_def

text \<open>Only the audit log may differ.\<close>

definition services_unchanged :: "broker \<Rightarrow> broker \<Rightarrow> bool" where
  "services_unchanged b b' \<longleftrightarrow> b' = b\<lparr>br_audit := br_audit b'\<rparr>"

text \<open>An HTTPS submission prepares its request before it asks for permission, and the preparation tells the listener
  about the health of the connection: the broker a call decides on.\<close>

fun reported_health :: "'u url_lib \<Rightarrow> header_lib \<Rightarrow> broker_call \<Rightarrow> broker \<Rightarrow> health_events" where
  "reported_health ul hl (CallSubmitHttps now t cid query) b =
     (case br_https b of None \<Rightarrow> [] | Some https \<Rightarrow> snd (https_prepare ul hl https t cid query))"
| "reported_health ul hl call b = []"

definition health_reported :: "'u url_lib \<Rightarrow> header_lib \<Rightarrow> broker_call \<Rightarrow> broker \<Rightarrow> broker" where
  "health_reported ul hl call b = b\<lparr>br_health := br_health b @ reported_health ul hl call b\<rparr>"

lemma health_reported_other [simp]: "reported_health ul hl call b = [] \<Longrightarrow> health_reported ul hl call b = b"
  by (simp add: health_reported_def)

lemma services_unchanged_refl [simp]: "services_unchanged b b"
  by (simp add: services_unchanged_def)

lemma services_unchanged_audit [simp]: "services_unchanged b (audit c ok reason detail b)"
  by (simp add: services_unchanged_def audit_def)

lemma authorize_no_grant:
  "grants_find c (br_caps b) = None \<Longrightarrow>
     authorize c request detail b = (Err NotGrantedReason, audit c False (Some NotGrantedReason) detail b)"
  by (simp add: authorize_def decide_def)

lemma guarded_no_grant:
  "grants_find c (br_caps b) = None \<Longrightarrow>
     guarded c request detail conv f b
       = (Err (conv NotGrantedReason), audit c False (Some NotGrantedReason) detail b)"
  by (simp add: guarded_def authorize_no_grant)

lemma submit_https_no_grant:
  assumes "grants_find NetworkHttps (br_caps b) = None"
  shows "services_unchanged (health_reported ul hl (CallSubmitHttps now t cid query) b) (snd (submit_https ul hl now t cid query b))"
  using assms
  by (auto simp: health_reported_def submit_https_def authorize_existing_grant_def authorize_no_grant guarded_no_grant
      services_unchanged_def audit_def split: option.splits result.splits prod.splits)

text \<open>Deny by default: a call whose capability the instance was not granted never panics and changes
  no service, neither timers, log, storage, metrics, theme, operations nor the HTTPS budget; only the
  audit log and the health that the preparation of an HTTPS request reports can differ.\<close>

theorem ungranted_call_reaches_no_service:
  assumes "grants_find (call_capability call) (br_caps b) = None"
  shows "\<exists>b'. broker_exec ul hl rnd call b = Some b' \<and> services_unchanged (health_reported ul hl call b) b'"
proof (cases call)
  case (CallSubmitHttps now t cid query)
  with assms show ?thesis by (simp add: submit_https_no_grant)
qed (use assms in \<open>auto simp: broker_call_defs authorize_no_grant guarded_no_grant authorize_existing_grant_def\<close>)

definition example_grant :: instance_grant where
  "example_grant = \<lparr>ig_instance = 1, ig_caps =
     [\<lparr>g_capability = StorageWrite, g_params = Some (Storage [] 8), g_effective = DerivedFromInstall\<rparr>]\<rparr>"

definition example_broker :: broker where
  "example_broker = broker_new 0 ''dev.clock'' 1 example_grant"

lemma merge_inherent_example: "merge_inherent (ig_caps example_grant) = ig_caps example_grant
    @ map (\<lambda>c. \<lparr>g_capability = c, g_params = None, g_effective = DerivedFromInstall\<rparr>) [UiUpdateState, LogWrite, ClockRead]"
  by (simp add: merge_inherent_def example_grant_def CAPABILITY_REGISTRY_def)

lemma example_broker_simps:
  "br_caps example_broker = ig_caps example_grant
    @ map (\<lambda>c. \<lparr>g_capability = c, g_params = None, g_effective = DerivedFromInstall\<rparr>) [UiUpdateState, LogWrite, ClockRead]"
  "br_storage example_broker = storage_new 8" "br_audit example_broker = []" "br_health example_broker = []"
  "br_https example_broker = None" "br_operations example_broker = None"
  by (simp_all only: example_broker_def broker_new_def merge_inherent_example Let_def broker.simps)
    (simp_all add: example_grant_def default_quota_def)

lemma ungranted_call_reaches_no_service_witness:
  "\<exists>b'. broker_exec example_url_lib example_header_lib id (CallTimerSchedule 0 5) example_broker = Some b'
     \<and> services_unchanged example_broker b'"
  using ungranted_call_reaches_no_service [of "CallTimerSchedule 0 5" example_broker]
  by (simp add: example_broker_simps grants_find_def example_grant_def)

section \<open>Quotas behind the grants\<close>

lemma authorize_storage: "br_storage (snd (authorize c request detail b)) = br_storage b"
  by (simp add: authorize_def audit_def split: permission_decision.splits)

lemma guarded_storage:
  assumes "\<And>b. br_storage (snd (f b)) = br_storage b"
  shows "br_storage (snd (guarded c request detail conv f b)) = br_storage b"
  using authorize_storage [of c request detail b] assms
  by (auto simp: guarded_def split: result.splits prod.splits)

text \<open>Every call keeps the account of the private store, and only the two writes can change it.\<close>

definition storage_call_ok :: "broker_call \<Rightarrow> bool" where
  "storage_call_ok call \<longleftrightarrow> (\<forall>key val. call = CallStorageSet key val \<longrightarrow> length val < 2 ^ 63)"

lemma submit_authorized_storage: "br_storage (snd (submit_authorized_operation now c timeout b)) = br_storage b"
  by (simp add: submit_authorized_operation_def audit_def split: option.splits prod.splits result.splits)

lemma reserve_storage: "br_storage (snd (reserve_https_rate now b)) = br_storage b"
  by (simp add: reserve_https_rate_def Let_def)

lemma existing_storage: "br_storage (snd (authorize_existing_grant c detail b)) = br_storage b"
  by (simp add: authorize_existing_grant_def authorize_storage)

lemma take_storage: "br_storage (snd (take_operation_result downcast c oid b)) = br_storage b"
  using existing_storage [of c "''operation='' @ decimal (unat oid) @ '' action=take-result''" b]
  by (auto simp: take_operation_result_def split: result.splits prod.splits option.splits)

lemma cancel_storage: "br_storage (snd (cancel_operation c oid b)) = br_storage b"
  using existing_storage [of c "''operation='' @ decimal (unat oid) @ '' action=cancel''" b]
  by (auto simp: cancel_operation_def split: result.splits prod.splits option.splits)

lemma submit_https_storage: "br_storage (snd (submit_https ul hl now t cid query b)) = br_storage b"
proof (cases "br_https b")
  case None
  then show ?thesis
    using existing_storage [of NetworkHttps _ b]
    by (auto simp: submit_https_def audit_def split: result.splits prod.splits) (metis snd_conv)+
next
  case (Some https)
  have work: "br_storage (snd (case reserve_https_rate now b1 of
      (False, b2) \<Rightarrow> (Err (SubmitPermissionDenied QuotaExceeded),
                      audit NetworkHttps False (Some QuotaExceeded) ''https rate-limit'' b2)
    | (True, b2) \<Rightarrow> submit_authorized_operation now NetworkHttps timeout b2)) = br_storage b1" for b1 timeout
    using reserve_storage [of now b1]
    by (auto simp: submit_authorized_storage audit_def split: prod.splits bool.splits)
  show ?thesis
    by (auto simp: submit_https_def Some guarded_storage [OF work] split: result.splits prod.splits)
qed

lemma broker_exec_storage:
  assumes wf: "storage_wf (br_storage b)" and ok: "storage_call_ok call"
  shows "\<exists>b'. broker_exec ul hl rnd call b = Some b' \<and> storage_wf (br_storage b')
    \<and> st_max_bytes (br_storage b') = st_max_bytes (br_storage b)"
proof (cases call)
  case (CallStorageSet key val)
  obtain res b1 where auth: "authorize StorageWrite (Some (Storage [key] (of_nat (length val))))
      (''storage set key='' @ key @ '' len='' @ decimal (length val)) b = (res, b1)" by force
  then have "br_storage b1 = br_storage b" using authorize_storage by (metis snd_conv)
  with wf ok CallStorageSet storage_set_wf [of "br_storage b1" val key] auth show ?thesis
    by (cases res) (auto simp: broker_storage_set_def storage_call_ok_def)
next
  case (CallStorageDelete key)
  obtain res b1 where auth: "authorize StorageWrite (Some (Storage [key] 0)) (''storage delete key='' @ key) b
      = (res, b1)" by force
  then have "br_storage b1 = br_storage b" using authorize_storage by (metis snd_conv)
  with wf CallStorageDelete storage_delete_wf [of "br_storage b1" key] auth show ?thesis
    by (cases res) (auto simp: broker_storage_delete_def)
qed (use wf in \<open>auto simp: broker_clock_now_def broker_log_def broker_timer_schedule_def broker_timer_cancel_def
    broker_storage_get_def broker_metrics_cpu_percent_def broker_metrics_memory_def broker_theme_get_token_def
    broker_theme_subscribe_def broker_theme_unsubscribe_def submit_storage_get_def submit_operation_def
    take_storage_get_result_def take_https_result_def take_storage cancel_storage submit_https_storage
    authorize_storage guarded_storage submit_authorized_storage split: prod.splits\<close>)

text \<open>The calls of a session, in order; \<open>None\<close> if one of them panics.\<close>

fun broker_run ::
  "'u url_lib \<Rightarrow> header_lib \<Rightarrow> (rat \<Rightarrow> rat) \<Rightarrow> broker_call list \<Rightarrow> broker \<Rightarrow> broker option"
where
  "broker_run ul hl rnd [] b = Some b"
| "broker_run ul hl rnd (call # calls) b = Option.bind (broker_exec ul hl rnd call b) (broker_run ul hl rnd calls)"

lemma broker_run_storage:
  "storage_wf (br_storage b) \<Longrightarrow> list_all storage_call_ok calls \<Longrightarrow>
     \<exists>b'. broker_run ul hl rnd calls b = Some b' \<and> storage_wf (br_storage b')
       \<and> st_max_bytes (br_storage b') = st_max_bytes (br_storage b)"
proof (induction calls arbitrary: b)
  case (Cons call calls)
  then obtain b1 where "broker_exec ul hl rnd call b = Some b1" "storage_wf (br_storage b1)"
      "st_max_bytes (br_storage b1) = st_max_bytes (br_storage b)"
    using broker_exec_storage [of b call ul hl rnd] by auto
  with Cons.IH [of b1] Cons.prems(2) show ?case by auto
qed simp

text \<open>The quota a list of grants gives to the private store: the last \<open>storage:write\<close> grant decides.\<close>

definition storage_quota :: "grant list \<Rightarrow> nat" where
  "storage_quota caps = bq_storage_max_bytes (fold quota_of_grant (merge_inherent caps) default_quota)"

lemma broker_new_storage: "br_storage (broker_new now plugin generation ig) = storage_new (storage_quota (ig_caps ig))"
  by (simp add: broker_new_def storage_quota_def Let_def)

text \<open>C14: For a storage quota below \<open>2 ^ 63\<close> bytes and written values shorter than \<open>2 ^ 63\<close> bytes (the longest a Rust slice
  can be), no sequence of guest calls on a new broker panics, whatever the other grants, and whatever the guest
  does the values in the private store are together within the quota of its grant, with the byte
  account exact.  Beyond these sizes the addition of the byte account could overflow.\<close>

theorem guest_session_within_storage_quota:
  assumes "storage_quota (ig_caps ig) < 2 ^ 63" and "list_all storage_call_ok calls"
  shows "\<exists>b. broker_run ul hl rnd calls (broker_new now plugin generation ig) = Some b
    \<and> st_total_bytes (br_storage b) = (\<Sum>e\<leftarrow>st_data (br_storage b). length (snd e))
    \<and> st_total_bytes (br_storage b) \<le> storage_quota (ig_caps ig)"
proof -
  have "storage_wf (br_storage (broker_new now plugin generation ig))"
    using storage_wf_new [OF assms(1)] by (simp add: broker_new_storage)
  from broker_run_storage [OF this assms(2), of ul hl rnd] show ?thesis
    by (auto simp: storage_wf_def bt_weight_def broker_new_storage storage_new_def)
qed

lemma guest_session_within_storage_quota_witness:
  "\<exists>b. broker_run example_url_lib example_header_lib id [CallStorageSet ''a'' ''xyz'', CallStorageGet ''b''] example_broker
       = Some b \<and> st_total_bytes (br_storage b) \<le> 8"
proof -
  have "storage_quota (ig_caps example_grant) = 8"
    by (simp add: storage_quota_def merge_inherent_example) (simp add: example_grant_def default_quota_def)
  then show ?thesis
    using guest_session_within_storage_quota [of example_grant "[CallStorageSet ''a'' ''xyz'', CallStorageGet ''b'']"
        example_url_lib example_header_lib id 0 "''dev.clock''" 1]
    by (auto simp: example_broker_def storage_call_ok_def simp del: broker_run.simps)
qed

section \<open>Every effect is audited\<close>

text \<open>The audit log only grows.\<close>

definition audit_grows :: "broker \<Rightarrow> broker \<Rightarrow> bool" where
  "audit_grows b b' \<longleftrightarrow> (\<exists>rest. br_audit b' = br_audit b @ rest)"

text \<open>The first new entry admits a call of the capability.\<close>

definition audited_allowed :: "capability_id \<Rightarrow> broker \<Rightarrow> broker \<Rightarrow> bool" where
  "audited_allowed c b b' \<longleftrightarrow>
     (\<exists>ev rest. br_audit b' = br_audit b @ ev # rest \<and> ae_capability ev = cap_name c \<and> ae_allowed ev)"

lemma audit_grows_refl [simp]: "audit_grows b b"
  by (simp add: audit_grows_def)

lemma audit_grows_audit [simp]: "audit_grows b (audit c ok reason detail b)"
  by (simp add: audit_grows_def audit_def)

lemma authorize_cases:
  obtains (allowed) "authorize c request detail b = (Ok (), audit c True None detail b)"
  | (denied) reason where "authorize c request detail b = (Err reason, audit c False (Some reason) detail b)"
  by (cases "decide (grants_find c (br_caps b)) request") (auto simp: authorize_def)

lemma audited_allowed_audit:
  "audit_grows (audit c True None detail b) b' \<Longrightarrow> audited_allowed c b b'"
  by (auto simp: audit_grows_def audited_allowed_def audit_def audit_event_of_def)

definition effect_audited :: "capability_id \<Rightarrow> broker \<Rightarrow> broker \<Rightarrow> bool" where
  "effect_audited c b b' \<longleftrightarrow> services_unchanged b b' \<or> audited_allowed c b b'"

lemma effect_audited_refl [simp]: "effect_audited c b b"
  by (simp add: effect_audited_def)

lemma guarded_effect:
  assumes "\<And>b. audit_grows b (snd (f b))"
  shows "effect_audited c b (snd (guarded c request detail conv f b))"
  by (cases rule: authorize_cases [of c request detail b])
    (use assms [THEN audited_allowed_audit] in \<open>auto simp: effect_audited_def guarded_def\<close>)

lemma existing_effect:
  assumes "\<And>b. audit_grows b (snd (f b))"
  shows "effect_audited c b (snd (case authorize_existing_grant c detail b of
      (Err reason, b1) \<Rightarrow> (Err (conv reason), b1) | (Ok _, b1) \<Rightarrow> f b1))"
  by (cases rule: authorize_cases [of c "Option.bind (grants_find c (br_caps b)) g_params" detail b])
    (use assms [THEN audited_allowed_audit] in \<open>auto simp: effect_audited_def authorize_existing_grant_def\<close>)

lemma storage_write_effect_aux:
  assumes "map_option snd (case authorize c request detail b of
        (Err reason, b1) \<Rightarrow> Some (Err (conv reason), b1)
      | (Ok _, b1) \<Rightarrow> map_option (\<lambda>(res, s). (res, b1\<lparr>br_storage := s\<rparr>)) (f (br_storage b1))) = Some b'"
  shows "effect_audited c b b'"
  by (cases rule: authorize_cases [of c request detail b])
    (use assms in \<open>auto simp: effect_audited_def audit_grows_def intro!: audited_allowed_audit [of _ detail]\<close>)

lemma submit_authorized_grows: "audit_grows b (snd (submit_authorized_operation now c timeout b))"
  by (auto simp: submit_authorized_operation_def audit_grows_def audit_def split: option.splits prod.splits result.splits)

lemma reserve_audit: "br_audit (snd (reserve_https_rate now b)) = br_audit b"
  by (simp add: reserve_https_rate_def Let_def)
lemma audit_grows_same: "br_audit b' = br_audit b \<Longrightarrow> audit_grows b b'"
  by (simp add: audit_grows_def)

lemma take_effect: "effect_audited c b (snd (take_operation_result downcast c oid b))"
  unfolding take_operation_result_def
  by (rule existing_effect) (auto intro!: audit_grows_same split: option.splits prod.splits)

lemma cancel_effect: "effect_audited c b (snd (cancel_operation c oid b))"
  unfolding cancel_operation_def
  by (rule existing_effect) (auto intro!: audit_grows_same split: option.splits prod.splits)

lemma submit_https_effect:
  "effect_audited NetworkHttps (health_reported ul hl (CallSubmitHttps now t cid query) b) (snd (submit_https ul hl now t cid query b))"
proof (cases "br_https b")
  case None
  show ?thesis
    by (cases rule: authorize_cases [of NetworkHttps "Option.bind (grants_find NetworkHttps (br_caps b)) g_params"
          "''https template='' @ decimal (length t) @ ''B service=unconfigured''" b])
      (auto simp: submit_https_def None authorize_existing_grant_def effect_audited_def services_unchanged_def audit_def)
next
  case (Some https)
  let ?b = "b\<lparr>br_health := br_health b @ snd (https_prepare ul hl https t cid query)\<rparr>"
  have work: "audit_grows b1 (snd (case reserve_https_rate now b1 of
      (False, b2) \<Rightarrow> (Err (SubmitPermissionDenied QuotaExceeded),
                      audit NetworkHttps False (Some QuotaExceeded) ''https rate-limit'' b2)
    | (True, b2) \<Rightarrow> submit_authorized_operation now NetworkHttps timeout b2))" for b1 timeout
    using reserve_audit [of now b1] submit_authorized_grows [of "snd (reserve_https_rate now b1)" now NetworkHttps timeout]
    by (auto simp: audit_grows_def audit_def split: prod.splits bool.splits)
  have "effect_audited NetworkHttps ?b (snd (submit_https ul hl now t cid query b))"
    by (auto simp: submit_https_def Some intro!: guarded_effect work split: result.splits prod.splits)
  then show ?thesis by (simp add: health_reported_def Some)
qed

text \<open>No other call touches the health channel.\<close>

lemma authorize_health: "br_health (snd (authorize c request detail b)) = br_health b"
  by (simp add: authorize_def audit_def split: permission_decision.splits)

lemma guarded_health:
  assumes "\<And>b. br_health (snd (f b)) = br_health b"
  shows "br_health (snd (guarded c request detail conv f b)) = br_health b"
  using authorize_health [of c request detail b] assms
  by (auto simp: guarded_def split: result.splits prod.splits)

lemma submit_authorized_health: "br_health (snd (submit_authorized_operation now c timeout b)) = br_health b"
  by (simp add: submit_authorized_operation_def audit_def split: option.splits prod.splits result.splits)

lemma existing_health: "br_health (snd (authorize_existing_grant c detail b)) = br_health b"
  by (simp add: authorize_existing_grant_def authorize_health)

lemma take_health: "br_health (snd (take_operation_result downcast c oid b)) = br_health b"
  using existing_health [of c "''operation='' @ decimal (unat oid) @ '' action=take-result''" b]
  by (auto simp: take_operation_result_def split: result.splits prod.splits option.splits)

lemma cancel_health: "br_health (snd (cancel_operation c oid b)) = br_health b"
  using existing_health [of c "''operation='' @ decimal (unat oid) @ '' action=cancel''" b]
  by (auto simp: cancel_operation_def split: result.splits prod.splits option.splits)

lemma submit_https_health:
  "br_health (snd (submit_https ul hl now t cid query b)) = br_health b @ reported_health ul hl (CallSubmitHttps now t cid query) b"
proof (cases "br_https b")
  case None
  then show ?thesis
    using existing_health [of NetworkHttps _ b]
    by (auto simp: submit_https_def audit_def split: result.splits prod.splits) (metis snd_conv)+
next
  case (Some https)
  have "br_health (snd (reserve_https_rate now b1)) = br_health b1" for b1
    by (simp add: reserve_https_rate_def Let_def)
  then have work: "br_health (snd (case reserve_https_rate now b1 of
      (False, b2) \<Rightarrow> (Err (SubmitPermissionDenied QuotaExceeded),
                      audit NetworkHttps False (Some QuotaExceeded) ''https rate-limit'' b2)
    | (True, b2) \<Rightarrow> submit_authorized_operation now NetworkHttps timeout b2)) = br_health b1" for b1 timeout
    by (auto simp: submit_authorized_health audit_def split: prod.splits bool.splits) (metis snd_conv)+
  show ?thesis
    by (auto simp: submit_https_def Some guarded_health [OF work] split: result.splits prod.splits)
qed

lemma storage_write_health:
  assumes "map_option snd (case authorize c request detail b of
        (Err reason, b1) \<Rightarrow> Some (Err (conv reason), b1)
      | (Ok _, b1) \<Rightarrow> map_option (\<lambda>(res, s). (res, b1\<lparr>br_storage := s\<rparr>)) (f (br_storage b1))) = Some b'"
  shows "br_health b' = br_health b"
  by (cases rule: authorize_cases [of c request detail b]) (use assms in \<open>auto simp: audit_def\<close>)

lemma exec_health:
  assumes "broker_exec ul hl rnd call b = Some b'"
  shows "br_health b' = br_health b @ reported_health ul hl call b"
proof (cases call)
  case (CallStorageSet key val)
  with assms show ?thesis
    by (simp only: broker_exec.simps broker_storage_set_def reported_health.simps append_Nil2 storage_write_health)
next
  case (CallStorageDelete key)
  with assms show ?thesis
    by (simp only: broker_exec.simps broker_storage_delete_def reported_health.simps append_Nil2 storage_write_health)
next
  case (CallSubmitHttps now t cid query)
  with assms show ?thesis by (auto simp: submit_https_health simp del: reported_health.simps)
qed (use assms in \<open>auto simp: broker_clock_now_def broker_log_def broker_timer_schedule_def broker_timer_cancel_def
    broker_storage_get_def broker_metrics_cpu_percent_def broker_metrics_memory_def broker_theme_get_token_def
    broker_theme_subscribe_def broker_theme_unsubscribe_def submit_storage_get_def submit_operation_def
    take_storage_get_result_def take_https_result_def take_health cancel_health authorize_health guarded_health
    submit_authorized_health split: prod.splits\<close>)

text \<open>C9: Every effect is authorized and audited: whenever a guest call changes any service of the broker (timers, log,
  storage, metrics, theme, operations, the budget of HTTPS requests), the first entry it adds to the audit log says that
  the capability of the call was allowed.  The one thing that happens before the decision is the preparation of an HTTPS
  request: it looks the credential up and reports the health of the connection, also for a request that is then refused
  or, when the preparation fails, never decided on and not audited.  These reports are exactly those of the preparation,
  and no other call makes one.\<close>

theorem effects_are_authorized_and_audited:
  assumes "broker_exec ul hl rnd call b = Some b'"
  shows "br_health b' = br_health b @ reported_health ul hl call b
    \<and> (services_unchanged (health_reported ul hl call b) b'
       \<or> (\<exists>ev rest. br_audit b' = br_audit b @ ev # rest \<and> ae_allowed ev
            \<and> ae_capability ev = cap_name (call_capability call)))"
proof -
  have "effect_audited (call_capability call) (health_reported ul hl call b) b'"
  proof (cases call)
    case (CallClock t)
    with assms show ?thesis
      by (cases rule: authorize_cases [of ClockRead None "''clock''" b])
        (auto simp: broker_clock_now_def effect_audited_def)
  next
    case (CallStorageSet key val)
    with assms show ?thesis
      by (simp only: broker_exec.simps broker_storage_set_def call_capability.simps reported_health.simps
          health_reported_other storage_write_effect_aux)
  next
    case (CallStorageDelete key)
    with assms show ?thesis
      by (simp only: broker_exec.simps broker_storage_delete_def call_capability.simps reported_health.simps
          health_reported_other storage_write_effect_aux)
  next
    case (CallSubmitStorageGet now key timeout)
    with assms show ?thesis
      by (auto simp: submit_storage_get_def submit_operation_def effect_audited_def [of _ b b]
          intro!: guarded_effect submit_authorized_grows)
  next
    case (CallSubmitHttps now t cid query)
    with assms show ?thesis by (auto simp: submit_https_effect simp del: reported_health.simps)
  qed (use assms in \<open>auto simp: broker_log_def broker_timer_schedule_def broker_timer_cancel_def
    broker_storage_get_def broker_metrics_cpu_percent_def broker_metrics_memory_def broker_theme_get_token_def
    broker_theme_subscribe_def broker_theme_unsubscribe_def take_storage_get_result_def take_https_result_def
    take_effect cancel_effect intro!: guarded_effect audit_grows_same split: prod.splits\<close>)
  with exec_health [OF assms] show ?thesis by (auto simp: effect_audited_def audited_allowed_def health_reported_def)
qed

lemma effects_are_authorized_and_audited_witness:
  "\<exists>b'. broker_exec example_url_lib example_header_lib id (CallStorageSet ''a'' ''xyz'') example_broker = Some b'
     \<and> br_health b' = br_health example_broker
     \<and> (services_unchanged example_broker b' \<or> (\<exists>ev rest. br_audit b' = br_audit example_broker @ ev # rest \<and> ae_allowed ev))"
proof -
  obtain b' where exec: "broker_exec example_url_lib example_header_lib id (CallStorageSet ''a'' ''xyz'') example_broker = Some b'"
    using broker_exec_storage [of example_broker "CallStorageSet ''a'' ''xyz''" example_url_lib example_header_lib id]
      storage_wf_new [of 8]
    by (auto simp: storage_call_ok_def example_broker_simps(2) simp del: broker_exec.simps)
  from effects_are_authorized_and_audited [OF exec] exec show ?thesis
    by (intro exI [of _ b']) auto
qed

section \<open>The HTTPS budget and the redaction of the audit log\<close>

type_synonym https_call = "string \<times> connection_id \<times> query_param list"

text \<open>One HTTPS submission; the flag says whether it was accepted.\<close>

definition https_step :: "'u url_lib \<Rightarrow> header_lib \<Rightarrow> https_call \<Rightarrow> nat \<Rightarrow> broker \<Rightarrow> bool \<times> broker" where
  "https_step ul hl call now b =
     (case call of (t, cid, query) \<Rightarrow>
        (case submit_https ul hl now t cid query b of (res, b') \<Rightarrow> (is_ok res, b')))"

text \<open>The window of a submission: it is not touched, or one reservation was made in it.\<close>

definition same_rate :: "broker \<Rightarrow> broker \<Rightarrow> bool" where
  "same_rate b b' \<longleftrightarrow> br_https_rate_max b' = br_https_rate_max b \<and> br_rate_started b' = br_rate_started b
     \<and> br_rate_used b' = br_rate_used b"

lemma same_rate_refl [simp]: "same_rate b b"
  by (simp add: same_rate_def)

lemma authorize_rate: "same_rate b (snd (authorize c request detail b))"
  by (simp add: authorize_def audit_def same_rate_def split: permission_decision.splits)

lemma authorize_rate_eq: "authorize c request detail b = (ares, b1) \<Longrightarrow> same_rate b b1"
  using authorize_rate [of b c request detail] by simp

lemma guarded_cases:
  obtains (denied) reason b1 where "guarded c request detail conv f b = (Err (conv reason), b1)" "same_rate b b1"
  | (allowed) b1 where "guarded c request detail conv f b = f b1" "same_rate b b1"
  by (cases rule: authorize_cases [of c request detail b]) (auto simp: guarded_def same_rate_def audit_def)

lemma submit_authorized_rate: "same_rate b (snd (submit_authorized_operation now c timeout b))"
  by (simp add: submit_authorized_operation_def audit_def same_rate_def split: option.splits prod.splits result.splits)

lemma https_step_rate:
  assumes "https_step ul hl call now b = (ok, b')"
  shows "\<not> ok \<and> same_rate b b'
    \<or> (\<exists>b1 b2 reserved. same_rate b b1 \<and> reserve_https_rate now b1 = (reserved, b2) \<and> same_rate b2 b'
         \<and> (ok \<longrightarrow> reserved))"
proof -
  obtain t cid query where call: "call = (t, cid, query)" by (cases call)
  let ?detail = "''operation=https template='' @ decimal (length t) @ ''B connection='' @ decimal (unat cid)"
  show ?thesis
  proof (cases "br_https b")
    case None
    have "same_rate b (snd (authorize_existing_grant NetworkHttps
        (''https template='' @ decimal (length t) @ ''B service=unconfigured'') b))"
      by (simp add: authorize_existing_grant_def authorize_rate)
    with None assms show ?thesis
      by (auto simp: https_step_def call submit_https_def audit_def same_rate_def split: prod.splits result.splits)
  next
    case (Some https)
    obtain res events where prep: "https_prepare ul hl https t cid query = (res, events)" by force
    let ?b = "b\<lparr>br_health := br_health b @ events\<rparr>"
    show ?thesis
    proof (cases res)
      case (Err e)
      with Some assms prep show ?thesis by (auto simp: https_step_def call submit_https_def same_rate_def)
    next
      case (Ok p)
      let ?f = "\<lambda>b1. case reserve_https_rate now b1 of
          (False, b2) \<Rightarrow> (Err (SubmitPermissionDenied QuotaExceeded),
                          audit NetworkHttps False (Some QuotaExceeded) ''https rate-limit'' b2)
        | (True, b2) \<Rightarrow> submit_authorized_operation now NetworkHttps (ph_timeout p) b2"
      have eq: "submit_https ul hl now t cid query b
          = guarded NetworkHttps (Some (ph_request_params p)) ?detail SubmitPermissionDenied ?f ?b"
        by (simp add: submit_https_def Some prep Ok)
      show ?thesis
      proof (cases rule: guarded_cases [of NetworkHttps "Some (ph_request_params p)" ?detail SubmitPermissionDenied ?f ?b])
        case (denied reason b1)
        with assms show ?thesis by (auto simp: https_step_def call eq same_rate_def)
      next
        case (allowed b1)
        obtain reserved b2 where reserve: "reserve_https_rate now b1 = (reserved, b2)" by force
        have b1: "same_rate b b1" using allowed(2) by (simp add: same_rate_def)
        have out: "https_step ul hl call now b = (case ?f b1 of (res, b') \<Rightarrow> (is_ok res, b'))"
          by (simp only: https_step_def call eq allowed(1) prod.case)
        have "same_rate b2 b' \<and> (ok \<longrightarrow> reserved)"
          using assms [unfolded out] reserve submit_authorized_rate [of b2 now NetworkHttps "ph_timeout p"]
          by (cases reserved) (auto simp: same_rate_def audit_def split: prod.splits)
        with b1 reserve show ?thesis by blast
      qed
    qed
  qed
qed

text \<open>One step of the fixed window, over the three fields that hold it.\<close>

definition rate_step :: "nat \<Rightarrow> bool \<Rightarrow> broker \<Rightarrow> broker \<Rightarrow> bool" where
  "rate_step now ok b b' \<longleftrightarrow> br_https_rate_max b' = br_https_rate_max b
     \<and> (br_rate_started b' = br_rate_started b \<and> unat (br_rate_used b) + of_bool ok \<le> unat (br_rate_used b')
        \<or> br_rate_started b \<noteq> now \<and> br_rate_started b + seconds 60 \<le> now \<and> br_rate_started b' = now
          \<and> of_bool ok \<le> unat (br_rate_used b'))
     \<and> (ok \<longrightarrow> unat (br_rate_used b') \<le> unat (br_https_rate_max b))"

lemma reserve_rate_step:
  assumes "reserve_https_rate now b = (ok, b')"
  shows "rate_step now ok b b'"
proof (cases "seconds 60 \<le> now - br_rate_started b")
  case True
  from window_rollover [OF this] have new: "br_rate_started b \<noteq> now" "br_rate_started b + seconds 60 \<le> now" by auto
  have "br_https_rate_max b \<noteq> 0 \<Longrightarrow> 1 \<le> unat (br_https_rate_max b)" by (simp add: unat_gt_0 Suc_le_eq)
  with True new assms show ?thesis
    by (auto simp: reserve_https_rate_def Let_def rate_step_def not_le split: if_splits)
next
  case False
  have less: "unat (br_rate_used b + 1) = Suc (unat (br_rate_used b)) \<and> Suc (unat (br_rate_used b)) \<le> unat (br_https_rate_max b)"
    if "br_rate_used b < br_https_rate_max b"
    using that by (simp add: unat_Suc_less word_less_nat_alt)
  with False assms show ?thesis
    by (auto simp: reserve_https_rate_def Let_def rate_step_def not_le less split: if_splits)
qed

lemma https_step_window:
  assumes "https_step ul hl call now b = (ok, b')"
  shows "rate_step now ok b b'"
  using https_step_rate [OF assms]
proof (elim disjE exE conjE)
  fix b1 b2 reserved
  assume "same_rate b b1" "reserve_https_rate now b1 = (reserved, b2)" "same_rate b2 b'" "ok \<longrightarrow> reserved"
  then show ?thesis
    using reserve_rate_step [of now b1 reserved b2] by (cases ok; cases reserved) (auto simp: rate_step_def same_rate_def)
qed (simp add: rate_step_def same_rate_def)

text \<open>The submissions a run accepts.\<close>

abbreviation https_accepted :: "'u url_lib \<Rightarrow> header_lib \<Rightarrow> (https_call \<times> nat) list \<Rightarrow> broker \<Rightarrow> nat" where
  "https_accepted ul hl \<equiv> fixed_window.admitted (https_step ul hl)"

interpretation https: fixed_window br_rate_started "\<lambda>b. unat (br_rate_used b)"
  "\<lambda>b. unat (br_https_rate_max b)" "seconds 60" "https_step ul hl" for ul :: "'u url_lib" and hl
proof
  show "0 < seconds 60" by (simp add: seconds_def)
next
  fix call now b ok b' assume step: "https_step ul hl call now b = (ok, b')"
  note window = https_step_window [OF step, unfolded rate_step_def]
  show "unat (br_https_rate_max b') = unat (br_https_rate_max b)" using window by simp
  show "unat (br_rate_used b) + of_bool ok \<le> unat (br_rate_used b')" if "br_rate_started b' = br_rate_started b"
    using window that by auto
  show "br_rate_started b' = now \<and> br_rate_started b + seconds 60 \<le> now \<and> of_bool ok \<le> unat (br_rate_used b')"
    if "br_rate_started b' \<noteq> br_rate_started b"
    using window that by auto
next
  fix call now b b' assume "https_step ul hl call now b = (True, b')"
  from https_step_window [OF this] show "unat (br_rate_used b') \<le> unat (br_https_rate_max b)"
    by (simp add: rate_step_def)
qed

text \<open>Whatever an instance submits, at most twice the HTTPS rate of its grant is accepted in any
  minute, and at most the rate in a minute that begins no later than the broker's current window.\<close>

theorem https_rate_bounded:
  assumes "\<forall>(call, now) \<in> set calls. t \<le> now \<and> now < t + seconds 60"
  shows "https_accepted ul hl calls b \<le> 2 * unat (br_https_rate_max b)
    \<and> (t \<le> br_rate_started b \<longrightarrow> https_accepted ul hl calls b \<le> unat (br_https_rate_max b))"
  using https.admitted_le [OF assms] https.admitted_fresh [OF assms] by blast

lemma https_rate_bounded_witness:
  "https_accepted example_url_lib example_header_lib [((''feed'', 1, []), 5)] example_broker \<le> 0"
  using https_rate_bounded [of "[((''feed'', 1, []), 5)]" 0 example_url_lib example_header_lib example_broker]
  by (simp add: seconds_def example_broker_def broker_new_def merge_inherent_example Let_def)
    (simp add: example_grant_def default_quota_def)

text \<open>Two calls that differ in a stored value or a logged message only, of the same length.\<close>

fun same_shape :: "broker_call \<Rightarrow> broker_call \<Rightarrow> bool" where
  "same_shape (CallStorageSet key val) (CallStorageSet key' val') = (key = key' \<and> length val = length val')"
| "same_shape (CallLog now level msg) (CallLog now' level' msg') =
     (now = now' \<and> level = level' \<and> char_count msg = char_count msg')"
| "same_shape call call' = (call = call')"

text \<open>The audit log is redacted: two calls that differ only in the value they store or the message
  they log, but not in its length, append the same entries.\<close>

theorem audit_is_redacted:
  assumes "same_shape call call'"
    and "broker_exec ul hl rnd call b = Some b1" and "broker_exec ul hl rnd call' b = Some b2"
  shows "br_audit b1 = br_audit b2"
proof (cases "call = call'")
  case False
  with assms(1) consider (set) key val val' where "call = CallStorageSet key val" "call' = CallStorageSet key val'"
        "length val = length val'"
    | (log) now level msg msg' where "call = CallLog now level msg" "call' = CallLog now level msg'"
        "char_count msg = char_count msg'"
    by (cases "(call, call')" rule: same_shape.cases) auto
  then show ?thesis
  proof cases
    case set
    with assms(2,3) show ?thesis
      by (auto simp: broker_storage_set_def split: result.splits prod.splits)
  next
    case log
    with assms(2,3) show ?thesis
      by (auto simp: broker_log_def guarded_def redact_size_def split: result.splits prod.splits)
  qed
qed (use assms in simp)

lemma audit_is_redacted_witness:
  "\<exists>b1 b2. broker_exec example_url_lib example_header_lib id (CallStorageSet ''a'' ''xyz'') example_broker = Some b1
     \<and> broker_exec example_url_lib example_header_lib id (CallStorageSet ''a'' ''uvw'') example_broker = Some b2
     \<and> br_audit b1 = br_audit b2"
proof -
  have wf: "storage_wf (br_storage example_broker)" by (simp add: example_broker_simps storage_wf_new)
  obtain b1 where b1: "broker_exec example_url_lib example_header_lib id (CallStorageSet ''a'' ''xyz'') example_broker = Some b1"
    using broker_exec_storage [OF wf, of "CallStorageSet ''a'' ''xyz''" example_url_lib example_header_lib id]
    by (auto simp: storage_call_ok_def simp del: broker_exec.simps)
  obtain b2 where b2: "broker_exec example_url_lib example_header_lib id (CallStorageSet ''a'' ''uvw'') example_broker = Some b2"
    using broker_exec_storage [OF wf, of "CallStorageSet ''a'' ''uvw''" example_url_lib example_header_lib id]
    by (auto simp: storage_call_ok_def simp del: broker_exec.simps)
  have "same_shape (CallStorageSet ''a'' ''xyz'') (CallStorageSet ''a'' ''uvw'')" by simp
  from audit_is_redacted [OF this b1 b2] b1 b2 show ?thesis by blast
qed

end
