(* ===== verification/Instance_Model.thy ===== *)
theory Instance_Model
  imports Json Manifest Install_Digest
begin

text \<open>
  Persisted plugin instances, \<open>floatile-core/src/instance.rs\<close>, with the metadata of an
  installation from \<open>install.rs\<close>.  \<open>semver_parse\<close>, the serializer \<open>json_bytes\<close> and the JSON
  Schema validator are third-party code and arguments of the definitions.  A digest is its 32
  bytes.  The lemmas give the bounds a configuration satisfies, what an accepted schema may
  reference, and that restoring an instance a second time returns it.
\<close>

section \<open>Installations\<close>

datatype instance_error =
    InvalidPluginIdRef string
  | InvalidVersion string
  | InvalidDigest
  | ConfigRootNotObject
  | ConfigTooLarge nat nat
  | ConfigTooDeep nat nat
  | InvalidConfigSchema
  | ConfigSchemaMismatch "string list"
  | InvalidDesiredState string
  | TimestampOrder u64 u64

definition digest_from_hex :: "string \<Rightarrow> (string, instance_error) result" where
  "digest_from_hex val =
     try_bind (ok_or InvalidDigest (hex_decode val))
       (\<lambda>bytes. if length bytes = 32 then Ok bytes else Err InvalidDigest)"

datatype installation_trust = Unsigned | Trusted

record install_meta =
  im_manifest_version :: u32
  im_id :: string
  im_version :: string
  im_engine_api_version :: string
  im_ui_api_version :: string
  im_installed_at :: u64
  im_source :: string
  im_trust :: installation_trust
  im_files :: "(string, string) btree"
  im_digest :: string

record installation_ref =
  ir_plugin :: string
  ir_version :: string
  ir_digest :: string

definition installation_ref_new ::
  "(string \<Rightarrow> 'v option) \<Rightarrow> string \<Rightarrow> string \<Rightarrow> string \<Rightarrow> (installation_ref, instance_error) result"
where
  "installation_ref_new semver_parse plugin version digest =
     try_bind (map_err (\<lambda>_. InvalidPluginIdRef plugin) (validate_plugin_id plugin)) (\<lambda>_.
     if semver_parse version = None then Err (InvalidVersion version)
     else Ok \<lparr>ir_plugin = plugin, ir_version = version, ir_digest = digest\<rparr>)"

definition installation_ref_from_meta ::
  "(string \<Rightarrow> 'v option) \<Rightarrow> install_meta \<Rightarrow> (installation_ref, instance_error) result"
where
  "installation_ref_from_meta semver_parse m =
     try_bind (digest_from_hex (im_digest m)) (installation_ref_new semver_parse (im_id m) (im_version m))"

definition installation_ref_validate ::
  "(string \<Rightarrow> 'v option) \<Rightarrow> installation_ref \<Rightarrow> (unit, instance_error) result"
where
  "installation_ref_validate semver_parse r =
     try_bind (installation_ref_new semver_parse (ir_plugin r) (ir_version r) (ir_digest r)) (\<lambda>_. Ok ())"

section \<open>Configurations\<close>

definition MAX_INSTANCE_CONFIG_BYTES :: nat where
  "MAX_INSTANCE_CONFIG_BYTES = 64 * 1024"

definition MAX_INSTANCE_CONFIG_DEPTH :: nat where
  "MAX_INSTANCE_CONFIG_DEPTH = 16"

text \<open>\<open>max().unwrap_or(depth)\<close> over the depths of the members.\<close>

fun value_depth :: "json \<Rightarrow> nat \<Rightarrow> nat"
  and object_depth :: "(string \<times> json) list \<Rightarrow> nat \<Rightarrow> nat"
  and array_depth :: "json list \<Rightarrow> nat \<Rightarrow> nat" where
  "value_depth (JObj m) depth = object_depth m depth"
| "value_depth (JArr vs) depth = array_depth vs depth"
| "value_depth _ depth = depth"
| "object_depth [] depth = depth"
| "object_depth [(_, v)] depth = value_depth v (depth + 1)"
| "object_depth ((_, v) # e # m) depth = max (value_depth v (depth + 1)) (object_depth (e # m) depth)"
| "array_depth [] depth = depth"
| "array_depth [v] depth = value_depth v (depth + 1)"
| "array_depth (v # w # vs) depth = max (value_depth v (depth + 1)) (array_depth (w # vs) depth)"

text \<open>\<open>json_bytes\<close> is \<open>serde_json::to_vec\<close>, which does not fail on a JSON value.\<close>

definition config_new :: "(json \<Rightarrow> string) \<Rightarrow> json \<Rightarrow> (json_map, instance_error) result" where
  "config_new json_bytes val =
     (case val of
        JObj m \<Rightarrow>
          (let size = length (json_bytes (JObj m)); depth = object_depth m 1
           in if MAX_INSTANCE_CONFIG_BYTES < size then Err (ConfigTooLarge size MAX_INSTANCE_CONFIG_BYTES)
              else if MAX_INSTANCE_CONFIG_DEPTH < depth then Err (ConfigTooDeep depth MAX_INSTANCE_CONFIG_DEPTH)
              else Ok m)
      | _ \<Rightarrow> Err ConfigRootNotObject)"

definition reference_key :: "string \<Rightarrow> bool" where
  "reference_key key \<longleftrightarrow> key \<in> {''$ref'', ''$dynamicRef'', ''$recursiveRef''}"

definition local_reference :: "json \<Rightarrow> bool" where
  "local_reference v = (case as_str v of None \<Rightarrow> False | Some s \<Rightarrow> starts_with s ''#'')"

fun schema_contains_external_reference :: "json \<Rightarrow> bool" where
  "schema_contains_external_reference (JArr items) = list_ex schema_contains_external_reference items"
| "schema_contains_external_reference (JObj m) =
     list_ex (\<lambda>(key, val). (reference_key key \<and> \<not> local_reference val)
                \<or> schema_contains_external_reference val) m"
| "schema_contains_external_reference _ = False"

text \<open>
  \<open>validator_for\<close> is the third-party validator: no validator for an invalid schema, and for a
  value the instance paths of its errors in order.
\<close>

definition config_validate_schema ::
  "(json \<Rightarrow> (json \<Rightarrow> string list) option) \<Rightarrow> json_map \<Rightarrow> json \<Rightarrow> (unit, instance_error) result"
where
  "config_validate_schema validator_for config schema =
     (if schema_contains_external_reference schema then Err InvalidConfigSchema
      else case validator_for schema of
        None \<Rightarrow> Err InvalidConfigSchema
      | Some errors \<Rightarrow>
          (case errors (JObj config) of
             [] \<Rightarrow> Ok ()
           | paths \<Rightarrow> Err (ConfigSchemaMismatch (map (\<lambda>p. if p = [] then ''/'' else p) (take 8 paths)))))"

section \<open>Instances\<close>

datatype desired_state = DesiredStopped | DesiredRunning

fun desired_as_str :: "desired_state \<Rightarrow> string" where
  "desired_as_str DesiredStopped = ''stopped''"
| "desired_as_str DesiredRunning = ''running''"

definition desired_parse :: "string \<Rightarrow> (desired_state, instance_error) result" where
  "desired_parse s =
     (if s = ''stopped'' then Ok DesiredStopped
      else if s = ''running'' then Ok DesiredRunning
      else Err (InvalidDesiredState s))"

record plugin_instance =
  pi_id :: u64
  pi_installation :: installation_ref
  pi_config :: json_map
  pi_desired :: desired_state
  pi_generation :: u64
  pi_created_at :: u64
  pi_updated_at :: u64

definition instance_restore ::
  "(string \<Rightarrow> 'v option) \<Rightarrow> u64 \<Rightarrow> installation_ref \<Rightarrow> json_map \<Rightarrow> desired_state \<Rightarrow> u64 \<Rightarrow> u64 \<Rightarrow> u64
     \<Rightarrow> (plugin_instance, instance_error) result"
where
  "instance_restore semver_parse iid installation config desired generation created updated =
     try_bind (installation_ref_validate semver_parse installation) (\<lambda>_.
     if updated < created then Err (TimestampOrder created updated)
     else Ok \<lparr>pi_id = iid, pi_installation = installation, pi_config = config, pi_desired = desired,
              pi_generation = generation, pi_created_at = created, pi_updated_at = updated\<rparr>)"

section \<open>Bounds of configurations and references of schemas\<close>

text \<open>The nesting of a value: the length of its longest path of members.\<close>

fun json_height :: "json \<Rightarrow> nat" where
  "json_height (JObj m) = foldr max (map (\<lambda>e. Suc (json_height (snd e))) m) 0"
| "json_height (JArr vs) = foldr max (map (\<lambda>v. Suc (json_height v)) vs) 0"
| "json_height _ = 0"

lemma depth_height:
  "value_depth v d = d + json_height v"
  "object_depth m d = d + json_height (JObj m)"
  "array_depth vs d = d + json_height (JArr vs)"
proof (induction v d and m d and vs d rule: value_depth_object_depth_array_depth.induct)
qed (simp_all add: max_add_distrib_right)

text \<open>The values nested in a value, itself included.\<close>

inductive json_nested :: "json \<Rightarrow> json \<Rightarrow> bool" where
  nested_refl: "json_nested v v"
| nested_arr: "v \<in> set vs \<Longrightarrow> json_nested w v \<Longrightarrow> json_nested w (JArr vs)"
| nested_obj: "(k, v) \<in> set m \<Longrightarrow> json_nested w v \<Longrightarrow> json_nested w (JObj m)"

lemma no_external_reference_nested:
  "json_nested w v \<Longrightarrow> \<not> schema_contains_external_reference v \<Longrightarrow> \<not> schema_contains_external_reference w"
  by (induction rule: json_nested.induct) (auto simp: list_ex_iff)

lemma restore_Ok_iff:
  "instance_restore semver_parse i r c d g cr u = Ok p \<longleftrightarrow>
     validate_plugin_id (ir_plugin r) = Ok () \<and> semver_parse (ir_version r) \<noteq> None \<and> cr \<le> u
     \<and> p = \<lparr>pi_id = i, pi_installation = r, pi_config = c, pi_desired = d, pi_generation = g,
            pi_created_at = cr, pi_updated_at = u\<rparr>"
  by (auto simp: instance_restore_def installation_ref_validate_def installation_ref_new_def not_less)

lemma desired_parse_as_str [simp]: "desired_parse (desired_as_str d) = Ok d"
  by (cases d) (simp_all add: desired_parse_def)

text \<open>A configuration is accepted exactly if it is an object of at most 64 KiB whose members nest at
  most fifteen deep, and a schema it validates against makes the host fetch nothing: every reference
  in it, at any depth, is a fragment of the same document.\<close>

theorem config_accepted_iff_bounded:
  "(config_new json_bytes v = Ok m \<longleftrightarrow>
      v = JObj m \<and> length (json_bytes (JObj m)) \<le> 65536 \<and> json_height (JObj m) \<le> 15)
   \<and> (config_validate_schema validator_for m schema = Ok () \<longrightarrow>
        (\<forall>o' k w. json_nested (JObj o') schema \<longrightarrow> (k, w) \<in> set o' \<longrightarrow>
           k \<in> {''$ref'', ''$dynamicRef'', ''$recursiveRef''} \<longrightarrow> (\<exists>s. w = JStr (''#'' @ s))))"
proof (intro conjI impI allI)
  show "config_new json_bytes v = Ok m \<longleftrightarrow>
      v = JObj m \<and> length (json_bytes (JObj m)) \<le> 65536 \<and> json_height (JObj m) \<le> 15"
    by (auto simp: config_new_def Let_def depth_height MAX_INSTANCE_CONFIG_BYTES_def MAX_INSTANCE_CONFIG_DEPTH_def
        not_less simp del: json_height.simps split: json.splits if_splits)
next
  fix o' k w
  assume ok: "config_validate_schema validator_for m schema = Ok ()" and nested: "json_nested (JObj o') schema"
    and member: "(k, w) \<in> set o'" and ref: "k \<in> {''$ref'', ''$dynamicRef'', ''$recursiveRef''}"
  from ok have "\<not> schema_contains_external_reference schema"
    by (auto simp: config_validate_schema_def split: if_splits)
  from no_external_reference_nested [OF nested this] member ref have "local_reference w"
    by (auto simp: list_ex_iff reference_key_def)
  then show "\<exists>s. w = JStr (''#'' @ s)"
    by (auto simp: local_reference_def starts_with_iff split: option.splits)
qed

lemma config_accepted_iff_bounded_witness:
  "config_new (\<lambda>_. ''{}'') (JObj []) = Ok [] \<and> config_validate_schema (\<lambda>_. Some (\<lambda>_. [])) [] (JObj [(''$ref'', JStr ''#a'')]) = Ok ()
   \<and> (\<exists>s. JStr ''#a'' = JStr (''#'' @ s))"
proof (intro conjI)
  show ok: "config_new (\<lambda>_. ''{}'') (JObj []) = Ok []"
    using config_accepted_iff_bounded [of "\<lambda>_. ''{}''" "JObj []" "[]" "\<lambda>_. None" JNull] by simp
  show valid: "config_validate_schema (\<lambda>_. Some (\<lambda>_. [])) [] (JObj [(''$ref'', JStr ''#a'')]) = Ok ()"
    by (simp add: config_validate_schema_def local_reference_def starts_with_def)
  have "\<forall>o' k w. json_nested (JObj o') (JObj [(''$ref'', JStr ''#a'')]) \<longrightarrow> (k, w) \<in> set o' \<longrightarrow>
           k \<in> {''$ref'', ''$dynamicRef'', ''$recursiveRef''} \<longrightarrow> (\<exists>s. w = JStr (''#'' @ s))"
    using config_accepted_iff_bounded [of "\<lambda>_. ''{}''" "JObj []" "[]" "\<lambda>_. Some (\<lambda>_. [])"
        "JObj [(''$ref'', JStr ''#a'')]"] valid by blast
  then show "\<exists>s. JStr ''#a'' = JStr (''#'' @ s)"
    by (meson insertI1 list.set_intros(1) nested_refl)
qed

end
