(* ===== verification/Floats.thy ===== *)
theory Floats
  imports Floatile_Prelude "HOL-Library.Log_Nat"
begin

text \<open>
  IEEE 754 arithmetic as Rust's \<open>f32\<close> and \<open>f64\<close> perform it: the exact result, rounded to the
  nearest representable value, ties to even, with overflow to infinity.  \<open>ieee_round_int\<close>: whole
  numbers below the precision are represented exactly, so sums of whole pixels are exact.
\<close>

section \<open>Rounding\<close>

text \<open>The floor of the binary logarithm of a positive rational.\<close>

definition rat_log2 :: "rat \<Rightarrow> int" where
  "rat_log2 x = (if 1 \<le> x then bitlen \<lfloor>x\<rfloor> - 1 else - bitlen (\<lceil>1 / x\<rceil> - 1))"

definition round_half_even :: "rat \<Rightarrow> int" where
  "round_half_even x =
     (let d = x - of_int \<lfloor>x\<rfloor>
      in if d < 1 / 2 then \<lfloor>x\<rfloor>
         else if 1 / 2 < d then \<lfloor>x\<rfloor> + 1
         else if even \<lfloor>x\<rfloor> then \<lfloor>x\<rfloor> else \<lfloor>x\<rfloor> + 1)"

text \<open>\<open>prec\<close> bits of precision, \<open>qmin\<close> the exponent of the last place of a subnormal, \<open>emax\<close> the largest exponent.\<close>

definition ieee_round :: "int \<Rightarrow> int \<Rightarrow> int \<Rightarrow> rat \<Rightarrow> ieee" where
  "ieee_round prec qmin emax r =
     (if r = 0 then Fin 0
      else let q = max (rat_log2 \<bar>r\<bar> - (prec - 1)) qmin;
               v = of_int (round_half_even (\<bar>r\<bar> * 2 powi (- q))) * 2 powi q
           in if 2 powi (emax + 1) \<le> v then Infinity (r < 0) else Fin (sgn r * v))"

definition f32_round :: "rat \<Rightarrow> ieee" where
  "f32_round = ieee_round 24 (- 149) 127"

definition f64_round :: "rat \<Rightarrow> ieee" where
  "f64_round = ieee_round 53 (- 1074) 1023"

section \<open>Operations\<close>

fun ieee_add :: "(rat \<Rightarrow> ieee) \<Rightarrow> ieee \<Rightarrow> ieee \<Rightarrow> ieee" where
  "ieee_add rnd (Fin a) (Fin b) = rnd (a + b)"
| "ieee_add rnd (Fin a) (Infinity n) = Infinity n"
| "ieee_add rnd (Infinity n) (Fin b) = Infinity n"
| "ieee_add rnd (Infinity n) (Infinity m) = (if n = m then Infinity n else NotANumber)"
| "ieee_add rnd NotANumber y = NotANumber"
| "ieee_add rnd x NotANumber = NotANumber"

fun ieee_neg :: "ieee \<Rightarrow> ieee" where
  "ieee_neg (Fin a) = Fin (- a)"
| "ieee_neg (Infinity n) = Infinity (\<not> n)"
| "ieee_neg NotANumber = NotANumber"

definition ieee_sub :: "(rat \<Rightarrow> ieee) \<Rightarrow> ieee \<Rightarrow> ieee \<Rightarrow> ieee" where
  "ieee_sub rnd x y = ieee_add rnd x (ieee_neg y)"

fun ieee_mul :: "(rat \<Rightarrow> ieee) \<Rightarrow> ieee \<Rightarrow> ieee \<Rightarrow> ieee" where
  "ieee_mul rnd (Fin a) (Fin b) = rnd (a * b)"
| "ieee_mul rnd (Fin a) (Infinity n) = (if a = 0 then NotANumber else Infinity (n \<noteq> (a < 0)))"
| "ieee_mul rnd (Infinity n) (Fin b) = (if b = 0 then NotANumber else Infinity (n \<noteq> (b < 0)))"
| "ieee_mul rnd (Infinity n) (Infinity m) = Infinity (n \<noteq> m)"
| "ieee_mul rnd NotANumber y = NotANumber"
| "ieee_mul rnd x NotANumber = NotANumber"

fun ieee_abs :: "ieee \<Rightarrow> ieee" where
  "ieee_abs (Fin a) = Fin \<bar>a\<bar>"
| "ieee_abs (Infinity n) = Infinity False"
| "ieee_abs NotANumber = NotANumber"

text \<open>\<open>f32::min\<close> ignores a NaN operand.\<close>

definition ieee_min :: "ieee \<Rightarrow> ieee \<Rightarrow> ieee" where
  "ieee_min x y = (if x = NotANumber then y else if y = NotANumber then x else if ieee_lt x y then x else y)"

text \<open>\<open>f32::clamp\<close> panics (\<open>None\<close>) unless the bounds are ordered.\<close>

definition ieee_clamp :: "ieee \<Rightarrow> ieee \<Rightarrow> ieee \<Rightarrow> ieee option" where
  "ieee_clamp x lo hi =
     (if \<not> ieee_le lo hi then None
      else Some (if ieee_lt x lo then lo else if ieee_lt hi x then hi else x))"

section \<open>Whole numbers are exact\<close>

lemma rat_log2_int:
  assumes "0 < n"
  shows "rat_log2 (of_int n) = bitlen n - 1"
  using assms by (simp add: rat_log2_def)

lemma round_half_even_int [simp]: "round_half_even (of_int n) = n"
  by (simp add: round_half_even_def)

lemma bitlen_le: "0 < n \<Longrightarrow> n < 2 ^ k \<Longrightarrow> bitlen n \<le> int k"
  by (simp add: bitlen_le_iff_power)

lemma ieee_round_pos_int:
  assumes pos: "0 < n" and small: "n < 2 ^ nat prec" and bounds: "0 < prec" "qmin \<le> 0" "prec \<le> emax"
  shows "ieee_round prec qmin emax (of_int n) = Fin (of_int n)
    \<and> ieee_round prec qmin emax (- of_int n) = Fin (- of_int n)"
proof -
  let ?q = "max (bitlen n - prec) qmin"
  have "bitlen n \<le> prec" using bitlen_le [OF pos small] bounds by simp
  then have q: "?q \<le> 0" using bounds by simp
  then have scaled: "(of_int n :: rat) * 2 powi (- ?q) = of_int (n * 2 ^ nat (- ?q))"
    by (simp add: power_int_def)
  have unscaled: "of_int (n * 2 ^ nat (- ?q)) * (2 :: rat) powi ?q = of_int n"
  proof -
    have "(2 :: rat) ^ nat (- ?q) * 2 powi ?q = 2 powi (- ?q) * 2 powi ?q"
      using q by (simp add: power_int_def)
    also have "\<dots> = 1" by (simp flip: power_int_add)
    finally show ?thesis by (simp add: mult.assoc)
  qed
  have "(of_int n :: rat) < of_int (2 ^ nat prec)" using small by (simp only: of_int_less_iff)
  also have "\<dots> = 2 powi prec" using bounds by (simp add: power_int_def)
  also have "\<dots> \<le> 2 powi (emax + 1)" using bounds by (intro power_int_increasing) auto
  finally have less: "\<not> (2 :: rat) powi (emax + 1) \<le> of_int n" by simp
  show ?thesis
    using pos less
    by (simp add: ieee_round_def Let_def rat_log2_int scaled unscaled del: of_int_mult of_int_power)
qed

lemma ieee_round_int:
  assumes "\<bar>n\<bar> < 2 ^ nat prec" and "0 < prec" "qmin \<le> 0" "prec \<le> emax"
  shows "ieee_round prec qmin emax (of_int n) = Fin (of_int n)"
proof (cases "n = 0")
  case False
  then have "0 < \<bar>n\<bar>" by simp
  from ieee_round_pos_int [OF this assms] show ?thesis by (cases "0 < n") auto
qed (simp add: ieee_round_def)

lemma f32_round_int: "\<bar>n\<bar> < 2 ^ 24 \<Longrightarrow> f32_round (of_int n) = Fin (of_int n)"
  unfolding f32_round_def by (rule ieee_round_int) auto

lemma f64_round_int: "\<bar>n\<bar> < 2 ^ 53 \<Longrightarrow> f64_round (of_int n) = Fin (of_int n)"
  unfolding f64_round_def by (rule ieee_round_int) auto

end
