(* ===== verification/Layout.thy ===== *)
theory Layout
  imports Floats Manifest
begin

text \<open>
  Window layouts, \<open>floatile-core/src/layout.rs\<close> and the geometry of \<open>types.rs\<close>: the validation of
  a stored layout and its recovery on the monitors that are connected.  Geometry is \<open>f32\<close>, the
  scale factor \<open>f64\<close>, with the rounding of \<open>Floats\<close>.  \<open>f32::clamp\<close> panics when its bounds are
  not ordered; \<open>recover_layout\<close> therefore returns \<open>None\<close> for a panic.
\<close>

section \<open>Geometry\<close>

record physical_size =
  ps_width :: u32
  ps_height :: u32

record logical_position =
  lp_x :: ieee
  lp_y :: ieee

record logical_rect =
  lr_position :: logical_position
  lr_size :: logical_size

datatype widget_mode = Edit | Show

fun mode_toggle :: "widget_mode \<Rightarrow> widget_mode" where
  "mode_toggle Edit = Show"
| "mode_toggle Show = Edit"

definition scale_factor_new :: "ieee \<Rightarrow> (ieee, ieee) result" where
  "scale_factor_new val = (if ieee_finite val \<and> ieee_lt (Fin 0) val then Ok val else Err val)"

record size_constraints =
  sc_min :: logical_size
  sc_max :: logical_size

definition ordered :: "ieee \<Rightarrow> ieee \<Rightarrow> ieee \<times> ieee" where
  "ordered a b = (if ieee_le a b then (a, b) else (b, a))"

definition size_constraints_new :: "logical_size \<Rightarrow> logical_size \<Rightarrow> size_constraints" where
  "size_constraints_new lo hi =
     (let (w1, w2) = ordered (ls_width lo) (ls_width hi);
          (h1, h2) = ordered (ls_height lo) (ls_height hi)
      in \<lparr>sc_min = \<lparr>ls_width = w1, ls_height = h1\<rparr>, sc_max = \<lparr>ls_width = w2, ls_height = h2\<rparr>\<rparr>)"

definition size_clamp :: "size_constraints \<Rightarrow> logical_size \<Rightarrow> logical_size option" where
  "size_clamp c s =
     Option.bind (ieee_clamp (ls_width s) (ls_width (sc_min c)) (ls_width (sc_max c)))
       (\<lambda>w. Option.bind (ieee_clamp (ls_height s) (ls_height (sc_min c)) (ls_height (sc_max c)))
         (\<lambda>h. Some \<lparr>ls_width = w, ls_height = h\<rparr>))"

section \<open>Stored layouts\<close>

record widget_layout =
  wl_instance :: u64
  wl_plugin :: string
  wl_monitor_key :: "string option"
  wl_rect :: logical_rect
  wl_physical :: physical_size
  wl_scale :: ieee
  wl_lost_monitor :: bool
  wl_z :: u32
  wl_mode :: widget_mode
  wl_version :: u32
  wl_updated_at :: u64

definition LAYOUT_RECORD_VERSION :: u32 where
  "LAYOUT_RECORD_VERSION = 1"

datatype layout_validation_error =
    InvalidLayoutVersion
  | LayoutEmptyMonitorKey
  | NonFiniteGeometry
  | NonPositiveSize
  | NonPositivePhysicalSize
  | InconsistentPhysicalSize
  | LostMonitorWithoutKey
  | ZeroZ

definition rect_finite :: "logical_rect \<Rightarrow> bool" where
  "rect_finite r \<longleftrightarrow> ieee_finite (lp_x (lr_position r)) \<and> ieee_finite (lp_y (lr_position r))
     \<and> ieee_finite (ls_width (lr_size r)) \<and> ieee_finite (ls_height (lr_size r))"

definition rect_non_positive :: "logical_rect \<Rightarrow> bool" where
  "rect_non_positive r \<longleftrightarrow> ieee_le (ls_width (lr_size r)) (Fin 0) \<or> ieee_le (ls_height (lr_size r)) (Fin 0)"

text \<open>One dimension: the logical length times the scale must be within one pixel of the physical length.\<close>

definition physical_mismatch :: "ieee \<Rightarrow> ieee \<Rightarrow> u32 \<Rightarrow> bool" where
  "physical_mismatch len scale physical =
     (let expected = ieee_mul f64_round len scale
      in \<not> ieee_finite expected
         \<or> ieee_lt (Fin 1) (ieee_abs (ieee_sub f64_round expected (Fin (of_nat (unat physical))))))"

definition layout_validate :: "widget_layout \<Rightarrow> (unit, layout_validation_error) result" where
  "layout_validate l =
     (if wl_version l \<noteq> LAYOUT_RECORD_VERSION then Err InvalidLayoutVersion
      else if wl_monitor_key l = Some [] then Err LayoutEmptyMonitorKey
      else if \<not> rect_finite (wl_rect l) then Err NonFiniteGeometry
      else if rect_non_positive (wl_rect l) then Err NonPositiveSize
      else if ps_width (wl_physical l) = 0 \<or> ps_height (wl_physical l) = 0 then Err NonPositivePhysicalSize
      else if physical_mismatch (ls_width (lr_size (wl_rect l))) (wl_scale l) (ps_width (wl_physical l))
              \<or> physical_mismatch (ls_height (lr_size (wl_rect l))) (wl_scale l) (ps_height (wl_physical l))
      then Err InconsistentPhysicalSize
      else if wl_lost_monitor l \<and> wl_monitor_key l = None then Err LostMonitorWithoutKey
      else if wl_z l = 0 then Err ZeroZ
      else Ok ())"

section \<open>Recovery\<close>

record monitor_layout =
  ml_key :: string
  ml_bounds :: logical_rect
  ml_scale :: ieee
  ml_primary :: bool

record recovered_layout =
  rl_monitor :: monitor_layout
  rl_rect :: logical_rect
  rl_lost_monitor :: bool

datatype layout_recovery_error =
    InvalidLayout layout_validation_error
  | NoMonitors
  | EmptyMonitorKey string
  | NonFiniteMonitorBounds string
  | NonPositiveMonitorSize string
  | MissingPrimary
  | MultiplePrimary
  | DuplicateMonitorKey string
  | NonFiniteRecoveredGeometry

text \<open>The loop over the monitors: those seen so far and the primary one among them.\<close>

definition check_monitor ::
  "monitor_layout \<Rightarrow> monitor_layout list \<times> monitor_layout option
     \<Rightarrow> (monitor_layout list \<times> monitor_layout option, layout_recovery_error) result"
where
  "check_monitor m acc =
     (case acc of (seen, primary) \<Rightarrow>
        if ml_key m = [] then Err (EmptyMonitorKey (ml_key m))
        else if \<not> rect_finite (ml_bounds m) then Err (NonFiniteMonitorBounds (ml_key m))
        else if rect_non_positive (ml_bounds m) then Err (NonPositiveMonitorSize (ml_key m))
        else if list_ex (\<lambda>existing. ml_key existing = ml_key m) seen then Err (DuplicateMonitorKey (ml_key m))
        else if ml_primary m \<and> primary \<noteq> None then Err MultiplePrimary
        else Ok (seen @ [m], if ml_primary m then Some m else primary))"

definition validate_monitor_topology ::
  "monitor_layout list \<Rightarrow> (monitor_layout, layout_recovery_error) result"
where
  "validate_monitor_topology monitors =
     (if monitors = [] then Err NoMonitors
      else try_bind (try_fold check_monitor monitors ([], None)) (\<lambda>acc. ok_or MissingPrimary (snd acc)))"

definition place_on_monitor ::
  "logical_rect \<Rightarrow> logical_rect \<Rightarrow> (logical_rect, layout_recovery_error) result option"
where
  "place_on_monitor saved bounds =
     (let add = ieee_add f32_round; sub = ieee_sub f32_round;
          bx = lp_x (lr_position bounds); by' = lp_y (lr_position bounds);
          w = ieee_min (ls_width (lr_size saved)) (ls_width (lr_size bounds));
          h = ieee_min (ls_height (lr_size saved)) (ls_height (lr_size bounds));
          dx = add bx (lp_x (lr_position saved)); dy = add by' (lp_y (lr_position saved));
          mx = sub (add bx (ls_width (lr_size bounds))) w; my = sub (add by' (ls_height (lr_size bounds))) h
      in if \<not> (ieee_finite dx \<and> ieee_finite dy \<and> ieee_finite mx \<and> ieee_finite my)
         then Some (Err NonFiniteRecoveredGeometry)
         else Option.bind (ieee_clamp dx bx mx) (\<lambda>x. Option.bind (ieee_clamp dy by' my) (\<lambda>y.
                Some (Ok \<lparr>lr_position = \<lparr>lp_x = x, lp_y = y\<rparr>,
                          lr_size = \<lparr>ls_width = w, ls_height = h\<rparr>\<rparr>))))"

definition requested_monitor :: "widget_layout \<Rightarrow> monitor_layout list \<Rightarrow> monitor_layout option" where
  "requested_monitor l monitors =
     Option.bind (wl_monitor_key l) (\<lambda>key. find (\<lambda>m. ml_key m = key) monitors)"

definition recover_layout ::
  "widget_layout \<Rightarrow> monitor_layout list \<Rightarrow> (recovered_layout, layout_recovery_error) result option"
where
  "recover_layout l monitors =
     (case layout_validate l of
        Err e \<Rightarrow> Some (Err (InvalidLayout e))
      | Ok _ \<Rightarrow>
          (case validate_monitor_topology monitors of
             Err e \<Rightarrow> Some (Err e)
           | Ok primary \<Rightarrow>
               (let requested = requested_monitor l monitors;
                    monitor = (case requested of Some m \<Rightarrow> m | None \<Rightarrow> primary)
                in map_option
                     (\<lambda>res. try_bind res (\<lambda>rect. Ok \<lparr>rl_monitor = monitor, rl_rect = rect,
                        rl_lost_monitor = (wl_monitor_key l \<noteq> None \<and> requested = None)\<rparr>))
                     (place_on_monitor (wl_rect l) (ml_bounds monitor)))))"

section \<open>The topology check\<close>

definition topology_ok :: "monitor_layout list \<Rightarrow> monitor_layout option \<Rightarrow> bool" where
  "topology_ok ms primary \<longleftrightarrow> distinct (map ml_key ms)
     \<and> (\<forall>m \<in> set ms. rect_finite (ml_bounds m) \<and> \<not> rect_non_positive (ml_bounds m))
     \<and> filter ml_primary ms = (case primary of Some m \<Rightarrow> [m] | None \<Rightarrow> [])"

lemma check_monitor_ok:
  "check_monitor m (seen, primary) = Ok acc \<Longrightarrow> topology_ok seen primary \<Longrightarrow>
     fst acc = seen @ [m] \<and> topology_ok (fst acc) (snd acc)"
  by ((auto simp: check_monitor_def topology_ok_def list_ex_iff split: if_splits option.splits); blast)

lemma check_monitors_ok:
  "try_fold check_monitor ms (seen, primary) = Ok acc \<Longrightarrow> topology_ok seen primary \<Longrightarrow>
     fst acc = seen @ ms \<and> topology_ok (fst acc) (snd acc)"
proof (induction ms arbitrary: seen primary)
  case (Cons m ms)
  then obtain seen1 primary1 where step: "check_monitor m (seen, primary) = Ok (seen1, primary1)"
    and rest: "try_fold check_monitor ms (seen1, primary1) = Ok acc" by auto
  from check_monitor_ok [OF step Cons.prems(2)] have seen1: "seen1 = seen @ [m]" "topology_ok seen1 primary1"
    by auto
  from Cons.IH [OF rest seen1(2)] show ?case by (auto simp: seen1(1))
qed auto

lemma validate_monitor_topology_ok:
  assumes "validate_monitor_topology ms = Ok p"
  shows "topology_ok ms (Some p)"
  using assms check_monitors_ok [of ms "[]" None]
  by (auto simp: validate_monitor_topology_def topology_ok_def split: if_splits)

lemma topology_primary: "topology_ok ms (Some p) \<Longrightarrow> p \<in> set ms \<and> ml_primary p"
  by (auto simp: topology_ok_def filter_eq_Cons_iff)

section \<open>Whole pixels\<close>

text \<open>Geometry in whole pixels, small enough for exact sums.\<close>

definition whole :: "ieee \<Rightarrow> bool" where
  "whole x \<longleftrightarrow> (\<exists>n. x = Fin (of_int n) \<and> \<bar>n\<bar> < 2 ^ 22)"

definition whole_rect :: "logical_rect \<Rightarrow> bool" where
  "whole_rect r \<longleftrightarrow> whole (lp_x (lr_position r)) \<and> whole (lp_y (lr_position r))
     \<and> whole (ls_width (lr_size r)) \<and> whole (ls_height (lr_size r))"

lemma place_axis:
  fixes p b s w :: int
  assumes "\<bar>p\<bar> < 2 ^ 22" "\<bar>b\<bar> < 2 ^ 22" "\<bar>s\<bar> < 2 ^ 22" "\<bar>w\<bar> < 2 ^ 22" and "0 < s" "0 < w"
  defines "mn \<equiv> ieee_min (Fin (of_int w)) (Fin (of_int s))"
  shows "ieee_add f32_round (Fin (of_int b)) (Fin (of_int p)) = Fin (of_int (b + p))"
    and "mn = Fin (of_int (min w s))"
    and "ieee_sub f32_round (ieee_add f32_round (Fin (of_int b)) (Fin (of_int s))) (Fin (of_int (min w s)))
           = Fin (of_int (b + s - min w s))"
    and "\<exists>x. ieee_clamp (Fin (of_int (b + p))) (Fin (of_int b)) (Fin (of_int (b + s - min w s))) = Some (Fin (of_int x))
           \<and> b \<le> x \<and> x + min w s \<le> b + s \<and> (b \<le> b + p \<and> b + p + min w s \<le> b + s \<longrightarrow> x = b + p)"
proof -
  have small: "\<bar>b + p\<bar> < 2 ^ 24" "\<bar>b + s\<bar> < 2 ^ 24" "\<bar>b + s - min w s\<bar> < 2 ^ 24"
    using assms(1-6) by auto
  show "ieee_add f32_round (Fin (of_int b)) (Fin (of_int p)) = Fin (of_int (b + p))"
    using f32_round_int [OF small(1)] by simp
  show mn: "mn = Fin (of_int (min w s))"
    by (auto simp: mn_def ieee_min_def min_def)
  show "ieee_sub f32_round (ieee_add f32_round (Fin (of_int b)) (Fin (of_int s))) (Fin (of_int (min w s)))
           = Fin (of_int (b + s - min w s))"
    using f32_round_int [OF small(2)] f32_round_int [OF small(3)]
    by (simp add: ieee_sub_def)
  show "\<exists>x. ieee_clamp (Fin (of_int (b + p))) (Fin (of_int b)) (Fin (of_int (b + s - min w s))) = Some (Fin (of_int x))
           \<and> b \<le> x \<and> x + min w s \<le> b + s \<and> (b \<le> b + p \<and> b + p + min w s \<le> b + s \<longrightarrow> x = b + p)"
  proof (intro exI conjI)
    let ?x = "max b (min (b + p) (b + s - min w s))"
    have ord: "b \<le> b + s - min w s" by simp
    then have "(of_int b :: rat) \<le> of_int (b + s - min w s)" by (simp only: of_int_le_iff)
    then show "ieee_clamp (Fin (of_int (b + p))) (Fin (of_int b)) (Fin (of_int (b + s - min w s)))
        = Some (Fin (of_int ?x))"
      by (auto simp: ieee_clamp_def max_def min_def simp flip: of_int_add of_int_diff)
    show "b \<le> ?x" "?x + min w s \<le> b + s" using ord by auto
    show "b \<le> b + p \<and> b + p + min w s \<le> b + s \<longrightarrow> ?x = b + p" by auto
  qed
qed

definition int_rect :: "int \<Rightarrow> int \<Rightarrow> int \<Rightarrow> int \<Rightarrow> logical_rect" where
  "int_rect x y w h =
     \<lparr>lr_position = \<lparr>lp_x = Fin (of_int x), lp_y = Fin (of_int y)\<rparr>,
      lr_size = \<lparr>ls_width = Fin (of_int w), ls_height = Fin (of_int h)\<rparr>\<rparr>"

lemma whole_rect_int:
  assumes "whole_rect r"
  obtains x y w h where "r = int_rect x y w h" "\<bar>x\<bar> < 2 ^ 22" "\<bar>y\<bar> < 2 ^ 22" "\<bar>w\<bar> < 2 ^ 22" "\<bar>h\<bar> < 2 ^ 22"
  using assms unfolding whole_rect_def whole_def int_rect_def
  by (metis (full_types) logical_rect.surjective logical_position.surjective logical_size.surjective old.unit.exhaust)

lemma positive_int_rect: "\<not> rect_non_positive (int_rect x y w h) \<longleftrightarrow> 0 < w \<and> 0 < h"
  by (auto simp: rect_non_positive_def int_rect_def)

lemma place_whole:
  assumes "\<bar>x\<bar> < 2 ^ 22" "\<bar>y\<bar> < 2 ^ 22" "\<bar>w\<bar> < 2 ^ 22" "\<bar>h\<bar> < 2 ^ 22" "0 < w" "0 < h"
    and "\<bar>bx\<bar> < 2 ^ 22" "\<bar>b\<bar> < 2 ^ 22" "\<bar>bw\<bar> < 2 ^ 22" "\<bar>bh\<bar> < 2 ^ 22" "0 < bw" "0 < bh"
  shows "\<exists>x' y'. place_on_monitor (int_rect x y w h) (int_rect bx b bw bh)
      = Some (Ok (int_rect x' y' (min w bw) (min h bh)))
    \<and> bx \<le> x' \<and> x' + min w bw \<le> bx + bw \<and> b \<le> y' \<and> y' + min h bh \<le> b + bh
    \<and> (0 \<le> x \<and> x + w \<le> bw \<longrightarrow> x' = bx + x) \<and> (0 \<le> y \<and> y + h \<le> bh \<longrightarrow> y' = b + y)"
proof -
  note ax = place_axis [OF assms(1,7,9,3,11,5)] and ay = place_axis [OF assms(2,8,10,4,12,6)]
  obtain x' where x': "ieee_clamp (Fin (of_int (bx + x))) (Fin (of_int bx)) (Fin (of_int (bx + bw - min w bw)))
      = Some (Fin (of_int x'))" "bx \<le> x'" "x' + min w bw \<le> bx + bw"
      "bx \<le> bx + x \<and> bx + x + min w bw \<le> bx + bw \<longrightarrow> x' = bx + x"
    using ax(4) by blast
  obtain y' where y': "ieee_clamp (Fin (of_int (b + y))) (Fin (of_int b)) (Fin (of_int (b + bh - min h bh)))
      = Some (Fin (of_int y'))" "b \<le> y'" "y' + min h bh \<le> b + bh"
      "b \<le> b + y \<and> b + y + min h bh \<le> b + bh \<longrightarrow> y' = b + y"
    using ay(4) by blast
  have "place_on_monitor (int_rect x y w h) (int_rect bx b bw bh)
      = Some (Ok (int_rect x' y' (min w bw) (min h bh)))"
    unfolding place_on_monitor_def Let_def int_rect_def logical_rect.simps logical_position.simps
      logical_size.simps ax(1-3) ay(1-3) x'(1) y'(1) by simp
  moreover have "0 \<le> x \<and> x + w \<le> bw \<longrightarrow> x' = bx + x" "0 \<le> y \<and> y + h \<le> bh \<longrightarrow> y' = b + y"
    using x'(4) y'(4) by auto
  ultimately show ?thesis using x' y' by blast
qed

lemma layout_validate_rect:
  "layout_validate l = Ok () \<Longrightarrow> \<not> rect_non_positive (wl_rect l) \<and> rect_finite (wl_rect l)"
  by (auto simp: layout_validate_def split: if_splits)

lemma requested_monitor_cases:
  "requested_monitor l ms = Some m \<Longrightarrow> m \<in> set ms \<and> wl_monitor_key l = Some (ml_key m)"
  "requested_monitor l ms = None \<Longrightarrow> wl_monitor_key l = Some key \<Longrightarrow> key \<notin> ml_key ` set ms"
  by (auto simp: requested_monitor_def find_Some_iff find_None_iff split: option.splits bind_splits)

text \<open>A valid layout in whole pixels is always recovered, on its own monitor if that is connected and on
  the primary one, marked as lost, if not; the window lies inside the monitor, and one that fitted its
  monitor reappears at its saved place and size.\<close>

theorem recovered_window_is_on_monitor:
  assumes valid: "layout_validate l = Ok ()" and top: "validate_monitor_topology ms = Ok primary"
    and rect: "wl_rect l = int_rect x y w h" "whole_rect (wl_rect l)" and ms: "\<forall>m \<in> set ms. whole_rect (ml_bounds m)"
  shows "\<exists>rl bx b bw bh x' y'. recover_layout l ms = Some (Ok rl)
    \<and> rl_monitor rl \<in> set ms \<and> ml_bounds (rl_monitor rl) = int_rect bx b bw bh
    \<and> rl_rect rl = int_rect x' y' (min w bw) (min h bh)
    \<and> bx \<le> x' \<and> x' + min w bw \<le> bx + bw \<and> b \<le> y' \<and> y' + min h bh \<le> b + bh
    \<and> (0 \<le> x \<and> x + w \<le> bw \<longrightarrow> x' = bx + x) \<and> (0 \<le> y \<and> y + h \<le> bh \<longrightarrow> y' = b + y)
    \<and> (case wl_monitor_key l of
         None \<Rightarrow> rl_monitor rl = primary \<and> \<not> rl_lost_monitor rl
       | Some key \<Rightarrow> if key \<in> ml_key ` set ms then ml_key (rl_monitor rl) = key \<and> \<not> rl_lost_monitor rl
                     else rl_monitor rl = primary \<and> rl_lost_monitor rl)"
proof -
  have topology: "topology_ok ms (Some primary)" by (rule validate_monitor_topology_ok [OF top])
  define m where "m = (case requested_monitor l ms of Some m \<Rightarrow> m | None \<Rightarrow> primary)"
  have m: "m \<in> set ms"
    unfolding m_def using topology_primary [OF topology] requested_monitor_cases(1) [of l ms] by (auto split: option.splits)
  obtain bx b bw bh where bounds: "ml_bounds m = int_rect bx b bw bh"
    "\<bar>bx\<bar> < 2 ^ 22" "\<bar>b\<bar> < 2 ^ 22" "\<bar>bw\<bar> < 2 ^ 22" "\<bar>bh\<bar> < 2 ^ 22"
    using ms m whole_rect_int [of "ml_bounds m"] by blast
  have pos: "0 < bw" "0 < bh" "0 < w" "0 < h"
    using topology m layout_validate_rect [OF valid] bounds(1) rect(1) positive_int_rect
    by (auto simp: topology_ok_def)
  have xywh: "\<bar>x\<bar> < 2 ^ 22" "\<bar>y\<bar> < 2 ^ 22" "\<bar>w\<bar> < 2 ^ 22" "\<bar>h\<bar> < 2 ^ 22"
    using rect by (auto simp: whole_rect_def whole_def int_rect_def)
  obtain x' y' where place: "place_on_monitor (wl_rect l) (ml_bounds m)
      = Some (Ok (int_rect x' y' (min w bw) (min h bh)))"
    and inside: "bx \<le> x'" "x' + min w bw \<le> bx + bw" "b \<le> y'" "y' + min h bh \<le> b + bh"
      "0 \<le> x \<and> x + w \<le> bw \<longrightarrow> x' = bx + x" "0 \<le> y \<and> y + h \<le> bh \<longrightarrow> y' = b + y"
    using place_whole [OF xywh pos(3,4) bounds(2-5) pos(1,2)] unfolding rect(1) bounds(1) by blast
  let ?rl = "\<lparr>rl_monitor = m, rl_rect = int_rect x' y' (min w bw) (min h bh),
    rl_lost_monitor = (wl_monitor_key l \<noteq> None \<and> requested_monitor l ms = None)\<rparr>"
  have rec: "recover_layout l ms = Some (Ok ?rl)"
    using valid top place by (simp add: recover_layout_def Let_def flip: m_def)
  have lost: "case wl_monitor_key l of
         None \<Rightarrow> m = primary \<and> requested_monitor l ms = None
       | Some key \<Rightarrow> if key \<in> ml_key ` set ms then ml_key m = key \<and> requested_monitor l ms \<noteq> None
                     else m = primary \<and> requested_monitor l ms = None"
  proof (cases "requested_monitor l ms")
    case None
    then show ?thesis using requested_monitor_cases(2) [OF None] by (auto simp: m_def split: option.splits)
  next
    case (Some n)
    then show ?thesis using requested_monitor_cases(1) [OF Some] by (auto simp: m_def)
  qed
  show ?thesis
  proof (intro exI conjI)
    show "case wl_monitor_key l of
         None \<Rightarrow> rl_monitor ?rl = primary \<and> \<not> rl_lost_monitor ?rl
       | Some key \<Rightarrow> if key \<in> ml_key ` set ms then ml_key (rl_monitor ?rl) = key \<and> \<not> rl_lost_monitor ?rl
                     else rl_monitor ?rl = primary \<and> rl_lost_monitor ?rl"
      using lost by (auto split: option.splits if_splits)
  qed (use rec m bounds(1) inside in simp_all)
qed

definition example_layout :: widget_layout where
  "example_layout = \<lparr>wl_instance = 1, wl_plugin = ''dev.clock'', wl_monitor_key = Some ''edid'',
     wl_rect = int_rect 0 0 7 7, wl_physical = \<lparr>ps_width = 7, ps_height = 7\<rparr>, wl_scale = Fin 1,
     wl_lost_monitor = False, wl_z = 1, wl_mode = Show, wl_version = 1, wl_updated_at = 0\<rparr>"

definition example_monitor :: "int \<Rightarrow> monitor_layout" where
  "example_monitor x = \<lparr>ml_key = ''main'', ml_bounds = int_rect x 0 7 7, ml_scale = Fin 1, ml_primary = True\<rparr>"

lemma physical_match_7: "\<not> physical_mismatch (Fin 7) (Fin 1) 7"
  using f64_round_int [of 7] f64_round_int [of 0] by (simp add: physical_mismatch_def ieee_sub_def)

lemma example_layout_valid: "layout_validate example_layout = Ok ()"
  by (simp add: layout_validate_def example_layout_def LAYOUT_RECORD_VERSION_def rect_finite_def
      rect_non_positive_def int_rect_def physical_match_7)

lemma example_topology: "validate_monitor_topology [example_monitor x] = Ok (example_monitor x)"
  by (simp add: validate_monitor_topology_def check_monitor_def example_monitor_def rect_finite_def
      rect_non_positive_def int_rect_def)

lemma recovered_window_is_on_monitor_witness:
  "\<exists>rl. recover_layout example_layout [example_monitor 100] = Some (Ok rl) \<and> rl_lost_monitor rl"
proof -
  have "whole_rect (wl_rect example_layout)" "\<forall>m \<in> set [example_monitor 100]. whole_rect (ml_bounds m)"
    by (auto simp: whole_rect_def whole_def example_layout_def example_monitor_def int_rect_def
        intro: exI [of _ 0] exI [of _ 7] exI [of _ 100])
  from recovered_window_is_on_monitor [OF example_layout_valid example_topology _ this, of 0 0 7 7]
  show ?thesis by (auto simp: example_layout_def example_monitor_def)
qed

section \<open>Where rounding is not exact\<close>

text \<open>Far from the origin the sums are not exact and the recovery can panic: with a valid topology whose
  monitor begins at 2 to the 27, the upper bound of the clamp rounds below its lower bound.\<close>

theorem recovery_panics_far_from_origin:
  "layout_validate example_layout = Ok ()
   \<and> validate_monitor_topology [example_monitor (2 ^ 27)] = Ok (example_monitor (2 ^ 27))
   \<and> f32_round (2 ^ 27) = Fin (2 ^ 27)
   \<and> recover_layout example_layout [example_monitor (2 ^ 27)] = None"
proof (intro conjI)
  have log27: "bitlen 134217735 = 28" "bitlen 134217728 = 28" "bitlen 134217721 = 27"
    by (simp_all add: compute_bitlen)
  have floors: "\<lfloor>134217735 / 16 :: rat\<rfloor> = 8388608" "\<lfloor>134217721 / 8 :: rat\<rfloor> = 16777215"
    by (rule floor_unique; simp)+
  have up: "f32_round 134217735 = Fin 134217728" "f32_round 134217728 = Fin 134217728"
      "f32_round 134217721 = Fin 134217720"
    by (simp_all add: f32_round_def ieee_round_def Let_def rat_log2_def log27 round_half_even_def power_int_def
        power_divide floors)
  then show "f32_round (2 ^ 27) = Fin (2 ^ 27)" by simp
  have zero: "f32_round 0 = Fin 0" "f32_round 7 = Fin 7"
    using f32_round_int [of 0] f32_round_int [of 7] by simp_all
  show "recover_layout example_layout [example_monitor (2 ^ 27)] = None"
    by (simp add: recover_layout_def example_layout_valid example_topology Let_def requested_monitor_def)
      (simp add: example_layout_def example_monitor_def place_on_monitor_def int_rect_def Let_def ieee_min_def
        ieee_sub_def ieee_clamp_def up zero)
qed (simp_all add: example_layout_valid example_topology)

end
