(* ===== verification/Store_Db.thy ===== *)
theory Store_Db
  imports Instance_Model Connection Layout "HOL-Library.Product_Lexorder"
begin

text \<open>
  The SQLite store, \<open>floatile-store/src/lib.rs\<close>: migrations and the tables of instances,
  connections, connection grants, layouts, audit records and rollbacks.

  The database is a record of tables; a table is a map from its primary key to its rows, whose
  columns hold what SQLite stores: 64-bit integers, reals, texts and blobs.  A statement is a
  function on the tables with its WHERE clause as guard and the CHECK and UNIQUE constraints of
  the schema as failures; a transaction that fails leaves the database unchanged.  \<open>store_lib\<close>
  holds the third-party code: the semantic version parser and the JSON serializer and reader.
\<close>

section \<open>Values and columns\<close>

datatype store_error = StoreOpen | StoreMigration | StoreCorrupt

record 'v store_lib =
  sl_semver :: "string \<Rightarrow> 'v option"
  sl_json_text :: "json \<Rightarrow> string"
  sl_json_read :: "string \<Rightarrow> json option"

definition sqlite_i64 :: "u64 \<Rightarrow> (int, store_error) result" where
  "sqlite_i64 v = (if uint v < 2 ^ 63 then Ok (uint v) else Err StoreCorrupt)"

definition read_u64 :: "int \<Rightarrow> (u64, store_error) result" where
  "read_u64 v = (if 0 \<le> v then Ok (word_of_int v) else Err StoreCorrupt)"

definition read_u32 :: "int \<Rightarrow> (u32, store_error) result" where
  "read_u32 v = (if 0 \<le> v \<and> v < 2 ^ 32 then Ok (word_of_int v) else Err StoreCorrupt)"

definition read_positive_id :: "int \<Rightarrow> (u64, store_error) result" where
  "read_positive_id v = try_bind (read_u64 v) (\<lambda>n. if n = 0 then Err StoreCorrupt else Ok n)"

text \<open>An error of the domain model becomes \<open>StoreError::Corrupt\<close>.\<close>

abbreviation corrupt :: "('a, 'e) result \<Rightarrow> ('a, store_error) result" where
  "corrupt \<equiv> map_err (\<lambda>_. StoreCorrupt)"

record instance_row =
  nr_plugin :: string
  nr_version :: string
  nr_digest :: string
  nr_config :: string
  nr_desired :: string
  nr_generation :: int
  nr_created :: int
  nr_updated :: int

record connection_row =
  kr_provider :: string
  kr_account :: string
  kr_credential :: string
  kr_health :: string
  kr_generation :: int
  kr_created :: int
  kr_updated :: int

record layout_row =
  yr_plugin :: string
  yr_monitor_key :: "string option"
  yr_x :: ieee
  yr_y :: ieee
  yr_w :: ieee
  yr_h :: ieee
  yr_physical_w :: int
  yr_physical_h :: int
  yr_scale :: ieee
  yr_lost :: int
  yr_z :: int
  yr_mode :: string
  yr_version :: int
  yr_updated :: int

record audit_record =
  ar_plugin :: string
  ar_instance :: u64
  ar_capability :: string
  ar_decision :: string
  ar_reason :: "string option"
  ar_detail :: string
  ar_unix_ts :: u64

record audit_row =
  aw_unix_ts :: int
  aw_plugin :: string
  aw_instance :: int
  aw_capability :: string
  aw_decision :: string
  aw_reason :: "string option"
  aw_detail :: string

record rollback_row =
  bw_instance :: int
  bw_plugin :: string
  bw_from :: "string \<times> string"
  bw_target :: "string \<times> string"
  bw_reason :: string
  bw_rolled_back_at :: int

text \<open>The allocators are tables of one row, absent before their migration.\<close>

record db =
  db_user_version :: nat
  db_instances :: "(int, instance_row) btree"
  db_next_instance :: "int option"
  db_connections :: "(int, connection_row) btree"
  db_next_connection :: "int option"
  db_grants :: "(int \<times> int, int) btree"
  db_layouts :: "(int, layout_row) btree"
  db_audit :: "audit_row list"
  db_rollbacks :: "rollback_row list"

section \<open>Migrations\<close>

definition SCHEMA_VERSION :: nat where
  "SCHEMA_VERSION = 8"

text \<open>\<open>MAX(1, CAST(ROUND(w) AS INTEGER))\<close>: ROUND is half away from zero, CAST saturates.\<close>

definition sql_physical :: "ieee \<Rightarrow> int" where
  "sql_physical w =
     max 1 (case w of
              Fin r \<Rightarrow> min (2 ^ 63 - 1) (if 0 \<le> r then \<lfloor>r + 1 / 2\<rfloor> else - \<lfloor>1 / 2 - r\<rfloor>)
            | Infinity neg \<Rightarrow> (if neg then - (2 ^ 63) else 2 ^ 63 - 1)
            | NotANumber \<Rightarrow> 0)"

definition migration_v2_row :: "layout_row \<Rightarrow> layout_row" where
  "migration_v2_row r =
     r\<lparr>yr_scale := Fin 1, yr_lost := 0,
       yr_physical_w := sql_physical (yr_w r), yr_physical_h := sql_physical (yr_h r)\<rparr>"

definition insert_or_ignore :: "int \<Rightarrow> int option \<Rightarrow> int option" where
  "insert_or_ignore v row = (case row of None \<Rightarrow> Some v | Some w \<Rightarrow> Some w)"

text \<open>What the migration to a version does to the rows; the tables it creates start empty.\<close>

definition migration :: "nat \<Rightarrow> db \<Rightarrow> db" where
  "migration v d =
     (if v = 2 then d\<lparr>db_layouts := map (\<lambda>(k, r). (k, migration_v2_row r)) (db_layouts d)\<rparr>
      else if v = 4 then d\<lparr>db_next_instance := insert_or_ignore 2 (db_next_instance d)\<rparr>
      else if v = 5 then d\<lparr>db_next_connection := insert_or_ignore 1 (db_next_connection d)\<rparr>
      else d)\<lparr>db_user_version := v\<rparr>"

definition migrate :: "db \<Rightarrow> (db, store_error) result" where
  "migrate d =
     (if SCHEMA_VERSION < db_user_version d then Err StoreMigration
      else Ok (fold migration [Suc (db_user_version d)..<Suc SCHEMA_VERSION] d))"

definition empty_db :: db where
  "empty_db = \<lparr>db_user_version = 0, db_instances = [], db_next_instance = None, db_connections = [],
     db_next_connection = None, db_grants = [], db_layouts = [], db_audit = [], db_rollbacks = []\<rparr>"

section \<open>Statements\<close>

text \<open>\<open>UPDATE allocator SET next_id = next_id + 1 RETURNING next_id - 1\<close>; past the 64-bit range
  SQLite computes a real, which the reader refuses.\<close>

definition allocate :: "int option \<Rightarrow> (int \<times> int option, store_error) result" where
  "allocate next =
     (case next of
        None \<Rightarrow> Err StoreOpen
      | Some n \<Rightarrow> if n + 1 < 2 ^ 63 then Ok (n, Some (n + 1)) else Err StoreOpen)"

text \<open>An UPDATE of the row with a primary key: its WHERE clause, its SET clause, the constraints.\<close>

definition update_where ::
  "'k::linorder \<Rightarrow> ('r \<Rightarrow> bool) \<Rightarrow> ('r \<Rightarrow> 'r) \<Rightarrow> ('r \<Rightarrow> bool) \<Rightarrow> ('k, 'r) btree
     \<Rightarrow> (bool \<times> ('k, 'r) btree, store_error) result"
where
  "update_where key guard upd ok m =
     (case bt_lookup key m of
        None \<Rightarrow> Ok (False, m)
      | Some row \<Rightarrow>
          if \<not> guard row then Ok (False, m)
          else if ok (upd row) then Ok (True, bt_insert key (upd row) m)
          else Err StoreOpen)"

definition insert_row ::
  "'k::linorder \<Rightarrow> 'r \<Rightarrow> bool \<Rightarrow> ('k, 'r) btree \<Rightarrow> (('k, 'r) btree, store_error) result"
where
  "insert_row key row ok m = (if bt_lookup key m \<noteq> None \<or> \<not> ok then Err StoreOpen else Ok (bt_insert key row m))"

definition instance_check :: "instance_row \<Rightarrow> bool" where
  "instance_check r \<longleftrightarrow> length (nr_digest r) = 32 \<and> nr_desired r \<in> {''stopped'', ''running''}
     \<and> 0 \<le> nr_generation r \<and> 0 \<le> nr_created r \<and> nr_created r \<le> nr_updated r"

definition connection_check :: "connection_row \<Rightarrow> bool" where
  "connection_check r \<longleftrightarrow>
     kr_health r \<in> {''unknown'', ''healthy'', ''degraded'', ''unavailable'', ''revoked''}
     \<and> 0 \<le> kr_generation r \<and> 0 \<le> kr_created r \<and> kr_created r \<le> kr_updated r"

text \<open>\<open>credential_ref TEXT NOT NULL UNIQUE\<close>.\<close>

definition credential_unique :: "int \<Rightarrow> connection_row \<Rightarrow> (int, connection_row) btree \<Rightarrow> bool" where
  "credential_unique key row m \<longleftrightarrow> list_all (\<lambda>(k, r). k = key \<or> kr_credential r \<noteq> kr_credential row) m"

text \<open>The outcome of an operation: its result and the database after it.\<close>

definition commit :: "db \<Rightarrow> ('a \<times> db, store_error) result \<Rightarrow> ('a, store_error) result \<times> db" where
  "commit d r = (case r of Ok (a, d') \<Rightarrow> (Ok a, d') | Err e \<Rightarrow> (Err e, d))"

section \<open>Instances\<close>

definition row_to_instance :: "'v store_lib \<Rightarrow> int \<Rightarrow> instance_row \<Rightarrow> (plugin_instance, store_error) result" where
  "row_to_instance lib key r =
     try_bind (read_u64 key) (\<lambda>iid.
     try_bind (if length (nr_digest r) = 32 then Ok (nr_digest r) else Err StoreCorrupt) (\<lambda>digest.
     try_bind (corrupt (installation_ref_new (sl_semver lib) (nr_plugin r) (nr_version r) digest)) (\<lambda>installation.
     try_bind (ok_or StoreCorrupt (sl_json_read lib (nr_config r))) (\<lambda>val.
     try_bind (corrupt (config_new (sl_json_text lib) val)) (\<lambda>config.
     try_bind (corrupt (desired_parse (nr_desired r))) (\<lambda>desired.
     try_bind (read_u64 (nr_generation r)) (\<lambda>generation.
     try_bind (read_u64 (nr_created r)) (\<lambda>created.
     try_bind (read_u64 (nr_updated r)) (\<lambda>updated.
     corrupt (instance_restore (sl_semver lib) iid installation config desired generation created updated))))))))))"

definition instance_create ::
  "'v store_lib \<Rightarrow> installation_ref \<Rightarrow> json_map \<Rightarrow> desired_state \<Rightarrow> u64 \<Rightarrow> db
     \<Rightarrow> (plugin_instance, store_error) result \<times> db"
where
  "instance_create lib installation config desired created d =
     (case try_bind (corrupt (installation_ref_validate (sl_semver lib) installation)) (\<lambda>_.
           try_bind (sqlite_i64 created) (\<lambda>created_sql.
           try_bind (allocate (db_next_instance d)) (\<lambda>(key, next).
           (let row = \<lparr>nr_plugin = ir_plugin installation, nr_version = ir_version installation,
                       nr_digest = ir_digest installation, nr_config = sl_json_text lib (JObj config),
                       nr_desired = desired_as_str desired, nr_generation = 0,
                       nr_created = created_sql, nr_updated = created_sql\<rparr>
            in try_bind (insert_row key row (instance_check row) (db_instances d)) (\<lambda>rows.
               Ok (key, d\<lparr>db_next_instance := next, db_instances := rows\<rparr>)))))) of
        Err e \<Rightarrow> (Err e, d)
      | Ok (key, d') \<Rightarrow>
          (try_bind (read_u64 key) (\<lambda>iid.
             corrupt (instance_restore (sl_semver lib) iid installation config desired 0 created created)), d'))"

definition instance_get :: "'v store_lib \<Rightarrow> u64 \<Rightarrow> db \<Rightarrow> (plugin_instance option, store_error) result" where
  "instance_get lib iid d =
     try_bind (sqlite_i64 iid) (\<lambda>key.
       case bt_lookup key (db_instances d) of
         None \<Rightarrow> Ok None
       | Some row \<Rightarrow> try_bind (row_to_instance lib key row) (\<lambda>p. Ok (Some p)))"

definition instance_list :: "'v store_lib \<Rightarrow> db \<Rightarrow> (plugin_instance list, store_error) result" where
  "instance_list lib d =
     try_fold (\<lambda>(key, row) acc. try_bind (row_to_instance lib key row) (\<lambda>p. Ok (acc @ [p]))) (db_instances d) []"

text \<open>The single-row updates of an instance.\<close>

definition update_instance ::
  "u64 \<Rightarrow> u64 \<Rightarrow> (int \<Rightarrow> instance_row \<Rightarrow> bool) \<Rightarrow> (int \<Rightarrow> instance_row \<Rightarrow> instance_row) \<Rightarrow> db
     \<Rightarrow> (bool \<times> db, store_error) result"
where
  "update_instance iid updated guard upd d =
     try_bind (sqlite_i64 iid) (\<lambda>key. try_bind (sqlite_i64 updated) (\<lambda>t.
     try_bind (update_where key (\<lambda>r. guard t r \<and> nr_updated r \<le> t) (upd t) instance_check (db_instances d))
       (\<lambda>(changed, rows). Ok (changed, d\<lparr>db_instances := rows\<rparr>))))"

definition instance_update_config ::
  "'v store_lib \<Rightarrow> u64 \<Rightarrow> json_map \<Rightarrow> u64 \<Rightarrow> db \<Rightarrow> (bool, store_error) result \<times> db"
where
  "instance_update_config lib iid config updated d =
     commit d (update_instance iid updated (\<lambda>_ _. True)
       (\<lambda>t r. r\<lparr>nr_config := sl_json_text lib (JObj config), nr_updated := t\<rparr>) d)"

definition instance_set_desired :: "u64 \<Rightarrow> desired_state \<Rightarrow> u64 \<Rightarrow> db \<Rightarrow> (bool, store_error) result \<times> db" where
  "instance_set_desired iid desired updated d =
     commit d (update_instance iid updated (\<lambda>_ _. True)
       (\<lambda>t r. r\<lparr>nr_desired := desired_as_str desired, nr_updated := t\<rparr>) d)"

definition instance_advance_generation ::
  "u64 \<Rightarrow> u64 \<Rightarrow> db \<Rightarrow> (u64 option, store_error) result \<times> db"
where
  "instance_advance_generation iid updated d =
     commit d
       (try_bind (update_instance iid updated (\<lambda>_ r. nr_generation r < 2 ^ 63 - 1)
                    (\<lambda>t r. r\<lparr>nr_generation := nr_generation r + 1, nr_updated := t\<rparr>) d)
          (\<lambda>(changed, d').
             if \<not> changed then Ok (None, d')
             else case bt_lookup (uint iid) (db_instances d') of
                    None \<Rightarrow> Err StoreOpen
                  | Some r \<Rightarrow> try_bind (read_u64 (nr_generation r)) (\<lambda>g. Ok (Some g, d'))))"

text \<open>SQLite counts the characters of a text up to its first NUL; the \<open>CHECK\<close> of the table of rollbacks is on this length.\<close>

definition sql_length :: "string \<Rightarrow> nat" where
  "sql_length s = char_count (takeWhile (\<lambda>c. c \<noteq> CHR 0x00) s)"

definition rollback_row_check :: "rollback_row \<Rightarrow> bool" where
  "rollback_row_check r \<longleftrightarrow> 1 \<le> sql_length (bw_reason r) \<and> sql_length (bw_reason r) \<le> 512
     \<and> length (snd (bw_from r)) = 32 \<and> length (snd (bw_target r)) = 32 \<and> 0 \<le> bw_rolled_back_at r"

definition instance_rollback ::
  "'v store_lib \<Rightarrow> u64 \<Rightarrow> installation_ref \<Rightarrow> installation_ref \<Rightarrow> string \<Rightarrow> u64 \<Rightarrow> db
     \<Rightarrow> (bool, store_error) result \<times> db"
where
  "instance_rollback lib iid cur target reason updated d =
     commit d
       (if reason = [] \<or> 512 < length reason then Err StoreCorrupt
        else try_bind (corrupt (installation_ref_validate (sl_semver lib) cur)) (\<lambda>_.
        try_bind (corrupt (installation_ref_validate (sl_semver lib) target)) (\<lambda>_.
        try_bind (update_instance iid updated
                   (\<lambda>_ r. nr_plugin r = ir_plugin cur \<and> nr_version r = ir_version cur
                          \<and> nr_digest r = ir_digest cur \<and> nr_desired r = ''stopped'')
                   (\<lambda>t r. r\<lparr>nr_version := ir_version target, nr_digest := ir_digest target, nr_updated := t\<rparr>) d)
          (\<lambda>(changed, d').
             let row = \<lparr>bw_instance = uint iid, bw_plugin = ir_plugin cur,
                      bw_from = (ir_version cur, ir_digest cur),
                      bw_target = (ir_version target, ir_digest target),
                      bw_reason = reason, bw_rolled_back_at = uint updated\<rparr>
             in if \<not> changed then Ok (False, d')
                else if rollback_row_check row then Ok (True, d'\<lparr>db_rollbacks := db_rollbacks d' @ [row]\<rparr>)
                else Err StoreOpen))))"

definition instance_delete :: "u64 \<Rightarrow> db \<Rightarrow> (bool, store_error) result \<times> db" where
  "instance_delete iid d =
     commit d
       (try_bind (sqlite_i64 iid) (\<lambda>key.
          let d1 = d\<lparr>db_grants := filter (\<lambda>e. fst (fst e) \<noteq> key) (db_grants d)\<rparr>
          in if bt_lookup key (db_instances d1) = None then Ok (False, d1)
             else Ok (True, d1\<lparr>db_instances := bt_remove key (db_instances d1),
                                db_layouts := bt_remove key (db_layouts d1)\<rparr>)))"

section \<open>Connections and grants\<close>

definition row_to_connection :: "int \<Rightarrow> connection_row \<Rightarrow> (connection, store_error) result" where
  "row_to_connection key r =
     try_bind (read_u64 key) (\<lambda>cid.
     try_bind (corrupt (credential_ref_new (kr_credential r))) (\<lambda>credential.
     try_bind (corrupt (health_parse (kr_health r))) (\<lambda>health.
     try_bind (read_u64 (kr_generation r)) (\<lambda>generation.
     try_bind (read_u64 (kr_created r)) (\<lambda>created.
     try_bind (read_u64 (kr_updated r)) (\<lambda>updated.
     corrupt (connection_restore cid (kr_provider r) (kr_account r) credential health generation created updated)))))))"

definition connection_create ::
  "string \<Rightarrow> string \<Rightarrow> string \<Rightarrow> u64 \<Rightarrow> db \<Rightarrow> (connection, store_error) result \<times> db"
where
  "connection_create provider account credential created d =
     commit d
       (try_bind (sqlite_i64 created) (\<lambda>created_sql.
        try_bind (allocate (db_next_connection d)) (\<lambda>(key, next).
        try_bind (read_positive_id key) (\<lambda>cid.
        try_bind (corrupt (connection_restore cid provider account credential HealthUnknown 0 created created)) (\<lambda>model.
        (let row = \<lparr>kr_provider = provider, kr_account = account, kr_credential = credential,
                    kr_health = ''unknown'', kr_generation = 0, kr_created = created_sql, kr_updated = created_sql\<rparr>
         in try_bind (insert_row key row (connection_check row \<and> credential_unique key row (db_connections d))
                       (db_connections d)) (\<lambda>rows.
            Ok (model, d\<lparr>db_next_connection := next, db_connections := rows\<rparr>))))))))"

definition connection_get :: "connection_id \<Rightarrow> db \<Rightarrow> (connection option, store_error) result" where
  "connection_get cid d =
     try_bind (sqlite_i64 cid) (\<lambda>key.
       case bt_lookup key (db_connections d) of
         None \<Rightarrow> Ok None
       | Some row \<Rightarrow> try_bind (row_to_connection key row) (\<lambda>c. Ok (Some c)))"

definition connection_list :: "db \<Rightarrow> (connection list, store_error) result" where
  "connection_list d =
     try_fold (\<lambda>(key, row) acc. try_bind (row_to_connection key row) (\<lambda>c. Ok (acc @ [c]))) (db_connections d) []"

definition connection_grant_to :: "u64 \<Rightarrow> connection_id \<Rightarrow> u64 \<Rightarrow> db \<Rightarrow> (bool, store_error) result \<times> db" where
  "connection_grant_to iid cid granted d =
     commit d
       (try_bind (sqlite_i64 iid) (\<lambda>i. try_bind (sqlite_i64 cid) (\<lambda>c. try_bind (sqlite_i64 granted) (\<lambda>t.
          if bt_lookup i (db_instances d) = None \<or> bt_lookup c (db_connections d) = None
             \<or> bt_lookup (i, c) (db_grants d) \<noteq> None
          then Ok (False, d)
          else Ok (True, d\<lparr>db_grants := bt_insert (i, c) t (db_grants d)\<rparr>)))))"

definition connection_revoke :: "u64 \<Rightarrow> connection_id \<Rightarrow> db \<Rightarrow> (bool, store_error) result \<times> db" where
  "connection_revoke iid cid d =
     commit d
       (try_bind (sqlite_i64 iid) (\<lambda>i. try_bind (sqlite_i64 cid) (\<lambda>c.
          Ok (bt_lookup (i, c) (db_grants d) \<noteq> None, d\<lparr>db_grants := bt_remove (i, c) (db_grants d)\<rparr>))))"

definition grants_for_instance :: "u64 \<Rightarrow> db \<Rightarrow> (connection_grant list, store_error) result" where
  "grants_for_instance iid d =
     try_bind (sqlite_i64 iid) (\<lambda>i.
       try_fold (\<lambda>((gi, gc), t) acc.
           try_bind (read_u64 gi) (\<lambda>gi'. try_bind (read_u64 gc) (\<lambda>gc'. try_bind (read_u64 t) (\<lambda>t'.
             Ok (acc @ [\<lparr>cg_instance = gi', cg_connection = gc', cg_granted_at = t'\<rparr>])))))
         (filter (\<lambda>e. fst (fst e) = i) (db_grants d)) [])"

definition update_connection ::
  "connection_id \<Rightarrow> u64 \<Rightarrow> (connection_row \<Rightarrow> bool) \<Rightarrow> (int \<Rightarrow> connection_row \<Rightarrow> connection_row) \<Rightarrow> db
     \<Rightarrow> (bool \<times> db, store_error) result"
where
  "update_connection cid updated guard upd d =
     try_bind (sqlite_i64 updated) (\<lambda>t. try_bind (sqlite_i64 cid) (\<lambda>key.
     try_bind (update_where key (\<lambda>r. guard r \<and> kr_updated r \<le> t) (upd t)
                (\<lambda>r. connection_check r \<and> credential_unique key r (db_connections d)) (db_connections d))
       (\<lambda>(changed, rows). Ok (changed, d\<lparr>db_connections := rows\<rparr>))))"

definition connection_rotate :: "connection_id \<Rightarrow> string \<Rightarrow> u64 \<Rightarrow> db \<Rightarrow> (bool, store_error) result \<times> db" where
  "connection_rotate cid credential updated d =
     commit d (update_connection cid updated (\<lambda>r. kr_generation r < 2 ^ 63 - 1)
       (\<lambda>t r. r\<lparr>kr_credential := credential, kr_generation := kr_generation r + 1,
                kr_health := ''unknown'', kr_updated := t\<rparr>) d)"

definition connection_set_health ::
  "connection_id \<Rightarrow> connection_health \<Rightarrow> u64 \<Rightarrow> db \<Rightarrow> (bool, store_error) result \<times> db"
where
  "connection_set_health cid health updated d =
     commit d (update_connection cid updated (\<lambda>_. True)
       (\<lambda>t r. r\<lparr>kr_health := health_as_str health, kr_updated := t\<rparr>) d)"

definition connection_delete_unreferenced :: "connection_id \<Rightarrow> db \<Rightarrow> (bool, store_error) result \<times> db" where
  "connection_delete_unreferenced cid d =
     commit d
       (try_bind (sqlite_i64 cid) (\<lambda>c.
          if bt_lookup c (db_connections d) = None \<or> list_ex (\<lambda>e. snd (fst e) = c) (db_grants d)
          then Ok (False, d)
          else Ok (True, d\<lparr>db_connections := bt_remove c (db_connections d)\<rparr>)))"

section \<open>Layouts\<close>

text \<open>\<open>as f32\<close> of a stored real.\<close>

fun as_f32 :: "ieee \<Rightarrow> ieee" where
  "as_f32 (Fin r) = f32_round r"
| "as_f32 x = x"

fun mode_as_str :: "widget_mode \<Rightarrow> string" where
  "mode_as_str Edit = ''edit''"
| "mode_as_str Show = ''show''"

definition layout_row_of :: "widget_layout \<Rightarrow> layout_row" where
  "layout_row_of l =
     \<lparr>yr_plugin = wl_plugin l, yr_monitor_key = wl_monitor_key l,
      yr_x = lp_x (lr_position (wl_rect l)), yr_y = lp_y (lr_position (wl_rect l)),
      yr_w = ls_width (lr_size (wl_rect l)), yr_h = ls_height (lr_size (wl_rect l)),
      yr_physical_w = uint (ps_width (wl_physical l)), yr_physical_h = uint (ps_height (wl_physical l)),
      yr_scale = wl_scale l, yr_lost = of_bool (wl_lost_monitor l), yr_z = uint (wl_z l),
      yr_mode = mode_as_str (wl_mode l), yr_version = uint (wl_version l), yr_updated = uint (wl_updated_at l)\<rparr>"

definition layout_save :: "widget_layout \<Rightarrow> db \<Rightarrow> (unit, store_error) result \<times> db" where
  "layout_save l d =
     commit d
       (try_bind (corrupt (layout_validate l)) (\<lambda>_.
        try_bind (sqlite_i64 (wl_instance l)) (\<lambda>key.
        try_bind (sqlite_i64 (wl_updated_at l)) (\<lambda>_.
        Ok ((), d\<lparr>db_layouts := bt_insert key (layout_row_of l) (db_layouts d)\<rparr>)))))"

definition row_to_layout :: "int \<Rightarrow> layout_row \<Rightarrow> (widget_layout, store_error) result" where
  "row_to_layout key r =
     try_bind (if yr_mode r = ''edit'' then Ok Edit else if yr_mode r = ''show'' then Ok Show else Err StoreCorrupt)
       (\<lambda>mode.
     try_bind (corrupt (scale_factor_new (yr_scale r))) (\<lambda>scale.
     try_bind (if yr_lost r = 0 then Ok False else if yr_lost r = 1 then Ok True else Err StoreCorrupt) (\<lambda>lost.
     try_bind (read_u64 key) (\<lambda>iid.
     try_bind (read_u32 (yr_physical_w r)) (\<lambda>pw.
     try_bind (read_u32 (yr_physical_h r)) (\<lambda>ph.
     try_bind (read_u32 (yr_z r)) (\<lambda>z.
     try_bind (read_u32 (yr_version r)) (\<lambda>version.
     try_bind (read_u64 (yr_updated r)) (\<lambda>updated.
     (let l = \<lparr>wl_instance = iid, wl_plugin = yr_plugin r, wl_monitor_key = yr_monitor_key r,
               wl_rect = \<lparr>lr_position = \<lparr>lp_x = as_f32 (yr_x r), lp_y = as_f32 (yr_y r)\<rparr>,
                          lr_size = \<lparr>ls_width = as_f32 (yr_w r), ls_height = as_f32 (yr_h r)\<rparr>\<rparr>,
               wl_physical = \<lparr>ps_width = pw, ps_height = ph\<rparr>, wl_scale = scale, wl_lost_monitor = lost,
               wl_z = z, wl_mode = mode, wl_version = version, wl_updated_at = updated\<rparr>
      in try_bind (corrupt (layout_validate l)) (\<lambda>_. Ok l)))))))))))"

definition layout_get :: "u64 \<Rightarrow> db \<Rightarrow> (widget_layout option, store_error) result" where
  "layout_get iid d =
     try_bind (sqlite_i64 iid) (\<lambda>key.
       case bt_lookup key (db_layouts d) of
         None \<Rightarrow> Ok None
       | Some row \<Rightarrow> try_bind (row_to_layout key row) (\<lambda>l. Ok (Some l)))"

text \<open>\<open>ORDER BY z\<close>; rows of equal \<open>z\<close> in key order.\<close>

definition layout_list :: "db \<Rightarrow> (widget_layout list, store_error) result" where
  "layout_list d =
     try_fold (\<lambda>(key, row) acc. try_bind (row_to_layout key row) (\<lambda>l. Ok (acc @ [l])))
       (sort_key (\<lambda>e. yr_z (snd e)) (db_layouts d)) []"

definition layout_delete :: "u64 \<Rightarrow> db \<Rightarrow> (unit, store_error) result \<times> db" where
  "layout_delete iid d =
     commit d (try_bind (sqlite_i64 iid) (\<lambda>key. Ok ((), d\<lparr>db_layouts := bt_remove key (db_layouts d)\<rparr>)))"

section \<open>Audit\<close>

definition audit_record_append :: "audit_record \<Rightarrow> db \<Rightarrow> (unit, store_error) result \<times> db" where
  "audit_record_append r d =
     commit d
       (if ar_decision r \<notin> {''allow'', ''deny''} then Err StoreCorrupt
        else try_bind (sqlite_i64 (ar_instance r)) (\<lambda>inst. try_bind (sqlite_i64 (ar_unix_ts r)) (\<lambda>ts.
          Ok ((), d\<lparr>db_audit := db_audit d @
             [\<lparr>aw_unix_ts = ts, aw_plugin = ar_plugin r, aw_instance = inst, aw_capability = ar_capability r,
               aw_decision = ar_decision r, aw_reason = ar_reason r, aw_detail = ar_detail r\<rparr>]\<rparr>))))"

definition audit_read :: "audit_row \<Rightarrow> (audit_record, store_error) result" where
  "audit_read w =
     try_bind (read_u64 (aw_unix_ts w)) (\<lambda>ts. try_bind (read_u64 (aw_instance w)) (\<lambda>inst.
       Ok \<lparr>ar_plugin = aw_plugin w, ar_instance = inst, ar_capability = aw_capability w,
           ar_decision = aw_decision w, ar_reason = aw_reason w, ar_detail = aw_detail w, ar_unix_ts = ts\<rparr>))"

definition audit_list :: "db \<Rightarrow> (audit_record list, store_error) result" where
  "audit_list d = try_fold (\<lambda>w acc. try_bind (audit_read w) (\<lambda>r. Ok (acc @ [r]))) (db_audit d) []"

end
