(* ===== verification/Store_Spec.thy ===== *)
theory Store_Spec
  imports Store_Db
begin

text \<open>
  What the store promises, and that the SQLite tables keep it.  \<open>store_spec\<close> is the abstract
  store: finite maps from identifiers to domain objects and the two allocators; \<open>spec_step\<close> says
  what each operation does to it.  \<open>store_rel\<close> relates a database to an abstract store;
  \<open>row_table\<close> is the contract between a table and the codec of its rows, interpreted for
  instances, connections and layouts.  The simulation \<open>store_step_rel\<close> carries over to every
  sequence of operations; identifiers, references and histories are then read off the abstract
  store.
\<close>

section \<open>Tables and the codecs of their rows\<close>

definition fits :: "u64 \<Rightarrow> bool" where
  "fits v \<longleftrightarrow> uint v < 2 ^ 63"

lemma sqlite_i64_Ok [simp]: "sqlite_i64 v = Ok n \<longleftrightarrow> fits v \<and> n = uint v"
  by (auto simp: sqlite_i64_def fits_def)

lemma sqlite_i64_fits: "fits v \<Longrightarrow> sqlite_i64 v = Ok (uint v)" "\<not> fits v \<Longrightarrow> sqlite_i64 v = Err StoreCorrupt"
  by (simp_all add: sqlite_i64_def fits_def)

lemma read_u64_uint [simp]: "read_u64 (uint v) = Ok v"
  by (simp add: read_u64_def)

lemma read_u32_uint [simp]: "read_u32 (uint v) = Ok v"
  using uint_bounded [of v] by (simp add: read_u32_def)

text \<open>A table holds the encodings of a map on identifiers.\<close>

definition table_rel :: "('a \<Rightarrow> 'row) \<Rightarrow> (int, 'row) btree \<Rightarrow> (u64 \<Rightarrow> 'a option) \<Rightarrow> bool" where
  "table_rel enc m f \<longleftrightarrow> bt_wf m \<and> (\<forall>i. bt_lookup (uint i) m = map_option enc (f i))
     \<and> (\<forall>key. bt_lookup key m \<noteq> None \<longrightarrow> (\<exists>i :: u64. key = uint i))"

lemma table_rel_lookup: "table_rel enc m f \<Longrightarrow> bt_lookup (uint i) m = map_option enc (f i)"
  by (simp add: table_rel_def)

lemma table_rel_insert: "table_rel enc m f \<Longrightarrow> table_rel enc (bt_insert (uint i) (enc x) m) (f(i \<mapsto> x))"
  by (auto simp: table_rel_def bt_wf_insert word_uint_eq_iff split: if_splits)

lemma table_rel_remove: "table_rel enc m f \<Longrightarrow> table_rel enc (bt_remove (uint i) m) (f(i := None))"
  by (auto simp: table_rel_def bt_wf_remove word_uint_eq_iff split: if_splits)

lemma table_rel_all:
  assumes "table_rel enc m f"
  shows "list_all P m \<longleftrightarrow> (\<forall>i x. f i = Some x \<longrightarrow> P (uint i, enc x))"
proof
  assume all: "list_all P m"
  show "\<forall>i x. f i = Some x \<longrightarrow> P (uint i, enc x)"
  proof (intro allI impI)
    fix i x assume "f i = Some x"
    then have "bt_lookup (uint i) m = Some (enc x)" using assms by (simp add: table_rel_def)
    with all show "P (uint i, enc x)" by (auto simp: list_all_iff dest: bt_lookup_Some_in)
  qed
next
  assume all: "\<forall>i x. f i = Some x \<longrightarrow> P (uint i, enc x)"
  have "P e" if "e \<in> set m" for e
  proof -
    obtain key row where e: "e = (key, row)" by (cases e)
    with that assms have look: "bt_lookup key m = Some row" by (auto simp: table_rel_def bt_lookup_in)
    then obtain i :: u64 where "key = uint i" using assms by (auto simp: table_rel_def)
    with look assms all show ?thesis by (auto simp: table_rel_def e)
  qed
  then show "list_all P m" by (simp add: list_all_iff)
qed

lemma update_where_rel:
  assumes rel: "table_rel enc m f" and upd: "\<And>p. f i = Some p \<Longrightarrow> upd (enc p) = enc (upd' p)"
    and guard: "\<And>p. f i = Some p \<Longrightarrow> guard (enc p) = guard' p"
    and ok: "\<And>p. f i = Some p \<Longrightarrow> guard' p \<Longrightarrow> ok (enc (upd' p)) = ok' p"
  shows "update_where (uint i) guard upd ok m =
      (case f i of
         None \<Rightarrow> Ok (False, m)
       | Some p \<Rightarrow> if \<not> guard' p then Ok (False, m)
                  else if ok' p then Ok (True, bt_insert (uint i) (enc (upd' p)) m) else Err StoreOpen)"
  using upd guard ok by (auto simp: update_where_def table_rel_lookup [OF rel] split: option.splits)

text \<open>The contract of a codec: what was encoded under an identifier is decoded to the same object.\<close>

locale row_table =
  fixes enc :: "'a \<Rightarrow> 'row"
    and dec :: "int \<Rightarrow> 'row \<Rightarrow> ('a, store_error) result"
    and key_of :: "'a \<Rightarrow> u64"
    and valid :: "'a \<Rightarrow> bool"
  assumes decode: "valid x \<Longrightarrow> dec (uint (key_of x)) (enc x) = Ok x"
begin

text \<open>Reading a row of a table of valid objects gives the object, and never an error.\<close>

lemma read_row:
  assumes "table_rel enc m f" and "\<And>i x. f i = Some x \<Longrightarrow> valid x \<and> key_of x = i"
  shows "(case bt_lookup (uint i) m of
      None \<Rightarrow> Ok None
    | Some row \<Rightarrow> try_bind (dec (uint i) row) (\<lambda>x. Ok (Some x))) = Ok (f i)"
proof (cases "f i")
  case (Some x)
  with assms(2) [OF Some] decode [of x] show ?thesis by (simp add: table_rel_lookup [OF assms(1)])
qed (simp add: table_rel_lookup [OF assms(1)])

text \<open>Reading a whole table succeeds, in any order of the rows.\<close>

lemma read_rows:
  assumes "table_rel enc m f" and "\<And>i x. f i = Some x \<Longrightarrow> valid x \<and> key_of x = i" and "set rows = set m"
  shows "\<exists>xs. try_fold (\<lambda>(key, row) acc. try_bind (dec key row) (\<lambda>x. Ok (acc @ [x]))) rows [] = Ok xs
    \<and> set xs = {x. \<exists>i. f i = Some x}"
proof -
  have dec: "\<exists>x. dec key row = Ok x \<and> f (key_of x) = Some x \<and> key = uint (key_of x)" if "(key, row) \<in> set m" for key row
  proof -
    have look: "bt_lookup key m = Some row" using assms(1) that by (auto simp: table_rel_def bt_lookup_in)
    then obtain i :: u64 where key: "key = uint i" using assms(1) by (auto simp: table_rel_def)
    with look table_rel_lookup [OF assms(1)] obtain x where "f i = Some x" "row = enc x" by auto
    with assms(2) decode key show ?thesis by blast
  qed
  have "\<exists>xs. try_fold (\<lambda>(key, row) acc. try_bind (dec key row) (\<lambda>x. Ok (acc @ [x]))) es acc = Ok (acc @ xs)
      \<and> set xs = {x. \<exists>(key, row) \<in> set es. dec key row = Ok x}" if "set es \<subseteq> set m" for es acc
    using that
  proof (induction es arbitrary: acc)
    case (Cons e es)
    obtain key row where e: "e = (key, row)" by (cases e)
    with Cons.prems dec obtain x where x: "dec key row = Ok x" by auto
    from Cons.IH [of "acc @ [x]"] Cons.prems obtain xs where
      "try_fold (\<lambda>(key, row) acc. try_bind (dec key row) (\<lambda>x. Ok (acc @ [x]))) es (acc @ [x]) = Ok ((acc @ [x]) @ xs)"
      "set xs = {x. \<exists>(key, row) \<in> set es. dec key row = Ok x}" by auto
    with x show ?case by (intro exI [of _ "x # xs"]) (auto simp: e)
  qed simp
  from this [of rows "[]"] assms(3) obtain xs where
    xs: "try_fold (\<lambda>(key, row) acc. try_bind (dec key row) (\<lambda>x. Ok (acc @ [x]))) rows [] = Ok xs"
    and set: "set xs = {x. \<exists>(key, row) \<in> set m. dec key row = Ok x}" by auto
  have "set xs = {x. \<exists>i. f i = Some x}"
  proof (intro set_eqI iffI)
    fix x assume "x \<in> set xs"
    then obtain key row where "(key, row) \<in> set m" "dec key row = Ok x" using set by auto
    with dec show "x \<in> {x. \<exists>i. f i = Some x}" by fastforce
  next
    fix x assume "x \<in> {x. \<exists>i. f i = Some x}"
    then obtain i where i: "f i = Some x" by blast
    then have "(uint i, enc x) \<in> set m" using table_rel_lookup [OF assms(1)] by (simp add: bt_lookup_Some_in)
    with assms(2) [OF i] decode [of x] set show "x \<in> set xs" by force
  qed
  with xs show ?thesis by blast
qed

lemmas read_all = read_rows [OF _ _ refl]

end

text \<open>Instances.\<close>

definition instance_row_of :: "'v store_lib \<Rightarrow> plugin_instance \<Rightarrow> instance_row" where
  "instance_row_of lib p =
     \<lparr>nr_plugin = ir_plugin (pi_installation p), nr_version = ir_version (pi_installation p),
      nr_digest = ir_digest (pi_installation p), nr_config = sl_json_text lib (JObj (pi_config p)),
      nr_desired = desired_as_str (pi_desired p), nr_generation = uint (pi_generation p),
      nr_created = uint (pi_created_at p), nr_updated = uint (pi_updated_at p)\<rparr>"

text \<open>What the type \<open>InstallationRef\<close> guarantees.\<close>

definition installation_ok :: "'v store_lib \<Rightarrow> installation_ref \<Rightarrow> bool" where
  "installation_ok lib r \<longleftrightarrow> validate_plugin_id (ir_plugin r) = Ok () \<and> sl_semver lib (ir_version r) \<noteq> None
     \<and> length (ir_digest r) = 32"

text \<open>A configuration that its constructor accepts, and one that the JSON reader gives back from the text the writer has
  made of it.  The second part is an assumption on the library and the value, not a guarantee of the type \<open>InstanceConfig\<close>:
  a number with a fraction may not be read back exactly.\<close>

definition config_ok :: "'v store_lib \<Rightarrow> json_map \<Rightarrow> bool" where
  "config_ok lib c \<longleftrightarrow> config_new (sl_json_text lib) (JObj c) = Ok c
     \<and> sl_json_read lib (sl_json_text lib (JObj c)) = Some (JObj c)"

definition instance_ok :: "'v store_lib \<Rightarrow> plugin_instance \<Rightarrow> bool" where
  "instance_ok lib p \<longleftrightarrow> installation_ok lib (pi_installation p) \<and> config_ok lib (pi_config p)
     \<and> fits (pi_generation p) \<and> fits (pi_updated_at p) \<and> pi_created_at p \<le> pi_updated_at p"

lemma installation_validate_ok: "installation_ok lib r \<Longrightarrow> installation_ref_validate (sl_semver lib) r = Ok ()"
  by (simp add: installation_ok_def installation_ref_validate_def installation_ref_new_def)

lemma instance_row_decode: "instance_ok lib p \<Longrightarrow> row_to_instance lib (uint (pi_id p)) (instance_row_of lib p) = Ok p"
  by (simp add: row_to_instance_def instance_row_of_def instance_ok_def installation_ok_def config_ok_def
      installation_ref_new_def restore_Ok_iff)

interpretation instances: row_table "instance_row_of lib" "row_to_instance lib" pi_id "instance_ok lib" for lib
  by unfold_locales (rule instance_row_decode)

text \<open>Connections.\<close>

definition connection_row_of :: "connection \<Rightarrow> connection_row" where
  "connection_row_of c =
     \<lparr>kr_provider = cn_provider c, kr_account = cn_account_identity c, kr_credential = cn_credential c,
      kr_health = health_as_str (cn_health c), kr_generation = uint (cn_credential_generation c),
      kr_created = uint (cn_created_at c), kr_updated = uint (cn_updated_at c)\<rparr>"

definition stored_connection_ok :: "connection \<Rightarrow> bool" where
  "stored_connection_ok c \<longleftrightarrow> connection_ok c \<and> credential_ref_new (cn_credential c) = Ok (cn_credential c)
     \<and> fits (cn_credential_generation c) \<and> fits (cn_updated_at c)"

lemma connection_row_decode:
  "stored_connection_ok c \<Longrightarrow> row_to_connection (uint (cn_id c)) (connection_row_of c) = Ok c"
  by (simp add: row_to_connection_def connection_row_of_def stored_connection_ok_def connection_restore_again)

interpretation connections: row_table connection_row_of row_to_connection cn_id stored_connection_ok
  by unfold_locales (rule connection_row_decode)

text \<open>Layouts; the geometry of a layout in memory is \<open>f32\<close> and its scale a valid scale factor.\<close>

definition stored_layout_ok :: "widget_layout \<Rightarrow> bool" where
  "stored_layout_ok l \<longleftrightarrow> layout_validate l = Ok () \<and> scale_factor_new (wl_scale l) = Ok (wl_scale l)
     \<and> as_f32 (lp_x (lr_position (wl_rect l))) = lp_x (lr_position (wl_rect l))
     \<and> as_f32 (lp_y (lr_position (wl_rect l))) = lp_y (lr_position (wl_rect l))
     \<and> as_f32 (ls_width (lr_size (wl_rect l))) = ls_width (lr_size (wl_rect l))
     \<and> as_f32 (ls_height (lr_size (wl_rect l))) = ls_height (lr_size (wl_rect l))"

lemma layout_row_decode:
  "stored_layout_ok l \<Longrightarrow> row_to_layout (uint (wl_instance l)) (layout_row_of l) = Ok l"
proof -
  assume ok: "stored_layout_ok l"
  obtain iid plugin key rect physical scale lost z mode version updated where
    l: "l = \<lparr>wl_instance = iid, wl_plugin = plugin, wl_monitor_key = key, wl_rect = rect, wl_physical = physical,
         wl_scale = scale, wl_lost_monitor = lost, wl_z = z, wl_mode = mode, wl_version = version,
         wl_updated_at = updated\<rparr>" by (cases l)
  obtain x y w h where rect: "rect = \<lparr>lr_position = \<lparr>lp_x = x, lp_y = y\<rparr>, lr_size = \<lparr>ls_width = w, ls_height = h\<rparr>\<rparr>"
    by (metis logical_rect.cases logical_position.cases logical_size.cases)
  obtain pw ph where physical: "physical = \<lparr>ps_width = pw, ps_height = ph\<rparr>" by (cases physical)
  show ?thesis
    using ok by (cases mode; cases lost)
      (simp_all add: l rect physical row_to_layout_def layout_row_of_def stored_layout_ok_def Let_def)
qed

interpretation layouts: row_table layout_row_of row_to_layout wl_instance stored_layout_ok
  by unfold_locales (rule layout_row_decode)

section \<open>The abstract store\<close>

record store_spec =
  sp_instances :: "u64 \<Rightarrow> plugin_instance option"
  sp_next_instance :: int
  sp_connections :: "u64 \<Rightarrow> connection option"
  sp_next_connection :: int
  sp_grants :: "u64 \<times> u64 \<Rightarrow> u64 option"
  sp_layouts :: "u64 \<Rightarrow> widget_layout option"
  sp_audit :: "audit_record list"
  sp_rollbacks :: "rollback_row list"

definition spec_init :: store_spec where
  "spec_init = \<lparr>sp_instances = Map.empty, sp_next_instance = 2, sp_connections = Map.empty,
     sp_next_connection = 1, sp_grants = Map.empty, sp_layouts = Map.empty, sp_audit = [], sp_rollbacks = []\<rparr>"

datatype store_op =
    CreateInstance installation_ref json_map desired_state u64
  | UpdateConfig u64 json_map u64
  | SetDesired u64 desired_state u64
  | AdvanceGeneration u64 u64
  | RollbackInstallation u64 installation_ref installation_ref string u64
  | DeleteInstance u64
  | CreateConnection string string string u64
  | GrantConnection u64 u64 u64
  | RevokeConnection u64 u64
  | RotateCredential u64 string u64
  | SetHealth u64 connection_health u64
  | DeleteConnection u64
  | SaveLayout widget_layout
  | DeleteLayout u64
  | RecordAudit audit_record

fun store_step :: "'v store_lib \<Rightarrow> store_op \<Rightarrow> db \<Rightarrow> db" where
  "store_step lib (CreateInstance r c desired t) d = snd (instance_create lib r c desired t d)"
| "store_step lib (UpdateConfig i c t) d = snd (instance_update_config lib i c t d)"
| "store_step lib (SetDesired i desired t) d = snd (instance_set_desired i desired t d)"
| "store_step lib (AdvanceGeneration i t) d = snd (instance_advance_generation i t d)"
| "store_step lib (RollbackInstallation i cur target reason t) d = snd (instance_rollback lib i cur target reason t d)"
| "store_step lib (DeleteInstance i) d = snd (instance_delete i d)"
| "store_step lib (CreateConnection p a cr t) d = snd (connection_create p a cr t d)"
| "store_step lib (GrantConnection i c t) d = snd (connection_grant_to i c t d)"
| "store_step lib (RevokeConnection i c) d = snd (connection_revoke i c d)"
| "store_step lib (RotateCredential c cr t) d = snd (connection_rotate c cr t d)"
| "store_step lib (SetHealth c h t) d = snd (connection_set_health c h t d)"
| "store_step lib (DeleteConnection c) d = snd (connection_delete_unreferenced c d)"
| "store_step lib (SaveLayout l) d = snd (layout_save l d)"
| "store_step lib (DeleteLayout i) d = snd (layout_delete i d)"
| "store_step lib (RecordAudit r) d = snd (audit_record_append r d)"

text \<open>What the types of the arguments guarantee, and readable configurations.\<close>

definition layout_typed :: "widget_layout \<Rightarrow> bool" where
  "layout_typed l \<longleftrightarrow> (layout_validate l = Ok () \<longrightarrow> stored_layout_ok l)"

fun op_ok :: "'v store_lib \<Rightarrow> store_op \<Rightarrow> bool" where
  "op_ok lib (CreateInstance r c desired t) = (installation_ok lib r \<and> config_ok lib c)"
| "op_ok lib (UpdateConfig i c t) = config_ok lib c"
| "op_ok lib (RollbackInstallation i cur target reason t) = (installation_ok lib cur \<and> installation_ok lib target)"
| "op_ok lib (CreateConnection p a cr t) = (credential_ref_new cr = Ok cr)"
| "op_ok lib (RotateCredential c cr t) = (credential_ref_new cr = Ok cr)"
| "op_ok lib (SaveLayout l) = layout_typed l"
| "op_ok lib _ = True"

text \<open>An update is made if it is not older than the object; stale ones change nothing.\<close>

definition spec_update_instance ::
  "u64 \<Rightarrow> u64 \<Rightarrow> (plugin_instance \<Rightarrow> bool) \<Rightarrow> (plugin_instance \<Rightarrow> plugin_instance) \<Rightarrow> store_spec \<Rightarrow> store_spec"
where
  "spec_update_instance i t guard upd s =
     (case sp_instances s i of
        None \<Rightarrow> s
      | Some p \<Rightarrow>
          if fits t \<and> guard p \<and> pi_updated_at p \<le> t
          then s\<lparr>sp_instances := (sp_instances s)(i \<mapsto> (upd p)\<lparr>pi_updated_at := t\<rparr>)\<rparr> else s)"

definition rollback_allowed :: "installation_ref \<Rightarrow> string \<Rightarrow> plugin_instance \<Rightarrow> bool" where
  "rollback_allowed cur reason p \<longleftrightarrow> 1 \<le> sql_length reason \<and> length reason \<le> 512
     \<and> pi_installation p = cur \<and> pi_desired p = DesiredStopped"

definition rollback_target :: "installation_ref \<Rightarrow> plugin_instance \<Rightarrow> plugin_instance" where
  "rollback_target target p =
     p\<lparr>pi_installation := (pi_installation p)\<lparr>ir_version := ir_version target, ir_digest := ir_digest target\<rparr>\<rparr>"

definition rollback_entry ::
  "u64 \<Rightarrow> installation_ref \<Rightarrow> installation_ref \<Rightarrow> string \<Rightarrow> u64 \<Rightarrow> rollback_row" where
  "rollback_entry i cur target reason t =
     \<lparr>bw_instance = uint i, bw_plugin = ir_plugin cur, bw_from = (ir_version cur, ir_digest cur),
      bw_target = (ir_version target, ir_digest target), bw_reason = reason, bw_rolled_back_at = uint t\<rparr>"

definition spec_rollback ::
  "u64 \<Rightarrow> installation_ref \<Rightarrow> installation_ref \<Rightarrow> string \<Rightarrow> u64 \<Rightarrow> store_spec \<Rightarrow> store_spec"
where
  "spec_rollback i cur target reason t s =
     (case sp_instances s i of
        None \<Rightarrow> s
      | Some p \<Rightarrow>
          if fits t \<and> rollback_allowed cur reason p \<and> pi_updated_at p \<le> t
          then s\<lparr>sp_instances := (sp_instances s)(i \<mapsto> (rollback_target target p)\<lparr>pi_updated_at := t\<rparr>),
                 sp_rollbacks := sp_rollbacks s @ [rollback_entry i cur target reason t]\<rparr>
          else s)"

definition credential_free :: "u64 \<Rightarrow> string \<Rightarrow> store_spec \<Rightarrow> bool" where
  "credential_free c credential s \<longleftrightarrow>
     (\<forall>c' conn. sp_connections s c' = Some conn \<longrightarrow> c' = c \<or> cn_credential conn \<noteq> credential)"

definition spec_update_connection ::
  "u64 \<Rightarrow> u64 \<Rightarrow> (connection \<Rightarrow> bool) \<Rightarrow> (connection \<Rightarrow> connection) \<Rightarrow> store_spec \<Rightarrow> store_spec"
where
  "spec_update_connection c t guard upd s =
     (case sp_connections s c of
        None \<Rightarrow> s
      | Some conn \<Rightarrow>
          if fits t \<and> guard conn \<and> cn_updated_at conn \<le> t \<and> credential_free c (cn_credential (upd conn)) s
          then s\<lparr>sp_connections := (sp_connections s)(c \<mapsto> (upd conn)\<lparr>cn_updated_at := t\<rparr>)\<rparr> else s)"

fun spec_step :: "store_op \<Rightarrow> store_spec \<Rightarrow> store_spec" where
  "spec_step (CreateInstance r c desired t) s =
     (if fits t \<and> sp_next_instance s + 1 < 2 ^ 63
      then (let i = word_of_int (sp_next_instance s)
            in s\<lparr>sp_next_instance := sp_next_instance s + 1,
                 sp_instances := (sp_instances s)(i \<mapsto>
                   \<lparr>pi_id = i, pi_installation = r, pi_config = c, pi_desired = desired, pi_generation = 0,
                    pi_created_at = t, pi_updated_at = t\<rparr>)\<rparr>)
      else s)"
| "spec_step (UpdateConfig i c t) s = spec_update_instance i t (\<lambda>_. True) (\<lambda>p. p\<lparr>pi_config := c\<rparr>) s"
| "spec_step (SetDesired i desired t) s = spec_update_instance i t (\<lambda>_. True) (\<lambda>p. p\<lparr>pi_desired := desired\<rparr>) s"
| "spec_step (AdvanceGeneration i t) s =
     spec_update_instance i t (\<lambda>p. uint (pi_generation p) < 2 ^ 63 - 1)
       (\<lambda>p. p\<lparr>pi_generation := pi_generation p + 1\<rparr>) s"
| "spec_step (RollbackInstallation i cur target reason t) s = spec_rollback i cur target reason t s"
| "spec_step (DeleteInstance i) s =
     (if sp_instances s i = None then s
      else s\<lparr>sp_instances := (sp_instances s)(i := None), sp_layouts := (sp_layouts s)(i := None),
             sp_grants := (\<lambda>(i', c). if i' = i then None else sp_grants s (i', c))\<rparr>)"
| "spec_step (CreateConnection provider account credential t) s =
     (if fits t \<and> sp_next_connection s + 1 < 2 ^ 63
      then (let c = word_of_int (sp_next_connection s)
            in case connection_restore c provider account credential HealthUnknown 0 t t of
                 Err _ \<Rightarrow> s
               | Ok conn \<Rightarrow>
                   if credential_free c credential s
                   then s\<lparr>sp_next_connection := sp_next_connection s + 1,
                          sp_connections := (sp_connections s)(c \<mapsto> conn)\<rparr>
                   else s)
      else s)"
| "spec_step (GrantConnection i c t) s =
     (if fits t \<and> sp_instances s i \<noteq> None \<and> sp_connections s c \<noteq> None \<and> sp_grants s (i, c) = None
      then s\<lparr>sp_grants := (sp_grants s)((i, c) \<mapsto> t)\<rparr> else s)"
| "spec_step (RevokeConnection i c) s = s\<lparr>sp_grants := (sp_grants s)((i, c) := None)\<rparr>"
| "spec_step (RotateCredential c credential t) s =
     spec_update_connection c t (\<lambda>conn. uint (cn_credential_generation conn) < 2 ^ 63 - 1)
       (\<lambda>conn. conn\<lparr>cn_credential := credential, cn_credential_generation := cn_credential_generation conn + 1,
                    cn_health := HealthUnknown\<rparr>) s"
| "spec_step (SetHealth c health t) s =
     spec_update_connection c t (\<lambda>_. True) (\<lambda>conn. conn\<lparr>cn_health := health\<rparr>) s"
| "spec_step (DeleteConnection c) s =
     (if \<exists>i. sp_grants s (i, c) \<noteq> None then s else s\<lparr>sp_connections := (sp_connections s)(c := None)\<rparr>)"
| "spec_step (SaveLayout l) s =
     (if layout_validate l = Ok () \<and> fits (wl_instance l) \<and> fits (wl_updated_at l)
      then s\<lparr>sp_layouts := (sp_layouts s)(wl_instance l \<mapsto> l)\<rparr> else s)"
| "spec_step (DeleteLayout i) s = (if fits i then s\<lparr>sp_layouts := (sp_layouts s)(i := None)\<rparr> else s)"
| "spec_step (RecordAudit r) s =
     (if ar_decision r \<in> {''allow'', ''deny''} \<and> fits (ar_instance r) \<and> fits (ar_unix_ts r)
      then s\<lparr>sp_audit := sp_audit s @ [r]\<rparr> else s)"

text \<open>Well-formed abstract stores: identifiers below the allocators, distinct credentials, and grants
  between existing instances and connections.\<close>

definition instances_ok :: "'v store_lib \<Rightarrow> store_spec \<Rightarrow> bool" where
  "instances_ok lib s \<longleftrightarrow> 2 \<le> sp_next_instance s \<and> sp_next_instance s < 2 ^ 63
     \<and> (\<forall>i p. sp_instances s i = Some p \<longrightarrow>
          instance_ok lib p \<and> pi_id p = i \<and> 2 \<le> uint i \<and> uint i < sp_next_instance s)"

definition connections_ok :: "store_spec \<Rightarrow> bool" where
  "connections_ok s \<longleftrightarrow> 1 \<le> sp_next_connection s \<and> sp_next_connection s < 2 ^ 63
     \<and> (\<forall>c conn. sp_connections s c = Some conn \<longrightarrow>
          stored_connection_ok conn \<and> cn_id conn = c \<and> uint c < sp_next_connection s)
     \<and> (\<forall>c conn. sp_connections s c = Some conn \<longrightarrow> credential_free c (cn_credential conn) s)"

definition grants_ok :: "store_spec \<Rightarrow> bool" where
  "grants_ok s \<longleftrightarrow> (\<forall>i c t. sp_grants s (i, c) = Some t \<longrightarrow> sp_instances s i \<noteq> None \<and> sp_connections s c \<noteq> None)"

definition layouts_ok :: "store_spec \<Rightarrow> bool" where
  "layouts_ok s \<longleftrightarrow> (\<forall>i l. sp_layouts s i = Some l \<longrightarrow> stored_layout_ok l \<and> wl_instance l = i \<and> fits i)"

definition spec_ok :: "'v store_lib \<Rightarrow> store_spec \<Rightarrow> bool" where
  "spec_ok lib s \<longleftrightarrow> instances_ok lib s \<and> connections_ok s \<and> grants_ok s \<and> layouts_ok s"

lemma spec_ok_init: "spec_ok lib spec_init"
  by (simp add: spec_ok_def instances_ok_def connections_ok_def grants_ok_def layouts_ok_def spec_init_def)

section \<open>Simulation\<close>

definition grant_rel :: "(int \<times> int, int) btree \<Rightarrow> (u64 \<times> u64 \<Rightarrow> u64 option) \<Rightarrow> bool" where
  "grant_rel g f \<longleftrightarrow> bt_wf g \<and> (\<forall>i c. bt_lookup (uint i, uint c) g = map_option uint (f (i, c)))
     \<and> (\<forall>key. bt_lookup key g \<noteq> None \<longrightarrow> (\<exists>(i :: u64) (c :: u64). key = (uint i, uint c)))"

definition audit_row_of :: "audit_record \<Rightarrow> audit_row" where
  "audit_row_of r =
     \<lparr>aw_unix_ts = uint (ar_unix_ts r), aw_plugin = ar_plugin r, aw_instance = uint (ar_instance r),
      aw_capability = ar_capability r, aw_decision = ar_decision r, aw_reason = ar_reason r, aw_detail = ar_detail r\<rparr>"

definition store_rel :: "'v store_lib \<Rightarrow> store_spec \<Rightarrow> db \<Rightarrow> bool" where
  "store_rel lib s d \<longleftrightarrow>
     table_rel (instance_row_of lib) (db_instances d) (sp_instances s)
     \<and> db_next_instance d = Some (sp_next_instance s)
     \<and> table_rel connection_row_of (db_connections d) (sp_connections s)
     \<and> db_next_connection d = Some (sp_next_connection s)
     \<and> grant_rel (db_grants d) (sp_grants s)
     \<and> table_rel layout_row_of (db_layouts d) (sp_layouts s)
     \<and> db_audit d = map audit_row_of (sp_audit s)
     \<and> db_rollbacks d = sp_rollbacks s"

lemma commit_Ok [simp]: "commit d (Ok (a, d')) = (Ok a, d')"
  by (simp add: commit_def)

lemma commit_Err [simp]: "commit d (Err e) = (Err e, d)"
  by (simp add: commit_def)

lemma uint_of_next: "0 \<le> n \<Longrightarrow> n < 2 ^ 63 \<Longrightarrow> uint (word_of_int n :: u64) = n"
  by (simp add: uint_word_of_int)

lemma fits_below: "uint i < n \<Longrightarrow> n < 2 ^ 63 \<Longrightarrow> fits i"
  by (simp add: fits_def)

lemma instance_check_row:
  "instance_ok lib p \<Longrightarrow> instance_check (instance_row_of lib p)"
  by (cases "pi_desired p")
    (simp_all add: instance_check_def instance_row_of_def instance_ok_def installation_ok_def word_le_def)

lemma connection_check_row: "stored_connection_ok c \<Longrightarrow> connection_check (connection_row_of c)"
  by (cases "cn_health c")
    (simp_all add: connection_check_def connection_row_of_def stored_connection_ok_def connection_ok_def word_le_def)

lemma credential_unique_rel:
  assumes "table_rel connection_row_of m f"
  shows "credential_unique (uint c) row m \<longleftrightarrow>
    (\<forall>c' conn. f c' = Some conn \<longrightarrow> c' = c \<or> cn_credential conn \<noteq> kr_credential row)"
  unfolding credential_unique_def table_rel_all [OF assms]
  by (simp add: connection_row_of_def word_uint_eq_iff)

text \<open>One update of an instance row, and the update of the object it encodes.\<close>

lemma update_instance_rel:
  assumes rel: "table_rel (instance_row_of lib) (db_instances d) (sp_instances s)" and ok: "instances_ok lib s"
    and guard: "\<And>p. sp_instances s i = Some p \<Longrightarrow> guard (uint t) (instance_row_of lib p) = guard' p"
    and upd: "\<And>p. sp_instances s i = Some p \<Longrightarrow> guard' p \<Longrightarrow>
      upd (uint t) (instance_row_of lib p) = instance_row_of lib ((upd' p)\<lparr>pi_updated_at := t\<rparr>)"
    and valid: "\<And>p. sp_instances s i = Some p \<Longrightarrow> guard' p \<Longrightarrow> instance_ok lib p \<Longrightarrow> fits t \<Longrightarrow> pi_updated_at p \<le> t \<Longrightarrow>
      instance_ok lib ((upd' p)\<lparr>pi_updated_at := t\<rparr>)"
  shows "(sp_instances s i = None \<longrightarrow> (\<exists>e. update_instance i t guard upd d = Err e) \<or> update_instance i t guard upd d = Ok (False, d))
    \<and> (\<forall>p. sp_instances s i = Some p \<longrightarrow>
        (if fits t \<and> guard' p \<and> pi_updated_at p \<le> t
         then update_instance i t guard upd d = Ok (True, d\<lparr>db_instances :=
           bt_insert (uint i) (instance_row_of lib ((upd' p)\<lparr>pi_updated_at := t\<rparr>)) (db_instances d)\<rparr>)
         else (\<exists>e. update_instance i t guard upd d = Err e) \<or> update_instance i t guard upd d = Ok (False, d)))"
proof (intro conjI impI allI)
  note look = table_rel_lookup [OF rel, of i]
  assume "sp_instances s i = None"
  then show "(\<exists>e. update_instance i t guard upd d = Err e) \<or> update_instance i t guard upd d = Ok (False, d)"
    by (cases "fits i"; cases "fits t") (simp_all add: update_instance_def update_where_def look sqlite_i64_fits)
next
  note look = table_rel_lookup [OF rel, of i]
  fix p assume p: "sp_instances s i = Some p"
  with ok have inst: "instance_ok lib p" "fits i" by (force simp: instances_ok_def fits_def)+
  have time: "nr_updated (instance_row_of lib p) \<le> uint t \<longleftrightarrow> pi_updated_at p \<le> t"
    by (simp add: instance_row_of_def word_le_def)
  show "if fits t \<and> guard' p \<and> pi_updated_at p \<le> t
         then update_instance i t guard upd d = Ok (True, d\<lparr>db_instances :=
           bt_insert (uint i) (instance_row_of lib ((upd' p)\<lparr>pi_updated_at := t\<rparr>)) (db_instances d)\<rparr>)
         else (\<exists>e. update_instance i t guard upd d = Err e) \<or> update_instance i t guard upd d = Ok (False, d)"
    using inst look p guard [OF p] upd [OF p] valid [OF p] time
    by (cases "fits t"; cases "guard' p"; cases "pi_updated_at p \<le> t")
      (simp_all add: update_instance_def update_where_def sqlite_i64_fits instance_check_row)
qed

lemma spec_update_instance_rel:
  assumes rel: "store_rel lib s d" and ok: "instances_ok lib s"
    and guard: "\<And>p. sp_instances s i = Some p \<Longrightarrow> guard (uint t) (instance_row_of lib p) = guard' p"
    and upd: "\<And>p. sp_instances s i = Some p \<Longrightarrow> guard' p \<Longrightarrow>
      upd (uint t) (instance_row_of lib p) = instance_row_of lib ((upd' p)\<lparr>pi_updated_at := t\<rparr>)"
    and valid: "\<And>p. sp_instances s i = Some p \<Longrightarrow> guard' p \<Longrightarrow> instance_ok lib p \<Longrightarrow> fits t \<Longrightarrow> pi_updated_at p \<le> t \<Longrightarrow>
      instance_ok lib ((upd' p)\<lparr>pi_updated_at := t\<rparr>)"
  shows "store_rel lib (spec_update_instance i t guard' upd' s)
      (snd (commit d (update_instance i t guard upd d)))"
proof -
  have table: "table_rel (instance_row_of lib) (db_instances d) (sp_instances s)"
    using rel by (simp add: store_rel_def)
  note res = update_instance_rel [where guard = guard and guard' = guard' and upd = upd and upd' = upd' and i = i
      and t = t, OF table ok guard upd valid]
  show ?thesis
  proof (cases "sp_instances s i")
    case None
    with res rel show ?thesis by (auto simp: spec_update_instance_def)
  next
    case (Some p)
    with res rel table_rel_insert [OF table, of i "(upd' p)\<lparr>pi_updated_at := t\<rparr>"] show ?thesis
      by (auto simp: spec_update_instance_def store_rel_def split: if_splits)
  qed
qed

lemma update_config_rel:
  assumes "store_rel lib s d" and "instances_ok lib s" and "config_ok lib c"
  shows "store_rel lib (spec_step (UpdateConfig i c t) s) (snd (instance_update_config lib i c t d))"
  unfolding spec_step.simps instance_update_config_def
  by (rule spec_update_instance_rel [OF assms(1,2)])
    (use assms(3) in \<open>auto simp: instance_row_of_def instance_ok_def\<close>)

lemma set_desired_rel:
  assumes "store_rel lib s d" and "instances_ok lib s"
  shows "store_rel lib (spec_step (SetDesired i desired t) s) (snd (instance_set_desired i desired t d))"
  unfolding spec_step.simps instance_set_desired_def
  by (rule spec_update_instance_rel [OF assms(1,2)]) (auto simp: instance_row_of_def instance_ok_def)

lemma generation_Suc: "uint (g :: u64) < 2 ^ 63 - 1 \<Longrightarrow> uint (g + 1) = uint g + 1"
  by (simp add: uint_word_ariths)

lemma advance_generation_rel:
  assumes rel: "store_rel lib s d" and ok: "instances_ok lib s"
  shows "store_rel lib (spec_step (AdvanceGeneration i t) s) (snd (instance_advance_generation i t d))"
proof -
  let ?upd = "\<lambda>t r. r\<lparr>nr_generation := nr_generation r + 1, nr_updated := t\<rparr>"
  let ?guard = "\<lambda>t r. nr_generation r < 2 ^ 63 - 1"
  have sim: "store_rel lib (spec_step (AdvanceGeneration i t) s) (snd (commit d (update_instance i t ?guard ?upd d)))"
    unfolding spec_step.simps
    by (rule spec_update_instance_rel [OF rel ok])
      (auto simp: instance_row_of_def instance_ok_def generation_Suc fits_def)
  have "snd (instance_advance_generation i t d) = snd (commit d (update_instance i t ?guard ?upd d))"
  proof (cases "update_instance i t ?guard ?upd d")
    case (Ok r)
    obtain changed d' where r: "r = (changed, d')" by (cases r)
    show ?thesis
    proof (cases changed)
      case True
      with Ok r obtain row where "bt_lookup (uint i) (db_instances d') = Some row" "0 \<le> nr_generation row"
        by (auto simp: update_instance_def update_where_def instance_check_def split: option.splits if_splits)
      with Ok r True show ?thesis by (simp add: instance_advance_generation_def read_u64_def)
    next
      case False
      with Ok r show ?thesis by (simp add: instance_advance_generation_def)
    qed
  qed (simp add: instance_advance_generation_def)
  with sim show ?thesis by simp
qed

lemma desired_as_str_stopped [simp]: "desired_as_str d = ''stopped'' \<longleftrightarrow> d = DesiredStopped"
  by (cases d) simp_all

lemma installation_eq_iff:
  "ir_plugin r = ir_plugin q \<and> ir_version r = ir_version q \<and> ir_digest r = ir_digest q \<longleftrightarrow> r = (q :: installation_ref)"
  by (cases r; cases q) auto

lemma sql_length_le: "sql_length s \<le> length s"
  unfolding sql_length_def by (rule order_trans [OF char_count_le_length length_takeWhile_le])

lemma rollback_rel:
  assumes rel: "store_rel lib s d" and ok: "instances_ok lib s"
    and refs: "installation_ok lib cur" "installation_ok lib target"
  shows "store_rel lib (spec_step (RollbackInstallation i cur target reason t) s)
    (snd (instance_rollback lib i cur target reason t d))"
proof -
  have table: "table_rel (instance_row_of lib) (db_instances d) (sp_instances s)"
    using rel by (simp add: store_rel_def)
  let ?guard = "\<lambda>(t :: int) r. nr_plugin r = ir_plugin cur \<and> nr_version r = ir_version cur
    \<and> nr_digest r = ir_digest cur \<and> nr_desired r = ''stopped''"
  let ?guard' = "\<lambda>p. pi_installation p = cur \<and> pi_desired p = DesiredStopped"
  let ?upd = "\<lambda>t r. r\<lparr>nr_version := ir_version target, nr_digest := ir_digest target, nr_updated := t\<rparr>"
  note res = update_instance_rel [where guard = ?guard and guard' = ?guard' and upd = ?upd
      and upd' = "rollback_target target" and i = i and t = t, OF table ok]
  have guard: "?guard (uint t) (instance_row_of lib p) = ?guard' p" for p
    by (auto simp: instance_row_of_def simp flip: installation_eq_iff)
  have upd: "?upd (uint t) (instance_row_of lib p) = instance_row_of lib ((rollback_target target p)\<lparr>pi_updated_at := t\<rparr>)" for p
    by (simp add: instance_row_of_def rollback_target_def)
  have valid: "instance_ok lib ((rollback_target target p)\<lparr>pi_updated_at := t\<rparr>)"
    if "instance_ok lib p" "fits t" "pi_updated_at p \<le> t" for p
    using that refs by (auto simp: instance_ok_def installation_ok_def rollback_target_def)
  note res = res [OF guard upd valid, simplified]
  show ?thesis
  proof (cases "reason = [] \<or> 512 < length reason")
    case True
    then have "snd (instance_rollback lib i cur target reason t d) = d"
      by (simp add: instance_rollback_def)
    moreover from True have "\<not> rollback_allowed cur reason p" for p
      using sql_length_le [of reason] by (auto simp: rollback_allowed_def)
    ultimately show ?thesis using rel by (auto simp: spec_rollback_def split: option.splits)
  next
    case False
    then have run: "instance_rollback lib i cur target reason t d
      = commit d (try_bind (update_instance i t ?guard ?upd d) (\<lambda>(changed, d').
          if \<not> changed then Ok (False, d')
          else if 1 \<le> sql_length reason
          then Ok (True, d'\<lparr>db_rollbacks := db_rollbacks d' @ [rollback_entry i cur target reason t]\<rparr>)
          else Err StoreOpen))"
      unfolding rollback_entry_def using refs False sql_length_le [of reason]
      by (simp add: instance_rollback_def installation_validate_ok installation_ok_def rollback_row_check_def Let_def cong: if_cong)
    have allowed: "rollback_allowed cur reason p \<longleftrightarrow> 1 \<le> sql_length reason \<and> ?guard' p" for p
      using False by (auto simp: rollback_allowed_def)
    show ?thesis
    proof (cases "sp_instances s i")
      case None
      with res rel show ?thesis by (auto simp: run spec_rollback_def)
    next
      case (Some p)
      with res rel table_rel_insert [OF table, of i "(rollback_target target p)\<lparr>pi_updated_at := t\<rparr>"]
      show ?thesis by (auto simp: run allowed spec_rollback_def store_rel_def split: if_splits)
    qed
  qed
qed

lemma create_instance_rel:
  assumes rel: "store_rel lib s d" and ok: "instances_ok lib s"
    and args: "installation_ok lib r" "config_ok lib c"
  shows "store_rel lib (spec_step (CreateInstance r c desired t) s) (snd (instance_create lib r c desired t d))"
proof (cases "fits t \<and> sp_next_instance s + 1 < 2 ^ 63")
  case False
  with rel args show ?thesis
    by (cases "fits t") (auto simp: instance_create_def allocate_def store_rel_def installation_validate_ok sqlite_i64_fits)
next
  case True
  define n where "n = sp_next_instance s"
  define i :: u64 where "i = word_of_int n"
  define p where "p = \<lparr>pi_id = i, pi_installation = r, pi_config = c, pi_desired = desired, pi_generation = 0,
      pi_created_at = t, pi_updated_at = t\<rparr>"
  have n: "2 \<le> n" "n < 2 ^ 63" using ok by (auto simp: instances_ok_def n_def)
  then have i: "uint i = n" by (simp add: i_def uint_word_of_int)
  have valid: "instance_ok lib p" using args True by (simp add: p_def instance_ok_def fits_def)
  have table: "table_rel (instance_row_of lib) (db_instances d) (sp_instances s)"
    using rel by (simp add: store_rel_def)
  have fresh: "sp_instances s i = None"
    using ok i unfolding instances_ok_def n_def by (metis not_None_eq less_irrefl)
  then have free: "bt_lookup (uint i) (db_instances d) = None" by (simp add: table_rel_lookup [OF table])
  have next_id: "db_next_instance d = Some n" using rel by (simp add: store_rel_def n_def)
  have row: "instance_row_of lib p = \<lparr>nr_plugin = ir_plugin r, nr_version = ir_version r, nr_digest = ir_digest r,
      nr_config = sl_json_text lib (JObj c), nr_desired = desired_as_str desired, nr_generation = 0,
      nr_created = uint t, nr_updated = uint t\<rparr>"
    by (simp add: instance_row_of_def p_def)
  have "snd (instance_create lib r c desired t d)
      = d\<lparr>db_next_instance := Some (n + 1), db_instances := bt_insert (uint i) (instance_row_of lib p) (db_instances d)\<rparr>"
    using True args next_id free instance_check_row [OF valid]
    by (simp add: instance_create_def installation_validate_ok sqlite_i64_fits allocate_def row insert_row_def
        n_def [symmetric] i)
  moreover have "spec_step (CreateInstance r c desired t) s
      = s\<lparr>sp_next_instance := n + 1, sp_instances := (sp_instances s)(i \<mapsto> p)\<rparr>"
    using True by (simp add: Let_def n_def i_def p_def)
  ultimately show ?thesis
    using rel table_rel_insert [OF table, of i p] by (simp add: store_rel_def)
qed

lemma grant_rel_filter:
  assumes "grant_rel g f"
  shows "grant_rel (filter (\<lambda>e. fst (fst e) \<noteq> uint (i :: u64)) g) (\<lambda>(i', c). if i' = i then None else f (i', c))"
proof -
  have wf: "bt_wf (filter P g)" for P
    using assms by (auto simp: grant_rel_def bt_wf_def sorted_wrt_map intro: sorted_wrt_filter)
  have look: "bt_lookup k (filter (\<lambda>e. Q (fst e)) g) = (if Q k then bt_lookup k g else None)" for k Q
    by (induction g) auto
  show ?thesis
    using assms wf look [of _ "\<lambda>k. fst k \<noteq> uint i"]
    by (auto simp: grant_rel_def word_uint_eq_iff split: if_splits)
qed

lemma delete_instance_rel:
  assumes rel: "store_rel lib s d" and ok: "instances_ok lib s" "grants_ok s"
  shows "store_rel lib (spec_step (DeleteInstance i) s) (snd (instance_delete i d))"
proof -
  have table: "table_rel (instance_row_of lib) (db_instances d) (sp_instances s)"
    and grants: "grant_rel (db_grants d) (sp_grants s)" and lay: "table_rel layout_row_of (db_layouts d) (sp_layouts s)"
    using rel by (simp_all add: store_rel_def)
  show ?thesis
  proof (cases "sp_instances s i")
    case None
    with ok(2) have "sp_grants s (i, c) = None" for c
      unfolding grants_ok_def by (metis not_None_eq)
    then have same: "(\<lambda>(i', c). if i' = i then None else sp_grants s (i', c)) = sp_grants s" by auto
    show ?thesis
      using rel None grant_rel_filter [OF grants, of i]
      by (cases "fits i")
        (auto simp: instance_delete_def sqlite_i64_fits table_rel_lookup [OF table] store_rel_def same)
  next
    case (Some p)
    then have "fits i" using ok(1) by (force simp: instances_ok_def fits_def)
    with Some rel grant_rel_filter [OF grants, of i] table_rel_remove [OF table, of i] table_rel_remove [OF lay, of i]
    show ?thesis
      by (auto simp: instance_delete_def sqlite_i64_fits table_rel_lookup [OF table] store_rel_def)
  qed
qed

lemma update_connection_rel:
  assumes rel: "store_rel lib s d" and ok: "connections_ok s"
    and guard: "\<And>conn. sp_connections s c = Some conn \<Longrightarrow> guard (connection_row_of conn) = guard' conn"
    and upd: "\<And>conn. sp_connections s c = Some conn \<Longrightarrow> guard' conn \<Longrightarrow>
      upd (uint t) (connection_row_of conn) = connection_row_of ((upd' conn)\<lparr>cn_updated_at := t\<rparr>)"
    and valid: "\<And>conn. sp_connections s c = Some conn \<Longrightarrow> guard' conn \<Longrightarrow> stored_connection_ok conn \<Longrightarrow> fits t \<Longrightarrow>
      cn_updated_at conn \<le> t \<Longrightarrow> stored_connection_ok ((upd' conn)\<lparr>cn_updated_at := t\<rparr>)"
  shows "store_rel lib (spec_update_connection c t guard' upd' s)
      (snd (commit d (update_connection c t guard upd d)))"
proof -
  have table: "table_rel connection_row_of (db_connections d) (sp_connections s)"
    using rel by (simp add: store_rel_def)
  note look = table_rel_lookup [OF table, of c]
  show ?thesis
  proof (cases "sp_connections s c")
    case None
    with rel look show ?thesis
      by (cases "fits c"; cases "fits t")
        (simp_all add: update_connection_def update_where_def spec_update_connection_def store_rel_def sqlite_i64_fits)
  next
    case (Some conn)
    with ok have inst: "stored_connection_ok conn" "fits c" by (force simp: connections_ok_def fits_def)+
    have time: "kr_updated (connection_row_of conn) \<le> uint t \<longleftrightarrow> cn_updated_at conn \<le> t"
      by (simp add: connection_row_of_def word_le_def)
    have unique: "credential_unique (uint c) (connection_row_of ((upd' conn)\<lparr>cn_updated_at := t\<rparr>)) (db_connections d)
        \<longleftrightarrow> credential_free c (cn_credential (upd' conn)) s"
      unfolding credential_unique_rel [OF table] credential_free_def by (simp add: connection_row_of_def)
    show ?thesis
      using rel Some inst look guard [OF Some] upd [OF Some] valid [OF Some] time unique
        table_rel_insert [OF table, of c "(upd' conn)\<lparr>cn_updated_at := t\<rparr>"]
      by (cases "fits t"; cases "guard' conn"; cases "cn_updated_at conn \<le> t"; cases "credential_free c (cn_credential (upd' conn)) s")
        (simp_all add: update_connection_def update_where_def sqlite_i64_fits connection_check_row
          spec_update_connection_def store_rel_def)
  qed
qed

lemma rotate_rel:
  assumes "store_rel lib s d" and "connections_ok s" and "credential_ref_new cr = Ok cr"
  shows "store_rel lib (spec_step (RotateCredential c cr t) s) (snd (connection_rotate c cr t d))"
  unfolding spec_step.simps connection_rotate_def
  by (rule update_connection_rel [OF assms(1,2)])
    (use assms(3) in \<open>auto simp: connection_row_of_def stored_connection_ok_def connection_ok_def generation_Suc fits_def\<close>)

lemma set_health_rel:
  assumes "store_rel lib s d" and "connections_ok s"
  shows "store_rel lib (spec_step (SetHealth c h t) s) (snd (connection_set_health c h t d))"
  unfolding spec_step.simps connection_set_health_def
  by (rule update_connection_rel [OF assms(1,2)])
    (auto simp: connection_row_of_def stored_connection_ok_def connection_ok_def)

lemma connection_restore_Ok:
  "connection_restore c p a cr h g cre u = Ok conn \<Longrightarrow>
     conn = \<lparr>cn_id = c, cn_provider = p, cn_account_identity = a, cn_credential = cr, cn_health = h,
             cn_credential_generation = g, cn_created_at = cre, cn_updated_at = u\<rparr>"
  by (auto simp: connection_restore_def split: if_splits)

lemma create_connection_rel:
  assumes rel: "store_rel lib s d" and ok: "connections_ok s" and cr: "credential_ref_new cr = Ok cr"
  shows "store_rel lib (spec_step (CreateConnection p a cr t) s) (snd (connection_create p a cr t d))"
proof (cases "fits t \<and> sp_next_connection s + 1 < 2 ^ 63")
  case False
  with rel show ?thesis
    by (cases "fits t") (auto simp: connection_create_def allocate_def store_rel_def sqlite_i64_fits)
next
  case True
  define n where "n = sp_next_connection s"
  define c :: u64 where "c = word_of_int n"
  have n: "1 \<le> n" "n < 2 ^ 63" using ok by (auto simp: connections_ok_def n_def)
  then have c: "uint c = n" by (simp add: c_def uint_word_of_int)
  then have pos: "read_positive_id n = Ok c"
    using n by (auto simp: read_positive_id_def read_u64_def c_def word_uint_eq_iff uint_word_of_int)
  have table: "table_rel connection_row_of (db_connections d) (sp_connections s)"
    using rel by (simp add: store_rel_def)
  have fresh: "sp_connections s c = None"
    using ok c unfolding connections_ok_def n_def by (metis not_None_eq less_irrefl)
  then have free: "bt_lookup n (db_connections d) = None" using table_rel_lookup [OF table, of c] by (simp add: c)
  have next_id: "db_next_connection d = Some n" using rel by (simp add: store_rel_def n_def)
  show ?thesis
  proof (cases "connection_restore c p a cr HealthUnknown 0 t t")
    case (Err e)
    with True rel pos next_id show ?thesis
      by (simp add: connection_create_def sqlite_i64_fits allocate_def Let_def n_def [symmetric] c_def [symmetric])
  next
    case (Ok conn)
    have conn: "stored_connection_ok conn"
      using connection_restore_ok [OF Ok] connection_restore_Ok [OF Ok] cr True
      by (auto simp: stored_connection_ok_def fits_def)
    have row: "connection_row_of conn = \<lparr>kr_provider = p, kr_account = a, kr_credential = cr,
        kr_health = ''unknown'', kr_generation = 0, kr_created = uint t, kr_updated = uint t\<rparr>"
      using connection_restore_Ok [OF Ok] by (simp add: connection_row_of_def)
    have unique: "credential_unique n (connection_row_of conn) (db_connections d) \<longleftrightarrow> credential_free c cr s"
      using credential_unique_rel [OF table, of c] connection_restore_Ok [OF Ok]
      by (simp add: c credential_free_def connection_row_of_def)
    show ?thesis
      using True rel pos next_id Ok free unique connection_check_row [OF conn]
        table_rel_insert [OF table, of c conn]
      by (cases "credential_free c cr s")
        (simp_all add: connection_create_def sqlite_i64_fits allocate_def Let_def n_def [symmetric] c_def [symmetric]
          insert_row_def row [symmetric] c store_rel_def)
  qed
qed

lemma grant_rel_insert:
  "grant_rel g f \<Longrightarrow> grant_rel (bt_insert (uint i, uint c) (uint t) g) (f((i, c) \<mapsto> t))"
  by (auto simp: grant_rel_def bt_wf_insert word_uint_eq_iff split: if_splits)

lemma grant_rel_remove:
  "grant_rel g f \<Longrightarrow> grant_rel (bt_remove (uint i, uint c) g) (f((i, c) := None))"
  by (auto simp: grant_rel_def bt_wf_remove word_uint_eq_iff split: if_splits)

lemma grant_connection_rel:
  assumes rel: "store_rel lib s d" and ok: "instances_ok lib s" "connections_ok s"
  shows "store_rel lib (spec_step (GrantConnection i c t) s) (snd (connection_grant_to i c t d))"
proof -
  have tables: "table_rel (instance_row_of lib) (db_instances d) (sp_instances s)"
    "table_rel connection_row_of (db_connections d) (sp_connections s)" "grant_rel (db_grants d) (sp_grants s)"
    using rel by (simp_all add: store_rel_def)
  have fits: "sp_instances s i \<noteq> None \<Longrightarrow> fits i" "sp_connections s c \<noteq> None \<Longrightarrow> fits c"
    using ok by (force simp: instances_ok_def connections_ok_def fits_def)+
  have look: "bt_lookup (uint i) (db_instances d) = None \<longleftrightarrow> sp_instances s i = None"
    "bt_lookup (uint c) (db_connections d) = None \<longleftrightarrow> sp_connections s c = None"
    "bt_lookup (uint i, uint c) (db_grants d) = None \<longleftrightarrow> sp_grants s (i, c) = None"
    using tables by (simp_all add: table_rel_lookup grant_rel_def)
  show ?thesis
    using rel fits look grant_rel_insert [OF tables(3), of i c t]
    by (cases "fits t"; cases "sp_instances s i = None"; cases "sp_connections s c = None";
        cases "sp_grants s (i, c) = None"; cases "fits i"; cases "fits c")
      (auto simp: connection_grant_to_def sqlite_i64_fits store_rel_def)
qed

lemma revoke_rel:
  assumes rel: "store_rel lib s d" and ok: "instances_ok lib s" "connections_ok s" "grants_ok s"
  shows "store_rel lib (spec_step (RevokeConnection i c) s) (snd (connection_revoke i c d))"
proof (cases "fits i \<and> fits c")
  case True
  have "grant_rel (db_grants d) (sp_grants s)" using rel by (simp add: store_rel_def)
  from grant_rel_remove [OF this, of i c] True rel show ?thesis
    by (simp add: connection_revoke_def sqlite_i64_fits store_rel_def)
next
  case False
  have "sp_grants s (i, c) = None"
  proof (rule ccontr)
    assume "sp_grants s (i, c) \<noteq> None"
    with ok(3) have "sp_instances s i \<noteq> None" "sp_connections s c \<noteq> None" by (auto simp: grants_ok_def)
    with ok(1,2) False show False by (force simp: instances_ok_def connections_ok_def fits_def)
  qed
  then have "(sp_grants s)((i, c) := None) = sp_grants s" by auto
  with False rel show ?thesis
    by (cases "fits i") (simp_all add: connection_revoke_def sqlite_i64_fits)
qed

lemma delete_connection_rel:
  assumes rel: "store_rel lib s d" and ok: "connections_ok s"
  shows "store_rel lib (spec_step (DeleteConnection c) s) (snd (connection_delete_unreferenced c d))"
proof -
  have table: "table_rel connection_row_of (db_connections d) (sp_connections s)"
    and grants: "grant_rel (db_grants d) (sp_grants s)"
    using rel by (simp_all add: store_rel_def)
  have refs: "list_ex (\<lambda>e. snd (fst e) = uint c) (db_grants d) \<longleftrightarrow> (\<exists>i. sp_grants s (i, c) \<noteq> None)"
  proof
    assume "list_ex (\<lambda>e. snd (fst e) = uint c) (db_grants d)"
    then obtain k t where e: "((k, uint c), t) \<in> set (db_grants d)" by (auto simp: list_ex_iff)
    then have look: "bt_lookup (k, uint c) (db_grants d) = Some t"
      using grants by (auto simp: grant_rel_def bt_lookup_in)
    with grants obtain i :: u64 where "k = uint i"
      unfolding grant_rel_def by (metis option.discI prod.inject)
    with look grants have "sp_grants s (i, c) \<noteq> None" by (auto simp: grant_rel_def)
    then show "\<exists>i. sp_grants s (i, c) \<noteq> None" ..
  next
    assume "\<exists>i. sp_grants s (i, c) \<noteq> None"
    then obtain i t where "sp_grants s (i, c) = Some t" by auto
    then have "bt_lookup (uint i, uint c) (db_grants d) = Some (uint t)" using grants by (simp add: grant_rel_def)
    then have "((uint i, uint c), uint t) \<in> set (db_grants d)" by (rule bt_lookup_Some_in)
    then show "list_ex (\<lambda>e. snd (fst e) = uint c) (db_grants d)" by (force simp: list_ex_iff)
  qed
  show ?thesis
  proof (cases "sp_connections s c")
    case None
    then have "(sp_connections s)(c := None) = sp_connections s" by auto
    with None rel show ?thesis
      by (cases "fits c") (simp_all add: connection_delete_unreferenced_def sqlite_i64_fits table_rel_lookup [OF table])
  next
    case (Some conn)
    then have "fits c" using ok by (force simp: connections_ok_def fits_def)
    with Some rel refs table_rel_remove [OF table, of c] show ?thesis
      by (cases "\<exists>i. sp_grants s (i, c) \<noteq> None")
        (simp_all add: connection_delete_unreferenced_def sqlite_i64_fits table_rel_lookup [OF table] store_rel_def)
  qed
qed

lemma layout_ops_rel:
  assumes rel: "store_rel lib s d"
  shows "store_rel lib (spec_step (SaveLayout l) s) (snd (layout_save l d))"
    and "store_rel lib (spec_step (DeleteLayout i) s) (snd (layout_delete i d))"
    and "store_rel lib (spec_step (RecordAudit r) s) (snd (audit_record_append r d))"
proof -
  have table: "table_rel layout_row_of (db_layouts d) (sp_layouts s)" using rel by (simp add: store_rel_def)
  show "store_rel lib (spec_step (SaveLayout l) s) (snd (layout_save l d))"
    using rel table_rel_insert [OF table, of "wl_instance l" l]
    by (cases "layout_validate l"; cases "fits (wl_instance l)"; cases "fits (wl_updated_at l)")
      (simp_all add: layout_save_def sqlite_i64_fits store_rel_def)
  show "store_rel lib (spec_step (DeleteLayout i) s) (snd (layout_delete i d))"
    using rel table_rel_remove [OF table, of i]
    by (cases "fits i") (simp_all add: layout_delete_def sqlite_i64_fits store_rel_def)
  show "store_rel lib (spec_step (RecordAudit r) s) (snd (audit_record_append r d))"
    using rel
    by (cases "ar_decision r \<in> {''allow'', ''deny''}"; cases "fits (ar_instance r)"; cases "fits (ar_unix_ts r)")
      (simp_all add: audit_record_append_def sqlite_i64_fits store_rel_def audit_row_of_def)
qed

lemma store_step_rel:
  assumes "store_rel lib s d" and "spec_ok lib s" and "op_ok lib op"
  shows "store_rel lib (spec_step op s) (store_step lib op d)"
proof -
  from assms(2) have ok: "instances_ok lib s" "connections_ok s" "grants_ok s" by (simp_all add: spec_ok_def)
  show ?thesis
    using assms(1,3) ok
    by (cases op)
      (simp_all only: store_step.simps op_ok.simps create_instance_rel update_config_rel set_desired_rel
        advance_generation_rel rollback_rel delete_instance_rel create_connection_rel grant_connection_rel
        revoke_rel rotate_rel set_health_rel delete_connection_rel layout_ops_rel)
qed

section \<open>The invariant of the abstract store\<close>

lemma grants_ok_mono:
  assumes "grants_ok s" and "\<And>i. sp_instances s i \<noteq> None \<Longrightarrow> sp_instances s' i \<noteq> None"
    and "\<And>c. sp_connections s c \<noteq> None \<Longrightarrow> sp_connections s' c \<noteq> None" and "sp_grants s' = sp_grants s"
  shows "grants_ok s'"
  using assms unfolding grants_ok_def by metis

lemma connections_ok_same:
  "connections_ok s \<Longrightarrow> sp_connections s' = sp_connections s \<Longrightarrow> sp_next_connection s' = sp_next_connection s \<Longrightarrow>
     connections_ok s'"
  by (simp add: connections_ok_def credential_free_def)

lemma instances_ok_same:
  "instances_ok lib s \<Longrightarrow> sp_instances s' = sp_instances s \<Longrightarrow> sp_next_instance s' = sp_next_instance s \<Longrightarrow>
     instances_ok lib s'"
  by (simp add: instances_ok_def)

lemma layouts_ok_same: "layouts_ok s \<Longrightarrow> sp_layouts s' = sp_layouts s \<Longrightarrow> layouts_ok s'"
  by (simp add: layouts_ok_def)

lemma instances_ok_set:
  assumes "instances_ok lib s" and "sp_instances s i \<noteq> None" and "instance_ok lib p" and "pi_id p = i"
    and "sp_instances s' = (sp_instances s)(i \<mapsto> p)" and "sp_next_instance s' = sp_next_instance s"
  shows "instances_ok lib s'"
  using assms by (auto simp: instances_ok_def)

text \<open>Replacing an instance keeps the invariant.\<close>

lemma spec_ok_set_instance:
  assumes ok: "spec_ok lib s" and i: "sp_instances s i \<noteq> None" and p: "instance_ok lib p" "pi_id p = i"
    and s': "sp_instances s' = (sp_instances s)(i \<mapsto> p)" "sp_next_instance s' = sp_next_instance s"
      "sp_connections s' = sp_connections s" "sp_next_connection s' = sp_next_connection s"
      "sp_grants s' = sp_grants s" "sp_layouts s' = sp_layouts s"
  shows "spec_ok lib s'"
proof -
  from ok have parts: "instances_ok lib s" "connections_ok s" "grants_ok s" "layouts_ok s" by (simp_all add: spec_ok_def)
  have "grants_ok s'" by (rule grants_ok_mono [OF parts(3)]) (use s' in auto)
  with parts p i s' show ?thesis
    by (simp add: spec_ok_def instances_ok_set [OF parts(1) i p s'(1,2)] connections_ok_same [OF parts(2)]
        layouts_ok_same [OF parts(4)])
qed

lemma update_instance_ok:
  assumes ok: "spec_ok lib s"
    and valid: "\<And>p. sp_instances s i = Some p \<Longrightarrow> guard p \<Longrightarrow> instance_ok lib p \<Longrightarrow> fits t \<Longrightarrow> pi_updated_at p \<le> t \<Longrightarrow>
      instance_ok lib ((upd p)\<lparr>pi_updated_at := t\<rparr>) \<and> pi_id (upd p) = pi_id p"
  shows "spec_ok lib (spec_update_instance i t guard upd s)"
proof (cases "sp_instances s i")
  case (Some p)
  from ok Some have p: "instance_ok lib p" "pi_id p = i" by (auto simp: spec_ok_def instances_ok_def)
  show ?thesis
  proof (cases "fits t \<and> guard p \<and> pi_updated_at p \<le> t")
    case True
    with valid [OF Some] p Some show ?thesis
      by (intro spec_ok_set_instance [OF ok, of i "(upd p)\<lparr>pi_updated_at := t\<rparr>"])
        (simp_all add: spec_update_instance_def)
  qed (use ok Some in \<open>auto simp: spec_update_instance_def\<close>)
qed (use ok in \<open>simp add: spec_update_instance_def\<close>)

text \<open>Replacing or adding a connection whose credential is free keeps the invariant.\<close>

lemma spec_ok_set_connection:
  assumes ok: "spec_ok lib s" and conn: "stored_connection_ok conn" "cn_id conn = c" "uint c < n"
    and free: "credential_free c (cn_credential conn) s" and n: "sp_next_connection s \<le> n" "n < 2 ^ 63"
    and s': "sp_connections s' = (sp_connections s)(c \<mapsto> conn)" "sp_next_connection s' = n"
      "sp_instances s' = sp_instances s" "sp_next_instance s' = sp_next_instance s"
      "sp_grants s' = sp_grants s" "sp_layouts s' = sp_layouts s"
  shows "spec_ok lib s'"
proof -
  from ok have parts: "instances_ok lib s" "connections_ok s" "grants_ok s" "layouts_ok s" by (simp_all add: spec_ok_def)
  have new: "c' = c \<or> cn_credential k \<noteq> cn_credential conn" if "sp_connections s c' = Some k" for c' k
    using free that by (auto simp: credential_free_def)
  have old: "b = a \<or> cn_credential l \<noteq> cn_credential k"
    if "sp_connections s a = Some k" "sp_connections s b = Some l" for a b k l
    using parts(2) that unfolding connections_ok_def credential_free_def by blast
  have uniq: "credential_free c' (cn_credential k) s'" if k: "sp_connections s' c' = Some k" for c' k
    unfolding credential_free_def
  proof (intro allI impI)
    fix b l assume l: "sp_connections s' b = Some l"
    show "b = c' \<or> cn_credential l \<noteq> cn_credential k"
    proof (cases "b = c")
      case True
      with k l s'(1) new [of c' k] show ?thesis by (cases "c' = c") auto
    next
      case False
      with k l s'(1) new [of b l] old [of c' k b l] show ?thesis by (cases "c' = c") auto
    qed
  qed
  have below: "uint c' < n" if "sp_connections s c' = Some k" for c' k
    using parts(2) n that by (force simp: connections_ok_def)
  have "connections_ok s'"
    using parts(2) conn n s' uniq below by (auto simp: connections_ok_def split: if_splits)
  moreover have "grants_ok s'" by (rule grants_ok_mono [OF parts(3)]) (use s' in auto)
  ultimately show ?thesis
    using s' by (simp add: spec_ok_def instances_ok_same [OF parts(1)] layouts_ok_same [OF parts(4)])
qed

lemma update_connection_ok:
  assumes ok: "spec_ok lib s"
    and valid: "\<And>conn. sp_connections s c = Some conn \<Longrightarrow> guard conn \<Longrightarrow> stored_connection_ok conn \<Longrightarrow> fits t \<Longrightarrow>
      cn_updated_at conn \<le> t \<Longrightarrow> stored_connection_ok ((upd conn)\<lparr>cn_updated_at := t\<rparr>) \<and> cn_id (upd conn) = cn_id conn"
  shows "spec_ok lib (spec_update_connection c t guard upd s)"
proof (cases "sp_connections s c")
  case (Some conn)
  from ok Some have conn: "stored_connection_ok conn" "cn_id conn = c" "uint c < sp_next_connection s"
    "sp_next_connection s < 2 ^ 63"
    by (auto simp: spec_ok_def connections_ok_def)
  show ?thesis
  proof (cases "fits t \<and> guard conn \<and> cn_updated_at conn \<le> t \<and> credential_free c (cn_credential (upd conn)) s")
    case True
    with valid [OF Some] conn Some show ?thesis
      by (intro spec_ok_set_connection [OF ok, of "(upd conn)\<lparr>cn_updated_at := t\<rparr>" c "sp_next_connection s"])
        (simp_all add: spec_update_connection_def)
  qed (use ok Some in \<open>auto simp: spec_update_connection_def\<close>)
qed (use ok in \<open>simp add: spec_update_connection_def\<close>)

lemma rollback_ok:
  assumes ok: "spec_ok lib s" and refs: "installation_ok lib target"
  shows "spec_ok lib (spec_rollback i cur target reason t s)"
proof (cases "sp_instances s i")
  case (Some p)
  from ok Some have p: "instance_ok lib p" "pi_id p = i" by (auto simp: spec_ok_def instances_ok_def)
  show ?thesis
  proof (cases "fits t \<and> rollback_allowed cur reason p \<and> pi_updated_at p \<le> t")
    case True
    with p refs have "instance_ok lib ((rollback_target target p)\<lparr>pi_updated_at := t\<rparr>)"
      by (auto simp: instance_ok_def installation_ok_def rollback_target_def)
    with True p Some show ?thesis
      by (intro spec_ok_set_instance [OF ok, of i "(rollback_target target p)\<lparr>pi_updated_at := t\<rparr>"])
        (simp_all add: spec_rollback_def rollback_target_def)
  qed (use ok Some in \<open>auto simp: spec_rollback_def\<close>)
qed (use ok in \<open>simp add: spec_rollback_def\<close>)

lemma create_instance_ok:
  assumes ok: "spec_ok lib s" and args: "installation_ok lib r" "config_ok lib c"
  shows "spec_ok lib (spec_step (CreateInstance r c desired t) s)"
proof (cases "fits t \<and> sp_next_instance s + 1 < 2 ^ 63")
  case True
  let ?i = "word_of_int (sp_next_instance s) :: u64"
  let ?p = "\<lparr>pi_id = ?i, pi_installation = r, pi_config = c, pi_desired = desired, pi_generation = 0,
      pi_created_at = t, pi_updated_at = t\<rparr>"
  let ?s = "s\<lparr>sp_next_instance := sp_next_instance s + 1, sp_instances := (sp_instances s)(?i \<mapsto> ?p)\<rparr>"
  from ok have parts: "instances_ok lib s" "connections_ok s" "grants_ok s" "layouts_ok s" by (simp_all add: spec_ok_def)
  have i: "uint ?i = sp_next_instance s" using parts(1) by (simp add: instances_ok_def uint_word_of_int)
  have "instance_ok lib ?p" using True args by (simp add: instance_ok_def fits_def)
  then have "instances_ok lib ?s" using parts(1) True i by (fastforce simp: instances_ok_def)
  moreover have "grants_ok ?s" by (rule grants_ok_mono [OF parts(3)]) auto
  ultimately show ?thesis
    using True connections_ok_same [OF parts(2), of ?s] layouts_ok_same [OF parts(4), of ?s]
    by (simp add: spec_ok_def Let_def)
next
  case False
  then have "spec_step (CreateInstance r c desired t) s = s" by (simp only: spec_step.simps if_False)
  with ok show ?thesis by simp
qed

lemma create_connection_ok:
  assumes ok: "spec_ok lib s" and cr: "credential_ref_new cr = Ok cr"
  shows "spec_ok lib (spec_step (CreateConnection p a cr t) s)"
proof (cases "fits t \<and> sp_next_connection s + 1 < 2 ^ 63")
  case True
  let ?c = "word_of_int (sp_next_connection s) :: u64"
  have c: "uint ?c = sp_next_connection s"
    using ok by (simp add: spec_ok_def connections_ok_def uint_word_of_int)
  show ?thesis
  proof (cases "connection_restore ?c p a cr HealthUnknown 0 t t")
    case (Ok conn)
    have conn: "stored_connection_ok conn" "cn_id conn = ?c" "cn_credential conn = cr"
      using connection_restore_ok [OF Ok] connection_restore_Ok [OF Ok] cr True
      by (auto simp: stored_connection_ok_def fits_def)
    show ?thesis
    proof (cases "credential_free ?c cr s")
      case free: True
      show ?thesis
        by (rule spec_ok_set_connection [OF ok conn(1,2), of "sp_next_connection s + 1"])
          (use True c conn Ok free in \<open>simp_all add: Let_def\<close>)
    qed (use ok Ok True in \<open>simp add: Let_def\<close>)
  qed (use ok True in \<open>simp add: Let_def\<close>)
qed (use ok in auto)

lemma simple_ops_ok:
  assumes ok: "spec_ok lib s"
  shows "spec_ok lib (spec_step (DeleteInstance i) s)" "spec_ok lib (spec_step (GrantConnection i c t) s)"
    "spec_ok lib (spec_step (RevokeConnection i c) s)" "spec_ok lib (spec_step (DeleteConnection c) s)"
    "layout_typed l \<Longrightarrow> spec_ok lib (spec_step (SaveLayout l) s)" "spec_ok lib (spec_step (DeleteLayout i) s)"
    "spec_ok lib (spec_step (RecordAudit r) s)"
proof -
  from ok have parts: "instances_ok lib s" "connections_ok s" "grants_ok s" "layouts_ok s" by (simp_all add: spec_ok_def)
  have grants: "sp_instances s i' \<noteq> None \<and> sp_connections s c' \<noteq> None" if "sp_grants s (i', c') = Some t'" for i' c' t'
    using parts(3) that by (auto simp: grants_ok_def)
  show "spec_ok lib (spec_step (DeleteInstance i) s)"
    using parts grants
    by (auto simp: spec_ok_def instances_ok_def connections_ok_def credential_free_def grants_ok_def layouts_ok_def)
  show "spec_ok lib (spec_step (GrantConnection i c t) s)"
    using parts grants
    by (auto simp: spec_ok_def instances_ok_def connections_ok_def credential_free_def grants_ok_def layouts_ok_def)
  show "spec_ok lib (spec_step (RevokeConnection i c) s)"
    using parts grants
    by (auto simp: spec_ok_def instances_ok_def connections_ok_def credential_free_def grants_ok_def layouts_ok_def)
  show "spec_ok lib (spec_step (DeleteConnection c) s)"
  proof (cases "\<exists>i. sp_grants s (i, c) \<noteq> None")
    case False
    let ?s = "s\<lparr>sp_connections := (sp_connections s)(c := None)\<rparr>"
    have "grants_ok ?s"
      unfolding grants_ok_def
    proof (intro allI impI)
      fix i' c' t' assume "sp_grants ?s (i', c') = Some t'"
      with False grants [of i' c' t'] show "sp_instances ?s i' \<noteq> None \<and> sp_connections ?s c' \<noteq> None"
        by (cases "c' = c") auto
    qed
    moreover have "connections_ok ?s"
      using parts(2) by (auto simp: connections_ok_def credential_free_def)
    ultimately show ?thesis
      using False instances_ok_same [OF parts(1), of ?s] layouts_ok_same [OF parts(4), of ?s] by (simp add: spec_ok_def)
  qed (use ok in simp)
  show "layout_typed l \<Longrightarrow> spec_ok lib (spec_step (SaveLayout l) s)"
    using parts
    by (auto simp: spec_ok_def instances_ok_def connections_ok_def credential_free_def grants_ok_def layouts_ok_def layout_typed_def)
  show "spec_ok lib (spec_step (DeleteLayout i) s)"
    using parts
    by (auto simp: spec_ok_def instances_ok_def connections_ok_def credential_free_def grants_ok_def layouts_ok_def)
  show "spec_ok lib (spec_step (RecordAudit r) s)"
    using parts
    by (auto simp: spec_ok_def instances_ok_def connections_ok_def credential_free_def grants_ok_def layouts_ok_def)
qed

lemma instance_update_ops_ok:
  assumes "spec_ok lib s"
  shows "config_ok lib c \<Longrightarrow> spec_ok lib (spec_step (UpdateConfig i c t) s)"
    "spec_ok lib (spec_step (SetDesired i desired t) s)" "spec_ok lib (spec_step (AdvanceGeneration i t) s)"
  unfolding spec_step.simps
  by (auto intro!: update_instance_ok [OF assms] simp: instance_ok_def fits_def generation_Suc)

lemma connection_update_ops_ok:
  assumes "spec_ok lib s"
  shows "credential_ref_new cr = Ok cr \<Longrightarrow> spec_ok lib (spec_step (RotateCredential c cr t) s)"
    "spec_ok lib (spec_step (SetHealth c h t) s)"
  unfolding spec_step.simps
  by (auto intro!: update_connection_ok [OF assms]
      simp: stored_connection_ok_def connection_ok_def fits_def generation_Suc)

lemma spec_step_ok:
  assumes "spec_ok lib s" and "op_ok lib op"
  shows "spec_ok lib (spec_step op s)"
  using assms
  by (cases op)
    (simp_all del: spec_step.simps add: instance_update_ops_ok connection_update_ops_ok simple_ops_ok
      create_instance_ok create_connection_ok, simp add: rollback_ok)

section \<open>The theorems on runs\<close>

definition store_run :: "'v store_lib \<Rightarrow> store_op list \<Rightarrow> db \<Rightarrow> db" where
  "store_run lib ops d = fold (store_step lib) ops d"

definition spec_run :: "store_op list \<Rightarrow> store_spec \<Rightarrow> store_spec" where
  "spec_run ops s = fold spec_step ops s"

definition opened_db :: db where
  "opened_db = empty_db\<lparr>db_user_version := 8, db_next_instance := Some 2, db_next_connection := Some 1\<rparr>"

lemma migrate_empty: "migrate empty_db = Ok opened_db"
  by (simp add: migrate_def SCHEMA_VERSION_def empty_db_def opened_db_def upt_rec migration_def insert_or_ignore_def)

lemma opened_rel: "store_rel lib spec_init opened_db"
  by (simp add: store_rel_def spec_init_def opened_db_def empty_db_def table_rel_def grant_rel_def)

lemma run_rel:
  "store_rel lib s d \<Longrightarrow> spec_ok lib s \<Longrightarrow> list_all (op_ok lib) ops \<Longrightarrow>
     store_rel lib (spec_run ops s) (store_run lib ops d) \<and> spec_ok lib (spec_run ops s)"
proof (induction ops arbitrary: s d)
  case (Cons op ops)
  then have "store_rel lib (spec_step op s) (store_step lib op d)" "spec_ok lib (spec_step op s)"
    by (simp_all add: store_step_rel spec_step_ok)
  with Cons.IH Cons.prems(3) show ?case by (simp add: spec_run_def store_run_def)
qed (simp add: spec_run_def store_run_def)

lemmas opened_run = run_rel [OF opened_rel spec_ok_init]

lemma get_rel:
  assumes "store_rel lib s d" and "spec_ok lib s"
  shows "instance_get lib i d = (if fits i then Ok (sp_instances s i) else Err StoreCorrupt)"
    and "connection_get i d = (if fits i then Ok (sp_connections s i) else Err StoreCorrupt)"
    and "layout_get i d = (if fits i then Ok (sp_layouts s i) else Err StoreCorrupt)"
    and "\<exists>ps. instance_list lib d = Ok ps \<and> set ps = ran (sp_instances s)"
    and "\<exists>cs. connection_list d = Ok cs \<and> set cs = ran (sp_connections s)"
    and "\<exists>ls. layout_list d = Ok ls \<and> set ls = ran (sp_layouts s)"
proof -
  from assms(1) have tables: "table_rel (instance_row_of lib) (db_instances d) (sp_instances s)"
    "table_rel connection_row_of (db_connections d) (sp_connections s)"
    "table_rel layout_row_of (db_layouts d) (sp_layouts s)" by (simp_all add: store_rel_def)
  have valid: "instance_ok lib p \<and> pi_id p = i" if "sp_instances s i = Some p" for i p
    using assms(2) that by (auto simp: spec_ok_def instances_ok_def)
  have validc: "stored_connection_ok c \<and> cn_id c = i" if "sp_connections s i = Some c" for i c
    using assms(2) that by (auto simp: spec_ok_def connections_ok_def)
  have validl: "stored_layout_ok l \<and> wl_instance l = i" if "sp_layouts s i = Some l" for i l
    using assms(2) that by (auto simp: spec_ok_def layouts_ok_def)
  show "instance_get lib i d = (if fits i then Ok (sp_instances s i) else Err StoreCorrupt)"
    using instances.read_row [OF tables(1), of i] valid by (cases "fits i") (auto simp: instance_get_def sqlite_i64_fits)
  show "connection_get i d = (if fits i then Ok (sp_connections s i) else Err StoreCorrupt)"
    using connections.read_row [OF tables(2), of i] validc by (cases "fits i") (auto simp: connection_get_def sqlite_i64_fits)
  show "layout_get i d = (if fits i then Ok (sp_layouts s i) else Err StoreCorrupt)"
    using layouts.read_row [OF tables(3), of i] validl by (cases "fits i") (auto simp: layout_get_def sqlite_i64_fits)
  show "\<exists>ps. instance_list lib d = Ok ps \<and> set ps = ran (sp_instances s)"
    using instances.read_all [OF tables(1)] valid by (simp add: instance_list_def ran_def)
  show "\<exists>cs. connection_list d = Ok cs \<and> set cs = ran (sp_connections s)"
    using connections.read_all [OF tables(2)] validc by (simp add: connection_list_def ran_def)
  show "\<exists>ls. layout_list d = Ok ls \<and> set ls = ran (sp_layouts s)"
    using layouts.read_rows [OF tables(3)] validl by (simp add: layout_list_def ran_def)
qed

text \<open>C39: The store implements its specification: after any sequence of operations on a database opened
  for the first time, reading an instance, a connection or a layout returns exactly what the abstract
  store holds (or refuses an identifier beyond 63 bits), no row fails to load, and the lists of instances, of
  connections and of layouts are complete.  The arguments of the operations are what the types of the code guarantee
  (references to installations, credential references, \<open>f32\<close> geometry), and every configuration that is written is one
  that the JSON library reads back unchanged from its own text; for a configuration it does not read back, nothing is
  claimed.\<close>

theorem store_refines_specification:
  assumes "list_all (op_ok lib) ops"
  shows "\<exists>d0. migrate empty_db = Ok d0
    \<and> (\<forall>i. instance_get lib i (store_run lib ops d0)
          = (if fits i then Ok (sp_instances (spec_run ops spec_init) i) else Err StoreCorrupt))
    \<and> (\<forall>c. connection_get c (store_run lib ops d0)
          = (if fits c then Ok (sp_connections (spec_run ops spec_init) c) else Err StoreCorrupt))
    \<and> (\<forall>i. layout_get i (store_run lib ops d0)
          = (if fits i then Ok (sp_layouts (spec_run ops spec_init) i) else Err StoreCorrupt))
    \<and> (\<exists>ps. instance_list lib (store_run lib ops d0) = Ok ps \<and> set ps = ran (sp_instances (spec_run ops spec_init)))
    \<and> (\<exists>cs. connection_list (store_run lib ops d0) = Ok cs \<and> set cs = ran (sp_connections (spec_run ops spec_init)))
    \<and> (\<exists>ls. layout_list (store_run lib ops d0) = Ok ls \<and> set ls = ran (sp_layouts (spec_run ops spec_init)))"
proof -
  note run = opened_run [OF assms]
  show ?thesis
    by (intro exI [of _ opened_db] conjI allI migrate_empty get_rel(1-6) [OF conjunct1 [OF run] conjunct2 [OF run]])
qed

text \<open>What a step does to one instance.\<close>

definition instance_later :: "plugin_instance \<Rightarrow> plugin_instance \<Rightarrow> bool" where
  "instance_later p q \<longleftrightarrow> pi_id q = pi_id p \<and> ir_plugin (pi_installation q) = ir_plugin (pi_installation p)
     \<and> pi_created_at q = pi_created_at p \<and> pi_updated_at p \<le> pi_updated_at q
     \<and> uint (pi_generation p) \<le> uint (pi_generation q)"

lemma instance_later_trans: "instance_later p q \<Longrightarrow> instance_later q r \<Longrightarrow> instance_later p r"
  by (auto simp: instance_later_def)

lemma instance_later_refl [simp]: "instance_later p p"
  by (simp add: instance_later_def)

text \<open>New rollback records for the instance.\<close>

definition rolled_back :: "u64 \<Rightarrow> rollback_row list \<Rightarrow> bool" where
  "rolled_back i rows \<longleftrightarrow> (\<exists>e \<in> set rows. bw_instance e = uint i)"

lemma spec_step_instance:
  assumes "spec_ok lib s"
  shows "(\<exists>new. sp_rollbacks (spec_step op s) = sp_rollbacks s @ new
      \<and> (\<forall>p q. sp_instances s i = Some p \<and> sp_instances (spec_step op s) i = Some q \<longrightarrow>
            instance_later p q \<and> (pi_installation q \<noteq> pi_installation p \<longrightarrow> rolled_back i new)))
    \<and> (uint i < sp_next_instance s \<and> sp_instances s i = None \<longrightarrow> sp_instances (spec_step op s) i = None)
    \<and> sp_next_instance s \<le> sp_next_instance (spec_step op s)"
proof (cases op)
  case (CreateInstance r c desired t)
  have i: "uint (word_of_int (sp_next_instance s) :: u64) = sp_next_instance s"
    using assms by (simp add: spec_ok_def instances_ok_def uint_word_of_int)
  have "sp_instances s (word_of_int (sp_next_instance s)) = None"
    using assms i unfolding spec_ok_def instances_ok_def by (metis not_None_eq less_irrefl)
  with CreateInstance i show ?thesis by (auto simp: Let_def)
next
  case (RollbackInstallation j cur target reason t)
  then show ?thesis
    by (auto simp: spec_rollback_def rolled_back_def rollback_entry_def instance_later_def rollback_target_def
        split: option.splits)
qed (auto simp: spec_update_instance_def instance_later_def spec_update_connection_def Let_def generation_Suc
    split: option.splits result.splits)

lemma spec_run_instance:
  "spec_ok lib s \<Longrightarrow> list_all (op_ok lib) ops \<Longrightarrow>
    (\<exists>new. sp_rollbacks (spec_run ops s) = sp_rollbacks s @ new
      \<and> (\<forall>p q. sp_instances s i = Some p \<and> sp_instances (spec_run ops s) i = Some q \<longrightarrow>
            instance_later p q \<and> (pi_installation q \<noteq> pi_installation p \<longrightarrow> rolled_back i new)))
    \<and> (uint i < sp_next_instance s \<and> sp_instances s i = None \<longrightarrow> sp_instances (spec_run ops s) i = None)"
proof (induction ops arbitrary: s)
  case (Cons op ops)
  let ?s = "spec_step op s"
  have ok: "spec_ok lib ?s" using Cons.prems by (simp add: spec_step_ok)
  note step = spec_step_instance [OF Cons.prems(1), of op i]
  note rest = Cons.IH [OF ok]
  from step obtain new1 where new1: "sp_rollbacks ?s = sp_rollbacks s @ new1"
    "\<And>p q. sp_instances s i = Some p \<Longrightarrow> sp_instances ?s i = Some q \<Longrightarrow>
      instance_later p q \<and> (pi_installation q \<noteq> pi_installation p \<longrightarrow> rolled_back i new1)" by blast
  from rest Cons.prems(2) obtain new2 where new2: "sp_rollbacks (spec_run ops ?s) = sp_rollbacks ?s @ new2"
    "\<And>p q. sp_instances ?s i = Some p \<Longrightarrow> sp_instances (spec_run ops ?s) i = Some q \<Longrightarrow>
      instance_later p q \<and> (pi_installation q \<noteq> pi_installation p \<longrightarrow> rolled_back i new2)"
    and gone: "uint i < sp_next_instance ?s \<Longrightarrow> sp_instances ?s i = None \<Longrightarrow> sp_instances (spec_run ops ?s) i = None"
    by auto
  have run: "spec_run (op # ops) s = spec_run ops ?s" by (simp add: spec_run_def)
  have both: "instance_later p q \<and> (pi_installation q \<noteq> pi_installation p \<longrightarrow> rolled_back i (new1 @ new2))"
    if p: "sp_instances s i = Some p" and q: "sp_instances (spec_run ops ?s) i = Some q" for p q
  proof -
    have "uint i < sp_next_instance s" using Cons.prems(1) p by (auto simp: spec_ok_def instances_ok_def)
    with step have "uint i < sp_next_instance ?s" by simp
    with gone q obtain m where m: "sp_instances ?s i = Some m" by (cases "sp_instances ?s i") auto
    show ?thesis
      using new1(2) [OF p m] new2(2) [OF m q] instance_later_trans [of p m q]
      by (auto simp: rolled_back_def)
  qed
  have "\<exists>new. sp_rollbacks (spec_run ops ?s) = sp_rollbacks s @ new
      \<and> (\<forall>p q. sp_instances s i = Some p \<and> sp_instances (spec_run ops ?s) i = Some q \<longrightarrow>
            instance_later p q \<and> (pi_installation q \<noteq> pi_installation p \<longrightarrow> rolled_back i new))"
    using both new1(1) new2(1) by (intro exI [of _ "new1 @ new2"]) simp
  moreover have "uint i < sp_next_instance s \<and> sp_instances s i = None \<longrightarrow> sp_instances (spec_run ops ?s) i = None"
    using step gone by auto
  ultimately show ?case unfolding run by blast
qed (auto simp: spec_run_def)

section \<open>History and references\<close>

lemma store_run_append: "store_run lib (ops @ ops2) d = store_run lib ops2 (store_run lib ops d)"
  by (simp add: store_run_def)

lemma spec_run_append: "spec_run (ops @ ops2) s = spec_run ops2 (spec_run ops s)"
  by (simp add: spec_run_def)

text \<open>An instance that was read once has an allocated identifier, even after it was deleted.\<close>

lemma spec_gone:
  assumes ok: "spec_ok lib s" and ops: "list_all (op_ok lib) ops" "list_all (op_ok lib) ops2"
    and p: "sp_instances s i = Some p" and none: "sp_instances (spec_run ops s) i = None"
  shows "sp_instances (spec_run ops2 (spec_run ops s)) i = None"
proof -
  have mono: "sp_next_instance s' \<le> sp_next_instance (spec_run os s')" if "spec_ok lib s'" "list_all (op_ok lib) os" for os s'
    using that
  proof (induction os arbitrary: s')
    case (Cons a os)
    then have "spec_ok lib (spec_step a s')" by (simp add: spec_step_ok)
    with Cons.IH [of "spec_step a s'"] Cons.prems spec_step_instance [of lib s' a 0] show ?case by (simp add: spec_run_def)
  qed (simp add: spec_run_def)
  have run: "spec_ok lib (spec_run ops s)" using ok ops(1)
  proof (induction ops arbitrary: s)
    case (Cons a os)
    then show ?case using spec_step_ok [of lib s a] by (simp add: spec_run_def)
  qed (simp add: spec_run_def)
  have "uint i < sp_next_instance s" using ok p by (auto simp: spec_ok_def instances_ok_def)
  with mono [OF ok ops(1)] have "uint i < sp_next_instance (spec_run ops s)" by simp
  with spec_run_instance [OF run ops(2), of i] none show ?thesis by blast
qed

text \<open>C40: The history of an instance: whatever operations run on the store between two reads, an
  instance keeps its identifier, its plugin and its creation time, its update time and its generation
  never go back, and its installation differs only when a rollback of this instance was recorded; an
  identifier whose instance was deleted is never given to another instance.\<close>

theorem instance_history:
  assumes ops: "list_all (op_ok lib) ops" "list_all (op_ok lib) ops2" "list_all (op_ok lib) ops3"
    and before: "instance_get lib i (store_run lib ops opened_db) = Ok (Some p)"
  shows "instance_get lib i (store_run lib (ops @ ops2) opened_db) = Ok None
      \<and> instance_get lib i (store_run lib (ops @ ops2 @ ops3) opened_db) = Ok None
    \<or> (\<exists>q new. instance_get lib i (store_run lib (ops @ ops2) opened_db) = Ok (Some q)
        \<and> pi_id q = i \<and> ir_plugin (pi_installation q) = ir_plugin (pi_installation p)
        \<and> pi_created_at q = pi_created_at p \<and> pi_updated_at p \<le> pi_updated_at q
        \<and> pi_generation p \<le> pi_generation q
        \<and> db_rollbacks (store_run lib (ops @ ops2) opened_db) = db_rollbacks (store_run lib ops opened_db) @ new
        \<and> (pi_installation q \<noteq> pi_installation p \<longrightarrow> (\<exists>e \<in> set new. bw_instance e = uint i)))"
proof -
  let ?s = "spec_run ops spec_init" let ?s' = "spec_run (ops @ ops2) spec_init"
  note r = opened_run [OF ops(1)]
  have r': "store_rel lib ?s' (store_run lib (ops @ ops2) opened_db)" "spec_ok lib ?s'"
    using opened_run [of lib "ops @ ops2"] ops by simp_all
  have r'': "store_rel lib (spec_run (ops @ ops2 @ ops3) spec_init) (store_run lib (ops @ ops2 @ ops3) opened_db)"
    "spec_ok lib (spec_run (ops @ ops2 @ ops3) spec_init)"
    using opened_run [of lib "ops @ ops2 @ ops3"] ops by simp_all
  have fits: "fits i" and p: "sp_instances ?s i = Some p"
    using before get_rel(1) [OF conjunct1 [OF r] conjunct2 [OF r], of i] by (auto split: if_splits)
  have id: "pi_id p = i" using r p by (auto simp: spec_ok_def instances_ok_def)
  show ?thesis
  proof (cases "sp_instances ?s' i")
    case None
    then have "sp_instances (spec_run (ops @ ops2 @ ops3) spec_init) i = None"
      using spec_gone [of lib ?s ops2 ops3 i p] r ops(2,3) p by (simp add: spec_run_append)
    with None fits get_rel(1) [OF r', of i] get_rel(1) [OF r'', of i] show ?thesis by simp
  next
    case (Some q)
    from spec_run_instance [OF conjunct2 [OF r] ops(2), of i] p Some
    obtain new where new: "sp_rollbacks ?s' = sp_rollbacks ?s @ new" "instance_later p q"
      "pi_installation q \<noteq> pi_installation p \<longrightarrow> rolled_back i new"
      by (auto simp: spec_run_append)
    have roll: "db_rollbacks (store_run lib (ops @ ops2) opened_db) = db_rollbacks (store_run lib ops opened_db) @ new"
      using new(1) r r'(1) by (simp add: store_rel_def)
    from Some fits get_rel(1) [OF r', of i] have "instance_get lib i (store_run lib (ops @ ops2) opened_db) = Ok (Some q)"
      by simp
    with new(2,3) roll id show ?thesis
      by (intro disjI2 exI [of _ q] exI [of _ new]) (auto simp: instance_later_def rolled_back_def word_le_def)
  qed
qed

text \<open>Reading the grants of an instance.\<close>

lemma read_grants:
  "list_all (\<lambda>((gi, gc), t). 0 \<le> gi \<and> 0 \<le> gc \<and> 0 \<le> t) rows \<Longrightarrow>
   try_fold (\<lambda>((gi, gc), t) acc.
       try_bind (read_u64 gi) (\<lambda>gi'. try_bind (read_u64 gc) (\<lambda>gc'. try_bind (read_u64 t) (\<lambda>t'.
         Ok (acc @ [\<lparr>cg_instance = gi', cg_connection = gc', cg_granted_at = t'\<rparr>]))))) rows acc
     = Ok (acc @ map (\<lambda>((gi, gc), t). \<lparr>cg_instance = word_of_int gi, cg_connection = word_of_int gc,
             cg_granted_at = word_of_int t\<rparr>) rows)"
  by (induction rows arbitrary: acc) (auto simp: read_u64_def)

lemma grants_rel:
  assumes rel: "grant_rel (db_grants d) f" and fits: "fits i"
  shows "\<exists>gs. grants_for_instance i d = Ok gs
    \<and> (\<forall>g. g \<in> set gs \<longleftrightarrow> cg_instance g = i \<and> f (i, cg_connection g) = Some (cg_granted_at g))"
proof -
  let ?rows = "filter (\<lambda>e. fst (fst e) = uint i) (db_grants d)"
  have wf: "bt_wf (db_grants d)" using rel by (simp add: grant_rel_def)
  have row: "((gi, gc), t) \<in> set (db_grants d) \<longleftrightarrow>
      (\<exists>(a :: u64) (c :: u64) (t' :: u64). gi = uint a \<and> gc = uint c \<and> t = uint t' \<and> f (a, c) = Some t')" for gi gc t
  proof -
    have "((gi, gc), t) \<in> set (db_grants d) \<longleftrightarrow> bt_lookup (gi, gc) (db_grants d) = Some t"
      using wf by (auto simp: bt_lookup_in dest: bt_lookup_Some_in)
    also have "\<dots> \<longleftrightarrow> (\<exists>(a :: u64) (c :: u64) (t' :: u64). gi = uint a \<and> gc = uint c \<and> t = uint t' \<and> f (a, c) = Some t')"
    proof
      assume look: "bt_lookup (gi, gc) (db_grants d) = Some t"
      with rel obtain a c :: u64 where "(gi, gc) = (uint a, uint c)"
        unfolding grant_rel_def by (metis option.distinct(1))
      moreover from rel have "bt_lookup (uint a, uint c) (db_grants d) = map_option uint (f (a, c))"
        by (simp add: grant_rel_def)
      ultimately show "\<exists>(a :: u64) (c :: u64) (t' :: u64). gi = uint a \<and> gc = uint c \<and> t = uint t' \<and> f (a, c) = Some t'"
        using look by auto
    qed (use rel in \<open>auto simp: grant_rel_def\<close>)
    finally show ?thesis .
  qed
  have all: "list_all (\<lambda>((gi, gc), t). 0 \<le> gi \<and> 0 \<le> gc \<and> 0 \<le> t) ?rows"
    by (auto simp: list_all_iff row)
  let ?gs = "map (\<lambda>((gi, gc), t). \<lparr>cg_instance = word_of_int gi, cg_connection = word_of_int gc,
             cg_granted_at = word_of_int t\<rparr>) ?rows :: connection_grant list"
  have "grants_for_instance i d = Ok ?gs"
    using fits read_grants [OF all, of "[]"] by (simp add: grants_for_instance_def sqlite_i64_fits)
  moreover have "g \<in> set ?gs \<longleftrightarrow> cg_instance g = i \<and> f (i, cg_connection g) = Some (cg_granted_at g)" for g
  proof
    assume "g \<in> set ?gs"
    then show "cg_instance g = i \<and> f (i, cg_connection g) = Some (cg_granted_at g)" by (auto simp: row dest!: unsigned_word_eqI)
  next
    assume g: "cg_instance g = i \<and> f (i, cg_connection g) = Some (cg_granted_at g)"
    then have "((uint i, uint (cg_connection g)), uint (cg_granted_at g)) \<in> set ?rows" by (auto simp: row)
    moreover have "(\<lambda>((gi, gc), t). \<lparr>cg_instance = word_of_int gi, cg_connection = word_of_int gc,
             cg_granted_at = word_of_int t\<rparr>) ((uint i, uint (cg_connection g)), uint (cg_granted_at g)) = g"
      using g by (cases g) simp
    ultimately show "g \<in> set ?gs" by (metis (no_types, lifting) image_eqI list.set_map)
  qed
  ultimately show ?thesis by blast
qed

text \<open>The grants are consistent: after any sequence of operations, the grants listed for an
  instance are grants of this instance, each names a connection that can still be read, and the
  instance itself is stored; deleting an instance or revoking a connection leaves no dangling grant,
  and a connection with a grant cannot be deleted.\<close>

theorem grants_refer_to_stored_objects:
  assumes ops: "list_all (op_ok lib) ops"
    and grants: "grants_for_instance i (store_run lib ops opened_db) = Ok gs" and g: "g \<in> set gs"
  shows "cg_instance g = i
    \<and> (\<exists>p. instance_get lib i (store_run lib ops opened_db) = Ok (Some p))
    \<and> (\<exists>c. connection_get (cg_connection g) (store_run lib ops opened_db) = Ok (Some c))
    \<and> connection_delete_unreferenced (cg_connection g) (store_run lib ops opened_db)
        = (Ok False, store_run lib ops opened_db)"
proof -
  let ?s = "spec_run ops spec_init" let ?d = "store_run lib ops opened_db" let ?c = "cg_connection g"
  note r = opened_run [OF ops]
  have fits: "fits i" using grants by (auto simp: grants_for_instance_def sqlite_i64_fits split: if_splits)
  have gr: "grant_rel (db_grants ?d) (sp_grants ?s)" using r by (simp add: store_rel_def)
  from grants_rel [OF gr fits] grants g have g': "cg_instance g = i" "sp_grants ?s (i, ?c) = Some (cg_granted_at g)" by auto
  with r have ex: "sp_instances ?s i \<noteq> None" "sp_connections ?s ?c \<noteq> None" by (auto simp: spec_ok_def grants_ok_def)
  then obtain p c where p: "sp_instances ?s i = Some p" and c: "sp_connections ?s ?c = Some c" by auto
  have cfits: "fits ?c" using r c by (force simp: spec_ok_def connections_ok_def fits_def)
  have "bt_lookup (uint i, uint ?c) (db_grants ?d) = Some (uint (cg_granted_at g))" using gr g' by (simp add: grant_rel_def)
  then have "((uint i, uint ?c), uint (cg_granted_at g)) \<in> set (db_grants ?d)" by (rule bt_lookup_Some_in)
  then have refd: "list_ex (\<lambda>e. snd (fst e) = uint ?c) (db_grants ?d)" by (force simp: list_ex_iff)
  have "connection_delete_unreferenced ?c ?d = (Ok False, ?d)"
    using refd cfits by (auto simp: connection_delete_unreferenced_def sqlite_i64_fits split: option.splits)
  with g'(1) p c fits cfits get_rel(1,2) [OF conjunct1 [OF r] conjunct2 [OF r]] show ?thesis by simp
qed

section \<open>Concrete runs\<close>

definition sample_lib :: "string store_lib" where
  "sample_lib = \<lparr>sl_semver = Some, sl_json_text = (\<lambda>_. ''{}''), sl_json_read = (\<lambda>_. Some (JObj []))\<rparr>"

definition sample_ref :: "string \<Rightarrow> installation_ref" where
  "sample_ref version = \<lparr>ir_plugin = ''dev.notes'', ir_version = version, ir_digest = replicate 32 CHR ''d''\<rparr>"

definition sample_ops :: "store_op list" where
  "sample_ops =
     [CreateInstance (sample_ref ''1.0.0'') [] DesiredStopped 5,
      CreateConnection ''github'' ''alice'' ''cred://a'' 5,
      GrantConnection 2 1 6]"

lemma sample_ref_ok: "installation_ok sample_lib (sample_ref v)"
proof -
  have "validate_plugin_id ''dev.notes'' = Ok ()" by code_simp
  then show ?thesis by (simp add: installation_ok_def sample_ref_def sample_lib_def)
qed

lemma sample_config_ok: "config_ok sample_lib []"
  by (simp add: config_ok_def config_new_def sample_lib_def MAX_INSTANCE_CONFIG_BYTES_def MAX_INSTANCE_CONFIG_DEPTH_def)

lemma sample_credential: "credential_ref_new ''cred://a'' = Ok ''cred://a''"
  by code_simp

lemma sample_ops_ok: "list_all (op_ok sample_lib) sample_ops"
  by (simp add: sample_ops_def sample_ref_ok sample_config_ok sample_credential)

definition sample_instance :: plugin_instance where
  "sample_instance =
     \<lparr>pi_id = 2, pi_installation = sample_ref ''1.0.0'', pi_config = [], pi_desired = DesiredStopped,
      pi_generation = 0, pi_created_at = 5, pi_updated_at = 5\<rparr>"

lemma sample_connection:
  "connection_restore 1 ''github'' ''alice'' c HealthUnknown 0 t t =
     Ok \<lparr>cn_id = 1, cn_provider = ''github'', cn_account_identity = ''alice'', cn_credential = c,
         cn_health = HealthUnknown, cn_credential_generation = 0, cn_created_at = t, cn_updated_at = t\<rparr>"
proof -
  have "validate_token ''github'' 64 = Ok ()" "validate_text ''alice'' 256 = Ok ()" by code_simp+
  then show ?thesis by (simp add: connection_restore_def)
qed

lemma sample_state:
  "sp_instances (spec_run sample_ops spec_init) = [2 \<mapsto> sample_instance]"
  "sp_grants (spec_run sample_ops spec_init) = [(2, 1) \<mapsto> 6]"
  "sp_rollbacks (spec_run sample_ops spec_init) = []"
  "sp_next_instance (spec_run sample_ops spec_init) = 3"
  by (simp_all add: spec_run_def sample_ops_def spec_init_def fits_def sample_instance_def sample_connection
      credential_free_def)

lemma sample_get: "instance_get sample_lib 2 (store_run sample_lib sample_ops opened_db) = Ok (Some sample_instance)"
  using opened_run [OF sample_ops_ok]
  by (simp add: get_rel(1) [of _ "spec_run sample_ops spec_init"] sample_state fits_def)

lemma sample_grant:
  "\<exists>gs. grants_for_instance 2 (store_run sample_lib sample_ops opened_db) = Ok gs
     \<and> \<lparr>cg_instance = 2, cg_connection = 1, cg_granted_at = 6\<rparr> \<in> set gs"
proof -
  have "grant_rel (db_grants (store_run sample_lib sample_ops opened_db)) (sp_grants (spec_run sample_ops spec_init))"
    using opened_run [OF sample_ops_ok] by (simp add: store_rel_def)
  from grants_rel [OF this, of 2] show ?thesis by (auto simp: fits_def sample_state)
qed

text \<open>The theorems on the sample run.\<close>

theorem store_refines_specification_witness:
  "\<exists>d0. migrate empty_db = Ok d0
     \<and> instance_get sample_lib 2 (store_run sample_lib sample_ops d0) = Ok (Some sample_instance)"
proof -
  obtain d0 where "migrate empty_db = Ok d0"
    "\<forall>i. instance_get sample_lib i (store_run sample_lib sample_ops d0)
        = (if fits i then Ok (sp_instances (spec_run sample_ops spec_init) i) else Err StoreCorrupt)"
    using store_refines_specification [OF sample_ops_ok] by blast
  then show ?thesis by (intro exI [of _ d0]) (simp add: fits_def sample_state)
qed

theorem instance_history_witness:
  "instance_get sample_lib 2 (store_run sample_lib (sample_ops @ [DeleteInstance 2]) opened_db) = Ok None
      \<and> instance_get sample_lib 2 (store_run sample_lib (sample_ops @ [DeleteInstance 2] @ sample_ops) opened_db) = Ok None
    \<or> (\<exists>q. instance_get sample_lib 2 (store_run sample_lib (sample_ops @ [DeleteInstance 2]) opened_db) = Ok (Some q)
        \<and> pi_id q = 2)"
proof -
  have "list_all (op_ok sample_lib) [DeleteInstance 2]" by simp
  from instance_history [OF sample_ops_ok this sample_ops_ok sample_get] show ?thesis by blast
qed

theorem grants_refer_to_stored_objects_witness:
  "connection_delete_unreferenced 1 (store_run sample_lib sample_ops opened_db)
     = (Ok False, store_run sample_lib sample_ops opened_db)"
proof -
  obtain gs where "grants_for_instance 2 (store_run sample_lib sample_ops opened_db) = Ok gs"
    "\<lparr>cg_instance = 2, cg_connection = 1, cg_granted_at = 6\<rparr> \<in> set gs"
    using sample_grant by blast
  from grants_refer_to_stored_objects [OF sample_ops_ok this] show ?thesis by simp
qed

end
