(* ===== verification/Files.thy ===== *)
theory Files
  imports Manifest Install_Digest "HOL-Library.Sublist"
begin

text \<open>
  The part of \<open>std::fs\<close> and \<open>std::path\<close> the program relies on.  An absolute path is the list
  of its segments, a file system maps paths to directories and regular files.  \<open>path_join\<close> is
  \<open>Path::join\<close> followed by the resolution of the path, without symbolic links.  An operation
  that the operating system refuses is \<open>None\<close>; \<open>faults\<close> says which operations fail for reasons
  outside the model (no space, no permission), and the order of a directory's entries is the
  operating system's.
\<close>

type_synonym path = "string list"

datatype node = Directory | Regular bytes

type_synonym fs = "path \<Rightarrow> node option"

datatype fs_op = OpMkdir path | OpWrite path | OpRename path path | OpRemove path

type_synonym faults = "fs_op \<Rightarrow> bool"

definition path_join :: "path \<Rightarrow> string \<Rightarrow> path" where
  "path_join base name =
     resolve_segments (if starts_with name ''/'' then [] else base) (split_on CHR ''/'' name)"

definition fs_is_dir :: "path \<Rightarrow> fs \<Rightarrow> bool" where
  "fs_is_dir p fs \<longleftrightarrow> fs p = Some Directory"

definition fs_exists :: "path \<Rightarrow> fs \<Rightarrow> bool" where
  "fs_exists p fs \<longleftrightarrow> fs p \<noteq> None"

definition fs_read :: "path \<Rightarrow> fs \<Rightarrow> bytes option" where
  "fs_read p fs = (case fs p of Some (Regular b) \<Rightarrow> Some b | _ \<Rightarrow> None)"

text \<open>\<open>fs::read(base.join(name))\<close>: a name with a NUL is refused.\<close>

definition fs_read_in :: "path \<Rightarrow> string \<Rightarrow> fs \<Rightarrow> bytes option" where
  "fs_read_in base name fs = (if CHR 0x00 \<in> set name then None else fs_read (path_join base name) fs)"

text \<open>\<open>create_dir_all\<close>: every prefix of the path becomes a directory, unless one is a file.\<close>

definition fs_mkdir_all :: "faults \<Rightarrow> path \<Rightarrow> fs \<Rightarrow> fs option" where
  "fs_mkdir_all faults p fs =
     (if faults (OpMkdir p) \<or> (\<exists>q \<in> set (prefixes p). case fs q of Some (Regular _) \<Rightarrow> True | _ \<Rightarrow> False)
      then None else Some (\<lambda>q. if prefix q p then Some Directory else fs q))"

text \<open>\<open>File::create\<close>, \<open>write_all\<close> and \<open>sync_all\<close>.\<close>

definition fs_write :: "faults \<Rightarrow> path \<Rightarrow> bytes \<Rightarrow> fs \<Rightarrow> fs option" where
  "fs_write faults p b fs =
     (if faults (OpWrite p) \<or> p = [] \<or> fs (butlast p) \<noteq> Some Directory \<or> fs p = Some Directory
      then None else Some (fs(p \<mapsto> Regular b)))"

definition fs_remove_tree :: "path \<Rightarrow> fs \<Rightarrow> fs" where
  "fs_remove_tree p fs = (\<lambda>q. if prefix p q then None else fs q)"

text \<open>\<open>remove_dir_all\<close>\<close>

definition fs_remove_dir_all :: "faults \<Rightarrow> path \<Rightarrow> fs \<Rightarrow> fs option" where
  "fs_remove_dir_all faults p fs =
     (if faults (OpRemove p) \<or> fs p \<noteq> Some Directory then None else Some (fs_remove_tree p fs))"

text \<open>\<open>rename\<close> of a directory to a path that does not exist, in an existing parent.\<close>

definition fs_move :: "path \<Rightarrow> path \<Rightarrow> fs \<Rightarrow> fs" where
  "fs_move src dst fs =
     (\<lambda>q. if prefix dst q then fs (src @ drop (length dst) q) else if prefix src q then None else fs q)"

definition fs_rename :: "faults \<Rightarrow> path \<Rightarrow> path \<Rightarrow> fs \<Rightarrow> fs option" where
  "fs_rename faults src dst fs =
     (if faults (OpRename src dst) \<or> fs src \<noteq> Some Directory \<or> dst = [] \<or> fs (butlast dst) \<noteq> Some Directory
        \<or> fs dst \<noteq> None \<or> prefix src dst
      then None else Some (fs_move src dst fs))"

section \<open>Lemmas\<close>

text \<open>A plain segment is a name that path resolution keeps.\<close>

definition plain_segment :: "string \<Rightarrow> bool" where
  "plain_segment s \<longleftrightarrow> s \<noteq> [] \<and> s \<noteq> ''.'' \<and> s \<noteq> ''..'' \<and> CHR ''/'' \<notin> set s"

lemma path_join_plain: "plain_segment s \<Longrightarrow> path_join base s = base @ [s]"
proof -
  assume "plain_segment s"
  moreover from this have "\<not> starts_with s ''/''" by (auto simp: plain_segment_def starts_with_iff)
  ultimately show ?thesis
    by (simp add: path_join_def plain_segment_def split_on_absent)
qed

lemma fs_read_move [simp]: "fs_read (dst @ q) (fs_move src dst fs) = fs_read (src @ q) fs"
  by (simp add: fs_read_def fs_move_def)

lemma fs_move_other: "\<not> prefix dst q \<Longrightarrow> \<not> prefix src q \<Longrightarrow> fs_move src dst fs q = fs q"
  by (simp add: fs_move_def)

lemma fs_remove_other: "\<not> prefix p q \<Longrightarrow> fs_remove_tree p fs q = fs q"
  by (simp add: fs_remove_tree_def)

end
