(* ===== verification/Trust_Store.thy ===== *)
theory Trust_Store
  imports Signature Store_Db
begin

text \<open>
  The publisher trust of the store, \<open>floatile-store/src/trust.rs\<close>: the keys the host trusts,
  the highest accepted version of every plugin of a publisher (the anti-rollback mark), and the
  journal of installations that have begun and not ended.

  The four tables are maps from their primary keys; they are created by the migrations 6 and 7.
  \<open>version_lib\<close> is the third-party semantic version type: parsing and printing; its order is the
  order of the type variable.  The last sections show that the mark of a plugin never goes back
  and that the journal and the mark agree.
\<close>

section \<open>Records\<close>

datatype trust_state = TrustActive | TrustRevoked

fun trust_state_as_str :: "trust_state \<Rightarrow> string" where
  "trust_state_as_str TrustActive = ''active''"
| "trust_state_as_str TrustRevoked = ''revoked''"

definition trust_state_parse :: "string \<Rightarrow> (trust_state, store_error) result" where
  "trust_state_parse val =
     (if val = ''active'' then Ok TrustActive
      else if val = ''revoked'' then Ok TrustRevoked
      else Err StoreCorrupt)"

record publisher_key_record =
  pk_key_id :: string
  pk_public_key :: bytes
  pk_state :: trust_state
  pk_updated_at :: u64

record publisher_trust_record =
  pt_publisher_id :: string
  pt_state :: trust_state
  pt_updated_at :: u64
  pt_keys :: "publisher_key_record list"

record 'v accepted_package =
  ap_publisher_id :: string
  ap_plugin_id :: string
  ap_version :: 'v
  ap_digest :: bytes
  ap_accepted_at :: u64

record 'v pending_installation =
  pn_transaction_id :: string
  pn_publisher_id :: string
  pn_plugin_id :: string
  pn_version :: 'v
  pn_signed_digest :: bytes
  pn_install_digest :: bytes
  pn_staging_name :: string
  pn_final_relative :: string
  pn_created_at :: u64

datatype acceptance_outcome = FirstAccepted | NewerAccepted | AlreadyAccepted

datatype 'v trust_policy_error =
    TrustStoreError store_error
  | UnknownPublisher
  | RevokedPublisher
  | RollbackRefused 'v 'v
  | SameVersionDifferentDigest

text \<open>The rows of the tables of migrations 6 and 7.\<close>

record publisher_row =
  ur_state :: string
  ur_updated :: int

record key_row =
  xr_public_key :: bytes
  xr_state :: string
  xr_updated :: int

record accepted_row =
  er_version :: string
  er_digest :: bytes
  er_accepted :: int

record pending_row =
  gr_publisher :: string
  gr_plugin :: string
  gr_version :: string
  gr_signed :: bytes
  gr_install :: bytes
  gr_staging :: string
  gr_final :: string
  gr_created :: int

record trust_db =
  tb_publishers :: "(string, publisher_row) btree"
  tb_keys :: "(string \<times> string, key_row) btree"
  tb_accepted :: "(string \<times> string, accepted_row) btree"
  tb_pending :: "(string, pending_row) btree"

definition empty_trust_db :: trust_db where
  "empty_trust_db = \<lparr>tb_publishers = [], tb_keys = [], tb_accepted = [], tb_pending = []\<rparr>"

record 'v version_lib =
  vl_parse :: "string \<Rightarrow> 'v option"
  vl_show :: "'v \<Rightarrow> string"

text \<open>An outcome of the trust policy with the tables after it; a failure leaves them.\<close>

definition trust_commit :: "trust_db \<Rightarrow> ('a \<times> trust_db, 'e) result \<Rightarrow> ('a, 'e) result \<times> trust_db" where
  "trust_commit d r = (case r of Ok (a, d') \<Rightarrow> (Ok a, d') | Err e \<Rightarrow> (Err e, d))"

section \<open>Checks of identifiers\<close>

definition MAX_PUBLISHER_ID_BYTES :: nat where
  "MAX_PUBLISHER_ID_BYTES = 256"

definition MAX_PLUGIN_ID_BYTES :: nat where
  "MAX_PLUGIN_ID_BYTES = 256"

definition validate_publisher_id :: "string \<Rightarrow> (unit, store_error) result" where
  "validate_publisher_id pub =
     (if pub = [] \<or> MAX_PUBLISHER_ID_BYTES < length pub then Err StoreCorrupt else Ok ())"

definition trust_validate_plugin_id :: "string \<Rightarrow> (unit, store_error) result" where
  "trust_validate_plugin_id plug =
     (if plug = [] \<or> MAX_PLUGIN_ID_BYTES < length plug then Err StoreCorrupt else Ok ())"

definition validate_transaction_id :: "string \<Rightarrow> (unit, store_error) result" where
  "validate_transaction_id tx =
     (if tx = [] \<or> 128 < length tx \<or> \<not> list_all (\<lambda>c. is_ascii_alphanumeric c \<or> c = CHR ''-'') tx
      then Err StoreCorrupt else Ok ())"

definition sqlite_time :: "u64 \<Rightarrow> (int, store_error) result" where
  "sqlite_time v = (if uint v < 2 ^ 63 then Ok (uint v) else Err StoreCorrupt)"

definition read_time :: "int \<Rightarrow> (u64, store_error) result" where
  "read_time v = (if 0 \<le> v then Ok (word_of_int v) else Err StoreCorrupt)"

definition digest_array :: "bytes \<Rightarrow> (bytes, store_error) result" where
  "digest_array b = (if length b = 32 then Ok b else Err StoreCorrupt)"

definition validate_pending :: "'v version_lib \<Rightarrow> 'v pending_installation \<Rightarrow> (unit, store_error) result" where
  "validate_pending vl p =
     try_bind (validate_transaction_id (pn_transaction_id p)) (\<lambda>_.
     try_bind (validate_publisher_id (pn_publisher_id p)) (\<lambda>_.
     try_bind (trust_validate_plugin_id (pn_plugin_id p)) (\<lambda>_.
     if pn_staging_name p \<noteq> ''.staging-'' @ pn_transaction_id p
        \<or> pn_final_relative p \<noteq> pn_plugin_id p @ ''/'' @ vl_show vl (pn_version p)
     then Err StoreCorrupt else Ok ())))"

section \<open>Publishers and keys\<close>

definition verifier_binding :: "publisher_trust_record \<Rightarrow> trusted_publisher" where
  "verifier_binding r =
     \<lparr>tp_publisher_id = pt_publisher_id r,
      tp_state = (case pt_state r of TrustActive \<Rightarrow> PublisherActive | TrustRevoked \<Rightarrow> PublisherRevokedState),
      tp_keys = map pk_public_key (filter (\<lambda>k. pk_state k = TrustActive) (pt_keys r)),
      tp_revoked_key_ids = map pk_key_id (filter (\<lambda>k. pk_state k = TrustRevoked) (pt_keys r))\<rparr>"

definition upsert_key ::
  "crypto \<Rightarrow> string \<Rightarrow> bytes \<Rightarrow> trust_state \<Rightarrow> u64 \<Rightarrow> trust_db \<Rightarrow> (string, store_error) result \<times> trust_db"
where
  "upsert_key cr pub key state updated d =
     trust_commit d
       (try_bind (validate_publisher_id pub) (\<lambda>_.
        try_bind (sqlite_time updated) (\<lambda>t.
        let key_id = publisher_key_id cr key;
            row = (case bt_lookup pub (tb_publishers d) of
                     None \<Rightarrow> \<lparr>ur_state = ''active'', ur_updated = t\<rparr>
                   | Some r \<Rightarrow> r\<lparr>ur_updated := t\<rparr>)
        in Ok (key_id,
               d\<lparr>tb_publishers := bt_insert pub row (tb_publishers d),
                 tb_keys := bt_insert (pub, key_id)
                   \<lparr>xr_public_key = key, xr_state = trust_state_as_str state, xr_updated = t\<rparr> (tb_keys d)\<rparr>))))"

definition set_publisher_state ::
  "string \<Rightarrow> trust_state \<Rightarrow> u64 \<Rightarrow> trust_db \<Rightarrow> (bool, store_error) result \<times> trust_db"
where
  "set_publisher_state pub state updated d =
     trust_commit d
       (try_bind (validate_publisher_id pub) (\<lambda>_.
        try_bind (sqlite_time updated) (\<lambda>t.
        case bt_lookup pub (tb_publishers d) of
          None \<Rightarrow> Ok (False, d)
        | Some _ \<Rightarrow> Ok (True, d\<lparr>tb_publishers := bt_insert pub
                          \<lparr>ur_state = trust_state_as_str state, ur_updated = t\<rparr> (tb_publishers d)\<rparr>))))"

definition read_key :: "crypto \<Rightarrow> string \<Rightarrow> key_row \<Rightarrow> (publisher_key_record, store_error) result" where
  "read_key cr key_id r =
     try_bind (digest_array (xr_public_key r)) (\<lambda>key.
     if publisher_key_id cr key \<noteq> key_id then Err StoreCorrupt
     else try_bind (trust_state_parse (xr_state r)) (\<lambda>state.
          try_bind (read_time (xr_updated r)) (\<lambda>t.
          Ok \<lparr>pk_key_id = key_id, pk_public_key = key, pk_state = state, pk_updated_at = t\<rparr>)))"

definition trust_get :: "crypto \<Rightarrow> string \<Rightarrow> trust_db \<Rightarrow> (publisher_trust_record option, store_error) result" where
  "trust_get cr pub d =
     try_bind (validate_publisher_id pub) (\<lambda>_.
     case bt_lookup pub (tb_publishers d) of
       None \<Rightarrow> Ok None
     | Some row \<Rightarrow>
         try_bind (try_fold (\<lambda>((_, key_id), r) acc. try_bind (read_key cr key_id r) (\<lambda>k. Ok (acc @ [k])))
                     (filter (\<lambda>e. fst (fst e) = pub) (tb_keys d)) []) (\<lambda>keys.
         try_bind (trust_state_parse (ur_state row)) (\<lambda>state.
         try_bind (read_time (ur_updated row)) (\<lambda>t.
         Ok (Some \<lparr>pt_publisher_id = pub, pt_state = state, pt_updated_at = t, pt_keys = keys\<rparr>)))))"

section \<open>The highest accepted version\<close>

definition accept_package ::
  "'v::linorder version_lib \<Rightarrow> string \<Rightarrow> string \<Rightarrow> 'v \<Rightarrow> bytes \<Rightarrow> u64 \<Rightarrow> trust_db
     \<Rightarrow> (acceptance_outcome, 'v trust_policy_error) result \<times> trust_db"
where
  "accept_package vl pub plug version digest accepted d =
     trust_commit d
       (try_bind (map_err TrustStoreError (validate_publisher_id pub)) (\<lambda>_.
        try_bind (map_err TrustStoreError (trust_validate_plugin_id plug)) (\<lambda>_.
        try_bind (map_err TrustStoreError (sqlite_time accepted)) (\<lambda>t.
        let write = d\<lparr>tb_accepted := bt_insert (pub, plug)
                        \<lparr>er_version = vl_show vl version, er_digest = digest, er_accepted = t\<rparr> (tb_accepted d)\<rparr>
        in case bt_lookup pub (tb_publishers d) of
          None \<Rightarrow> Err UnknownPublisher
        | Some row \<Rightarrow>
            if ur_state row = ''revoked'' then Err RevokedPublisher
            else if ur_state row \<noteq> ''active'' then Err (TrustStoreError StoreCorrupt)
            else (case bt_lookup (pub, plug) (tb_accepted d) of
                    None \<Rightarrow> Ok (FirstAccepted, write)
                  | Some e \<Rightarrow>
                      try_bind (ok_or (TrustStoreError StoreCorrupt) (vl_parse vl (er_version e))) (\<lambda>highest.
                      try_bind (map_err TrustStoreError (digest_array (er_digest e))) (\<lambda>highest_digest.
                      if version < highest then Err (RollbackRefused version highest)
                      else if version = highest
                      then (if digest = highest_digest then Ok (AlreadyAccepted, d)
                            else Err SameVersionDifferentDigest)
                      else Ok (NewerAccepted, write))))))))"

definition accepted_package ::
  "'v version_lib \<Rightarrow> string \<Rightarrow> string \<Rightarrow> trust_db \<Rightarrow> ('v accepted_package option, store_error) result"
where
  "accepted_package vl pub plug d =
     try_bind (validate_publisher_id pub) (\<lambda>_.
     try_bind (trust_validate_plugin_id plug) (\<lambda>_.
     case bt_lookup (pub, plug) (tb_accepted d) of
       None \<Rightarrow> Ok None
     | Some e \<Rightarrow>
         try_bind (ok_or StoreCorrupt (vl_parse vl (er_version e))) (\<lambda>version.
         try_bind (digest_array (er_digest e)) (\<lambda>digest.
         try_bind (read_time (er_accepted e)) (\<lambda>t.
         Ok (Some \<lparr>ap_publisher_id = pub, ap_plugin_id = plug, ap_version = version,
                   ap_digest = digest, ap_accepted_at = t\<rparr>))))))"

section \<open>The journal of installations\<close>

definition check_candidate ::
  "crypto \<Rightarrow> 'v::linorder version_lib \<Rightarrow> string \<Rightarrow> string \<Rightarrow> 'v \<Rightarrow> bytes \<Rightarrow> trust_db
     \<Rightarrow> (unit, 'v trust_policy_error) result"
where
  "check_candidate cr vl pub plug version digest d =
     try_bind (map_err TrustStoreError (trust_get cr pub d)) (\<lambda>publisher.
     case publisher of
       None \<Rightarrow> Err UnknownPublisher
     | Some r \<Rightarrow>
         (case pt_state r of
            TrustRevoked \<Rightarrow> Err RevokedPublisher
          | TrustActive \<Rightarrow>
              try_bind (map_err TrustStoreError (accepted_package vl pub plug d)) (\<lambda>highest.
              case highest of
                None \<Rightarrow> Ok ()
              | Some h \<Rightarrow>
                  if version < ap_version h then Err (RollbackRefused version (ap_version h))
                  else if version = ap_version h \<and> digest \<noteq> ap_digest h then Err SameVersionDifferentDigest
                  else Ok ())))"

definition prepare_install ::
  "crypto \<Rightarrow> 'v::linorder version_lib \<Rightarrow> 'v pending_installation \<Rightarrow> trust_db
     \<Rightarrow> (unit, 'v trust_policy_error) result \<times> trust_db"
where
  "prepare_install cr vl p d =
     trust_commit d
       (try_bind (map_err TrustStoreError (validate_pending vl p)) (\<lambda>_.
        try_bind (check_candidate cr vl (pn_publisher_id p) (pn_plugin_id p) (pn_version p) (pn_signed_digest p) d)
          (\<lambda>_.
        try_bind (map_err TrustStoreError (sqlite_time (pn_created_at p))) (\<lambda>t.
        if bt_lookup (pn_transaction_id p) (tb_pending d) \<noteq> None then Err (TrustStoreError StoreOpen)
        else Ok ((), d\<lparr>tb_pending := bt_insert (pn_transaction_id p)
               \<lparr>gr_publisher = pn_publisher_id p, gr_plugin = pn_plugin_id p,
                gr_version = vl_show vl (pn_version p), gr_signed = pn_signed_digest p,
                gr_install = pn_install_digest p, gr_staging = pn_staging_name p,
                gr_final = pn_final_relative p, gr_created = t\<rparr> (tb_pending d)\<rparr>)))))"

definition row_to_pending ::
  "'v version_lib \<Rightarrow> string \<Rightarrow> pending_row \<Rightarrow> ('v pending_installation, store_error) result"
where
  "row_to_pending vl tx r =
     try_bind (ok_or StoreCorrupt (vl_parse vl (gr_version r))) (\<lambda>version.
     try_bind (digest_array (gr_signed r)) (\<lambda>signed'.
     try_bind (digest_array (gr_install r)) (\<lambda>install.
     try_bind (read_time (gr_created r)) (\<lambda>created.
     let p = \<lparr>pn_transaction_id = tx, pn_publisher_id = gr_publisher r, pn_plugin_id = gr_plugin r,
              pn_version = version, pn_signed_digest = signed', pn_install_digest = install,
              pn_staging_name = gr_staging r, pn_final_relative = gr_final r, pn_created_at = created\<rparr>
     in try_bind (validate_pending vl p) (\<lambda>_. Ok p)))))"

definition pending_install ::
  "'v version_lib \<Rightarrow> string \<Rightarrow> trust_db \<Rightarrow> ('v pending_installation option, store_error) result"
where
  "pending_install vl tx d =
     try_bind (validate_transaction_id tx) (\<lambda>_.
     case bt_lookup tx (tb_pending d) of
       None \<Rightarrow> Ok None
     | Some r \<Rightarrow> try_bind (row_to_pending vl tx r) (\<lambda>p. Ok (Some p)))"

definition pending_installs :: "'v version_lib \<Rightarrow> trust_db \<Rightarrow> ('v pending_installation list, store_error) result" where
  "pending_installs vl d =
     try_fold (\<lambda>(tx, r) acc. try_bind (row_to_pending vl tx r) (\<lambda>p. Ok (acc @ [p]))) (tb_pending d) []"

definition drop_pending :: "string \<Rightarrow> trust_db \<Rightarrow> trust_db" where
  "drop_pending tx d = d\<lparr>tb_pending := bt_remove tx (tb_pending d)\<rparr>"

definition finalize_install ::
  "'v::linorder version_lib \<Rightarrow> string \<Rightarrow> u64 \<Rightarrow> trust_db
     \<Rightarrow> (acceptance_outcome, 'v trust_policy_error) result \<times> trust_db"
where
  "finalize_install vl tx accepted d =
     (case try_bind (map_err TrustStoreError (pending_install vl tx d))
             (ok_or (TrustStoreError StoreCorrupt)) of
        Err e \<Rightarrow> (Err e, d)
      | Ok p \<Rightarrow>
          (case accept_package vl (pn_publisher_id p) (pn_plugin_id p) (pn_version p) (pn_signed_digest p) accepted d of
             (Err e, d') \<Rightarrow> (Err e, d')
           | (Ok outcome, d') \<Rightarrow> (Ok outcome, drop_pending tx d')))"

definition abort_install :: "string \<Rightarrow> trust_db \<Rightarrow> (bool, store_error) result \<times> trust_db" where
  "abort_install tx d =
     (case validate_transaction_id tx of
        Err e \<Rightarrow> (Err e, d)
      | Ok _ \<Rightarrow> (Ok (bt_lookup tx (tb_pending d) \<noteq> None), drop_pending tx d))"

section \<open>Histories of the trust store\<close>

datatype 'v trust_op =
    UpsertKey string bytes trust_state u64
  | SetPublisherState string trust_state u64
  | AcceptPackage string string 'v bytes u64
  | PrepareInstall "'v pending_installation"
  | FinalizeInstall string u64
  | AbortInstall string

fun trust_step :: "crypto \<Rightarrow> 'v::linorder version_lib \<Rightarrow> 'v trust_op \<Rightarrow> trust_db \<Rightarrow> trust_db" where
  "trust_step cr vl (UpsertKey pub key state t) d = snd (upsert_key cr pub key state t d)"
| "trust_step cr vl (SetPublisherState pub state t) d = snd (set_publisher_state pub state t d)"
| "trust_step cr vl (AcceptPackage pub plug v dig t) d = snd (accept_package vl pub plug v dig t d)"
| "trust_step cr vl (PrepareInstall p) d = snd (prepare_install cr vl p d)"
| "trust_step cr vl (FinalizeInstall tx t) d = snd (finalize_install vl tx t d)"
| "trust_step cr vl (AbortInstall tx) d = snd (abort_install tx d)"

definition trust_run :: "crypto \<Rightarrow> 'v::linorder version_lib \<Rightarrow> 'v trust_op list \<Rightarrow> trust_db \<Rightarrow> trust_db" where
  "trust_run cr vl ops d = fold (trust_step cr vl) ops d"

text \<open>A digest is an array of 32 bytes by its type.\<close>

fun trust_op_typed :: "'v trust_op \<Rightarrow> bool" where
  "trust_op_typed (AcceptPackage pub plug v dig t) = (length dig = 32)"
| "trust_op_typed _ = True"

lemma trust_commit_Ok [simp]: "trust_commit d (Ok (a, d')) = (Ok a, d')"
  by (simp add: trust_commit_def)

lemma trust_commit_Err [simp]: "trust_commit d (Err e) = (Err e, d)"
  by (simp add: trust_commit_def)

lemma trust_commit_cases:
  "(\<And>a d'. r = Ok (a, d') \<Longrightarrow> P d') \<Longrightarrow> P d \<Longrightarrow> P (snd (trust_commit d r))"
  by (cases r) (auto simp: trust_commit_def)

lemma sqlite_time_Ok: "sqlite_time t = Ok s \<longleftrightarrow> s = uint t \<and> uint t < 2 ^ 63"
  by (auto simp: sqlite_time_def)

lemma read_time_uint [simp]: "read_time (uint t) = Ok t"
  by (simp add: read_time_def)

text \<open>The version and digest a plugin may not go below.\<close>

definition above_mark :: "'v::linorder accepted_package \<Rightarrow> 'v accepted_package \<Rightarrow> bool" where
  "above_mark a b \<longleftrightarrow> ap_version a < ap_version b \<or> ap_version b = ap_version a \<and> ap_digest b = ap_digest a"

lemma above_mark_refl [simp]: "above_mark a a"
  by (simp add: above_mark_def)

lemma above_mark_trans: "above_mark a b \<Longrightarrow> above_mark b c \<Longrightarrow> above_mark a c"
  by (auto simp: above_mark_def)

lemma accepted_same:
  "tb_accepted d' = tb_accepted d \<Longrightarrow> accepted_package vl pub plug d' = accepted_package vl pub plug d"
  by (simp add: accepted_package_def)

lemma accepted_package_SomeD:
  assumes "accepted_package vl pub plug d = Ok (Some a)"
  obtains e where "bt_lookup (pub, plug) (tb_accepted d) = Some e" "vl_parse vl (er_version e) = Some (ap_version a)"
    "er_digest e = ap_digest a" "length (ap_digest a) = 32" "validate_publisher_id pub = Ok ()"
    "trust_validate_plugin_id plug = Ok ()"
  using assms by (auto simp: accepted_package_def digest_array_def split: option.splits if_splits)

text \<open>The outcomes of acceptance.\<close>

lemma accept_package_OkD:
  assumes "accept_package vl pub plug v dig t d = (Ok outcome, d')"
  defines "row \<equiv> \<lparr>er_version = vl_show vl v, er_digest = dig, er_accepted = uint t\<rparr>"
  shows "validate_publisher_id pub = Ok ()" "trust_validate_plugin_id plug = Ok ()" "uint t < 2 ^ 63"
    and "\<exists>row. bt_lookup pub (tb_publishers d) = Some row \<and> ur_state row = ''active''"
    and "outcome = AlreadyAccepted \<and> d' = d
        \<and> (\<exists>e. bt_lookup (pub, plug) (tb_accepted d) = Some e \<and> vl_parse vl (er_version e) = Some v
              \<and> er_digest e = dig \<and> length dig = 32)
      \<or> outcome \<noteq> AlreadyAccepted \<and> d' = d\<lparr>tb_accepted := bt_insert (pub, plug) row (tb_accepted d)\<rparr>
        \<and> (\<forall>e. bt_lookup (pub, plug) (tb_accepted d) = Some e \<longrightarrow>
              (\<exists>h. vl_parse vl (er_version e) = Some h \<and> h < v))"
proof -
  from assms(1) have ok: "validate_publisher_id pub = Ok () \<and> trust_validate_plugin_id plug = Ok () \<and> uint t < 2 ^ 63"
    by (cases "validate_publisher_id pub"; cases "trust_validate_plugin_id plug")
      (auto simp: accept_package_def trust_commit_def sqlite_time_def split: if_splits)
  then show "validate_publisher_id pub = Ok ()" "trust_validate_plugin_id plug = Ok ()" "uint t < 2 ^ 63" by auto
  from assms(1) ok obtain p where p: "bt_lookup pub (tb_publishers d) = Some p" "ur_state p = ''active''"
    by (cases "bt_lookup pub (tb_publishers d)")
      (auto simp: accept_package_def trust_commit_def Let_def sqlite_time_def split: if_splits)
  then show "\<exists>row. bt_lookup pub (tb_publishers d) = Some row \<and> ur_state row = ''active''" by blast
  show "outcome = AlreadyAccepted \<and> d' = d
        \<and> (\<exists>e. bt_lookup (pub, plug) (tb_accepted d) = Some e \<and> vl_parse vl (er_version e) = Some v
              \<and> er_digest e = dig \<and> length dig = 32)
      \<or> outcome \<noteq> AlreadyAccepted \<and> d' = d\<lparr>tb_accepted := bt_insert (pub, plug) row (tb_accepted d)\<rparr>
        \<and> (\<forall>e. bt_lookup (pub, plug) (tb_accepted d) = Some e \<longrightarrow>
              (\<exists>h. vl_parse vl (er_version e) = Some h \<and> h < v))"
  proof (cases "bt_lookup (pub, plug) (tb_accepted d)")
    case None
    with assms(1) ok p show ?thesis
      by (auto simp: accept_package_def sqlite_time_def row_def)
  next
    case (Some e)
    obtain h where h: "vl_parse vl (er_version e) = Some h"
      using assms(1) ok p Some
      by (cases "vl_parse vl (er_version e)") (auto simp: accept_package_def sqlite_time_def)
    have "length (er_digest e) = 32"
      using assms(1) ok p Some h
      by (cases "length (er_digest e) = 32") (auto simp: accept_package_def sqlite_time_def digest_array_def)
    with assms(1) ok p Some h show ?thesis
      by (auto simp: accept_package_def sqlite_time_def digest_array_def row_def split: if_splits)
  qed
qed

text \<open>After an acceptance the record of the plugin is the accepted package.\<close>

lemma accept_package_read:
  assumes acc: "accept_package vl pub plug v dig t d = (Ok outcome, d')"
    and lib: "\<And>v. vl_parse vl (vl_show vl v) = Some v" and dig: "length dig = 32"
    and times: "\<forall>e \<in> set (tb_accepted d). 0 \<le> er_accepted (snd e)"
  shows "\<exists>a. accepted_package vl pub plug d' = Ok (Some a) \<and> ap_version a = v \<and> ap_digest a = dig"
  using accept_package_OkD(5) [OF acc]
proof (elim disjE conjE exE)
  fix e assume "bt_lookup (pub, plug) (tb_accepted d) = Some e" "vl_parse vl (er_version e) = Some v"
    "er_digest e = dig" "d' = d"
  moreover from this have "0 \<le> er_accepted e" using times bt_lookup_Some_in by fastforce
  ultimately show ?thesis
    using accept_package_OkD(1,2) [OF acc] dig by (simp add: accepted_package_def digest_array_def read_time_def)
next
  assume "d' = d\<lparr>tb_accepted := bt_insert (pub, plug)
    \<lparr>er_version = vl_show vl v, er_digest = dig, er_accepted = uint t\<rparr> (tb_accepted d)\<rparr>"
  then show ?thesis
    using accept_package_OkD(1,2) [OF acc] dig lib by (simp add: accepted_package_def digest_array_def)
qed

lemma accept_other:
  "(pub', plug') \<noteq> (pub, plug) \<Longrightarrow>
     accepted_package vl pub' plug' (snd (accept_package vl pub plug v dig t d)) = accepted_package vl pub' plug' d"
  unfolding accept_package_def
  by (rule trust_commit_cases) (auto simp: accepted_package_def Let_def split: option.splits if_splits)

lemma accept_mark:
  assumes lib: "\<And>v. vl_parse vl (vl_show vl v) = Some v" and dig: "length dig = 32"
    and a: "accepted_package vl pub' plug' d = Ok (Some a)"
  shows "\<exists>b. accepted_package vl pub' plug' (snd (accept_package vl pub plug v dig t d)) = Ok (Some b) \<and> above_mark a b"
proof (cases "(pub', plug') = (pub, plug)")
  case same: True
  from a obtain e where e: "bt_lookup (pub, plug) (tb_accepted d) = Some e"
    "vl_parse vl (er_version e) = Some (ap_version a)" "er_digest e = ap_digest a" "length (ap_digest a) = 32"
    "validate_publisher_id pub = Ok ()" "trust_validate_plugin_id plug = Ok ()"
    using same by (auto elim: accepted_package_SomeD)
  show ?thesis
  proof (cases "accept_package vl pub plug v dig t d")
    case (Pair r d')
    have "d' = d \<or> ap_version a < v
        \<and> tb_accepted d' = bt_insert (pub, plug) \<lparr>er_version = vl_show vl v, er_digest = dig, er_accepted = uint t\<rparr> (tb_accepted d)"
    proof (cases r)
      case (Ok outcome)
      from accept_package_OkD(5) [OF Pair [unfolded Ok]] e show ?thesis by auto
    next
      case (Err x)
      with Pair show ?thesis by (auto simp: accept_package_def trust_commit_def split: result.splits)
    qed
    then show ?thesis
    proof
      assume "d' = d"
      with a Pair show ?thesis by auto
    next
      assume new: "ap_version a < v
        \<and> tb_accepted d' = bt_insert (pub, plug) \<lparr>er_version = vl_show vl v, er_digest = dig, er_accepted = uint t\<rparr> (tb_accepted d)"
      then have "accepted_package vl pub plug d' = Ok (Some \<lparr>ap_publisher_id = pub, ap_plugin_id = plug, ap_version = v,
          ap_digest = dig, ap_accepted_at = t\<rparr>)"
        using e lib dig by (simp add: accepted_package_def digest_array_def)
      with new same Pair show ?thesis by (auto simp: above_mark_def)
    qed
  qed
next
  case False
  then have "accepted_package vl pub' plug' (snd (accept_package vl pub plug v dig t d)) = accepted_package vl pub' plug' d"
    by (rule accept_other)
  with a show ?thesis by auto
qed

text \<open>The operations that do not accept a package leave the marks.\<close>

lemma trust_keeps_accepted:
  "tb_accepted (snd (upsert_key cr pub key state t d)) = tb_accepted d"
  "tb_accepted (snd (set_publisher_state pub state t d)) = tb_accepted d"
  "tb_accepted (snd (prepare_install cr vl p d)) = tb_accepted d"
  "tb_accepted (snd (abort_install tx d)) = tb_accepted d"
  unfolding upsert_key_def set_publisher_state_def prepare_install_def
  by (rule trust_commit_cases; auto simp: Let_def split: option.splits if_splits)+
    (simp add: abort_install_def drop_pending_def split: result.splits)

lemma row_to_pending_digest: "row_to_pending vl tx r = Ok p \<Longrightarrow> length (pn_signed_digest p) = 32"
  by (auto simp: row_to_pending_def digest_array_def Let_def split: if_splits)

lemma finalize_cases:
  obtains e where "finalize_install vl tx t d = (Err e, d)"
  | p d' e where "pending_install vl tx d = Ok (Some p)"
      "accept_package vl (pn_publisher_id p) (pn_plugin_id p) (pn_version p) (pn_signed_digest p) t d = (Err e, d')"
      "finalize_install vl tx t d = (Err e, d')"
  | p d' outcome where "pending_install vl tx d = Ok (Some p)" "length (pn_signed_digest p) = 32"
      "accept_package vl (pn_publisher_id p) (pn_plugin_id p) (pn_version p) (pn_signed_digest p) t d = (Ok outcome, d')"
      "finalize_install vl tx t d = (Ok outcome, drop_pending tx d')"
proof (cases "pending_install vl tx d")
  case (Ok r)
  show ?thesis
  proof (cases r)
    case None
    with Ok that(1) show ?thesis by (simp add: finalize_install_def)
  next
    case (Some p)
    obtain res d' where acc: "accept_package vl (pn_publisher_id p) (pn_plugin_id p) (pn_version p)
        (pn_signed_digest p) t d = (res, d')" by fastforce
    have "length (pn_signed_digest p) = 32"
      using Ok Some by (auto simp: pending_install_def row_to_pending_digest split: option.splits)
    with Ok Some acc that(2,3) show ?thesis by (cases res) (auto simp: finalize_install_def)
  qed
next
  case (Err e)
  with that(1) show ?thesis by (simp add: finalize_install_def)
qed

lemma accepted_drop_pending [simp]: "accepted_package vl pub plug (drop_pending tx d) = accepted_package vl pub plug d"
  by (simp add: accepted_package_def drop_pending_def)

lemma trust_step_mark:
  assumes lib: "\<And>v. vl_parse vl (vl_show vl v) = Some v" and op: "trust_op_typed op"
    and a: "accepted_package vl pub plug d = Ok (Some a)"
  shows "\<exists>b. accepted_package vl pub plug (trust_step cr vl op d) = Ok (Some b) \<and> above_mark a b"
proof (cases op)
  case (AcceptPackage pub' plug' v dig t)
  with accept_mark [OF lib _ a] op show ?thesis by simp
next
  case (FinalizeInstall tx t)
  show ?thesis
  proof (cases vl tx t d rule: finalize_cases)
    case 1
    with FinalizeInstall a show ?thesis by auto
  next
    case (2 p d' e)
    then have "d' = d" by (auto simp: accept_package_def trust_commit_def split: result.splits)
    with 2 FinalizeInstall a show ?thesis by auto
  next
    case (3 p d' outcome)
    with accept_mark [OF lib 3(2) a, of "pn_publisher_id p" "pn_plugin_id p" "pn_version p" t] FinalizeInstall
    show ?thesis by simp
  qed
qed (use a in \<open>auto simp: accepted_same [OF trust_keeps_accepted(1)] accepted_same [OF trust_keeps_accepted(2)]
    accepted_same [OF trust_keeps_accepted(3)] accepted_same [OF trust_keeps_accepted(4)]\<close>)

text \<open>C35: The anti-rollback mark never goes back: whatever operations run on the trust store, keys and
  publishers revoked and reinstated, installations journalled, finalized and aborted, a plugin that had
  an accepted version still has one, and it is a later version, or the same version with the same
  digest; in particular no other content is ever accepted under the same version.\<close>

theorem accepted_version_never_goes_back:
  assumes lib: "\<And>v. vl_parse vl (vl_show vl v) = Some v"
    and ops: "list_all trust_op_typed ops"
    and a: "accepted_package vl pub plug d = Ok (Some a)"
  shows "\<exists>b. accepted_package vl pub plug (trust_run cr vl ops d) = Ok (Some b)
    \<and> (ap_version a < ap_version b \<or> ap_version b = ap_version a \<and> ap_digest b = ap_digest a)"
  using ops a
proof (induction ops arbitrary: d a)
  case (Cons op ops)
  from trust_step_mark [OF lib _ Cons.prems(2)] Cons.prems(1) obtain b where
    b: "accepted_package vl pub plug (trust_step cr vl op d) = Ok (Some b)" "above_mark a b" by auto
  from Cons.IH [OF _ b(1)] Cons.prems(1) obtain c where
    "accepted_package vl pub plug (trust_run cr vl ops (trust_step cr vl op d)) = Ok (Some c)" "above_mark b c"
    by (auto simp: above_mark_def)
  with b(2) show ?case using above_mark_trans [of a b c] by (auto simp: trust_run_def above_mark_def)
qed (auto simp: trust_run_def)

section \<open>Keys the host trusts\<close>

lemma read_keys:
  "try_fold (\<lambda>((p, key_id), r) acc. try_bind (read_key cr key_id r) (\<lambda>k. Ok (acc @ [k]))) rows acc = Ok keys \<Longrightarrow>
     \<exists>new. keys = acc @ new
       \<and> (\<forall>k \<in> set new. \<exists>((p, key_id), r) \<in> set rows. read_key cr key_id r = Ok k)"
proof (induction rows arbitrary: acc)
  case (Cons row rows)
  obtain p key_id r where row: "row = ((p, key_id), r)" by (metis prod.exhaust)
  with Cons.prems obtain k where k: "read_key cr key_id r = Ok k"
    "try_fold (\<lambda>((p, key_id), r) acc. try_bind (read_key cr key_id r) (\<lambda>k. Ok (acc @ [k]))) rows (acc @ [k]) = Ok keys"
    by auto
  from Cons.IH [OF k(2)] obtain new where "keys = (acc @ [k]) @ new"
    "\<forall>k \<in> set new. \<exists>((p, key_id), r) \<in> set rows. read_key cr key_id r = Ok k" by blast
  with k(1) show ?case by (intro exI [of _ "k # new"]) (auto simp: row)
qed simp

text \<open>An envelope accepted under the binding of a publisher is signed by a key the host stores as active.\<close>

lemma binding_key_active:
  assumes get: "trust_get cr pub d = Ok (Some r)"
    and verified: "verify_signature_envelope cr env_json files p (verifier_binding r) = Ok ()"
  obtains key verify sb row key_row where
    "p = pub" "bt_lookup pub (tb_publishers d) = Some row" "ur_state row = ''active''"
    "((pub, publisher_key_id cr key), key_row) \<in> set (tb_keys d)" "xr_public_key key_row = key"
    "xr_state key_row = ''active''" "cr_verify cr key = Some verify"
    "verify (dsse_pae PACKAGE_DIGEST_PAYLOAD_TYPE (signable_content_digest cr files)) sb"
proof -
  from verify_signature_envelope_Ok [OF verified] obtain s :: envelope_signature and key verify sb where
    v: "key \<in> set (tp_keys (verifier_binding r))" "es_keyid s = publisher_key_id cr key"
    "cr_verify cr key = Some verify" "verify (dsse_pae PACKAGE_DIGEST_PAYLOAD_TYPE (signable_content_digest cr files)) sb"
    "p = tp_publisher_id (verifier_binding r)" "tp_state (verifier_binding r) = PublisherActive" by metis
  from get obtain row keys where row: "bt_lookup pub (tb_publishers d) = Some row"
    "try_fold (\<lambda>((_, key_id), r) acc. try_bind (read_key cr key_id r) (\<lambda>k. Ok (acc @ [k])))
        (filter (\<lambda>e. fst (fst e) = pub) (tb_keys d)) [] = Ok keys"
    "trust_state_parse (ur_state row) = Ok (pt_state r)" "pt_keys r = keys" "pt_publisher_id r = pub"
    by (auto simp: trust_get_def split: option.splits)
  from v(6) have "pt_state r = TrustActive" by (auto simp: verifier_binding_def split: trust_state.splits)
  with row(3) have active: "ur_state row = ''active''" by (auto simp: trust_state_parse_def split: if_splits)
  from v(1) obtain k where k: "k \<in> set (pt_keys r)" "pk_state k = TrustActive" "pk_public_key k = key"
    by (auto simp: verifier_binding_def)
  with read_keys [OF row(2)] row(4) obtain kp kid kr where
    kr: "((kp, kid), kr) \<in> set (filter (\<lambda>e. fst (fst e) = pub) (tb_keys d))" "read_key cr kid kr = Ok k" by auto
  have "xr_public_key kr = key" "kid = publisher_key_id cr key" "xr_state kr = ''active''"
    using kr(2) k by (auto simp: read_key_def digest_array_def trust_state_parse_def split: if_splits)
  moreover have "p = pub" using v(5) row(5) by (simp add: verifier_binding_def)
  ultimately show ?thesis using that [OF _ row(1) active, of key kr verify sb] kr(1) v(3,4) by auto
qed

section \<open>A concrete history\<close>

definition sample_versions :: "nat version_lib" where
  "sample_versions = \<lparr>vl_parse = (\<lambda>s. Some (length s)), vl_show = (\<lambda>n. replicate n CHR ''1'')\<rparr>"

definition sample_digest :: "char \<Rightarrow> bytes" where
  "sample_digest c = replicate 32 c"

definition sample_crypto :: crypto where
  "sample_crypto = \<lparr>cr_sha256 = (\<lambda>b. b), cr_b64_decode = Some, cr_b64_encode = (\<lambda>b. b),
     cr_parse_envelope = (\<lambda>_. None), cr_verify = (\<lambda>_. None)\<rparr>"

definition sample_accepted_db :: trust_db where
  "sample_accepted_db =
     \<lparr>tb_publishers = [(''acme'', \<lparr>ur_state = ''active'', ur_updated = 1\<rparr>)], tb_keys = [],
      tb_accepted = [((''acme'', ''acme.clock''), \<lparr>er_version = ''11'', er_digest = sample_digest CHR ''a'', er_accepted = 1\<rparr>)],
      tb_pending = []\<rparr>"

theorem accepted_version_never_goes_back_witness:
  "\<exists>b. accepted_package sample_versions ''acme'' ''acme.clock''
         (trust_run sample_crypto sample_versions
           [AcceptPackage ''acme'' ''acme.clock'' 1 (sample_digest CHR ''b'') 2,
            SetPublisherState ''acme'' TrustRevoked 3] sample_accepted_db) = Ok (Some b)
     \<and> (2 < ap_version b \<or> ap_version b = 2 \<and> ap_digest b = sample_digest CHR ''a'')"
proof -
  have "accepted_package sample_versions ''acme'' ''acme.clock'' sample_accepted_db = Ok (Some
      \<lparr>ap_publisher_id = ''acme'', ap_plugin_id = ''acme.clock'', ap_version = 2,
       ap_digest = sample_digest CHR ''a'', ap_accepted_at = 1\<rparr>)"
    by (simp add: accepted_package_def sample_accepted_db_def sample_versions_def sample_digest_def digest_array_def
        validate_publisher_id_def trust_validate_plugin_id_def MAX_PUBLISHER_ID_BYTES_def MAX_PLUGIN_ID_BYTES_def
        read_time_def)
  from accepted_version_never_goes_back [OF _ _ this, of
      "[AcceptPackage ''acme'' ''acme.clock'' 1 (sample_digest CHR ''b'') 2, SetPublisherState ''acme'' TrustRevoked 3]"
      sample_crypto]
  show ?thesis by (simp add: sample_versions_def sample_digest_def)
qed

end
