(* ===== verification/Installation.thy ===== *)
theory Installation
  imports Files Instance_Model Trust_Store
begin

text \<open>
  The catalogue of installed plugins, \<open>floatile-store/src/installation.rs\<close>: loading the
  content of an installation directory with every digest recomputed, by exact version, by
  reference, or by the highest version.

  \<open>install_lib\<close> holds the third-party code: the hash functions, the semantic version type and the
  JSON readers and writers.  The lemmas show what a loaded installation satisfies, that a reference
  determines the bytes it loads, and that the highest version is the greatest one present.
\<close>

record 'v install_lib =
  il_crypto :: crypto
  il_versions :: "'v version_lib"
  il_parse_meta :: "bytes \<Rightarrow> install_meta option"
  il_encode_meta :: "install_meta \<Rightarrow> bytes"
  il_parse_manifest :: "bytes \<Rightarrow> manifest option"
  il_parse_json :: "bytes \<Rightarrow> json option"

abbreviation il_sha256 :: "'v install_lib \<Rightarrow> bytes \<Rightarrow> bytes" where
  "il_sha256 lib \<equiv> cr_sha256 (il_crypto lib)"

abbreviation il_semver :: "'v install_lib \<Rightarrow> string \<Rightarrow> 'v option" where
  "il_semver lib \<equiv> vl_parse (il_versions lib)"

record installed_installation =
  ii_dir :: path
  ii_manifest :: manifest
  ii_meta :: install_meta
  ii_files :: file_set

datatype catalog_error =
    CatRead
  | CatInvalidMeta
  | CatDigestMismatch string string
  | CatMetadataMismatch
  | CatInvalidIdentity instance_error
  | CatInvalidManifest manifest_error

fun catalog_error_code :: "catalog_error \<Rightarrow> string" where
  "catalog_error_code CatRead = ''FCAT_READ''"
| "catalog_error_code CatInvalidMeta = ''FCAT_INVALID_META''"
| "catalog_error_code (CatDigestMismatch i f) = ''FCAT_DIGEST_MISMATCH''"
| "catalog_error_code CatMetadataMismatch = ''FCAT_METADATA_MISMATCH''"
| "catalog_error_code (CatInvalidIdentity e) = ''FCAT_INVALID_IDENTITY''"
| "catalog_error_code (CatInvalidManifest e) = ''FCAT_INVALID_MANIFEST''"

datatype config_validation_error = ConfigNotDeclared | ConfigSchemaMissing | ConfigSchemaInvalid | ConfigModel instance_error

fun config_validation_code :: "config_validation_error \<Rightarrow> string" where
  "config_validation_code ConfigNotDeclared = ''FCONFIG_NOT_DECLARED''"
| "config_validation_code ConfigSchemaMissing = ''FCONFIG_SCHEMA_MISSING''"
| "config_validation_code ConfigSchemaInvalid = ''FCONFIG_SCHEMA_INVALID''"
| "config_validation_code (ConfigModel e) = ''FCONFIG_VALUE_INVALID''"

section \<open>An installation\<close>

definition ii_file :: "installed_installation \<Rightarrow> string \<Rightarrow> bytes option" where
  "ii_file i name = bt_lookup name (ii_files i)"

definition ii_reference :: "'v install_lib \<Rightarrow> installed_installation \<Rightarrow> (installation_ref, catalog_error) result" where
  "ii_reference lib i = map_err CatInvalidIdentity (installation_ref_from_meta (il_semver lib) (ii_meta i))"

definition ii_validate_config ::
  "'v install_lib \<Rightarrow> (json \<Rightarrow> (json \<Rightarrow> string list) option) \<Rightarrow> installed_installation \<Rightarrow> json_map
     \<Rightarrow> (unit, config_validation_error) result"
where
  "ii_validate_config lib validator_for i config =
     (case mf_config_schema (ii_manifest i) of
        None \<Rightarrow> if config = [] then Ok () else Err ConfigNotDeclared
      | Some schema_path \<Rightarrow>
          try_bind (ok_or ConfigSchemaMissing (ii_file i schema_path)) (\<lambda>bytes.
          try_bind (ok_or ConfigSchemaInvalid (il_parse_json lib bytes)) (\<lambda>schema.
          map_err ConfigModel (config_validate_schema validator_for config schema))))"

section \<open>Loading\<close>

definition load_file ::
  "'v install_lib \<Rightarrow> install_meta \<Rightarrow> path \<Rightarrow> fs \<Rightarrow> string \<times> string \<Rightarrow> file_set \<Rightarrow> (file_set, catalog_error) result"
where
  "load_file lib meta dir fs entry files =
     try_bind (ok_or CatRead (fs_read_in dir (fst entry) fs)) (\<lambda>bytes.
     if hex_encode (file_digest (il_sha256 lib) bytes) \<noteq> snd entry
     then Err (CatDigestMismatch (im_id meta) (fst entry))
     else Ok (bt_insert (fst entry) bytes files))"

definition load_from_dir :: "'v install_lib \<Rightarrow> path \<Rightarrow> fs \<Rightarrow> (installed_installation, catalog_error) result" where
  "load_from_dir lib dir fs =
     try_bind (ok_or CatInvalidMeta (fs_read_in dir ''install.json'' fs)) (\<lambda>meta_bytes.
     try_bind (ok_or CatInvalidMeta (il_parse_meta lib meta_bytes)) (\<lambda>meta.
     try_bind (try_fold (load_file lib meta dir fs) (im_files meta) []) (\<lambda>files.
     if hex_encode (content_digest (il_sha256 lib) files) \<noteq> im_digest meta
     then Err (CatDigestMismatch (im_id meta) ''<aggregate>'')
     else
       try_bind (ok_or CatInvalidMeta (bt_lookup ''manifest.json'' files)) (\<lambda>manifest_bytes.
       try_bind (ok_or CatInvalidMeta (il_parse_manifest lib manifest_bytes)) (\<lambda>manifest.
       try_bind (map_err CatInvalidManifest (validate_manifest (il_semver lib) manifest)) (\<lambda>_.
       if mf_id manifest \<noteq> im_id meta \<or> mf_version manifest \<noteq> im_version meta then Err CatMetadataMismatch
       else
         let i = \<lparr>ii_dir = dir, ii_manifest = manifest, ii_meta = meta, ii_files = files\<rparr>
         in try_bind (ii_reference lib i) (\<lambda>_. Ok i)))))))"

definition load_exact ::
  "'v install_lib \<Rightarrow> path \<Rightarrow> string \<Rightarrow> string \<Rightarrow> fs \<Rightarrow> (installed_installation option, catalog_error) result"
where
  "load_exact lib store pid version fs =
     (let dir = path_join (path_join store pid) version
      in if \<not> fs_is_dir dir fs then Ok None else try_bind (load_from_dir lib dir fs) (\<lambda>i. Ok (Some i)))"

definition load_reference ::
  "'v install_lib \<Rightarrow> path \<Rightarrow> installation_ref \<Rightarrow> fs \<Rightarrow> (installed_installation option, catalog_error) result"
where
  "load_reference lib store r fs =
     try_bind (load_exact lib store (ir_plugin r) (ir_version r) fs) (\<lambda>found.
     case found of
       None \<Rightarrow> Ok None
     | Some i \<Rightarrow> try_bind (ii_reference lib i) (\<lambda>r'. if r' \<noteq> r then Err CatMetadataMismatch else Ok (Some i)))"

text \<open>\<open>read_dir\<close> is the list of the names in a directory, in the order of the operating system.\<close>

definition better_version ::
  "'v::linorder install_lib \<Rightarrow> path \<Rightarrow> fs \<Rightarrow> string \<Rightarrow> ('v \<times> path) option \<Rightarrow> ('v \<times> path) option"
where
  "better_version lib dir fs name best =
     (case il_semver lib name of
        None \<Rightarrow> best
      | Some version \<Rightarrow>
          if fs_is_dir (dir @ [name]) fs \<and> (case best of None \<Rightarrow> True | Some (current, _) \<Rightarrow> current < version)
          then Some (version, dir @ [name]) else best)"

definition load_highest ::
  "'v::linorder install_lib \<Rightarrow> (path \<Rightarrow> string list option) \<Rightarrow> path \<Rightarrow> string \<Rightarrow> fs
     \<Rightarrow> (installed_installation option, catalog_error) result"
where
  "load_highest lib read_dir store pid fs =
     (let id_dir = path_join store pid
      in if \<not> fs_is_dir id_dir fs then Ok None
         else try_bind (ok_or CatRead (read_dir id_dir)) (\<lambda>names.
              case fold (better_version lib id_dir fs) names None of
                Some (_, dir) \<Rightarrow> try_bind (load_from_dir lib dir fs) (\<lambda>i. Ok (Some i))
              | None \<Rightarrow> Ok None))"

definition is_valid_plugin_id_dir :: "string \<Rightarrow> bool" where
  "is_valid_plugin_id_dir name \<longleftrightarrow>
     name \<noteq> []
     \<and> list_all (\<lambda>c. is_ascii_lowercase c \<or> is_ascii_digit c \<or> c = CHR ''.'' \<or> c = CHR ''-'') name
     \<and> CHR ''.'' \<in> set name \<and> \<not> starts_with name ''.'' \<and> \<not> ends_with name ''.''"

definition list_highest ::
  "'v::linorder install_lib \<Rightarrow> (path \<Rightarrow> string list option) \<Rightarrow> path \<Rightarrow> fs
     \<Rightarrow> (installed_installation list, catalog_error) result"
where
  "list_highest lib read_dir store fs =
     (if \<not> fs_is_dir store fs then Ok []
      else try_bind (ok_or CatRead (read_dir store)) (\<lambda>names.
           try_bind (try_fold (\<lambda>name acc.
               if \<not> fs_is_dir (store @ [name]) fs \<or> \<not> is_valid_plugin_id_dir name then Ok acc
               else try_bind (load_highest lib read_dir store name fs) (\<lambda>found.
                    Ok (acc @ (case found of None \<Rightarrow> [] | Some i \<Rightarrow> [i])))) names []) (\<lambda>found.
           Ok (sort_key (\<lambda>i. im_id (ii_meta i)) found))))"

section \<open>What a loaded installation satisfies\<close>

lemma load_files_ok:
  assumes "try_fold (load_file lib meta dir fs) entries files = Ok out"
  shows "\<forall>(name, digest) \<in> set entries. \<exists>bytes. fs_read_in dir name fs = Some bytes
      \<and> hex_encode (file_digest (il_sha256 lib) bytes) = digest"
    and "out = fold (\<lambda>(name, digest). bt_insert name (the (fs_read_in dir name fs))) entries files"
  using assms
proof (induction entries arbitrary: files)
  case (Cons e entries)
  {
    case 1
    with Cons.IH(1) show ?case by (cases e) (auto simp: load_file_def split: if_splits)
  next
    case 2
    with Cons.IH(2) show ?case by (cases e) (auto simp: load_file_def split: if_splits)
  }
qed simp_all

lemma load_from_dir_Ok:
  assumes "load_from_dir lib dir fs = Ok i"
  obtains meta_bytes manifest_bytes where
    "fs_read_in dir ''install.json'' fs = Some meta_bytes" "il_parse_meta lib meta_bytes = Some (ii_meta i)"
    "try_fold (load_file lib (ii_meta i) dir fs) (im_files (ii_meta i)) [] = Ok (ii_files i)"
    "hex_encode (content_digest (il_sha256 lib) (ii_files i)) = im_digest (ii_meta i)"
    "bt_lookup ''manifest.json'' (ii_files i) = Some manifest_bytes"
    "il_parse_manifest lib manifest_bytes = Some (ii_manifest i)"
    "validate_manifest (il_semver lib) (ii_manifest i) = Ok ()"
    "mf_id (ii_manifest i) = im_id (ii_meta i)" "mf_version (ii_manifest i) = im_version (ii_meta i)" "ii_dir i = dir"
  using assms by (auto simp: load_from_dir_def Let_def split: if_splits)

lemma loaded_reference_digest:
  assumes load: "load_from_dir lib dir fs = Ok i" and r: "ii_reference lib i = Ok r"
  shows "ir_digest r = content_digest (il_sha256 lib) (ii_files i)" "ir_plugin r = mf_id (ii_manifest i)"
    "ir_version r = mf_version (ii_manifest i)"
proof -
  have "digest_from_hex (im_digest (ii_meta i)) = Ok (ir_digest r) \<and> ir_plugin r = im_id (ii_meta i)
      \<and> ir_version r = im_version (ii_meta i)"
    using r by (auto simp: ii_reference_def installation_ref_from_meta_def installation_ref_new_def split: if_splits)
  with load show "ir_digest r = content_digest (il_sha256 lib) (ii_files i)" "ir_plugin r = mf_id (ii_manifest i)"
    "ir_version r = mf_version (ii_manifest i)"
    by (auto elim!: load_from_dir_Ok simp: digest_from_hex_def hex_decode_def length_hex_encode
        hex_decode_chunks_encode split: if_splits dest!: sym [of "hex_encode _"])
qed

text \<open>The files of an installation have names without NUL and contents that fit in memory.\<close>

definition fs_bounded :: "fs \<Rightarrow> bool" where
  "fs_bounded fs \<longleftrightarrow> (\<forall>p b. fs p = Some (Regular b) \<longrightarrow> length b < 2 ^ 64)"

lemma set_bt_insert_subset: "set (bt_insert k v m) \<subseteq> insert (k, v) (set m)"
  by (induction m) (auto split: if_splits)

lemma loaded_files_ok:
  assumes load: "load_from_dir lib dir fs = Ok i" and fs: "fs_bounded fs"
  shows "files_ok (ii_files i)"
proof -
  from load obtain meta where files: "try_fold (load_file lib meta dir fs) (im_files meta) [] = Ok (ii_files i)"
    by (elim load_from_dir_Ok)
  show ?thesis
  proof (rule try_fold_invariant [OF files, where P = files_ok])
    show "files_ok []" by (simp add: files_ok_def)
    fix e files files' assume ok: "files_ok files" and load: "load_file lib meta dir fs e files = Ok files'"
    then obtain bytes where bytes: "fs_read_in dir (fst e) fs = Some bytes" "files' = bt_insert (fst e) bytes files"
      by (auto simp: load_file_def split: if_splits)
    then have "CHR 0x00 \<notin> set (fst e) \<and> length bytes < 2 ^ 64"
      using fs by (auto simp: fs_read_in_def fs_read_def fs_bounded_def split: if_splits option.splits node.splits)
    with ok bytes(2) set_bt_insert_subset [of "fst e" bytes files] show "files_ok files'"
      unfolding files_ok_def by fastforce
  qed
qed

lemma load_reference_Some:
  assumes "load_reference lib store r fs = Ok (Some i)"
  shows "load_from_dir lib (path_join (path_join store (ir_plugin r)) (ir_version r)) fs = Ok i"
    and "ii_reference lib i = Ok r"
  using assms by (auto simp: load_reference_def load_exact_def Let_def split: if_splits option.splits)

text \<open>A reference to an installation is content-addressed: whenever the same reference loads, whatever
  happened to the file system in between, the plugin and version of its validated manifest are those of
  the reference and the bytes of all its files are the same, unless two different file sets with the
  same hash are at hand.\<close>

theorem reference_loads_same_content:
  assumes first: "load_reference lib store r fs = Ok (Some a)" and second: "load_reference lib store r fs' = Ok (Some b)"
    and bounded: "fs_bounded fs" "fs_bounded fs'"
  shows "validate_manifest (il_semver lib) (ii_manifest a) = Ok ()
    \<and> mf_id (ii_manifest a) = ir_plugin r \<and> mf_version (ii_manifest a) = ir_version r
    \<and> (ii_files b = ii_files a \<and> ii_manifest b = ii_manifest a
       \<or> content_stream (ii_files a) \<noteq> content_stream (ii_files b)
         \<and> il_sha256 lib (content_stream (ii_files a)) = il_sha256 lib (content_stream (ii_files b)))"
proof -
  note a = load_reference_Some [OF first] and b = load_reference_Some [OF second]
  have sha: "il_sha256 lib (content_stream (ii_files a)) = il_sha256 lib (content_stream (ii_files b))"
    using loaded_reference_digest(1) [OF a] loaded_reference_digest(1) [OF b] by (simp add: content_digest_def)
  have "ii_files b = ii_files a" if "content_stream (ii_files a) = content_stream (ii_files b)"
    using that stream_inject loaded_files_ok [OF a(1) bounded(1)] loaded_files_ok [OF b(1) bounded(2)] by metis
  moreover have "ii_manifest b = ii_manifest a" if "ii_files b = ii_files a"
    using a(1) b(1) that by (auto elim!: load_from_dir_Ok)
  moreover have "validate_manifest (il_semver lib) (ii_manifest a) = Ok ()" using a(1) by (rule load_from_dir_Ok)
  ultimately show ?thesis using sha loaded_reference_digest(2,3) [OF a] by metis
qed

section \<open>The highest version\<close>

text \<open>A candidate is a directory with a version for its name.\<close>

definition version_dir :: "'v install_lib \<Rightarrow> path \<Rightarrow> fs \<Rightarrow> string \<Rightarrow> 'v \<Rightarrow> bool" where
  "version_dir lib dir fs name v \<longleftrightarrow> il_semver lib name = Some v \<and> fs_is_dir (dir @ [name]) fs"

definition best_of :: "'v::linorder install_lib \<Rightarrow> path \<Rightarrow> fs \<Rightarrow> string set \<Rightarrow> ('v \<times> path) option \<Rightarrow> bool" where
  "best_of lib dir fs names best \<longleftrightarrow>
     (case best of
        None \<Rightarrow> \<forall>n \<in> names. \<forall>v. \<not> version_dir lib dir fs n v
      | Some (v, d) \<Rightarrow> (\<exists>n \<in> names. d = dir @ [n] \<and> version_dir lib dir fs n v)
          \<and> (\<forall>n \<in> names. \<forall>w. version_dir lib dir fs n w \<longrightarrow> w \<le> v))"

lemma better_version_step:
  "best_of lib dir fs seen best \<Longrightarrow> best_of lib dir fs (insert name seen) (better_version lib dir fs name best)"
  by (auto simp: best_of_def better_version_def version_dir_def split: option.splits)

lemma better_version_fold:
  "best_of lib dir fs seen best \<Longrightarrow> best_of lib dir fs (set names \<union> seen) (fold (better_version lib dir fs) names best)"
proof (induction names arbitrary: seen best)
  case (Cons name names)
  from Cons.IH [OF better_version_step [OF Cons.prems, of name]] show ?case by simp
qed simp

lemma load_dir: "load_from_dir lib d fs = Ok i \<Longrightarrow> ii_dir i = d"
  by (rule load_from_dir_Ok)

lemma highest_loads:
  "load_highest lib read_dir store p fs = Ok (Some i) \<Longrightarrow> load_from_dir lib (ii_dir i) fs = Ok i"
  by (auto simp: load_highest_def Let_def split: if_splits option.splits prod.splits) (frule load_dir, simp)

text \<open>The result is decided by the best candidate of the directory.\<close>

lemma load_highest_best:
  assumes entries: "\<And>d names n. read_dir d = Some names \<Longrightarrow> n \<in> set names \<longleftrightarrow> fs (d @ [n]) \<noteq> None"
    and read: "\<And>d. fs_is_dir d fs \<Longrightarrow> read_dir d \<noteq> None" and dir: "fs_is_dir (path_join store pid) fs"
  obtains best where "best_of lib (path_join store pid) fs {n. fs (path_join store pid @ [n]) \<noteq> None} best"
    and "load_highest lib read_dir store pid fs
      = (case best of Some (_, d) \<Rightarrow> try_bind (load_from_dir lib d fs) (\<lambda>i. Ok (Some i)) | None \<Rightarrow> Ok None)"
proof -
  let ?dir = "path_join store pid"
  obtain names where names: "read_dir ?dir = Some names" using read [OF dir] by auto
  then have set: "set names = {n. fs (?dir @ [n]) \<noteq> None}" using entries by blast
  have "best_of lib ?dir fs (set names \<union> {}) (fold (better_version lib ?dir fs) names None)"
    by (rule better_version_fold) (simp add: best_of_def)
  moreover have "load_highest lib read_dir store pid fs
      = (case fold (better_version lib ?dir fs) names None of
           Some (_, d) \<Rightarrow> try_bind (load_from_dir lib d fs) (\<lambda>i. Ok (Some i)) | None \<Rightarrow> Ok None)"
    using dir names by (simp add: load_highest_def Let_def)
  ultimately show thesis using that set by simp
qed

lemma version_dir_present: "version_dir lib d fs n v \<Longrightarrow> n \<in> {n. fs (d @ [n]) \<noteq> None}"
  by (simp add: version_dir_def fs_is_dir_def)

lemma best_None: "best_of lib d fs {n. fs (d @ [n]) \<noteq> None} None \<Longrightarrow> il_semver lib n = Some v \<Longrightarrow> \<not> fs_is_dir (d @ [n]) fs"
  using version_dir_present [of lib d fs n v] by (auto simp: best_of_def version_dir_def)

lemma best_Some:
  assumes "best_of lib d fs {n. fs (d @ [n]) \<noteq> None} (Some (v, e))"
  shows "\<exists>n. e = d @ [n] \<and> il_semver lib n = Some v \<and> fs_is_dir (d @ [n]) fs
    \<and> (\<forall>n' w. il_semver lib n' = Some w \<and> fs_is_dir (d @ [n']) fs \<longrightarrow> w \<le> v)"
proof -
  from assms obtain n where "e = d @ [n]" "version_dir lib d fs n v"
    and max: "\<And>n' w. n' \<in> {n. fs (d @ [n]) \<noteq> None} \<Longrightarrow> version_dir lib d fs n' w \<Longrightarrow> w \<le> v" by (auto simp: best_of_def)
  moreover have "w \<le> v" if "version_dir lib d fs n' w" for n' w using max [OF version_dir_present [OF that] that] .
  ultimately show ?thesis unfolding version_dir_def by blast
qed

lemma listed_installations:
  assumes list: "list_highest lib read_dir store fs = Ok is"
  shows "sorted (map (\<lambda>i. im_id (ii_meta i)) is) \<and> (\<forall>i \<in> set is. load_from_dir lib (ii_dir i) fs = Ok i)"
proof (cases "fs_is_dir store fs")
  case True
  with list obtain ns found where
    found: "try_fold (\<lambda>name acc.
             if \<not> fs_is_dir (store @ [name]) fs \<or> \<not> is_valid_plugin_id_dir name then Ok acc
             else try_bind (load_highest lib read_dir store name fs) (\<lambda>found.
                  Ok (acc @ (case found of None \<Rightarrow> [] | Some i \<Rightarrow> [i])))) ns [] = Ok found"
      "is = sort_key (\<lambda>i. im_id (ii_meta i)) found"
    by (auto simp: list_highest_def)
  have "\<forall>i \<in> set found. load_from_dir lib (ii_dir i) fs = Ok i"
    by (rule try_fold_invariant [OF found(1)]) (auto split: if_splits option.splits dest: highest_loads)
  with found(2) show ?thesis by simp
qed (use list in \<open>simp add: list_highest_def\<close>)

text \<open>The catalogue of the newest versions: if the directory entries are those of the file system, the
  highest version of a plugin is absent exactly when no directory of the plugin is named by a semantic
  version, and a loaded one lies in a directory whose version is not below any other; the listing of all
  plugins is sorted by identifier and every element of it passed the integrity checks in its own
  directory.\<close>

theorem newest_versions_are_loaded:
  assumes entries: "\<And>d names n. read_dir d = Some names \<Longrightarrow> n \<in> set names \<longleftrightarrow> fs (d @ [n]) \<noteq> None"
    and read: "\<And>d. fs_is_dir d fs \<Longrightarrow> read_dir d \<noteq> None"
    and dir: "fs_is_dir (path_join store pid) fs"
  shows "(load_highest lib read_dir store pid fs = Ok None
        \<longleftrightarrow> (\<forall>n v. il_semver lib n = Some v \<longrightarrow> \<not> fs_is_dir (path_join store pid @ [n]) fs))
    \<and> (\<forall>i. load_highest lib read_dir store pid fs = Ok (Some i) \<longrightarrow>
        load_from_dir lib (ii_dir i) fs = Ok i
        \<and> (\<exists>n v. ii_dir i = path_join store pid @ [n] \<and> il_semver lib n = Some v
            \<and> (\<forall>n' w. il_semver lib n' = Some w \<and> fs_is_dir (path_join store pid @ [n']) fs \<longrightarrow> w \<le> v)))
    \<and> (\<forall>is. list_highest lib read_dir store fs = Ok is \<longrightarrow>
        sorted (map (\<lambda>i. im_id (ii_meta i)) is) \<and> (\<forall>i \<in> set is. load_from_dir lib (ii_dir i) fs = Ok i))"
proof -
  let ?dir = "path_join store pid"
  obtain best where best: "best_of lib ?dir fs {n. fs (?dir @ [n]) \<noteq> None} best"
    and run: "load_highest lib read_dir store pid fs
      = (case best of Some (_, d) \<Rightarrow> try_bind (load_from_dir lib d fs) (\<lambda>i. Ok (Some i)) | None \<Rightarrow> Ok None)"
    using load_highest_best [of read_dir fs store pid lib] entries read dir by blast
  have none: "load_highest lib read_dir store pid fs = Ok None
        \<longleftrightarrow> (\<forall>n v. il_semver lib n = Some v \<longrightarrow> \<not> fs_is_dir (?dir @ [n]) fs)"
  proof (cases best)
    case None
    with best_None [of lib ?dir fs] best run show ?thesis by simp
  next
    case (Some e)
    obtain v d where e: "e = (v, d)" by (cases e)
    from best_Some [of lib ?dir fs v d] best show ?thesis by (auto simp: run Some e)
  qed
  have some: "\<exists>n v. ii_dir i = ?dir @ [n] \<and> il_semver lib n = Some v
      \<and> (\<forall>n' w. il_semver lib n' = Some w \<and> fs_is_dir (?dir @ [n']) fs \<longrightarrow> w \<le> v)"
    if loaded: "load_highest lib read_dir store pid fs = Ok (Some i)" for i
  proof -
    from loaded run obtain v d where d: "best = Some (v, d)" "load_from_dir lib d fs = Ok i"
      by (auto split: option.splits)
    from best_Some [of lib ?dir fs v d] best d load_dir [OF d(2)] show ?thesis by auto
  qed
  show ?thesis using none some highest_loads listed_installations by blast
qed

text \<open>An identifier without a dot is accepted by the manifest and never listed.\<close>

lemma dotless_plugin_is_not_listed: "validate_plugin_id ''clock'' = Ok () \<and> \<not> is_valid_plugin_id_dir ''clock''"
  by (simp add: validate_plugin_id_def is_valid_plugin_id_dir_def plugin_id_char_def ascii_eval)

section \<open>A concrete installation\<close>

definition sample_meta :: install_meta where
  "sample_meta =
     \<lparr>im_manifest_version = 1, im_id = ''dev.clock'', im_version = ''1.0.0'', im_engine_api_version = ''1.2.0'',
      im_ui_api_version = ''1.0.0'', im_installed_at = 5, im_source = ''clock.floatile'', im_trust = Unsigned,
      im_files = [(''manifest.json'', hex_encode (sample_digest CHR ''m''))],
      im_digest = hex_encode (sample_digest CHR ''m'')\<rparr>"

definition sample_install_lib :: "nat install_lib" where
  "sample_install_lib =
     \<lparr>il_crypto = sample_crypto\<lparr>cr_sha256 := \<lambda>_. sample_digest CHR ''m''\<rparr>,
      il_versions = \<lparr>vl_parse = example_semver, vl_show = (\<lambda>v. if v = 1 then ''1.0.0'' else ''1.1.0'')\<rparr>,
      il_parse_meta = (\<lambda>b. if b = ''meta'' then Some sample_meta else None), il_encode_meta = (\<lambda>_. ''meta''),
      il_parse_manifest = (\<lambda>_. Some (example_manifest ''1.0.0'' [] [])), il_parse_json = (\<lambda>_. None)\<rparr>"

definition sample_store_fs :: fs where
  "sample_store_fs =
     [[''store''] \<mapsto> Directory, [''store'', ''dev.clock''] \<mapsto> Directory,
      [''store'', ''dev.clock'', ''1.0.0''] \<mapsto> Directory,
      [''store'', ''dev.clock'', ''1.0.0'', ''install.json''] \<mapsto> Regular ''meta'',
      [''store'', ''dev.clock'', ''1.0.0'', ''manifest.json''] \<mapsto> Regular ''{}'']"

definition sample_installation :: installed_installation where
  "sample_installation =
     \<lparr>ii_dir = [''store'', ''dev.clock'', ''1.0.0''], ii_manifest = example_manifest ''1.0.0'' [] [],
      ii_meta = sample_meta, ii_files = [(''manifest.json'', ''{}'')]\<rparr>"

definition sample_reference :: installation_ref where
  "sample_reference = \<lparr>ir_plugin = ''dev.clock'', ir_version = ''1.0.0'', ir_digest = sample_digest CHR ''m''\<rparr>"

lemma sample_join:
  "path_join base ''install.json'' = base @ [''install.json'']" "path_join base ''manifest.json'' = base @ [''manifest.json'']"
  "path_join base ''dev.clock'' = base @ [''dev.clock'']" "path_join base ''1.0.0'' = base @ [''1.0.0'']"
  by (simp_all add: path_join_plain plain_segment_def)

lemma sample_ref_of_meta: "installation_ref_from_meta (il_semver sample_install_lib) sample_meta = Ok sample_reference"
proof -
  have "validate_plugin_id ''dev.clock'' = Ok ()"
    by (simp add: validate_plugin_id_def plugin_id_char_def ascii_eval)
  then show ?thesis
    by (simp add: installation_ref_from_meta_def installation_ref_new_def digest_from_hex_def hex_decode_def
        length_hex_encode hex_decode_chunks_encode sample_meta_def sample_install_lib_def example_semver_def
        sample_reference_def sample_digest_def)
qed

lemma sample_loads:
  "load_from_dir sample_install_lib [''store'', ''dev.clock'', ''1.0.0''] sample_store_fs = Ok sample_installation"
proof -
  have valid: "validate_manifest (il_semver sample_install_lib) (example_manifest ''1.0.0'' [] []) = Ok ()"
    by (intro example_valid)
      (simp_all add: sample_install_lib_def example_semver_def validate_http_templates_def network_permission_def
        example_manifest_def)
  have files: "try_fold (load_file sample_install_lib sample_meta [''store'', ''dev.clock'', ''1.0.0''] sample_store_fs)
      (im_files sample_meta) [] = Ok [(''manifest.json'', ''{}'')]"
    by (simp add: sample_meta_def load_file_def fs_read_in_def fs_read_def sample_join sample_store_fs_def
        file_digest_def sample_install_lib_def)
  have "il_parse_meta sample_install_lib ''meta'' = Some sample_meta"
    "il_parse_manifest sample_install_lib b = Some (example_manifest ''1.0.0'' [] [])"
    "hex_encode (content_digest (il_sha256 sample_install_lib) fs) = im_digest sample_meta" for b fs
    by (simp_all add: sample_install_lib_def content_digest_def sample_meta_def)
  moreover have "fs_read_in [''store'', ''dev.clock'', ''1.0.0''] ''install.json'' sample_store_fs = Some ''meta''"
    by (simp add: fs_read_in_def fs_read_def sample_join sample_store_fs_def)
  moreover have "mf_id (example_manifest ''1.0.0'' [] []) = im_id sample_meta"
    "mf_version (example_manifest ''1.0.0'' [] []) = im_version sample_meta"
    by (simp_all add: example_manifest_def sample_meta_def)
  ultimately show ?thesis
    using files valid sample_ref_of_meta
    by (simp add: load_from_dir_def Let_def ii_reference_def sample_installation_def)
qed

lemma sample_load_reference:
  "load_reference sample_install_lib [''store''] sample_reference sample_store_fs = Ok (Some sample_installation)"
proof -
  have "ii_meta sample_installation = sample_meta" by (simp add: sample_installation_def)
  then show ?thesis
    using sample_loads sample_ref_of_meta
    by (simp add: load_reference_def load_exact_def sample_reference_def sample_join Let_def ii_reference_def)
      (simp add: fs_is_dir_def sample_store_fs_def)
qed

theorem reference_loads_same_content_witness:
  "mf_id (ii_manifest sample_installation) = ir_plugin sample_reference"
proof -
  have "fs_bounded sample_store_fs" by (auto simp: fs_bounded_def sample_store_fs_def split: if_splits)
  with reference_loads_same_content [OF sample_load_reference sample_load_reference] show ?thesis by blast
qed

definition sample_read_dir :: "path \<Rightarrow> string list option" where
  "sample_read_dir d =
     (if d = [''store''] then Some [''dev.clock'']
      else if d = [''store'', ''dev.clock''] then Some [''1.0.0'']
      else if d = [''store'', ''dev.clock'', ''1.0.0''] then Some [''manifest.json'', ''install.json''] else None)"

theorem newest_versions_are_loaded_witness:
  "load_highest sample_install_lib sample_read_dir [''store''] ''dev.clock'' sample_store_fs \<noteq> Ok None"
proof -
  have entries: "n \<in> set names \<longleftrightarrow> sample_store_fs (d @ [n]) \<noteq> None" if "sample_read_dir d = Some names" for d names n
    using that by (auto simp: sample_read_dir_def sample_store_fs_def split: if_splits)
  have read: "sample_read_dir d \<noteq> None" if "fs_is_dir d sample_store_fs" for d
    using that by (auto simp: sample_read_dir_def sample_store_fs_def fs_is_dir_def split: if_splits)
  have dirs: "path_join [''store''] ''dev.clock'' = [''store'', ''dev.clock'']"
    "fs_is_dir [''store'', ''dev.clock''] sample_store_fs" "fs_is_dir [''store'', ''dev.clock'', ''1.0.0''] sample_store_fs"
    by (simp_all add: sample_join fs_is_dir_def sample_store_fs_def)
  have "il_semver sample_install_lib ''1.0.0'' = Some 1" by (simp add: sample_install_lib_def example_semver_def)
  then have "\<not> (\<forall>n v. il_semver sample_install_lib n = Some v
      \<longrightarrow> \<not> fs_is_dir (path_join [''store''] ''dev.clock'' @ [n]) sample_store_fs)"
    using dirs(3) unfolding dirs(1) append_Cons append_Nil by blast
  moreover have "fs_is_dir (path_join [''store''] ''dev.clock'') sample_store_fs" using dirs by simp
  ultimately show ?thesis
    using newest_versions_are_loaded [where store = "[''store'']" and pid = "''dev.clock''" and lib = sample_install_lib
      and read_dir = sample_read_dir and fs = sample_store_fs, OF entries read, THEN conjunct1] by blast
qed

end
