(* ===== verification/Ui_Schema.thy ===== *)
theory Ui_Schema
  imports Json
begin

text \<open>
  The schema language of plugin user interfaces, \<open>floatile-ui-schema\<close>: the JSON Schema subset
  with its value check (\<open>schema.rs\<close>), the binding paths (\<open>path.rs\<close>), the theme tokens
  (\<open>theme.rs\<close>) and the error codes (\<open>error.rs\<close>).

  The free text of an error is not modelled: the code of an error is its constructor.  The check
  of a value is related to a declarative conformance relation, and a path that resolves in a
  schema leads, in every value the schema accepts, to a value of the schema it resolved to.
\<close>

datatype ui_error =
    UnsupportedApiVersion
  | UnknownComponent string
  | UnknownProp string string
  | MissingProp string string
  | InvalidPropType string
  | InvalidBindingPath
  | BindingTypeMismatch
  | InvalidItemBinding string
  | UnknownEvent string
  | UnknownInputEvent string string
  | InvalidEventPayload
  | InvalidState
  | LimitExceeded
  | InvalidChildren
  | InvalidControl

fun ui_error_code :: "ui_error \<Rightarrow> string" where
  "ui_error_code UnsupportedApiVersion = ''FTUI_UNSUPPORTED_API_VERSION''"
| "ui_error_code (UnknownComponent c) = ''FTUI_UNKNOWN_COMPONENT''"
| "ui_error_code (UnknownProp c p) = ''FTUI_UNKNOWN_PROP''"
| "ui_error_code (MissingProp c p) = ''FTUI_MISSING_PROP''"
| "ui_error_code (InvalidPropType p) = ''FTUI_INVALID_PROP_TYPE''"
| "ui_error_code InvalidBindingPath = ''FTUI_INVALID_BINDING_PATH''"
| "ui_error_code BindingTypeMismatch = ''FTUI_BINDING_TYPE_MISMATCH''"
| "ui_error_code (InvalidItemBinding i) = ''FTUI_INVALID_ITEM_BINDING''"
| "ui_error_code (UnknownEvent e) = ''FTUI_UNKNOWN_EVENT''"
| "ui_error_code (UnknownInputEvent c e) = ''FTUI_UNKNOWN_INPUT_EVENT''"
| "ui_error_code InvalidEventPayload = ''FTUI_INVALID_EVENT_PAYLOAD''"
| "ui_error_code InvalidState = ''FTUI_INVALID_STATE''"
| "ui_error_code LimitExceeded = ''FTUI_LIMIT_EXCEEDED''"
| "ui_error_code InvalidChildren = ''FTUI_INVALID_CHILDREN''"
| "ui_error_code InvalidControl = ''FTUI_INVALID_CONTROL''"

section \<open>Theme tokens\<close>

definition COLOR_TOKENS :: "(string \<times> string) list" where
  "COLOR_TOKENS =
     [(''foreground'', ''#cdd6f4''), (''muted'', ''#9399b2''), (''accent'', ''#89b4fa''),
      (''positive'', ''#a6e3a1''), (''warning'', ''#f9e2af''), (''danger'', ''#f38ba8'')]"

definition color_token :: "string \<Rightarrow> (string \<times> string) option" where
  "color_token name = find (\<lambda>t. fst t = name) COLOR_TOKENS"

section \<open>Schemas\<close>

definition MAX_STATE_DEPTH :: nat where
  "MAX_STATE_DEPTH = 16"

text \<open>\<open>SObject required properties additional_properties\<close>\<close>

datatype json_schema =
    SString "nat option"
  | SBoolean
  | SNumber
  | SInteger
  | SNull
  | SArray "nat option" json_schema
  | SObject "string list" "(string \<times> json_schema) list" bool

definition default_schema :: json_schema where
  "default_schema = SObject [] [] True"

fun is_integer_number :: "json_number \<Rightarrow> bool" where
  "is_integer_number (Float r) = False"
| "is_integer_number _ = True"

definition ensure_depth :: "nat \<Rightarrow> (unit, ui_error) result" where
  "ensure_depth depth = (if MAX_STATE_DEPTH < depth then Err InvalidState else Ok ())"

definition within_max :: "nat option \<Rightarrow> nat \<Rightarrow> bool" where
  "within_max limit n \<longleftrightarrow> (case limit of Some m \<Rightarrow> n \<le> m | None \<Rightarrow> True)"

text \<open>The checks of an object's keys, before its members are visited.\<close>

definition object_keys_ok :: "string list \<Rightarrow> (string \<times> json_schema) list \<Rightarrow> bool \<Rightarrow> json_map \<Rightarrow> bool" where
  "object_keys_ok required properties additional m \<longleftrightarrow>
     (additional \<or> list_all (\<lambda>e. bt_lookup (fst e) properties \<noteq> None) m)
     \<and> list_all (\<lambda>name. bt_lookup name m \<noteq> None) required"

text \<open>The members are visited by \<open>validate_members\<close>, the elements of an array by \<open>validate_items\<close>.\<close>

fun validate_value :: "json_schema \<Rightarrow> json \<Rightarrow> nat \<Rightarrow> (unit, ui_error) result"
  and validate_items :: "json_schema \<Rightarrow> json list \<Rightarrow> nat \<Rightarrow> (unit, ui_error) result"
  and validate_members :: "(string \<times> json_schema) list \<Rightarrow> bool \<Rightarrow> (string \<times> json) list \<Rightarrow> nat \<Rightarrow> (unit, ui_error) result"
where
  "validate_value schema val depth =
     (if MAX_STATE_DEPTH < depth then Err InvalidState
      else case (schema, val) of
        (SNull, JNull) \<Rightarrow> Ok ()
      | (SBoolean, JBool b) \<Rightarrow> Ok ()
      | (SInteger, JNum n) \<Rightarrow> if is_integer_number n then Ok () else Err InvalidState
      | (SNumber, JNum n) \<Rightarrow> Ok ()
      | (SString limit, JStr s) \<Rightarrow> if within_max limit (char_count s) then Ok () else Err InvalidState
      | (SArray limit items, JArr xs) \<Rightarrow>
          if within_max limit (length xs) then validate_items items xs depth else Err InvalidState
      | (SObject required properties additional, JObj m) \<Rightarrow>
          if object_keys_ok required properties additional m
          then validate_members properties additional m depth else Err InvalidState
      | _ \<Rightarrow> Err InvalidState)"
| "validate_items items [] depth = Ok ()"
| "validate_items items (x # xs) depth =
     try_bind (validate_value items x (depth + 1)) (\<lambda>_. validate_items items xs depth)"
| "validate_members properties additional [] depth = Ok ()"
| "validate_members properties additional ((key, sub) # m) depth =
     try_bind (case bt_lookup key properties of
                 Some sub_schema \<Rightarrow> validate_value sub_schema sub (depth + 1)
               | None \<Rightarrow> if additional then ensure_depth (depth + 1) else Ok ())
       (\<lambda>_. validate_members properties additional m depth)"

declare validate_value.simps [simp del]

section \<open>Binding paths\<close>

definition path_field_ok :: "string \<Rightarrow> bool" where
  "path_field_ok field \<longleftrightarrow> field \<noteq> []
     \<and> CHR ''['' \<notin> set field \<and> CHR '']'' \<notin> set field \<and> CHR ''*'' \<notin> set field \<and> \<not> has_whitespace field"

definition path_parse :: "string \<Rightarrow> (string list, ui_error) result" where
  "path_parse p =
     (case p of
        [] \<Rightarrow> Err InvalidBindingPath
      | c # rest \<Rightarrow>
          if c \<noteq> CHR ''$'' then Err InvalidBindingPath
          else (case rest of
                  [] \<Rightarrow> Ok []
                | d # fields \<Rightarrow>
                    if d \<noteq> CHR ''.'' then Err InvalidBindingPath
                    else if list_all path_field_ok (split_on CHR ''.'' fields)
                    then Ok (split_on CHR ''.'' fields) else Err InvalidBindingPath))"

fun path_resolve :: "json_schema \<Rightarrow> string list \<Rightarrow> (json_schema, ui_error) result" where
  "path_resolve current [] = Ok current"
| "path_resolve current (field # fields) =
     (case current of
        SObject required properties additional \<Rightarrow>
          (case bt_lookup field properties of
             Some sub \<Rightarrow> path_resolve sub fields
           | None \<Rightarrow> Err InvalidBindingPath)
      | _ \<Rightarrow> Err InvalidBindingPath)"

fun schema_json_type :: "json_schema \<Rightarrow> string" where
  "schema_json_type (SString m) = ''string''"
| "schema_json_type SBoolean = ''boolean''"
| "schema_json_type SNumber = ''number''"
| "schema_json_type SInteger = ''number''"
| "schema_json_type SNull = ''null''"
| "schema_json_type (SArray m s) = ''array''"
| "schema_json_type (SObject r p a) = ''object''"

section \<open>What an accepted value is\<close>

text \<open>Conformance, without the order of the checks and the depth.\<close>

inductive conforms :: "json_schema \<Rightarrow> json \<Rightarrow> bool" where
  conforms_null: "conforms SNull JNull"
| conforms_bool: "conforms SBoolean (JBool b)"
| conforms_integer: "is_integer_number n \<Longrightarrow> conforms SInteger (JNum n)"
| conforms_number: "conforms SNumber (JNum n)"
| conforms_string: "within_max limit (char_count s) \<Longrightarrow> conforms (SString limit) (JStr s)"
| conforms_array:
    "within_max limit (length xs) \<Longrightarrow> (\<And>x. x \<in> set xs \<Longrightarrow> conforms items x) \<Longrightarrow> conforms (SArray limit items) (JArr xs)"
| conforms_object:
    "object_keys_ok required properties additional m \<Longrightarrow>
     (\<And>key sub sub_schema. (key, sub) \<in> set m \<Longrightarrow> bt_lookup key properties = Some sub_schema \<Longrightarrow>
        conforms sub_schema sub) \<Longrightarrow>
     conforms (SObject required properties additional) (JObj m)"

inductive_simps conforms_simps [simp]:
  "conforms SNull v" "conforms SBoolean v" "conforms SInteger v" "conforms SNumber v" "conforms (SString l) v"

inductive_cases conforms_arrayE: "conforms (SArray l s) v"
inductive_cases conforms_objectE: "conforms (SObject r p a) v"

text \<open>The depth the check measures: the schema decides what is visited.\<close>

fun visited_depth :: "json_schema \<Rightarrow> json \<Rightarrow> nat" where
  "visited_depth (SArray limit items) (JArr xs) = Max (insert 0 ((\<lambda>x. Suc (visited_depth items x)) ` set xs))"
| "visited_depth (SObject required properties additional) (JObj m) =
     Max (insert 0 ((\<lambda>(key, sub). Suc (case bt_lookup key properties of
                                      Some s \<Rightarrow> visited_depth s sub
                                    | None \<Rightarrow> 0)) ` set m))"
| "visited_depth _ _ = 0"

lemma validate_items_Ok: "validate_items items xs d = Ok () \<longleftrightarrow> (\<forall>x \<in> set xs. validate_value items x (d + 1) = Ok ())"
  by (induction xs) auto

definition member_check :: "(string \<times> json_schema) list \<Rightarrow> bool \<Rightarrow> nat \<Rightarrow> string \<Rightarrow> json \<Rightarrow> (unit, ui_error) result" where
  "member_check properties additional d key sub =
     (case bt_lookup key properties of
        Some s \<Rightarrow> validate_value s sub (d + 1)
      | None \<Rightarrow> if additional then ensure_depth (d + 1) else Ok ())"

lemma validate_members_Cons:
  "validate_members properties additional ((key, sub) # m) d =
     try_bind (member_check properties additional d key sub) (\<lambda>_. validate_members properties additional m d)"
  by (simp only: validate_members.simps member_check_def)

declare validate_members.simps(2) [simp del]
declare validate_members_Cons [simp]

lemma validate_members_Ok:
  "validate_members properties additional m d = Ok () \<longleftrightarrow>
     (\<forall>(key, sub) \<in> set m. member_check properties additional d key sub = Ok ())"
  by (induction m) auto

lemma Max_le: "finite A \<Longrightarrow> d + Max (insert 0 (Suc ` A)) \<le> n \<longleftrightarrow> d \<le> n \<and> (\<forall>a \<in> A. Suc d + a \<le> n)"
  for d n :: nat
proof -
  assume "finite A"
  then have "Max (insert 0 (Suc ` A)) \<le> n - d \<longleftrightarrow> (\<forall>a \<in> A. Suc a \<le> n - d)" by simp
  moreover have "d + Max (insert 0 (Suc ` A)) \<le> n \<longleftrightarrow> d \<le> n \<and> Max (insert 0 (Suc ` A)) \<le> n - d" by linarith
  ultimately show ?thesis by (metis Suc_le_eq add.commute add_Suc_right le_diff_conv2 )
qed

lemma validate_other:
  assumes "\<And>l i xs. s = SArray l i \<Longrightarrow> v \<noteq> JArr xs" and "\<And>r p a m. s = SObject r p a \<Longrightarrow> v \<noteq> JObj m"
  shows "validate_value s v d = Ok () \<longleftrightarrow> conforms s v \<and> d \<le> MAX_STATE_DEPTH"
  using assms
  by (cases s; cases v) (auto simp: validate_value.simps elim: conforms_arrayE conforms_objectE)

lemma validate_value_iff:
  "validate_value s v d = Ok () \<longleftrightarrow> conforms s v \<and> d + visited_depth s v \<le> MAX_STATE_DEPTH"
proof (induction s v arbitrary: d rule: visited_depth.induct)
  case (1 limit items xs)
  have "validate_value (SArray limit items) (JArr xs) d = Ok () \<longleftrightarrow>
      d \<le> MAX_STATE_DEPTH \<and> within_max limit (length xs)
      \<and> (\<forall>x \<in> set xs. conforms items x \<and> Suc d + visited_depth items x \<le> MAX_STATE_DEPTH)"
    using 1 by (auto simp: validate_value.simps [of "SArray limit items"] validate_items_Ok)
  moreover have "conforms (SArray limit items) (JArr xs) \<longleftrightarrow>
      within_max limit (length xs) \<and> (\<forall>x \<in> set xs. conforms items x)"
    by (auto elim: conforms_arrayE intro: conforms_array)
  moreover have "d + visited_depth (SArray limit items) (JArr xs) \<le> MAX_STATE_DEPTH \<longleftrightarrow>
      d \<le> MAX_STATE_DEPTH \<and> (\<forall>x \<in> set xs. Suc d + visited_depth items x \<le> MAX_STATE_DEPTH)"
    using Max_le [of "visited_depth items ` set xs" d MAX_STATE_DEPTH] by (simp add: image_image)
  ultimately show ?case by blast
next
  case (2 required properties additional m)
  let ?sub = "\<lambda>(key, sub). case bt_lookup key properties of Some s \<Rightarrow> visited_depth s sub | None \<Rightarrow> 0"
  let ?conf = "\<lambda>(key, sub). \<forall>s. bt_lookup key properties = Some s \<longrightarrow> conforms s sub"
  have depth: "d + visited_depth (SObject required properties additional) (JObj m) \<le> MAX_STATE_DEPTH \<longleftrightarrow>
      d \<le> MAX_STATE_DEPTH \<and> (\<forall>e \<in> set m. Suc d + ?sub e \<le> MAX_STATE_DEPTH)"
    using Max_le [of "?sub ` set m" d MAX_STATE_DEPTH] by (simp add: image_image case_prod_unfold)
  have conf: "conforms (SObject required properties additional) (JObj m) \<longleftrightarrow>
      object_keys_ok required properties additional m
      \<and> (\<forall>e \<in> set m. ?conf e)"
    by (auto elim: conforms_objectE intro!: conforms_object)
  have member: "member_check properties additional d key sub = Ok () \<longleftrightarrow>
      (\<forall>s. bt_lookup key properties = Some s \<longrightarrow> conforms s sub) \<and> Suc d + ?sub (key, sub) \<le> MAX_STATE_DEPTH"
    if e: "(key, sub) \<in> set m" and keys: "object_keys_ok required properties additional m" for key sub
  proof (cases "bt_lookup key properties")
    case None
    then have additional using e keys by (force simp: object_keys_ok_def list_all_iff)
    with None show ?thesis by (auto simp: member_check_def ensure_depth_def)
  next
    case (Some s)
    with 2 [OF e refl Some] show ?thesis by (simp add: member_check_def)
  qed
  have "validate_value (SObject required properties additional) (JObj m) d = Ok () \<longleftrightarrow>
      d \<le> MAX_STATE_DEPTH \<and> object_keys_ok required properties additional m
      \<and> (\<forall>e \<in> set m. ?conf e \<and> Suc d + ?sub e \<le> MAX_STATE_DEPTH)"
  proof (cases "object_keys_ok required properties additional m")
    case True
    have "validate_members properties additional m d = Ok () \<longleftrightarrow>
        (\<forall>e \<in> set m. ?conf e \<and> Suc d + ?sub e \<le> MAX_STATE_DEPTH)"
      unfolding validate_members_Ok using member [OF _ True] by (intro ball_cong [OF refl]) (clarsimp simp: member [OF _ True])
    with True show ?thesis by (simp add: validate_value.simps [of "SObject required properties additional"])
  qed (simp add: validate_value.simps [of "SObject required properties additional"])
  with depth conf show ?case by blast
qed (rule validate_other [THEN trans]; simp)+

text \<open>Reading along the fields of a path, as the renderer does.\<close>

fun json_get :: "json \<Rightarrow> string list \<Rightarrow> json option" where
  "json_get v [] = Some v"
| "json_get v (field # fields) =
     (case v of JObj m \<Rightarrow> Option.bind (bt_lookup field m) (\<lambda>w. json_get w fields) | _ \<Rightarrow> None)"

lemma path_resolve_conforms:
  "path_resolve s fields = Ok t \<Longrightarrow> conforms s v \<Longrightarrow> json_get v fields = Some w \<Longrightarrow> conforms t w"
proof (induction s fields arbitrary: v rule: path_resolve.induct)
  case (2 current field fields)
  from 2(2) obtain r p a sub where s: "current = SObject r p a" "bt_lookup field p = Some sub" "path_resolve sub fields = Ok t"
    by (auto split: json_schema.splits option.splits)
  from 2(4) obtain m u where v: "v = JObj m" "bt_lookup field m = Some u" "json_get u fields = Some w"
    by (auto split: json.splits simp: bind_eq_Some_conv)
  from 2(3) s v have "conforms sub u" by (auto elim!: conforms_objectE dest: bt_lookup_Some_in)
  with 2(1) [OF s(1,2) s(3) _ v(3)] show ?case by simp
qed simp

text \<open>The JSON type of a conforming value is the type name of its schema.\<close>

fun json_type_name :: "json \<Rightarrow> string" where
  "json_type_name JNull = ''null''"
| "json_type_name (JBool b) = ''boolean''"
| "json_type_name (JNum n) = ''number''"
| "json_type_name (JStr s) = ''string''"
| "json_type_name (JArr xs) = ''array''"
| "json_type_name (JObj m) = ''object''"

lemma conforms_type: "conforms s v \<Longrightarrow> json_type_name v = schema_json_type s"
  by (induction rule: conforms.induct) auto

text \<open>The check of a state or an event payload is exact: a value is accepted from some depth on if and
  only if it conforms to the schema and no part the schema describes lies deeper than 16 levels.\<close>

theorem state_check_exact:
  "validate_value schema val depth = Ok () \<longleftrightarrow> conforms schema val \<and> depth + visited_depth schema val \<le> 16"
  using validate_value_iff [of schema val depth] by (simp add: MAX_STATE_DEPTH_def)

text \<open>The depth limit does not reach undeclared members: under a schema that allows additional
  properties a member without a schema is accepted whatever its own depth is.\<close>

theorem undeclared_members_are_unbounded:
  "validate_value (SObject [] [] True) (JObj [(key, val)]) 0 = Ok ()"
  by (simp add: validate_value.simps object_keys_ok_def member_check_def ensure_depth_def MAX_STATE_DEPTH_def)

end
