(* ===== verification/Ui_Document.thy ===== *)
theory Ui_Document
  imports Ui_Schema
begin

text \<open>
  User interface documents, \<open>floatile-ui-schema\<close>: the component tree (\<open>ir.rs\<close>), the registry
  of components (\<open>registry.rs\<close>) and the validation of a document (\<open>validate.rs\<close>).

  The counters of \<open>Ctx\<close> are threaded through the walk of the tree.  The size of the serialized
  document is an argument.  The lemmas bound the tree that is walked, and show that a
  binding which was accepted reads, from every state the document accepts, a value of a type its
  property allows.
\<close>

section \<open>Documents\<close>

datatype binding = StateBinding string | ItemBinding string

datatype prop_value = BindingValue binding | LiteralValue json

record emitted_event =
  ee_emit :: string
  ee_payload :: json

datatype ui_component = UiComponent
  (uc_kind: string)
  (uc_props: "(string \<times> prop_value) list")
  (uc_children: "ui_component list")
  (uc_events: "(string \<times> emitted_event) list")
  (uc_when: "binding option")
  (uc_then: "ui_component option")
  (uc_else: "ui_component option")
  (uc_items: "binding option")
  (uc_key: "string option")
  (uc_template: "ui_component option")

record ui_document =
  ud_api_version :: string
  ud_initial :: json
  ud_schema :: json_schema
  ud_events :: "(string, json_schema) btree"
  ud_root :: ui_component

section \<open>The registry\<close>

datatype json_type = TString | TBoolean | TNumber | TInteger | TObject | TArray | TNull

fun type_name :: "json_type \<Rightarrow> string" where
  "type_name TString = ''string''"
| "type_name TBoolean = ''boolean''"
| "type_name TNumber = ''number''"
| "type_name TInteger = ''integer''"
| "type_name TObject = ''object''"
| "type_name TArray = ''array''"
| "type_name TNull = ''null''"

fun type_matches :: "json_type \<Rightarrow> json \<Rightarrow> bool" where
  "type_matches TString (JStr s) = True"
| "type_matches TBoolean (JBool b) = True"
| "type_matches TInteger (JNum n) = is_integer_number n"
| "type_matches TNumber (JNum n) = True"
| "type_matches TObject (JObj m) = True"
| "type_matches TArray (JArr xs) = True"
| "type_matches TNull JNull = True"
| "type_matches _ _ = False"

record prop_schema =
  ps_name :: string
  ps_types :: "json_type list"
  ps_allow_binding :: bool
  ps_introduced_minor :: nat
  ps_optional :: bool

datatype children_policy = ChildrenForbidden | ChildrenOne | ChildrenMany

datatype component_kind = ElementKind | IfKind | ForEachKind

record component_spec =
  cs_name :: string
  cs_introduced_minor :: nat
  cs_props :: "prop_schema list"
  cs_input_events :: "string list"
  cs_children :: children_policy
  cs_kind :: component_kind

definition find_prop :: "component_spec \<Rightarrow> string \<Rightarrow> prop_schema option" where
  "find_prop spec name = find (\<lambda>p. ps_name p = name) (cs_props spec)"

definition declares_input_event :: "component_spec \<Rightarrow> string \<Rightarrow> bool" where
  "declares_input_event spec name \<longleftrightarrow> name \<in> set (cs_input_events spec)"

definition prop_of :: "string \<Rightarrow> json_type \<Rightarrow> bool \<Rightarrow> nat \<Rightarrow> bool \<Rightarrow> prop_schema" where
  "prop_of name ty binding minor opt =
     \<lparr>ps_name = name, ps_types = [ty], ps_allow_binding = binding, ps_introduced_minor = minor, ps_optional = opt\<rparr>"

definition COMMON_ELEMENT_PROPS :: "prop_schema list" where
  "COMMON_ELEMENT_PROPS =
     [prop_of ''padding'' TNumber False 0 True, prop_of ''gap'' TNumber False 0 True,
      prop_of ''width'' TNumber False 0 True, prop_of ''height'' TNumber False 0 True,
      prop_of ''opacity'' TNumber False 0 True, prop_of ''radius'' TNumber False 0 True,
      prop_of ''color'' TString False 0 True, prop_of ''border'' TString False 0 True]"

text \<open>\<open>element_since\<close>: a property of the component hides the common one of its name.\<close>

definition element_since ::
  "string \<Rightarrow> nat \<Rightarrow> children_policy \<Rightarrow> prop_schema list \<Rightarrow> string list \<Rightarrow> component_spec" where
  "element_since name minor children props events =
     \<lparr>cs_name = name, cs_introduced_minor = minor,
      cs_props = filter (\<lambda>c. \<not> list_ex (\<lambda>p. ps_name p = ps_name c) props) COMMON_ELEMENT_PROPS @ props,
      cs_input_events = events, cs_children = children, cs_kind = ElementKind\<rparr>"

definition element :: "string \<Rightarrow> children_policy \<Rightarrow> prop_schema list \<Rightarrow> string list \<Rightarrow> component_spec" where
  "element name children props events = element_since name 0 children props events"

definition control :: "string \<Rightarrow> component_kind \<Rightarrow> component_spec" where
  "control name kind =
     \<lparr>cs_name = name, cs_introduced_minor = 0, cs_props = [], cs_input_events = [],
      cs_children = ChildrenForbidden, cs_kind = kind\<rparr>"

text \<open>\<open>build_registry\<close>: the components without and with a value or an event, and the control components.\<close>

definition static_components :: "component_spec list" where
  "static_components =
     [element ''Row'' ChildrenMany [] [], element ''Column'' ChildrenMany [] [], element ''Stack'' ChildrenMany [] [],
      element ''Grid'' ChildrenMany [prop_of ''columns'' TInteger False 0 True] [],
      element ''Scroll'' ChildrenMany [] [],
      element_since ''Responsive'' 4 ChildrenMany [prop_of ''breakpoint'' TNumber False 4 False] [],
      element ''Text'' ChildrenForbidden
        [prop_of ''text'' TString True 0 False, prop_of ''style'' TString False 0 True, prop_of ''colorToken'' TString False 5 True] [],
      element ''Icon'' ChildrenForbidden [prop_of ''name'' TString True 0 False, prop_of ''size'' TNumber False 0 True] [],
      element ''Image'' ChildrenForbidden
        [prop_of ''asset'' TString False 0 False, prop_of ''width'' TNumber False 0 True, prop_of ''height'' TNumber False 0 True] []]"

definition value_components :: "component_spec list" where
  "value_components =
     [element ''Button'' ChildrenForbidden [prop_of ''label'' TString True 0 False] [''activate''],
      element ''Toggle'' ChildrenForbidden
        [prop_of ''checked'' TBoolean True 0 False, prop_of ''accessibilityLabel'' TString True 6 True] [''toggle''],
      element ''Progress'' ChildrenForbidden
        [prop_of ''value'' TNumber True 0 False, prop_of ''accessibilityLabel'' TString True 6 True] [],
      element_since ''Badge'' 1 ChildrenForbidden
        [prop_of ''label'' TString True 0 False, prop_of ''tone'' TString False 0 True] [],
      element ''Gauge'' ChildrenForbidden
        [prop_of ''value'' TNumber True 0 False, prop_of ''accessibilityLabel'' TString True 6 True] [],
      element ''List'' ChildrenMany [prop_of ''items'' TArray True 2 True] [],
      element_since ''Sparkline'' 3 ChildrenForbidden
        [prop_of ''values'' TArray True 3 False, prop_of ''label'' TString True 3 False, prop_of ''tone'' TString False 3 True] []]"

definition ui_registry :: "component_spec list" where
  "ui_registry = static_components @ value_components @ [control ''If'' IfKind, control ''ForEach'' ForEachKind]"

definition registry_find :: "string \<Rightarrow> (component_spec, ui_error) result" where
  "registry_find name = ok_or (UnknownComponent name) (find (\<lambda>spec. cs_name spec = name) ui_registry)"

definition MAX_LIST_ITEMS :: nat where
  "MAX_LIST_ITEMS = 256"

definition MAX_CHART_POINTS :: nat where
  "MAX_CHART_POINTS = 128"

text \<open>The value of a number; rounding it to \<open>f64\<close> cannot cross the bounds it is compared with.\<close>

fun number_value :: "json_number \<Rightarrow> rat" where
  "number_value (PosInt n) = of_int (uint n)"
| "number_value (NegInt i) = of_int i"
| "number_value (Float r) = r"

fun is_string :: "json \<Rightarrow> bool" where
  "is_string (JStr s) = True"
| "is_string _ = False"

fun is_number :: "json \<Rightarrow> bool" where
  "is_number (JNum n) = True"
| "is_number _ = False"

text \<open>The checks on single properties after the type check; \<open>False\<close> is \<open>InvalidPropType\<close>.\<close>

definition literal_value_ok :: "string \<Rightarrow> string \<Rightarrow> json \<Rightarrow> bool" where
  "literal_value_ok component name val \<longleftrightarrow>
     (component = ''Badge'' \<and> name = ''tone'' \<longrightarrow>
        (case val of JStr s \<Rightarrow> s \<in> {''neutral'', ''info'', ''success'', ''warning'', ''danger''} | _ \<Rightarrow> True))
   \<and> (component = ''List'' \<and> name = ''items'' \<longrightarrow>
        (case val of JArr xs \<Rightarrow> length xs \<le> MAX_LIST_ITEMS \<and> list_all is_string xs | _ \<Rightarrow> True))
   \<and> (component = ''Sparkline'' \<and> name = ''values'' \<longrightarrow>
        (case val of JArr xs \<Rightarrow> length xs \<le> MAX_CHART_POINTS \<and> list_all is_number xs | _ \<Rightarrow> True))
   \<and> (component = ''Sparkline'' \<and> name = ''tone'' \<longrightarrow>
        (case val of JStr s \<Rightarrow> s \<in> {''info'', ''success'', ''warning'', ''danger''} | _ \<Rightarrow> True))
   \<and> (component = ''Grid'' \<and> name = ''columns'' \<longrightarrow>
        (case as_u64 val of Some n \<Rightarrow> 1 \<le> n \<and> n \<le> 16 | None \<Rightarrow> True))
   \<and> (component = ''Responsive'' \<and> name = ''breakpoint'' \<longrightarrow>
        (case val of JNum n \<Rightarrow> 240 \<le> number_value n \<and> number_value n \<le> 1920 | _ \<Rightarrow> True))
   \<and> (name = ''colorToken'' \<longrightarrow> (case val of JStr s \<Rightarrow> color_token s \<noteq> None | _ \<Rightarrow> True))"

definition validate_literal :: "component_spec \<Rightarrow> prop_schema \<Rightarrow> prop_value \<Rightarrow> (unit, ui_error) result" where
  "validate_literal spec p val =
     (case val of
        BindingValue b \<Rightarrow> Ok ()
      | LiteralValue v \<Rightarrow>
          if \<not> list_ex (\<lambda>t. type_matches t v) (ps_types p) then Err (InvalidPropType (ps_name p))
          else if \<not> literal_value_ok (cs_name spec) (ps_name p) v then Err (InvalidPropType (ps_name p))
          else Ok ())"

section \<open>Validation\<close>

definition MAX_IR_BYTES :: nat where
  "MAX_IR_BYTES = 256 * 1024"

definition MAX_NODES :: nat where
  "MAX_NODES = 256"

definition MAX_TREE_DEPTH :: nat where
  "MAX_TREE_DEPTH = 32"

definition MAX_BINDINGS :: nat where
  "MAX_BINDINGS = 512"

definition MAX_EVENT_DECLS :: nat where
  "MAX_EVENT_DECLS = 128"

definition MAX_ASSET_REFS :: nat where
  "MAX_ASSET_REFS = 64"

text \<open>\<open>Ctx\<close>: the declared events and the minor version are fixed, the counters are threaded.\<close>

record ui_env =
  ue_events :: "(string, json_schema) btree"
  ue_minor :: nat

record ui_counts =
  ct_nodes :: nat
  ct_bindings :: nat
  ct_assets :: nat

definition check_api_version :: "string \<Rightarrow> (nat, ui_error) result" where
  "check_api_version version =
     (case split_on CHR ''.'' version of
        [] \<Rightarrow> Err UnsupportedApiVersion
      | major # rest \<Rightarrow>
          if major \<noteq> ''1'' then Err UnsupportedApiVersion
          else (case rest of
                  [] \<Rightarrow> Ok 0
                | minor # _ \<Rightarrow>
                    (case parse_u64 minor of Some n \<Rightarrow> Ok (unat n) | None \<Rightarrow> Err UnsupportedApiVersion)))"

fun check_schema_depth :: "json_schema \<Rightarrow> nat \<Rightarrow> (unit, ui_error) result" where
  "check_schema_depth schema depth =
     (if MAX_STATE_DEPTH < depth then Err InvalidState
      else case schema of
        SArray limit items \<Rightarrow> check_schema_depth items (depth + 1)
      | SObject required properties additional \<Rightarrow>
          try_all (\<lambda>e. check_schema_depth (snd e) (depth + 1)) properties
      | _ \<Rightarrow> Ok ())"

declare check_schema_depth.simps [simp del]

text \<open>The schema a binding refers to.\<close>

definition binding_target :: "json_schema \<Rightarrow> json_schema option \<Rightarrow> binding \<Rightarrow> (json_schema, ui_error) result" where
  "binding_target state_schema item_schema b =
     (case b of
        StateBinding p \<Rightarrow> try_bind (path_parse p) (path_resolve state_schema)
      | ItemBinding item \<Rightarrow>
          try_bind (ok_or (InvalidItemBinding item) item_schema) (\<lambda>schema.
          if item = ''value'' then Ok schema
          else try_bind (path_parse (''$.'' @ item)) (path_resolve schema)))"

definition bounded_array_of :: "nat \<Rightarrow> (json_schema \<Rightarrow> bool) \<Rightarrow> json_schema \<Rightarrow> bool" where
  "bounded_array_of limit elem schema \<longleftrightarrow>
     (case schema of SArray (Some n) items \<Rightarrow> n \<le> limit \<and> elem items | _ \<Rightarrow> False)"

definition validate_binding ::
  "binding \<Rightarrow> prop_schema \<Rightarrow> json_schema \<Rightarrow> json_schema option \<Rightarrow> string \<Rightarrow> string \<Rightarrow> (unit, ui_error) result"
where
  "validate_binding b p state_schema item_schema component name =
     try_bind (binding_target state_schema item_schema b) (\<lambda>target.
     if component = ''List'' \<and> name = ''items''
        \<and> \<not> bounded_array_of MAX_LIST_ITEMS (\<lambda>s. case s of SString _ \<Rightarrow> True | _ \<Rightarrow> False) target
     then Err BindingTypeMismatch
     else if component = ''Sparkline'' \<and> name = ''values''
        \<and> \<not> bounded_array_of MAX_CHART_POINTS (\<lambda>s. s = SNumber \<or> s = SInteger) target
     then Err BindingTypeMismatch
     else if list_ex (\<lambda>t. type_name t = schema_json_type target
                          \<or> t = TNumber \<and> schema_json_type target = ''integer'') (ps_types p)
     then Ok () else Err BindingTypeMismatch)"

definition validate_prop ::
  "ui_env \<Rightarrow> component_spec \<Rightarrow> json_schema \<Rightarrow> json_schema option \<Rightarrow> string \<Rightarrow> string \<times> prop_value \<Rightarrow> ui_counts
     \<Rightarrow> (ui_counts, ui_error) result"
where
  "validate_prop env spec state_schema item_schema kind e ctx =
     try_bind (ok_or (UnknownProp kind (fst e)) (find_prop spec (fst e))) (\<lambda>p.
     if ue_minor env < ps_introduced_minor p then Err UnsupportedApiVersion
     else case snd e of
       BindingValue b \<Rightarrow>
         if \<not> ps_allow_binding p then Err BindingTypeMismatch
         else try_bind (validate_binding b p state_schema item_schema kind (fst e)) (\<lambda>_.
              if MAX_BINDINGS < ct_bindings ctx + 1 then Err LimitExceeded
              else Ok (ctx\<lparr>ct_bindings := ct_bindings ctx + 1\<rparr>))
     | LiteralValue v \<Rightarrow> try_bind (validate_literal spec p (snd e)) (\<lambda>_. Ok ctx))"

definition has_prop :: "string \<Rightarrow> (string \<times> prop_value) list \<Rightarrow> bool" where
  "has_prop name props \<longleftrightarrow> bt_lookup name props \<noteq> None"

text \<open>The checks between the properties and the children of an element.\<close>

definition validate_shape ::
  "ui_env \<Rightarrow> component_spec \<Rightarrow> string \<Rightarrow> (string \<times> prop_value) list \<Rightarrow> nat \<Rightarrow> (unit, ui_error) result"
where
  "validate_shape env spec kind props children =
     (case find (\<lambda>p. \<not> ps_optional p \<and> \<not> has_prop (ps_name p) props) (cs_props spec) of
        Some p \<Rightarrow> Err (MissingProp kind (ps_name p))
      | None \<Rightarrow>
          if 6 \<le> ue_minor env \<and> kind \<in> {''Toggle'', ''Progress'', ''Gauge''} \<and> \<not> has_prop ''accessibilityLabel'' props
          then Err (MissingProp kind ''accessibilityLabel'')
          else if has_prop ''color'' props \<and> has_prop ''colorToken'' props then Err (InvalidPropType ''color'')
          else if kind = ''List'' \<and> has_prop ''items'' props \<and> children \<noteq> 0 then Err InvalidChildren
          else (case cs_children spec of
                  ChildrenForbidden \<Rightarrow> if children \<noteq> 0 then Err InvalidChildren else Ok ()
                | ChildrenOne \<Rightarrow> if children \<noteq> 1 then Err InvalidChildren else Ok ()
                | ChildrenMany \<Rightarrow> Ok ()))"

definition validate_event ::
  "ui_env \<Rightarrow> component_spec \<Rightarrow> string \<Rightarrow> string \<times> emitted_event \<Rightarrow> (unit, ui_error) result"
where
  "validate_event env spec kind e =
     (if \<not> declares_input_event spec (fst e) then Err (UnknownInputEvent kind (fst e))
      else try_bind (ok_or (UnknownEvent (ee_emit (snd e))) (bt_lookup (ee_emit (snd e)) (ue_events env)))
             (\<lambda>payload. validate_value payload (ee_payload (snd e)) 0))"

definition count_asset :: "string \<Rightarrow> ui_counts \<Rightarrow> (ui_counts, ui_error) result" where
  "count_asset kind ctx =
     (if kind = ''Image''
      then (if MAX_ASSET_REFS < ct_assets ctx + 1 then Err LimitExceeded
            else Ok (ctx\<lparr>ct_assets := ct_assets ctx + 1\<rparr>))
      else Ok ctx)"

text \<open>The condition of an If and the element schema of a ForEach.\<close>

definition control_target :: "json_schema \<Rightarrow> binding option \<Rightarrow> (json_schema, ui_error) result" where
  "control_target state_schema b =
     (case b of
        Some (StateBinding p) \<Rightarrow> try_bind (path_parse p) (path_resolve state_schema)
      | _ \<Rightarrow> Err InvalidControl)"

definition if_condition :: "json_schema \<Rightarrow> binding option \<Rightarrow> (unit, ui_error) result" where
  "if_condition state_schema w =
     try_bind (control_target state_schema w) (\<lambda>target.
     if schema_json_type target \<noteq> ''boolean'' then Err BindingTypeMismatch else Ok ())"

definition foreach_items :: "json_schema \<Rightarrow> binding option \<Rightarrow> (json_schema, ui_error) result" where
  "foreach_items state_schema b =
     try_bind (control_target state_schema b) (\<lambda>target.
     case target of SArray limit items \<Rightarrow> Ok items | _ \<Rightarrow> Err BindingTypeMismatch)"

definition count_node :: "nat \<Rightarrow> ui_counts \<Rightarrow> (ui_counts, ui_error) result" where
  "count_node depth ctx =
     (if MAX_TREE_DEPTH < depth then Err LimitExceeded
      else if MAX_NODES < ct_nodes ctx + 1 then Err LimitExceeded
      else Ok (ctx\<lparr>ct_nodes := ct_nodes ctx + 1\<rparr>))"

fun validate_component ::
  "ui_env \<Rightarrow> json_schema \<Rightarrow> json_schema option \<Rightarrow> nat \<Rightarrow> ui_component \<Rightarrow> ui_counts \<Rightarrow> (ui_counts, ui_error) result"
where
  "validate_component env state_schema item_schema depth
     (UiComponent kind props children events w th el items key template) ctx =
     try_bind (count_node depth ctx) (\<lambda>ctx1.
     try_bind (registry_find kind) (\<lambda>spec.
     if ue_minor env < cs_introduced_minor spec then Err UnsupportedApiVersion
     else case cs_kind spec of
       IfKind \<Rightarrow>
         if props \<noteq> [] \<or> events \<noteq> [] \<or> children \<noteq> [] then Err InvalidControl
         else try_bind (if_condition state_schema w) (\<lambda>_.
              case th of
                None \<Rightarrow> Err InvalidControl
              | Some t \<Rightarrow>
                  try_bind (validate_component env state_schema None (depth + 1) t ctx1) (\<lambda>ctx2.
                  case el of
                    None \<Rightarrow> Ok ctx2
                  | Some e \<Rightarrow> validate_component env state_schema None (depth + 1) e ctx2))
     | ForEachKind \<Rightarrow>
         if props \<noteq> [] \<or> events \<noteq> [] \<or> children \<noteq> [] then Err InvalidControl
         else try_bind (foreach_items state_schema items) (\<lambda>elem.
              if key = None then Err InvalidControl
              else case template of
                None \<Rightarrow> Err InvalidControl
              | Some t \<Rightarrow> validate_component env state_schema (Some elem) (depth + 1) t ctx1)
     | ElementKind \<Rightarrow>
         if w \<noteq> None \<or> th \<noteq> None \<or> el \<noteq> None \<or> items \<noteq> None \<or> key \<noteq> None \<or> template \<noteq> None
         then Err InvalidControl
         else
           try_bind (try_fold (validate_prop env spec state_schema item_schema kind) props ctx1) (\<lambda>ctx2.
           try_bind (validate_shape env spec kind props (length children)) (\<lambda>_.
           try_bind (try_fold (validate_component env state_schema item_schema (depth + 1)) children ctx2) (\<lambda>ctx3.
           try_bind (try_all (validate_event env spec kind) events) (\<lambda>_.
           count_asset kind ctx3))))))"

definition validate_document :: "(ui_document \<Rightarrow> nat) \<Rightarrow> ui_document \<Rightarrow> (unit, ui_error) result" where
  "validate_document ir_size doc =
     try_bind (check_api_version (ud_api_version doc)) (\<lambda>minor.
     if MAX_IR_BYTES < ir_size doc then Err LimitExceeded
     else if MAX_EVENT_DECLS < length (ud_events doc) then Err LimitExceeded
     else
       try_bind (try_all (\<lambda>e. if fst e = [] then Err (UnknownEvent []) else check_schema_depth (snd e) 0) (ud_events doc))
         (\<lambda>_.
       try_bind (validate_value (ud_schema doc) (ud_initial doc) 0) (\<lambda>_.
       try_bind (check_schema_depth (ud_schema doc) 0) (\<lambda>_.
       try_bind (validate_component \<lparr>ue_events = ud_events doc, ue_minor = minor\<rparr> (ud_schema doc) None 1 (ud_root doc)
                   \<lparr>ct_nodes = 0, ct_bindings = 0, ct_assets = 0\<rparr>) (\<lambda>_.
       Ok ())))))"

section \<open>The tree that is walked\<close>

lemma registry_find_spec:
  assumes "registry_find kind = Ok spec"
  shows "cs_name spec = kind" "spec \<in> set ui_registry" "cs_kind spec = IfKind \<longleftrightarrow> kind = ''If''"
    "cs_kind spec = ForEachKind \<longleftrightarrow> kind = ''ForEach''"
proof -
  from assms show name: "cs_name spec = kind" and mem: "spec \<in> set ui_registry"
    by (auto simp: registry_find_def find_Some_iff)
  have "\<forall>s \<in> set ui_registry. (cs_kind s = IfKind \<longleftrightarrow> cs_name s = ''If'')
      \<and> (cs_kind s = ForEachKind \<longleftrightarrow> cs_name s = ''ForEach'')"
    by (simp add: ui_registry_def static_components_def value_components_def element_def element_since_def control_def)
  with name mem show "cs_kind spec = IfKind \<longleftrightarrow> kind = ''If''" "cs_kind spec = ForEachKind \<longleftrightarrow> kind = ''ForEach''"
    by auto
qed

text \<open>The subtrees of a component that are rendered.\<close>

definition ui_parts :: "ui_component \<Rightarrow> ui_component list" where
  "ui_parts c =
     (if uc_kind c = ''If'' then (case uc_then c of Some t \<Rightarrow> [t] | None \<Rightarrow> []) @ (case uc_else c of Some e \<Rightarrow> [e] | None \<Rightarrow> [])
      else if uc_kind c = ''ForEach'' then (case uc_template c of Some t \<Rightarrow> [t] | None \<Rightarrow> [])
      else uc_children c)"

lemma size_in_list: "x \<in> set xs \<Longrightarrow> size x \<le> size_list size xs"
  by (induction xs) auto

lemma ui_parts_size: "p \<in> set (ui_parts c) \<Longrightarrow> size p < size c"
  by (cases c) (auto simp: ui_parts_def less_Suc_eq_le trans_le_add1 size_in_list split: if_splits option.splits)

function ui_nodes :: "ui_component \<Rightarrow> nat" where
  "ui_nodes c = Suc (sum_list (map ui_nodes (ui_parts c)))"
  by pat_completeness auto
termination by (relation "measure size") (auto dest: ui_parts_size)

function ui_height :: "ui_component \<Rightarrow> nat" where
  "ui_height c = Suc (Max (insert 0 (set (map ui_height (ui_parts c)))))"
  by pat_completeness auto
termination by (relation "measure size") (auto dest: ui_parts_size)

definition own_bindings :: "ui_component \<Rightarrow> nat" where
  "own_bindings c = length (filter (\<lambda>e. case snd e of BindingValue b \<Rightarrow> True | LiteralValue v \<Rightarrow> False) (uc_props c))"

function ui_bindings :: "ui_component \<Rightarrow> nat" where
  "ui_bindings c = own_bindings c + sum_list (map ui_bindings (ui_parts c))"
  by pat_completeness auto
termination by (relation "measure size") (auto dest: ui_parts_size)

function ui_images :: "ui_component \<Rightarrow> nat" where
  "ui_images c = of_bool (uc_kind c = ''Image'') + sum_list (map ui_images (ui_parts c))"
  by pat_completeness auto
termination by (relation "measure size") (auto dest: ui_parts_size)

declare ui_nodes.simps [simp del] ui_height.simps [simp del] ui_bindings.simps [simp del] ui_images.simps [simp del]

text \<open>What walking one component adds to the counters, and their bounds.\<close>

definition walked :: "nat \<Rightarrow> ui_counts \<Rightarrow> ui_component \<Rightarrow> ui_counts \<Rightarrow> bool" where
  "walked depth ctx c ctx' \<longleftrightarrow>
     ct_nodes ctx' = ct_nodes ctx + ui_nodes c \<and> ct_bindings ctx' = ct_bindings ctx + ui_bindings c
     \<and> ct_assets ctx' = ct_assets ctx + ui_images c
     \<and> ct_nodes ctx' \<le> MAX_NODES \<and> depth + ui_height c \<le> Suc MAX_TREE_DEPTH
     \<and> (ct_bindings ctx \<le> MAX_BINDINGS \<longrightarrow> ct_bindings ctx' \<le> MAX_BINDINGS)
     \<and> (ct_assets ctx \<le> MAX_ASSET_REFS \<longrightarrow> ct_assets ctx' \<le> MAX_ASSET_REFS)"

lemma count_node_Ok:
  "count_node depth ctx = Ok ctx1 \<longleftrightarrow>
     depth \<le> MAX_TREE_DEPTH \<and> ct_nodes ctx + 1 \<le> MAX_NODES \<and> ctx1 = ctx\<lparr>ct_nodes := ct_nodes ctx + 1\<rparr>"
  by (auto simp: count_node_def)

lemma validate_prop_count:
  "validate_prop env spec st it kind e ctx = Ok ctx' \<Longrightarrow>
     ctx' = ctx\<lparr>ct_bindings := ct_bindings ctx + of_bool (\<exists>b. snd e = BindingValue b)\<rparr>
     \<and> (ct_bindings ctx \<le> MAX_BINDINGS \<longrightarrow> ct_bindings ctx' \<le> MAX_BINDINGS)"
  by (cases "snd e") (auto simp: validate_prop_def split: if_splits)

lemma validate_props_count:
  "try_fold (validate_prop env spec st it kind) props ctx = Ok ctx' \<Longrightarrow>
     ctx' = ctx\<lparr>ct_bindings := ct_bindings ctx
        + length (filter (\<lambda>e. case snd e of BindingValue b \<Rightarrow> True | LiteralValue v \<Rightarrow> False) props)\<rparr>
     \<and> (ct_bindings ctx \<le> MAX_BINDINGS \<longrightarrow> ct_bindings ctx' \<le> MAX_BINDINGS)"
proof (induction props arbitrary: ctx)
  case (Cons e props)
  then obtain ctx1 where ctx1: "validate_prop env spec st it kind e ctx = Ok ctx1"
    "try_fold (validate_prop env spec st it kind) props ctx1 = Ok ctx'" by auto
  show ?case using validate_prop_count [OF ctx1(1)] Cons.IH [OF ctx1(2)]
    by (cases "snd e") auto
qed simp

lemma count_asset_Ok:
  "count_asset kind ctx = Ok ctx' \<Longrightarrow>
     ctx' = ctx\<lparr>ct_assets := ct_assets ctx + of_bool (kind = ''Image'')\<rparr>
     \<and> (ct_assets ctx \<le> MAX_ASSET_REFS \<longrightarrow> ct_assets ctx' \<le> MAX_ASSET_REFS)"
  by (auto simp: count_asset_def split: if_splits)

text \<open>Walking a list of subtrees one level deeper.\<close>

definition walked_list :: "nat \<Rightarrow> ui_counts \<Rightarrow> ui_component list \<Rightarrow> ui_counts \<Rightarrow> bool" where
  "walked_list depth ctx cs ctx' \<longleftrightarrow>
     ct_nodes ctx' = ct_nodes ctx + sum_list (map ui_nodes cs)
     \<and> ct_bindings ctx' = ct_bindings ctx + sum_list (map ui_bindings cs)
     \<and> ct_assets ctx' = ct_assets ctx + sum_list (map ui_images cs)
     \<and> (ct_nodes ctx \<le> MAX_NODES \<longrightarrow> ct_nodes ctx' \<le> MAX_NODES)
     \<and> (\<forall>c \<in> set cs. depth + ui_height c \<le> Suc MAX_TREE_DEPTH)
     \<and> (ct_bindings ctx \<le> MAX_BINDINGS \<longrightarrow> ct_bindings ctx' \<le> MAX_BINDINGS)
     \<and> (ct_assets ctx \<le> MAX_ASSET_REFS \<longrightarrow> ct_assets ctx' \<le> MAX_ASSET_REFS)"

lemma walked_list_Nil [simp]: "walked_list depth ctx [] ctx"
  by (simp add: walked_list_def)

lemma walked_list_Cons: "walked depth ctx c ctx1 \<Longrightarrow> walked_list depth ctx1 cs ctx2 \<Longrightarrow> walked_list depth ctx (c # cs) ctx2"
  by (auto simp: walked_def walked_list_def)

lemma walked_component:
  assumes parts: "walked_list (Suc depth) ctx1 (ui_parts c) ctx2" and depth: "depth \<le> MAX_TREE_DEPTH"
    and ctx1: "ct_nodes ctx1 = ct_nodes ctx + 1" "ct_nodes ctx1 \<le> MAX_NODES"
      "ct_bindings ctx1 = ct_bindings ctx + own_bindings c" "ct_assets ctx1 = ct_assets ctx"
      "ct_bindings ctx \<le> MAX_BINDINGS \<longrightarrow> ct_bindings ctx1 \<le> MAX_BINDINGS"
    and ctx': "ct_nodes ctx' = ct_nodes ctx2" "ct_bindings ctx' = ct_bindings ctx2"
      "ct_assets ctx' = ct_assets ctx2 + of_bool (uc_kind c = ''Image'')"
      "ct_assets ctx2 \<le> MAX_ASSET_REFS \<longrightarrow> ct_assets ctx' \<le> MAX_ASSET_REFS"
  shows "walked depth ctx c ctx'"
proof -
  have "Max (insert 0 (set (map ui_height (ui_parts c)))) \<le> MAX_TREE_DEPTH - depth"
    using parts depth by (auto simp: walked_list_def)
  then have "depth + Max (insert 0 (set (map ui_height (ui_parts c)))) \<le> MAX_TREE_DEPTH" using depth by linarith
  then have "depth + ui_height c \<le> Suc MAX_TREE_DEPTH" by (subst ui_height.simps) (simp only: add_Suc_right Suc_le_mono)
  with parts ctx1 ctx' show ?thesis
    by (auto simp: walked_def walked_list_def ui_nodes.simps [of c] ui_bindings.simps [of c] ui_images.simps [of c])
qed

lemma try_fold_walked:
  assumes "\<And>c ctx ctx'. c \<in> set cs \<Longrightarrow> f c ctx = Ok ctx' \<Longrightarrow> walked depth ctx c ctx'" and "try_fold f cs ctx = Ok ctx'"
  shows "walked_list depth ctx cs ctx'"
  using assms
proof (induction cs arbitrary: ctx)
  case (Cons c cs)
  then obtain ctx1 where ctx1: "f c ctx = Ok ctx1" "try_fold f cs ctx1 = Ok ctx'" by auto
  have "walked depth ctx c ctx1" by (rule Cons.prems(1) [OF _ ctx1(1)]) simp
  moreover have "walked_list depth ctx1 cs ctx'" by (rule Cons.IH [OF _ ctx1(2)]) (simp add: Cons.prems(1))
  ultimately show ?case by (rule walked_list_Cons)
qed simp

lemma own_bindings_control: "uc_props c = [] \<Longrightarrow> own_bindings c = 0"
  by (simp add: own_bindings_def)

text \<open>The three ways a component is accepted.\<close>

lemma validate_component_OkE:
  assumes ok: "validate_component env st it depth c ctx = Ok ctx'"
  defines "ctx1 \<equiv> ctx\<lparr>ct_nodes := ct_nodes ctx + 1\<rparr>"
  obtains
    (accepted_if) t ctx2 where "depth \<le> MAX_TREE_DEPTH" "ct_nodes ctx1 \<le> MAX_NODES" "uc_kind c = ''If''"
      "uc_props c = []" "if_condition st (uc_when c) = Ok ()" "uc_then c = Some t"
      "validate_component env st None (depth + 1) t ctx1 = Ok ctx2"
      "uc_else c = None \<and> ctx' = ctx2
        \<or> (\<exists>e. uc_else c = Some e \<and> validate_component env st None (depth + 1) e ctx2 = Ok ctx')"
  | (accepted_foreach) t elem where "depth \<le> MAX_TREE_DEPTH" "ct_nodes ctx1 \<le> MAX_NODES" "uc_kind c = ''ForEach''"
      "uc_props c = []" "foreach_items st (uc_items c) = Ok elem" "uc_template c = Some t"
      "validate_component env st (Some elem) (depth + 1) t ctx1 = Ok ctx'"
  | (accepted_element) spec ctx2 ctx3 where "depth \<le> MAX_TREE_DEPTH" "ct_nodes ctx1 \<le> MAX_NODES"
      "uc_kind c \<noteq> ''If''" "uc_kind c \<noteq> ''ForEach''" "registry_find (uc_kind c) = Ok spec"
      "try_fold (validate_prop env spec st it (uc_kind c)) (uc_props c) ctx1 = Ok ctx2"
      "validate_shape env spec (uc_kind c) (uc_props c) (length (uc_children c)) = Ok ()"
      "try_fold (validate_component env st it (depth + 1)) (uc_children c) ctx2 = Ok ctx3"
      "try_all (validate_event env spec (uc_kind c)) (uc_events c) = Ok ()"
      "count_asset (uc_kind c) ctx3 = Ok ctx'"
proof -
  obtain kind props children events w th el items key template where
    c: "c = UiComponent kind props children events w th el items key template" by (cases c)
  from ok obtain spec where node: "count_node depth ctx = Ok ctx1" and spec: "registry_find kind = Ok spec"
    and minor: "\<not> ue_minor env < cs_introduced_minor spec"
    by (auto simp: c count_node_Ok ctx1_def split: if_splits)
  from node have depth: "depth \<le> MAX_TREE_DEPTH" "ct_nodes ctx1 \<le> MAX_NODES"
    by (simp_all add: count_node_Ok ctx1_def)
  note kinds = registry_find_spec(3,4) [OF spec]
  show thesis
  proof (cases "cs_kind spec")
    case IfKind
    with ok node spec minor obtain t ctx2 where t: "props = []" "if_condition st w = Ok ()" "th = Some t"
      "validate_component env st None (depth + 1) t ctx1 = Ok ctx2"
      "(case el of None \<Rightarrow> Ok ctx2 | Some e \<Rightarrow> validate_component env st None (depth + 1) e ctx2) = Ok ctx'"
      by (auto simp: c split: if_splits option.splits)
    then have "el = None \<and> ctx' = ctx2
        \<or> (\<exists>e. el = Some e \<and> validate_component env st None (depth + 1) e ctx2 = Ok ctx')"
      by (cases el) auto
    with t IfKind kinds depth show thesis by (intro that(1) [of t ctx2]) (simp_all add: c)
  next
    case ForEachKind
    with ok node spec minor kinds depth that(2) show thesis by (auto simp: c split: if_splits option.splits)
  next
    case ElementKind
    with ok node spec minor kinds depth that(3) show thesis by (auto simp: c split: if_splits)
  qed
qed

lemma validate_component_walked:
  "validate_component env st it depth c ctx = Ok ctx' \<Longrightarrow> walked depth ctx c ctx'"
proof (induction c arbitrary: it depth ctx ctx' rule: measure_induct_rule [where f = size])
  case (less c)
  let ?ctx1 = "ctx\<lparr>ct_nodes := ct_nodes ctx + 1\<rparr>"
  have IH: "walked d x p y" if "p \<in> set (ui_parts c)" "validate_component env st i d p x = Ok y" for p i d x y
    using less.IH [OF ui_parts_size [OF that(1)] that(2)] .
  note walk = walked_component [where c = c and ctx = ctx and ctx' = ctx' and depth = depth]
  from less.prems show ?case
  proof (cases rule: validate_component_OkE)
    case (accepted_if t ctx2)
    have parts: "ui_parts c = t # (case uc_else c of Some e \<Rightarrow> [e] | None \<Rightarrow> [])"
      using accepted_if by (simp add: ui_parts_def)
    have "walked (Suc depth) ?ctx1 t ctx2" using IH [of t] parts accepted_if(7) by simp
    moreover have "walked_list (Suc depth) ctx2 (case uc_else c of Some e \<Rightarrow> [e] | None \<Rightarrow> []) ctx'"
      using accepted_if(8)
    proof (elim disjE conjE exE)
      fix e assume e: "uc_else c = Some e" "validate_component env st None (depth + 1) e ctx2 = Ok ctx'"
      then have "walked (Suc depth) ctx2 e ctx'" using IH [of e] parts by simp
      with e show ?thesis by (auto intro: walked_list_Cons)
    qed simp
    ultimately have "walked_list (Suc depth) ?ctx1 (ui_parts c) ctx'" unfolding parts by (rule walked_list_Cons)
    then show ?thesis
      using accepted_if by (intro walk [of ?ctx1 ctx']) (simp_all add: own_bindings_control)
  next
    case (accepted_foreach t elem)
    have parts: "ui_parts c = [t]" using accepted_foreach by (simp add: ui_parts_def)
    have "walked (Suc depth) ?ctx1 t ctx'" using IH [of t] parts accepted_foreach(7) by simp
    then have "walked_list (Suc depth) ?ctx1 (ui_parts c) ctx'" unfolding parts by (auto intro: walked_list_Cons)
    then show ?thesis
      using accepted_foreach by (intro walk [of ?ctx1 ctx']) (simp_all add: own_bindings_control)
  next
    case (accepted_element spec ctx2 ctx3)
    have parts: "ui_parts c = uc_children c" using accepted_element by (simp add: ui_parts_def)
    have "walked_list (Suc depth) ctx2 (ui_parts c) ctx3"
      unfolding parts by (rule try_fold_walked [OF _ accepted_element(8)]) (use IH parts in auto)
    moreover have "ct_nodes ctx2 = ct_nodes ctx + 1 \<and> ct_bindings ctx2 = ct_bindings ctx + own_bindings c
        \<and> ct_assets ctx2 = ct_assets ctx \<and> (ct_bindings ctx \<le> MAX_BINDINGS \<longrightarrow> ct_bindings ctx2 \<le> MAX_BINDINGS)"
      using validate_props_count [OF accepted_element(6)] by (auto simp: own_bindings_def)
    moreover have "ct_nodes ctx' = ct_nodes ctx3 \<and> ct_bindings ctx' = ct_bindings ctx3
        \<and> ct_assets ctx' = ct_assets ctx3 + of_bool (uc_kind c = ''Image'')
        \<and> (ct_assets ctx3 \<le> MAX_ASSET_REFS \<longrightarrow> ct_assets ctx' \<le> MAX_ASSET_REFS)"
      using count_asset_Ok [OF accepted_element(10)] by auto
    moreover have "depth \<le> MAX_TREE_DEPTH" "ct_nodes ctx + 1 \<le> MAX_NODES" using accepted_element(1,2) by simp_all
    ultimately show ?thesis by (intro walk [of ctx2 ctx3]) auto
  qed
qed

text \<open>The rendered tree of an accepted document is bounded: at most 256 components, nested at most 32
  deep, with at most 512 property bindings and 64 image references, at most 128 declared events and
  an encoding of at most 256 KiB.\<close>

theorem accepted_document_is_bounded:
  assumes "validate_document ir_size doc = Ok ()"
  shows "ui_nodes (ud_root doc) \<le> 256 \<and> ui_height (ud_root doc) \<le> 32 \<and> ui_bindings (ud_root doc) \<le> 512
    \<and> ui_images (ud_root doc) \<le> 64 \<and> length (ud_events doc) \<le> 128 \<and> ir_size doc \<le> 262144"
proof -
  from assms obtain minor ctx where
    walk: "validate_component \<lparr>ue_events = ud_events doc, ue_minor = minor\<rparr> (ud_schema doc) None 1 (ud_root doc)
       \<lparr>ct_nodes = 0, ct_bindings = 0, ct_assets = 0\<rparr> = Ok ctx"
    and sizes: "ir_size doc \<le> MAX_IR_BYTES" "length (ud_events doc) \<le> MAX_EVENT_DECLS"
    by (auto simp: validate_document_def split: if_splits)
  from validate_component_walked [OF walk] sizes show ?thesis
    by (auto simp: walked_def MAX_NODES_def MAX_TREE_DEPTH_def MAX_BINDINGS_def MAX_ASSET_REFS_def
        MAX_EVENT_DECLS_def MAX_IR_BYTES_def)
qed

section \<open>What a document shows\<close>

text \<open>
  The values the properties of the components have in a state, with the component and property
  they belong to: an If shows the branch of its condition, a ForEach shows its template once for
  every element of its array, and a bound field that the state does not have shows nothing.
\<close>

definition binding_value :: "json \<Rightarrow> json option \<Rightarrow> binding \<Rightarrow> json option" where
  "binding_value state item b =
     (case b of
        StateBinding p \<Rightarrow> (case path_parse p of Ok segs \<Rightarrow> json_get state segs | Err e \<Rightarrow> None)
      | ItemBinding i \<Rightarrow>
          Option.bind item (\<lambda>v.
            if i = ''value'' then Some v
            else (case path_parse (''$.'' @ i) of Ok segs \<Rightarrow> json_get v segs | Err e \<Rightarrow> None)))"

definition prop_value_in :: "json \<Rightarrow> json option \<Rightarrow> prop_value \<Rightarrow> json option" where
  "prop_value_in state item pv = (case pv of LiteralValue v \<Rightarrow> Some v | BindingValue b \<Rightarrow> binding_value state item b)"

function ui_values :: "json \<Rightarrow> json option \<Rightarrow> ui_component \<Rightarrow> (string \<times> string \<times> json) set" where
  "ui_values state item c =
     (if uc_kind c = ''If'' then
        (case Option.bind (uc_when c) (binding_value state None) of
           Some (JBool True) \<Rightarrow> (case uc_then c of Some t \<Rightarrow> ui_values state None t | None \<Rightarrow> {})
         | Some (JBool False) \<Rightarrow> (case uc_else c of Some e \<Rightarrow> ui_values state None e | None \<Rightarrow> {})
         | _ \<Rightarrow> {})
      else if uc_kind c = ''ForEach'' then
        (case Option.bind (uc_items c) (binding_value state None) of
           Some (JArr xs) \<Rightarrow> (\<Union>x \<in> set xs. case uc_template c of Some t \<Rightarrow> ui_values state (Some x) t | None \<Rightarrow> {})
         | _ \<Rightarrow> {})
      else {(uc_kind c, name, v) |name pv v. (name, pv) \<in> set (uc_props c) \<and> prop_value_in state item pv = Some v}
        \<union> (\<Union>child \<in> set (uc_children c). ui_values state item child))"
  by pat_completeness auto
termination
proof (relation "measure (\<lambda>(state, item, c). size c)")
  fix state item c t x31 assume "uc_kind c = ''If''" "uc_then c = Some t"
  then show "((state, None, t), state, item, c) \<in> measure (\<lambda>(state, item, c). size c)"
    using ui_parts_size [of t c] by (simp add: ui_parts_def)
next
  fix state item c e assume "uc_kind c = ''If''" "uc_else c = Some e"
  then show "((state, None, e), state, item, c) \<in> measure (\<lambda>(state, item, c). size c)"
    using ui_parts_size [of e c] by (simp add: ui_parts_def)
next
  fix state item c x t assume "uc_kind c \<noteq> ''If''" "uc_kind c = ''ForEach''" "uc_template c = Some t"
  then show "((state, Some x, t), state, item, c) \<in> measure (\<lambda>(state, item, c). size c)"
    using ui_parts_size [of t c] by (simp add: ui_parts_def)
next
  fix state item c child assume "uc_kind c \<noteq> ''If''" "uc_kind c \<noteq> ''ForEach''" "child \<in> set (uc_children c)"
  then show "((state, item, child), state, item, c) \<in> measure (\<lambda>(state, item, c). size c)"
    using ui_parts_size [of child c] by (simp add: ui_parts_def)
qed auto

declare ui_values.simps [simp del]

text \<open>What the renderer may rely on for a property value.\<close>

definition value_fits :: "string \<times> string \<times> json \<Rightarrow> bool" where
  "value_fits e \<longleftrightarrow>
     (case e of (kind, name, v) \<Rightarrow>
        (\<exists>spec p. registry_find kind = Ok spec \<and> find_prop spec name = Some p
            \<and> list_ex (\<lambda>t. type_matches t v) (ps_types p))
      \<and> (kind = ''List'' \<and> name = ''items'' \<longrightarrow> (\<exists>xs. v = JArr xs \<and> length xs \<le> 256 \<and> list_all is_string xs))
      \<and> (kind = ''Sparkline'' \<and> name = ''values'' \<longrightarrow> (\<exists>xs. v = JArr xs \<and> length xs \<le> 128 \<and> list_all is_number xs)))"

text \<open>An item schema describes the current item.\<close>

definition item_typed :: "json_schema option \<Rightarrow> json option \<Rightarrow> bool" where
  "item_typed it item \<longleftrightarrow> (\<forall>s v. it = Some s \<longrightarrow> item = Some v \<longrightarrow> conforms s v)"

lemma binding_value_conforms:
  assumes "binding_target st it b = Ok target" and "conforms st state" and "item_typed it item"
    and "binding_value state item b = Some v"
  shows "conforms target v"
  using assms
  by (cases b)
    (auto simp: binding_target_def binding_value_def item_typed_def bind_eq_Some_conv intro: path_resolve_conforms
      split: if_splits result.splits)

lemma type_matches_of_name: "type_name t = json_type_name v \<Longrightarrow> type_matches t v"
  by (cases v; cases t) auto

lemma bounded_array_conforms:
  assumes "bounded_array_of limit elem s" and "conforms s v"
    and "\<And>i x. elem i \<Longrightarrow> conforms i x \<Longrightarrow> P x"
  shows "\<exists>xs. v = JArr xs \<and> length xs \<le> limit \<and> list_all P xs"
  using assms
  by (auto simp: bounded_array_of_def within_max_def list_all_iff split: json_schema.splits option.splits elim!: conforms_arrayE)

lemma schema_json_type_not_integer: "schema_json_type s \<noteq> ''integer''"
  by (cases s) auto

lemma binding_fits:
  assumes ok: "validate_binding b p st it kind name = Ok ()" and st: "conforms st state" "item_typed it item"
    and v: "binding_value state item b = Some v" and p: "registry_find kind = Ok spec" "find_prop spec name = Some p"
  shows "value_fits (kind, name, v)"
proof -
  from ok obtain target where target: "binding_target st it b = Ok target"
    and list: "kind = ''List'' \<and> name = ''items'' \<Longrightarrow>
      bounded_array_of MAX_LIST_ITEMS (\<lambda>s. case s of SString _ \<Rightarrow> True | _ \<Rightarrow> False) target"
    and spark: "kind = ''Sparkline'' \<and> name = ''values'' \<Longrightarrow>
      bounded_array_of MAX_CHART_POINTS (\<lambda>s. s = SNumber \<or> s = SInteger) target"
    and ty: "list_ex (\<lambda>t. type_name t = schema_json_type target) (ps_types p)"
    by (auto simp: validate_binding_def schema_json_type_not_integer split: if_splits)
  have conf: "conforms target v" by (rule binding_value_conforms [OF target st v])
  have "list_ex (\<lambda>t. type_matches t v) (ps_types p)"
    using ty conforms_type [OF conf] type_matches_of_name unfolding list_ex_iff by metis
  moreover have "\<exists>xs. v = JArr xs \<and> length xs \<le> 256 \<and> list_all is_string xs" if "kind = ''List'' \<and> name = ''items''"
  proof -
    have "is_string x" if "case i of SString _ \<Rightarrow> True | _ \<Rightarrow> False" "conforms i x" for i x
      using that by (cases i) auto
    from bounded_array_conforms [OF list [OF that] conf this] show ?thesis by (simp add: MAX_LIST_ITEMS_def)
  qed
  moreover have "\<exists>xs. v = JArr xs \<and> length xs \<le> 128 \<and> list_all is_number xs"
    if "kind = ''Sparkline'' \<and> name = ''values''"
  proof -
    have "is_number x" if "i = SNumber \<or> i = SInteger" "conforms i x" for i x
      using that by auto
    from bounded_array_conforms [OF spark [OF that] conf this] show ?thesis by (simp add: MAX_CHART_POINTS_def)
  qed
  ultimately show ?thesis using p by (auto simp: value_fits_def)
qed

lemma array_props:
  "registry_find ''List'' = Ok spec \<Longrightarrow> find_prop spec ''items'' = Some p \<Longrightarrow> ps_types p = [TArray]"
  "registry_find ''Sparkline'' = Ok spec \<Longrightarrow> find_prop spec ''values'' = Some p \<Longrightarrow> ps_types p = [TArray]"
  by (auto simp: registry_find_def ui_registry_def static_components_def value_components_def element_def element_since_def find_prop_def prop_of_def
      COMMON_ELEMENT_PROPS_def)

lemma literal_fits:
  assumes ok: "validate_literal spec p (LiteralValue v) = Ok ()" and p: "registry_find kind = Ok spec" "find_prop spec name = Some p"
  shows "value_fits (kind, name, v)"
proof -
  have names: "cs_name spec = kind" "ps_name p = name"
    using registry_find_spec(1) [OF p(1)] p(2) by (auto simp: find_prop_def find_Some_iff)
  from ok have ty: "list_ex (\<lambda>t. type_matches t v) (ps_types p)" and lit: "literal_value_ok kind name v"
    by (auto simp: validate_literal_def names split: if_splits)
  have arr: "\<exists>xs. v = JArr xs" if "ps_types p = [TArray]" using ty that by (cases v) auto
  have "\<exists>xs. v = JArr xs \<and> length xs \<le> 256 \<and> list_all is_string xs" if "kind = ''List'' \<and> name = ''items''"
    using arr array_props(1) p lit that by (auto simp: literal_value_ok_def MAX_LIST_ITEMS_def)
  moreover have "\<exists>xs. v = JArr xs \<and> length xs \<le> 128 \<and> list_all is_number xs"
    if "kind = ''Sparkline'' \<and> name = ''values''"
    using arr array_props(2) p lit that by (auto simp: literal_value_ok_def MAX_CHART_POINTS_def)
  ultimately show ?thesis using p ty by (auto simp: value_fits_def)
qed

lemma try_fold_member: "try_fold f xs s = Ok t \<Longrightarrow> x \<in> set xs \<Longrightarrow> \<exists>u w. f x u = Ok w"
  by (induction xs arbitrary: s) auto

lemma foreach_items_Ok: "foreach_items st b = Ok elem \<Longrightarrow> \<exists>limit. control_target st b = Ok (SArray limit elem)"
  by (cases "control_target st b"; cases "\<exists>l i. control_target st b = Ok (SArray l i)")
    (auto simp: foreach_items_def split: json_schema.splits)

lemma control_target_conforms:
  assumes "control_target st w = Ok target" and "conforms st state"
    and "Option.bind w (binding_value state None) = Some v"
  shows "conforms target v"
proof -
  from assms(1) obtain p where p: "w = Some (StateBinding p)" "binding_target st None (StateBinding p) = Ok target"
    by (auto simp: control_target_def binding_target_def split: option.splits binding.splits)
  with assms(3) have "binding_value state None (StateBinding p) = Some v" by simp
  with binding_value_conforms [OF p(2) assms(2)] show ?thesis by (simp add: item_typed_def)
qed

lemma prop_fits:
  assumes ok: "validate_prop env spec st it kind (name, pv) ctx = Ok ctx'" and spec: "registry_find kind = Ok spec"
    and st: "conforms st state" "item_typed it item" and v: "prop_value_in state item pv = Some v"
  shows "value_fits (kind, name, v)"
proof -
  from ok obtain p where p: "find_prop spec name = Some p" by (auto simp: validate_prop_def)
  show ?thesis
  proof (cases pv)
    case (BindingValue b)
    with ok p have "validate_binding b p st it kind name = Ok ()" by (auto simp: validate_prop_def split: if_splits)
    from binding_fits [OF this st _ spec p] BindingValue v show ?thesis by (simp add: prop_value_in_def)
  next
    case (LiteralValue w)
    with ok p have "validate_literal spec p (LiteralValue w) = Ok ()" by (auto simp: validate_prop_def split: if_splits)
    from literal_fits [OF this spec p] LiteralValue v show ?thesis by (simp add: prop_value_in_def)
  qed
qed

lemma component_values_fit:
  "validate_component env st it depth c ctx = Ok ctx' \<Longrightarrow> conforms st state \<Longrightarrow> item_typed it item \<Longrightarrow>
     e \<in> ui_values state item c \<Longrightarrow> value_fits e"
proof (induction c arbitrary: it item depth ctx ctx' rule: measure_induct_rule [where f = size])
  case (less c)
  have IH: "value_fits e" if "p \<in> set (ui_parts c)" "validate_component env st i d p x = Ok y" "item_typed i it'"
    "e \<in> ui_values state it' p" for p i it' d x y
    using less.IH [OF ui_parts_size [OF that(1)] that(2) less.prems(2) that(3,4)] .
  have none: "item_typed None item'" for item' by (simp add: item_typed_def)
  from less.prems(1) show ?case
  proof (cases rule: validate_component_OkE)
    case (accepted_if t ctx2)
    note shows_eq = ui_values.simps [of state item c]
    have parts: "ui_parts c = t # (case uc_else c of Some e \<Rightarrow> [e] | None \<Rightarrow> [])"
      using accepted_if by (simp add: ui_parts_def)
    from less.prems(4) accepted_if(3,6) consider
      (shown_yes) "e \<in> ui_values state None t" | (shown_no) el where "uc_else c = Some el" "e \<in> ui_values state None el"
      unfolding shows_eq by (auto split: option.splits json.splits bool.splits)
    then show ?thesis
    proof cases
      case shown_yes
      with IH [OF _ accepted_if(7) none] parts show ?thesis by simp
    next
      case (shown_no el)
      with accepted_if(8) obtain ctx2 where "validate_component env st None (depth + 1) el ctx2 = Ok ctx'" by auto
      with IH [OF _ this none] shown_no parts show ?thesis by simp
    qed
  next
    case (accepted_foreach t elem)
    note shows_eq = ui_values.simps [of state item c]
    from less.prems(4) accepted_foreach(3,6) obtain xs x where
      xs: "Option.bind (uc_items c) (binding_value state None) = Some (JArr xs)" "x \<in> set xs" "e \<in> ui_values state (Some x) t"
      unfolding shows_eq by (auto split: option.splits json.splits)
    from accepted_foreach(5) obtain limit where "control_target st (uc_items c) = Ok (SArray limit elem)"
      by (auto dest: foreach_items_Ok)
    from control_target_conforms [OF this less.prems(2) xs(1)] xs(2) have "conforms elem x"
      by (auto elim: conforms_arrayE)
    then have "item_typed (Some elem) (Some x)" by (simp add: item_typed_def)
    with IH [OF _ accepted_foreach(7) this xs(3)] accepted_foreach show ?thesis by (simp add: ui_parts_def)
  next
    case (accepted_element spec ctx2 ctx3)
    have parts: "ui_parts c = uc_children c" using accepted_element by (simp add: ui_parts_def)
    from less.prems(4) accepted_element(3,4) consider
      (own) name pv v where "e = (uc_kind c, name, v)" "(name, pv) \<in> set (uc_props c)" "prop_value_in state item pv = Some v"
    | (child) child where "child \<in> set (uc_children c)" "e \<in> ui_values state item child"
      unfolding ui_values.simps [of state item c] by auto
    then show ?thesis
    proof cases
      case (own name pv v)
      from try_fold_member [OF accepted_element(6) own(2)] obtain u w where
        "validate_prop env spec st it (uc_kind c) (name, pv) u = Ok w" by blast
      from prop_fits [OF this accepted_element(5) less.prems(2,3) own(3)] own(1) show ?thesis by simp
    next
      case (child child)
      from try_fold_member [OF accepted_element(8) child(1)] obtain u w where
        "validate_component env st it (depth + 1) child u = Ok w" by blast
      from IH [OF _ this less.prems(3) child(2)] child(1) parts show ?thesis by simp
    qed
  qed
qed

text \<open>C37: Bindings are type-safe: in every state an accepted document's schema accepts, whichever branches
  the conditions select and however many elements the arrays have, every property value that is shown
  belongs to a known property of a known component and has one of its types; the items of a List are
  at most 256 strings and the values of a Sparkline at most 128 numbers.\<close>

theorem shown_values_are_well_typed:
  assumes doc: "validate_document ir_size doc = Ok ()" and state: "validate_value (ud_schema doc) state depth = Ok ()"
    and shown: "(kind, name, v) \<in> ui_values state None (ud_root doc)"
  shows "(\<exists>spec p. registry_find kind = Ok spec \<and> find_prop spec name = Some p
        \<and> list_ex (\<lambda>t. type_matches t v) (ps_types p))
    \<and> (kind = ''List'' \<and> name = ''items'' \<longrightarrow> (\<exists>xs. v = JArr xs \<and> length xs \<le> 256 \<and> list_all is_string xs))
    \<and> (kind = ''Sparkline'' \<and> name = ''values'' \<longrightarrow> (\<exists>xs. v = JArr xs \<and> length xs \<le> 128 \<and> list_all is_number xs))"
proof -
  from doc obtain minor ctx where
    "validate_component \<lparr>ue_events = ud_events doc, ue_minor = minor\<rparr> (ud_schema doc) None 1 (ud_root doc)
       \<lparr>ct_nodes = 0, ct_bindings = 0, ct_assets = 0\<rparr> = Ok ctx"
    by (auto simp: validate_document_def split: if_splits)
  moreover have "conforms (ud_schema doc) state" using state by (simp add: validate_value_iff)
  moreover have "item_typed None None" by (simp add: item_typed_def)
  ultimately have "value_fits (kind, name, v)" using shown by (rule component_values_fit)
  then show ?thesis by (simp add: value_fits_def)
qed

section \<open>Concrete documents\<close>

definition plain_component :: "string \<Rightarrow> (string \<times> prop_value) list \<Rightarrow> ui_component list \<Rightarrow> ui_component" where
  "plain_component kind props children = UiComponent kind props children [] None None None None None None"

definition sample_document :: "ui_component \<Rightarrow> ui_document" where
  "sample_document root' =
     \<lparr>ud_api_version = ''1.0.0'', ud_initial = JObj [(''on'', JBool True), (''zones'', JArr [JStr ''UTC''])],
      ud_schema = SObject [''on''] [(''on'', SBoolean), (''zones'', SArray (Some 16) (SString None))] False,
      ud_events = [], ud_root = root'\<rparr>"

definition sample_root :: ui_component where
  "sample_root = UiComponent ''ForEach'' [] [] [] None None None (Some (StateBinding ''$.zones'')) (Some ''value'')
     (Some (plain_component ''Text'' [(''text'', BindingValue (ItemBinding ''value''))] []))"

lemma sample_version: "check_api_version ''1.0.0'' = Ok 0"
  by (simp add: check_api_version_def parse_u64_def ascii_eval)

lemma sample_paths: "path_parse ''$.zones'' = Ok [''zones'']" "path_parse ''$.on'' = Ok [''on'']"
  by (simp_all add: path_parse_def path_field_ok_def ascii_eval)

lemma sample_registry:
  "registry_find ''ForEach'' = Ok (control ''ForEach'' ForEachKind)"
  "registry_find ''Text'' = Ok (element ''Text'' ChildrenForbidden
     [prop_of ''text'' TString True 0 False, prop_of ''style'' TString False 0 True, prop_of ''colorToken'' TString False 5 True] [])"
  by (simp_all add: registry_find_def ui_registry_def static_components_def value_components_def element_def element_since_def control_def)

lemma sample_initial_valid:
  "validate_value (ud_schema (sample_document r)) (JObj [(''on'', JBool True), (''zones'', JArr [JStr ''UTC''])]) 0 = Ok ()"
  by (simp add: sample_document_def validate_value.simps object_keys_ok_def within_max_def char_count_def MAX_STATE_DEPTH_def
      member_check_def ascii_eval)

lemma sample_schema_depth: "check_schema_depth (ud_schema (sample_document r)) 0 = Ok ()"
  by (simp add: sample_document_def check_schema_depth.simps MAX_STATE_DEPTH_def)

lemma sample_items: "foreach_items (ud_schema (sample_document r)) (Some (StateBinding ''$.zones'')) = Ok (SString None)"
  by (simp add: foreach_items_def control_target_def sample_paths sample_document_def)

lemma sample_text_valid:
  "validate_component env st (Some (SString None)) (depth + 1)
     (plain_component ''Text'' [(''text'', BindingValue (ItemBinding ''value''))] []) ctx = Ok (ctx\<lparr>ct_nodes := 2, ct_bindings := 1\<rparr>)"
  if "depth \<le> 1" "ct_nodes ctx = 1" "ct_bindings ctx = 0"
  using that
  by (simp add: plain_component_def sample_registry count_node_def MAX_TREE_DEPTH_def MAX_NODES_def MAX_BINDINGS_def
      element_def element_since_def validate_prop_def find_prop_def COMMON_ELEMENT_PROPS_def prop_of_def validate_binding_def
      binding_target_def validate_shape_def has_prop_def count_asset_def)

lemma sample_document_valid: "validate_document (\<lambda>_. 100) (sample_document sample_root) = Ok ()"
proof -
  let ?doc = "sample_document sample_root"
  have "validate_component \<lparr>ue_events = [], ue_minor = 0\<rparr> (ud_schema ?doc) None 1 sample_root
       \<lparr>ct_nodes = 0, ct_bindings = 0, ct_assets = 0\<rparr> = Ok \<lparr>ct_nodes = 2, ct_bindings = 1, ct_assets = 0\<rparr>"
    using sample_text_valid [of 1 "\<lparr>ct_nodes = 1, ct_bindings = 0, ct_assets = 0\<rparr>"]
    by (simp add: sample_root_def sample_registry control_def count_node_def MAX_TREE_DEPTH_def MAX_NODES_def sample_items)
  moreover have "ud_api_version ?doc = ''1.0.0''" "ud_events ?doc = []" "ud_root ?doc = sample_root"
    "ud_initial ?doc = JObj [(''on'', JBool True), (''zones'', JArr [JStr ''UTC''])]"
    by (simp_all add: sample_document_def)
  ultimately show ?thesis
    by (simp add: validate_document_def sample_version sample_initial_valid sample_schema_depth MAX_IR_BYTES_def
        MAX_EVENT_DECLS_def)
qed

lemma accepted_document_is_bounded_witness:
  "ui_nodes (ud_root (sample_document sample_root)) \<le> 256 \<and> ui_height (ud_root (sample_document sample_root)) \<le> 32"
  using accepted_document_is_bounded [OF sample_document_valid] by simp

lemma sample_shown:
  "(''Text'', ''text'', JStr ''UTC'') \<in> ui_values (ud_initial (sample_document sample_root)) None sample_root"
proof -
  let ?text = "plain_component ''Text'' [(''text'', BindingValue (ItemBinding ''value''))] []"
  let ?state = "ud_initial (sample_document sample_root)"
  have state: "?state = JObj [(''on'', JBool True), (''zones'', JArr [JStr ''UTC''])]" by (simp add: sample_document_def)
  have "(''Text'', ''text'', JStr ''UTC'') \<in> ui_values ?state (Some (JStr ''UTC'')) ?text"
    by (subst ui_values.simps) (simp add: plain_component_def prop_value_in_def binding_value_def)
  moreover have "uc_kind sample_root = ''ForEach''" "uc_items sample_root = Some (StateBinding ''$.zones'')"
    "uc_template sample_root = Some ?text"
    by (simp_all add: sample_root_def)
  ultimately show ?thesis
    unfolding state by (subst ui_values.simps) (simp add: binding_value_def sample_paths)
qed

lemma shown_values_are_well_typed_witness:
  "\<exists>spec p. registry_find ''Text'' = Ok spec \<and> find_prop spec ''text'' = Some p
      \<and> list_ex (\<lambda>t. type_matches t (JStr ''UTC'')) (ps_types p)"
proof -
  have "ud_initial (sample_document sample_root) = JObj [(''on'', JBool True), (''zones'', JArr [JStr ''UTC''])]"
    "ud_root (sample_document sample_root) = sample_root"
    by (simp_all add: sample_document_def)
  with shown_values_are_well_typed [OF sample_document_valid, of "ud_initial (sample_document sample_root)" 0]
    sample_initial_valid sample_shown show ?thesis by simp
qed

text \<open>
  The fields of the other control component are not looked at: an If is accepted with a template
  that no component of the registry describes.
\<close>

definition hidden_template :: ui_component where
  "hidden_template = UiComponent ''If'' [] [] [] (Some (StateBinding ''$.on''))
     (Some (plain_component ''Row'' [] [])) None None None (Some (plain_component ''Unknown'' [] []))"

lemma unused_template_is_not_checked:
  "validate_document (\<lambda>_. 100) (sample_document hidden_template) = Ok ()
   \<and> registry_find ''Unknown'' = Err (UnknownComponent ''Unknown'')"
proof -
  let ?doc = "sample_document hidden_template"
  have reg: "registry_find ''If'' = Ok (control ''If'' IfKind)" "registry_find ''Row'' = Ok (element ''Row'' ChildrenMany [] [])"
    "registry_find ''Unknown'' = Err (UnknownComponent ''Unknown'')"
    by (simp_all add: registry_find_def ui_registry_def static_components_def value_components_def element_def element_since_def control_def)
  have cond: "if_condition (ud_schema (sample_document r)) (Some (StateBinding ''$.on'')) = Ok ()" for r
    by (simp add: if_condition_def control_target_def sample_paths sample_document_def)
  have "\<exists>ctx. validate_component \<lparr>ue_events = [], ue_minor = 0\<rparr> (ud_schema ?doc) None 1 hidden_template
       \<lparr>ct_nodes = 0, ct_bindings = 0, ct_assets = 0\<rparr> = Ok ctx"
    by (simp add: hidden_template_def plain_component_def reg control_def cond count_node_def MAX_TREE_DEPTH_def MAX_NODES_def
      element_def element_since_def COMMON_ELEMENT_PROPS_def prop_of_def validate_shape_def has_prop_def count_asset_def)
  moreover have "ud_api_version ?doc = ''1.0.0''" "ud_events ?doc = []" "ud_root ?doc = hidden_template"
    "ud_initial ?doc = JObj [(''on'', JBool True), (''zones'', JArr [JStr ''UTC''])]"
    by (simp_all add: sample_document_def)
  ultimately show ?thesis
    by (auto simp: validate_document_def sample_version sample_initial_valid sample_schema_depth MAX_IR_BYTES_def
        MAX_EVENT_DECLS_def reg)
qed

end
