(* ===== verification/Package.thy ===== *)
theory Package
  imports Ui_Document Installation
begin

text \<open>
  The checks a package passes before it is installed, \<open>floatile-cli/src/package.rs\<close>: the scan
  of the archive's entries, the manifest, the entry points, the configuration schema, the user
  interface document and the imports of the WebAssembly component.

  \<open>package_lib\<close> holds the third-party code: the zip reader, the JSON readers, the component reader
  and the Unicode tables of \<open>to_lowercase\<close>.  The archive is the list of what \<open>by_index\<close> returns.
  Sizes are 64-bit words whose sum wraps as in a release build; the lemmas show that it does not
  wrap below the default limits, and what holds of a package that is accepted.
\<close>

section \<open>Archives and limits\<close>

record zip_entry =
  ze_name :: string
  ze_mode :: "u32 option"
  ze_size :: u64
  ze_compressed :: u64
  ze_is_dir :: bool
  ze_data :: "bytes option"

type_synonym archive = "zip_entry option list"

text \<open>The imports of a component, with the functions of those that are instances, and its exports.\<close>

record component_type =
  cy_imports :: "(string \<times> string list option) list"
  cy_exports :: "string list"

record 'v package_lib =
  pk_install :: "'v install_lib"
  pk_open :: "bytes \<Rightarrow> archive option"
  pk_by_name :: "archive \<Rightarrow> string \<Rightarrow> zip_entry option"
  pk_lower :: "string \<Rightarrow> string"
  pk_parse_ui :: "bytes \<Rightarrow> ui_document option"
  pk_ui_size :: "ui_document \<Rightarrow> nat"
  pk_component :: "bytes \<Rightarrow> component_type option"

record package_limits =
  pl_archive_bytes :: u64
  pl_entries :: u64
  pl_total :: u64
  pl_single :: u64
  pl_ratio :: u32

definition default_package_limits :: package_limits where
  "default_package_limits =
     \<lparr>pl_archive_bytes = 8 * 1024 * 1024, pl_entries = 256, pl_total = 64 * 1024 * 1024,
      pl_single = 16 * 1024 * 1024, pl_ratio = 200\<rparr>"

record validated_package =
  vp_manifest :: manifest
  vp_document :: ui_document
  vp_wasm :: bytes
  vp_entry_names :: "string list"
  vp_files :: file_set

datatype package_error =
    PkArchiveTooLarge nat u64
  | PkTooManyEntries nat u64
  | PkUncompressedTooLarge
  | PkEntryTooLarge string
  | PkZipBomb string
  | PkCorruptZip
  | PkInvalidPath string
  | PkDuplicatePath string
  | PkCaseCollision string
  | PkSpecialEntry string
  | PkMissingManifest
  | PkInvalidManifest manifest_error
  | PkMissingEntrypoint string
  | PkInvalidUiIr ui_error
  | PkInvalidWasm
  | PkDisallowedImport string
  | PkMissingWorldExport
  | PkInvalidJson
  | PkInvalidConfigSchema

fun package_error_code :: "package_error \<Rightarrow> string" where
  "package_error_code (PkArchiveTooLarge n l) = ''FPAK_ARCHIVE_TOO_LARGE''"
| "package_error_code (PkTooManyEntries n l) = ''FPAK_TOO_MANY_ENTRIES''"
| "package_error_code PkUncompressedTooLarge = ''FPAK_UNCOMPRESSED_TOO_LARGE''"
| "package_error_code (PkEntryTooLarge n) = ''FPAK_ENTRY_TOO_LARGE''"
| "package_error_code (PkZipBomb n) = ''FPAK_ZIP_BOMB''"
| "package_error_code PkCorruptZip = ''FPAK_CORRUPT_ZIP''"
| "package_error_code (PkInvalidPath p) = ''FPAK_INVALID_PATH''"
| "package_error_code (PkDuplicatePath p) = ''FPAK_DUPLICATE_PATH''"
| "package_error_code (PkCaseCollision p) = ''FPAK_CASE_COLLISION''"
| "package_error_code (PkSpecialEntry p) = ''FPAK_SPECIAL_ENTRY''"
| "package_error_code PkMissingManifest = ''FPAK_MISSING_MANIFEST''"
| "package_error_code (PkInvalidManifest e) = ''FPAK_INVALID_MANIFEST''"
| "package_error_code (PkMissingEntrypoint p) = ''FPAK_MISSING_ENTRYPOINT''"
| "package_error_code (PkInvalidUiIr e) = ''FPAK_INVALID_UI_IR''"
| "package_error_code PkInvalidWasm = ''FPAK_INVALID_WASM''"
| "package_error_code (PkDisallowedImport i) = ''FPAK_DISALLOWED_IMPORT''"
| "package_error_code PkMissingWorldExport = ''FPAK_MISSING_WORLD_EXPORT''"
| "package_error_code PkInvalidJson = ''FPAK_INVALID_JSON''"
| "package_error_code PkInvalidConfigSchema = ''FPAK_INVALID_CONFIG_SCHEMA''"

section \<open>The scan of the entries\<close>

text \<open>Symbolic links, character and block devices, pipes and sockets, by the file type bits.\<close>

definition special_mode :: "u32 \<Rightarrow> bool" where
  "special_mode mode \<longleftrightarrow> and mode 0xF000 \<in> {0xA000, 0x2000, 0x6000, 0x1000, 0xC000}"

text \<open>The state of the first pass: the names, their lowercase forms, the entries, the total size.\<close>

record scan =
  sc_names :: "string set"
  sc_lower :: "string set"
  sc_entries :: "(string \<times> u64 \<times> bool) list"
  sc_total :: u64

definition empty_scan :: scan where
  "empty_scan = \<lparr>sc_names = {}, sc_lower = {}, sc_entries = [], sc_total = 0\<rparr>"

definition scan_name :: "'v package_lib \<Rightarrow> zip_entry \<Rightarrow> scan \<Rightarrow> (unit, package_error) result" where
  "scan_name lib f s =
     try_bind (map_err (\<lambda>_. PkInvalidPath (ze_name f)) (package_path_parse (ze_name f))) (\<lambda>_.
     if 256 < char_count (ze_name f) then Err (PkInvalidPath (ze_name f))
     else if ze_name f \<in> sc_names s then Err (PkDuplicatePath (ze_name f))
     else if pk_lower lib (ze_name f) \<in> sc_lower s then Err (PkCaseCollision (ze_name f))
     else if (case ze_mode f of Some mode \<Rightarrow> special_mode mode | None \<Rightarrow> False) then Err (PkSpecialEntry (ze_name f))
     else Ok ())"

definition scan_size :: "package_limits \<Rightarrow> zip_entry \<Rightarrow> u64 \<Rightarrow> (u64, package_error) result" where
  "scan_size limits f used =
     (if pl_single limits < ze_size f then Err (PkEntryTooLarge (ze_name f))
      else if pl_total limits < used + ze_size f then Err PkUncompressedTooLarge
      else if ze_compressed f \<noteq> 0 \<and> ucast (pl_ratio limits) < ze_size f div ze_compressed f
      then Err (PkZipBomb (ze_name f))
      else Ok (used + ze_size f))"

definition scan_entry :: "'v package_lib \<Rightarrow> package_limits \<Rightarrow> zip_entry option \<Rightarrow> scan \<Rightarrow> (scan, package_error) result" where
  "scan_entry lib limits e s =
     try_bind (ok_or PkCorruptZip e) (\<lambda>f.
     try_bind (scan_name lib f s) (\<lambda>_.
     try_bind (scan_size limits f (sc_total s)) (\<lambda>used.
     Ok \<lparr>sc_names = insert (ze_name f) (sc_names s), sc_lower = insert (pk_lower lib (ze_name f)) (sc_lower s),
         sc_entries = sc_entries s @ [(ze_name f, ze_size f, ze_is_dir f)], sc_total = used\<rparr>)))"

definition read_entry :: "'v package_lib \<Rightarrow> archive \<Rightarrow> string \<Rightarrow> (bytes, package_error) result" where
  "read_entry lib a name =
     try_bind (ok_or (PkMissingEntrypoint name) (pk_by_name lib a name)) (\<lambda>f.
     if ze_is_dir f then Err (PkMissingEntrypoint name)
     else ok_or PkCorruptZip (ze_data f))"

section \<open>The configuration schema\<close>

definition MAX_CONFIG_SCHEMA_BYTES :: nat where
  "MAX_CONFIG_SCHEMA_BYTES = 64 * 1024"

definition MAX_CONFIG_SCHEMA_DEPTH :: nat where
  "MAX_CONFIG_SCHEMA_DEPTH = 32"

text \<open>A reference that does not name a fragment of the document itself.\<close>

definition outside_reference :: "string \<times> json \<Rightarrow> bool" where
  "outside_reference e \<longleftrightarrow>
     fst e \<in> {''$ref'', ''$dynamicRef'', ''$recursiveRef''}
     \<and> (case snd e of JStr r \<Rightarrow> \<not> starts_with r ''#'' | _ \<Rightarrow> True)"

fun check_config_depth :: "json \<Rightarrow> nat \<Rightarrow> (unit, package_error) result" where
  "check_config_depth v depth =
     (if MAX_CONFIG_SCHEMA_DEPTH < depth then Err PkInvalidConfigSchema
      else case v of
        JArr items \<Rightarrow> try_all (\<lambda>i. check_config_depth i (depth + 1)) items
      | JObj m \<Rightarrow>
          try_all (\<lambda>e. if outside_reference e then Err PkInvalidConfigSchema
                       else check_config_depth (snd e) (depth + 1)) m
      | _ \<Rightarrow> Ok ())"

declare check_config_depth.simps [simp del]

definition validate_config_schema :: "'v package_lib \<Rightarrow> bytes \<Rightarrow> (unit, package_error) result" where
  "validate_config_schema lib bytes =
     (if MAX_CONFIG_SCHEMA_BYTES < length bytes then Err PkInvalidConfigSchema
      else try_bind (ok_or PkInvalidConfigSchema (il_parse_json (pk_install lib) bytes)) (\<lambda>v.
           if as_object v = None then Err PkInvalidConfigSchema else check_config_depth v 0))"

section \<open>The component\<close>

definition allowed_import :: "string \<Rightarrow> bool" where
  "allowed_import name \<longleftrightarrow> starts_with name ''floatile:widget'' \<or> starts_with name ''wasi:''"

definition validate_wasm :: "'v package_lib \<Rightarrow> bytes \<Rightarrow> (bytes, package_error) result" where
  "validate_wasm lib bytes =
     try_bind (ok_or PkInvalidWasm (pk_component lib bytes)) (\<lambda>ty.
     case find (\<lambda>i. \<not> allowed_import (fst i)) (cy_imports ty) of
       Some i \<Rightarrow> Err (PkDisallowedImport (fst i))
     | None \<Rightarrow>
         if list_ex (\<lambda>name. starts_with name ''floatile:widget/widget-contract'') (cy_exports ty)
         then Ok bytes else Err PkMissingWorldExport)"

definition floatile_interface_name :: "string \<Rightarrow> string option" where
  "floatile_interface_name import_name =
     (if starts_with import_name ''floatile:widget/''
      then (case split_on CHR ''@'' (drop (length ''floatile:widget/'') import_name) of
              [] \<Rightarrow> None
            | name # _ \<Rightarrow> Some name)
      else None)"

definition imported_capabilities :: "'v package_lib \<Rightarrow> bytes \<Rightarrow> (capability_id set, package_error) result" where
  "imported_capabilities lib bytes =
     try_bind (ok_or PkInvalidWasm (pk_component lib bytes)) (\<lambda>ty.
     Ok (set (concat (map (\<lambda>i.
           case (floatile_interface_name (fst i), snd i) of
             (Some interface, Some functions) \<Rightarrow>
               map cd_id (filter (\<lambda>d. cd_wit_interface d = interface
                                      \<and> list_ex (\<lambda>f. f \<in> set functions) (cd_wit_functions d)) CAPABILITY_REGISTRY)
           | _ \<Rightarrow> []) (cy_imports ty)))))"

section \<open>The package\<close>

text \<open>\<open>manifest.json\<close> has an error of its own when it is missing.\<close>

definition read_manifest :: "'v package_lib \<Rightarrow> archive \<Rightarrow> (manifest, package_error) result" where
  "read_manifest lib a =
     try_bind (case read_entry lib a ''manifest.json'' of
                 Err (PkMissingEntrypoint _) \<Rightarrow> Err PkMissingManifest
               | other \<Rightarrow> other) (\<lambda>bytes.
     try_bind (ok_or PkInvalidJson (il_parse_manifest (pk_install lib) bytes)) (\<lambda>manifest.
     try_bind (map_err PkInvalidManifest (validate_manifest (il_semver (pk_install lib)) manifest)) (\<lambda>_.
     Ok manifest)))"

definition collect_files ::
  "'v package_lib \<Rightarrow> archive \<Rightarrow> (string \<times> u64 \<times> bool) list \<Rightarrow> (file_set, package_error) result"
where
  "collect_files lib a entries =
     try_fold (\<lambda>(name, size, is_dir) files.
         if is_dir then Ok files
         else try_bind (read_entry lib a name) (\<lambda>bytes. Ok (bt_insert name bytes files))) entries []"

definition validate_package :: "'v package_lib \<Rightarrow> package_limits \<Rightarrow> bytes \<Rightarrow> (validated_package, package_error) result" where
  "validate_package lib limits bytes =
     (if unat (pl_archive_bytes limits) < length bytes
      then Err (PkArchiveTooLarge (length bytes) (pl_archive_bytes limits))
      else try_bind (ok_or PkCorruptZip (pk_open lib bytes)) (\<lambda>a.
        if unat (pl_entries limits) < length a then Err (PkTooManyEntries (length a) (pl_entries limits))
        else
          try_bind (try_fold (scan_entry lib limits) a empty_scan) (\<lambda>s.
          try_bind (read_manifest lib a) (\<lambda>manifest.
          try_bind (read_entry lib a (ep_ui (mf_entrypoints manifest))) (\<lambda>ui_bytes.
          try_bind (read_entry lib a (ep_logic (mf_entrypoints manifest))) (\<lambda>wasm_bytes.
          try_bind (case mf_config_schema manifest of
                      None \<Rightarrow> Ok ()
                    | Some schema \<Rightarrow> try_bind (read_entry lib a schema) (validate_config_schema lib)) (\<lambda>_.
          try_bind (ok_or PkInvalidJson (pk_parse_ui lib ui_bytes)) (\<lambda>document.
          try_bind (map_err PkInvalidUiIr (validate_document (pk_ui_size lib) document)) (\<lambda>_.
          try_bind (validate_wasm lib wasm_bytes) (\<lambda>wasm.
          try_bind (collect_files lib a (sc_entries s)) (\<lambda>files.
          Ok \<lparr>vp_manifest = manifest, vp_document = document, vp_wasm = wasm,
              vp_entry_names = map fst (sc_entries s), vp_files = files\<rparr>)))))))))))"

section \<open>What an accepted package satisfies\<close>

text \<open>One scanned entry.\<close>

definition scanned :: "'v package_lib \<Rightarrow> package_limits \<Rightarrow> zip_entry \<Rightarrow> bool" where
  "scanned lib limits f \<longleftrightarrow>
     package_path_parse (ze_name f) = Ok (ze_name f) \<and> char_count (ze_name f) \<le> 256
     \<and> (\<forall>mode. ze_mode f = Some mode \<longrightarrow> \<not> special_mode mode)
     \<and> ze_size f \<le> pl_single limits
     \<and> (ze_compressed f \<noteq> 0 \<longrightarrow> ze_size f div ze_compressed f \<le> ucast (pl_ratio limits))"

lemma scan_entry_Ok:
  "scan_entry lib limits e s = Ok t \<longleftrightarrow>
     (\<exists>f. e = Some f \<and> scanned lib limits f \<and> ze_name f \<notin> sc_names s \<and> pk_lower lib (ze_name f) \<notin> sc_lower s
        \<and> sc_total s + ze_size f \<le> pl_total limits
        \<and> t = \<lparr>sc_names = insert (ze_name f) (sc_names s), sc_lower = insert (pk_lower lib (ze_name f)) (sc_lower s),
               sc_entries = sc_entries s @ [(ze_name f, ze_size f, ze_is_dir f)], sc_total = sc_total s + ze_size f\<rparr>)"
  by (auto simp: scan_entry_def scan_name_def scan_size_def scanned_def package_path_parse_def not_less
      split: if_splits option.splits)

text \<open>The whole archive.\<close>

lemma scan_archive:
  assumes "try_fold (scan_entry lib limits) a s = Ok t"
  shows "\<exists>fs. a = map Some fs \<and> (\<forall>f \<in> set fs. scanned lib limits f)
    \<and> distinct (map (\<lambda>f. pk_lower lib (ze_name f)) fs) \<and> (\<lambda>f. pk_lower lib (ze_name f)) ` set fs \<inter> sc_lower s = {}
    \<and> sc_entries t = sc_entries s @ map (\<lambda>f. (ze_name f, ze_size f, ze_is_dir f)) fs"
  using assms
proof (induction a arbitrary: s)
  case (Cons e a)
  from Cons.prems obtain s1 where s1: "scan_entry lib limits e s = Ok s1" "try_fold (scan_entry lib limits) a s1 = Ok t"
    by auto
  from s1(1) obtain f where f: "e = Some f" "scanned lib limits f" "pk_lower lib (ze_name f) \<notin> sc_lower s"
    "sc_lower s1 = insert (pk_lower lib (ze_name f)) (sc_lower s)"
    "sc_entries s1 = sc_entries s @ [(ze_name f, ze_size f, ze_is_dir f)]"
    by (auto simp: scan_entry_Ok)
  from Cons.IH [OF s1(2)] obtain fs where fs: "a = map Some fs" "\<forall>f \<in> set fs. scanned lib limits f"
    "distinct (map (\<lambda>f. pk_lower lib (ze_name f)) fs)" "(\<lambda>f. pk_lower lib (ze_name f)) ` set fs \<inter> sc_lower s1 = {}"
    "sc_entries t = sc_entries s1 @ map (\<lambda>f. (ze_name f, ze_size f, ze_is_dir f)) fs" by blast
  with f show ?case by (intro exI [of _ "f # fs"]) auto
qed simp

text \<open>As long as the limits leave room for one more entry, the sum does not wrap.\<close>

lemma scan_total:
  assumes "try_fold (scan_entry lib limits) (map Some fs) s = Ok t" and "sc_total s \<le> pl_total limits"
    and "unat (pl_total limits) + unat (pl_single limits) < 2 ^ 64"
  shows "unat (sc_total t) = unat (sc_total s) + sum_list (map (unat \<circ> ze_size) fs) \<and> sc_total t \<le> pl_total limits"
  using assms(1,2)
proof (induction fs arbitrary: s)
  case (Cons f fs)
  from Cons.prems obtain s1 where s1: "scan_entry lib limits (Some f) s = Ok s1"
    "try_fold (scan_entry lib limits) (map Some fs) s1 = Ok t" by auto
  then have total: "sc_total s1 = sc_total s + ze_size f" "sc_total s1 \<le> pl_total limits" "ze_size f \<le> pl_single limits"
    by (auto simp: scan_entry_Ok scanned_def)
  have "unat (sc_total s + ze_size f) = unat (sc_total s) + unat (ze_size f)"
    by (rule unat_plus_simple [THEN iffD1, OF no_plus_overflow_unat_size [THEN iffD2]])
      (use Cons.prems(2) total(3) assms(3) in \<open>auto simp: word_le_nat_alt word_size\<close>)
  with Cons.IH [OF s1(2)] total show ?case by simp
qed simp

lemma read_entry_Ok:
  "read_entry lib a n = Ok b \<longleftrightarrow> (\<exists>f. pk_by_name lib a n = Some f \<and> \<not> ze_is_dir f \<and> ze_data f = Some b)"
  by (auto simp: read_entry_def split: if_splits)

lemma collect_files_lookup:
  assumes "collect_files lib a entries = Ok files"
  shows "bt_lookup n files = Some b \<longleftrightarrow> (\<exists>size. (n, size, False) \<in> set entries) \<and> read_entry lib a n = Ok b"
proof -
  let ?step = "\<lambda>(name, size, is_dir) files.
         if is_dir then Ok files
         else try_bind (read_entry lib a name) (\<lambda>bytes. Ok (bt_insert name bytes files))"
  have "bt_lookup n t = Some b \<longleftrightarrow>
      (if \<exists>size. (n, size, False) \<in> set entries then read_entry lib a n = Ok b else bt_lookup n s = Some b)"
    if "try_fold ?step entries s = Ok t" for s t
    using that
  proof (induction entries arbitrary: s)
    case (Cons e entries)
    obtain name size is_dir where e: "e = (name, size, is_dir)" by (cases e)
    show ?case
    proof (cases is_dir)
      case True
      with Cons e show ?thesis by auto
    next
      case False
      with Cons.prems e obtain bytes where bytes: "read_entry lib a name = Ok bytes"
        "try_fold ?step entries (bt_insert name bytes s) = Ok t" by auto
      from Cons.IH [OF bytes(2)] bytes(1) False e show ?thesis by (auto simp: bt_lookup_insert)
    qed
  qed simp
  from this [of "[]" files] assms show ?thesis by (auto simp: collect_files_def)
qed

lemma collect_files_wf: "collect_files lib a entries = Ok files \<Longrightarrow> bt_wf files"
  unfolding collect_files_def
  by (erule try_fold_invariant [where P = bt_wf]) (auto simp: bt_wf_insert split: prod.splits if_splits)

text \<open>The values inside a JSON value, with their depth.\<close>

inductive subvalue :: "json \<Rightarrow> nat \<Rightarrow> json \<Rightarrow> bool" where
  subvalue_self: "subvalue v 0 v"
| subvalue_item: "x \<in> set xs \<Longrightarrow> subvalue x d w \<Longrightarrow> subvalue (JArr xs) (Suc d) w"
| subvalue_member: "(k, x) \<in> set m \<Longrightarrow> subvalue x d w \<Longrightarrow> subvalue (JObj m) (Suc d) w"

lemma check_config_depth_Ok:
  "check_config_depth v n = Ok () \<longleftrightarrow>
     n \<le> MAX_CONFIG_SCHEMA_DEPTH
     \<and> (case v of
           JArr xs \<Rightarrow> \<forall>x \<in> set xs. check_config_depth x (Suc n) = Ok ()
         | JObj m \<Rightarrow> \<forall>e \<in> set m. \<not> outside_reference e \<and> check_config_depth (snd e) (Suc n) = Ok ()
         | _ \<Rightarrow> True)"
  by (subst check_config_depth.simps) (cases v; auto)

lemma check_config_depth_sound:
  "subvalue v d w \<Longrightarrow> check_config_depth v n = Ok () \<Longrightarrow>
     n + d \<le> MAX_CONFIG_SCHEMA_DEPTH \<and> (\<forall>m. w = JObj m \<longrightarrow> (\<forall>e \<in> set m. \<not> outside_reference e))"
proof (induction arbitrary: n rule: subvalue.induct)
  case (subvalue_self v)
  then show ?case unfolding check_config_depth_Ok [of v] by auto
next
  case (subvalue_item x xs d w)
  then have "check_config_depth x (Suc n) = Ok ()" unfolding check_config_depth_Ok [of "JArr xs"] by simp
  from subvalue_item.IH [OF this] show ?case by simp
next
  case (subvalue_member k x m d w)
  then have "check_config_depth x (Suc n) = Ok ()" unfolding check_config_depth_Ok [of "JObj m"] by auto
  from subvalue_member.IH [OF this] show ?case by simp
qed

lemma validate_package_OkE:
  assumes "validate_package lib limits bytes = Ok p"
  obtains a s ui_bytes wasm_bytes where
    "pk_open lib bytes = Some a" "length a \<le> unat (pl_entries limits)"
    "try_fold (scan_entry lib limits) a empty_scan = Ok s" "read_manifest lib a = Ok (vp_manifest p)"
    "read_entry lib a (ep_ui (mf_entrypoints (vp_manifest p))) = Ok ui_bytes"
    "read_entry lib a (ep_logic (mf_entrypoints (vp_manifest p))) = Ok wasm_bytes"
    "\<And>schema. mf_config_schema (vp_manifest p) = Some schema \<Longrightarrow>
       \<exists>b. read_entry lib a schema = Ok b \<and> validate_config_schema lib b = Ok ()"
    "pk_parse_ui lib ui_bytes = Some (vp_document p)" "validate_document (pk_ui_size lib) (vp_document p) = Ok ()"
    "validate_wasm lib wasm_bytes = Ok (vp_wasm p)" "collect_files lib a (sc_entries s) = Ok (vp_files p)"
proof -
  from assms obtain a where a: "pk_open lib bytes = Some a" "length a \<le> unat (pl_entries limits)"
    by (auto simp: validate_package_def split: if_splits)
  with assms obtain s ui_bytes wasm_bytes where
    "try_fold (scan_entry lib limits) a empty_scan = Ok s" "read_manifest lib a = Ok (vp_manifest p)"
    "read_entry lib a (ep_ui (mf_entrypoints (vp_manifest p))) = Ok ui_bytes"
    "read_entry lib a (ep_logic (mf_entrypoints (vp_manifest p))) = Ok wasm_bytes"
    "(case mf_config_schema (vp_manifest p) of None \<Rightarrow> Ok ()
      | Some schema \<Rightarrow> try_bind (read_entry lib a schema) (validate_config_schema lib)) = Ok ()"
    "pk_parse_ui lib ui_bytes = Some (vp_document p)" "validate_document (pk_ui_size lib) (vp_document p) = Ok ()"
    "validate_wasm lib wasm_bytes = Ok (vp_wasm p)" "collect_files lib a (sc_entries s) = Ok (vp_files p)"
    by (auto simp: validate_package_def split: if_splits)
  then show thesis by (intro that [OF a]) auto
qed

lemma read_manifest_Ok:
  "read_manifest lib a = Ok m \<Longrightarrow>
     (\<exists>b. read_entry lib a ''manifest.json'' = Ok b \<and> il_parse_manifest (pk_install lib) b = Some m)
     \<and> validate_manifest (il_semver (pk_install lib)) m = Ok ()"
  by (cases "read_entry lib a ''manifest.json''") (auto simp: read_manifest_def split: package_error.splits)

lemma validate_wasm_Ok:
  "validate_wasm lib b = Ok w \<Longrightarrow>
     w = b \<and> (\<exists>ty. pk_component lib w = Some ty \<and> (\<forall>i \<in> set (cy_imports ty). allowed_import (fst i)))"
proof -
  assume ok: "validate_wasm lib b = Ok w"
  then obtain ty where ty: "pk_component lib b = Some ty" by (auto simp: validate_wasm_def)
  show ?thesis
  proof (cases "find (\<lambda>i. \<not> allowed_import (fst i)) (cy_imports ty)")
    case None
    with ok ty have "w = b" by (simp add: validate_wasm_def split: if_splits)
    with None ty show ?thesis by (auto simp: find_None_iff)
  qed (use ok ty in \<open>simp add: validate_wasm_def\<close>)
qed

text \<open>Under the documented behaviour of \<open>by_name\<close>, what an entry reads as is among the collected files.\<close>

lemma collected_entry:
  assumes by_name: "\<And>a n f. pk_by_name lib a n = Some f \<Longrightarrow> Some f \<in> set a \<and> ze_name f = n"
    and scan: "try_fold (scan_entry lib limits) a empty_scan = Ok s"
    and files: "collect_files lib a (sc_entries s) = Ok files" and read: "read_entry lib a n = Ok b"
  shows "bt_lookup n files = Some b"
proof -
  from read obtain f where f: "pk_by_name lib a n = Some f" "\<not> ze_is_dir f" by (auto simp: read_entry_Ok)
  from by_name [OF f(1)] have "Some f \<in> set a" "ze_name f = n" by simp_all
  moreover obtain fs where "a = map Some fs" "sc_entries s = map (\<lambda>f. (ze_name f, ze_size f, ze_is_dir f)) fs"
    using scan_archive [OF scan] by (auto simp: empty_scan_def)
  ultimately have "(n, ze_size f, False) \<in> set (sc_entries s)" using f(2) by force
  with collect_files_lookup [OF files] read show ?thesis by blast
qed

lemma collected_names:
  assumes scan: "try_fold (scan_entry lib limits) a empty_scan = Ok s"
    and files: "collect_files lib a (sc_entries s) = Ok files"
  shows "\<forall>(n, b) \<in> set files. \<exists>f. Some f \<in> set a \<and> ze_name f = n \<and> scanned lib limits f"
    and "distinct (map (\<lambda>e. pk_lower lib (fst e)) files)"
proof -
  obtain fs where fs: "a = map Some fs" "\<forall>f \<in> set fs. scanned lib limits f"
    "distinct (map (\<lambda>f. pk_lower lib (ze_name f)) fs)" "sc_entries s = map (\<lambda>f. (ze_name f, ze_size f, ze_is_dir f)) fs"
    using scan_archive [OF scan] by (auto simp: empty_scan_def)
  have name: "\<exists>f \<in> set fs. ze_name f = n" if "(n, b) \<in> set files" for n b
  proof -
    have "bt_lookup n files = Some b" using that collect_files_wf [OF files] by (rule bt_lookup_in [rotated])
    with collect_files_lookup [OF files] fs(4) show ?thesis by auto
  qed
  with fs show "\<forall>(n, b) \<in> set files. \<exists>f. Some f \<in> set a \<and> ze_name f = n \<and> scanned lib limits f" by force
  have "inj_on (\<lambda>n. pk_lower lib n) (ze_name ` set fs)"
    using fs(3) by (auto simp: distinct_map inj_on_def)
  then have "inj_on (pk_lower lib) (set (map fst files))" by (rule inj_on_subset) (use name in force)
  moreover have "distinct (map fst files)" using collect_files_wf [OF files] by (rule bt_wf_distinct)
  ultimately have "distinct (map (pk_lower lib) (map fst files))"
    by (simp only: distinct_map [of "pk_lower lib"] simp_thms)
  then show "distinct (map (\<lambda>e. pk_lower lib (fst e)) files)" by (simp add: comp_def)
qed

text \<open>C36: An accepted package is safe to write to disk and to load: every file it holds comes from an entry
  that is no link or device, its name stays below any directory it is joined to and does not begin with
  a dot, and no two names are equal up to letter case; the manifest is the validated one of its
  manifest.json, the entry points are among the files, the document passed its validation, and a configuration schema
  nests at most 32 deep and refers to nothing outside itself.  Every import of the component has a name that begins with
  \<open>floatile:widget\<close> or with \<open>wasi:\<close>; this is a test of the prefix only, so that the name of another package with such a
  beginning, as \<open>floatile:widget-evil\<close>, passes too.  Relied on: the archive reader finds an entry by name among the
  entries it lists.\<close>

theorem accepted_package_is_safe:
  assumes by_name: "\<And>a n f. pk_by_name lib a n = Some f \<Longrightarrow> Some f \<in> set a \<and> ze_name f = n"
    and ok: "validate_package lib limits bytes = Ok p"
  defines "m \<equiv> vp_manifest p"
  shows "(\<forall>(n, b) \<in> set (vp_files p). (\<forall>dir. path_join dir n = dir @ split_on CHR ''/'' n) \<and> \<not> starts_with n ''.''
        \<and> (\<exists>a f. pk_open lib bytes = Some a \<and> Some f \<in> set a \<and> ze_name f = n
            \<and> (\<forall>mode. ze_mode f = Some mode \<longrightarrow> \<not> special_mode mode)))
    \<and> distinct (map (\<lambda>e. pk_lower lib (fst e)) (vp_files p))
    \<and> Option.bind (bt_lookup ''manifest.json'' (vp_files p)) (il_parse_manifest (pk_install lib)) = Some m
    \<and> validate_manifest (il_semver (pk_install lib)) m = Ok ()
    \<and> Option.bind (bt_lookup (ep_ui (mf_entrypoints m)) (vp_files p)) (pk_parse_ui lib) = Some (vp_document p)
    \<and> validate_document (pk_ui_size lib) (vp_document p) = Ok ()
    \<and> bt_lookup (ep_logic (mf_entrypoints m)) (vp_files p) = Some (vp_wasm p)
    \<and> (\<exists>ty. pk_component lib (vp_wasm p) = Some ty \<and> (\<forall>i \<in> set (cy_imports ty). allowed_import (fst i)))
    \<and> (\<forall>schema. mf_config_schema m = Some schema \<longrightarrow>
        (\<exists>b v. bt_lookup schema (vp_files p) = Some b \<and> il_parse_json (pk_install lib) b = Some v
          \<and> (\<forall>d w. subvalue v d w \<longrightarrow> d \<le> 32 \<and> (\<forall>obj. w = JObj obj \<longrightarrow> (\<forall>e \<in> set obj. \<not> outside_reference e)))))"
proof -
  from ok obtain a s ui_bytes wasm_bytes where a: "pk_open lib bytes = Some a"
    and scan: "try_fold (scan_entry lib limits) a empty_scan = Ok s" and manifest: "read_manifest lib a = Ok m"
    and ui: "read_entry lib a (ep_ui (mf_entrypoints m)) = Ok ui_bytes" "pk_parse_ui lib ui_bytes = Some (vp_document p)"
    and wasm: "read_entry lib a (ep_logic (mf_entrypoints m)) = Ok wasm_bytes" "validate_wasm lib wasm_bytes = Ok (vp_wasm p)"
    and config: "\<And>schema. mf_config_schema m = Some schema \<Longrightarrow>
       \<exists>b. read_entry lib a schema = Ok b \<and> validate_config_schema lib b = Ok ()"
    and doc: "validate_document (pk_ui_size lib) (vp_document p) = Ok ()"
    and files: "collect_files lib a (sc_entries s) = Ok (vp_files p)"
    unfolding m_def by (rule validate_package_OkE) blast
  have entry: "bt_lookup n (vp_files p) = Some b" if "read_entry lib a n = Ok b" for n b
    by (rule collected_entry [OF _ scan files that]) (rule by_name)
  have names: "(\<forall>dir. path_join dir n = dir @ split_on CHR ''/'' n) \<and> \<not> starts_with n ''.''
        \<and> (\<exists>a f. pk_open lib bytes = Some a \<and> Some f \<in> set a \<and> ze_name f = n
            \<and> (\<forall>mode. ze_mode f = Some mode \<longrightarrow> \<not> special_mode mode))" if "(n, b) \<in> set (vp_files p)" for n b
  proof -
    from collected_names(1) [OF scan files] that obtain f where f: "Some f \<in> set a" "ze_name f = n" "scanned lib limits f"
      by blast
    then have "validate_package_path n = Ok ()" by (auto simp: scanned_def package_path_parse_def)
    with f a show ?thesis
      by (auto simp: scanned_def path_join_def validate_package_path_Ok_iff resolve_plain_segments starts_with_iff)
  qed
  have schema: "\<exists>b v. bt_lookup schema (vp_files p) = Some b \<and> il_parse_json (pk_install lib) b = Some v
          \<and> (\<forall>d w. subvalue v d w \<longrightarrow> d \<le> 32 \<and> (\<forall>obj. w = JObj obj \<longrightarrow> (\<forall>e \<in> set obj. \<not> outside_reference e)))"
    if sch: "mf_config_schema m = Some schema" for schema
  proof -
    from config [OF sch] obtain b where b: "read_entry lib a schema = Ok b" "validate_config_schema lib b = Ok ()" by blast
    from b(2) obtain v where v: "il_parse_json (pk_install lib) b = Some v" "check_config_depth v 0 = Ok ()"
      by (auto simp: validate_config_schema_def split: if_splits)
    from check_config_depth_sound [OF _ v(2)] entry [OF b(1)] v(1) show ?thesis
      by (auto simp: MAX_CONFIG_SCHEMA_DEPTH_def)
  qed
  from names schema collected_names(2) [OF scan files] read_manifest_Ok [OF manifest] validate_wasm_Ok [OF wasm(2)]
    entry [OF ui(1)] entry [OF wasm(1)] ui(2) doc show ?thesis
    by (auto dest: entry)
qed

text \<open>The budgets of the default limits are kept without overflow: an accepted archive has at most 256
  entries whose declared sizes are at most 16 MiB each and 64 MiB together, and an entry with compressed
  data declares less than 201 times their length.\<close>

theorem package_within_budget:
  assumes "validate_package lib default_package_limits bytes = Ok p"
  shows "\<exists>fs. pk_open lib bytes = Some (map Some fs) \<and> length bytes \<le> 8388608 \<and> length fs \<le> 256
    \<and> sum_list (map (unat \<circ> ze_size) fs) \<le> 67108864
    \<and> (\<forall>f \<in> set fs. unat (ze_size f) \<le> 16777216
        \<and> (ze_compressed f \<noteq> 0 \<longrightarrow> unat (ze_size f) < 201 * unat (ze_compressed f)))"
proof -
  from assms obtain a s where a: "pk_open lib bytes = Some a" "length a \<le> unat (pl_entries default_package_limits)"
    and scan: "try_fold (scan_entry lib default_package_limits) a empty_scan = Ok s"
    by (rule validate_package_OkE)
  from scan_archive [OF scan] obtain fs where fs: "a = map Some fs" "\<forall>f \<in> set fs. scanned lib default_package_limits f"
    by blast
  have "length bytes \<le> 8388608" using assms by (simp add: validate_package_def default_package_limits_def split: if_splits)
  moreover have "sum_list (map (unat \<circ> ze_size) fs) \<le> 67108864"
    using scan_total [OF scan [unfolded fs(1)]] by (simp add: empty_scan_def default_package_limits_def word_le_nat_alt)
  moreover have "unat (ze_size f) \<le> 16777216
        \<and> (ze_compressed f \<noteq> 0 \<longrightarrow> unat (ze_size f) < 201 * unat (ze_compressed f))" if "f \<in> set fs" for f
  proof -
    from fs(2) that have f: "ze_size f \<le> 0x1000000" "ze_compressed f \<noteq> 0 \<longrightarrow> ze_size f div ze_compressed f \<le> 200"
      by (auto simp: scanned_def default_package_limits_def)
    have "unat (ze_size f) < 201 * unat (ze_compressed f)" if "ze_compressed f \<noteq> 0"
    proof -
      have "unat (ze_size f) div unat (ze_compressed f) < 201"
        using f(2) that by (simp add: word_le_nat_alt unat_div)
      moreover have "0 < unat (ze_compressed f)" using that by (simp add: unat_gt_0)
      ultimately show ?thesis by (simp add: div_less_iff_less_mult)
    qed
    with f(1) show ?thesis by (simp add: word_le_nat_alt)
  qed
  ultimately show ?thesis using a fs(1) by (auto simp: default_package_limits_def)
qed

section \<open>A concrete package\<close>

definition sample_archive :: "(string \<times> bytes) list \<Rightarrow> archive" where
  "sample_archive contents =
     map (\<lambda>(n, d). Some \<lparr>ze_name = n, ze_mode = None, ze_size = of_nat (length d), ze_compressed = of_nat (length d),
                         ze_is_dir = False, ze_data = Some d\<rparr>) contents"

definition sample_by_name :: "archive \<Rightarrow> string \<Rightarrow> zip_entry option" where
  "sample_by_name a n = Option.bind (find (\<lambda>e. map_option ze_name e = Some n) a) (\<lambda>e. e)"

lemma sample_by_name: "sample_by_name a n = Some f \<Longrightarrow> Some f \<in> set a \<and> ze_name f = n"
  by (auto simp: sample_by_name_def bind_eq_Some_conv find_Some_iff dest!: nth_mem)

definition sample_package_lib :: "'v install_lib \<Rightarrow> (string \<times> bytes) list \<Rightarrow> 'v package_lib" where
  "sample_package_lib lib contents =
     \<lparr>pk_install = lib, pk_open = (\<lambda>_. Some (sample_archive contents)), pk_by_name = sample_by_name,
      pk_lower = (\<lambda>s. s), pk_parse_ui = (\<lambda>_. Some (sample_document sample_root)), pk_ui_size = (\<lambda>_. 100),
      pk_component = (\<lambda>_. Some \<lparr>cy_imports = [(''wasi:io'', None)], cy_exports = [''floatile:widget/widget-contract@1.0.0'']\<rparr>)\<rparr>"

definition sample_contents :: "(string \<times> bytes) list" where
  "sample_contents = [(''manifest.json'', ''{}''), (''ui/main.ftui'', ''u''), (''logic/main.wasm'', ''w''), (''signature.json'', ''s'')]"

definition sample_package :: validated_package where
  "sample_package =
     \<lparr>vp_manifest = example_manifest ''1.0.0'' [] [], vp_document = sample_document sample_root, vp_wasm = ''w'',
      vp_entry_names = map fst sample_contents,
      vp_files = [(''logic/main.wasm'', ''w''), (''manifest.json'', ''{}''), (''signature.json'', ''s''), (''ui/main.ftui'', ''u'')]\<rparr>"

lemma sample_scan:
  "try_fold (scan_entry (sample_package_lib lib sample_contents) default_package_limits) (sample_archive sample_contents) empty_scan
     = Ok \<lparr>sc_names = set (map fst sample_contents), sc_lower = set (map fst sample_contents),
          sc_entries = map (\<lambda>(n, d). (n, of_nat (length d), False)) sample_contents, sc_total = 5\<rparr>"
proof -
  have "validate_package_path n = Ok ()" if "n \<in> set (map fst sample_contents)" for n
    using that by (auto simp: sample_contents_def validate_package_path_def validate_path_segment_def starts_with_def)
  then have paths: "package_path_parse n = Ok n" if "n \<in> set (map fst sample_contents)" for n
    using that by (simp add: package_path_parse_def)
  have short: "\<not> 256 < char_count n" if "n \<in> set (map fst sample_contents)" for n
    using that char_count_le_length [of n] by (auto simp: sample_contents_def)
  show ?thesis
    using paths short
    by (simp add: sample_archive_def sample_contents_def scan_entry_def scan_name_def scan_size_def sample_package_lib_def
        empty_scan_def default_package_limits_def insert_commute)
qed

lemma sample_entries:
  "read_entry (sample_package_lib lib sample_contents) (sample_archive sample_contents) n =
     (case map_of sample_contents n of Some b \<Rightarrow> Ok b | None \<Rightarrow> Err (PkMissingEntrypoint n))"
  by (simp add: read_entry_def sample_package_lib_def sample_by_name_def sample_archive_def sample_contents_def)

lemma sample_package_valid:
  assumes "il_parse_manifest lib = (\<lambda>_. Some (example_manifest ''1.0.0'' [] []))" and "il_semver lib = example_semver"
    and "length bytes \<le> 8388608"
  shows "validate_package (sample_package_lib lib sample_contents) default_package_limits bytes = Ok sample_package"
proof -
  let ?lib = "sample_package_lib lib sample_contents" and ?a = "sample_archive sample_contents"
  let ?m = "example_manifest ''1.0.0'' [] []"
  have "validate_manifest (il_semver lib) ?m = Ok ()"
    unfolding assms(2)
    by (intro example_valid) (simp_all add: example_semver_def validate_http_templates_def network_permission_def example_manifest_def)
  then have manifest: "read_manifest ?lib ?a = Ok ?m"
    by (simp add: read_manifest_def sample_entries) (simp add: sample_contents_def sample_package_lib_def assms)
  have wasm: "validate_wasm ?lib ''w'' = Ok ''w''"
    by (simp add: validate_wasm_def sample_package_lib_def allowed_import_def starts_with_def)
  have files: "collect_files ?lib ?a (map (\<lambda>(n, d). (n, of_nat (length d), False)) sample_contents) = Ok (vp_files sample_package)"
    unfolding collect_files_def by (simp add: sample_contents_def sample_entries [unfolded sample_contents_def] sample_package_def)
  have "pk_open ?lib bytes = Some ?a" "length ?a = 4" "pk_parse_ui ?lib = (\<lambda>_. Some (sample_document sample_root))"
    "pk_ui_size ?lib = (\<lambda>_. 100)" "mf_config_schema ?m = None" "ep_ui (mf_entrypoints ?m) = ''ui/main.ftui''"
    "ep_logic (mf_entrypoints ?m) = ''logic/main.wasm''" "map_of sample_contents ''ui/main.ftui'' = Some ''u''"
    "map_of sample_contents ''logic/main.wasm'' = Some ''w''"
    by (simp_all add: sample_package_lib_def sample_archive_def sample_contents_def example_manifest_def)
  with assms(3) show ?thesis
    by (simp add: validate_package_def manifest sample_scan sample_entries wasm files sample_document_valid)
      (simp add: default_package_limits_def sample_package_def sample_contents_def)
qed

lemma accepted_package_is_safe_witness:
  "distinct (map fst (vp_files sample_package))"
  using accepted_package_is_safe
    [OF _ sample_package_valid [of sample_install_lib "[]"], simplified sample_package_lib_def package_lib.simps]
    sample_by_name
  by (simp add: sample_install_lib_def)

lemma package_within_budget_witness:
  "\<exists>fs. Some (sample_archive sample_contents) = Some (map Some fs) \<and> sum_list (map (unat \<circ> ze_size) fs) \<le> 67108864"
  using package_within_budget [OF sample_package_valid [of sample_install_lib "[]"]]
  by (auto simp: sample_install_lib_def sample_package_lib_def)

end
