(* ===== verification/Commands.thy ===== *)
theory Commands
  imports Floatile_Prelude
begin

text \<open>
  Commands that change a durable world step by step.  A command runs on the history of the worlds it
  has produced, newest first: every operation that succeeds adds one, and a crash leaves any world of
  the history behind.  The specification of a command gives, besides what holds when it returns,
  what holds of every world it passes through.
\<close>

section \<open>Commands\<close>

type_synonym ('w, 'a, 'e) io = "'w list \<Rightarrow> ('a, 'e) result \<times> 'w list"

definition io_of :: "('a, 'e) result \<Rightarrow> ('w, 'a, 'e) io" where
  "io_of r = (\<lambda>h. (r, h))"

definition io_bind :: "('w, 'a, 'e) io \<Rightarrow> ('a \<Rightarrow> ('w, 'b, 'e) io) \<Rightarrow> ('w, 'b, 'e) io" where
  "io_bind m f = (\<lambda>h. case m h of (Ok a, h') \<Rightarrow> f a h' | (Err e, h') \<Rightarrow> (Err e, h'))"

definition io_catch :: "('w, 'a, 'e) io \<Rightarrow> ('e \<Rightarrow> ('w, 'a, 'e) io) \<Rightarrow> ('w, 'a, 'e) io" where
  "io_catch m f = (\<lambda>h. case m h of (Ok a, h') \<Rightarrow> (Ok a, h') | (Err e, h') \<Rightarrow> f e h')"

text \<open>\<open>let _ = ...\<close>\<close>

definition io_ignore :: "('w, 'a, 'd) io \<Rightarrow> ('w, unit, 'e) io" where
  "io_ignore m = (\<lambda>h. (Ok (), snd (m h)))"

definition io_world :: "('w, 'w, 'e) io" where
  "io_world = (\<lambda>h. (Ok (hd h), h))"

fun io_each :: "('a \<Rightarrow> ('w, unit, 'e) io) \<Rightarrow> 'a list \<Rightarrow> ('w, unit, 'e) io" where
  "io_each f [] = io_of (Ok ())"
| "io_each f (x # xs) = io_bind (f x) (\<lambda>_. io_each f xs)"

fun io_fold :: "('a \<Rightarrow> 's \<Rightarrow> ('w, 's, 'e) io) \<Rightarrow> 'a list \<Rightarrow> 's \<Rightarrow> ('w, 's, 'e) io" where
  "io_fold f [] s = io_of (Ok s)"
| "io_fold f (x # xs) s = io_bind (f x s) (io_fold f xs)"

section \<open>Specifications of commands\<close>

text \<open>
  \<open>io_spec P m Q E C\<close>: from a world with \<open>P\<close> the command \<open>m\<close> ends with \<open>Q\<close> or with an error
  and \<open>E\<close>, and every world it passes through satisfies \<open>C\<close>.
\<close>

definition io_spec ::
  "('w \<Rightarrow> bool) \<Rightarrow> ('w, 'a, 'e) io \<Rightarrow> ('a \<Rightarrow> 'w \<Rightarrow> bool) \<Rightarrow> ('w \<Rightarrow> bool) \<Rightarrow> ('w \<Rightarrow> bool) \<Rightarrow> bool"
where
  "io_spec P m Q E C \<longleftrightarrow>
     (\<forall>w h. P w \<longrightarrow>
        (\<exists>r new. m (w # h) = (r, new @ w # h) \<and> (\<forall>u \<in> set new. C u)
           \<and> (case r of Ok a \<Rightarrow> Q a (hd (new @ w # h)) | Err e \<Rightarrow> E (hd (new @ w # h)))))"

named_theorems io_rules

lemma io_spec_of [io_rules]:
  assumes "\<And>w a. P w \<Longrightarrow> r = Ok a \<Longrightarrow> Q a w" and "\<And>w e. P w \<Longrightarrow> r = Err e \<Longrightarrow> E w"
  shows "io_spec P (io_of r) Q E C"
  using assms by (cases r) (auto simp: io_spec_def io_of_def)

lemma io_spec_world [io_rules]: "(\<And>w. P w \<Longrightarrow> Q w w) \<Longrightarrow> io_spec P io_world Q E C"
  by (auto simp: io_spec_def io_world_def)

lemma io_spec_bind [io_rules]:
  assumes m: "io_spec P m R E C" and f: "\<And>a. io_spec (R a) (f a) Q E C"
  shows "io_spec P (io_bind m f) Q E C"
  unfolding io_spec_def
proof (intro allI impI)
  fix w h assume "P w"
  with m obtain r new where m_run: "m (w # h) = (r, new @ w # h)" "\<forall>u \<in> set new. C u"
    and post: "case r of Ok a \<Rightarrow> R a (hd (new @ w # h)) | Err e \<Rightarrow> E (hd (new @ w # h))"
    unfolding io_spec_def by blast
  show "\<exists>r new. io_bind m f (w # h) = (r, new @ w # h) \<and> (\<forall>u \<in> set new. C u)
           \<and> (case r of Ok a \<Rightarrow> Q a (hd (new @ w # h)) | Err e \<Rightarrow> E (hd (new @ w # h)))"
  proof (cases r)
    case (Ok a)
    obtain w1 h1 where h1: "new @ w # h = w1 # h1" by (cases "new @ w # h") auto
    with post Ok have "R a w1" by simp
    with f [of a] obtain r' new' where f_run: "f a (w1 # h1) = (r', new' @ w1 # h1)" "\<forall>u \<in> set new'. C u"
      "case r' of Ok a \<Rightarrow> Q a (hd (new' @ w1 # h1)) | Err e \<Rightarrow> E (hd (new' @ w1 # h1))"
      unfolding io_spec_def by blast
    with m_run Ok h1 [symmetric] show ?thesis
      by (intro exI [of _ r'] exI [of _ "new' @ new"]) (cases r'; auto simp: io_bind_def)
  next
    case (Err e)
    with m_run post show ?thesis by (intro exI [of _ "Err e"] exI [of _ new]) (simp add: io_bind_def)
  qed
qed

lemma io_spec_catch [io_rules]:
  assumes m: "io_spec P m Q R C" and f: "\<And>e. io_spec R (f e) Q E C"
  shows "io_spec P (io_catch m f) Q E C"
  unfolding io_spec_def
proof (intro allI impI)
  fix w h assume "P w"
  with m obtain r new where m_run: "m (w # h) = (r, new @ w # h)" "\<forall>u \<in> set new. C u"
    and post: "case r of Ok a \<Rightarrow> Q a (hd (new @ w # h)) | Err e \<Rightarrow> R (hd (new @ w # h))"
    unfolding io_spec_def by blast
  show "\<exists>r new. io_catch m f (w # h) = (r, new @ w # h) \<and> (\<forall>u \<in> set new. C u)
           \<and> (case r of Ok a \<Rightarrow> Q a (hd (new @ w # h)) | Err e \<Rightarrow> E (hd (new @ w # h)))"
  proof (cases r)
    case (Err e)
    obtain w1 h1 where h1: "new @ w # h = w1 # h1" by (cases "new @ w # h") auto
    with post Err have "R w1" by simp
    with f [of e] obtain r' new' where f_run: "f e (w1 # h1) = (r', new' @ w1 # h1)" "\<forall>u \<in> set new'. C u"
      "case r' of Ok a \<Rightarrow> Q a (hd (new' @ w1 # h1)) | Err e \<Rightarrow> E (hd (new' @ w1 # h1))"
      unfolding io_spec_def by blast
    with m_run Err h1 [symmetric] show ?thesis
      by (intro exI [of _ r'] exI [of _ "new' @ new"]) (cases r'; auto simp: io_catch_def)
  next
    case (Ok a)
    with m_run post show ?thesis by (intro exI [of _ "Ok a"] exI [of _ new]) (simp add: io_catch_def)
  qed
qed

lemma io_spec_ignore [io_rules]:
  assumes "io_spec P m (\<lambda>_. Q) Q C"
  shows "io_spec P (io_ignore m) (\<lambda>_. Q) E C"
  unfolding io_spec_def
proof (intro allI impI)
  fix w h assume "P w"
  with assms obtain r new where "m (w # h) = (r, new @ w # h)" "\<forall>u \<in> set new. C u"
    "case r of Ok a \<Rightarrow> Q (hd (new @ w # h)) | Err e \<Rightarrow> Q (hd (new @ w # h))"
    unfolding io_spec_def by blast
  then show "\<exists>r new. io_ignore m (w # h) = (r, new @ w # h) \<and> (\<forall>u \<in> set new. C u)
           \<and> (case r of Ok a \<Rightarrow> Q (hd (new @ w # h)) | Err e \<Rightarrow> E (hd (new @ w # h)))"
    by (intro exI [of _ "Ok ()"] exI [of _ new]) (simp add: io_ignore_def split: result.splits)
qed

lemma io_spec_weaken:
  assumes "io_spec P m Q E C" and "\<And>w. P' w \<Longrightarrow> P w" and "\<And>a w. Q a w \<Longrightarrow> Q' a w" and "\<And>w. E w \<Longrightarrow> E' w"
    and "\<And>w. C w \<Longrightarrow> C' w"
  shows "io_spec P' m Q' E' C'"
  unfolding io_spec_def
proof (intro allI impI)
  fix w h assume "P' w"
  with assms(1,2) obtain r new where "m (w # h) = (r, new @ w # h)" "\<forall>u \<in> set new. C u"
    "case r of Ok a \<Rightarrow> Q a (hd (new @ w # h)) | Err e \<Rightarrow> E (hd (new @ w # h))"
    unfolding io_spec_def by blast
  with assms(3-5) show "\<exists>r new. m (w # h) = (r, new @ w # h) \<and> (\<forall>u \<in> set new. C' u)
           \<and> (case r of Ok a \<Rightarrow> Q' a (hd (new @ w # h)) | Err e \<Rightarrow> E' (hd (new @ w # h)))"
    by (intro exI [of _ r] exI [of _ new]) (auto split: result.splits)
qed

lemma io_spec_run:
  assumes "io_spec P m Q E C" and "P w" and "m [w] = (r, h)"
  shows "\<forall>u \<in> set h. C u \<or> u = w" and "\<And>a. r = Ok a \<Longrightarrow> Q a (hd h)" and "\<And>e. r = Err e \<Longrightarrow> E (hd h)"
proof -
  from assms obtain new where new: "h = new @ [w]" "\<forall>u \<in> set new. C u"
    "case r of Ok a \<Rightarrow> Q a (hd (new @ [w])) | Err e \<Rightarrow> E (hd (new @ [w]))"
    unfolding io_spec_def by (metis Pair_inject)
  then show "\<forall>u \<in> set h. C u \<or> u = w" "\<And>a. r = Ok a \<Longrightarrow> Q a (hd h)" "\<And>e. r = Err e \<Longrightarrow> E (hd h)" by auto
qed

text \<open>A fact about the world at the start may be used throughout.\<close>

lemma io_spec_fixed: "(\<And>w. P w \<Longrightarrow> io_spec (\<lambda>u. u = w) m Q E C) \<Longrightarrow> io_spec P m Q E C"
  unfolding io_spec_def by blast

text \<open>Pure steps, reading the world, and results that are passed on.\<close>

lemma io_spec_pure:
  assumes "\<And>a. r = Ok a \<Longrightarrow> io_spec P (f a) Q E C" and "\<And>w. P w \<Longrightarrow> E w"
  shows "io_spec P (io_bind (io_of r) f) Q E C"
  by (cases r) (use assms in \<open>auto simp: io_spec_def io_bind_def io_of_def\<close>)

lemma io_bind_of [simp]: "io_bind (io_of (Ok a)) f = f a" "io_bind (io_of (Err e)) f = io_of (Err e)"
  by (simp_all add: io_bind_def io_of_def)

lemma io_spec_return:
  assumes "io_spec P m R E C" and "\<And>a w. R a w \<Longrightarrow> Q (g a) w"
  shows "io_spec P (io_bind m (\<lambda>a. io_of (Ok (g a)))) Q E C"
  by (rule io_spec_bind [OF assms(1)], rule io_spec_of) (auto intro: assms(2))

lemma io_spec_get:
  assumes "\<And>w. P w \<Longrightarrow> io_spec (\<lambda>u. u = w) (f w) Q E C"
  shows "io_spec P (io_bind io_world f) Q E C"
  using assms by (auto simp: io_spec_def io_bind_def io_world_def)

lemma io_get_run: "io_bind io_world f (w # h) = f w (w # h)" "io_of r h = (r, h)"
  by (simp_all add: io_bind_def io_world_def io_of_def)

lemma io_spec_history: "io_spec P m Q E C \<Longrightarrow> P w \<Longrightarrow> m [w] = (r, h) \<Longrightarrow> h \<noteq> []"
  unfolding io_spec_def by (metis Pair_inject append_is_Nil_conv list.distinct(1))

end
