(* ===== verification/Install.thy ===== *)
theory Install
  imports Package Distribution Commands
begin

text \<open>
  Atomic and trusted installation, \<open>floatile-cli/src/install.rs\<close>: a validated package is written
  to a staging directory, recorded in the journal, renamed into place and accepted; a recovery
  completes or undoes what a crash interrupted.

  The world is the file system with the trust database; clock, nonce and the faults of the operating
  system are the environment.  A file is written, a directory made, removed or renamed, and a
  transaction of the database committed, in one step: a crash falls between two of them.
\<close>

section \<open>Worlds\<close>

type_synonym world = "fs \<times> trust_db"

type_synonym ('a, 'e) install_io = "(world, 'a, 'e) io"

definition io_fs :: "'e \<Rightarrow> (fs \<Rightarrow> fs option) \<Rightarrow> (unit, 'e) install_io" where
  "io_fs e change = (\<lambda>h. case change (fst (hd h)) of None \<Rightarrow> (Err e, h) | Some fs \<Rightarrow> (Ok (), (fs, snd (hd h)) # h))"

definition io_db :: "('d \<Rightarrow> 'e) \<Rightarrow> (trust_db \<Rightarrow> ('a, 'd) result \<times> trust_db) \<Rightarrow> ('a, 'e) install_io" where
  "io_db err change = (\<lambda>h. case change (snd (hd h)) of (r, d) \<Rightarrow> (map_err err r, (fst (hd h), d) # h))"

lemma io_spec_fs:
  assumes "\<And>fs d fs'. P (fs, d) \<Longrightarrow> change fs = Some fs' \<Longrightarrow> C (fs', d) \<and> Q () (fs', d)" and "\<And>w. P w \<Longrightarrow> E w"
  shows "io_spec P (io_fs e change) Q E C"
  unfolding io_spec_def
proof (intro allI impI)
  fix w h assume P: "P w"
  obtain fs d where w: "w = (fs, d)" by (cases w)
  show "\<exists>r new. io_fs e change (w # h) = (r, new @ w # h) \<and> (\<forall>u \<in> set new. C u)
           \<and> (case r of Ok a \<Rightarrow> Q a (hd (new @ w # h)) | Err e \<Rightarrow> E (hd (new @ w # h)))"
  proof (cases "change fs")
    case None
    with assms(2) [OF P] w show ?thesis by (intro exI [of _ "Err e"] exI [of _ "[]"]) (simp add: io_fs_def)
  next
    case (Some fs')
    with assms(1) [of fs d fs'] P w show ?thesis
      by (intro exI [of _ "Ok ()"] exI [of _ "[(fs', d)]"]) (simp add: io_fs_def)
  qed
qed

lemma io_spec_fs_total:
  assumes "\<And>fs d. P (fs, d) \<Longrightarrow> \<exists>fs'. change fs = Some fs' \<and> Q () (fs', d)"
  shows "io_spec P (io_fs e change) Q E (\<lambda>_. True)"
  unfolding io_spec_def
proof (intro allI impI)
  fix w h assume "P w"
  then obtain fs' where "change (fst w) = Some fs'" "Q () (fs', snd w)" using assms [of "fst w" "snd w"] by auto
  then show "\<exists>r new. io_fs e change (w # h) = (r, new @ w # h) \<and> (\<forall>u \<in> set new. True)
           \<and> (case r of Ok a \<Rightarrow> Q a (hd (new @ w # h)) | Err e \<Rightarrow> E (hd (new @ w # h)))"
    by (intro exI [of _ "Ok ()"] exI [of _ "[(fs', snd w)]"]) (simp add: io_fs_def)
qed

lemma io_spec_db:
  assumes "\<And>fs d a d'. P (fs, d) \<Longrightarrow> change d = (Ok a, d') \<Longrightarrow> C (fs, d') \<and> Q a (fs, d')"
    and "\<And>fs d e d'. P (fs, d) \<Longrightarrow> change d = (Err e, d') \<Longrightarrow> C (fs, d') \<and> E (fs, d')"
  shows "io_spec P (io_db err change) Q E C"
  unfolding io_spec_def
proof (intro allI impI)
  fix w h assume P: "P w"
  obtain fs d where w: "w = (fs, d)" by (cases w)
  obtain r d' where r: "change d = (r, d')" by (cases "change d")
  show "\<exists>r new. io_db err change (w # h) = (r, new @ w # h) \<and> (\<forall>u \<in> set new. C u)
           \<and> (case r of Ok a \<Rightarrow> Q a (hd (new @ w # h)) | Err e \<Rightarrow> E (hd (new @ w # h)))"
    using assms(1) [of fs d _ d'] assms(2) [of fs d _ d'] P w r
    by (intro exI [of _ "map_err err r"] exI [of _ "[(fs, d')]"]) (cases r; simp add: io_db_def)
qed

record install_env =
  ie_faults :: faults
  ie_now :: u64
  ie_nonce :: string

section \<open>Errors and results\<close>

datatype 'v install_error =
    InPackage package_error
  | InStoreUnavailable
  | InAlreadyInstalled string string
  | InStagingWrite
  | InCommit
  | InIo
  | InMissingSignature
  | InUnknownPublisher
  | InSignature signature_error
  | InTrustPolicy "'v trust_policy_error"
  | InRecoveryRequired string
  | InRecovery
  | InUpgrade upgrade_plan_error
  | InPermissionConfirmation "'v upgrade_plan"
  | InInstallationCatalog catalog_error

fun signature_install_code :: "signature_error \<Rightarrow> string" where
  "signature_install_code PublisherRevoked = ''FINST_PUBLISHER_REVOKED''"
| "signature_install_code KeyRevoked = ''FINST_KEY_REVOKED''"
| "signature_install_code UnknownKey = ''FINST_KEY_UNKNOWN''"
| "signature_install_code DigestMismatch = ''FINST_SIGNATURE_DIGEST''"
| "signature_install_code InvalidSignature = ''FINST_SIGNATURE_INVALID''"
| "signature_install_code _ = ''FINST_SIGNATURE_MALFORMED''"

fun trust_install_code :: "'v trust_policy_error \<Rightarrow> string" where
  "trust_install_code UnknownPublisher = ''FINST_PUBLISHER_UNKNOWN''"
| "trust_install_code RevokedPublisher = ''FINST_PUBLISHER_REVOKED''"
| "trust_install_code (RollbackRefused v w) = ''FINST_ROLLBACK''"
| "trust_install_code SameVersionDifferentDigest = ''FINST_VERSION_REPLACED''"
| "trust_install_code (TrustStoreError e) = ''FINST_TRUST_STORE''"

fun install_error_code :: "'v install_error \<Rightarrow> string" where
  "install_error_code (InPackage e) = ''FINST_PACKAGE''"
| "install_error_code InStoreUnavailable = ''FINST_STORE_UNAVAILABLE''"
| "install_error_code (InAlreadyInstalled i v) = ''FINST_ALREADY_INSTALLED''"
| "install_error_code InStagingWrite = ''FINST_STAGING_WRITE''"
| "install_error_code InCommit = ''FINST_COMMIT''"
| "install_error_code InIo = ''FINST_IO''"
| "install_error_code InMissingSignature = ''FINST_SIGNATURE_MISSING''"
| "install_error_code InUnknownPublisher = ''FINST_PUBLISHER_UNKNOWN''"
| "install_error_code (InSignature e) = signature_install_code e"
| "install_error_code (InTrustPolicy e) = trust_install_code e"
| "install_error_code (InRecoveryRequired t) = ''FINST_RECOVERY_REQUIRED''"
| "install_error_code InRecovery = ''FINST_RECOVERY_FAILED''"
| "install_error_code (InUpgrade e) = ''FINST_UPGRADE_INCOMPATIBLE''"
| "install_error_code (InPermissionConfirmation p) = ''FINST_PERMISSION_CONFIRMATION''"
| "install_error_code (InInstallationCatalog e) = ''FINST_INSTALLED_INVALID''"

record 'v installed_package =
  ip_dir :: path
  ip_manifest :: manifest
  ip_meta :: install_meta
  ip_upgrade :: "'v upgrade_plan option"

record recovery_report =
  rr_finalized :: nat
  rr_aborted :: nat

section \<open>Staging\<close>

definition install_dir :: "path \<Rightarrow> string \<Rightarrow> string \<Rightarrow> path" where
  "install_dir store pid version = path_join (path_join store pid) version"

definition staging_meta ::
  "'v install_lib \<Rightarrow> install_env \<Rightarrow> validated_package \<Rightarrow> string \<Rightarrow> installation_trust \<Rightarrow> install_meta"
where
  "staging_meta lib env v source trust =
     (let m = vp_manifest v in
      \<lparr>im_manifest_version = mf_manifest_version m, im_id = mf_id m, im_version = mf_version m,
       im_engine_api_version = mf_engine_api_version m, im_ui_api_version = mf_ui_api_version m,
       im_installed_at = ie_now env, im_source = source, im_trust = trust,
       im_files = map (\<lambda>(n, b). (n, hex_encode (file_digest (il_sha256 lib) b))) (vp_files v),
       im_digest = hex_encode (content_digest (il_sha256 lib) (vp_files v))\<rparr>)"

definition write_file :: "install_env \<Rightarrow> path \<Rightarrow> string \<times> bytes \<Rightarrow> (unit, 'v install_error) install_io" where
  "write_file env staging f =
     (let p = path_join staging (fst f)
      in io_bind (io_fs InStagingWrite (fs_mkdir_all (ie_faults env) (butlast p)))
           (\<lambda>_. io_fs InStagingWrite (fs_write (ie_faults env) p (snd f))))"

definition write_staging ::
  "'v install_lib \<Rightarrow> install_env \<Rightarrow> path \<Rightarrow> validated_package \<Rightarrow> string \<Rightarrow> installation_trust
     \<Rightarrow> (install_meta, 'v install_error) install_io"
where
  "write_staging lib env staging v source trust =
     (let meta = staging_meta lib env v source trust
      in io_bind (io_each (write_file env staging) (vp_files v)) (\<lambda>_.
         io_bind (io_fs InStagingWrite (fs_write (ie_faults env) (path_join staging ''install.json'') (il_encode_meta lib meta)))
           (\<lambda>_. io_of (Ok meta))))"

definition remove_staging :: "install_env \<Rightarrow> path \<Rightarrow> (unit, 'v install_error) install_io" where
  "remove_staging env staging = io_ignore (io_fs () (fs_remove_dir_all (ie_faults env) staging))"

section \<open>Installation without trust\<close>

definition install_validated ::
  "'v install_lib \<Rightarrow> install_env \<Rightarrow> path \<Rightarrow> validated_package \<Rightarrow> string \<Rightarrow> ('v installed_package, 'v install_error) install_io"
where
  "install_validated lib env store v source =
     (let m = vp_manifest v;
          final = install_dir store (mf_id m) (mf_version m);
          staging = path_join store (''.staging-'' @ ie_nonce env)
      in io_bind io_world (\<lambda>w.
         if fs_exists final (fst w) then io_of (Err (InAlreadyInstalled (mf_id m) (mf_version m)))
         else
           io_bind (io_fs InStoreUnavailable (fs_mkdir_all (ie_faults env) (butlast final))) (\<lambda>_.
           io_bind (io_catch (write_staging lib env staging v source Unsigned)
                      (\<lambda>e. io_bind (remove_staging env staging) (\<lambda>_. io_of (Err e)))) (\<lambda>meta.
           io_bind (io_catch (io_fs InCommit (fs_rename (ie_faults env) staging final))
                      (\<lambda>e. io_bind (remove_staging env staging) (\<lambda>_. io_of (Err e)))) (\<lambda>_.
           io_of (Ok \<lparr>ip_dir = final, ip_manifest = m, ip_meta = meta, ip_upgrade = None\<rparr>))))))"

definition install_package ::
  "'v package_lib \<Rightarrow> install_env \<Rightarrow> bytes \<Rightarrow> path \<Rightarrow> string \<Rightarrow> package_limits
     \<Rightarrow> ('v installed_package, 'v install_error) install_io"
where
  "install_package lib env bytes store source limits =
     io_bind (io_of (map_err InPackage (validate_package lib limits bytes)))
       (\<lambda>v. install_validated (pk_install lib) env store v source)"

section \<open>Trusted installation\<close>

definition verify_package_signature ::
  "'v install_lib \<Rightarrow> file_set \<Rightarrow> string \<Rightarrow> publisher_trust_record option \<Rightarrow> (unit, 'v install_error) result"
where
  "verify_package_signature lib files pub trust =
     try_bind (ok_or InUnknownPublisher trust) (\<lambda>t.
     try_bind (ok_or InMissingSignature (bt_lookup SIGNATURE_FILE files)) (\<lambda>envelope.
     map_err InSignature (verify_signature_envelope (il_crypto lib) envelope files pub (verifier_binding t))))"

text \<open>The plan of an upgrade, when the installed version is older.\<close>

definition upgrade_of ::
  "'v::linorder install_lib \<Rightarrow> manifest \<Rightarrow> bool \<Rightarrow> installed_installation option
     \<Rightarrow> ('v upgrade_plan option, 'v install_error) result"
where
  "upgrade_of lib m accept current =
     (case current of
        None \<Rightarrow> Ok None
      | Some i \<Rightarrow>
          try_bind (ok_or InCommit (il_semver lib (mf_version m))) (\<lambda>new.
          try_bind (ok_or InCommit (il_semver lib (mf_version (ii_manifest i)))) (\<lambda>old.
          if old < new
          then try_bind (map_err InUpgrade (plan_upgrade (il_semver lib) (ii_manifest i) m)) (\<lambda>plan.
               if up_requires_confirmation plan \<and> \<not> accept then Err (InPermissionConfirmation plan)
               else Ok (Some plan))
          else Ok None)))"

definition pending_of ::
  "'v install_lib \<Rightarrow> install_env \<Rightarrow> validated_package \<Rightarrow> 'v \<Rightarrow> install_meta \<Rightarrow> 'v pending_installation"
where
  "pending_of lib env v version meta =
     (let m = vp_manifest v in
      \<lparr>pn_transaction_id = ie_nonce env, pn_publisher_id = pub_id (mf_publisher m), pn_plugin_id = mf_id m,
       pn_version = version, pn_signed_digest = signable_content_digest (il_crypto lib) (vp_files v),
       pn_install_digest = content_digest (il_sha256 lib) (vp_files v), pn_staging_name = ''.staging-'' @ ie_nonce env,
       pn_final_relative = mf_id m @ ''/'' @ mf_version m, pn_created_at = im_installed_at meta\<rparr>)"

text \<open>From the staging directory to the accepted version.\<close>

definition commit_trusted ::
  "'v::linorder install_lib \<Rightarrow> install_env \<Rightarrow> path \<Rightarrow> path \<Rightarrow> 'v pending_installation \<Rightarrow> (unit, 'v install_error) install_io"
where
  "commit_trusted lib env staging final pending =
     io_bind (io_catch (io_db InTrustPolicy (prepare_install (il_crypto lib) (il_versions lib) pending))
                (\<lambda>e. io_bind (remove_staging env staging) (\<lambda>_. io_of (Err e)))) (\<lambda>_.
     io_bind (io_catch (io_fs InCommit (fs_rename (ie_faults env) staging final))
                (\<lambda>e. io_bind (remove_staging env staging) (\<lambda>_.
                     io_bind (io_ignore (io_db (\<lambda>x. x) (abort_install (pn_transaction_id pending)))) (\<lambda>_.
                     io_of (Err e))))) (\<lambda>_.
     io_catch (io_bind (io_db InTrustPolicy (finalize_install (il_versions lib) (pn_transaction_id pending) (pn_created_at pending)))
                 (\<lambda>_. io_of (Ok ())))
              (\<lambda>_. io_of (Err (InRecoveryRequired (pn_transaction_id pending))))))"

text \<open>From the directories to the accepted version.\<close>

definition stage_and_commit ::
  "'v::linorder install_lib \<Rightarrow> install_env \<Rightarrow> path \<Rightarrow> path \<Rightarrow> validated_package \<Rightarrow> string
     \<Rightarrow> (install_meta, 'v install_error) install_io"
where
  "stage_and_commit lib env staging final v source =
     io_bind (io_fs InStoreUnavailable (fs_mkdir_all (ie_faults env) (butlast final))) (\<lambda>_.
     io_bind (io_catch (write_staging lib env staging v source Trusted)
                (\<lambda>e. io_bind (remove_staging env staging) (\<lambda>_. io_of (Err e)))) (\<lambda>meta.
     io_bind (io_of (ok_or InCommit (il_semver lib (mf_version (vp_manifest v))))) (\<lambda>version.
     io_bind (commit_trusted lib env staging final (pending_of lib env v version meta)) (\<lambda>_.
     io_of (Ok meta)))))"

definition install_trusted_package ::
  "'v::linorder package_lib \<Rightarrow> install_env \<Rightarrow> (fs \<Rightarrow> path \<Rightarrow> string list option) \<Rightarrow> bytes \<Rightarrow> path \<Rightarrow> string
     \<Rightarrow> package_limits \<Rightarrow> bool \<Rightarrow> ('v installed_package, 'v install_error) install_io"
where
  "install_trusted_package plib env read_dir bytes store source limits accept =
     (let lib = pk_install plib in
      io_bind (io_of (map_err InPackage (validate_package plib limits bytes))) (\<lambda>v.
      let m = vp_manifest v; pub = pub_id (mf_publisher m);
          staging = path_join store (''.staging-'' @ ie_nonce env);
          final = install_dir store (mf_id m) (mf_version m)
      in io_bind io_world (\<lambda>w.
         io_bind (io_of (map_err (\<lambda>e. InTrustPolicy (TrustStoreError e)) (trust_get (il_crypto lib) pub (snd w)))) (\<lambda>trust.
         io_bind (io_of (verify_package_signature lib (vp_files v) pub trust)) (\<lambda>_.
         if fs_exists final (fst w) then io_of (Err (InAlreadyInstalled (mf_id m) (mf_version m)))
         else
           io_bind (io_of (map_err InInstallationCatalog (load_highest lib (read_dir (fst w)) store (mf_id m) (fst w)))) (\<lambda>current.
           io_bind (io_of (upgrade_of lib m accept current)) (\<lambda>upgrade.
           io_bind (stage_and_commit lib env staging final v source) (\<lambda>meta.
           io_of (Ok \<lparr>ip_dir = final, ip_manifest = m, ip_meta = meta, ip_upgrade = upgrade\<rparr>)))))))))"

section \<open>Verification and recovery\<close>

text \<open>The files of an installation, by the names of its metadata.\<close>

definition installed_files :: "'e \<Rightarrow> installed_installation \<Rightarrow> (file_set, 'e) result" where
  "installed_files missing i =
     try_fold (\<lambda>name files. try_bind (ok_or missing (ii_file i name)) (\<lambda>b. Ok (bt_insert name b files)))
       (bt_keys (im_files (ii_meta i))) []"

definition verify_trusted_installation ::
  "'v install_lib \<Rightarrow> installed_installation \<Rightarrow> trust_db \<Rightarrow> (unit, 'v install_error) result"
where
  "verify_trusted_installation lib i d =
     (let pub = pub_id (mf_publisher (ii_manifest i)) in
      try_bind (map_err (\<lambda>e. InTrustPolicy (TrustStoreError e)) (trust_get (il_crypto lib) pub d)) (\<lambda>trust.
      try_bind (ok_or InUnknownPublisher trust) (\<lambda>t.
      try_bind (installed_files InCommit i) (\<lambda>files.
      verify_package_signature lib files pub (Some t)))))"

definition abort_pending :: "string \<Rightarrow> (bool, 'v install_error) install_io" where
  "abort_pending tx = io_db (\<lambda>e. InTrustPolicy (TrustStoreError e)) (abort_install tx)"

definition finish_pending ::
  "'v::linorder install_lib \<Rightarrow> install_env \<Rightarrow> path \<Rightarrow> 'v pending_installation \<Rightarrow> (acceptance_outcome, 'v install_error) install_io"
where
  "finish_pending lib env store p =
     io_bind io_world (\<lambda>w.
     io_bind (io_of (map_err (\<lambda>_. InRecovery)
        (load_exact lib store (pn_plugin_id p) (vl_show (il_versions lib) (pn_version p)) (fst w)))) (\<lambda>found.
     io_bind (io_of (ok_or InRecovery found)) (\<lambda>i.
     io_bind (io_of (installed_files InRecovery i)) (\<lambda>files.
     if content_digest (il_sha256 lib) files \<noteq> pn_install_digest p
        \<or> signable_content_digest (il_crypto lib) files \<noteq> pn_signed_digest p
     then io_of (Err InRecovery)
     else
       io_bind (io_of (map_err (\<lambda>e. InTrustPolicy (TrustStoreError e))
                  (trust_get (il_crypto lib) (pn_publisher_id p) (snd w)))) (\<lambda>trust.
       io_bind (io_of (verify_package_signature lib files (pub_id (mf_publisher (ii_manifest i))) trust)) (\<lambda>_.
       io_db InTrustPolicy (finalize_install (il_versions lib) (pn_transaction_id p) (ie_now env))))))))"

definition recover_one ::
  "'v::linorder install_lib \<Rightarrow> install_env \<Rightarrow> path \<Rightarrow> 'v pending_installation \<Rightarrow> recovery_report
     \<Rightarrow> (recovery_report, 'v install_error) install_io"
where
  "recover_one lib env store p report =
     (let staging = path_join store (pn_staging_name p); final = path_join store (pn_final_relative p)
      in io_bind io_world (\<lambda>w.
         case (fs_exists staging (fst w), fs_exists final (fst w)) of
           (True, True) \<Rightarrow> io_of (Err InRecovery)
         | (True, False) \<Rightarrow>
             io_bind (io_fs InRecovery (fs_remove_dir_all (ie_faults env) staging)) (\<lambda>_.
             io_bind (abort_pending (pn_transaction_id p)) (\<lambda>_.
             io_of (Ok (report\<lparr>rr_aborted := rr_aborted report + 1\<rparr>))))
         | (False, False) \<Rightarrow>
             io_bind (abort_pending (pn_transaction_id p)) (\<lambda>_.
             io_of (Ok (report\<lparr>rr_aborted := rr_aborted report + 1\<rparr>)))
         | (False, True) \<Rightarrow>
             io_bind (finish_pending lib env store p) (\<lambda>_.
             io_of (Ok (report\<lparr>rr_finalized := rr_finalized report + 1\<rparr>)))))"

definition recover_trusted_installs ::
  "'v::linorder install_lib \<Rightarrow> install_env \<Rightarrow> path \<Rightarrow> (recovery_report, 'v install_error) install_io"
where
  "recover_trusted_installs lib env store =
     io_bind io_world (\<lambda>w.
     io_bind (io_of (map_err (\<lambda>e. InTrustPolicy (TrustStoreError e)) (pending_installs (il_versions lib) (snd w))))
       (\<lambda>pending. io_fold (recover_one lib env store) pending \<lparr>rr_finalized = 0, rr_aborted = 0\<rparr>))"

end
