(* ===== verification/Install_Recovery.thy ===== *)
theory Install_Recovery
  imports Install
begin

text \<open>
  What survives a crash of a trusted installation, \<open>floatile-cli/src/install.rs\<close>: lemmas on the
  journal, on the staging directory and on the commands of \<open>Install\<close>, up to the two properties
  of the section's end.  An installed package loads with exactly the validated files, and after a
  crash at any step the recovery leaves the plugin either not installed, with the accepted version
  unchanged, or completely installed and accepted.
\<close>

section \<open>The journal with one entry\<close>

lemma prepare_install_Ok:
  assumes "prepare_install cr vl p d = (Ok (), d1)"
  shows "validate_pending vl p = Ok ()"
    "check_candidate cr vl (pn_publisher_id p) (pn_plugin_id p) (pn_version p) (pn_signed_digest p) d = Ok ()"
    "uint (pn_created_at p) < 2 ^ 63"
    "d1 = d\<lparr>tb_pending := bt_insert (pn_transaction_id p)
               \<lparr>gr_publisher = pn_publisher_id p, gr_plugin = pn_plugin_id p,
                gr_version = vl_show vl (pn_version p), gr_signed = pn_signed_digest p,
                gr_install = pn_install_digest p, gr_staging = pn_staging_name p,
                gr_final = pn_final_relative p, gr_created = uint (pn_created_at p)\<rparr> (tb_pending d)\<rparr>"
  using assms
  by (auto simp: prepare_install_def trust_commit_def sqlite_time_def split: result.splits if_splits
      elim!: try_bind_Err_iff [THEN iffD1, elim_format])

lemma prepare_install_Err: "prepare_install cr vl p d = (Err e, d1) \<Longrightarrow> d1 = d"
  by (auto simp: prepare_install_def trust_commit_def split: result.splits)

text \<open>The database after the preparation: one journal entry, which reads back; nothing else has changed.\<close>

definition journal_of :: "'v version_lib \<Rightarrow> 'v pending_installation \<Rightarrow> trust_db \<Rightarrow> trust_db" where
  "journal_of vl p d = d\<lparr>tb_pending := [(pn_transaction_id p,
      \<lparr>gr_publisher = pn_publisher_id p, gr_plugin = pn_plugin_id p,
       gr_version = vl_show vl (pn_version p), gr_signed = pn_signed_digest p,
       gr_install = pn_install_digest p, gr_staging = pn_staging_name p,
       gr_final = pn_final_relative p, gr_created = uint (pn_created_at p)\<rparr>)]\<rparr>"

text \<open>An installation that the trust policy lets begin.\<close>

definition may_begin :: "crypto \<Rightarrow> 'v::linorder version_lib \<Rightarrow> 'v pending_installation \<Rightarrow> trust_db \<Rightarrow> bool" where
  "may_begin cr vl p d \<longleftrightarrow> tb_pending d = [] \<and> validate_pending vl p = Ok ()
     \<and> check_candidate cr vl (pn_publisher_id p) (pn_plugin_id p) (pn_version p) (pn_signed_digest p) d = Ok ()
     \<and> vl_parse vl (vl_show vl (pn_version p)) = Some (pn_version p)
     \<and> length (pn_signed_digest p) = 32 \<and> length (pn_install_digest p) = 32"

lemma prepare_clean:
  assumes "prepare_install cr vl p d = (Ok (), d1)" and "tb_pending d = []"
    and "vl_parse vl (vl_show vl (pn_version p)) = Some (pn_version p)"
    and "length (pn_signed_digest p) = 32" and "length (pn_install_digest p) = 32"
  shows "may_begin cr vl p d \<and> d1 = journal_of vl p d"
  using prepare_install_Ok [OF assms(1)] assms(2-) by (simp add: may_begin_def journal_of_def)

lemma trust_get_same:
  "tb_publishers d' = tb_publishers d \<Longrightarrow> tb_keys d' = tb_keys d \<Longrightarrow> trust_get cr pub d' = trust_get cr pub d"
  by (auto simp: trust_get_def split: option.split)

lemma accepted_package_same: "tb_accepted d' = tb_accepted d \<Longrightarrow> accepted_package vl pub plug d' = accepted_package vl pub plug d"
  by (auto simp: accepted_package_def split: option.split)

lemma journal_simps [simp]:
  "tb_accepted (journal_of vl p d) = tb_accepted d" "tb_publishers (journal_of vl p d) = tb_publishers d"
  "tb_keys (journal_of vl p d) = tb_keys d" "trust_get cr pub (journal_of vl p d) = trust_get cr pub d"
  "accepted_package vl pub plug (journal_of vl p d) = accepted_package vl pub plug d"
  by (simp_all add: journal_of_def) (rule trust_get_same accepted_package_same; simp)+

lemma journal_row:
  assumes "may_begin cr vl p d"
  shows "pending_installs vl (journal_of vl p d) = Ok [p]" "pending_install vl (pn_transaction_id p) (journal_of vl p d) = Ok (Some p)"
proof -
  have tx: "validate_transaction_id (pn_transaction_id p) = Ok ()"
    using assms by (auto simp: may_begin_def validate_pending_def)
  have "row_to_pending vl (pn_transaction_id p) (snd (hd (tb_pending (journal_of vl p d)))) = Ok p"
    using assms by (cases p) (simp add: row_to_pending_def journal_of_def may_begin_def digest_array_def Let_def)
  then show "pending_installs vl (journal_of vl p d) = Ok [p]"
    "pending_install vl (pn_transaction_id p) (journal_of vl p d) = Ok (Some p)"
    using tx by (simp_all add: pending_installs_def pending_install_def journal_of_def)
qed

lemma journal_abort:
  assumes "may_begin cr vl p d"
  shows "abort_install (pn_transaction_id p) (journal_of vl p d) = (Ok True, d)"
proof -
  have "validate_transaction_id (pn_transaction_id p) = Ok ()" "tb_pending d = []"
    using assms by (auto simp: may_begin_def validate_pending_def)
  then show ?thesis by (simp add: abort_install_def drop_pending_def journal_of_def bt_remove_def)
qed

lemma check_candidate_Ok:
  assumes "check_candidate cr vl pub plug version digest d = Ok ()"
  obtains r highest where "trust_get cr pub d = Ok (Some r)" "pt_state r = TrustActive"
    "accepted_package vl pub plug d = Ok highest" "\<And>h. highest = Some h \<Longrightarrow> ap_version h \<le> version"
    "\<And>h. highest = Some h \<Longrightarrow> version = ap_version h \<Longrightarrow> digest = ap_digest h"
proof -
  from assms obtain r where r: "trust_get cr pub d = Ok (Some r)"
    by (auto simp: check_candidate_def split: option.splits)
  with assms have state: "pt_state r = TrustActive"
    by (cases "pt_state r") (auto simp: check_candidate_def)
  with assms r obtain highest where highest: "accepted_package vl pub plug d = Ok highest"
    by (auto simp: check_candidate_def)
  with assms r state have "\<forall>h. highest = Some h \<longrightarrow> ap_version h \<le> version \<and> (version = ap_version h \<longrightarrow> digest = ap_digest h)"
    by (auto simp: check_candidate_def not_less split: if_splits)
  with that [OF r state highest] show thesis by blast
qed

lemma may_begin_publisher:
  assumes "may_begin cr vl p d"
  obtains row where "bt_lookup (pn_publisher_id p) (tb_publishers d) = Some row" "ur_state row = ''active''"
proof -
  from assms have "check_candidate cr vl (pn_publisher_id p) (pn_plugin_id p) (pn_version p) (pn_signed_digest p) d = Ok ()"
    by (simp add: may_begin_def)
  then obtain r where "trust_get cr (pn_publisher_id p) d = Ok (Some r)" "pt_state r = TrustActive"
    by (rule check_candidate_Ok)
  with that show thesis
    by (auto simp: trust_get_def trust_state_parse_def split: option.splits if_splits)
qed

text \<open>What may begin is accepted in the end, and the mark is then its version and digest.\<close>

lemma journal_finalize:
  assumes may: "may_begin cr vl p d" and t: "uint t < 2 ^ 63"
  shows "\<exists>outcome d2 a. finalize_install vl (pn_transaction_id p) t (journal_of vl p d) = (Ok outcome, d2) \<and> tb_pending d2 = []
    \<and> accepted_package vl (pn_publisher_id p) (pn_plugin_id p) d2 = Ok (Some a)
    \<and> ap_version a = pn_version p \<and> ap_digest a = pn_signed_digest p"
proof -
  let ?j = "journal_of vl p d"
  obtain row where row: "bt_lookup (pn_publisher_id p) (tb_publishers d) = Some row" "ur_state row = ''active''"
    using may by (rule may_begin_publisher)
  from may have ids: "validate_publisher_id (pn_publisher_id p) = Ok ()" "trust_validate_plugin_id (pn_plugin_id p) = Ok ()"
    by (auto simp: may_begin_def validate_pending_def)
  from may have "check_candidate cr vl (pn_publisher_id p) (pn_plugin_id p) (pn_version p) (pn_signed_digest p) d = Ok ()"
    by (simp add: may_begin_def)
  then obtain highest where highest: "accepted_package vl (pn_publisher_id p) (pn_plugin_id p) d = Ok highest"
    "\<And>h. highest = Some h \<Longrightarrow> ap_version h \<le> pn_version p"
    "\<And>h. highest = Some h \<Longrightarrow> pn_version p = ap_version h \<Longrightarrow> pn_signed_digest p = ap_digest h"
    by (rule check_candidate_Ok) blast
  have "\<exists>outcome d'. accept_package vl (pn_publisher_id p) (pn_plugin_id p) (pn_version p) (pn_signed_digest p) t ?j = (Ok outcome, d')
      \<and> tb_pending d' = tb_pending ?j
      \<and> (\<exists>a. accepted_package vl (pn_publisher_id p) (pn_plugin_id p) d' = Ok (Some a)
            \<and> ap_version a = pn_version p \<and> ap_digest a = pn_signed_digest p)"
  proof (cases highest)
    case None
    with highest(1) have "bt_lookup (pn_publisher_id p, pn_plugin_id p) (tb_accepted d) = None"
      by (auto simp: accepted_package_def split: option.splits)
    with ids row t may show ?thesis
      by (auto simp: accept_package_def sqlite_time_def accepted_package_def digest_array_def may_begin_def)
  next
    case (Some h)
    with highest(1) have "accepted_package vl (pn_publisher_id p) (pn_plugin_id p) d = Ok (Some h)" by simp
    then obtain e where e: "bt_lookup (pn_publisher_id p, pn_plugin_id p) (tb_accepted d) = Some e"
      "vl_parse vl (er_version e) = Some (ap_version h)" "er_digest e = ap_digest h" "length (ap_digest h) = 32"
      by (rule accepted_package_SomeD)
    from highest(2) [OF Some] consider "pn_version p = ap_version h" | "ap_version h < pn_version p" by fastforce
    then show ?thesis
    proof cases
      case 1
      with ids row t e highest(1) highest(3) [OF Some] Some show ?thesis
        by (auto simp: accept_package_def sqlite_time_def digest_array_def)
    next
      case 2
      with ids row t e may show ?thesis
        by (auto simp: accept_package_def sqlite_time_def accepted_package_def digest_array_def may_begin_def)
    qed
  qed
  then obtain outcome d' a where acc: "accept_package vl (pn_publisher_id p) (pn_plugin_id p) (pn_version p) (pn_signed_digest p) t ?j
      = (Ok outcome, d')" "tb_pending d' = tb_pending ?j"
    "accepted_package vl (pn_publisher_id p) (pn_plugin_id p) d' = Ok (Some a)" "ap_version a = pn_version p"
    "ap_digest a = pn_signed_digest p" by blast
  then have "finalize_install vl (pn_transaction_id p) t ?j = (Ok outcome, drop_pending (pn_transaction_id p) d')"
    by (simp add: finalize_install_def journal_row(2) [OF may])
  moreover have "tb_pending (drop_pending (pn_transaction_id p) d') = []"
    using acc(2) by (simp add: drop_pending_def journal_of_def bt_remove_def)
  ultimately show ?thesis using acc(3-5) by auto
qed

section \<open>The staging directory\<close>

text \<open>Names of files that stay below their directory.\<close>

definition file_names_ok :: "file_set \<Rightarrow> bool" where
  "file_names_ok files \<longleftrightarrow> bt_wf files \<and> (\<forall>f \<in> set files. validate_package_path (fst f) = Ok ())"

lemma path_join_name: "validate_package_path n = Ok () \<Longrightarrow> path_join dir n = dir @ split_on CHR ''/'' n"
  by (auto simp: path_join_def validate_package_path_Ok_iff resolve_plain_segments starts_with_iff)

lemma install_json_name: "path_join dir ''install.json'' = dir @ [''install.json'']" "split_on CHR ''/'' ''install.json'' = [''install.json'']"
  by (simp_all add: sample_join(1))

text \<open>What writing below a directory may change.\<close>

definition touches :: "path \<Rightarrow> fs \<Rightarrow> fs \<Rightarrow> bool" where
  "touches dir fs fs' \<longleftrightarrow> (\<forall>q. \<not> prefix dir q \<longrightarrow> fs' q = fs q \<or> prefix q dir \<and> fs' q = Some Directory)"

lemma touches_refl [simp]: "touches dir fs fs"
  by (simp add: touches_def)

lemma touches_trans: "touches dir fs fs' \<Longrightarrow> touches dir fs' fs'' \<Longrightarrow> touches dir fs fs''"
  unfolding touches_def by metis

lemma touches_keeps: "touches dir fs fs' \<Longrightarrow> \<not> prefix dir q \<Longrightarrow> \<not> prefix q dir \<Longrightarrow> fs' q = fs q"
  by (auto simp: touches_def)

lemma mkdir_touches: "fs_mkdir_all faults (dir @ ps) fs = Some fs' \<Longrightarrow> touches dir fs fs'"
  by (auto simp: fs_mkdir_all_def touches_def prefix_append split: if_splits)

lemma write_touches: "fs_write faults (dir @ ps) b fs = Some fs' \<Longrightarrow> touches dir fs fs'"
  by (auto simp: fs_write_def touches_def split: if_splits)

lemma mkdir_keeps_files: "fs_mkdir_all faults p fs = Some fs' \<Longrightarrow> fs q = Some (Regular b) \<Longrightarrow> fs' q = Some (Regular b)"
  by (force simp: fs_mkdir_all_def split: if_splits)

definition holds_files :: "path \<Rightarrow> file_set \<Rightarrow> fs \<Rightarrow> bool" where
  "holds_files dir files fs \<longleftrightarrow> (\<forall>f \<in> set files. fs (path_join dir (fst f)) = Some (Regular (snd f)))"

text \<open>The worlds while the files are written; \<open>fs0\<close> and \<open>d0\<close> are the world before.\<close>

definition staged :: "path \<Rightarrow> fs \<Rightarrow> trust_db \<Rightarrow> file_set \<Rightarrow> world \<Rightarrow> bool" where
  "staged staging fs0 d0 files w \<longleftrightarrow> snd w = d0 \<and> touches staging fs0 (fst w) \<and> holds_files staging files (fst w)"

lemma write_file_spec:
  assumes names: "validate_package_path (fst f) = Ok ()" "\<forall>g \<in> set files. validate_package_path (fst g) = Ok ()"
    and new: "\<forall>g \<in> set files. fst g \<noteq> fst f"
  shows "io_spec (staged staging fs0 d0 files) (write_file env staging f) (\<lambda>_. staged staging fs0 d0 (files @ [f]))
           (staged staging fs0 d0 files) (staged staging fs0 d0 files)"
proof -
  let ?p = "path_join staging (fst f)"
  have p: "?p = staging @ split_on CHR ''/'' (fst f)" "butlast ?p = staging @ butlast (split_on CHR ''/'' (fst f))"
    using path_join_name [OF names(1)] by (simp_all add: butlast_append)
  have other: "path_join staging (fst g) \<noteq> ?p" if "g \<in> set files" for g
    using that names new path_join_name split_on_inject by (metis same_append_eq)
  have mkdir: "staged staging fs0 d0 files (fs', d)" if "staged staging fs0 d0 files (fs, d)"
    "fs_mkdir_all (ie_faults env) (butlast ?p) fs = Some fs'" for fs d fs'
    using that mkdir_touches [of _ staging] mkdir_keeps_files p(2)
    by (auto simp: staged_def holds_files_def intro: touches_trans)
  have wrote: "staged staging fs0 d0 files (fs', d) \<and> staged staging fs0 d0 (files @ [f]) (fs', d)"
    if "staged staging fs0 d0 files (fs, d)" "fs_write (ie_faults env) ?p (snd f) fs = Some fs'" for fs d fs'
  proof -
    have "touches staging fs0 fs'" using that write_touches [of _ staging] p(1) by (auto simp: staged_def intro: touches_trans)
    moreover have "fs' = fs(?p \<mapsto> Regular (snd f))" using that(2) by (simp add: fs_write_def split: if_splits)
    ultimately show ?thesis using that(1) other by (auto simp: staged_def holds_files_def)
  qed
  show ?thesis
    unfolding write_file_def Let_def
  proof (rule io_spec_bind)
    show "io_spec (staged staging fs0 d0 files) (io_fs InStagingWrite (fs_mkdir_all (ie_faults env) (butlast ?p)))
        (\<lambda>_. staged staging fs0 d0 files) (staged staging fs0 d0 files) (staged staging fs0 d0 files)"
      by (rule io_spec_fs) (blast intro: mkdir)+
    show "io_spec (staged staging fs0 d0 files) (io_fs InStagingWrite (fs_write (ie_faults env) ?p (snd f)))
        (\<lambda>_. staged staging fs0 d0 (files @ [f])) (staged staging fs0 d0 files) (staged staging fs0 d0 files)" for a :: unit
      by (rule io_spec_fs) (blast dest: wrote)+
  qed
qed

definition staging_world :: "path \<Rightarrow> fs \<Rightarrow> trust_db \<Rightarrow> world \<Rightarrow> bool" where
  "staging_world staging fs0 d0 w \<longleftrightarrow> snd w = d0 \<and> touches staging fs0 (fst w)"

lemma staged_world: "staged staging fs0 d0 files w \<Longrightarrow> staging_world staging fs0 d0 w"
  by (simp add: staged_def staging_world_def)

lemma write_files_spec:
  assumes "\<forall>g \<in> set (written @ files). validate_package_path (fst g) = Ok ()" and "distinct (map fst (written @ files))"
  shows "io_spec (staged staging fs0 d0 written) (io_each (write_file env staging :: _ \<Rightarrow> (unit, 'v install_error) install_io) files)
           (\<lambda>_. staged staging fs0 d0 (written @ files)) (staging_world staging fs0 d0) (staging_world staging fs0 d0)"
  using assms
proof (induction files arbitrary: written)
  case Nil
  then show ?case by (auto intro!: io_spec_of intro: staged_world)
next
  case (Cons f files)
  have new: "\<forall>g \<in> set written. fst g \<noteq> fst f" using Cons.prems(2) by (auto simp: image_iff)
  have first: "io_spec (staged staging fs0 d0 written) (write_file env staging f :: (unit, 'v install_error) install_io) (\<lambda>_. staged staging fs0 d0 (written @ [f]))
      (staged staging fs0 d0 written) (staged staging fs0 d0 written)"
    by (rule write_file_spec [OF _ _ new]) (use Cons.prems(1) in auto)
  have tail: "io_spec (staged staging fs0 d0 (written @ [f])) (io_each (write_file env staging :: _ \<Rightarrow> (unit, 'v install_error) install_io) files)
      (\<lambda>_. staged staging fs0 d0 (written @ f # files)) (staging_world staging fs0 d0) (staging_world staging fs0 d0)"
    using Cons.IH [of "written @ [f]"] Cons.prems by simp
  have "io_spec (staged staging fs0 d0 written) (write_file env staging f :: (unit, 'v install_error) install_io)
      (\<lambda>_. staged staging fs0 d0 (written @ [f])) (staging_world staging fs0 d0) (staging_world staging fs0 d0)"
    by (rule io_spec_weaken [OF first]) (auto intro: staged_world)
  then show ?case unfolding io_each.simps by (rule io_spec_bind) (rule tail)
qed

text \<open>A staging directory that is complete, with the metadata.\<close>

definition complete :: "'v install_lib \<Rightarrow> path \<Rightarrow> file_set \<Rightarrow> install_meta \<Rightarrow> fs \<Rightarrow> bool" where
  "complete lib dir files meta fs \<longleftrightarrow> fs dir = Some Directory \<and> holds_files dir files fs
     \<and> fs (dir @ [''install.json'']) = Some (Regular (il_encode_meta lib meta))"

lemma write_staging_spec:
  assumes files: "file_names_ok (vp_files v)" and json: "bt_lookup ''install.json'' (vp_files v) = None"
  shows "io_spec (staging_world staging fs0 d0) (write_staging lib env staging v source trust)
           (\<lambda>meta w. meta = staging_meta lib env v source trust \<and> staging_world staging fs0 d0 w
              \<and> complete lib staging (vp_files v) meta (fst w))
           (staging_world staging fs0 d0) (staging_world staging fs0 d0)"
proof -
  let ?meta = "staging_meta lib env v source trust"
  have names: "\<forall>g \<in> set (vp_files v). validate_package_path (fst g) = Ok ()" "distinct (map fst (vp_files v))"
    using files by (auto simp: file_names_ok_def bt_wf_distinct)
  have start: "staging_world staging fs0 d0 = staged staging fs0 d0 []"
    by (auto simp: staging_world_def staged_def holds_files_def fun_eq_iff)
  have other: "path_join staging (fst f) \<noteq> staging @ [''install.json'']" if "f \<in> set (vp_files v)" for f
  proof
    assume "path_join staging (fst f) = staging @ [''install.json'']"
    with that names(1) path_join_name [of "fst f" staging] have "split_on CHR ''/'' (fst f) = split_on CHR ''/'' ''install.json''"
      by (simp add: install_json_name)
    then have "fst f = ''install.json''" by (rule split_on_inject)
    moreover have "bt_lookup (fst f) (vp_files v) = Some (snd f)"
      using files that by (intro bt_lookup_in) (auto simp: file_names_ok_def)
    ultimately show False using json by simp
  qed
  have last: "staging_world staging fs0 d0 (fs', d) \<and> complete lib staging (vp_files v) ?meta fs'"
    if "staged staging fs0 d0 (vp_files v) (fs, d)"
      "fs_write (ie_faults env) (path_join staging ''install.json'') (il_encode_meta lib ?meta) fs = Some fs'" for fs d fs'
  proof -
    from that(2) have fs': "fs' = fs(staging @ [''install.json''] \<mapsto> Regular (il_encode_meta lib ?meta))" "fs staging = Some Directory"
      by (auto simp: fs_write_def install_json_name split: if_splits)
    moreover have "touches staging fs0 fs'"
      using that write_touches [of _ staging] by (auto simp: staged_def install_json_name intro: touches_trans)
    ultimately show ?thesis using that(1) other by (auto simp: staging_world_def complete_def staged_def holds_files_def)
  qed
  show ?thesis
    unfolding write_staging_def Let_def start
  proof (rule io_spec_bind)
    show "io_spec (staged staging fs0 d0 []) (io_each (write_file env staging) (vp_files v))
        (\<lambda>_. staged staging fs0 d0 (vp_files v)) (staged staging fs0 d0 []) (staged staging fs0 d0 [])"
      using write_files_spec [of "[]" "vp_files v" staging fs0 d0 env] names by (simp add: start)
    show "io_spec (staged staging fs0 d0 (vp_files v))
        (io_bind (io_fs InStagingWrite (fs_write (ie_faults env) (path_join staging ''install.json'') (il_encode_meta lib ?meta)))
           (\<lambda>_. io_of (Ok ?meta)))
        (\<lambda>meta w. meta = ?meta \<and> staged staging fs0 d0 [] w \<and> complete lib staging (vp_files v) meta (fst w))
        (staged staging fs0 d0 []) (staged staging fs0 d0 [])" for a :: unit
    proof (rule io_spec_bind)
      show "io_spec (staged staging fs0 d0 (vp_files v))
          (io_fs InStagingWrite (fs_write (ie_faults env) (path_join staging ''install.json'') (il_encode_meta lib ?meta)))
          (\<lambda>_ w. staging_world staging fs0 d0 w \<and> complete lib staging (vp_files v) ?meta (fst w))
          (staged staging fs0 d0 []) (staged staging fs0 d0 [])"
        unfolding start [symmetric] by (rule io_spec_fs) (use last staged_world in auto)
    qed (rule io_spec_of, simp_all add: start)
  qed
qed

section \<open>A complete directory loads\<close>

text \<open>What the package reader guarantees of a package, and what the model needs besides: no file of
  the package has the name of the metadata.\<close>

definition installable :: "'v install_lib \<Rightarrow> validated_package \<Rightarrow> bool" where
  "installable lib v \<longleftrightarrow> file_names_ok (vp_files v)
     \<and> (\<exists>b. bt_lookup ''manifest.json'' (vp_files v) = Some b \<and> il_parse_manifest lib b = Some (vp_manifest v))
     \<and> validate_manifest (il_semver lib) (vp_manifest v) = Ok ()
     \<and> bt_lookup ''install.json'' (vp_files v) = None"

text \<open>The metadata is that of the package, and reads back from its JSON.\<close>

definition meta_of :: "'v install_lib \<Rightarrow> validated_package \<Rightarrow> install_meta \<Rightarrow> bool" where
  "meta_of lib v meta \<longleftrightarrow>
     im_id meta = mf_id (vp_manifest v) \<and> im_version meta = mf_version (vp_manifest v)
     \<and> im_files meta = map (\<lambda>(n, b). (n, hex_encode (file_digest (il_sha256 lib) b))) (vp_files v)
     \<and> im_digest meta = hex_encode (content_digest (il_sha256 lib) (vp_files v))
     \<and> il_parse_meta lib (il_encode_meta lib meta) = Some meta"

lemma staging_meta_of:
  "il_parse_meta lib (il_encode_meta lib (staging_meta lib env v source trust)) = Some (staging_meta lib env v source trust)
     \<Longrightarrow> meta_of lib v (staging_meta lib env v source trust)"
  by (simp add: meta_of_def staging_meta_def Let_def)

lemma holds_read:
  assumes "holds_files dir files fs" and "file_names_ok files" and "(n, b) \<in> set files"
  shows "fs_read_in dir n fs = Some b"
proof -
  have "CHR 0x00 \<notin> set n"
    using assms(2,3) by (auto simp: file_names_ok_def validate_package_path_Ok_iff)
  moreover have "fs (path_join dir n) = Some (Regular b)"
    using assms(1,3) by (force simp: holds_files_def)
  ultimately show ?thesis by (simp add: fs_read_in_def fs_read_def)
qed

lemma load_files_complete:
  assumes "\<And>n b. (n, b) \<in> set entries \<Longrightarrow> fs_read_in dir n fs = Some b"
  shows "try_fold (load_file lib meta dir fs) (map (\<lambda>(n, b). (n, hex_encode (file_digest (il_sha256 lib) b))) entries) acc
      = Ok (fold (\<lambda>(n, b). bt_insert n b) entries acc)"
  using assms
proof (induction entries arbitrary: acc)
  case (Cons e entries)
  have "fs_read_in dir (fst e) fs = Some (snd e)" using Cons.prems [of "fst e" "snd e"] by simp
  then have "load_file lib meta dir fs (fst e, hex_encode (file_digest (il_sha256 lib) (snd e))) acc
      = Ok (bt_insert (fst e) (snd e) acc)"
    by (simp add: load_file_def)
  with Cons.IH Cons.prems show ?case by (cases e) simp
qed simp

lemma fold_insert_sorted: "bt_wf files \<Longrightarrow> fold (\<lambda>(n, b). bt_insert n b) files [] = files"
proof (rule bt_eqI)
  fix k assume wf: "bt_wf files"
  have "map_of (rev files) k = map_of files k"
    using map_of_inject_set [of "rev files" files] bt_wf_distinct [OF wf] by (simp add: rev_map [symmetric])
  then show "bt_lookup k (fold (\<lambda>(n, b). bt_insert n b) files []) = bt_lookup k files"
    by (simp add: bt_lookup_fold_insert bt_lookup_map_of [of k files] split: option.splits)
qed (simp_all add: bt_wf_fold_insert)

lemma load_complete:
  assumes v: "installable lib v" and meta: "meta_of lib v meta" and dir: "complete lib dir (vp_files v) meta fs"
    and sha: "length (content_digest (il_sha256 lib) (vp_files v)) = 32"
  shows "load_from_dir lib dir fs
    = Ok \<lparr>ii_dir = dir, ii_manifest = vp_manifest v, ii_meta = meta, ii_files = vp_files v\<rparr>"
proof -
  have names: "file_names_ok (vp_files v)" and valid: "validate_manifest (il_semver lib) (vp_manifest v) = Ok ()"
    using v by (simp_all add: installable_def)
  obtain b where manifest: "bt_lookup ''manifest.json'' (vp_files v) = Some b" "il_parse_manifest lib b = Some (vp_manifest v)"
    using v by (auto simp: installable_def)
  have "fs_read_in dir ''install.json'' fs = Some (il_encode_meta lib meta)"
    using dir by (simp add: complete_def fs_read_in_def fs_read_def install_json_name)
  moreover have "try_fold (load_file lib meta dir fs) (im_files meta) [] = Ok (vp_files v)"
  proof -
    have "im_files meta = map (\<lambda>(n, b). (n, hex_encode (file_digest (il_sha256 lib) b))) (vp_files v)"
      using meta by (simp add: meta_of_def)
    moreover have "fs_read_in dir n fs = Some b" if "(n, b) \<in> set (vp_files v)" for n b
      using dir names that by (auto simp: complete_def intro: holds_read)
    moreover have "bt_wf (vp_files v)" using names by (simp add: file_names_ok_def)
    ultimately show ?thesis by (simp add: load_files_complete fold_insert_sorted)
  qed
  moreover have "digest_from_hex (im_digest meta) = Ok (content_digest (il_sha256 lib) (vp_files v))"
    using meta sha by (simp add: meta_of_def digest_from_hex_def hex_decode_def length_hex_encode hex_decode_chunks_encode)
  moreover have "validate_plugin_id (mf_id (vp_manifest v)) = Ok ()" "il_semver lib (mf_version (vp_manifest v)) \<noteq> None"
    using valid by (auto simp: validate_manifest_def split: if_splits)
  ultimately show ?thesis
    using manifest valid meta
    by (auto simp: load_from_dir_def Let_def meta_of_def ii_reference_def installation_ref_from_meta_def installation_ref_new_def)
qed

lemma complete_move:
  assumes "complete lib src files meta fs" and "file_names_ok files"
  shows "complete lib dst files meta (fs_move src dst fs)"
proof -
  have "fs_move src dst fs (path_join dst (fst f)) = fs (path_join src (fst f))" if "f \<in> set files" for f
    using that assms(2) by (simp add: file_names_ok_def path_join_name fs_move_def)
  with assms(1) show ?thesis by (simp add: complete_def holds_files_def) (simp add: fs_move_def)
qed

section \<open>The worlds of a trusted installation\<close>

text \<open>Nothing is installed; the database is that of the start.\<close>

definition untouched :: "path \<Rightarrow> trust_db \<Rightarrow> world \<Rightarrow> bool" where
  "untouched final d0 w \<longleftrightarrow> fst w final = None \<and> snd w = d0"

text \<open>The journal has the entry of the installation, the staging directory may still exist.\<close>

definition journaled :: "crypto \<Rightarrow> 'v::linorder version_lib \<Rightarrow> 'v pending_installation \<Rightarrow> path \<Rightarrow> path \<Rightarrow> trust_db \<Rightarrow> world \<Rightarrow> bool"
where
  "journaled cr vl p staging final d0 w \<longleftrightarrow>
     may_begin cr vl p d0 \<and> uint (pn_created_at p) < 2 ^ 63 \<and> snd w = journal_of vl p d0
     \<and> fst w final = None \<and> (fst w staging = None \<or> fst w staging = Some Directory)"

text \<open>The directory is in its place, the version not yet accepted.\<close>

definition renamed ::
  "'v::linorder install_lib \<Rightarrow> 'v pending_installation \<Rightarrow> path \<Rightarrow> path \<Rightarrow> file_set \<Rightarrow> install_meta \<Rightarrow> trust_db \<Rightarrow> world \<Rightarrow> bool"
where
  "renamed lib p staging final files meta d0 w \<longleftrightarrow>
     may_begin (il_crypto lib) (il_versions lib) p d0 \<and> uint (pn_created_at p) < 2 ^ 63
     \<and> snd w = journal_of (il_versions lib) p d0 \<and> fst w staging = None \<and> complete lib final files meta (fst w)"

definition committed :: "'v::linorder install_lib \<Rightarrow> 'v pending_installation \<Rightarrow> path \<Rightarrow> file_set \<Rightarrow> install_meta \<Rightarrow> world \<Rightarrow> bool"
where
  "committed lib p final files meta w \<longleftrightarrow>
     tb_pending (snd w) = [] \<and> complete lib final files meta (fst w)
     \<and> (\<exists>a. accepted_package (il_versions lib) (pn_publisher_id p) (pn_plugin_id p) (snd w) = Ok (Some a)
           \<and> ap_version a = pn_version p \<and> ap_digest a = pn_signed_digest p)"

definition crash_world ::
  "'v::linorder install_lib \<Rightarrow> 'v pending_installation \<Rightarrow> path \<Rightarrow> path \<Rightarrow> file_set \<Rightarrow> install_meta \<Rightarrow> trust_db \<Rightarrow> world \<Rightarrow> bool"
where
  "crash_world lib p staging final files meta d0 w \<longleftrightarrow>
     untouched final d0 w \<or> journaled (il_crypto lib) (il_versions lib) p staging final d0 w
     \<or> renamed lib p staging final files meta d0 w \<or> committed lib p final files meta w"

section \<open>The commit\<close>

lemma remove_staging_spec:
  assumes "\<And>fs d. P (fs, d) \<Longrightarrow> fs staging = Some Directory \<Longrightarrow> P (fs_remove_tree staging fs, d)"
  shows "io_spec P (remove_staging env staging) (\<lambda>_. P) E P"
  unfolding remove_staging_def
  by (rule io_spec_ignore, rule io_spec_fs) (auto simp: fs_remove_dir_all_def split: if_splits intro: assms)

lemma remove_untouched: "untouched final d0 (fs, d) \<Longrightarrow> untouched final d0 (fs_remove_tree staging fs, d)"
  by (auto simp: untouched_def fs_remove_tree_def)

lemma remove_journaled:
  "journaled cr vl p staging final d0 (fs, d) \<Longrightarrow> journaled cr vl p staging final d0 (fs_remove_tree staging fs, d)"
  by (auto simp: journaled_def fs_remove_tree_def)

text \<open>A failing step removes the staging directory and fails.\<close>

lemma fail_after_removal:
  assumes "\<And>fs d. P (fs, d) \<Longrightarrow> fs staging = Some Directory \<Longrightarrow> P (fs_remove_tree staging fs, d)"
    and "\<And>w. P w \<Longrightarrow> E w"
  shows "io_spec P (io_bind (remove_staging env staging) (\<lambda>_. io_of (Err e))) Q E P"
  by (rule io_spec_bind [OF remove_staging_spec], erule assms(1), assumption) (rule io_spec_of, auto intro: assms(2))

lemma journal_spec:
  assumes rel: "pn_final_relative p = pn_plugin_id p @ ''/'' @ s" "vl_parse vl s = Some (pn_version p)"
    and clean: "tb_pending d0 = []" and digests: "length (pn_signed_digest p) = 32" "length (pn_install_digest p) = 32"
  shows "io_spec (\<lambda>w. untouched final d0 w \<and> fst w staging = Some Directory \<and> G (fst w))
           (io_db InTrustPolicy (prepare_install cr vl p))
           (\<lambda>_ w. journaled cr vl p staging final d0 w \<and> G (fst w)) (untouched final d0)
           (\<lambda>w. untouched final d0 w \<or> journaled cr vl p staging final d0 w)"
proof (rule io_spec_db)
  fix fs d d' and a :: unit
  assume w: "untouched final d0 (fs, d) \<and> fst (fs, d) staging = Some Directory \<and> G (fst (fs, d))"
    and ok: "prepare_install cr vl p d = (Ok a, d')"
  then have "d = d0" "a = ()" by (simp_all add: untouched_def)
  with ok have ok: "prepare_install cr vl p d0 = (Ok (), d')" by simp
  from prepare_install_Ok(1) [OF ok] have "pn_final_relative p = pn_plugin_id p @ ''/'' @ vl_show vl (pn_version p)"
    by (auto simp: validate_pending_def split: if_splits)
  with rel have "vl_parse vl (vl_show vl (pn_version p)) = Some (pn_version p)" by simp
  from prepare_clean [OF ok clean this digests] prepare_install_Ok(3) [OF ok] w
  show "(untouched final d0 (fs, d') \<or> journaled cr vl p staging final d0 (fs, d'))
    \<and> journaled cr vl p staging final d0 (fs, d') \<and> G (fst (fs, d'))"
    by (simp add: journaled_def untouched_def)
next
  fix fs d e d'
  assume "untouched final d0 (fs, d) \<and> fst (fs, d) staging = Some Directory \<and> G (fst (fs, d))"
    and "prepare_install cr vl p d = (Err e, d')"
  then show "(untouched final d0 (fs, d') \<or> journaled cr vl p staging final d0 (fs, d')) \<and> untouched final d0 (fs, d')"
    by (auto dest: prepare_install_Err)
qed

lemma rename_spec:
  assumes names: "file_names_ok files" and apart: "\<not> prefix final staging" "\<not> prefix staging final"
  shows "io_spec (\<lambda>w. journaled (il_crypto lib) (il_versions lib) p staging final d0 w \<and> complete lib staging files meta (fst w))
           (io_fs e (fs_rename faults staging final))
           (\<lambda>_. renamed lib p staging final files meta d0)
           (journaled (il_crypto lib) (il_versions lib) p staging final d0)
           (renamed lib p staging final files meta d0)"
proof (rule io_spec_fs)
  fix fs d fs'
  assume w: "journaled (il_crypto lib) (il_versions lib) p staging final d0 (fs, d) \<and> complete lib staging files meta (fst (fs, d))"
    and "fs_rename faults staging final fs = Some fs'"
  then have fs': "fs' = fs_move staging final fs" by (simp add: fs_rename_def split: if_splits)
  have "complete lib final files meta fs'" unfolding fs' using w names by (intro complete_move) simp
  moreover have "fs' staging = None" using apart by (simp add: fs' fs_move_def)
  ultimately show "renamed lib p staging final files meta d0 (fs', d) \<and> renamed lib p staging final files meta d0 (fs', d)"
    using w by (simp add: renamed_def journaled_def)
qed simp

lemma finalize_spec:
  assumes t: "uint t < 2 ^ 63"
  shows "io_spec (renamed lib p staging final files meta d0)
           (io_db InTrustPolicy (finalize_install (il_versions lib) (pn_transaction_id p) t))
           (\<lambda>_. committed lib p final files meta) (\<lambda>_. False) (committed lib p final files meta)"
proof (rule io_spec_db)
  fix fs d d' and a :: acceptance_outcome
  assume w: "renamed lib p staging final files meta d0 (fs, d)"
    and ok: "finalize_install (il_versions lib) (pn_transaction_id p) t d = (Ok a, d')"
  then show "committed lib p final files meta (fs, d') \<and> committed lib p final files meta (fs, d')"
    using journal_finalize [of "il_crypto lib" "il_versions lib" p d0, OF _ t] by (auto simp: renamed_def committed_def)
next
  fix fs d e d'
  assume "renamed lib p staging final files meta d0 (fs, d)"
    and "finalize_install (il_versions lib) (pn_transaction_id p) t d = (Err e, d')"
  then show "committed lib p final files meta (fs, d') \<and> False"
    using journal_finalize [of "il_crypto lib" "il_versions lib" p d0, OF _ t] by (auto simp: renamed_def)
qed

text \<open>What goes back: the journal entry is removed.\<close>

lemma abort_spec:
  "io_spec (journaled cr vl p staging final d0) (io_ignore (io_db err (abort_install (pn_transaction_id p))))
     (\<lambda>_. untouched final d0) E (untouched final d0)"
  by (rule io_spec_ignore, rule io_spec_db) (auto simp: journaled_def untouched_def journal_abort)

lemma undo_rename_spec:
  "io_spec (journaled cr vl p staging final d0)
     (io_bind (remove_staging env staging) (\<lambda>_.
      io_bind (io_ignore (io_db err (abort_install (pn_transaction_id p)))) (\<lambda>_. io_of (Err e)))) Q (untouched final d0)
     (\<lambda>w. journaled cr vl p staging final d0 w \<or> untouched final d0 w)"
proof (rule io_spec_bind)
  show "io_spec (journaled cr vl p staging final d0) (remove_staging env staging) (\<lambda>_. journaled cr vl p staging final d0)
      (untouched final d0) (\<lambda>w. journaled cr vl p staging final d0 w \<or> untouched final d0 w)"
    by (rule io_spec_weaken [OF remove_staging_spec [where P = "journaled cr vl p staging final d0"]]) (auto intro: remove_journaled)
  show "io_spec (journaled cr vl p staging final d0)
      (io_bind (io_ignore (io_db err (abort_install (pn_transaction_id p)))) (\<lambda>_. io_of (Err e))) Q (untouched final d0)
      (\<lambda>w. journaled cr vl p staging final d0 w \<or> untouched final d0 w)" for a :: unit
  proof (rule io_spec_bind)
    show "io_spec (journaled cr vl p staging final d0) (io_ignore (io_db err (abort_install (pn_transaction_id p))))
        (\<lambda>_. untouched final d0) (untouched final d0) (\<lambda>w. journaled cr vl p staging final d0 w \<or> untouched final d0 w)"
      by (rule io_spec_weaken [OF abort_spec [where E = "untouched final d0"]]) auto
  qed (rule io_spec_of, auto)
qed

lemma commit_spec:
  fixes lib :: "'v::linorder install_lib" and meta :: install_meta
  assumes rel: "pn_final_relative p = pn_plugin_id p @ ''/'' @ s" "il_semver lib s = Some (pn_version p)"
    and clean: "tb_pending d0 = []" and digests: "length (pn_signed_digest p) = 32" "length (pn_install_digest p) = 32"
    and names: "file_names_ok files" and apart: "\<not> prefix final staging" "\<not> prefix staging final"
  defines "safe \<equiv> crash_world lib p staging final files meta d0"
  shows "io_spec (\<lambda>w. untouched final d0 w \<and> complete lib staging files meta (fst w)) (commit_trusted lib env staging final p)
           (\<lambda>_. committed lib p final files meta) safe safe"
  unfolding commit_trusted_def
proof (rule io_spec_bind)
  let ?J = "journaled (il_crypto lib) (il_versions lib) p staging final d0"
  have safe [simp]: "untouched final d0 w \<Longrightarrow> safe w" "?J w \<Longrightarrow> safe w"
    "renamed lib p staging final files meta d0 w \<Longrightarrow> safe w" "committed lib p final files meta w \<Longrightarrow> safe w" for w
    by (simp_all add: safe_def crash_world_def)
  show "io_spec (\<lambda>w. untouched final d0 w \<and> complete lib staging files meta (fst w))
      (io_catch (io_db InTrustPolicy (prepare_install (il_crypto lib) (il_versions lib) p))
         (\<lambda>e. io_bind (remove_staging env staging) (\<lambda>_. io_of (Err e))))
      (\<lambda>_ w. ?J w \<and> complete lib staging files meta (fst w)) safe safe"
  proof (rule io_spec_catch)
    show "io_spec (\<lambda>w. untouched final d0 w \<and> complete lib staging files meta (fst w))
        (io_db InTrustPolicy (prepare_install (il_crypto lib) (il_versions lib) p))
        (\<lambda>_ w. ?J w \<and> complete lib staging files meta (fst w)) (untouched final d0) safe"
      by (rule io_spec_weaken [OF journal_spec [OF rel clean digests, where G = "complete lib staging files meta"]])
        (auto simp: complete_def)
    show "io_spec (untouched final d0) (io_bind (remove_staging env staging) (\<lambda>_. io_of (Err e))) Q safe safe" for Q
      and e :: "'v install_error"
      by (rule io_spec_weaken [OF fail_after_removal [where P = "untouched final d0" and E = safe]])
        (auto intro: remove_untouched)
  qed
  show "io_spec (\<lambda>w. ?J w \<and> complete lib staging files meta (fst w))
      (io_bind (io_catch (io_fs InCommit (fs_rename (ie_faults env) staging final))
                (\<lambda>e. io_bind (remove_staging env staging) (\<lambda>_.
                     io_bind (io_ignore (io_db (\<lambda>x. x) (abort_install (pn_transaction_id p)))) (\<lambda>_. io_of (Err e))))) (\<lambda>_.
       io_catch (io_bind (io_db InTrustPolicy (finalize_install (il_versions lib) (pn_transaction_id p) (pn_created_at p)))
                 (\<lambda>_. io_of (Ok ())))
              (\<lambda>_. io_of (Err (InRecoveryRequired (pn_transaction_id p))))))
      (\<lambda>_. committed lib p final files meta) safe safe" for a :: unit
  proof (rule io_spec_bind, rule io_spec_catch)
    show "io_spec (\<lambda>w. ?J w \<and> complete lib staging files meta (fst w)) (io_fs InCommit (fs_rename (ie_faults env) staging final))
        (\<lambda>_ w. renamed lib p staging final files meta d0 w) ?J safe"
      by (rule io_spec_weaken [OF rename_spec [OF names apart]]) auto
    show "io_spec ?J (io_bind (remove_staging env staging) (\<lambda>_.
        io_bind (io_ignore (io_db (\<lambda>x. x) (abort_install (pn_transaction_id p)))) (\<lambda>_. io_of (Err e)))) Q safe safe" for Q
      and e :: "'v install_error"
      by (rule io_spec_weaken [OF undo_rename_spec]) auto
    show "io_spec (renamed lib p staging final files meta d0)
        (io_catch (io_bind (io_db InTrustPolicy (finalize_install (il_versions lib) (pn_transaction_id p) (pn_created_at p)))
                   (\<lambda>_. io_of (Ok ())))
           (\<lambda>_. io_of (Err (InRecoveryRequired (pn_transaction_id p)))))
        (\<lambda>_. committed lib p final files meta) safe safe" for a :: unit
    proof (rule io_spec_fixed, rule io_spec_catch, rule io_spec_bind)
      fix w assume w: "renamed lib p staging final files meta d0 w"
      then have t: "uint (pn_created_at p) < 2 ^ 63" by (simp add: renamed_def)
      show "io_spec (\<lambda>u. u = w) (io_db InTrustPolicy (finalize_install (il_versions lib) (pn_transaction_id p) (pn_created_at p)))
          (\<lambda>_. committed lib p final files meta) (\<lambda>_. False) safe"
        by (rule io_spec_weaken [OF finalize_spec [OF t]]) (use w in auto)
    qed (rule io_spec_of, auto)+
  qed
qed

section \<open>A trusted installation\<close>

lemma package_installable:
  assumes by_name: "\<And>a n f. pk_by_name plib a n = Some f \<Longrightarrow> Some f \<in> set a \<and> ze_name f = n"
    and v: "validate_package plib limits bytes = Ok v" and json: "bt_lookup ''install.json'' (vp_files v) = None"
  shows "installable (pk_install plib) v"
proof -
  obtain a s where a: "try_fold (scan_entry plib limits) a empty_scan = Ok s" "read_manifest plib a = Ok (vp_manifest v)"
    "collect_files plib a (sc_entries s) = Ok (vp_files v)"
    using v by (rule validate_package_OkE) blast
  have "validate_package_path n = Ok ()" if "(n, b) \<in> set (vp_files v)" for n b
    using collected_names(1) [OF a(1,3)] that by (fastforce simp: scanned_def package_path_parse_def)
  then have "file_names_ok (vp_files v)" using collect_files_wf [OF a(3)] by (auto simp: file_names_ok_def)
  moreover obtain b where "read_entry plib a ''manifest.json'' = Ok b" "il_parse_manifest (pk_install plib) b = Some (vp_manifest v)"
    using read_manifest_Ok [OF a(2)] by blast
  moreover have "bt_lookup n (vp_files v) = Some c" if "read_entry plib a n = Ok c" for n c
    by (rule collected_entry [OF by_name a(1) a(3) that])
  ultimately show ?thesis using read_manifest_Ok [OF a(2)] json by (auto simp: installable_def)
qed

lemma plugin_id_plain: "validate_plugin_id i = Ok () \<Longrightarrow> plain_segment i \<and> \<not> starts_with i ''.''"
  by (auto simp: validate_plugin_id_def plain_segment_def starts_with_iff list_all_iff plugin_id_char_def ascii_eval
      split: if_splits dest!: bspec [where x = "CHR ''/''"])

lemma nonce_plain: "validate_transaction_id n = Ok () \<Longrightarrow> plain_segment (''.staging-'' @ n)"
  by (auto simp: validate_transaction_id_def plain_segment_def list_all_iff is_ascii_alphanumeric_def ascii_eval
      split: if_splits dest!: bspec [where x = "CHR ''/''"])

text \<open>The two directories of an installation lie apart.\<close>

lemma install_paths:
  assumes "validate_plugin_id i = Ok ()" and "plain_segment s" and "validate_transaction_id n = Ok ()"
  shows "install_dir store i s = store @ [i, s]" "path_join store (''.staging-'' @ n) = store @ [''.staging-'' @ n]"
    "path_join store (i @ ''/'' @ s) = store @ [i, s]" "i \<noteq> ''.staging-'' @ n"
proof -
  have i: "plain_segment i" "\<not> starts_with i ''.''" using plugin_id_plain [OF assms(1)] by simp_all
  then show "install_dir store i s = store @ [i, s]" using assms(2) by (simp add: install_dir_def path_join_plain)
  show "path_join store (''.staging-'' @ n) = store @ [''.staging-'' @ n]"
    using nonce_plain [OF assms(3)] by (rule path_join_plain)
  have "split_on CHR ''/'' (i @ ''/'' @ s) = [i, s]"
    using i(1) assms(2) by (simp add: plain_segment_def split_on_at split_on_absent)
  moreover have "\<not> starts_with (i @ ''/'' @ s) ''/''" using i(1) by (cases i) (auto simp: plain_segment_def starts_with_iff)
  ultimately show "path_join store (i @ ''/'' @ s) = store @ [i, s]"
    using i(1) assms(2) by (simp add: path_join_def plain_segment_def)
  show "i \<noteq> ''.staging-'' @ n" using i(2) by (auto simp: starts_with_iff)
qed

text \<open>What an installation is about, and what the model assumes of the code outside it: the hash has 32
  bytes, a semantic version has no separator, and the metadata reads back from its JSON.\<close>

definition installs ::
  "'v::linorder install_lib \<Rightarrow> install_env \<Rightarrow> validated_package \<Rightarrow> string \<Rightarrow> 'v \<Rightarrow> install_meta \<Rightarrow> bool"
where
  "installs lib env v source version meta \<longleftrightarrow>
     installable lib v \<and> validate_transaction_id (ie_nonce env) = Ok ()
     \<and> plain_segment (mf_version (vp_manifest v)) \<and> il_semver lib (mf_version (vp_manifest v)) = Some version
     \<and> (\<forall>b. length (il_sha256 lib b) = 32)
     \<and> meta = staging_meta lib env v source Trusted \<and> il_parse_meta lib (il_encode_meta lib meta) = Some meta"

lemma stage_spec:
  assumes v: "installable lib v" and apart: "\<not> prefix final staging" "\<not> prefix staging final" and meta: "meta = staging_meta lib env v source trust"
  shows "io_spec (untouched final d0)
      (io_catch (write_staging lib env staging v source trust)
         (\<lambda>e. io_bind (remove_staging env staging) (\<lambda>_. io_of (Err e))))
      (\<lambda>a w. a = meta \<and> untouched final d0 w \<and> complete lib staging (vp_files v) meta (fst w))
      (untouched final d0) (untouched final d0)"
proof (rule io_spec_fixed)
  fix w assume w: "untouched final d0 w"
  have keeps: "untouched final d0 u" if "staging_world staging (fst w) d0 u" for u
    using that w apart by (auto simp: staging_world_def untouched_def touches_keeps)
  show "io_spec (\<lambda>u. u = w)
      (io_catch (write_staging lib env staging v source trust)
         (\<lambda>e. io_bind (remove_staging env staging) (\<lambda>_. io_of (Err e))))
      (\<lambda>a w. a = meta \<and> untouched final d0 w \<and> complete lib staging (vp_files v) meta (fst w))
      (untouched final d0) (untouched final d0)"
  proof (rule io_spec_catch)
    show "io_spec (\<lambda>u. u = w) (write_staging lib env staging v source trust)
        (\<lambda>a w. a = meta \<and> untouched final d0 w \<and> complete lib staging (vp_files v) meta (fst w))
        (untouched final d0) (untouched final d0)"
      by (rule io_spec_weaken [OF write_staging_spec [where ?fs0.0 = "fst w" and ?d0.0 = d0]])
        (use v w keeps meta in \<open>auto simp: installable_def staging_world_def untouched_def\<close>)
    show "io_spec (untouched final d0) (io_bind (remove_staging env staging) (\<lambda>_. io_of (Err e))) Q
        (untouched final d0) (untouched final d0)" for Q and e :: "'b install_error"
      by (rule fail_after_removal) (auto intro: remove_untouched)
  qed
qed

lemma mkdir_untouched:
  assumes "\<not> prefix final dir"
  shows "io_spec (untouched final d0) (io_fs e (fs_mkdir_all faults dir)) (\<lambda>_. untouched final d0) (untouched final d0) (untouched final d0)"
  by (rule io_spec_fs) (use assms in \<open>auto simp: fs_mkdir_all_def untouched_def split: if_splits\<close>)

lemma pending_of_facts:
  assumes "installs lib env v source version meta"
  shows "pn_final_relative (pending_of lib env v version meta) = pn_plugin_id (pending_of lib env v version meta) @ ''/'' @ mf_version (vp_manifest v)"
    "il_semver lib (mf_version (vp_manifest v)) = Some (pn_version (pending_of lib env v version meta))"
    "length (pn_signed_digest (pending_of lib env v version meta)) = 32"
    "length (pn_install_digest (pending_of lib env v version meta)) = 32"
  using assms by (simp_all add: pending_of_def Let_def installs_def signable_content_digest_def content_digest_def)

lemma package_paths:
  assumes v: "installable lib v" and nonce: "validate_transaction_id nonce = Ok ()" and version: "plain_segment (mf_version (vp_manifest v))"
    and staging: "staging = path_join store (''.staging-'' @ nonce)"
    and final: "final = install_dir store (mf_id (vp_manifest v)) (mf_version (vp_manifest v))"
  shows "\<not> prefix final staging" "\<not> prefix staging final" "\<not> prefix final (butlast final)"
    "final = path_join store (mf_id (vp_manifest v) @ ''/'' @ mf_version (vp_manifest v))"
proof -
  have "validate_plugin_id (mf_id (vp_manifest v)) = Ok ()"
    using v by (auto simp: installable_def validate_manifest_def split: if_splits)
  with version nonce install_paths(1-3) [of "mf_id (vp_manifest v)" "mf_version (vp_manifest v)" nonce store]
    install_paths(4) [of "mf_id (vp_manifest v)" "mf_version (vp_manifest v)" nonce]
  show "\<not> prefix final staging" "\<not> prefix staging final" "\<not> prefix final (butlast final)"
    "final = path_join store (mf_id (vp_manifest v) @ ''/'' @ mf_version (vp_manifest v))"
    by (auto simp: staging final butlast_append)
qed

lemma installs_facts:
  assumes "installs lib env v source version meta"
  shows "installable lib v" "validate_transaction_id (ie_nonce env) = Ok ()" "plain_segment (mf_version (vp_manifest v))"
  using assms by (simp_all add: installs_def)

lemma stage_and_commit_spec:
  fixes lib :: "'v::linorder install_lib"
  assumes inst: "installs lib env v source version meta"
    and staging: "staging = path_join store (''.staging-'' @ ie_nonce env)"
    and final: "final = install_dir store (mf_id (vp_manifest v)) (mf_version (vp_manifest v))"
    and p: "p = pending_of lib env v version meta" and clean: "tb_pending d0 = []"
  shows "io_spec (untouched final d0) (stage_and_commit lib env staging final v source)
      (\<lambda>_. committed lib p final (vp_files v) meta) (crash_world lib p staging final (vp_files v) meta d0)
      (crash_world lib p staging final (vp_files v) meta d0)"
proof -
  let ?safe = "crash_world lib p staging final (vp_files v) meta d0"
  have safe: "untouched final d0 u \<Longrightarrow> ?safe u" for u by (simp add: crash_world_def)
  note apart = package_paths [OF installs_facts [OF inst] staging final]
  have ok: "installable lib v" "meta = staging_meta lib env v source Trusted" "il_semver lib (mf_version (vp_manifest v)) = Some version"
    and names: "file_names_ok (vp_files v)"
    using inst by (simp_all add: installs_def installable_def)
  note commit = commit_spec [OF pending_of_facts(1,2) [OF inst] clean pending_of_facts(3,4) [OF inst] names apart(1,2),
      where meta = meta and env = env, folded p]
  show ?thesis
    unfolding stage_and_commit_def
  proof (rule io_spec_bind [where R = "\<lambda>_. untouched final d0"], goal_cases)
    case 1
    show ?case by (rule io_spec_weaken [OF mkdir_untouched [OF apart(3)]]) (auto intro: safe)
  next
    case 2
    show ?case
    proof (rule io_spec_bind [where R = "\<lambda>a w. a = meta \<and> untouched final d0 w \<and> complete lib staging (vp_files v) meta (fst w)"], goal_cases)
      case 1
      show ?case by (rule io_spec_weaken [OF stage_spec [OF ok(1) apart(1,2) ok(2)]]) (auto intro: safe)
    next
      case (2 a)
      show ?case
      proof (rule io_spec_pure)
        fix b assume "ok_or InCommit (il_semver lib (mf_version (vp_manifest v))) = Ok b"
        then have b: "b = version" using ok(3) by simp
        show "io_spec (\<lambda>w. a = meta \<and> untouched final d0 w \<and> complete lib staging (vp_files v) meta (fst w))
            (io_bind (commit_trusted lib env staging final (pending_of lib env v b a)) (\<lambda>_. io_of (Ok a)))
            (\<lambda>_. committed lib p final (vp_files v) meta) ?safe ?safe"
        proof (rule io_spec_fixed, rule io_spec_bind)
          fix w assume w: "a = meta \<and> untouched final d0 w \<and> complete lib staging (vp_files v) meta (fst w)"
          have "io_spec (\<lambda>u. u = w) (commit_trusted lib env staging final p)
              (\<lambda>_. committed lib p final (vp_files v) meta) ?safe ?safe"
            by (rule io_spec_weaken [OF commit]) (use w in auto)
          with w b p show "io_spec (\<lambda>u. u = w) (commit_trusted lib env staging final (pending_of lib env v b a))
              (\<lambda>_. committed lib p final (vp_files v) meta) ?safe ?safe" by simp
        qed (rule io_spec_of, auto)
      qed (auto intro: safe)
    qed
  qed
qed

text \<open>The whole installation, from a world in which the version is not installed.\<close>

lemma install_spec:
  fixes plib :: "'v::linorder package_lib"
  assumes v: "validate_package plib limits bytes = Ok v"
    and inst: "installs (pk_install plib) env v source version meta"
    and staging: "staging = path_join store (''.staging-'' @ ie_nonce env)"
    and final: "final = install_dir store (mf_id (vp_manifest v)) (mf_version (vp_manifest v))"
    and p: "p = pending_of (pk_install plib) env v version meta" and clean: "tb_pending d0 = []"
    and start: "untouched final d0 w"
  shows "io_spec (\<lambda>u. u = w) (install_trusted_package plib env read_dir bytes store source limits accept)
      (\<lambda>_. committed (pk_install plib) p final (vp_files v) meta)
      (crash_world (pk_install plib) p staging final (vp_files v) meta d0)
      (crash_world (pk_install plib) p staging final (vp_files v) meta d0)"
proof -
  let ?safe = "crash_world (pk_install plib) p staging final (vp_files v) meta d0"
  have safe: "untouched final d0 u \<Longrightarrow> ?safe u" for u by (simp add: crash_world_def)
  have absent: "fst w final = None" using start by (simp add: untouched_def)
  have body: "io_spec (\<lambda>u. u = w)
      (io_bind (stage_and_commit (pk_install plib) env staging final v source) (\<lambda>meta. io_of (Ok (result meta))))
      (\<lambda>_. committed (pk_install plib) p final (vp_files v) meta) ?safe ?safe" for result :: "_ \<Rightarrow> 'v installed_package"
    by (rule io_spec_bind [where R = "\<lambda>_. committed (pk_install plib) p final (vp_files v) meta"],
        rule io_spec_weaken [OF stage_and_commit_spec [OF inst staging final p clean]])
      (use start in \<open>auto intro: io_spec_of\<close>)
  have cond: "\<not> fs_exists final (fst w)" using absent by (simp add: fs_exists_def)
  show ?thesis
    unfolding install_trusted_package_def Let_def v
  proof (intro io_spec_pure io_spec_get, goal_cases)
    case (1 v' u)
    then have eq: "v' = v" "u = w" by simp_all
    show ?case
      unfolding eq staging [symmetric] final [symmetric] if_not_P [OF cond]
      by (intro io_spec_pure body) (use start in \<open>auto intro: safe\<close>)
  qed (use start in \<open>auto intro: safe\<close>)
qed

section \<open>The recovery\<close>

lemma installed_files_complete:
  assumes "installable lib v" and "meta_of lib v meta"
  shows "installed_files e \<lparr>ii_dir = dir, ii_manifest = m, ii_meta = meta, ii_files = vp_files v\<rparr> = Ok (vp_files v)"
proof -
  have wf: "bt_wf (vp_files v)" using assms(1) by (simp add: installable_def file_names_ok_def)
  have keys: "bt_keys (im_files meta) = map fst (vp_files v)"
    using assms(2) by (simp add: meta_of_def bt_keys_def case_prod_beta)
  have "try_fold (\<lambda>name files. try_bind (ok_or e (bt_lookup name (vp_files v))) (\<lambda>b. Ok (bt_insert name b files))) (map fst entries) acc
      = Ok (fold (\<lambda>(n, b). bt_insert n b) entries acc)" if "set entries \<subseteq> set (vp_files v)" for entries acc
    using that
  proof (induction entries arbitrary: acc)
    case (Cons f entries)
    then have "bt_lookup (fst f) (vp_files v) = Some (snd f)" using wf by (intro bt_lookup_in) auto
    with Cons show ?case by (simp add: case_prod_beta)
  qed simp
  from this [of "vp_files v" "[]"] show ?thesis
    by (simp add: installed_files_def keys ii_file_def fold_insert_sorted [OF wf])
qed

text \<open>Finishing an installation whose directory is in its place.\<close>

lemma journal_version:
  assumes "may_begin cr vl p d" and "pn_final_relative p = pn_plugin_id p @ ''/'' @ s"
  shows "vl_show vl (pn_version p) = s"
  using assms by (auto simp: may_begin_def validate_pending_def split: if_splits)

lemma finish_spec:
  fixes lib :: "'v::linorder install_lib"
  assumes inst: "installs lib env v source version meta"
    and final: "final = install_dir store (mf_id (vp_manifest v)) (mf_version (vp_manifest v))"
    and p: "p = pending_of lib env v version meta"
    and signed: "trust_get (il_crypto lib) (pub_id (mf_publisher (vp_manifest v))) d0 = Ok t"
      "verify_package_signature lib (vp_files v) (pub_id (mf_publisher (vp_manifest v))) t = Ok ()"
    and time: "uint (ie_now env') < 2 ^ 63"
  shows "io_spec (renamed lib p staging final (vp_files v) meta d0) (finish_pending lib env' store p)
      (\<lambda>_. committed lib p final (vp_files v) meta) (\<lambda>_. False) (\<lambda>_. True)"
proof (rule io_spec_fixed)
  fix w assume w: "renamed lib p staging final (vp_files v) meta d0 w"
  let ?i = "\<lparr>ii_dir = final, ii_manifest = vp_manifest v, ii_meta = meta, ii_files = vp_files v\<rparr>"
  have ok: "installable lib v" "meta_of lib v meta" "\<And>b. length (il_sha256 lib b) = 32"
    using inst by (auto simp: installs_def intro: staging_meta_of)
  have pn: "pn_plugin_id p = mf_id (vp_manifest v)" "pn_publisher_id p = pub_id (mf_publisher (vp_manifest v))"
    "pn_install_digest p = content_digest (il_sha256 lib) (vp_files v)"
    "pn_signed_digest p = signable_content_digest (il_crypto lib) (vp_files v)"
    by (simp_all add: p pending_of_def Let_def)
  have shown: "vl_show (il_versions lib) (pn_version p) = mf_version (vp_manifest v)"
    using w by (intro journal_version [where p = p]) (auto simp: renamed_def p pending_of_def Let_def)
  have dir: "complete lib final (vp_files v) meta (fst w)" and db: "snd w = journal_of (il_versions lib) p d0"
    using w by (simp_all add: renamed_def)
  have "load_from_dir lib final (fst w) = Ok ?i"
    by (rule load_complete [OF ok(1,2) dir]) (simp add: content_digest_def ok(3))
  with dir have load: "load_exact lib store (pn_plugin_id p) (vl_show (il_versions lib) (pn_version p)) (fst w) = Ok (Some ?i)"
    by (simp add: load_exact_def Let_def fs_is_dir_def complete_def shown pn(1) flip: install_dir_def final)
  have finalize: "io_spec (\<lambda>u. u = w) (io_db InTrustPolicy (finalize_install (il_versions lib) (pn_transaction_id p) (ie_now env')))
      (\<lambda>_. committed lib p final (vp_files v) meta) (\<lambda>_. False) (\<lambda>_. True)"
    by (rule io_spec_weaken [OF finalize_spec [OF time]]) (use w in auto)
  show "io_spec (\<lambda>u. u = w) (finish_pending lib env' store p) (\<lambda>_. committed lib p final (vp_files v) meta) (\<lambda>_. False) (\<lambda>_. True)"
    unfolding finish_pending_def
  proof (rule io_spec_get, goal_cases)
    case (1 u)
    then have u: "u = w" by simp
    show ?case using finalize signed by (simp add: u load [unfolded pn(1)] installed_files_complete [OF ok(1,2)] pn db)
  qed
qed

definition no_faults :: "install_env \<Rightarrow> bool" where
  "no_faults env \<longleftrightarrow> ie_faults env = (\<lambda>_. False)"

text \<open>Undoing an installation that was not renamed.\<close>

lemma abort_pending_spec:
  "io_spec (journaled cr vl p staging final d0) (abort_pending (pn_transaction_id p)) (\<lambda>_. untouched final d0) (\<lambda>_. False) (\<lambda>_. True)"
  unfolding abort_pending_def by (rule io_spec_db) (auto simp: journaled_def untouched_def journal_abort)

lemma recover_journaled:
  assumes staging: "path_join store (pn_staging_name p) = staging" and final: "path_join store (pn_final_relative p) = final"
    and faults: "no_faults env'"
  shows "io_spec (journaled (il_crypto lib) (il_versions lib) p staging final d0) (recover_one lib env' store p report)
      (\<lambda>_. untouched final d0) (\<lambda>_. False) (\<lambda>_. True)"
proof -
  let ?J = "journaled (il_crypto lib) (il_versions lib) p staging final d0"
  have abort: "io_spec ?J (io_bind (abort_pending (pn_transaction_id p)) (\<lambda>_. io_of (Ok r))) (\<lambda>_. untouched final d0)
      (\<lambda>_. False) (\<lambda>_. True)" for r :: recovery_report
    by (rule io_spec_return [OF abort_pending_spec])
  show ?thesis
    unfolding recover_one_def Let_def staging final
  proof (rule io_spec_get, goal_cases)
    case (1 w)
    then have w: "?J w" and no_final: "\<not> fs_exists final (fst w)" by (simp_all add: journaled_def fs_exists_def)
    show ?case
    proof (cases "fs_exists staging (fst w)")
      case True
      then have dir: "fst w staging = Some Directory" using w by (auto simp: journaled_def fs_exists_def)
      have "io_spec (\<lambda>u. u = w) (io_bind (io_fs InRecovery (fs_remove_dir_all (ie_faults env') staging)) (\<lambda>_.
          io_bind (abort_pending (pn_transaction_id p)) (\<lambda>_. io_of (Ok (report\<lparr>rr_aborted := rr_aborted report + 1\<rparr>)))))
          (\<lambda>_. untouched final d0) (\<lambda>_. False) (\<lambda>_. True)"
      proof (rule io_spec_bind [OF _ abort], goal_cases)
        case 1
        show ?case
          by (rule io_spec_fs_total) (use dir faults w in \<open>auto simp: fs_remove_dir_all_def no_faults_def intro: remove_journaled\<close>)
      qed
      with True no_final show ?thesis by simp
    next
      case False
      have "io_spec (\<lambda>u. u = w) (io_bind (abort_pending (pn_transaction_id p)) (\<lambda>_.
          io_of (Ok (report\<lparr>rr_aborted := rr_aborted report + 1\<rparr>)))) (\<lambda>_. untouched final d0) (\<lambda>_. False) (\<lambda>_. True)"
        by (rule io_spec_weaken [OF abort]) (use w in auto)
      with False no_final show ?thesis by simp
    qed
  qed
qed

lemma recover_renamed:
  assumes staging: "path_join store (pn_staging_name p) = staging" and final: "path_join store (pn_final_relative p) = final"
    and finish: "io_spec (renamed lib p staging final files meta d0) (finish_pending lib env' store p)
      (\<lambda>_. committed lib p final files meta) (\<lambda>_. False) (\<lambda>_. True)"
  shows "io_spec (renamed lib p staging final files meta d0) (recover_one lib env' store p report)
      (\<lambda>_. committed lib p final files meta) (\<lambda>_. False) (\<lambda>_. True)"
  unfolding recover_one_def Let_def staging final
proof (rule io_spec_get, goal_cases)
  case (1 w)
  then have "\<not> fs_exists staging (fst w)" "fs_exists final (fst w)" by (simp_all add: renamed_def complete_def fs_exists_def)
  moreover have "io_spec (\<lambda>u. u = w) (io_bind (finish_pending lib env' store p)
      (\<lambda>_. io_of (Ok (report\<lparr>rr_finalized := rr_finalized report + 1\<rparr>))))
      (\<lambda>_. committed lib p final files meta) (\<lambda>_. False) (\<lambda>_. True)"
    by (rule io_spec_return [OF io_spec_weaken [OF finish]]) (use 1 in auto)
  ultimately show ?case by simp
qed

text \<open>From every world of an installation the recovery ends without an error.\<close>

lemma recover_spec:
  fixes lib :: "'v::linorder install_lib"
  assumes inst: "installs lib env v source version meta"
    and staging: "staging = path_join store (''.staging-'' @ ie_nonce env)"
    and final: "final = install_dir store (mf_id (vp_manifest v)) (mf_version (vp_manifest v))"
    and p: "p = pending_of lib env v version meta" and clean: "tb_pending d0 = []"
    and signed: "trust_get (il_crypto lib) (pub_id (mf_publisher (vp_manifest v))) d0 = Ok t"
      "verify_package_signature lib (vp_files v) (pub_id (mf_publisher (vp_manifest v))) t = Ok ()"
    and faults: "no_faults env'" and time: "uint (ie_now env') < 2 ^ 63"
  shows "io_spec (crash_world lib p staging final (vp_files v) meta d0) (recover_trusted_installs lib env' store)
      (\<lambda>_ w. untouched final d0 w \<or> committed lib p final (vp_files v) meta w) (\<lambda>_. False) (\<lambda>_. True)"
  unfolding recover_trusted_installs_def
proof (rule io_spec_get, goal_cases)
  case (1 w)
  have paths: "path_join store (pn_staging_name p) = staging" "path_join store (pn_final_relative p) = final"
    using package_paths(4) [OF installs_facts [OF inst] staging final] by (simp_all add: p pending_of_def Let_def staging)
  let ?done = "\<lambda>_ w. untouched final d0 w \<or> committed lib p final (vp_files v) meta w"
  note aborted = recover_journaled [OF paths faults] and finished = recover_renamed [OF paths finish_spec [OF inst final p signed time]]
  have one: "io_spec (\<lambda>u. u = w) (io_bind (recover_one lib env' store p r) (\<lambda>s. io_of (Ok s)))
      ?done (\<lambda>_. False) (\<lambda>_. True)"
    if "journaled (il_crypto lib) (il_versions lib) p staging final d0 w \<or> renamed lib p staging final (vp_files v) meta d0 w" for r
    using that
  proof
    assume "journaled (il_crypto lib) (il_versions lib) p staging final d0 w"
    then show ?thesis by (intro io_spec_return [OF io_spec_weaken [OF aborted]]) auto
  next
    assume "renamed lib p staging final (vp_files v) meta d0 w"
    then show ?thesis by (intro io_spec_return [OF io_spec_weaken [OF finished]]) auto
  qed
  have last: "io_fold (recover_one lib env' store) [] = (\<lambda>s. io_of (Ok s))" by (rule ext) simp
  from 1 consider "untouched final d0 w" | "journaled (il_crypto lib) (il_versions lib) p staging final d0 w"
    | "renamed lib p staging final (vp_files v) meta d0 w" | "committed lib p final (vp_files v) meta w"
    by (auto simp: crash_world_def)
  then show ?case
  proof cases
    case 1
    then show ?thesis using clean by (auto simp: untouched_def pending_installs_def intro: io_spec_of)
  next
    case 2
    then have "pending_installs (il_versions lib) (snd w) = Ok [p]"
      by (auto simp: journaled_def intro: journal_row(1))
    then show ?thesis using one 2 by (simp add: last)
  next
    case 3
    then have "pending_installs (il_versions lib) (snd w) = Ok [p]"
      by (auto simp: renamed_def intro: journal_row(1))
    then show ?thesis using one 3 by (simp add: last)
  next
    case 4
    then show ?thesis by (auto simp: committed_def pending_installs_def intro: io_spec_of)
  qed
qed

section \<open>The properties\<close>

lemma recover_clean: "tb_pending (snd w) = [] \<Longrightarrow> recover_trusted_installs lib env store [w] = (Ok \<lparr>rr_finalized = 0, rr_aborted = 0\<rparr>, [w])"
  by (simp add: recover_trusted_installs_def io_bind_def io_world_def io_of_def pending_installs_def)

lemma unsigned_stops:
  assumes "install_trusted_package plib env read_dir bytes store source limits accept [w] = (r, h)"
    and "validate_package plib limits bytes = Ok v"
    and "\<And>t. trust_get (il_crypto (pk_install plib)) (pub_id (mf_publisher (vp_manifest v))) (snd w) = Ok t \<Longrightarrow>
      verify_package_signature (pk_install plib) (vp_files v) (pub_id (mf_publisher (vp_manifest v))) t \<noteq> Ok ()"
  shows "h = [w] \<and> (\<forall>i. r \<noteq> Ok i)"
proof (cases "trust_get (il_crypto (pk_install plib)) (pub_id (mf_publisher (vp_manifest v))) (snd w)")
  case (Ok t)
  with assms(3) obtain e where "verify_package_signature (pk_install plib) (vp_files v) (pub_id (mf_publisher (vp_manifest v))) t = Err e"
    by (cases "verify_package_signature (pk_install plib) (vp_files v) (pub_id (mf_publisher (vp_manifest v))) t") auto
  with Ok assms(1,2) show ?thesis
    by (auto simp: install_trusted_package_def Let_def io_get_run)
qed (use assms(1,2) in \<open>auto simp: install_trusted_package_def Let_def io_get_run\<close>)

text \<open>A world in which the package is installed, and in which its version is accepted.\<close>

definition installed_in :: "'v install_lib \<Rightarrow> path \<Rightarrow> validated_package \<Rightarrow> world \<Rightarrow> bool" where
  "installed_in lib store v w \<longleftrightarrow>
     (\<exists>i. load_exact lib store (mf_id (vp_manifest v)) (mf_version (vp_manifest v)) (fst w) = Ok (Some i)
        \<and> ii_manifest i = vp_manifest v \<and> ii_files i = vp_files v)"

definition accepted_in :: "'v::linorder install_lib \<Rightarrow> validated_package \<Rightarrow> world \<Rightarrow> bool" where
  "accepted_in lib v w \<longleftrightarrow>
     (\<exists>a. accepted_package (il_versions lib) (pub_id (mf_publisher (vp_manifest v))) (mf_id (vp_manifest v)) (snd w) = Ok (Some a)
        \<and> il_semver lib (mf_version (vp_manifest v)) = Some (ap_version a)
        \<and> ap_digest a = signable_content_digest (il_crypto lib) (vp_files v))"

lemma complete_installed:
  assumes "installable lib v" "meta_of lib v meta" "complete lib (install_dir store (mf_id (vp_manifest v)) (mf_version (vp_manifest v))) (vp_files v) meta (fst w)"
    and "\<And>b. length (il_sha256 lib b) = 32"
  shows "load_exact lib store (mf_id (vp_manifest v)) (mf_version (vp_manifest v)) (fst w)
    = Ok (Some \<lparr>ii_dir = install_dir store (mf_id (vp_manifest v)) (mf_version (vp_manifest v)), ii_manifest = vp_manifest v,
                ii_meta = meta, ii_files = vp_files v\<rparr>)"
  using load_complete [OF assms(1-3)] assms(3,4)
  by (simp add: load_exact_def Let_def content_digest_def fs_is_dir_def complete_def flip: install_dir_def)

lemma committed_installed:
  assumes inst: "installs lib env v source version meta"
    and "committed lib (pending_of lib env v version meta) (install_dir store (mf_id (vp_manifest v)) (mf_version (vp_manifest v))) (vp_files v) meta w"
  shows "tb_pending (snd w) = [] \<and> installed_in lib store v w \<and> accepted_in lib v w"
proof -
  have "installable lib v" "meta_of lib v meta" "\<And>b. length (il_sha256 lib b) = 32"
    using inst by (auto simp: installs_def intro: staging_meta_of)
  with assms(2) complete_installed [of lib v meta store w] have "installed_in lib store v w"
    by (auto simp: committed_def installed_in_def)
  with assms show ?thesis
    by (auto simp: committed_def accepted_in_def pending_of_def Let_def installs_def)
qed

lemma package_installs:
  fixes plib :: "'v::linorder package_lib"
  assumes by_name: "\<And>a n f. pk_by_name plib a n = Some f \<Longrightarrow> Some f \<in> set a \<and> ze_name f = n"
    and hash: "\<And>b. length (il_sha256 (pk_install plib) b) = 32"
    and semver: "\<And>s x. il_semver (pk_install plib) s = Some x \<Longrightarrow> plain_segment s"
    and package: "validate_package plib limits bytes = Ok v" "bt_lookup ''install.json'' (vp_files v) = None"
    and meta: "il_parse_meta (pk_install plib) (il_encode_meta (pk_install plib) (staging_meta (pk_install plib) env v source Trusted))
      = Some (staging_meta (pk_install plib) env v source Trusted)"
    and nonce: "validate_transaction_id (ie_nonce env) = Ok ()"
  obtains version where "installs (pk_install plib) env v source version (staging_meta (pk_install plib) env v source Trusted)"
proof -
  have inst: "installable (pk_install plib) v" using by_name package by (rule package_installable)
  then obtain version where "il_semver (pk_install plib) (mf_version (vp_manifest v)) = Some version"
    by (auto simp: installable_def validate_manifest_def split: if_splits)
  with inst hash semver nonce meta that show thesis by (auto simp: installs_def)
qed

text \<open>C1: A trusted installation of a package without a file \<open>install.json\<close> at its root is atomic and recoverable, when
  its version is not installed yet and no other installation is pending: whatever world a crash leaves behind while the
  package is installed, with any faults of the operating system, a later recovery without faults ends
  without an error and with an empty journal, and then either nothing is installed and the trust
  database is the one from before, or the plugin loads with exactly the files of the package and its
  version is the accepted one.  An installation that returns successfully is of the second kind.  A package that brings
  its own \<open>install.json\<close> is accepted too, but its file is overwritten by the metadata, so that the installation may not load
  afterwards: it is excluded here.  Relied on: the archive reader finds entries by name, SHA-256 has 32 bytes, a semantic
  version is a plain path segment, the metadata is read back from its text, the transaction identifier is well formed,
  and the clock of the recovery is below \<open>2 ^ 63\<close>.\<close>

theorem interrupted_installation_recovers:
  fixes plib :: "'v::linorder package_lib"
  assumes by_name: "\<And>a n f. pk_by_name plib a n = Some f \<Longrightarrow> Some f \<in> set a \<and> ze_name f = n"
    and hash: "\<And>b. length (il_sha256 (pk_install plib) b) = 32"
    and semver: "\<And>s x. il_semver (pk_install plib) s = Some x \<Longrightarrow> plain_segment s"
    and package: "validate_package plib limits bytes = Ok v" "bt_lookup ''install.json'' (vp_files v) = None"
    and meta: "il_parse_meta (pk_install plib) (il_encode_meta (pk_install plib) (staging_meta (pk_install plib) env v source Trusted))
      = Some (staging_meta (pk_install plib) env v source Trusted)"
    and nonce: "validate_transaction_id (ie_nonce env) = Ok ()"
    and start: "fst w0 (install_dir store (mf_id (vp_manifest v)) (mf_version (vp_manifest v))) = None" "tb_pending (snd w0) = []"
    and run: "install_trusted_package plib env read_dir bytes store source limits accept [w0] = (r, h)" and crash: "w \<in> set h"
    and later: "ie_faults env' = (\<lambda>_. False)" "uint (ie_now env') < 2 ^ 63"
  shows "\<exists>report h'. recover_trusted_installs (pk_install plib) env' store [w] = (Ok report, h')
    \<and> tb_pending (snd (hd h')) = []
    \<and> (fst (hd h') (install_dir store (mf_id (vp_manifest v)) (mf_version (vp_manifest v))) = None \<and> snd (hd h') = snd w0
       \<or> installed_in (pk_install plib) store v (hd h') \<and> accepted_in (pk_install plib) v (hd h'))
    \<and> (\<forall>i. r = Ok i \<longrightarrow> installed_in (pk_install plib) store v (hd h) \<and> accepted_in (pk_install plib) v (hd h))"
proof -
  let ?lib = "pk_install plib" and ?pub = "pub_id (mf_publisher (vp_manifest v))"
  obtain version where installs: "installs ?lib env v source version (staging_meta ?lib env v source Trusted)"
    by (rule package_installs [OF by_name hash semver package meta nonce])
  let ?final = "install_dir store (mf_id (vp_manifest v)) (mf_version (vp_manifest v))"
  have untouched: "untouched ?final (snd w0) w0" using start by (simp add: untouched_def)
  note install = io_spec_run [OF install_spec [OF package(1) installs refl refl refl start(2) untouched] refl run]
  note good = committed_installed [OF installs]
  show ?thesis
  proof (cases "\<exists>t. trust_get (il_crypto ?lib) ?pub (snd w0) = Ok t \<and> verify_package_signature ?lib (vp_files v) ?pub t = Ok ()")
    case True
    then obtain t where signed: "trust_get (il_crypto ?lib) ?pub (snd w0) = Ok t" "verify_package_signature ?lib (vp_files v) ?pub t = Ok ()" by blast
    obtain r' h' where h': "recover_trusted_installs ?lib env' store [w] = (r', h')" by fastforce
    have "no_faults env'" using later(1) by (simp add: no_faults_def)
    note recover = recover_spec [OF installs refl refl refl start(2) signed this later(2)]
    have "crash_world ?lib (pending_of ?lib env v version (staging_meta ?lib env v source Trusted))
        (path_join store (''.staging-'' @ ie_nonce env)) ?final (vp_files v) (staging_meta ?lib env v source Trusted) (snd w0) w"
      using install(1) crash untouched by (auto simp: crash_world_def)
    note recovered = io_spec_run(2,3) [OF recover this h']
    from recovered(2) obtain report where report: "r' = Ok report" by (cases r') auto
    have "tb_pending (snd (hd h')) = [] \<and> (fst (hd h') ?final = None \<and> snd (hd h') = snd w0
        \<or> installed_in ?lib store v (hd h') \<and> accepted_in ?lib v (hd h'))"
      using recovered(1) [OF report]
    proof
      assume "untouched ?final (snd w0) (hd h')"
      then show ?thesis using start(2) by (simp add: untouched_def)
    qed (simp add: good)
    moreover have "installed_in ?lib store v (hd h) \<and> accepted_in ?lib v (hd h)" if "r = Ok i" for i
      using good [OF install(2) [OF that]] by simp
    ultimately show ?thesis unfolding h' report by blast
  next
    case False
    with unsigned_stops [OF run package(1)] have "h = [w0]" "\<And>i. r \<noteq> Ok i" by blast+
    with crash recover_clean [of w0 ?lib env' store] start show ?thesis by simp
  qed
qed

section \<open>Installation without trust\<close>

lemma rename_complete:
  assumes names: "file_names_ok files"
  shows "io_spec (\<lambda>w. untouched final d0 w \<and> complete lib staging files meta (fst w)) (io_fs e (fs_rename faults staging final))
           (\<lambda>_ w. complete lib final files meta (fst w) \<and> snd w = d0) (untouched final d0)
           (\<lambda>w. complete lib final files meta (fst w) \<and> snd w = d0)"
  by (rule io_spec_fs)
    (use names in \<open>auto simp: fs_rename_def untouched_def split: if_splits intro: complete_move\<close>)

lemma install_validated_spec:
  fixes lib :: "'v install_lib"
  assumes v: "installable lib v" and nonce: "validate_transaction_id (ie_nonce env) = Ok ()"
    and version: "plain_segment (mf_version (vp_manifest v))"
    and final: "final = install_dir store (mf_id (vp_manifest v)) (mf_version (vp_manifest v))"
    and meta: "meta = staging_meta lib env v source Unsigned" and start: "untouched final d0 w"
  shows "io_spec (\<lambda>u. u = w) (install_validated lib env store v source)
      (\<lambda>i u. i = \<lparr>ip_dir = final, ip_manifest = vp_manifest v, ip_meta = meta, ip_upgrade = None\<rparr>
         \<and> complete lib final (vp_files v) meta (fst u) \<and> snd u = d0)
      (untouched final d0) (\<lambda>u. untouched final d0 u \<or> complete lib final (vp_files v) meta (fst u) \<and> snd u = d0)"
proof -
  let ?staging = "path_join store (''.staging-'' @ ie_nonce env)"
  let ?safe = "\<lambda>u. untouched final d0 u \<or> complete lib final (vp_files v) meta (fst u) \<and> snd u = d0"
  have absent: "\<not> fs_exists final (fst w)" using start by (simp add: fs_exists_def untouched_def)
  note apart = package_paths [OF v nonce version refl final]
  have names: "file_names_ok (vp_files v)" using v by (simp add: installable_def)
  show ?thesis
    unfolding install_validated_def Let_def final [symmetric]
  proof (rule io_spec_get, goal_cases)
    case (1 u)
    show ?case
      unfolding 1 if_not_P [OF absent]
    proof (rule io_spec_bind [where R = "\<lambda>_. untouched final d0"], goal_cases)
      case 1
      show ?case by (rule io_spec_weaken [OF mkdir_untouched [OF apart(3)]]) (use start in auto)
    next
      case 2
      show ?case
      proof (rule io_spec_bind [where R = "\<lambda>a w. a = meta \<and> untouched final d0 w \<and> complete lib ?staging (vp_files v) meta (fst w)"],
          goal_cases)
        case 1
        show ?case by (rule io_spec_weaken [OF stage_spec [OF v apart(1,2) meta]]) auto
      next
        case (2 a)
        show ?case
        proof (rule io_spec_bind [where R = "\<lambda>_ u. a = meta \<and> complete lib final (vp_files v) meta (fst u) \<and> snd u = d0"], goal_cases)
          case 1
          show ?case
          proof (rule io_spec_fixed, rule io_spec_catch [where R = "untouched final d0"], goal_cases)
            case (1 u)
            show ?case by (rule io_spec_weaken [OF rename_complete [OF names]]) (use 1 in auto)
          next
            case (2 u e)
            show ?case by (rule io_spec_weaken [OF fail_after_removal [where P = "untouched final d0" and E = "untouched final d0"]])
              (auto intro: remove_untouched)
          qed
        qed (rule io_spec_of, auto)
      qed
    qed
  qed
qed

text \<open>C2: Installing a package without a file \<open>install.json\<close> at its root and loading it are inverse to each other: if the
  version was not
  installed, an installation that returns has created a directory that loads with exactly the
  manifest and the files of the package and the metadata it reports; and in every world that an
  installation passes through, failed or not, the version is either absent or loads completely.  A package that brings
  its own \<open>install.json\<close> is accepted too, but its file is overwritten by the metadata, so that the installation may not load
  afterwards: it is excluded here.  Relied on: the archive reader finds entries by name, SHA-256 has 32 bytes, a semantic
  version is a plain path segment, the metadata is read back from its text, and the transaction identifier is well
  formed.\<close>

theorem installed_package_loads_back:
  fixes plib :: "'v::linorder package_lib"
  assumes by_name: "\<And>a n f. pk_by_name plib a n = Some f \<Longrightarrow> Some f \<in> set a \<and> ze_name f = n"
    and hash: "\<And>b. length (il_sha256 (pk_install plib) b) = 32"
    and semver: "\<And>s x. il_semver (pk_install plib) s = Some x \<Longrightarrow> plain_segment s"
    and package: "validate_package plib limits bytes = Ok v" "bt_lookup ''install.json'' (vp_files v) = None"
    and meta: "il_parse_meta (pk_install plib) (il_encode_meta (pk_install plib) (staging_meta (pk_install plib) env v source Unsigned))
      = Some (staging_meta (pk_install plib) env v source Unsigned)"
    and nonce: "validate_transaction_id (ie_nonce env) = Ok ()"
    and start: "fst w0 (install_dir store (mf_id (vp_manifest v)) (mf_version (vp_manifest v))) = None"
    and run: "install_package plib env bytes store source limits [w0] = (r, h)"
  shows "(\<forall>ip. r = Ok ip \<longrightarrow>
      load_exact (pk_install plib) store (mf_id (vp_manifest v)) (mf_version (vp_manifest v)) (fst (hd h))
        = Ok (Some \<lparr>ii_dir = ip_dir ip, ii_manifest = ip_manifest ip, ii_meta = ip_meta ip, ii_files = vp_files v\<rparr>)
      \<and> ip_manifest ip = vp_manifest v)
    \<and> (\<forall>w \<in> set h. snd w = snd w0
        \<and> (fst w (install_dir store (mf_id (vp_manifest v)) (mf_version (vp_manifest v))) = None \<or> installed_in (pk_install plib) store v w))"
proof -
  let ?lib = "pk_install plib" and ?final = "install_dir store (mf_id (vp_manifest v)) (mf_version (vp_manifest v))"
  let ?meta = "staging_meta ?lib env v source Unsigned"
  have v: "installable ?lib v" using by_name package by (rule package_installable)
  then have "plain_segment (mf_version (vp_manifest v))"
    using semver by (auto simp: installable_def validate_manifest_def split: if_splits)
  note spec = install_validated_spec [OF v nonce this refl refl, where ?d0.0 = "snd w0" and w = w0 and source = source]
  have run: "install_validated ?lib env store v source [w0] = (r, h)" using run package(1) by (simp add: install_package_def)
  have "untouched ?final (snd w0) w0" using start by (simp add: untouched_def)
  note result = io_spec_run [OF spec [OF this] refl run]
  note loads = complete_installed [OF v staging_meta_of [OF meta] _ hash]
  have "snd w = snd w0 \<and> (fst w ?final = None \<or> installed_in ?lib store v w)" if "w \<in> set h" for w
    using result(1) that loads start by (fastforce simp: installed_in_def untouched_def)
  with result(2) loads show ?thesis by auto
qed

section \<open>A concrete installation\<close>

definition sample_env :: install_env where
  "sample_env = \<lparr>ie_faults = (\<lambda>_. False), ie_now = 7, ie_nonce = ''12-34''\<rparr>"

text \<open>The sample library, with a metadata reader for the one metadata of the example.\<close>

definition sample_trust_lib :: "installation_trust \<Rightarrow> nat install_lib" where
  "sample_trust_lib trust =
     sample_install_lib\<lparr>il_parse_meta := (\<lambda>_. Some (staging_meta sample_install_lib sample_env sample_package ''clock'' trust))\<rparr>"

definition sample_plib :: "installation_trust \<Rightarrow> nat package_lib" where
  "sample_plib trust = sample_package_lib (sample_trust_lib trust) sample_contents"

definition sample_world :: world where
  "sample_world = (Map.empty, sample_accepted_db)"

lemma sample_plib_simps [simp]: "pk_install (sample_plib trust) = sample_trust_lib trust" "pk_by_name (sample_plib trust) = sample_by_name"
  "il_sha256 (sample_trust_lib trust) b = sample_digest CHR ''m''" "il_semver (sample_trust_lib trust) = example_semver"
  by (simp_all add: sample_plib_def sample_package_lib_def sample_trust_lib_def sample_install_lib_def)

lemma sample_plib_facts:
  "validate_package (sample_plib trust) default_package_limits [] = Ok sample_package"
  "bt_lookup ''install.json'' (vp_files sample_package) = None" "validate_transaction_id (ie_nonce sample_env) = Ok ()"
  "il_parse_meta (sample_trust_lib trust) (il_encode_meta (sample_trust_lib trust) (staging_meta (sample_trust_lib trust) sample_env sample_package ''clock'' trust))
     = Some (staging_meta (sample_trust_lib trust) sample_env sample_package ''clock'' trust)"
  "example_semver s = Some x \<Longrightarrow> plain_segment s" "length (sample_digest c) = 32" "uint (ie_now sample_env) < 2 ^ 63"
proof -
  show "validate_package (sample_plib trust) default_package_limits [] = Ok sample_package"
    unfolding sample_plib_def by (rule sample_package_valid) (simp_all add: sample_trust_lib_def sample_install_lib_def)
  show "validate_transaction_id (ie_nonce sample_env) = Ok ()"
    by (simp add: validate_transaction_id_def sample_env_def ascii_eval)
  show "example_semver s = Some x \<Longrightarrow> plain_segment s"
    by (auto simp: example_semver_def plain_segment_def split: if_splits)
qed (simp_all add: sample_trust_lib_def sample_package_def staging_meta_def Let_def sample_digest_def sample_env_def)

lemma interrupted_installation_recovers_witness:
  "\<exists>report h'. recover_trusted_installs (sample_trust_lib Trusted) sample_env [''store'']
       [hd (snd (install_trusted_package (sample_plib Trusted) sample_env (\<lambda>_ _. None) [] [''store''] ''clock''
              default_package_limits False [sample_world]))] = (Ok report, h')
     \<and> tb_pending (snd (hd h')) = []"
proof -
  let ?run = "install_trusted_package (sample_plib Trusted) sample_env (\<lambda>_ _. None) [] [''store''] ''clock'' default_package_limits False"
  obtain r h where run: "?run [sample_world] = (r, h)" by fastforce
  obtain version where inst: "installs (pk_install (sample_plib Trusted)) sample_env sample_package ''clock'' version
      (staging_meta (pk_install (sample_plib Trusted)) sample_env sample_package ''clock'' Trusted)"
    by (rule package_installs [OF _ _ _ sample_plib_facts(1,2)]) (use sample_by_name sample_plib_facts in auto)
  have start: "fst sample_world (install_dir [''store''] (mf_id (vp_manifest sample_package)) (mf_version (vp_manifest sample_package))) = None"
    "tb_pending (snd sample_world) = []"
    by (simp_all add: sample_world_def sample_accepted_db_def)
  have "h \<noteq> []"
    by (rule io_spec_history [OF install_spec [OF sample_plib_facts(1) inst refl refl refl start(2)] refl run])
      (simp add: untouched_def start)
  then have "hd h \<in> set h" by simp
  moreover have "ie_faults sample_env = (\<lambda>_. False)" by (simp add: sample_env_def)
  ultimately have "\<exists>report h'. recover_trusted_installs (sample_trust_lib Trusted) sample_env [''store''] [hd h] = (Ok report, h')
      \<and> tb_pending (snd (hd h')) = []"
    using interrupted_installation_recovers [OF _ _ _ sample_plib_facts(1,2) _ sample_plib_facts(3) start run _ _ sample_plib_facts(7),
        of "hd h"] sample_by_name sample_plib_facts(4-6) by fastforce
  then show ?thesis by (simp only: run snd_conv)
qed

lemma installed_package_loads_back_witness:
  "snd (hd (snd (install_package (sample_plib Unsigned) sample_env [] [''store''] ''clock'' default_package_limits [sample_world])))
     = sample_accepted_db"
proof -
  obtain r h where run: "install_package (sample_plib Unsigned) sample_env [] [''store''] ''clock'' default_package_limits [sample_world]
      = (r, h)" by fastforce
  have start: "fst sample_world (install_dir [''store''] (mf_id (vp_manifest sample_package)) (mf_version (vp_manifest sample_package))) = None"
    by (simp add: sample_world_def)
  have inst: "installable (sample_trust_lib Unsigned) sample_package"
    using package_installable [of "sample_plib Unsigned", OF _ sample_plib_facts(1,2)] sample_by_name by simp
  have plain: "plain_segment (mf_version (vp_manifest sample_package))"
    by (rule sample_plib_facts(5) [of _ 1]) (simp add: sample_package_def example_manifest_def example_semver_def)
  have run': "install_validated (sample_trust_lib Unsigned) sample_env [''store''] sample_package ''clock'' [sample_world] = (r, h)"
    using run by (simp add: install_package_def sample_plib_facts(1))
  have "h \<noteq> []"
    by (rule io_spec_history [OF install_validated_spec [OF inst sample_plib_facts(3) plain refl refl] refl run'])
      (simp add: untouched_def start)
  then have "hd h \<in> set h" by simp
  moreover have "\<forall>w \<in> set h. snd w = snd sample_world"
    using installed_package_loads_back [OF _ _ _ sample_plib_facts(1,2) _ sample_plib_facts(3) start run] sample_by_name
      sample_plib_facts(4-6) by fastforce
  ultimately have "snd (hd h) = sample_accepted_db" by (auto simp: sample_world_def)
  then show ?thesis by (simp only: run snd_conv)
qed

end
