(* ===== verification/Host_State.thy ===== *)
theory Host_State
  imports Broker Ui_Schema
begin

text \<open>
  The host side of one plugin instance, \<open>floatile-runtime/src/state.rs\<close> and
  \<open>operation.rs\<close>: every function the plugin may import, over the broker of the instance and the
  state of its user interface, and the bridge that routes the end of an operation to the instance.

  \<open>host_lib\<close> holds \<open>serde_json\<close>: reading a text and writing a value.  The bounded channels of
  \<open>tokio\<close> are a queue with a capacity.  The lemmas show that every state a plugin can reach, and
  every state that is shown, conforms to the schema and fits the size limit, how a refused patch
  leaves the state, and how many patches a second are processed.
\<close>

section \<open>Bounded channels\<close>

record 'a channel =
  ch_capacity :: nat
  ch_queue :: "'a list"
  ch_closed :: bool

datatype send_error = SendFull | SendClosed

definition channel_new :: "nat \<Rightarrow> 'a channel" where
  "channel_new n = \<lparr>ch_capacity = n, ch_queue = [], ch_closed = False\<rparr>"

definition try_send :: "'a \<Rightarrow> 'a channel \<Rightarrow> (unit, send_error) result \<times> 'a channel" where
  "try_send x ch =
     (if ch_closed ch then (Err SendClosed, ch)
      else if ch_capacity ch \<le> length (ch_queue ch) then (Err SendFull, ch)
      else (Ok (), ch\<lparr>ch_queue := ch_queue ch @ [x]\<rparr>))"

definition try_recv :: "'a channel \<Rightarrow> 'a option \<times> 'a channel" where
  "try_recv ch = (case ch_queue ch of [] \<Rightarrow> (None, ch) | x # xs \<Rightarrow> (Some x, ch\<lparr>ch_queue := xs\<rparr>))"

section \<open>State\<close>

definition MAX_STATE_BYTES :: nat where
  "MAX_STATE_BYTES = 64 * 1024"

definition MAX_PATCH_BYTES :: nat where
  "MAX_PATCH_BYTES = 16 * 1024"

definition MAX_UPDATE_RATE_PER_SEC :: u32 where
  "MAX_UPDATE_RATE_PER_SEC = 30"

record ui_update =
  up_instance :: u64
  up_seq :: u64
  up_state :: json

record ui_state =
  us_state :: json
  us_schema :: json_schema
  us_tx :: "ui_update channel"
  us_seq :: u64
  us_window_start :: nat
  us_window_count :: u32

record host_state =
  hs_broker :: broker
  hs_max_memory :: nat
  hs_ui :: ui_state
  hs_instance :: u64

record host_lib =
  ho_parse :: "string \<Rightarrow> json option"
  ho_to_vec :: "json \<Rightarrow> string option"

definition host_new :: "nat \<Rightarrow> u64 \<Rightarrow> broker \<Rightarrow> nat \<Rightarrow> json \<Rightarrow> json_schema \<Rightarrow> ui_update channel \<Rightarrow> host_state" where
  "host_new now instance b max_memory initial schema tx =
     \<lparr>hs_broker = b, hs_max_memory = max_memory,
      hs_ui = \<lparr>us_state = initial, us_schema = schema, us_tx = tx, us_seq = 0, us_window_start = now, us_window_count = 0\<rparr>,
      hs_instance = instance\<rparr>"

section \<open>The errors of the interface\<close>

text \<open>The text of a schema error is its constructor.\<close>

datatype wit_ui_error =
    UiNotAllowed
  | UiUpdateRateExceeded
  | UiPatchTooLarge
  | UiInvalidJson
  | UiSchemaMismatch ui_error
  | UiStateTooLarge
  | UiQueueFull
  | UiInternal

datatype wit_log_error = WitLogRateExceeded | WitLogMessageTooLarge

datatype wit_timer_error =
    WitTimerNotAllowed | WitTimerBudgetExceeded | WitTimerInvalidDelay | WitTimerInvalidTimerId | WitTimerUnavailable

datatype wit_storage_error =
    WitStorageNotAllowed | WitStorageInvalidKey | WitStorageQuotaExceeded | WitStorageUnavailable | WitStorageInternal

datatype wit_metrics_error = WitMetricsNotAllowed | WitMetricsRateExceeded | WitMetricsUnavailable

datatype wit_theme_error = WitThemeNotAllowed | WitThemeUnknownToken | WitThemeInvalidSubscription | WitThemeUnavailable

datatype wit_operation_error =
    WitOpNotAllowed | WitOpInvalidInput | WitOpQueueFull | WitOpInvalidDeadline | WitOpUnavailable | WitOpInternal
  | WitOpInvalidOperationId | WitOpResultNotAvailable | WitOpCapabilityMismatch | WitOpNotActive

fun map_log :: "log_error \<Rightarrow> wit_log_error" where
  "map_log LogRateExceeded = WitLogRateExceeded"
| "map_log MessageTooLarge = WitLogMessageTooLarge"

fun map_timer :: "timer_error \<Rightarrow> wit_timer_error" where
  "map_timer TimerNotAllowed = WitTimerNotAllowed"
| "map_timer BudgetExceeded = WitTimerBudgetExceeded"
| "map_timer InvalidDelay = WitTimerInvalidDelay"
| "map_timer InvalidTimerId = WitTimerInvalidTimerId"
| "map_timer TimerUnavailable = WitTimerUnavailable"

fun map_storage :: "storage_error \<Rightarrow> wit_storage_error" where
  "map_storage StorageNotAllowed = WitStorageNotAllowed"
| "map_storage InvalidKey = WitStorageInvalidKey"
| "map_storage StorageQuotaExceeded = WitStorageQuotaExceeded"
| "map_storage StorageUnavailable = WitStorageUnavailable"
| "map_storage StorageInternal = WitStorageInternal"

fun map_operation_submit :: "operation_submit_error \<Rightarrow> wit_operation_error" where
  "map_operation_submit (SubmitPermissionDenied reason) = WitOpNotAllowed"
| "map_operation_submit SubmitInvalidInput = WitOpInvalidInput"
| "map_operation_submit SubmitQueueFull = WitOpQueueFull"
| "map_operation_submit InvalidDeadline = WitOpInvalidDeadline"
| "map_operation_submit SubmitUnavailable = WitOpUnavailable"
| "map_operation_submit IdExhausted = WitOpInternal"

fun map_operation_take :: "operation_take_error \<Rightarrow> wit_operation_error" where
  "map_operation_take NotAvailable = WitOpResultNotAvailable"
| "map_operation_take CapabilityMismatch = WitOpCapabilityMismatch"
| "map_operation_take TypeMismatch = WitOpCapabilityMismatch"
| "map_operation_take (TakePermissionDenied reason) = WitOpNotAllowed"
| "map_operation_take TakeUnavailable = WitOpUnavailable"

fun map_operation_cancel :: "operation_cancel_error \<Rightarrow> wit_operation_error" where
  "map_operation_cancel NotActive = WitOpNotActive"
| "map_operation_cancel (CancelPermissionDenied reason) = WitOpNotAllowed"
| "map_operation_cancel CancelUnavailable = WitOpUnavailable"

fun map_metrics :: "metrics_error \<Rightarrow> wit_metrics_error" where
  "map_metrics MetricsNotAllowed = WitMetricsNotAllowed"
| "map_metrics MetricsRateExceeded = WitMetricsRateExceeded"
| "map_metrics MetricsUnavailable = WitMetricsUnavailable"

fun map_theme :: "theme_error \<Rightarrow> wit_theme_error" where
  "map_theme ThemeNotAllowed = WitThemeNotAllowed"
| "map_theme UnknownToken = WitThemeUnknownToken"
| "map_theme InvalidSubscription = WitThemeInvalidSubscription"
| "map_theme ThemeUnavailable = WitThemeUnavailable"

section \<open>The user interface\<close>

text \<open>The rate limit; every call that passes it counts, whatever becomes of the patch.\<close>

definition ui_admit :: "nat \<Rightarrow> ui_state \<Rightarrow> bool \<times> ui_state" where
  "ui_admit now u =
     (let u1 = (if seconds 1 \<le> now - us_window_start u then u\<lparr>us_window_start := now, us_window_count := 0\<rparr> else u)
      in if MAX_UPDATE_RATE_PER_SEC \<le> us_window_count u1 then (False, u1)
         else (True, u1\<lparr>us_window_count := us_window_count u1 + 1\<rparr>))"

text \<open>The patch applied to a copy of the state.\<close>

definition patched_state :: "host_lib \<Rightarrow> string \<Rightarrow> ui_state \<Rightarrow> (json, wit_ui_error) result" where
  "patched_state lib patch_json u =
     (if MAX_PATCH_BYTES < length patch_json then Err UiPatchTooLarge
      else try_bind (ok_or UiInvalidJson (ho_parse lib patch_json)) (\<lambda>patch.
        if as_object patch = None then Err UiInvalidJson
        else let next_state = merge_patch (us_state u) patch in
          try_bind (map_err UiSchemaMismatch (validate_value (us_schema u) next_state 0)) (\<lambda>_.
          try_bind (ok_or UiInternal (ho_to_vec lib next_state)) (\<lambda>bytes.
          if MAX_STATE_BYTES < length bytes then Err UiStateTooLarge else Ok next_state))))"

definition publish_state :: "u64 \<Rightarrow> json \<Rightarrow> ui_state \<Rightarrow> (unit, wit_ui_error) result \<times> ui_state" where
  "publish_state inst next_state u =
     (let u1 = u\<lparr>us_seq := us_seq u + 1, us_state := next_state\<rparr>
      in case try_send \<lparr>up_instance = inst, up_seq = us_seq u1, up_state = next_state\<rparr> (us_tx u1) of
           (res, tx) \<Rightarrow> (map_err (\<lambda>_. UiQueueFull) res, u1\<lparr>us_tx := tx\<rparr>))"

definition host_update_state ::
  "host_lib \<Rightarrow> nat \<Rightarrow> string \<Rightarrow> host_state \<Rightarrow> (unit, wit_ui_error) result \<times> host_state"
where
  "host_update_state lib now patch_json s =
     (case authorize UiUpdateState None (''ui update-state patch='' @ decimal (length patch_json) @ ''B'') (hs_broker s) of
        (Err _, b) \<Rightarrow> (Err UiNotAllowed, s\<lparr>hs_broker := b\<rparr>)
      | (Ok _, b) \<Rightarrow>
          (case ui_admit now (hs_ui s) of
             (False, u) \<Rightarrow> (Err UiUpdateRateExceeded, s\<lparr>hs_broker := b, hs_ui := u\<rparr>)
           | (True, u) \<Rightarrow>
               (case patched_state lib patch_json u of
                  Err e \<Rightarrow> (Err e, s\<lparr>hs_broker := b, hs_ui := u\<rparr>)
                | Ok next_state \<Rightarrow>
                    (case publish_state (hs_instance s) next_state u of
                       (res, u') \<Rightarrow> (res, s\<lparr>hs_broker := b, hs_ui := u'\<rparr>)))))"

section \<open>The other imports\<close>

text \<open>\<open>self.broker.f().map_err(g)\<close>\<close>

definition on_broker :: "('e \<Rightarrow> 'f) \<Rightarrow> (broker \<Rightarrow> ('a, 'e) result \<times> broker) \<Rightarrow> host_state \<Rightarrow> ('a, 'f) result \<times> host_state" where
  "on_broker conv f s = (case f (hs_broker s) of (res, b) \<Rightarrow> (map_err conv res, s\<lparr>hs_broker := b\<rparr>))"

text \<open>\<open>OperationId::new(id).ok_or(InvalidOperationId)?\<close>\<close>

definition with_operation_id ::
  "u64 \<Rightarrow> (operation_id \<Rightarrow> host_state \<Rightarrow> ('a, wit_operation_error) result \<times> host_state)
     \<Rightarrow> host_state \<Rightarrow> ('a, wit_operation_error) result \<times> host_state"
where
  "with_operation_id oid f s = (if oid = 0 then (Err WitOpInvalidOperationId, s) else f oid s)"

definition host_log :: "nat \<Rightarrow> log_level \<Rightarrow> string \<Rightarrow> host_state \<Rightarrow> (unit, wit_log_error) result \<times> host_state" where
  "host_log now level message = on_broker map_log (broker_log now level message)"

definition host_clock_now :: "nat option \<Rightarrow> host_state \<Rightarrow> clock_snapshot \<times> host_state" where
  "host_clock_now since_epoch s = (case broker_clock_now since_epoch (hs_broker s) of (t, b) \<Rightarrow> (t, s\<lparr>hs_broker := b\<rparr>))"

definition host_timer_schedule :: "nat \<Rightarrow> u64 \<Rightarrow> host_state \<Rightarrow> (u32, wit_timer_error) result \<times> host_state" where
  "host_timer_schedule now delay_ms = on_broker map_timer (broker_timer_schedule now delay_ms)"

definition host_timer_cancel :: "u32 \<Rightarrow> host_state \<Rightarrow> (unit, wit_timer_error) result \<times> host_state" where
  "host_timer_cancel tid = on_broker map_timer (broker_timer_cancel tid)"

definition host_timer_complete :: "u32 \<Rightarrow> host_state \<Rightarrow> host_state" where
  "host_timer_complete tid s = s\<lparr>hs_broker := broker_timer_complete tid (hs_broker s)\<rparr>"

definition host_storage_get :: "string \<Rightarrow> host_state \<Rightarrow> (string option, wit_storage_error) result \<times> host_state" where
  "host_storage_get key = on_broker map_storage (broker_storage_get key)"

text \<open>\<open>None\<close> is an arithmetic panic of the storage.\<close>

definition host_storage_set :: "string \<Rightarrow> string \<Rightarrow> host_state \<Rightarrow> ((unit, wit_storage_error) result \<times> host_state) option" where
  "host_storage_set key val s =
     map_option (\<lambda>(res, b). (map_err map_storage res, s\<lparr>hs_broker := b\<rparr>)) (broker_storage_set key val (hs_broker s))"

definition host_storage_delete :: "string \<Rightarrow> host_state \<Rightarrow> ((unit, wit_storage_error) result \<times> host_state) option" where
  "host_storage_delete key s =
     map_option (\<lambda>(res, b). (map_err map_storage res, s\<lparr>hs_broker := b\<rparr>)) (broker_storage_delete key (hs_broker s))"

definition host_submit_get :: "nat \<Rightarrow> string \<Rightarrow> u64 \<Rightarrow> host_state \<Rightarrow> (operation_id, wit_operation_error) result \<times> host_state" where
  "host_submit_get now key timeout_ms = on_broker map_operation_submit (submit_storage_get now key (millis (unat timeout_ms)))"

definition host_take_get_result :: "u64 \<Rightarrow> host_state \<Rightarrow> (string option, wit_operation_error) result \<times> host_state" where
  "host_take_get_result oid = with_operation_id oid (\<lambda>oid. on_broker map_operation_take (take_storage_get_result oid))"

definition host_http_submit ::
  "'u url_lib \<Rightarrow> header_lib \<Rightarrow> nat \<Rightarrow> string \<Rightarrow> u64 \<Rightarrow> query_param list \<Rightarrow> host_state
     \<Rightarrow> (operation_id, wit_operation_error) result \<times> host_state"
where
  "host_http_submit ul hl now template_id connection query =
     on_broker map_operation_submit (submit_https ul hl now template_id connection query)"

definition host_http_take_result :: "u64 \<Rightarrow> host_state \<Rightarrow> (http_response, wit_operation_error) result \<times> host_state" where
  "host_http_take_result oid = with_operation_id oid (\<lambda>oid. on_broker map_operation_take (take_https_result oid))"

definition host_operation_cancel :: "u64 \<Rightarrow> host_state \<Rightarrow> (unit, wit_operation_error) result \<times> host_state" where
  "host_operation_cancel oid = with_operation_id oid (\<lambda>oid. on_broker map_operation_cancel (cancel_operation_by_id oid))"

definition host_cpu_percent ::
  "(rat \<Rightarrow> rat) \<Rightarrow> nat \<Rightarrow> nat \<Rightarrow> process_sample option \<Rightarrow> host_state \<Rightarrow> (rat, wit_metrics_error) result \<times> host_state"
where
  "host_cpu_percent rnd now now' sample = on_broker map_metrics (broker_metrics_cpu_percent rnd now now' sample)"

definition host_memory :: "process_sample option \<Rightarrow> host_state \<Rightarrow> (memory_snapshot, wit_metrics_error) result \<times> host_state" where
  "host_memory sample = on_broker map_metrics (broker_metrics_memory sample)"

definition host_get_token :: "string \<Rightarrow> host_state \<Rightarrow> (string option, wit_theme_error) result \<times> host_state" where
  "host_get_token name = on_broker map_theme (broker_theme_get_token name)"

definition host_subscribe :: "host_state \<Rightarrow> (u32, wit_theme_error) result \<times> host_state" where
  "host_subscribe = on_broker map_theme broker_theme_subscribe"

definition host_unsubscribe :: "u32 \<Rightarrow> host_state \<Rightarrow> (unit, wit_theme_error) result \<times> host_state" where
  "host_unsubscribe sid = on_broker map_theme (broker_theme_unsubscribe sid)"

section \<open>The completion bridge\<close>

record completion_bridge =
  cb_owner :: operation_owner
  cb_channel :: "operation_completion channel"

definition bridge_new :: "operation_owner \<Rightarrow> nat \<Rightarrow> completion_bridge option" where
  "bridge_new owner capacity =
     (if capacity = 0 then None else Some \<lparr>cb_owner = owner, cb_channel = channel_new capacity\<rparr>)"

definition try_route ::
  "completion_bridge \<Rightarrow> operation_completion \<Rightarrow> broker \<Rightarrow> completion_disposition \<times> completion_bridge \<times> broker"
where
  "try_route br completion b =
     (if \<not> is_current_for completion (cb_owner br)
      then (StaleGeneration, br, snd (discard_operation_result (oc_id completion)
              (snd (audit_operation_completion completion StaleGeneration b))))
      else case try_send completion (cb_channel br) of
             (Ok _, ch) \<Rightarrow> (Delivered, br\<lparr>cb_channel := ch\<rparr>, snd (audit_operation_completion completion Delivered b))
           | (Err SendFull, ch) \<Rightarrow>
               (DispositionQueueFull, br\<lparr>cb_channel := ch\<rparr>, snd (discard_operation_result (oc_id completion)
                  (snd (audit_operation_completion completion DispositionQueueFull b))))
           | (Err SendClosed, ch) \<Rightarrow>
               (ActorClosed, br\<lparr>cb_channel := ch\<rparr>, snd (discard_operation_result (oc_id completion)
                  (snd (audit_operation_completion completion ActorClosed b)))))"

section \<open>Runs of an instance\<close>

datatype host_call =
    HostUpdateState nat string
  | HostLog nat log_level string
  | HostClockNow "nat option"
  | HostTimerSchedule nat u64
  | HostTimerCancel u32
  | HostStorageGet string
  | HostStorageSet string string
  | HostStorageDelete string
  | HostSubmitGet nat string u64
  | HostTakeGetResult u64
  | HostHttpSubmit nat string u64 "query_param list"
  | HostHttpTakeResult u64
  | HostOperationCancel u64
  | HostCpuPercent nat nat "process_sample option"
  | HostMemory "process_sample option"
  | HostGetToken string
  | HostSubscribe
  | HostUnsubscribe u32

text \<open>The third-party code the imports use.\<close>

record 'u guest_lib =
  gl_host :: host_lib
  gl_url :: "'u url_lib"
  gl_headers :: header_lib
  gl_round :: "rat \<Rightarrow> rat"

text \<open>The next state of a call; \<open>None\<close> is a panic.\<close>

fun host_exec :: "'u guest_lib \<Rightarrow> host_call \<Rightarrow> host_state \<Rightarrow> host_state option" where
  "host_exec l (HostUpdateState now patch) s = Some (snd (host_update_state (gl_host l) now patch s))"
| "host_exec l (HostLog now level msg) s = Some (snd (host_log now level msg s))"
| "host_exec l (HostClockNow t) s = Some (snd (host_clock_now t s))"
| "host_exec l (HostTimerSchedule now delay) s = Some (snd (host_timer_schedule now delay s))"
| "host_exec l (HostTimerCancel tid) s = Some (snd (host_timer_cancel tid s))"
| "host_exec l (HostStorageGet key) s = Some (snd (host_storage_get key s))"
| "host_exec l (HostStorageSet key val) s = map_option snd (host_storage_set key val s)"
| "host_exec l (HostStorageDelete key) s = map_option snd (host_storage_delete key s)"
| "host_exec l (HostSubmitGet now key timeout) s = Some (snd (host_submit_get now key timeout s))"
| "host_exec l (HostTakeGetResult oid) s = Some (snd (host_take_get_result oid s))"
| "host_exec l (HostHttpSubmit now t c q) s = Some (snd (host_http_submit (gl_url l) (gl_headers l) now t c q s))"
| "host_exec l (HostHttpTakeResult oid) s = Some (snd (host_http_take_result oid s))"
| "host_exec l (HostOperationCancel oid) s = Some (snd (host_operation_cancel oid s))"
| "host_exec l (HostCpuPercent now now' sample) s = Some (snd (host_cpu_percent (gl_round l) now now' sample s))"
| "host_exec l (HostMemory sample) s = Some (snd (host_memory sample s))"
| "host_exec l (HostGetToken name) s = Some (snd (host_get_token name s))"
| "host_exec l HostSubscribe s = Some (snd (host_subscribe s))"
| "host_exec l (HostUnsubscribe sid) s = Some (snd (host_unsubscribe sid s))"

text \<open>What happens to an instance: a call of the plugin, the end of a timer, and the shell that
  receives an update or closes its end of the channel.  The updates received are recorded.\<close>

datatype host_event = GuestCalls host_call | TimerCompleted u32 | ShellReceives | ShellCloses

fun host_step :: "'u guest_lib \<Rightarrow> host_event \<Rightarrow> host_state \<times> ui_update list \<Rightarrow> (host_state \<times> ui_update list) option" where
  "host_step l (GuestCalls c) (s, got) = map_option (\<lambda>s'. (s', got)) (host_exec l c s)"
| "host_step l (TimerCompleted tid) (s, got) = Some (host_timer_complete tid s, got)"
| "host_step l ShellReceives (s, got) =
     (case try_recv (us_tx (hs_ui s)) of
        (None, tx) \<Rightarrow> Some (s, got)
      | (Some u, tx) \<Rightarrow> Some (s\<lparr>hs_ui := (hs_ui s)\<lparr>us_tx := tx\<rparr>\<rparr>, got @ [u]))"
| "host_step l ShellCloses (s, got) =
     Some (s\<lparr>hs_ui := (hs_ui s)\<lparr>us_tx := (us_tx (hs_ui s))\<lparr>ch_closed := True\<rparr>\<rparr>\<rparr>, got)"

fun host_run :: "'u guest_lib \<Rightarrow> host_event list \<Rightarrow> host_state \<times> ui_update list \<Rightarrow> (host_state \<times> ui_update list) option" where
  "host_run l [] c = Some c"
| "host_run l (e # es) c = Option.bind (host_step l e c) (host_run l es)"

lemmas host_call_defs = host_log_def host_clock_now_def host_timer_schedule_def host_timer_cancel_def host_storage_get_def
  host_submit_get_def host_take_get_result_def host_http_submit_def host_http_take_result_def host_operation_cancel_def
  host_cpu_percent_def host_memory_def host_get_token_def host_subscribe_def host_unsubscribe_def
  host_storage_set_def host_storage_delete_def

section \<open>What a patch does\<close>

lemma on_broker_ui [simp]:
  "hs_ui (snd (on_broker conv f s)) = hs_ui s" "hs_instance (snd (on_broker conv f s)) = hs_instance s"
  by (simp_all add: on_broker_def split: prod.split)

lemma with_operation_id_ui [simp]:
  "hs_ui (snd (with_operation_id oid (\<lambda>oid. on_broker conv (f oid)) s)) = hs_ui s"
  "hs_instance (snd (with_operation_id oid (\<lambda>oid. on_broker conv (f oid)) s)) = hs_instance s"
  by (simp_all add: with_operation_id_def)

text \<open>Only \<open>update_state\<close> touches the user interface.\<close>

lemma host_exec_ui:
  "host_exec l c s = Some s' \<Longrightarrow> (\<And>now patch. c \<noteq> HostUpdateState now patch) \<Longrightarrow> hs_ui s' = hs_ui s \<and> hs_instance s' = hs_instance s"
  by (cases c) (auto simp: host_call_defs split: prod.splits)

lemma ui_admit_keeps [simp]:
  "us_state (snd (ui_admit now u)) = us_state u" "us_schema (snd (ui_admit now u)) = us_schema u"
  "us_tx (snd (ui_admit now u)) = us_tx u" "us_seq (snd (ui_admit now u)) = us_seq u"
  by (simp_all add: ui_admit_def Let_def)

lemma ui_admitD:
  assumes "ui_admit now u = (ok, u')"
  shows "us_state u' = us_state u" "us_schema u' = us_schema u" "us_tx u' = us_tx u" "us_seq u' = us_seq u"
  using ui_admit_keeps [of now u] assms by simp_all

text \<open>The size limit of a state.\<close>

definition state_fits :: "host_lib \<Rightarrow> json \<Rightarrow> bool" where
  "state_fits lib v \<longleftrightarrow> (\<exists>b. ho_to_vec lib v = Some b \<and> length b \<le> MAX_STATE_BYTES)"

lemma patched_state_Ok:
  "patched_state lib p u = Ok next_state \<longleftrightarrow>
     length p \<le> MAX_PATCH_BYTES
     \<and> (\<exists>m. ho_parse lib p = Some (JObj m) \<and> next_state = merge_patch (us_state u) (JObj m))
     \<and> validate_value (us_schema u) next_state 0 = Ok () \<and> state_fits lib next_state"
  (is "?lhs \<longleftrightarrow> ?rhs")
proof
  show "?lhs \<Longrightarrow> ?rhs" by (auto simp: patched_state_def state_fits_def Let_def not_less split: if_splits)
  assume ?rhs
  then obtain m b where "length p \<le> MAX_PATCH_BYTES" "ho_parse lib p = Some (JObj m)" "next_state = merge_patch (us_state u) (JObj m)"
    "validate_value (us_schema u) next_state 0 = Ok ()" "ho_to_vec lib next_state = Some b" "length b \<le> MAX_STATE_BYTES"
    by (auto simp: state_fits_def)
  then show ?lhs by (simp add: patched_state_def not_less)
qed

text \<open>The outcomes of \<open>update_state\<close>.\<close>

lemma host_update_cases:
  assumes "host_update_state lib now p s = (res, s')"
  obtains (refused) e where "res = Err e" "e \<noteq> UiQueueFull" "us_state (hs_ui s') = us_state (hs_ui s)"
      "us_schema (hs_ui s') = us_schema (hs_ui s)" "us_tx (hs_ui s') = us_tx (hs_ui s)" "us_seq (hs_ui s') = us_seq (hs_ui s)"
      "hs_instance s' = hs_instance s"
  | (applied) m where "ho_parse lib p = Some (JObj m)" "us_state (hs_ui s') = merge_patch (us_state (hs_ui s)) (JObj m)"
      "us_schema (hs_ui s') = us_schema (hs_ui s)" "us_seq (hs_ui s') = us_seq (hs_ui s) + 1" "hs_instance s' = hs_instance s"
      "validate_value (us_schema (hs_ui s)) (us_state (hs_ui s')) 0 = Ok ()" "state_fits lib (us_state (hs_ui s'))"
      "(res, us_tx (hs_ui s')) = (case try_send \<lparr>up_instance = hs_instance s, up_seq = us_seq (hs_ui s'), up_state = us_state (hs_ui s')\<rparr>
         (us_tx (hs_ui s)) of (r, tx) \<Rightarrow> (map_err (\<lambda>_. UiQueueFull) r, tx))"
proof -
  obtain r b where auth: "authorize UiUpdateState None (''ui update-state patch='' @ decimal (length p) @ ''B'') (hs_broker s) = (r, b)"
    by fastforce
  obtain ok u where admit: "ui_admit now (hs_ui s) = (ok, u)" by fastforce
  show thesis
  proof (cases "r = Ok () \<and> ok")
    case False
    then show thesis using assms auth admit refused ui_admitD [OF admit] by (cases r; cases ok) (auto simp: host_update_state_def)
  next
    case True
    show thesis
    proof (cases "patched_state lib p u")
      case (Err e)
      have "e \<noteq> UiQueueFull"
        using Err by (auto simp: patched_state_def Let_def ok_or_Err_iff map_err_Err_iff split: if_splits dest!: try_bind_Err_iff [THEN iffD1])
      with True Err show thesis using assms auth admit refused ui_admitD [OF admit] by (auto simp: host_update_state_def)
    next
      case (Ok next_state)
      from Ok have next_state: "ho_parse lib p = Some (JObj m) \<Longrightarrow> next_state = merge_patch (us_state u) (JObj m)" for m
        by (auto simp: patched_state_Ok)
      from Ok obtain m where "ho_parse lib p = Some (JObj m)" "validate_value (us_schema u) next_state 0 = Ok ()" "state_fits lib next_state"
        by (auto simp: patched_state_Ok)
      with True Ok next_state show thesis
        using assms auth admit applied [of m] ui_admitD [OF admit]
        by (auto simp: host_update_state_def publish_state_def Let_def split: prod.splits)
    qed
  qed
qed

section \<open>Every state conforms to the schema\<close>

text \<open>An update that may be shown.\<close>

definition update_ok :: "host_lib \<Rightarrow> u64 \<Rightarrow> json_schema \<Rightarrow> ui_update \<Rightarrow> bool" where
  "update_ok lib inst schema u \<longleftrightarrow>
     up_instance u = inst \<and> validate_value schema (up_state u) 0 = Ok () \<and> state_fits lib (up_state u)"

text \<open>The invariant of a run; \<open>n\<close> bounds the events so far.\<close>

definition host_inv :: "host_lib \<Rightarrow> u64 \<Rightarrow> json_schema \<Rightarrow> json \<Rightarrow> nat \<Rightarrow> host_state \<times> ui_update list \<Rightarrow> bool" where
  "host_inv lib inst schema initial n c \<longleftrightarrow>
     (let u = hs_ui (fst c); shown = snd c @ ch_queue (us_tx u) in
      hs_instance (fst c) = inst \<and> us_schema u = schema \<and> validate_value schema (us_state u) 0 = Ok ()
      \<and> (us_state u = initial \<or> state_fits lib (us_state u))
      \<and> (\<forall>x \<in> set shown. update_ok lib inst schema x \<and> up_seq x \<le> us_seq u)
      \<and> sorted_wrt (<) (map up_seq shown)
      \<and> length (ch_queue (us_tx u)) \<le> ch_capacity (us_tx u) \<and> unat (us_seq u) \<le> n)"

lemma host_inv_later: "host_inv lib inst schema initial n c \<Longrightarrow> n \<le> m \<Longrightarrow> host_inv lib inst schema initial m c"
  by (auto simp: host_inv_def Let_def)

lemma host_inv_same_ui:
  assumes "host_inv lib inst schema initial n (s, got)" and "hs_ui s' = hs_ui s" and "hs_instance s' = hs_instance s"
  shows "host_inv lib inst schema initial n (s', got)"
  using assms by (simp add: host_inv_def)

lemma seq_next: "unat (q :: u64) \<le> n \<Longrightarrow> Suc n < 2 ^ 64 \<Longrightarrow> unat (q + 1) = Suc (unat q) \<and> q < q + 1"
  by (simp add: unat_word_ariths word_less_nat_alt)

lemma update_inv:
  assumes inv: "host_inv (gl_host l) inst schema initial n (s, got)" and step: "host_update_state (gl_host l) now p s = (res, s')"
    and n: "Suc n < 2 ^ 64"
  shows "host_inv (gl_host l) inst schema initial (Suc n) (s', got)"
  using step
proof (cases rule: host_update_cases)
  case refused
  with inv show ?thesis by (auto simp: host_inv_def Let_def)
next
  case (applied m)
  let ?u = "\<lparr>up_instance = hs_instance s, up_seq = us_seq (hs_ui s'), up_state = us_state (hs_ui s')\<rparr>"
  have seq: "unat (us_seq (hs_ui s')) = Suc (unat (us_seq (hs_ui s)))" "us_seq (hs_ui s) < us_seq (hs_ui s')"
    using seq_next [of "us_seq (hs_ui s)" n] inv n applied by (simp_all add: host_inv_def Let_def)
  have new: "update_ok (gl_host l) inst schema ?u"
    using inv applied by (simp add: host_inv_def Let_def update_ok_def)
  have below: "up_seq x < us_seq (hs_ui s')" if "x \<in> set (got @ ch_queue (us_tx (hs_ui s)))" for x
    using inv that seq(2) by (force simp: host_inv_def Let_def)
  consider "us_tx (hs_ui s') = us_tx (hs_ui s)"
    | "us_tx (hs_ui s') = (us_tx (hs_ui s))\<lparr>ch_queue := ch_queue (us_tx (hs_ui s)) @ [?u]\<rparr>"
      "length (ch_queue (us_tx (hs_ui s))) < ch_capacity (us_tx (hs_ui s))"
    using applied(8) by (auto simp: try_send_def split: if_splits)
  then show ?thesis
  proof cases
    case 1
    with inv applied seq(1) below show ?thesis
      by (auto simp: host_inv_def Let_def intro: less_imp_le)
  next
    case 2
    with inv applied seq(1) below new show ?thesis
      by (auto simp: host_inv_def Let_def sorted_wrt_append intro: less_imp_le)
  qed
qed

lemma host_step_inv:
  assumes inv: "host_inv (gl_host l) inst schema initial n (s, got)" and step: "host_step l e (s, got) = Some c" and n: "Suc n < 2 ^ 64"
  shows "host_inv (gl_host l) inst schema initial (Suc n) c"
proof (cases e)
  case (GuestCalls call)
  with step obtain s' where s': "host_exec l call s = Some s'" "c = (s', got)" by auto
  show ?thesis
  proof (cases "\<exists>now p. call = HostUpdateState now p")
    case True
    then obtain now p where "call = HostUpdateState now p" by blast
    with s' update_inv [OF inv _ n, of now p] show ?thesis by (cases "host_update_state (gl_host l) now p s") auto
  next
    case False
    with host_exec_ui [OF s'(1)] inv s'(2) show ?thesis by (auto intro: host_inv_later host_inv_same_ui)
  qed
next
  case (TimerCompleted tid)
  with step have c: "c = (host_timer_complete tid s, got)" by simp
  have "host_inv (gl_host l) inst schema initial n c"
    unfolding c by (rule host_inv_same_ui [OF inv]) (simp_all add: host_timer_complete_def)
  then show ?thesis by (rule host_inv_later) simp
next
  case ShellReceives
  with step inv show ?thesis
    by (auto simp: try_recv_def host_inv_def Let_def split: list.splits)
next
  case ShellCloses
  with step inv show ?thesis by (auto simp: host_inv_def Let_def)
qed

lemma host_run_inv:
  "host_inv (gl_host l) inst schema initial n c \<Longrightarrow> host_run l es c = Some c' \<Longrightarrow> n + length es < 2 ^ 64
     \<Longrightarrow> host_inv (gl_host l) inst schema initial (n + length es) c'"
proof (induction es arbitrary: n c)
  case (Cons e es)
  from Cons.prems(2) obtain c1 where c1: "host_step l e c = Some c1" "host_run l es c1 = Some c'" by (auto simp: bind_eq_Some_conv)
  have "host_inv (gl_host l) inst schema initial (Suc n) c1"
    using host_step_inv [of l inst schema initial n "fst c" "snd c" e c1] Cons.prems(1,3) c1(1) by simp
  from Cons.IH [OF this c1(2)] Cons.prems(3) show ?case by simp
qed (simp add: host_inv_later)

text \<open>C3: Whatever a plugin calls and however its calls interleave with the shell, in any number
  of events that a 64-bit counter can count: the state of its interface conforms to the declared
  schema and is the initial one or at most 64 KiB; every update the shell receives carries the
  instance's own identifier and a state with these properties; the updates arrive in the order of
  strictly increasing sequence numbers; and at most as many wait as the channel has places.\<close>

theorem shown_states_conform:
  assumes initial: "validate_value schema initial 0 = Ok ()"
    and run: "host_run l events (host_new now inst b max_memory initial schema (channel_new capacity), []) = Some (s, received)"
    and few: "length events < 2 ^ 64"
  shows "validate_value schema (us_state (hs_ui s)) 0 = Ok ()
    \<and> (us_state (hs_ui s) = initial \<or> state_fits (gl_host l) (us_state (hs_ui s)))
    \<and> list_all (update_ok (gl_host l) inst schema) received \<and> sorted_wrt (<) (map up_seq received)
    \<and> length (ch_queue (us_tx (hs_ui s))) \<le> ch_capacity (us_tx (hs_ui s))"
proof -
  have "host_inv (gl_host l) inst schema initial 0 (host_new now inst b max_memory initial schema (channel_new capacity), [])"
    using initial by (simp add: host_inv_def Let_def host_new_def channel_new_def)
  from host_run_inv [OF this run] few show ?thesis
    by (simp add: host_inv_def Let_def list_all_iff sorted_wrt_append)
qed

section \<open>Refused patches\<close>

text \<open>C15: A patch is applied exactly as RFC 7386 says or not at all, with one exception: when the
  channel to the shell is full or closed the caller gets an error although the state has already
  been replaced.  Every other refusal leaves the state, the sequence number and the channel as they
  were, and an accepted patch puts exactly one update, with the new state, at the end of the channel.\<close>

theorem refused_patch_keeps_state:
  "case host_update_state lib now p s of (res, s') \<Rightarrow>
     if res = Ok () \<or> res = Err UiQueueFull
     then \<exists>m. ho_parse lib p = Some (JObj m) \<and> us_state (hs_ui s') = merge_patch (us_state (hs_ui s)) (JObj m)
        \<and> us_seq (hs_ui s') = us_seq (hs_ui s) + 1
        \<and> ch_queue (us_tx (hs_ui s')) = ch_queue (us_tx (hs_ui s))
            @ (if res = Ok () then [\<lparr>up_instance = hs_instance s, up_seq = us_seq (hs_ui s'), up_state = us_state (hs_ui s')\<rparr>] else [])
     else us_state (hs_ui s') = us_state (hs_ui s) \<and> us_seq (hs_ui s') = us_seq (hs_ui s) \<and> us_tx (hs_ui s') = us_tx (hs_ui s)"
proof -
  obtain res s' where step: "host_update_state lib now p s = (res, s')" by fastforce
  from step show ?thesis
  proof (cases rule: host_update_cases)
    case refused
    with step show ?thesis by auto
  next
    case (applied m)
    with step show ?thesis by (auto simp: try_send_def split: if_splits)
  qed
qed

section \<open>The rate of updates\<close>

definition update_attempt :: "host_lib \<Rightarrow> string \<Rightarrow> nat \<Rightarrow> host_state \<Rightarrow> bool \<times> host_state" where
  "update_attempt lib p now s =
     (case host_update_state lib now p s of (res, s') \<Rightarrow> (res = Ok () \<or> res = Err UiQueueFull, s'))"

lemma publish_window:
  assumes "publish_state inst v u = (res, u')"
  shows "us_window_start u' = us_window_start u \<and> us_window_count u' = us_window_count u"
  using assms by (auto simp: publish_state_def Let_def split: prod.splits)

lemma attempt_window:
  assumes "update_attempt lib p now s = (ok, s')"
  obtains (unseen) "\<not> ok" "us_window_start (hs_ui s') = us_window_start (hs_ui s)" "us_window_count (hs_ui s') = us_window_count (hs_ui s)"
  | (seen) admitted u where "ui_admit now (hs_ui s) = (admitted, u)" "ok \<Longrightarrow> admitted"
      "us_window_start (hs_ui s') = us_window_start u" "us_window_count (hs_ui s') = us_window_count u"
proof -
  obtain r b where auth: "authorize UiUpdateState None (''ui update-state patch='' @ decimal (length p) @ ''B'') (hs_broker s) = (r, b)"
    by fastforce
  obtain admitted u where admit: "ui_admit now (hs_ui s) = (admitted, u)" by fastforce
  show thesis
  proof (cases r)
    case (Err e)
    with assms auth unseen show thesis by (auto simp: update_attempt_def host_update_state_def)
  next
    case (Ok x)
    with assms auth admit seen [OF admit] show thesis
      by (cases admitted; cases "patched_state lib p u")
        (auto simp: update_attempt_def host_update_state_def split: prod.splits dest!: publish_window)
  qed
qed

lemma count_next: "\<not> MAX_UPDATE_RATE_PER_SEC \<le> c \<Longrightarrow> unat (c + 1) = Suc (unat c) \<and> unat c < 30"
  using unat_Suc_less [of c MAX_UPDATE_RATE_PER_SEC] by (simp add: not_le MAX_UPDATE_RATE_PER_SEC_def word_less_nat_alt)

lemma admit_window:
  assumes "ui_admit now u = (ok, u')"
  shows "us_window_start u' = us_window_start u \<Longrightarrow> unat (us_window_count u) + of_bool ok \<le> unat (us_window_count u')"
    and "us_window_start u' \<noteq> us_window_start u \<Longrightarrow>
      us_window_start u' = now \<and> us_window_start u + seconds 1 \<le> now \<and> of_bool ok \<le> unat (us_window_count u')"
    and "ok \<Longrightarrow> unat (us_window_count u') \<le> 30"
  using assms count_next [of "us_window_count u"] count_next [of 0]
  by (auto simp: ui_admit_def Let_def seconds_def split: if_splits)

interpretation ui_rate: fixed_window "\<lambda>s. us_window_start (hs_ui s)" "\<lambda>s. unat (us_window_count (hs_ui s))"
  "\<lambda>_. 30" "seconds 1" "update_attempt lib" for lib
proof
  show "0 < seconds 1" by (simp add: seconds_def)
next
  fix p now s ok s' assume step: "update_attempt lib p now s = (ok, s')"
  show "(30::nat) = 30" ..
  show "unat (us_window_count (hs_ui s)) + of_bool ok \<le> unat (us_window_count (hs_ui s'))"
    if "us_window_start (hs_ui s') = us_window_start (hs_ui s)"
    using step that by (cases rule: attempt_window) (auto dest!: admit_window(1) simp: of_bool_def split: if_splits)
  show "us_window_start (hs_ui s') = now \<and> us_window_start (hs_ui s) + seconds 1 \<le> now \<and> of_bool ok \<le> unat (us_window_count (hs_ui s'))"
    if "us_window_start (hs_ui s') \<noteq> us_window_start (hs_ui s)"
    using step that by (cases rule: attempt_window) (auto dest!: admit_window(2) simp: of_bool_def split: if_splits)
next
  fix p now s s' assume "update_attempt lib p now s = (True, s')"
  then show "unat (us_window_count (hs_ui s')) \<le> 30"
    by (cases rule: attempt_window) (auto dest!: admit_window(3))
qed

text \<open>However a plugin times its calls, at most 60 patches are applied in any span of one second,
  and at most 30 in the first second of an instance: the calls beyond are refused without touching
  the state.\<close>

theorem ui_update_rate_bounded:
  assumes "\<forall>(p, now) \<in> set reqs. t \<le> now \<and> now < t + seconds 1"
  shows "ui_rate.admitted lib reqs s \<le> 60
    \<and> (t \<le> us_window_start (hs_ui s) \<longrightarrow> ui_rate.admitted lib reqs s \<le> 30)"
  using ui_rate.admitted_le [OF assms, of lib s] ui_rate.admitted_fresh [OF assms, of s lib] by simp

section \<open>The end of an operation\<close>

text \<open>The end of an operation reaches an instance exactly if it belongs to the generation that the
  bridge serves and the channel is open and has room; it then waits at the end of the channel and
  its result stays.  In every other case the channel keeps its content and the retained result is
  discarded, so that nothing of an old generation can be taken later.\<close>

theorem completion_is_routed_or_discarded:
  "case try_route br c b of (disposition, br', b') \<Rightarrow>
     cb_owner br' = cb_owner br
     \<and> (disposition = Delivered \<longleftrightarrow>
          oc_owner c = cb_owner br \<and> \<not> ch_closed (cb_channel br) \<and> length (ch_queue (cb_channel br)) < ch_capacity (cb_channel br))
     \<and> ch_queue (cb_channel br') = ch_queue (cb_channel br) @ (if disposition = Delivered then [c] else [])
     \<and> br_operations b' = (if disposition = Delivered then br_operations b
                           else map_option (\<lambda>reg. snd (op_discard (oc_id c) reg)) (br_operations b))"
proof -
  have audit: "br_operations (snd (audit_operation_completion c d b)) = br_operations b" for d
    by (simp add: audit_operation_completion_def audit_def split: option.split)
  have discard: "br_operations (snd (discard_operation_result oid b)) = map_option (\<lambda>reg. snd (op_discard oid reg)) (br_operations b)"
    for oid b
    by (simp add: discard_operation_result_def split: option.split prod.split)
  show ?thesis
    by (auto simp: try_route_def is_current_for_def try_send_def audit discard not_le split: prod.split)
qed

section \<open>A concrete instance\<close>

definition clock_schema :: json_schema where
  "clock_schema = SObject [] [(''time'', SString (Some 32))] False"

definition clock_time :: json where
  "clock_time = JObj [(''time'', JStr ''12:34'')]"

definition clock_lib :: "(string \<times> string) guest_lib" where
  "clock_lib =
     \<lparr>gl_host = \<lparr>ho_parse = (\<lambda>p. if p = ''{}'' then Some clock_time else None), ho_to_vec = (\<lambda>_. Some ''{}'')\<rparr>,
      gl_url = example_url_lib, gl_headers = example_header_lib, gl_round = (\<lambda>x. x)\<rparr>"

definition clock_host :: host_state where
  "clock_host = host_new 0 1 example_broker 16777216 (JObj []) clock_schema (channel_new 64)"

definition clock_update :: ui_update where
  "clock_update = \<lparr>up_instance = 1, up_seq = 1, up_state = clock_time\<rparr>"

lemma clock_initial: "validate_value clock_schema (JObj []) 0 = Ok ()"
  by (simp add: clock_schema_def validate_value.simps object_keys_ok_def MAX_STATE_DEPTH_def)

lemma clock_valid: "validate_value clock_schema clock_time 0 = Ok ()"
  by (simp add: clock_schema_def clock_time_def validate_value.simps object_keys_ok_def MAX_STATE_DEPTH_def within_max_def
      member_check_def char_count_def)

lemma clock_merge: "merge_patch (JObj []) clock_time = clock_time"
  by (simp add: clock_time_def merge_base_def)

lemma clock_authorized: "\<exists>b. authorize UiUpdateState None detail example_broker = (Ok (), b)"
  by (simp add: authorize_def example_broker_simps grants_find_def example_grant_def decide_def)

lemma clock_patched:
  "us_state u = JObj [] \<Longrightarrow> us_schema u = clock_schema \<Longrightarrow> patched_state (gl_host clock_lib) ''{}'' u = Ok clock_time"
  unfolding patched_state_Ok using clock_valid clock_merge
  by (simp add: clock_lib_def MAX_PATCH_BYTES_def MAX_STATE_BYTES_def state_fits_def) (simp add: clock_time_def)

lemma clock_run:
  "\<exists>s. host_run clock_lib [GuestCalls (HostUpdateState 5 ''{}''), ShellReceives] (clock_host, []) = Some (s, [clock_update])"
proof -
  obtain b where auth: "authorize UiUpdateState None (''ui update-state patch='' @ decimal (length ''{}'') @ ''B'') example_broker = (Ok (), b)"
    using clock_authorized by blast
  have "ui_admit 5 (hs_ui clock_host) = (True, (hs_ui clock_host)\<lparr>us_window_count := 1\<rparr>)"
    by (simp add: ui_admit_def clock_host_def host_new_def seconds_def MAX_UPDATE_RATE_PER_SEC_def)
  moreover have "patched_state (gl_host clock_lib) ''{}'' ((hs_ui clock_host)\<lparr>us_window_count := 1\<rparr>) = Ok clock_time"
    by (rule clock_patched) (simp_all add: clock_host_def host_new_def)
  moreover have "hs_broker clock_host = example_broker" by (simp add: clock_host_def host_new_def)
  ultimately show ?thesis
    using auth by (simp add: host_update_state_def publish_state_def try_send_def try_recv_def clock_host_def host_new_def channel_new_def
        clock_update_def)
qed

lemma shown_states_conform_witness: "update_ok (gl_host clock_lib) 1 clock_schema clock_update"
proof -
  obtain s where "host_run clock_lib [GuestCalls (HostUpdateState 5 ''{}''), ShellReceives] (clock_host, []) = Some (s, [clock_update])"
    using clock_run by blast
  from shown_states_conform [OF clock_initial this [unfolded clock_host_def]] show ?thesis by simp
qed

lemma ui_update_rate_bounded_witness:
  "ui_rate.admitted (gl_host clock_lib) [(''{}'', 5), (''x'', 6)] clock_host \<le> 60"
  using ui_update_rate_bounded [of "[(''{}'', 5), (''x'', 6)]" 0 "gl_host clock_lib" clock_host] by (simp add: seconds_def)

end
