(* ===== verification/Actor.thy ===== *)
theory Actor
  imports Host_State
begin

text \<open>
  The actor of a plugin instance, \<open>floatile-runtime/src/lib.rs\<close>: \<open>run_actor\<close> builds the broker
  and the host state, instantiates the component and then serves the commands of its queue one
  after the other until one of them fails or the instance is shut down.

  The component is a parameter: \<open>gu_call\<close> says how a call of the plugin ends and what the host
  state is then.  \<open>sandboxed\<close> states what the WebAssembly engine guarantees: the plugin reaches the
  host only through its imports.  The commands are the content of the queue in order; the lemmas
  show which requests are answered and how, and what of the host state every plugin preserves.
\<close>

section \<open>Calls and commands\<close>

definition QUEUE_CAPACITY :: nat where
  "QUEUE_CAPACITY = 64"

definition DEFAULT_FUEL_PER_CALL :: u64 where
  "DEFAULT_FUEL_PER_CALL = 1000000000"

definition DEFAULT_CALL_TIMEOUT :: nat where
  "DEFAULT_CALL_TIMEOUT = seconds 2"

definition EPOCH_TICK_INTERVAL :: nat where
  "EPOCH_TICK_INTERVAL = millis 10"

definition DEFAULT_MAX_MEMORY :: nat where
  "DEFAULT_MAX_MEMORY = 16 * 1024 * 1024"

datatype wit_terminal = WitSucceeded | WitTimeout | WitCancelled | WitUnavailable | WitInternal | WitResultDropped

datatype wit_capability = WitStorageRead | WitHttpsRequest

text \<open>The events the actor makes itself, and those it passes on.\<close>

datatype widget_event =
    EventTimer u32
  | EventOperationCompleted operation_id wit_capability wit_terminal
  | EventOther string

datatype call_error = Rejected string | InstanceFailedError string

datatype runtime_error = RuntimeWasmtime | RuntimeComponent | RuntimeInstanceFailed string | RuntimeClosed

text \<open>A request carries the channel its reply goes to.\<close>

datatype instance_command =
    CmdStart nat
  | CmdEvent widget_event nat
  | CmdTimer u32
  | CmdOperationCompleted operation_completion
  | CmdShutdown

datatype guest_call = GuestInstantiate | GuestConstructor string string | GuestStart | GuestEvent widget_event | GuestStop | GuestDrop

text \<open>How a call ends: a result of the plugin, a trap, or the interruption at its deadline.\<close>

datatype guest_outcome = GuestOk | GuestError string | GuestTrap string | GuestInterrupted

record 'g guest =
  gu_call :: "guest_call \<Rightarrow> 'g \<Rightarrow> host_state \<Rightarrow> guest_outcome \<times> 'g \<times> host_state"

record 'g actor_env =
  ae_guest :: "'g guest"
  ae_fuel_ok :: bool
  ae_component_ok :: "string \<Rightarrow> bool"
  ae_linker_ok :: bool

record 'g actor_state =
  ac_host :: host_state
  ac_guest :: 'g
  ac_replies :: "(nat \<times> (unit, call_error) result) list"
  ac_calls :: "guest_call list"
  ac_failed :: bool
  ac_stopped :: bool

section \<open>One call\<close>

text \<open>\<open>div_ceil\<close>, at least one tick, saturating.\<close>

definition timeout_epoch_ticks :: "nat \<Rightarrow> nat" where
  "timeout_epoch_ticks timeout =
     (let ticks = (timeout + EPOCH_TICK_INTERVAL - 1) div EPOCH_TICK_INTERVAL
      in if ticks < 2 ^ 64 then max 1 ticks else 2 ^ 64 - 1)"

definition instance_call_error :: "string \<Rightarrow> guest_outcome \<Rightarrow> (unit, call_error) result" where
  "instance_call_error operation outcome =
     (case outcome of
        GuestOk \<Rightarrow> Ok ()
      | GuestError e \<Rightarrow> Err (Rejected e)
      | GuestTrap e \<Rightarrow> Err (InstanceFailedError e)
      | GuestInterrupted \<Rightarrow> Err (InstanceFailedError operation))"

text \<open>\<open>reset_call_budget\<close> and the call.\<close>

definition call_guest :: "'g actor_env \<Rightarrow> string \<Rightarrow> guest_call \<Rightarrow> 'g actor_state \<Rightarrow> (unit, call_error) result \<times> 'g actor_state"
where
  "call_guest env operation call a =
     (if \<not> ae_fuel_ok env then (Err (InstanceFailedError ''fuel''), a)
      else case gu_call (ae_guest env) call (ac_guest a) (ac_host a) of
             (outcome, g, h) \<Rightarrow>
               (instance_call_error operation outcome,
                a\<lparr>ac_guest := g, ac_host := h, ac_calls := ac_calls a @ [call]\<rparr>))"

fun wit_capability_of :: "capability_id \<Rightarrow> wit_capability option" where
  "wit_capability_of StorageRead = Some WitStorageRead"
| "wit_capability_of NetworkHttps = Some WitHttpsRequest"
| "wit_capability_of _ = None"

fun wit_terminal_of :: "operation_terminal \<Rightarrow> wit_terminal" where
  "wit_terminal_of Succeeded = WitSucceeded"
| "wit_terminal_of (Failed OpTimeout) = WitTimeout"
| "wit_terminal_of (Failed OpCancelled) = WitCancelled"
| "wit_terminal_of (Failed OpUnavailable) = WitUnavailable"
| "wit_terminal_of (Failed OpInternal) = WitInternal"
| "wit_terminal_of (Failed OpResultDropped) = WitResultDropped"

definition discard_in_host :: "operation_id \<Rightarrow> host_state \<Rightarrow> host_state" where
  "discard_in_host oid h = h\<lparr>hs_broker := snd (discard_operation_result oid (hs_broker h))\<rparr>"

definition handle_operation_completion ::
  "'g actor_env \<Rightarrow> operation_completion \<Rightarrow> 'g actor_state \<Rightarrow> (unit, call_error) result \<times> 'g actor_state"
where
  "handle_operation_completion env c a =
     (case wit_capability_of (oc_capability c) of
        None \<Rightarrow> (Ok (), a\<lparr>ac_host := discard_in_host (oc_id c) (ac_host a)\<rparr>)
      | Some capability \<Rightarrow>
          call_guest env ''operation-completed''
            (GuestEvent (EventOperationCompleted (oc_id c) capability (wit_terminal_of (oc_terminal c)))) a)"

text \<open>The two senders into the queue: the sink of the timers, which drops what does not fit, and the task
  that forwards the ends of operations until the actor has gone.\<close>

definition timer_sink :: "u32 \<Rightarrow> instance_command channel \<Rightarrow> instance_command channel" where
  "timer_sink tid q = snd (try_send (CmdTimer tid) q)"

definition record_delivery :: "operation_completion \<Rightarrow> completion_disposition \<Rightarrow> host_state \<Rightarrow> host_state" where
  "record_delivery c disposition h =
     h\<lparr>hs_broker := audit (oc_capability c) True None
         (''operation='' @ decimal (unat (oc_id c)) @ '' terminal='' @ operation_terminal_code (oc_terminal c)
          @ '' delivery='' @ disposition_code disposition) (hs_broker h)\<rparr>"

definition forward_completion ::
  "operation_completion \<Rightarrow> instance_command channel \<Rightarrow> host_state \<Rightarrow> bool \<times> instance_command channel \<times> host_state"
where
  "forward_completion c q h =
     (case try_send (CmdOperationCompleted c) q of
        (Ok _, q') \<Rightarrow> (True, q', record_delivery c Delivered h)
      | (Err SendFull, q') \<Rightarrow> (True, q', record_delivery c DispositionQueueFull (discard_in_host (oc_id c) h))
      | (Err SendClosed, q') \<Rightarrow> (False, q', record_delivery c ActorClosed (discard_in_host (oc_id c) h)))"

fun forward_completions ::
  "operation_completion list \<Rightarrow> instance_command channel \<Rightarrow> host_state \<Rightarrow> instance_command channel \<times> host_state"
where
  "forward_completions [] q h = (q, h)"
| "forward_completions (c # cs) q h =
     (case forward_completion c q h of (go_on, q', h') \<Rightarrow> if go_on then forward_completions cs q' h' else (q', h'))"

section \<open>The loop\<close>

definition reply :: "nat \<Rightarrow> (unit, call_error) result \<Rightarrow> 'g actor_state \<Rightarrow> 'g actor_state" where
  "reply ch res a = a\<lparr>ac_replies := ac_replies a @ [(ch, res)]\<rparr>"

text \<open>One command other than the shutdown.\<close>

fun serve :: "'g actor_env \<Rightarrow> instance_command \<Rightarrow> 'g actor_state \<Rightarrow> 'g actor_state" where
  "serve env (CmdStart ch) a =
     (case call_guest env ''start'' GuestStart a of (res, a') \<Rightarrow> reply ch res (a'\<lparr>ac_failed := \<not> is_ok res\<rparr>))"
| "serve env (CmdEvent e ch) a =
     (case call_guest env ''handle-event'' (GuestEvent e) a of (res, a') \<Rightarrow> reply ch res (a'\<lparr>ac_failed := \<not> is_ok res\<rparr>))"
| "serve env (CmdTimer tid) a =
     (case call_guest env ''timer'' (GuestEvent (EventTimer tid)) a of
        (Err e, a') \<Rightarrow> a'\<lparr>ac_failed := True\<rparr>
      | (Ok _, a') \<Rightarrow> a'\<lparr>ac_host := host_timer_complete tid (ac_host a')\<rparr>)"
| "serve env (CmdOperationCompleted c) a =
     (case handle_operation_completion env c a of
        (Err e, a') \<Rightarrow> a'\<lparr>ac_failed := True\<rparr>
      | (Ok _, a') \<Rightarrow> a')"
| "serve env CmdShutdown a = a\<lparr>ac_stopped := True\<rparr>"

text \<open>The replies to the requests left in the queue.\<close>

fun drain_pending :: "instance_command list \<Rightarrow> 'g actor_state \<Rightarrow> 'g actor_state" where
  "drain_pending [] a = a"
| "drain_pending (CmdStart ch # cmds) a = drain_pending cmds (reply ch (Err (InstanceFailedError ''terminated'')) a)"
| "drain_pending (CmdEvent e ch # cmds) a = drain_pending cmds (reply ch (Err (InstanceFailedError ''terminated'')) a)"
| "drain_pending (_ # cmds) a = drain_pending cmds a"

fun actor_loop :: "'g actor_env \<Rightarrow> instance_command list \<Rightarrow> 'g actor_state \<Rightarrow> 'g actor_state" where
  "actor_loop env [] a = a"
| "actor_loop env (cmd # cmds) a =
     (let a' = serve env cmd a
      in if ac_stopped a' then a' else if ac_failed a' then drain_pending cmds a' else actor_loop env cmds a')"

text \<open>The cleanup: the plugin is stopped and dropped, whatever it answers.\<close>

definition cleanup :: "'g actor_env \<Rightarrow> 'g actor_state \<Rightarrow> 'g actor_state" where
  "cleanup env a = snd (call_guest env ''drop'' GuestDrop (snd (call_guest env ''stop'' GuestStop a)))"

section \<open>Setup\<close>

record widget_config =
  wc_plugin :: string
  wc_instance :: u64
  wc_generation :: u64
  wc_wasm :: string
  wc_initial_state :: json
  wc_state_schema :: json_schema
  wc_config_json :: string
  wc_grants :: instance_grant

definition setup_call ::
  "'g actor_env \<Rightarrow> string \<Rightarrow> guest_call \<Rightarrow> 'g actor_state \<Rightarrow> ('g actor_state, runtime_error) result"
where
  "setup_call env operation call a =
     (if \<not> ae_fuel_ok env then Err RuntimeWasmtime
      else case call_guest env operation call a of
             (Ok _, a') \<Rightarrow> Ok a'
           | (Err _, a') \<Rightarrow> Err (RuntimeInstanceFailed operation))"

text \<open>Broker, registry, validated initial state and host state; \<open>next_id\<close> is the process-wide counter of
  operations.\<close>

definition actor_host ::
  "host_lib \<Rightarrow> nat \<Rightarrow> u64 \<Rightarrow> https_service option \<Rightarrow> nat \<Rightarrow> widget_config \<Rightarrow> (host_state, runtime_error) result"
where
  "actor_host lib now next_id https max_memory cfg =
     (let owner = \<lparr>oo_plugin = wc_plugin cfg, oo_instance = wc_instance cfg, oo_generation = wc_generation cfg\<rparr> in
      try_bind (map_err (\<lambda>_. RuntimeInstanceFailed ''registry'') (registry_new owner default_limits True next_id)) (\<lambda>reg.
      try_bind (map_err (\<lambda>_. RuntimeInstanceFailed ''bind'')
                 (broker_with_operations reg (broker_new now (wc_plugin cfg) (wc_generation cfg) (wc_grants cfg)))) (\<lambda>b.
      try_bind (ok_or (RuntimeInstanceFailed ''initial state'') (ho_to_vec lib (wc_initial_state cfg))) (\<lambda>_.
      try_bind (map_err (\<lambda>_. RuntimeInstanceFailed ''schema'') (validate_value (wc_state_schema cfg) (wc_initial_state cfg) 0)) (\<lambda>_.
      Ok (host_new now (wc_instance cfg) (case https of None \<Rightarrow> b | Some s \<Rightarrow> broker_with_https s b) max_memory
            (wc_initial_state cfg) (wc_state_schema cfg) (channel_new QUEUE_CAPACITY)))))))"

definition actor_setup ::
  "host_lib \<Rightarrow> 'g actor_env \<Rightarrow> nat \<Rightarrow> u64 \<Rightarrow> https_service option \<Rightarrow> nat \<Rightarrow> widget_config \<Rightarrow> 'g \<Rightarrow> ('g actor_state, runtime_error) result"
where
  "actor_setup lib env now next_id https max_memory cfg g =
     (if \<not> ae_component_ok env (wc_wasm cfg) then Err RuntimeComponent
      else try_bind (actor_host lib now next_id https max_memory cfg) (\<lambda>h.
        if \<not> ae_linker_ok env then Err RuntimeWasmtime
        else
          try_bind (setup_call env ''instantiate'' GuestInstantiate
            \<lparr>ac_host = h, ac_guest = g, ac_replies = [], ac_calls = [], ac_failed = False, ac_stopped = False\<rparr>) (\<lambda>a.
          setup_call env ''constructor''
            (GuestConstructor (wc_config_json cfg) (case ho_to_vec lib (wc_initial_state cfg) of Some t \<Rightarrow> t | None \<Rightarrow> [])) a)))"

definition run_actor ::
  "host_lib \<Rightarrow> 'g actor_env \<Rightarrow> nat \<Rightarrow> u64 \<Rightarrow> https_service option \<Rightarrow> nat \<Rightarrow> widget_config \<Rightarrow> instance_command list \<Rightarrow> 'g
     \<Rightarrow> (unit, runtime_error) result \<times> 'g actor_state option"
where
  "run_actor lib env now next_id https max_memory cfg cmds g =
     (case actor_setup lib env now next_id https max_memory cfg g of
        Err e \<Rightarrow> (Err e, None)
      | Ok a \<Rightarrow>
          (let a' = cleanup env (actor_loop env cmds a)
           in (if ac_stopped a' \<and> \<not> ac_failed a' then Ok () else Err (RuntimeInstanceFailed ''actor''), Some a')))"

section \<open>What is answered and what runs\<close>

text \<open>An open queue takes the ends of operations in order, as far as it has room, and the host state
  keeps the retained results of exactly those.\<close>

lemma forward_completion_cases:
  assumes "forward_completion c q h = (go_on, q', h')"
  shows "go_on = (\<not> ch_closed q) \<and> ch_closed q' = ch_closed q \<and> ch_capacity q' = ch_capacity q
    \<and> (if \<not> ch_closed q \<and> length (ch_queue q) < ch_capacity q
       then ch_queue q' = ch_queue q @ [CmdOperationCompleted c] \<and> br_operations (hs_broker h') = br_operations (hs_broker h)
       else ch_queue q' = ch_queue q
         \<and> br_operations (hs_broker h') = br_operations (snd (discard_operation_result (oc_id c) (hs_broker h))))"
  using assms
  by (auto simp: forward_completion_def try_send_def record_delivery_def discard_in_host_def audit_def split: if_splits)

lemma forward_completions_queue:
  assumes "\<not> ch_closed q" and "length (ch_queue q) \<le> ch_capacity q"
  shows "ch_queue (fst (forward_completions cs q h))
    = ch_queue q @ map CmdOperationCompleted (take (ch_capacity q - length (ch_queue q)) cs)"
  using assms
proof (induction cs arbitrary: q h)
  case (Cons c cs)
  obtain go_on q' h' where step: "forward_completion c q h = (go_on, q', h')" by (cases "forward_completion c q h") auto
  note one = forward_completion_cases [OF step]
  show ?case
  proof (cases "length (ch_queue q) < ch_capacity q")
    case True
    then obtain n where n: "ch_capacity q - length (ch_queue q) = Suc n" by (metis Suc_diff_Suc)
    then have "ch_capacity q' - length (ch_queue q') = n" "length (ch_queue q') \<le> ch_capacity q'"
      using one Cons.prems True by auto
    with Cons.IH [of q' h'] one Cons.prems True show ?thesis by (simp add: step n)
  next
    case False
    with Cons.IH [of q' h'] one Cons.prems show ?thesis by (simp add: step)
  qed
qed simp

fun request_of :: "instance_command \<Rightarrow> nat list" where
  "request_of (CmdStart ch) = [ch]"
| "request_of (CmdEvent e ch) = [ch]"
| "request_of _ = []"

fun calls_of :: "instance_command \<Rightarrow> guest_call list" where
  "calls_of (CmdStart ch) = [GuestStart]"
| "calls_of (CmdEvent e ch) = [GuestEvent e]"
| "calls_of (CmdTimer tid) = [GuestEvent (EventTimer tid)]"
| "calls_of (CmdOperationCompleted c) =
     (case wit_capability_of (oc_capability c) of
        None \<Rightarrow> []
      | Some capability \<Rightarrow> [GuestEvent (EventOperationCompleted (oc_id c) capability (wit_terminal_of (oc_terminal c)))])"
| "calls_of CmdShutdown = []"

definition requests :: "instance_command list \<Rightarrow> nat list" where
  "requests cmds = concat (map request_of cmds)"

lemma requests_simps [simp]: "requests [] = []" "requests (c # cmds) = request_of c @ requests cmds"
  by (simp_all add: requests_def)

lemma call_guest_fields:
  assumes "call_guest env operation call a = (res, a')"
  shows "ac_replies a' = ac_replies a \<and> ac_failed a' = ac_failed a \<and> ac_stopped a' = ac_stopped a
    \<and> (ae_fuel_ok env \<longrightarrow> ac_calls a' = ac_calls a @ [call])"
  using assms by (auto simp: call_guest_def split: if_splits prod.splits)

lemma serve_fields:
  assumes "ae_fuel_ok env" and "cmd \<noteq> CmdShutdown" and "\<not> ac_failed a"
  obtains res where "ac_calls (serve env cmd a) = ac_calls a @ calls_of cmd"
    "ac_replies (serve env cmd a) = ac_replies a @ map (\<lambda>ch. (ch, res)) (request_of cmd)"
    "ac_failed (serve env cmd a) \<longleftrightarrow> res \<noteq> Ok ()" "ac_stopped (serve env cmd a) = ac_stopped a"
proof (cases cmd)
  case (CmdStart ch)
  obtain res a' where "call_guest env ''start'' GuestStart a = (res, a')" by fastforce
  with call_guest_fields [OF this] assms CmdStart that show thesis by (cases res) (auto simp: reply_def)
next
  case (CmdEvent e ch)
  obtain res a' where "call_guest env ''handle-event'' (GuestEvent e) a = (res, a')" by fastforce
  with call_guest_fields [OF this] assms CmdEvent that show thesis by (cases res) (auto simp: reply_def)
next
  case (CmdTimer tid)
  obtain res a' where "call_guest env ''timer'' (GuestEvent (EventTimer tid)) a = (res, a')" by fastforce
  with call_guest_fields [OF this] assms CmdTimer that show thesis by (cases res) auto
next
  case (CmdOperationCompleted c)
  show thesis
  proof (cases "wit_capability_of (oc_capability c)")
    case None
    with CmdOperationCompleted assms that [of "Ok ()"] show thesis by (simp add: handle_operation_completion_def)
  next
    case (Some capability)
    let ?call = "GuestEvent (EventOperationCompleted (oc_id c) capability (wit_terminal_of (oc_terminal c)))"
    obtain res a' where "call_guest env ''operation-completed'' ?call a = (res, a')" by fastforce
    with call_guest_fields [OF this] assms CmdOperationCompleted Some that show thesis
      by (cases res) (auto simp: handle_operation_completion_def)
  qed
qed (use assms in simp)

lemma drain_fields:
  "ac_calls (drain_pending cmds a) = ac_calls a" "ac_failed (drain_pending cmds a) = ac_failed a"
  "ac_stopped (drain_pending cmds a) = ac_stopped a"
  "ac_replies (drain_pending cmds a)
     = ac_replies a @ map (\<lambda>ch. (ch, Err (InstanceFailedError ''terminated''))) (requests cmds)"
  by (induction cmds a rule: drain_pending.induct) (auto simp: reply_def)

text \<open>The commands a loop serves, and the replies it leaves.\<close>

definition loop_result :: "'g actor_env \<Rightarrow> instance_command list \<Rightarrow> 'g actor_state \<Rightarrow> 'g actor_state \<Rightarrow> bool" where
  "loop_result env cmds a a' \<longleftrightarrow>
     (\<exists>served rest new. cmds = served @ rest
        \<and> ac_calls a' = ac_calls a @ concat (map calls_of served) \<and> ac_replies a' = ac_replies a @ new
        \<and> (if ac_failed a'
           then \<not> ac_stopped a' \<and> map fst new = requests cmds \<and> CmdShutdown \<notin> set served
                \<and> (\<forall>(ch, res) \<in> set (drop (length (requests served)) new). res \<noteq> Ok ())
           else map fst new = requests served \<and> (\<forall>(ch, res) \<in> set new. res = Ok ())
                \<and> (if ac_stopped a' then \<exists>before. served = before @ [CmdShutdown] \<and> CmdShutdown \<notin> set before
                   else rest = [] \<and> CmdShutdown \<notin> set served)))"

lemma actor_loop_result:
  "ae_fuel_ok env \<Longrightarrow> \<not> ac_failed a \<Longrightarrow> \<not> ac_stopped a \<Longrightarrow> loop_result env cmds a (actor_loop env cmds a)"
proof (induction cmds arbitrary: a)
  case Nil
  then show ?case by (simp add: loop_result_def)
next
  case (Cons cmd cmds)
  show ?case
  proof (cases "cmd = CmdShutdown")
    case True
    then show ?thesis
      using Cons.prems unfolding loop_result_def
      by (intro exI [of _ "[CmdShutdown]"] exI [of _ cmds] exI [of _ "[]"]) simp
  next
    case False
    obtain res where res: "ac_calls (serve env cmd a) = ac_calls a @ calls_of cmd"
      "ac_replies (serve env cmd a) = ac_replies a @ map (\<lambda>ch. (ch, res)) (request_of cmd)"
      "ac_failed (serve env cmd a) \<longleftrightarrow> res \<noteq> Ok ()" "ac_stopped (serve env cmd a) = ac_stopped a"
      using Cons.prems(1) False Cons.prems(2) by (rule serve_fields)
    show ?thesis
    proof (cases "res = Ok ()")
      case failing: False
      then have run: "actor_loop env (cmd # cmds) a = drain_pending cmds (serve env cmd a)"
        using res Cons.prems by (simp add: Let_def)
      show ?thesis
        unfolding loop_result_def run drain_fields
        using res failing Cons.prems False
        by (intro exI [of _ "[cmd]"] exI [of _ cmds]
            exI [of _ "map (\<lambda>ch. (ch, res)) (request_of cmd) @ map (\<lambda>ch. (ch, Err (InstanceFailedError ''terminated''))) (requests cmds)"])
          (auto simp: comp_def)
    next
      case ok: True
      then have run: "actor_loop env (cmd # cmds) a = actor_loop env cmds (serve env cmd a)"
        using res Cons.prems by (simp add: Let_def)
      have "loop_result env cmds (serve env cmd a) (actor_loop env cmds (serve env cmd a))"
        by (rule Cons.IH) (use Cons.prems res ok in auto)
      then obtain served rest new where IH: "cmds = served @ rest"
        "ac_calls (actor_loop env cmds (serve env cmd a)) = ac_calls (serve env cmd a) @ concat (map calls_of served)"
        "ac_replies (actor_loop env cmds (serve env cmd a)) = ac_replies (serve env cmd a) @ new"
        "if ac_failed (actor_loop env cmds (serve env cmd a))
         then \<not> ac_stopped (actor_loop env cmds (serve env cmd a)) \<and> map fst new = requests cmds \<and> CmdShutdown \<notin> set served
              \<and> (\<forall>(ch, res) \<in> set (drop (length (requests served)) new). res \<noteq> Ok ())
         else map fst new = requests served \<and> (\<forall>(ch, res) \<in> set new. res = Ok ())
              \<and> (if ac_stopped (actor_loop env cmds (serve env cmd a))
                 then \<exists>before. served = before @ [CmdShutdown] \<and> CmdShutdown \<notin> set before
                 else rest = [] \<and> CmdShutdown \<notin> set served)"
        unfolding loop_result_def by blast
      have shut: "\<exists>before. cmd # served = before @ [CmdShutdown] \<and> CmdShutdown \<notin> set before"
        if "served = before @ [CmdShutdown]" "CmdShutdown \<notin> set before" for before
        using that False by (intro exI [of _ "cmd # before"]) auto
      show ?thesis
        unfolding loop_result_def run
        using IH res ok False shut
        by (intro exI [of _ "cmd # served"] exI [of _ rest] exI [of _ "map (\<lambda>ch. (ch, res)) (request_of cmd) @ new"])
          (auto simp: comp_def split: if_splits)
    qed
  qed
qed

section \<open>The properties\<close>

lemma cleanup_fields:
  "ac_replies (cleanup env a) = ac_replies a" "ac_failed (cleanup env a) = ac_failed a" "ac_stopped (cleanup env a) = ac_stopped a"
  "ae_fuel_ok env \<Longrightarrow> ac_calls (cleanup env a) = ac_calls a @ [GuestStop, GuestDrop]"
proof -
  obtain r1 a1 r2 a2 where "call_guest env ''stop'' GuestStop a = (r1, a1)" "call_guest env ''drop'' GuestDrop a1 = (r2, a2)"
    by fastforce
  with call_guest_fields [OF this(1)] call_guest_fields [OF this(2)]
  show "ac_replies (cleanup env a) = ac_replies a" "ac_failed (cleanup env a) = ac_failed a"
    "ac_stopped (cleanup env a) = ac_stopped a" "ae_fuel_ok env \<Longrightarrow> ac_calls (cleanup env a) = ac_calls a @ [GuestStop, GuestDrop]"
    by (simp_all add: cleanup_def)
qed

lemma setup_call_Ok:
  assumes "setup_call env operation call a = Ok a'"
  shows "ae_fuel_ok env \<and> ac_replies a' = ac_replies a \<and> ac_failed a' = ac_failed a \<and> ac_stopped a' = ac_stopped a
    \<and> ac_calls a' = ac_calls a @ [call] \<and> (\<exists>r. call_guest env operation call a = (r, a'))"
  using assms call_guest_fields [of env operation call a]
  by (auto simp: setup_call_def split: if_splits prod.splits result.splits)

lemma actor_setup_Ok:
  assumes "actor_setup lib env now next_id https max_memory cfg g = Ok a"
  obtains h doc a1 r1 r2 where "ae_fuel_ok env" "actor_host lib now next_id https max_memory cfg = Ok h"
    "call_guest env ''instantiate'' GuestInstantiate
       \<lparr>ac_host = h, ac_guest = g, ac_replies = [], ac_calls = [], ac_failed = False, ac_stopped = False\<rparr> = (r1, a1)"
    "call_guest env ''constructor'' (GuestConstructor (wc_config_json cfg) doc) a1 = (r2, a)"
    "ac_replies a = []" "\<not> ac_failed a" "\<not> ac_stopped a"
    "ac_calls a = [GuestInstantiate, GuestConstructor (wc_config_json cfg) doc]"
  using assms by (auto simp: actor_setup_def split: if_splits dest!: setup_call_Ok)

text \<open>C5: A plugin that fails is cut off, and nobody waits for it in vain: of the commands in the queue a
  prefix is served, each by exactly one call of the plugin, and the plugin is called after that only
  to be stopped and dropped.  If a command failed, every request in the queue got exactly one reply, in
  order, and those behind the failing command an error; otherwise the served requests all got \<open>Ok\<close>
  and the prefix ends with the first shutdown or is the whole queue.  The actor reports success
  exactly when it was shut down without a failure.\<close>

theorem failing_plugin_is_cut_off:
  assumes "run_actor lib env now next_id https max_memory cfg cmds g = (r, Some a)"
  shows "\<exists>served rest doc. cmds = served @ rest
    \<and> ac_calls a = [GuestInstantiate, GuestConstructor (wc_config_json cfg) doc] @ concat (map calls_of served) @ [GuestStop, GuestDrop]
    \<and> (if ac_failed a
       then map fst (ac_replies a) = requests cmds \<and> CmdShutdown \<notin> set served
            \<and> (\<forall>(ch, res) \<in> set (drop (length (requests served)) (ac_replies a)). res \<noteq> Ok ())
       else map fst (ac_replies a) = requests served \<and> (\<forall>(ch, res) \<in> set (ac_replies a). res = Ok ())
            \<and> (if ac_stopped a then \<exists>before. served = before @ [CmdShutdown] \<and> CmdShutdown \<notin> set before
               else rest = [] \<and> CmdShutdown \<notin> set served))
    \<and> (r = Ok () \<longleftrightarrow> ac_stopped a \<and> \<not> ac_failed a)"
proof -
  from assms obtain a0 where a0: "actor_setup lib env now next_id https max_memory cfg g = Ok a0"
    "a = cleanup env (actor_loop env cmds a0)" "r = Ok () \<longleftrightarrow> ac_stopped a \<and> \<not> ac_failed a"
    by (auto simp: run_actor_def Let_def split: result.splits if_splits)
  obtain doc where start: "ae_fuel_ok env" "ac_replies a0 = []" "\<not> ac_failed a0" "\<not> ac_stopped a0"
    "ac_calls a0 = [GuestInstantiate, GuestConstructor (wc_config_json cfg) doc]"
    using a0(1) by (rule actor_setup_Ok)
  let ?l = "actor_loop env cmds a0"
  obtain served rest new where loop: "cmds = served @ rest" "ac_calls ?l = ac_calls a0 @ concat (map calls_of served)"
    "ac_replies ?l = ac_replies a0 @ new"
    "if ac_failed ?l
     then \<not> ac_stopped ?l \<and> map fst new = requests cmds \<and> CmdShutdown \<notin> set served
          \<and> (\<forall>(ch, res) \<in> set (drop (length (requests served)) new). res \<noteq> Ok ())
     else map fst new = requests served \<and> (\<forall>(ch, res) \<in> set new. res = Ok ())
          \<and> (if ac_stopped ?l then \<exists>before. served = before @ [CmdShutdown] \<and> CmdShutdown \<notin> set before
             else rest = [] \<and> CmdShutdown \<notin> set served)"
    using actor_loop_result [OF start(1,3,4), of cmds] unfolding loop_result_def by blast
  have fields: "ac_replies a = new" "ac_failed a = ac_failed ?l" "ac_stopped a = ac_stopped ?l"
    "ac_calls a = [GuestInstantiate, GuestConstructor (wc_config_json cfg) doc] @ concat (map calls_of served) @ [GuestStop, GuestDrop]"
    using loop(2,3) start(1,2,5) by (simp_all add: a0(2) cleanup_fields)
  show ?thesis
    unfolding a0(3) fields using loop(1,4)
    by (intro exI [of _ served] exI [of _ rest] exI [of _ doc]) (simp split: if_splits)
qed

text \<open>What the engine guarantees: whatever a call of the plugin does to the host state, it does through
  the imports.\<close>

definition sandboxed :: "'u guest_lib \<Rightarrow> 'g guest \<Rightarrow> bool" where
  "sandboxed l gu \<longleftrightarrow>
     (\<forall>call g h. \<exists>used. host_run l (map GuestCalls used) (h, []) = Some (snd (snd (gu_call gu call g h)), []))"

definition state_ok :: "host_lib \<Rightarrow> json_schema \<Rightarrow> json \<Rightarrow> host_state \<Rightarrow> bool" where
  "state_ok lib schema initial h \<longleftrightarrow>
     us_schema (hs_ui h) = schema \<and> validate_value schema (us_state (hs_ui h)) 0 = Ok ()
     \<and> (us_state (hs_ui h) = initial \<or> state_fits lib (us_state (hs_ui h)))"

lemma host_exec_state_ok:
  assumes "state_ok (gl_host l) schema initial h" and "host_exec l c h = Some h'"
  shows "state_ok (gl_host l) schema initial h'"
proof (cases "\<exists>now p. c = HostUpdateState now p")
  case True
  then obtain now p res where step: "host_update_state (gl_host l) now p h = (res, h')" using assms(2) by (metis host_exec.simps(1) option.inject prod.collapse)
  from step show ?thesis by (cases rule: host_update_cases) (use assms(1) in \<open>auto simp: state_ok_def\<close>)
next
  case False
  with host_exec_ui [OF assms(2)] assms(1) show ?thesis by (simp add: state_ok_def)
qed

lemma imports_state_ok:
  "host_run l (map GuestCalls used) (h, []) = Some (h', []) \<Longrightarrow> state_ok (gl_host l) schema initial h
     \<Longrightarrow> state_ok (gl_host l) schema initial h'"
proof (induction used arbitrary: h)
  case (Cons c used)
  then obtain h1 where "host_exec l c h = Some h1" "host_run l (map GuestCalls used) (h1, []) = Some (h', [])"
    by (auto simp: bind_eq_Some_conv)
  with Cons.IH host_exec_state_ok Cons.prems(2) show ?case by blast
qed simp

lemma call_guest_state_ok:
  assumes "sandboxed l (ae_guest env)" and "call_guest env operation call a = (r, a')" and "state_ok (gl_host l) schema initial (ac_host a)"
  shows "state_ok (gl_host l) schema initial (ac_host a')"
proof (cases "ae_fuel_ok env")
  case True
  obtain o' g h where call: "gu_call (ae_guest env) call (ac_guest a) (ac_host a) = (o', g, h)" by (cases "gu_call (ae_guest env) call (ac_guest a) (ac_host a)") auto
  then obtain used where "host_run l (map GuestCalls used) (ac_host a, []) = Some (h, [])"
    using assms(1) unfolding sandboxed_def by (metis snd_conv)
  with call True assms(2,3) imports_state_ok show ?thesis by (auto simp: call_guest_def)
qed (use assms in \<open>auto simp: call_guest_def\<close>)

lemma state_ok_broker [simp]: "state_ok lib schema initial (h\<lparr>hs_broker := b\<rparr>) = state_ok lib schema initial h"
  by (simp add: state_ok_def)

lemma serve_state_ok:
  assumes "sandboxed l (ae_guest env)" and "state_ok (gl_host l) schema initial (ac_host a)"
  shows "state_ok (gl_host l) schema initial (ac_host (serve env cmd a))"
  using assms
  by (cases cmd) (auto simp: reply_def handle_operation_completion_def host_timer_complete_def discard_in_host_def
      dest: call_guest_state_ok split: prod.split result.split option.split)

lemma drain_host [simp]: "ac_host (drain_pending cmds a) = ac_host a"
  by (induction cmds a rule: drain_pending.induct) (auto simp: reply_def)

lemma actor_loop_state_ok:
  assumes "sandboxed l (ae_guest env)"
  shows "state_ok (gl_host l) schema initial (ac_host a) \<Longrightarrow> state_ok (gl_host l) schema initial (ac_host (actor_loop env cmds a))"
  by (induction cmds arbitrary: a) (auto simp: Let_def intro: serve_state_ok [OF assms])

text \<open>C4: No plugin can bring its instance into a state its schema does not allow: if the plugin reaches the
  host only through the imports, then whatever it answers to the commands of its queue, however it
  fails, and whatever it calls meanwhile, the state of its interface at the end is the initial one
  or at most 64 KiB, and conforms to the schema of its document.\<close>

theorem plugin_keeps_schema:
  assumes "sandboxed l (ae_guest env)" and "run_actor (gl_host l) env now next_id https max_memory cfg cmds g = (r, Some a)"
  shows "validate_value (wc_state_schema cfg) (us_state (hs_ui (ac_host a))) 0 = Ok ()
    \<and> (us_state (hs_ui (ac_host a)) = wc_initial_state cfg \<or> state_fits (gl_host l) (us_state (hs_ui (ac_host a))))"
proof -
  let ?ok = "state_ok (gl_host l) (wc_state_schema cfg) (wc_initial_state cfg)"
  from assms(2) obtain a0 where a0: "actor_setup (gl_host l) env now next_id https max_memory cfg g = Ok a0"
    "a = cleanup env (actor_loop env cmds a0)"
    by (auto simp: run_actor_def Let_def split: result.splits if_splits)
  obtain h doc a1 r1 r2 where start: "actor_host (gl_host l) now next_id https max_memory cfg = Ok h"
    "call_guest env ''instantiate'' GuestInstantiate
       \<lparr>ac_host = h, ac_guest = g, ac_replies = [], ac_calls = [], ac_failed = False, ac_stopped = False\<rparr> = (r1, a1)"
    "call_guest env ''constructor'' (GuestConstructor (wc_config_json cfg) doc) a1 = (r2, a0)"
    using a0(1) by (rule actor_setup_Ok)
  have "?ok h" using start(1) by (auto simp: actor_host_def Let_def host_new_def state_ok_def)
  then have "?ok (ac_host a1)" using call_guest_state_ok [OF assms(1) start(2)] by simp
  then have "?ok (ac_host (actor_loop env cmds a0))"
    by (intro actor_loop_state_ok assms(1) call_guest_state_ok [OF assms(1) start(3)])
  moreover obtain s1 b1 s2 b2 where "call_guest env ''stop'' GuestStop (actor_loop env cmds a0) = (s1, b1)"
    "call_guest env ''drop'' GuestDrop b1 = (s2, b2)" by fastforce
  ultimately have "?ok (ac_host a)"
    using call_guest_state_ok [OF assms(1)] by (fastforce simp: a0(2) cleanup_def)
  then show ?thesis by (simp add: state_ok_def)
qed

section \<open>A concrete plugin\<close>

text \<open>It shows the time when it is started and traps at one event.\<close>

definition clock_guest :: "nat guest" where
  "clock_guest =
     \<lparr>gu_call = (\<lambda>call g h.
        if call = GuestStart then (GuestOk, g + 1, snd (host_update_state (gl_host clock_lib) 5 ''{}'' h))
        else (if call = GuestEvent (EventOther ''boom'') then GuestTrap ''unreachable'' else GuestOk, g, h))\<rparr>"

definition clock_env :: "nat actor_env" where
  "clock_env = \<lparr>ae_guest = clock_guest, ae_fuel_ok = True, ae_component_ok = (\<lambda>_. True), ae_linker_ok = True\<rparr>"

definition clock_config :: widget_config where
  "clock_config =
     \<lparr>wc_plugin = ''dev.clock'', wc_instance = 1, wc_generation = 1, wc_wasm = ''w'', wc_initial_state = JObj [],
      wc_state_schema = clock_schema, wc_config_json = ''{}'', wc_grants = example_grant\<rparr>"

lemma clock_sandboxed: "sandboxed clock_lib (ae_guest clock_env)"
  unfolding sandboxed_def
proof (intro allI)
  fix call and g :: nat and h
  show "\<exists>used. host_run clock_lib (map GuestCalls used) (h, []) = Some (snd (snd (gu_call (ae_guest clock_env) call g h)), [])"
    by (cases "call = GuestStart")
      (auto simp: clock_env_def clock_guest_def intro: exI [of _ "[HostUpdateState 5 ''{}'']"] exI [of _ "[]"])
qed

lemma clock_setup: "\<exists>a. actor_setup (gl_host clock_lib) clock_env 0 7 None DEFAULT_MAX_MEMORY clock_config 0 = Ok a"
proof -
  have "br_instance (broker_new 0 ''dev.clock'' 1 example_grant) = 1"
    "br_plugin (broker_new 0 ''dev.clock'' 1 example_grant) = ''dev.clock''"
    "br_generation (broker_new 0 ''dev.clock'' 1 example_grant) = 1"
    by (simp_all add: broker_new_def Let_def example_grant_def)
  then have "\<exists>h. actor_host (gl_host clock_lib) 0 7 None DEFAULT_MAX_MEMORY clock_config = Ok h"
    by (simp add: actor_host_def clock_config_def Let_def registry_new_def validate_limits_def default_limits_def seconds_def
        broker_with_operations_def clock_initial) (simp add: clock_lib_def)
  then show ?thesis
    by (auto simp: actor_setup_def clock_env_def setup_call_def call_guest_def clock_guest_def instance_call_error_def)
qed

definition clock_commands :: "instance_command list" where
  "clock_commands = [CmdStart 10, CmdEvent (EventOther ''boom'') 11, CmdEvent (EventOther ''tick'') 12, CmdShutdown]"

lemma clock_run_actor:
  "\<exists>r a. run_actor (gl_host clock_lib) clock_env 0 7 None DEFAULT_MAX_MEMORY clock_config clock_commands 0 = (r, Some a)
     \<and> ac_failed a \<and> r \<noteq> Ok ()"
proof -
  obtain a where a: "actor_setup (gl_host clock_lib) clock_env 0 7 None DEFAULT_MAX_MEMORY clock_config 0 = Ok a"
    using clock_setup by blast
  then have "\<not> ac_failed a" "\<not> ac_stopped a" by (auto elim: actor_setup_Ok)
  with a show ?thesis
    by (simp add: run_actor_def Let_def clock_commands_def cleanup_fields call_guest_def clock_env_def clock_guest_def
        instance_call_error_def reply_def drain_fields)
qed

lemma failing_plugin_is_cut_off_witness:
  "\<exists>r a. run_actor (gl_host clock_lib) clock_env 0 7 None DEFAULT_MAX_MEMORY clock_config clock_commands 0 = (r, Some a)
     \<and> map fst (ac_replies a) = [10, 11, 12]"
proof -
  obtain r a where run: "run_actor (gl_host clock_lib) clock_env 0 7 None DEFAULT_MAX_MEMORY clock_config clock_commands 0 = (r, Some a)"
    "ac_failed a" using clock_run_actor by blast
  from failing_plugin_is_cut_off [OF run(1)] run show ?thesis by (auto simp: clock_commands_def)
qed

lemma plugin_keeps_schema_witness:
  "\<exists>r a. run_actor (gl_host clock_lib) clock_env 0 7 None DEFAULT_MAX_MEMORY clock_config clock_commands 0 = (r, Some a)
     \<and> validate_value clock_schema (us_state (hs_ui (ac_host a))) 0 = Ok ()"
proof -
  obtain r a where run: "run_actor (gl_host clock_lib) clock_env 0 7 None DEFAULT_MAX_MEMORY clock_config clock_commands 0 = (r, Some a)"
    using clock_run_actor by blast
  from plugin_keeps_schema [OF clock_sandboxed run] run show ?thesis by (auto simp: clock_config_def)
qed

end
