(* ===== verification/Plugin_Manager.thy ===== *)
theory Plugin_Manager
  imports Install Store_Spec Https "HOL-Library.Multiset"
begin

text \<open>
  Loading instances for the shell, \<open>floatile-shell/src/plugin_manager.rs\<close> and
  \<open>compose_instance_https\<close> of \<open>floatile-shell/src/runtime_ui.rs\<close>: the exact installation of an instance
  is loaded, its configuration and, for a trusted installation, its signature are checked again, and
  the connections granted to the instance are composed into its HTTPS service.

  \<open>advance_and_get\<close> is the part of \<open>plan_running_instances\<close> and of the supervisor's \<open>prepare_actions\<close>
  that is the same text in both: the generation is advanced and the record is read again.
\<close>

section \<open>Installed plugins\<close>

record installed_plugin =
  pl_manifest :: manifest
  pl_meta :: install_meta
  pl_wasm :: bytes
  pl_ui_bytes :: bytes

record runnable_instance =
  rn_instance :: plugin_instance
  rn_plugin :: installed_plugin

text \<open>The detail texts are left out.\<close>

record instance_load_failure =
  lf_instance :: u64
  lf_plugin :: string
  lf_code :: string

record runtime_instance_plan =
  rp_ready :: "runnable_instance list"
  rp_failures :: "instance_load_failure list"

datatype load_error =
    LoadRead
  | LoadInvalidMeta
  | LoadDigestMismatch string string
  | LoadInstallationMismatch string string
  | LoadMissingManifest
  | LoadMissingEntrypoint string
  | LoadInvalidManifest manifest_error
  | LoadInvalidConfig config_validation_error
  | LoadMissingSignature
  | LoadUnknownPublisher
  | LoadSignature signature_error
  | LoadTrustStore

fun signature_load_code :: "signature_error \<Rightarrow> string" where
  "signature_load_code PublisherRevoked = ''FLOAD_PUBLISHER_REVOKED''"
| "signature_load_code KeyRevoked = ''FLOAD_KEY_REVOKED''"
| "signature_load_code UnknownKey = ''FLOAD_KEY_UNKNOWN''"
| "signature_load_code DigestMismatch = ''FLOAD_SIGNATURE_DIGEST''"
| "signature_load_code InvalidSignature = ''FLOAD_SIGNATURE_INVALID''"
| "signature_load_code _ = ''FLOAD_SIGNATURE_MALFORMED''"

fun load_error_code :: "load_error \<Rightarrow> string" where
  "load_error_code LoadRead = ''FLOAD_READ''"
| "load_error_code LoadInvalidMeta = ''FLOAD_INVALID_META''"
| "load_error_code (LoadDigestMismatch i f) = ''FLOAD_DIGEST_MISMATCH''"
| "load_error_code (LoadInstallationMismatch i v) = ''FLOAD_INSTALLATION_MISMATCH''"
| "load_error_code LoadMissingManifest = ''FLOAD_MISSING_MANIFEST''"
| "load_error_code (LoadMissingEntrypoint f) = ''FLOAD_MISSING_ENTRYPOINT''"
| "load_error_code (LoadInvalidManifest e) = ''FLOAD_INVALID_MANIFEST''"
| "load_error_code (LoadInvalidConfig e) = config_validation_code e"
| "load_error_code LoadMissingSignature = ''FLOAD_SIGNATURE_MISSING''"
| "load_error_code LoadUnknownPublisher = ''FLOAD_PUBLISHER_UNKNOWN''"
| "load_error_code (LoadSignature e) = signature_load_code e"
| "load_error_code LoadTrustStore = ''FLOAD_TRUST_STORE''"

fun map_catalog_error :: "catalog_error \<Rightarrow> load_error" where
  "map_catalog_error CatRead = LoadRead"
| "map_catalog_error CatInvalidMeta = LoadInvalidMeta"
| "map_catalog_error (CatDigestMismatch i f) = LoadDigestMismatch i f"
| "map_catalog_error CatMetadataMismatch = LoadInvalidMeta"
| "map_catalog_error (CatInvalidIdentity e) = LoadInvalidMeta"
| "map_catalog_error (CatInvalidManifest e) = LoadInvalidManifest e"

definition installed_plugin_of :: "installed_installation \<Rightarrow> (installed_plugin, load_error) result" where
  "installed_plugin_of i =
     (let logic = ep_logic (mf_entrypoints (ii_manifest i)); ui = ep_ui (mf_entrypoints (ii_manifest i)) in
      try_bind (ok_or (LoadMissingEntrypoint logic) (ii_file i logic)) (\<lambda>wasm.
      try_bind (ok_or (LoadMissingEntrypoint ui) (ii_file i ui)) (\<lambda>ui_bytes.
      Ok \<lparr>pl_manifest = ii_manifest i, pl_meta = ii_meta i, pl_wasm = wasm, pl_ui_bytes = ui_bytes\<rparr>)))"

text \<open>\<open>Option::transpose\<close>\<close>

definition transpose_option :: "('a \<Rightarrow> ('b, 'e) result) \<Rightarrow> 'a option \<Rightarrow> ('b option, 'e) result" where
  "transpose_option f x = (case x of None \<Rightarrow> Ok None | Some a \<Rightarrow> try_bind (f a) (\<lambda>b. Ok (Some b)))"

section \<open>Loading\<close>

text \<open>The directory of the plugins, the third-party code and the JSON Schema validator.\<close>

record 'v plugin_env =
  pe_lib :: "'v install_lib"
  pe_store_lib :: "'v store_lib"
  pe_validator_for :: "json \<Rightarrow> (json \<Rightarrow> string list) option"
  pe_read_dir :: "path \<Rightarrow> string list option"
  pe_dir :: path

definition load_installed ::
  "'v::linorder plugin_env \<Rightarrow> string \<Rightarrow> fs \<Rightarrow> (installed_plugin option, load_error) result"
where
  "load_installed env pid fs =
     try_bind (map_err map_catalog_error (load_highest (pe_lib env) (pe_read_dir env) (pe_dir env) pid fs))
       (transpose_option installed_plugin_of)"

definition reference_error :: "installation_ref \<Rightarrow> catalog_error \<Rightarrow> load_error" where
  "reference_error r e =
     (if e = CatMetadataMismatch then LoadInstallationMismatch (ir_plugin r) (ir_version r) else map_catalog_error e)"

definition load_installation ::
  "'v plugin_env \<Rightarrow> installation_ref \<Rightarrow> fs \<Rightarrow> (installed_plugin option, load_error) result"
where
  "load_installation env r fs =
     try_bind (map_err (reference_error r) (load_reference (pe_lib env) (pe_dir env) r fs))
       (transpose_option installed_plugin_of)"

definition list_installed :: "'v::linorder plugin_env \<Rightarrow> fs \<Rightarrow> (installed_plugin list, load_error) result" where
  "list_installed env fs =
     try_bind (map_err map_catalog_error (list_highest (pe_lib env) (pe_read_dir env) (pe_dir env) fs))
       (\<lambda>is. try_fold (\<lambda>i acc. try_bind (installed_plugin_of i) (\<lambda>p. Ok (acc @ [p]))) is [])"

definition verify_runtime_trust :: "'v install_lib \<Rightarrow> installed_installation \<Rightarrow> trust_db \<Rightarrow> (unit, load_error) result" where
  "verify_runtime_trust lib i d =
     (if im_trust (ii_meta i) = Unsigned then Ok ()
      else
        let pub = pub_id (mf_publisher (ii_manifest i)) in
        try_bind (map_err (\<lambda>_. LoadTrustStore) (trust_get (il_crypto lib) pub d)) (\<lambda>found.
        try_bind (ok_or LoadUnknownPublisher found) (\<lambda>trust.
        try_bind (installed_files LoadRead i) (\<lambda>files.
        try_bind (ok_or LoadMissingSignature (bt_lookup SIGNATURE_FILE files)) (\<lambda>envelope.
        map_err LoadSignature (verify_signature_envelope (il_crypto lib) envelope files pub (verifier_binding trust)))))))"

definition load_runnable ::
  "'v plugin_env \<Rightarrow> (installed_installation \<Rightarrow> (unit, load_error) result) \<Rightarrow> plugin_instance \<Rightarrow> fs
     \<Rightarrow> (runnable_instance option, load_error) result"
where
  "load_runnable env check p fs =
     try_bind (map_err (reference_error (pi_installation p)) (load_reference (pe_lib env) (pe_dir env) (pi_installation p) fs))
       (\<lambda>found. case found of
          None \<Rightarrow> Ok None
        | Some i \<Rightarrow>
            try_bind (map_err LoadInvalidConfig (ii_validate_config (pe_lib env) (pe_validator_for env) i (pi_config p))) (\<lambda>_.
            try_bind (check i) (\<lambda>_.
            try_bind (installed_plugin_of i) (\<lambda>plugin.
            Ok (Some \<lparr>rn_instance = p, rn_plugin = plugin\<rparr>)))))"

definition load_runnable_instance :: "'v plugin_env \<Rightarrow> plugin_instance \<Rightarrow> fs \<Rightarrow> (runnable_instance option, load_error) result" where
  "load_runnable_instance env = load_runnable env (\<lambda>_. Ok ())"

definition load_runnable_instance_with_trust ::
  "'v plugin_env \<Rightarrow> trust_db \<Rightarrow> plugin_instance \<Rightarrow> fs \<Rightarrow> (runnable_instance option, load_error) result"
where
  "load_runnable_instance_with_trust env trust = load_runnable env (\<lambda>i. verify_runtime_trust (pe_lib env) i trust)"

section \<open>Starting\<close>

definition advance_and_get ::
  "'v store_lib \<Rightarrow> u64 \<Rightarrow> plugin_instance \<Rightarrow> db \<Rightarrow> (plugin_instance, string) result \<times> db"
where
  "advance_and_get lib now p d =
     (case instance_advance_generation (pi_id p) (max now (pi_updated_at p)) d of
        (Err _, d') \<Rightarrow> (Err ''FINSTANCE_STORE'', d')
      | (Ok None, d') \<Rightarrow> (Err ''FINSTANCE_GENERATION'', d')
      | (Ok (Some _), d') \<Rightarrow>
          (case instance_get lib (pi_id p) d' of
             Err _ \<Rightarrow> (Err ''FINSTANCE_STORE'', d')
           | Ok None \<Rightarrow> (Err ''FINSTANCE_MISSING'', d')
           | Ok (Some q) \<Rightarrow> (Ok q, d')))"

definition load_started ::
  "'v plugin_env \<Rightarrow> trust_db \<Rightarrow> plugin_instance \<Rightarrow> fs \<Rightarrow> (runnable_instance, string) result"
where
  "load_started env trust p fs =
     (case load_runnable_instance_with_trust env trust p fs of
        Err e \<Rightarrow> Err (load_error_code e)
      | Ok None \<Rightarrow> Err ''FLOAD_INSTALLATION_MISSING''
      | Ok (Some r) \<Rightarrow> Ok r)"

definition plan_instance ::
  "'v plugin_env \<Rightarrow> trust_db \<Rightarrow> fs \<Rightarrow> u64 \<Rightarrow> plugin_instance \<Rightarrow> runtime_instance_plan \<times> db \<Rightarrow> runtime_instance_plan \<times> db"
where
  "plan_instance env trust fs now p acc =
     (if pi_desired p \<noteq> DesiredRunning then acc
      else
        let (r, d) = advance_and_get (pe_store_lib env) now p (snd acc) in
        case try_bind r (\<lambda>q. load_started env trust q fs) of
          Ok runnable \<Rightarrow> ((fst acc)\<lparr>rp_ready := rp_ready (fst acc) @ [runnable]\<rparr>, d)
        | Err code \<Rightarrow> ((fst acc)\<lparr>rp_failures := rp_failures (fst acc)
              @ [\<lparr>lf_instance = pi_id p, lf_plugin = ir_plugin (pi_installation p), lf_code = code\<rparr>]\<rparr>, d))"

definition plan_running_instances ::
  "'v plugin_env \<Rightarrow> trust_db \<Rightarrow> fs \<Rightarrow> u64 \<Rightarrow> db \<Rightarrow> (runtime_instance_plan, store_error) result \<times> db"
where
  "plan_running_instances env trust fs now d =
     (case instance_list (pe_store_lib env) d of
        Err e \<Rightarrow> (Err e, d)
      | Ok ps \<Rightarrow>
          (case fold (plan_instance env trust fs now) ps (\<lparr>rp_ready = [], rp_failures = []\<rparr>, d) of
             (plan, d') \<Rightarrow> (Ok plan, d')))"

text \<open>\<open>None\<close> for a failing read and for a grant without its connection, both \<open>RuntimeUiError::Runtime\<close>.\<close>

definition compose_instance_https :: "u64 \<Rightarrow> manifest \<Rightarrow> credential_vault \<Rightarrow> db \<Rightarrow> https_service option" where
  "compose_instance_https iid m vault d =
     (case grants_for_instance iid d of
        Err _ \<Rightarrow> None
      | Ok grants \<Rightarrow>
          (case try_fold (\<lambda>g acc. case connection_get (cg_connection g) d of
                                    Ok (Some c) \<Rightarrow> Ok (acc @ [c])
                                  | _ \<Rightarrow> Err ()) grants [] of
             Err _ \<Rightarrow> None
           | Ok connections \<Rightarrow> Some (https_new (mf_http_templates m) connections vault)))"

section \<open>What is started\<close>

text \<open>The files an installation was loaded with are the ones its signature is checked against.\<close>

lemma fold_reinsert:
  "try_fold (\<lambda>name files. try_bind (ok_or e (bt_lookup name m)) (\<lambda>b. Ok (bt_insert name b files))) ks acc = Ok out
     \<Longrightarrow> bt_lookup k out = (if k \<in> set ks then bt_lookup k m else bt_lookup k acc)"
  by (induction ks arbitrary: acc) (auto split: option.splits)

lemma reinsert_wf:
  "try_fold (\<lambda>name files. try_bind (ok_or e (f name)) (\<lambda>b. Ok (bt_insert name b files))) ks m = Ok m'
     \<Longrightarrow> bt_wf m \<Longrightarrow> bt_wf m'"
  by (induction ks arbitrary: m) auto

lemma load_fold_keys:
  "try_fold (load_file lib meta dir fs) entries acc = Ok out
     \<Longrightarrow> bt_lookup k out \<noteq> None \<longleftrightarrow> k \<in> fst ` set entries \<or> bt_lookup k acc \<noteq> None"
  by (induction entries arbitrary: acc) (auto simp: load_file_def split: if_splits)

lemma load_runnable_Some:
  assumes "load_runnable env check p fs = Ok (Some r)"
  obtains i where "load_reference (pe_lib env) (pe_dir env) (pi_installation p) fs = Ok (Some i)"
    "ii_validate_config (pe_lib env) (pe_validator_for env) i (pi_config p) = Ok ()" "check i = Ok ()"
    "installed_plugin_of i = Ok (rn_plugin r)" "rn_instance r = p"
  using assms by (auto simp: load_runnable_def map_err_Ok_iff split: option.splits)

lemma installed_plugin_Ok:
  "installed_plugin_of i = Ok q \<Longrightarrow> pl_manifest q = ii_manifest i \<and> pl_meta q = ii_meta i
     \<and> bt_lookup (ep_logic (mf_entrypoints (ii_manifest i))) (ii_files i) = Some (pl_wasm q)
     \<and> bt_lookup (ep_ui (mf_entrypoints (ii_manifest i))) (ii_files i) = Some (pl_ui_bytes q)"
  by (auto simp: installed_plugin_of_def Let_def ii_file_def)


lemma installed_files_loaded:
  assumes load: "load_from_dir lib dir fs = Ok i" and files: "installed_files e i = Ok out"
  shows "out = ii_files i"
proof -
  from load have all: "try_fold (load_file lib (ii_meta i) dir fs) (im_files (ii_meta i)) [] = Ok (ii_files i)"
    by (rule load_from_dir_Ok)
  have "bt_wf (ii_files i)"
  proof -
    have "bt_wf m \<Longrightarrow> bt_wf (fold (\<lambda>(name, digest). bt_insert name (the (fs_read_in dir name fs))) entries m)" for entries :: "(string \<times> string) list" and m
      by (induction entries arbitrary: m) auto
    with load_files_ok(2) [OF all] show ?thesis by simp
  qed
  moreover have "bt_wf out"
    by (rule reinsert_wf [OF files [unfolded installed_files_def] bt_wf_Nil])
  moreover have "bt_lookup k out = bt_lookup k (ii_files i)" for k
    using fold_reinsert [OF files [unfolded installed_files_def ii_file_def], of k] load_fold_keys [OF all, of k]
    by (auto simp: bt_keys_def)
  ultimately show ?thesis by (intro bt_eqI)
qed

text \<open>The publisher of a manifest vouches for these files: the host stores it as active, and an active key of it
  signed their digest.\<close>

definition vouched :: "crypto \<Rightarrow> trust_db \<Rightarrow> string \<Rightarrow> file_set \<Rightarrow> bool" where
  "vouched cr d pub files \<longleftrightarrow>
     (\<exists>key verify sb row key_row. bt_lookup pub (tb_publishers d) = Some row \<and> ur_state row = ''active''
        \<and> ((pub, publisher_key_id cr key), key_row) \<in> set (tb_keys d) \<and> xr_public_key key_row = key
        \<and> xr_state key_row = ''active'' \<and> cr_verify cr key = Some verify
        \<and> verify (dsse_pae PACKAGE_DIGEST_PAYLOAD_TYPE (signable_content_digest cr files)) sb)"

lemma verify_runtime_trust_Ok:
  assumes load: "load_from_dir lib dir fs = Ok i" and ok: "verify_runtime_trust lib i d = Ok ()"
  shows "im_trust (ii_meta i) = Unsigned \<or> vouched (il_crypto lib) d (pub_id (mf_publisher (ii_manifest i))) (ii_files i)"
proof (cases "im_trust (ii_meta i) = Unsigned")
  case False
  with ok obtain trust files envelope where get: "trust_get (il_crypto lib) (pub_id (mf_publisher (ii_manifest i))) d = Ok (Some trust)"
    and files: "installed_files LoadRead i = Ok files"
    and sig: "verify_signature_envelope (il_crypto lib) envelope files (pub_id (mf_publisher (ii_manifest i))) (verifier_binding trust) = Ok ()"
    by (auto simp: verify_runtime_trust_def Let_def)
  from binding_key_active [OF get sig] show ?thesis
    unfolding vouched_def installed_files_loaded [OF load files] by metis
qed simp

text \<open>The configuration is one the manifest allows.\<close>

definition config_conforms :: "'v plugin_env \<Rightarrow> manifest \<Rightarrow> file_set \<Rightarrow> json_map \<Rightarrow> bool" where
  "config_conforms env m files config \<longleftrightarrow>
     (case mf_config_schema m of
        None \<Rightarrow> config = []
      | Some path \<Rightarrow> \<exists>bytes schema. bt_lookup path files = Some bytes \<and> il_parse_json (pe_lib env) bytes = Some schema
          \<and> config_validate_schema (pe_validator_for env) config schema = Ok ())"

lemma ii_validate_config_Ok:
  "ii_validate_config (pe_lib env) (pe_validator_for env) i config = Ok ()
     \<Longrightarrow> config_conforms env (ii_manifest i) (ii_files i) config"
  by (auto simp: ii_validate_config_def config_conforms_def ii_file_def split: option.splits if_splits)

text \<open>C7: Whatever is handed to the runtime for an instance was checked at that moment: it is the version
  the instance names, its files have the digest the instance is pinned to, the code and the user
  interface are two of these files, the configuration is one the schema in them allows, and unless the
  installation was made without a signature, its publisher and one of its keys are trusted now and
  signed exactly these files.\<close>

theorem runnable_is_verified:
  assumes load: "load_runnable_instance_with_trust env trust p fs = Ok (Some r)"
  shows "rn_instance r = p \<and> mf_id (pl_manifest (rn_plugin r)) = ir_plugin (pi_installation p)
    \<and> mf_version (pl_manifest (rn_plugin r)) = ir_version (pi_installation p)
    \<and> (\<exists>files. content_digest (il_sha256 (pe_lib env)) files = ir_digest (pi_installation p)
        \<and> bt_lookup (ep_logic (mf_entrypoints (pl_manifest (rn_plugin r)))) files = Some (pl_wasm (rn_plugin r))
        \<and> bt_lookup (ep_ui (mf_entrypoints (pl_manifest (rn_plugin r)))) files = Some (pl_ui_bytes (rn_plugin r))
        \<and> config_conforms env (pl_manifest (rn_plugin r)) files (pi_config p)
        \<and> (im_trust (pl_meta (rn_plugin r)) = Unsigned
            \<or> vouched (il_crypto (pe_lib env)) trust (pub_id (mf_publisher (pl_manifest (rn_plugin r)))) files))"
proof -
  from load obtain i where i: "load_reference (pe_lib env) (pe_dir env) (pi_installation p) fs = Ok (Some i)"
    "ii_validate_config (pe_lib env) (pe_validator_for env) i (pi_config p) = Ok ()"
    "verify_runtime_trust (pe_lib env) i trust = Ok ()" "installed_plugin_of i = Ok (rn_plugin r)" "rn_instance r = p"
    unfolding load_runnable_instance_with_trust_def by (rule load_runnable_Some)
  note loaded = load_reference_Some [OF i(1)]
  show ?thesis
    using installed_plugin_Ok [OF i(4)] ii_validate_config_Ok [OF i(2)] verify_runtime_trust_Ok [OF loaded(1) i(3)]
      loaded_reference_digest [OF loaded] i(5) by auto
qed


section \<open>Advancing generations\<close>

text \<open>The list of the instances, row by row; the keys are in the 64-bit range of SQLite.\<close>

definition instance_table :: "'v store_lib \<Rightarrow> db \<Rightarrow> plugin_instance list \<Rightarrow> bool" where
  "instance_table lib d ps \<longleftrightarrow> bt_wf (db_instances d) \<and> (\<forall>key \<in> fst ` set (db_instances d). key < 2 ^ 63)
     \<and> list_all2 (\<lambda>(key, row) p. row_to_instance lib key row = Ok p) (db_instances d) ps"

lemma instance_list_all2:
  "try_fold (\<lambda>(key, row) acc. try_bind (dec key row) (\<lambda>p. Ok (acc @ [p]))) rows acc = Ok ps
     \<longleftrightarrow> (\<exists>new. ps = acc @ new \<and> list_all2 (\<lambda>(key, row) p. dec key row = Ok p) rows new)"
proof (induction rows arbitrary: acc)
  case (Cons e rows)
  obtain key row where e: "e = (key, row)" by (cases e)
  show ?case
    by (cases "dec key row") (auto simp: e Cons.IH list_all2_Cons1)
qed auto

lemma instance_table_list: "instance_table lib d ps \<Longrightarrow> instance_list lib d = Ok ps"
  using instance_list_all2 [of "row_to_instance lib" "db_instances d" "[]" ps] by (auto simp: instance_table_def instance_list_def)

lemma row_to_instance_id: "row_to_instance lib key row = Ok p \<Longrightarrow> key < 2 ^ 63 \<Longrightarrow> uint (pi_id p) = key"
  by (auto simp: row_to_instance_def read_u64_def restore_Ok_iff uint_of_next split: if_splits)

lemma table_ids:
  assumes "instance_table lib d ps"
  shows "map fst (db_instances d) = map (\<lambda>p. uint (pi_id p)) ps" and "distinct (map pi_id ps)"
proof -
  have "list_all2 (\<lambda>(key, row) p. row_to_instance lib key row = Ok p) rows qs \<Longrightarrow> \<forall>key \<in> fst ` set rows. key < 2 ^ 63
      \<Longrightarrow> map fst rows = map (\<lambda>p. uint (pi_id p)) qs" for rows :: "(int \<times> instance_row) list" and qs
    by (induction rows qs rule: list_all2_induct) (auto simp: row_to_instance_id)
  with assms show ids: "map fst (db_instances d) = map (\<lambda>p. uint (pi_id p)) ps" by (auto simp: instance_table_def)
  have "distinct (map fst (db_instances d))" using assms by (auto simp: instance_table_def bt_wf_distinct)
  then have "distinct (map uint (map pi_id ps))" by (simp add: ids comp_def)
  then show "distinct (map pi_id ps)" by (metis distinct_map)
qed

text \<open>A new generation in a row is a new generation in its record.\<close>

lemma row_advanced:
  assumes "row_to_instance lib key r = Ok p" and "nr_created r \<le> t" "0 \<le> t" "t < 2 ^ 63"
  shows "row_to_instance lib key (r\<lparr>nr_generation := nr_generation r + 1, nr_updated := t\<rparr>)
    = Ok (p\<lparr>pi_generation := pi_generation p + 1, pi_updated_at := word_of_int t\<rparr>)"
proof -
  have "(word_of_int c :: u64) \<le> word_of_int t" if "0 \<le> c" "c \<le> t" for c
    using that assms(3,4) by (simp only: word_le_def uint_of_next order.strict_trans1)
  with assms show ?thesis
    by (auto simp: row_to_instance_def read_u64_def restore_Ok_iff split: if_splits)
qed

lemma bt_insert_present:
  "bt_wf m \<Longrightarrow> bt_lookup k m = Some v' \<Longrightarrow> bt_insert k v m = map (\<lambda>e. if fst e = k then (k, v) else e) m"
proof (induction m)
  case (Cons e m)
  show ?case
  proof (cases "fst e = k")
    case True
    with Cons.prems have "\<forall>e' \<in> set m. fst e' \<noteq> k" by (cases e) (auto simp: bt_wf_Cons)
    then have "map (\<lambda>e. if fst e = k then (k, v) else e) m = m" by (intro map_idI) auto
    with True show ?thesis by (cases e) simp
  next
    case False
    moreover from this Cons.prems have "k \<in> fst ` set m" "\<forall>k' \<in> fst ` set m. fst e < k'" "bt_wf m"
      by (cases e; auto simp: bt_wf_Cons dest: bt_lookup_dom)+
    ultimately show ?thesis using Cons by (cases e) (auto dest: less_asym)
  qed
qed simp

definition advanced :: "u64 \<Rightarrow> u64 \<Rightarrow> plugin_instance \<Rightarrow> plugin_instance" where
  "advanced iid t p = (if pi_id p = iid then p\<lparr>pi_generation := pi_generation p + 1, pi_updated_at := t\<rparr> else p)"

lemma table_member:
  assumes table: "instance_table lib d ps" and p: "p \<in> set ps"
  obtains row where "bt_lookup (uint (pi_id p)) (db_instances d) = Some row" "row_to_instance lib (uint (pi_id p)) row = Ok p"
proof -
  from table p obtain k where k: "k < length ps" "ps ! k = p" by (auto simp: in_set_conv_nth)
  obtain key row where e: "db_instances d ! k = (key, row)" by fastforce
  from table k have len: "k < length (db_instances d)" and dec: "row_to_instance lib key row = Ok p"
    by (auto simp: instance_table_def list_all2_conv_all_nth e)
  then have mem: "(key, row) \<in> set (db_instances d)" using e by (metis nth_mem)
  with table have "key < 2 ^ 63" "bt_lookup key (db_instances d) = Some row" by (auto simp: instance_table_def bt_lookup_in)
  with dec row_to_instance_id [OF dec] show thesis by (intro that) auto
qed


lemma advance_table:
  assumes table: "instance_table lib d ps" and p: "p \<in> set ps"
    and run: "instance_advance_generation (pi_id p) t d = (res, d')"
  shows "d' = d \<and> (\<forall>g. res \<noteq> Ok (Some g))
    \<or> (\<exists>g. res = Ok (Some g)) \<and> instance_table lib d' (map (advanced (pi_id p) t) ps)"
proof -
  let ?key = "uint (pi_id p)"
  let ?upd = "\<lambda>r. r\<lparr>nr_generation := nr_generation r + 1, nr_updated := uint t\<rparr>"
  obtain row where row: "bt_lookup ?key (db_instances d) = Some row" "row_to_instance lib ?key row = Ok p"
    using table p by (rule table_member)
  let ?guard = "uint (pi_id p) < 2 ^ 63 \<and> uint t < 2 ^ 63"
  have upd: "update_instance (pi_id p) t (\<lambda>_ r. nr_generation r < 2 ^ 63 - 1)
      (\<lambda>t r. r\<lparr>nr_generation := nr_generation r + 1, nr_updated := t\<rparr>) d
    = (if \<not> ?guard then Err StoreCorrupt
       else if \<not> (nr_generation row < 2 ^ 63 - 1 \<and> nr_updated row \<le> uint t) then Ok (False, d)
       else if instance_check (?upd row) then Ok (True, d\<lparr>db_instances := bt_insert ?key (?upd row) (db_instances d)\<rparr>)
       else Err StoreOpen)"
    using row(1) by (simp add: update_instance_def update_where_def sqlite_i64_def)
  note run = run [unfolded instance_advance_generation_def upd]
  show ?thesis
  proof (cases "?guard \<and> nr_generation row < 2 ^ 63 - 1 \<and> nr_updated row \<le> uint t \<and> instance_check (?upd row)")
    case False
    then have "d' = d \<and> (\<forall>g. res \<noteq> Ok (Some g))"
      using run by (auto simp: commit_def split: if_splits)
    then show ?thesis by blast
  next
    case True
    let ?rows = "bt_insert ?key (?upd row) (db_instances d)"
    from row(2) have gen: "0 \<le> nr_generation row" by (auto simp: row_to_instance_def read_u64_def split: if_splits)
    with True run row(1) have d': "d' = d\<lparr>db_instances := ?rows\<rparr>" "\<exists>g. res = Ok (Some g)"
      by (auto simp: commit_def read_u64_def)
    have wf: "bt_wf (db_instances d)" using table by (simp add: instance_table_def)
    have rows: "?rows = map (\<lambda>e. if fst e = ?key then (?key, ?upd row) else e) (db_instances d)"
      by (rule bt_insert_present [OF wf row(1)])
    have new: "row_to_instance lib ?key (?upd row) = Ok (advanced (pi_id p) t p)"
      using row_advanced [OF row(2), of "uint t"] True by (auto simp: advanced_def instance_check_def)
    let ?dec = "\<lambda>(key, row) p. row_to_instance lib key row = Ok p"
    have step: "?dec (if fst e = ?key then (?key, ?upd row) else e) (advanced (pi_id p) t q)"
      if e: "e \<in> set (db_instances d)" and dec: "?dec e q" for e q
    proof -
      obtain key r where er: "e = (key, r)" by (cases e)
      have "key < 2 ^ 63" using e table by (force simp: er instance_table_def)
      with dec have uid: "uint (pi_id q) = key" by (simp add: er row_to_instance_id)
      show ?thesis
      proof (cases "key = ?key")
        case True
        with e wf row(1) er have "r = row" by (metis bt_lookup_in option.inject)
        with True dec row(2) er have "q = p" by simp
        with True new er show ?thesis by simp
      next
        case False
        with uid dec er show ?thesis by (auto simp: advanced_def)
      qed
    qed
    from table have "list_all2 ?dec (db_instances d) ps" by (simp add: instance_table_def)
    then have "list_all2 ?dec ?rows (map (advanced (pi_id p) t) ps)"
      unfolding rows list.rel_map by (rule list.rel_mono_strong) (rule step)
    moreover have "fst ` set ?rows = fst ` set (db_instances d)"
    proof -
      have "map fst ?rows = map fst (db_instances d)" unfolding rows by auto
      then show ?thesis by (metis list.set_map)
    qed
    moreover have "bt_wf ?rows" using wf by auto
    ultimately have "instance_table lib d' (map (advanced (pi_id p) t) ps)"
      using table d'(1) by (auto simp: instance_table_def)
    with d'(2) show ?thesis by blast
  qed
qed


text \<open>The generation and the time of the last change are the only parts of a record a start changes.\<close>

definition same_record :: "plugin_instance \<Rightarrow> plugin_instance \<Rightarrow> bool" where
  "same_record p q \<longleftrightarrow> q\<lparr>pi_generation := pi_generation p, pi_updated_at := pi_updated_at p\<rparr> = p"

lemma same_record_refl [simp]: "same_record p p"
  by (simp add: same_record_def)

lemma same_record_trans: "same_record p q \<Longrightarrow> same_record q r \<Longrightarrow> same_record p r"
  by (cases p; cases q; cases r) (simp add: same_record_def)

lemma same_record_advanced [simp]: "same_record p (advanced iid t p)" "pi_id (advanced iid t p) = pi_id p"
  by (simp_all add: same_record_def advanced_def)

lemma same_record_id: "same_record p q \<Longrightarrow> pi_id q = pi_id p \<and> pi_desired q = pi_desired p"
  by (cases p; cases q) (simp add: same_record_def)

lemma advance_and_get_cases:
  assumes table: "instance_table lib d ps" and p: "p \<in> set ps" and run: "advance_and_get lib now p d = (res, d')"
  obtains code where "d' = d" "res = Err code"
    | "instance_table lib d' (map (advanced (pi_id p) (max now (pi_updated_at p))) ps)"
      "res = Ok (advanced (pi_id p) (max now (pi_updated_at p)) p)"
proof -
  let ?t = "max now (pi_updated_at p)"
  obtain r e where step: "instance_advance_generation (pi_id p) ?t d = (r, e)" by fastforce
  show thesis
  proof (cases "\<exists>g. r = Ok (Some g)")
    case False
    with advance_table [OF table p step] have "e = d" by blast
    with False run step that(1) show thesis
      by (cases r) (auto simp: advance_and_get_def split: option.splits)
  next
    case True
    let ?ps = "map (advanced (pi_id p) ?t) ps"
    from True advance_table [OF table p step] have new: "instance_table lib e ?ps" by auto
    moreover have "advanced (pi_id p) ?t p \<in> set ?ps" using p by simp
    ultimately obtain row where row: "bt_lookup (uint (pi_id p)) (db_instances e) = Some row"
      "row_to_instance lib (uint (pi_id p)) row = Ok (advanced (pi_id p) ?t p)"
      by (metis table_member same_record_advanced(2))
    have "uint (pi_id p) < 2 ^ 63"
      using new bt_lookup_Some_in [OF row(1)] by (force simp: instance_table_def)
    with row have "instance_get lib (pi_id p) e = Ok (Some (advanced (pi_id p) ?t p))"
      by (simp add: instance_get_def sqlite_i64_def)
    with True run step new that(2) show thesis by (auto simp: advance_and_get_def)
  qed
qed

lemma advance_keeps_table:
  assumes table: "instance_table lib d qs" and same: "list_all2 same_record ps qs" and p: "p \<in> set qs"
    and step: "advance_and_get lib now p d = (res, d')"
  obtains qs' where "instance_table lib d' qs'" "list_all2 same_record ps qs'"
    "\<And>q. q \<in> set qs \<Longrightarrow> pi_id q \<noteq> pi_id p \<Longrightarrow> q \<in> set qs'"
proof (rule advance_and_get_cases [OF table p step])
  assume "d' = d"
  with table same show thesis by (intro that [of qs]) simp_all
next
  let ?f = "advanced (pi_id p) (max now (pi_updated_at p))"
  assume new: "instance_table lib d' (map ?f qs)"
  have "list_all2 same_record ps (map ?f qs)"
    using same by (auto simp: list_all2_conv_all_nth) (metis same_record_trans same_record_advanced(1))
  moreover have "q \<in> set (map ?f qs)" if "q \<in> set qs" "pi_id q \<noteq> pi_id p" for q
    using that by (auto simp: advanced_def image_iff intro!: bexI [of _ q])
  ultimately show thesis using new that by blast
qed

text \<open>The plan after a prefix of the instances, \<open>rest\<close> being those to come.\<close>

definition plan_inv :: "'v plugin_env \<Rightarrow> plugin_instance list \<Rightarrow> plugin_instance list \<Rightarrow> runtime_instance_plan \<times> db \<Rightarrow> bool" where
  "plan_inv env ps rest acc \<longleftrightarrow>
     (\<exists>seen qs. ps = seen @ rest \<and> instance_table (pe_store_lib env) (snd acc) qs \<and> list_all2 same_record ps qs
        \<and> set rest \<subseteq> set qs
        \<and> mset (map (pi_id \<circ> rn_instance) (rp_ready (fst acc)) @ map lf_instance (rp_failures (fst acc)))
            = mset (map pi_id (filter (\<lambda>p. pi_desired p = DesiredRunning) seen))
        \<and> (\<forall>r \<in> set (rp_ready (fst acc)). \<exists>p \<in> set seen.
              same_record p (rn_instance r) \<and> pi_generation (rn_instance r) = pi_generation p + 1))"

lemma load_started_Ok: "load_started env trust p fs = Ok r \<Longrightarrow> rn_instance r = p"
  by (auto simp: load_started_def load_runnable_instance_with_trust_def load_runnable_def split: result.splits option.splits)

lemma plan_step:
  assumes inv: "plan_inv env ps (p # rest) acc" and ids: "distinct (map pi_id ps)"
  shows "plan_inv env ps rest (plan_instance env trust fs now p acc)"
proof (cases "pi_desired p = DesiredRunning")
  case False
  from inv obtain seen qs where "ps = (seen @ [p]) @ rest" "instance_table (pe_store_lib env) (snd acc) qs" "list_all2 same_record ps qs"
    "set rest \<subseteq> set qs" "mset (map (pi_id \<circ> rn_instance) (rp_ready (fst acc)) @ map lf_instance (rp_failures (fst acc)))
            = mset (map pi_id (filter (\<lambda>p. pi_desired p = DesiredRunning) (seen @ [p])))"
    "\<forall>r \<in> set (rp_ready (fst acc)). \<exists>p \<in> set (seen @ [p]). same_record p (rn_instance r) \<and> pi_generation (rn_instance r) = pi_generation p + 1"
    unfolding plan_inv_def using False by fastforce
  with False show ?thesis unfolding plan_inv_def by (intro exI [of _ "seen @ [p]"] exI [of _ qs]) (simp add: plan_instance_def)
next
  case True
  from inv obtain seen qs where ps: "ps = seen @ p # rest" and table: "instance_table (pe_store_lib env) (snd acc) qs"
    and same: "list_all2 same_record ps qs" and sub: "set (p # rest) \<subseteq> set qs"
    and count: "mset (map (pi_id \<circ> rn_instance) (rp_ready (fst acc)) @ map lf_instance (rp_failures (fst acc)))
            = mset (map pi_id (filter (\<lambda>p. pi_desired p = DesiredRunning) seen))"
    and ready: "\<forall>r \<in> set (rp_ready (fst acc)). \<exists>p \<in> set seen. same_record p (rn_instance r) \<and> pi_generation (rn_instance r) = pi_generation p + 1"
    by (auto simp: plan_inv_def)
  let ?t = "max now (pi_updated_at p)"
  obtain res d where step: "advance_and_get (pe_store_lib env) now p (snd acc) = (res, d)" by fastforce
  have p: "p \<in> set qs" using sub by simp
  have "pi_id p \<notin> pi_id ` set rest" using ids by (simp add: ps)
  then have others: "q \<in> set rest \<Longrightarrow> q \<in> set qs \<and> pi_id q \<noteq> pi_id p" for q
    using sub by (simp add: subset_iff) (metis imageI)
  have table': "\<exists>qs'. instance_table (pe_store_lib env) d qs' \<and> list_all2 same_record ps qs' \<and> set rest \<subseteq> set qs'"
    by (rule advance_keeps_table [OF table same p step]) (use others in blast)
  show ?thesis
  proof (cases "try_bind res (\<lambda>q. load_started env trust q fs)")
    case (Ok r)
    then obtain q where q: "res = Ok q" "load_started env trust q fs = Ok r" by auto
    from advance_and_get_cases [OF table p step] q(1) have "q = advanced (pi_id p) ?t p" by auto
    with load_started_Ok [OF q(2)] have r: "rn_instance r = advanced (pi_id p) ?t p" by simp
    have fresh: "same_record p (rn_instance r)" "pi_generation (rn_instance r) = pi_generation p + 1"
      unfolding r by (simp_all add: same_record_def advanced_def)
    from table' obtain qs' where "instance_table (pe_store_lib env) d qs'" "list_all2 same_record ps qs'" "set rest \<subseteq> set qs'" by blast
    with True step Ok count ready fresh ps show ?thesis
      unfolding plan_inv_def by (intro exI [of _ "seen @ [p]"] exI [of _ qs']) (auto simp: plan_instance_def r)
  next
    case (Err e)
    from table' obtain qs' where "instance_table (pe_store_lib env) d qs'" "list_all2 same_record ps qs'" "set rest \<subseteq> set qs'" by blast
    with True step Err count ready ps show ?thesis
      unfolding plan_inv_def by (intro exI [of _ "seen @ [p]"] exI [of _ qs']) (auto simp: plan_instance_def)
  qed
qed


text \<open>Starting the stored instances at once treats each on its own: every instance that is to run
  ends exactly once among those ready or among the failures, whatever happens to the others; a ready
  one is the stored record under a generation of its own, one above the stored; and the database
  afterwards holds the same records, with at most newer generations and times.\<close>

theorem running_instances_are_planned:
  assumes table: "instance_table (pe_store_lib env) d ps"
    and run: "plan_running_instances env trust fs now d = (Ok plan, d')"
  shows "mset (map (pi_id \<circ> rn_instance) (rp_ready plan) @ map lf_instance (rp_failures plan))
      = mset (map pi_id (filter (\<lambda>p. pi_desired p = DesiredRunning) ps))
    \<and> (\<forall>r \<in> set (rp_ready plan). \<exists>p \<in> set ps.
          same_record p (rn_instance r) \<and> pi_generation (rn_instance r) = pi_generation p + 1)
    \<and> (\<exists>qs. instance_list (pe_store_lib env) d' = Ok qs \<and> list_all2 same_record ps qs)"
proof -
  note ids = table_ids(2) [OF table]
  have "plan_inv env ps ps (\<lparr>rp_ready = [], rp_failures = []\<rparr>, d)"
    unfolding plan_inv_def using table by (auto intro!: exI [of _ ps] simp: list_all2_same)
  moreover have "plan_inv env ps rest acc \<Longrightarrow> plan_inv env ps [] (fold (plan_instance env trust fs now) rest acc)" for rest acc
    by (induction rest arbitrary: acc) (simp_all add: plan_step [OF _ ids])
  moreover have "fold (plan_instance env trust fs now) ps (\<lparr>rp_ready = [], rp_failures = []\<rparr>, d) = (plan, d')"
    using run by (simp add: plan_running_instances_def instance_table_list [OF table] split: prod.splits)
  ultimately have "plan_inv env ps [] (plan, d')" by metis
  then show ?thesis unfolding plan_inv_def using instance_table_list by fastforce
qed

section \<open>A concrete start\<close>

definition desk_meta :: install_meta where
  "desk_meta = sample_meta\<lparr>im_files :=
     [(''logic/main.wasm'', hex_encode (sample_digest CHR ''m'')), (''manifest.json'', hex_encode (sample_digest CHR ''m'')),
      (''ui/main.ftui'', hex_encode (sample_digest CHR ''m''))]\<rparr>"

definition desk_dir :: path where
  "desk_dir = [''store'', ''dev.clock'', ''1.0.0'']"

definition desk_fs :: fs where
  "desk_fs =
     [desk_dir \<mapsto> Directory, desk_dir @ [''install.json''] \<mapsto> Regular ''meta'',
      desk_dir @ [''manifest.json''] \<mapsto> Regular ''{}'', desk_dir @ [''logic'', ''main.wasm''] \<mapsto> Regular ''w'',
      desk_dir @ [''ui'', ''main.ftui''] \<mapsto> Regular ''u'']"

definition desk_env :: "nat plugin_env" where
  "desk_env =
     \<lparr>pe_lib = sample_install_lib\<lparr>il_parse_meta := \<lambda>_. Some desk_meta\<rparr>,
      pe_store_lib = \<lparr>sl_semver = example_semver, sl_json_text = (\<lambda>_. ''{}''), sl_json_read = (\<lambda>_. Some (JObj []))\<rparr>,
      pe_validator_for = (\<lambda>_. None), pe_read_dir = (\<lambda>_. None), pe_dir = [''store'']\<rparr>"

definition desk_instance :: plugin_instance where
  "desk_instance =
     \<lparr>pi_id = 2, pi_installation = sample_reference, pi_config = [], pi_desired = DesiredRunning,
      pi_generation = 0, pi_created_at = 5, pi_updated_at = 5\<rparr>"

definition desk_runnable :: runnable_instance where
  "desk_runnable =
     \<lparr>rn_instance = desk_instance,
      rn_plugin = \<lparr>pl_manifest = example_manifest ''1.0.0'' [] [], pl_meta = desk_meta, pl_wasm = ''w'', pl_ui_bytes = ''u''\<rparr>\<rparr>"

lemma desk_paths:
  "path_join base ''logic/main.wasm'' = base @ [''logic'', ''main.wasm'']"
  "path_join base ''ui/main.ftui'' = base @ [''ui'', ''main.ftui'']"
  by (simp_all add: path_join_def starts_with_def)


lemma desk_meta_facts [simp]:
  "im_id desk_meta = ''dev.clock''" "im_version desk_meta = ''1.0.0''" "im_trust desk_meta = Unsigned"
  "im_digest desk_meta = im_digest sample_meta"
  by (simp_all add: desk_meta_def sample_meta_def)

lemma desk_runnable_loads:
  "load_runnable_instance_with_trust desk_env trust (desk_instance\<lparr>pi_generation := g, pi_updated_at := t\<rparr>) desk_fs
     = Ok (Some (desk_runnable\<lparr>rn_instance := desk_instance\<lparr>pi_generation := g, pi_updated_at := t\<rparr>\<rparr>))"
proof -
  let ?lib = "pe_lib desk_env"
  let ?i = "\<lparr>ii_dir = desk_dir, ii_manifest = example_manifest ''1.0.0'' [] [], ii_meta = desk_meta,
    ii_files = [(''logic/main.wasm'', ''w''), (''manifest.json'', ''{}''), (''ui/main.ftui'', ''u'')]\<rparr>"
  have lib [simp]: "il_semver ?lib = example_semver" "il_sha256 ?lib b = sample_digest CHR ''m''"
    "il_parse_meta ?lib b = Some desk_meta" "il_parse_manifest ?lib b = Some (example_manifest ''1.0.0'' [] [])" for b
    by (simp_all add: desk_env_def sample_install_lib_def)
  have valid: "validate_manifest example_semver (example_manifest ''1.0.0'' [] []) = Ok ()"
    by (intro example_valid)
      (simp_all add: example_semver_def validate_http_templates_def network_permission_def example_manifest_def)
  have read: "fs_read_in desk_dir ''install.json'' desk_fs = Some ''meta''"
    "fs_read_in desk_dir ''manifest.json'' desk_fs = Some ''{}''"
    "fs_read_in desk_dir ''logic/main.wasm'' desk_fs = Some ''w''"
    "fs_read_in desk_dir ''ui/main.ftui'' desk_fs = Some ''u''"
    by (simp_all add: fs_read_in_def fs_read_def sample_join desk_paths desk_fs_def)
  have files: "try_fold (load_file ?lib desk_meta desk_dir desk_fs) (im_files desk_meta) [] = Ok (ii_files ?i)"
    by (simp add: desk_meta_def load_file_def read file_digest_def)
  have digest: "hex_encode (content_digest (il_sha256 ?lib) fs) = im_digest sample_meta" for fs
    by (simp add: content_digest_def sample_meta_def)
  have ref: "installation_ref_from_meta example_semver desk_meta = Ok sample_reference"
    using sample_ref_of_meta
    by (simp add: installation_ref_from_meta_def sample_install_lib_def) (simp add: desk_meta_def sample_meta_def)
  have load: "load_from_dir ?lib desk_dir desk_fs = Ok ?i"
    using files valid ref digest
    by (simp add: load_from_dir_def read Let_def ii_reference_def example_manifest_def)
  have "load_reference ?lib [''store''] sample_reference desk_fs = Ok (Some ?i)"
    using load ref
    by (simp add: load_reference_def load_exact_def sample_reference_def sample_join Let_def ii_reference_def desk_dir_def)
      (simp add: fs_is_dir_def desk_fs_def desk_dir_def)
  moreover have "pe_dir desk_env = [''store'']" by (simp add: desk_env_def)
  moreover have "mf_config_schema (example_manifest ''1.0.0'' [] []) = None"
    "mf_entrypoints (example_manifest ''1.0.0'' [] []) = \<lparr>ep_ui = ''ui/main.ftui'', ep_logic = ''logic/main.wasm''\<rparr>"
    by (simp_all add: example_manifest_def)
  ultimately show ?thesis
    by (simp add: load_runnable_instance_with_trust_def load_runnable_def desk_instance_def ii_validate_config_def
        verify_runtime_trust_def installed_plugin_of_def ii_file_def Let_def desk_runnable_def)
qed

lemma runnable_is_verified_witness:
  "\<exists>files. content_digest (il_sha256 (pe_lib desk_env)) files = ir_digest sample_reference
     \<and> bt_lookup ''logic/main.wasm'' files = Some ''w''"
proof -
  have "load_runnable_instance_with_trust desk_env undefined desk_instance desk_fs = Ok (Some desk_runnable)"
    using desk_runnable_loads [where trust = undefined and g = 0 and t = 5] by (simp add: desk_instance_def desk_runnable_def)
  from runnable_is_verified [OF this] show ?thesis
    by (simp add: desk_runnable_def desk_instance_def) (auto simp: example_manifest_def)
qed

text \<open>A database with this instance.\<close>

definition desk_db :: "desired_state \<Rightarrow> db" where
  "desk_db s = empty_db\<lparr>db_instances := [(2, instance_row_of (pe_store_lib desk_env) (desk_instance\<lparr>pi_desired := s\<rparr>))]\<rparr>"

lemma desk_table: "instance_table (pe_store_lib desk_env) (desk_db s) [desk_instance\<lparr>pi_desired := s\<rparr>]"
proof -
  have "validate_plugin_id ''dev.clock'' = Ok ()"
    by (simp add: validate_plugin_id_def plugin_id_char_def ascii_eval)
  then have "instance_ok (pe_store_lib desk_env) (desk_instance\<lparr>pi_desired := s\<rparr>)"
    by (simp add: instance_ok_def installation_ok_def config_ok_def config_new_def desk_env_def desk_instance_def
        sample_reference_def example_semver_def sample_digest_def fits_def MAX_INSTANCE_CONFIG_BYTES_def
        MAX_INSTANCE_CONFIG_DEPTH_def)
  from instance_row_decode [OF this] show ?thesis
    by (simp add: instance_table_def desk_db_def desk_instance_def bt_wf_Cons)
qed

lemma desk_running: "desk_instance\<lparr>pi_desired := DesiredRunning\<rparr> = desk_instance"
  by (simp add: desk_instance_def)

lemmas desk_running_table = desk_table [of DesiredRunning, unfolded desk_running]

lemma desk_advances:
  "\<exists>d'. advance_and_get (pe_store_lib desk_env) 7 desk_instance (desk_db DesiredRunning)
     = (Ok (desk_instance\<lparr>pi_generation := 1, pi_updated_at := 7\<rparr>), d') \<and> db_grants d' = []"
proof -
  obtain res d' where run: "advance_and_get (pe_store_lib desk_env) 7 desk_instance (desk_db DesiredRunning) = (res, d')"
    by fastforce
  obtain r d where adv: "instance_advance_generation 2 7 (desk_db DesiredRunning) = (r, d)" by fastforce
  then have "r = Ok (Some 1)" "db_grants d = []"
    by (auto simp: instance_advance_generation_def update_instance_def update_where_def sqlite_i64_def desk_db_def
        instance_row_of_def desk_instance_def instance_check_def sample_reference_def sample_digest_def read_u64_def empty_db_def
        split: if_splits)
  moreover have "pi_id desk_instance = 2" "max 7 (pi_updated_at desk_instance) = 7" by (simp_all add: desk_instance_def)
  ultimately have "d' = d" using run adv by (auto simp: advance_and_get_def split: result.splits option.splits)
  have "res = Ok (advanced 2 7 desk_instance)"
  proof (rule advance_and_get_cases [OF desk_running_table _ run])
    fix code assume "d' = desk_db DesiredRunning" "res = Err code"
    moreover have "instance_get (pe_store_lib desk_env) 2 (desk_db DesiredRunning) = Ok (Some desk_instance)"
      using desk_running_table
      by (simp add: instance_get_def sqlite_i64_def instance_table_def desk_db_def desk_running)
    ultimately show ?thesis
      using run adv \<open>r = Ok (Some 1)\<close> \<open>d' = d\<close> \<open>pi_id desk_instance = 2\<close> \<open>max 7 (pi_updated_at desk_instance) = 7\<close>
      by (simp add: advance_and_get_def)
  qed (simp_all add: \<open>pi_id desk_instance = 2\<close> \<open>max 7 (pi_updated_at desk_instance) = 7\<close>)
  with run \<open>d' = d\<close> \<open>db_grants d = []\<close> show ?thesis by (simp add: advanced_def desk_instance_def)
qed

lemma running_instances_are_planned_witness:
  "\<exists>plan d'. plan_running_instances desk_env undefined desk_fs 7 (desk_db DesiredRunning) = (Ok plan, d')
     \<and> length (rp_ready plan) + length (rp_failures plan) = 1"
proof -
  obtain plan d' where run: "plan_running_instances desk_env undefined desk_fs 7 (desk_db DesiredRunning) = (Ok plan, d')"
    by (cases "fold (plan_instance desk_env undefined desk_fs 7) [desk_instance]
          (\<lparr>rp_ready = [], rp_failures = []\<rparr>, desk_db DesiredRunning)")
      (auto simp: plan_running_instances_def instance_table_list [OF desk_running_table])
  have "mset (map (pi_id \<circ> rn_instance) (rp_ready plan) @ map lf_instance (rp_failures plan)) = {#2#}"
    using running_instances_are_planned [OF desk_running_table run] by (simp add: desk_instance_def)
  then have "length (map (pi_id \<circ> rn_instance) (rp_ready plan) @ map lf_instance (rp_failures plan)) = 1"
    by (metis size_mset size_single)
  with run show ?thesis by auto
qed

end
