(* ===== verification/Supervisor.thy ===== *)
theory Supervisor
  imports Plugin_Manager
begin

text \<open>
  The supervisor of the persistent instances, \<open>floatile-shell/src/instance_supervisor.rs\<close>: a worker
  thread compares the stored instances with those it has acted on (\<open>plan_snapshot\<close>), prepares the
  starts and stops, and sends them as a batch through a bounded channel to the thread of the user
  interface, which applies them (\<open>apply_actions\<close>), completes the launches later and polls the
  sessions for their end.

  The steps of the two threads and of their environment are the constructors of \<open>sup_event\<close>; a round
  of the worker reads one state of the database.  The lemmas show that a round that finds nothing new
  does nothing, and what the sessions have to do with the stored instances.
\<close>

section \<open>Plans\<close>

definition ACTION_QUEUE_CAPACITY :: nat where
  "ACTION_QUEUE_CAPACITY = 16"

definition COMMAND_QUEUE_CAPACITY :: nat where
  "COMMAND_QUEUE_CAPACITY = 16"

definition UI_BATCH_LIMIT :: nat where
  "UI_BATCH_LIMIT = 8"

datatype observed_state = ObservedStarting | ObservedRunning | ObservedFailed | ObservedStopped

fun observed_as_str :: "observed_state \<Rightarrow> string" where
  "observed_as_str ObservedStarting = ''starting''"
| "observed_as_str ObservedRunning = ''running''"
| "observed_as_str ObservedFailed = ''failed''"
| "observed_as_str ObservedStopped = ''stopped''"

record observed_status =
  ob_instance :: u64
  ob_state :: observed_state
  ob_code :: "string option"

datatype supervisor_command = Retry u64 | StopWorker

record fingerprint =
  fp_plugin :: string
  fp_version :: string
  fp_digest :: string
  fp_config :: json_map

definition fingerprint_of :: "plugin_instance \<Rightarrow> fingerprint" where
  "fingerprint_of p =
     \<lparr>fp_plugin = ir_plugin (pi_installation p), fp_version = ir_version (pi_installation p),
      fp_digest = ir_digest (pi_installation p), fp_config = pi_config p\<rparr>"

datatype desired_action = DesireStop u64 | DesireStart plugin_instance

type_synonym known = "(u64, fingerprint) btree"

definition plan_one :: "known \<Rightarrow> plugin_instance \<Rightarrow> desired_action list \<times> known \<Rightarrow> desired_action list \<times> known" where
  "plan_one known p acc =
     (let actions = fst acc; next_known = snd acc; iid = pi_id p in
      if pi_desired p = DesiredStopped
      then (if bt_lookup iid known \<noteq> None then actions @ [DesireStop iid] else actions, next_known)
      else
        let fp = fingerprint_of p in
        (if bt_lookup iid known \<noteq> Some fp
         then actions @ (if bt_lookup iid known \<noteq> None then [DesireStop iid] else []) @ [DesireStart p] else actions,
         bt_insert iid fp next_known))"

definition plan_snapshot :: "plugin_instance list \<Rightarrow> known \<Rightarrow> desired_action list \<times> known" where
  "plan_snapshot ps known =
     fold (plan_one known) ps
       (map DesireStop (filter (\<lambda>iid. iid \<notin> pi_id ` set ps) (bt_keys known)), [])"

section \<open>Actions\<close>

datatype supervisor_action =
    ActStop u64
  | ActStart runnable_instance https_service
  | ActFailure "u64 option" "string option" string

definition prepare_one ::
  "'v plugin_env \<Rightarrow> credential_vault \<Rightarrow> trust_db \<Rightarrow> fs \<Rightarrow> u64 \<Rightarrow> desired_action
     \<Rightarrow> supervisor_action list \<times> db \<Rightarrow> supervisor_action list \<times> db"
where
  "prepare_one env vault trust fs now action acc =
     (case action of
        DesireStop iid \<Rightarrow> (fst acc @ [ActStop iid], snd acc)
      | DesireStart p \<Rightarrow>
          let (r, d) = advance_and_get (pe_store_lib env) now p (snd acc) in
          (fst acc @
             [case try_bind r (\<lambda>q. load_started env trust q fs) of
                Err code \<Rightarrow> ActFailure (Some (pi_id p)) (Some (ir_plugin (pi_installation p))) code
              | Ok runnable \<Rightarrow>
                  (case compose_instance_https (pi_id (rn_instance runnable)) (pl_manifest (rn_plugin runnable)) vault d of
                     Some https \<Rightarrow> ActStart runnable https
                   | None \<Rightarrow> ActFailure (Some (pi_id p)) (Some (ir_plugin (pi_installation p))) ''RUI_RUNTIME'')], d))"

definition prepare_actions ::
  "'v plugin_env \<Rightarrow> credential_vault \<Rightarrow> trust_db \<Rightarrow> fs \<Rightarrow> u64 \<Rightarrow> desired_action list \<Rightarrow> db
     \<Rightarrow> supervisor_action list \<times> db"
where
  "prepare_actions env vault trust fs now actions d = fold (prepare_one env vault trust fs now) actions ([], d)"

section \<open>The two threads\<close>

text \<open>Where the loop of the worker is: \<open>PhaseSending\<close> waits for room in the channel with a batch and the
  fingerprints to keep once it is sent.\<close>

datatype worker_phase = PhaseReady | PhaseSending "supervisor_action list" known | PhaseWaiting | PhaseDone

text \<open>\<open>sv_snapshot\<close> is the last list of instances the worker has read.\<close>

record sup_state =
  sv_db :: db
  sv_phase :: worker_phase
  sv_known :: known
  sv_snapshot :: "plugin_instance list"
  sv_batches :: "supervisor_action list list"
  sv_commands :: "supervisor_command list"
  sv_sessions :: "(u64, runnable_instance) btree"
  sv_desired :: "(u64, u64) btree"
  sv_launches :: "runnable_instance list"
  sv_observed :: "(u64, observed_status) btree"

definition supervisor_start :: "db \<Rightarrow> sup_state" where
  "supervisor_start d =
     \<lparr>sv_db = d, sv_phase = PhaseReady, sv_known = [], sv_snapshot = [], sv_batches = [], sv_commands = [],
      sv_sessions = [], sv_desired = [], sv_launches = [], sv_observed = []\<rparr>"

definition worker_round ::
  "'v plugin_env \<Rightarrow> credential_vault \<Rightarrow> trust_db \<Rightarrow> fs \<Rightarrow> u64 \<Rightarrow> sup_state \<Rightarrow> sup_state"
where
  "worker_round env vault trust fs now st =
     (case instance_list (pe_store_lib env) (sv_db st) of
        Err _ \<Rightarrow> st\<lparr>sv_phase := PhaseSending [ActFailure None None ''FINSTANCE_STORE''] (sv_known st)\<rparr>
      | Ok ps \<Rightarrow>
          (case plan_snapshot ps (sv_known st) of
             ([], next_known) \<Rightarrow> st\<lparr>sv_snapshot := ps, sv_known := next_known, sv_phase := PhaseWaiting\<rparr>
           | (desired, next_known) \<Rightarrow>
               (case prepare_actions env vault trust fs now desired (sv_db st) of
                  (actions, d) \<Rightarrow> st\<lparr>sv_db := d, sv_snapshot := ps, sv_phase := PhaseSending actions next_known\<rparr>)))"

definition worker_send :: "sup_state \<Rightarrow> sup_state" where
  "worker_send st =
     (case sv_phase st of
        PhaseSending actions next_known \<Rightarrow>
          if length (sv_batches st) < ACTION_QUEUE_CAPACITY
          then st\<lparr>sv_batches := sv_batches st @ [actions], sv_known := next_known, sv_phase := PhaseWaiting\<rparr> else st
      | _ \<Rightarrow> st)"

text \<open>The wait ends with a command or, without one, at the end of the interval.\<close>

definition wait_for_command :: "sup_state \<Rightarrow> sup_state" where
  "wait_for_command st =
     (case sv_commands st of
        [] \<Rightarrow> st\<lparr>sv_phase := PhaseReady\<rparr>
      | Retry iid # cs \<Rightarrow> st\<lparr>sv_commands := cs, sv_known := bt_remove iid (sv_known st), sv_phase := PhaseReady\<rparr>
      | StopWorker # cs \<Rightarrow> st\<lparr>sv_commands := cs, sv_phase := PhaseDone\<rparr>)"

definition set_observed :: "u64 \<Rightarrow> observed_state \<Rightarrow> string option \<Rightarrow> sup_state \<Rightarrow> sup_state" where
  "set_observed iid s code st =
     st\<lparr>sv_observed := bt_insert iid \<lparr>ob_instance = iid, ob_state = s, ob_code = code\<rparr> (sv_observed st)\<rparr>"

definition forget :: "u64 \<Rightarrow> sup_state \<Rightarrow> sup_state" where
  "forget iid st = st\<lparr>sv_desired := bt_remove iid (sv_desired st), sv_sessions := bt_remove iid (sv_sessions st)\<rparr>"

text \<open>\<open>spawn_ok\<close>: the event loop takes the task.\<close>

fun apply_action :: "bool \<Rightarrow> supervisor_action \<Rightarrow> sup_state \<Rightarrow> sup_state" where
  "apply_action spawn_ok (ActStop iid) st = set_observed iid ObservedStopped None (forget iid st)"
| "apply_action spawn_ok (ActFailure None plugin code) st = st"
| "apply_action spawn_ok (ActFailure (Some iid) plugin code) st = set_observed iid ObservedFailed (Some code) (forget iid st)"
| "apply_action spawn_ok (ActStart r https) st =
     (let iid = pi_id (rn_instance r);
          st1 = set_observed iid ObservedStarting None
                  (st\<lparr>sv_desired := bt_insert iid (pi_generation (rn_instance r)) (sv_desired st)\<rparr>)
      in if spawn_ok then st1\<lparr>sv_launches := sv_launches st1 @ [r]\<rparr>
         else set_observed iid ObservedFailed (Some ''FINSTANCE_SCHEDULE'') st1)"

definition apply_actions :: "bool \<Rightarrow> supervisor_action list \<Rightarrow> sup_state \<Rightarrow> sup_state" where
  "apply_actions spawn_ok = fold (apply_action spawn_ok)"

fun drain_batches :: "bool \<Rightarrow> nat \<Rightarrow> sup_state \<Rightarrow> sup_state" where
  "drain_batches spawn_ok 0 st = st"
| "drain_batches spawn_ok (Suc n) st =
     (case sv_batches st of
        [] \<Rightarrow> st
      | batch # batches \<Rightarrow> drain_batches spawn_ok n (apply_actions spawn_ok batch (st\<lparr>sv_batches := batches\<rparr>)))"

text \<open>What a session reports when it is polled.\<close>

datatype lifecycle_event = LifeRunning | LifeFailed string | LifeStopped

definition poll_one :: "u64 \<times> lifecycle_event \<Rightarrow> sup_state \<Rightarrow> sup_state" where
  "poll_one e st =
     (case e of
        (iid, LifeRunning) \<Rightarrow> set_observed iid ObservedRunning None st
      | (iid, LifeFailed code) \<Rightarrow> set_observed iid ObservedFailed (Some code) (st\<lparr>sv_sessions := bt_remove iid (sv_sessions st)\<rparr>)
      | (iid, LifeStopped) \<Rightarrow> set_observed iid ObservedStopped None (st\<lparr>sv_sessions := bt_remove iid (sv_sessions st)\<rparr>))"

definition poll_session_lifecycle :: "(u64 \<Rightarrow> lifecycle_event option) \<Rightarrow> sup_state \<Rightarrow> sup_state" where
  "poll_session_lifecycle reports st =
     fold poll_one (List.map_filter (\<lambda>iid. map_option (Pair iid) (reports iid)) (bt_keys (sv_sessions st))) st"

definition ui_tick :: "bool \<Rightarrow> (u64 \<Rightarrow> lifecycle_event option) \<Rightarrow> sup_state \<Rightarrow> sup_state" where
  "ui_tick spawn_ok reports st = poll_session_lifecycle reports (drain_batches spawn_ok UI_BATCH_LIMIT st)"

text \<open>The task of a launch ends; its session counts only while its generation is the desired one.\<close>

definition complete_launch :: "nat \<Rightarrow> (unit, string) result \<Rightarrow> sup_state \<Rightarrow> sup_state" where
  "complete_launch k res st =
     (if length (sv_launches st) \<le> k then st
      else
        let r = sv_launches st ! k; iid = pi_id (rn_instance r);
            st1 = st\<lparr>sv_launches := take k (sv_launches st) @ drop (Suc k) (sv_launches st)\<rparr>
        in if bt_lookup iid (sv_desired st) \<noteq> Some (pi_generation (rn_instance r)) then st1
           else case res of
                  Ok _ \<Rightarrow> st1\<lparr>sv_sessions := bt_insert iid r (sv_sessions st)\<rparr>
                | Err code \<Rightarrow> set_observed iid ObservedFailed (Some code) st1)"

definition supervisor_retry :: "u64 \<Rightarrow> sup_state \<Rightarrow> sup_state" where
  "supervisor_retry iid st =
     (if length (sv_commands st) < COMMAND_QUEUE_CAPACITY then st\<lparr>sv_commands := sv_commands st @ [Retry iid]\<rparr> else st)"

definition supervisor_drop :: "sup_state \<Rightarrow> sup_state" where
  "supervisor_drop st =
     (let st1 = st\<lparr>sv_desired := [], sv_observed := [], sv_sessions := [], sv_launches := []\<rparr>
      in if length (sv_commands st) < COMMAND_QUEUE_CAPACITY
         then st1\<lparr>sv_commands := sv_commands st @ [StopWorker]\<rparr> else st1)"

section \<open>Runs\<close>

text \<open>A step of the worker, of the user interface, of a launch, of the user, or of the other users of the
  database.\<close>

datatype sup_event =
    EvRound u64 trust_db fs
  | EvSend
  | EvWait
  | EvTick bool "u64 \<Rightarrow> lifecycle_event option"
  | EvLaunched nat "(unit, string) result"
  | EvRetry u64
  | EvDatabase db

fun sup_step ::
  "'v plugin_env \<Rightarrow> credential_vault \<Rightarrow> sup_event \<Rightarrow> sup_state \<Rightarrow> sup_state"
where
  "sup_step env vault (EvRound now trust fs) st =
     (if sv_phase st = PhaseReady then worker_round env vault trust fs now st else st)"
| "sup_step env vault EvSend st = worker_send st"
| "sup_step env vault EvWait st = (if sv_phase st = PhaseWaiting then wait_for_command st else st)"
| "sup_step env vault (EvTick spawn_ok reports) st = ui_tick spawn_ok reports st"
| "sup_step env vault (EvLaunched k res) st = complete_launch k res st"
| "sup_step env vault (EvRetry iid) st = supervisor_retry iid st"
| "sup_step env vault (EvDatabase d) st = st\<lparr>sv_db := d\<rparr>"

definition sup_run ::
  "'v plugin_env \<Rightarrow> credential_vault \<Rightarrow> sup_event list \<Rightarrow> sup_state \<Rightarrow> sup_state"
where
  "sup_run env vault = fold (sup_step env vault)"

section \<open>What a plan does to one instance\<close>

definition wanted :: "plugin_instance list \<Rightarrow> u64 \<Rightarrow> plugin_instance option" where
  "wanted ps iid = find (\<lambda>p. pi_id p = iid \<and> pi_desired p = DesiredRunning) ps"

fun desired_on :: "desired_action \<Rightarrow> u64" where
  "desired_on (DesireStop iid) = iid"
| "desired_on (DesireStart p) = pi_id p"

lemma wanted_absent: "iid \<notin> pi_id ` set ps \<Longrightarrow> wanted ps iid = None"
  by (auto simp: wanted_def find_None_iff)

lemma wanted_Cons:
  "wanted (p # ps) iid = (if pi_id p = iid \<and> pi_desired p = DesiredRunning then Some p else wanted ps iid)"
  by (simp add: wanted_def)

lemma wanted_SomeD: "wanted ps iid = Some p \<Longrightarrow> p \<in> set ps \<and> pi_id p = iid \<and> pi_desired p = DesiredRunning"
  by (auto simp: wanted_def find_Some_iff)

lemma plan_known:
  "distinct (map pi_id ps) \<Longrightarrow> bt_lookup iid (snd (fold (plan_one known) ps (as, m)))
     = (case wanted ps iid of Some p \<Rightarrow> Some (fingerprint_of p) | None \<Rightarrow> bt_lookup iid m)"
proof (induction ps arbitrary: as m)
  case (Cons p ps)
  then show ?case
    by (cases "pi_id p = iid"; cases "pi_desired p")
      (simp_all add: plan_one_def [of _ p] Let_def wanted_Cons wanted_absent split: option.split)
qed (simp add: wanted_def)

lemma plan_wf: "bt_wf m \<Longrightarrow> bt_wf (snd (fold (plan_one known) ps (as, m)))"
  by (induction ps arbitrary: as m) (auto simp: plan_one_def Let_def)

definition own_actions :: "known \<Rightarrow> plugin_instance \<Rightarrow> desired_action list" where
  "own_actions known p = fst (plan_one known p ([], []))"

lemma plan_actions: "fst (fold (plan_one known) ps (as, m)) = as @ concat (map (own_actions known) ps)"
  by (induction ps arbitrary: as m) (auto simp: plan_one_def Let_def own_actions_def)

lemma own_actions_on: "x \<in> set (own_actions known p) \<Longrightarrow> desired_on x = pi_id p"
  by (auto simp: own_actions_def plan_one_def Let_def split: if_splits)

lemma filter_own:
  "distinct (map pi_id ps) \<Longrightarrow> filter (\<lambda>x. desired_on x = iid) (concat (map (own_actions known) ps))
     = (case find (\<lambda>p. pi_id p = iid) ps of None \<Rightarrow> [] | Some p \<Rightarrow> own_actions known p)"
proof (induction ps)
  case (Cons p ps)
  have own: "filter (\<lambda>x. desired_on x = iid) (own_actions known p) = (if pi_id p = iid then own_actions known p else [])"
    using own_actions_on by (auto simp: filter_empty_conv intro: filter_True)
  show ?case
  proof (cases "pi_id p = iid")
    case True
    with Cons.prems have "find (\<lambda>p. pi_id p = iid) ps = None" by (simp add: find_None_iff) (metis imageI)
    with Cons own True show ?thesis by simp
  next
    case False
    with Cons own show ?thesis by simp
  qed
qed simp

lemma filter_stops:
  "distinct ks \<Longrightarrow> filter (\<lambda>x. desired_on x = iid) (map DesireStop (filter P ks))
     = (if iid \<in> set ks \<and> P iid then [DesireStop iid] else [])"
  by (induction ks) auto

lemma plan_filter:
  assumes ids: "distinct (map pi_id ps)" and wf: "bt_wf known"
  shows "filter (\<lambda>x. desired_on x = iid) (fst (plan_snapshot ps known))
    = (case wanted ps iid of
         None \<Rightarrow> if bt_lookup iid known = None then [] else [DesireStop iid]
       | Some p \<Rightarrow> if bt_lookup iid known = Some (fingerprint_of p) then []
           else (if bt_lookup iid known = None then [] else [DesireStop iid]) @ [DesireStart p])"
proof -
  have keys: "distinct (bt_keys known)" "iid \<in> set (bt_keys known) \<longleftrightarrow> bt_lookup iid known \<noteq> None"
    using wf by (auto simp: bt_keys_def bt_wf_distinct bt_lookup_None_iff)
  have split: "filter (\<lambda>x. desired_on x = iid) (fst (plan_snapshot ps known))
    = (if bt_lookup iid known \<noteq> None \<and> iid \<notin> pi_id ` set ps then [DesireStop iid] else [])
      @ (case find (\<lambda>p. pi_id p = iid) ps of None \<Rightarrow> [] | Some p \<Rightarrow> own_actions known p)"
    unfolding plan_snapshot_def plan_actions filter_append filter_own [OF ids] filter_stops [OF keys(1)] by (simp add: keys(2))
  show ?thesis
  proof (cases "find (\<lambda>p. pi_id p = iid) ps")
    case None
    then have "iid \<notin> pi_id ` set ps" by (auto simp: find_None_iff)
    with None split show ?thesis by (simp add: wanted_absent)
  next
    case (Some p)
    then have p: "p \<in> set ps" "pi_id p = iid" by (auto simp: find_Some_iff)
    have unique: "q = p" if "q \<in> set ps" "pi_id q = iid" for q
      using that p ids by (simp add: distinct_map) (metis inj_onD)
    have "wanted ps iid = (if pi_desired p = DesiredRunning then Some p else None)"
    proof (cases "wanted ps iid")
      case None
      with p show ?thesis by (simp add: wanted_def find_None_iff)
    next
      case (Some q)
      from unique [of q] wanted_SomeD [OF Some] have "q = p" "pi_desired q = DesiredRunning" by simp_all
      with Some show ?thesis by simp
    qed
    moreover have "iid \<in> pi_id ` set ps" using p by blast
    ultimately show ?thesis
      using Some split p
      by (cases "pi_desired p") (auto simp: own_actions_def plan_one_def Let_def)
  qed
qed


section \<open>What becomes of an instance\<close>

text \<open>For the user interface an instance has been launched, is isolated after a failure, or is not there.\<close>

datatype fate = Launched | Isolated | Gone

definition fate :: "sup_state \<Rightarrow> u64 \<Rightarrow> fate" where
  "fate st iid =
     (if bt_lookup iid (sv_desired st) \<noteq> None then Launched
      else if map_option ob_state (bt_lookup iid (sv_observed st)) = Some ObservedFailed then Isolated else Gone)"

fun act_on :: "supervisor_action \<Rightarrow> u64 option" where
  "act_on (ActStop iid) = Some iid"
| "act_on (ActStart r https) = Some (pi_id (rn_instance r))"
| "act_on (ActFailure iid plugin code) = iid"

fun act_fate :: "supervisor_action \<Rightarrow> fate" where
  "act_fate (ActStop iid) = Gone"
| "act_fate (ActStart r https) = Launched"
| "act_fate (ActFailure iid plugin code) = Isolated"

definition fate_after :: "u64 \<Rightarrow> supervisor_action list \<Rightarrow> fate \<Rightarrow> fate" where
  "fate_after iid = fold (\<lambda>a f. if act_on a = Some iid then act_fate a else f)"

lemma fate_after_simps [simp]:
  "fate_after iid [] f = f" "fate_after iid (a # as) f = fate_after iid as (if act_on a = Some iid then act_fate a else f)"
  "fate_after iid (as @ bs) f = fate_after iid bs (fate_after iid as f)"
  by (simp_all add: fate_after_def)

lemma fate_apply_action: "fate (apply_action spawn_ok a st) iid = (if act_on a = Some iid then act_fate a else fate st iid)"
  by (induction spawn_ok a st rule: apply_action.induct) (auto simp: fate_def set_observed_def forget_def Let_def)

lemma fate_apply_actions: "fate (apply_actions spawn_ok as st) iid = fate_after iid as (fate st iid)"
  unfolding apply_actions_def by (induction as arbitrary: st) (simp_all add: fate_apply_action)

text \<open>The prepared action is on the same instance: a start becomes a launch or a failure.\<close>

lemma instance_get_id: "instance_get lib iid d = Ok (Some q) \<Longrightarrow> pi_id q = iid"
  by (auto simp: instance_get_def sqlite_i64_def row_to_instance_def read_u64_def restore_Ok_iff split: if_splits option.splits)

lemma advance_and_get_id: "advance_and_get lib now p d = (Ok q, d') \<Longrightarrow> pi_id q = pi_id p"
  by (auto simp: advance_and_get_def dest: instance_get_id split: result.splits option.splits prod.splits)

lemma prepare_one_action:
  "\<exists>a d'. prepare_one env vault trust fs now x (as, d) = (as @ [a], d') \<and> act_on a = Some (desired_on x)
     \<and> (case x of DesireStop i \<Rightarrow> act_fate a = Gone | DesireStart p \<Rightarrow> act_fate a \<noteq> Gone)"
proof (cases x)
  case (DesireStart p)
  obtain r d' where step: "advance_and_get (pe_store_lib env) now p d = (r, d')" by fastforce
  have "pi_id (rn_instance runnable) = pi_id p" if "try_bind r (\<lambda>q. load_started env trust q fs) = Ok runnable" for runnable
    using that step advance_and_get_id [of _ now p d] by (auto dest: load_started_Ok)
  then show ?thesis
    by (auto simp: DesireStart prepare_one_def step Let_def split: result.split option.split)
qed (simp add: prepare_one_def)

lemma prepare_fates:
  "fate_after iid (fst (fold (prepare_one env vault trust fs now) xs (as, d))) f
     \<in> fold (\<lambda>x F. case x of DesireStop i \<Rightarrow> {Gone} | DesireStart p \<Rightarrow> {Launched, Isolated})
          (filter (\<lambda>x. desired_on x = iid) xs) {fate_after iid as f}"
proof (induction xs arbitrary: as d)
  case (Cons x xs)
  let ?step = "\<lambda>x F. case x of DesireStop i \<Rightarrow> {Gone} | DesireStart p \<Rightarrow> {Launched, Isolated}"
  obtain a d' where step: "prepare_one env vault trust fs now x (as, d) = (as @ [a], d')" "act_on a = Some (desired_on x)"
    "case x of DesireStop i \<Rightarrow> act_fate a = Gone | DesireStart p \<Rightarrow> act_fate a \<noteq> Gone"
    using prepare_one_action [of env vault trust fs now x as d] by blast
  have mono: "F \<subseteq> G \<Longrightarrow> fold ?step ys F \<subseteq> fold ?step ys G" for F G :: "fate set" and ys
    by (induction ys arbitrary: F G) (auto split: desired_action.split)
  have "fate_after iid (fst (fold (prepare_one env vault trust fs now) (x # xs) (as, d))) f
      \<in> fold ?step (filter (\<lambda>x. desired_on x = iid) xs) {fate_after iid (as @ [a]) f}"
    using Cons.IH [of "as @ [a]" d'] step(1) by simp
  moreover have "{fate_after iid (as @ [a]) f} \<subseteq> (if desired_on x = iid then ?step x {fate_after iid as f} else {fate_after iid as f})"
    using step(2,3) by (cases "act_fate a") (auto split: desired_action.splits)
  ultimately show ?case using mono by (simp split: if_splits) blast+
qed simp

lemma planned_fate:
  assumes ids: "distinct (map pi_id ps)" and wf: "bt_wf known" and f: "f = Gone \<longleftrightarrow> bt_lookup iid known = None"
  shows "fate_after iid (fst (prepare_actions env vault trust fs now (fst (plan_snapshot ps known)) d)) f = Gone
    \<longleftrightarrow> wanted ps iid = None"
  using prepare_fates [of iid env vault trust fs now "fst (plan_snapshot ps known)" "[]" d f] f
  unfolding prepare_actions_def plan_filter [OF ids wf]
  by (auto split: option.splits if_splits)


section \<open>The invariant of a run\<close>

definition pending :: "sup_state \<Rightarrow> supervisor_action list" where
  "pending st = concat (sv_batches st) @ (case sv_phase st of PhaseSending actions _ \<Rightarrow> actions | _ \<Rightarrow> [])"

definition kept :: "sup_state \<Rightarrow> known" where
  "kept st = (case sv_phase st of PhaseSending _ next_known \<Rightarrow> next_known | _ \<Rightarrow> sv_known st)"

definition db_ok :: "db \<Rightarrow> bool" where
  "db_ok d \<longleftrightarrow> bt_wf (db_instances d) \<and> (\<forall>key \<in> fst ` set (db_instances d). key < 2 ^ 63)"

lemma db_ok_table: "db_ok d \<Longrightarrow> instance_list lib d = Ok ps \<longleftrightarrow> instance_table lib d ps"
  using instance_list_all2 [of "row_to_instance lib" "db_instances d" "[]" ps]
  by (auto simp: db_ok_def instance_table_def instance_list_def)

lemma table_db_ok: "instance_table lib d ps \<Longrightarrow> db_ok d"
  by (simp add: db_ok_def instance_table_def)

text \<open>What of the state concerns the user interface only.\<close>

lemma apply_action_other [simp]:
  "sv_db (apply_action s a st) = sv_db st" "sv_phase (apply_action s a st) = sv_phase st"
  "sv_known (apply_action s a st) = sv_known st" "sv_snapshot (apply_action s a st) = sv_snapshot st"
  "sv_batches (apply_action s a st) = sv_batches st" "sv_commands (apply_action s a st) = sv_commands st"
  by (induction s a st rule: apply_action.induct) (simp_all add: set_observed_def forget_def Let_def)

lemma apply_actions_other [simp]:
  "sv_db (apply_actions s as st) = sv_db st" "sv_phase (apply_actions s as st) = sv_phase st"
  "sv_known (apply_actions s as st) = sv_known st" "sv_snapshot (apply_actions s as st) = sv_snapshot st"
  "sv_batches (apply_actions s as st) = sv_batches st" "sv_commands (apply_actions s as st) = sv_commands st"
  unfolding apply_actions_def by (induction as arbitrary: st) simp_all

lemma drain_other [simp]:
  "sv_db (drain_batches s n st) = sv_db st" "sv_phase (drain_batches s n st) = sv_phase st"
  "sv_known (drain_batches s n st) = sv_known st" "sv_snapshot (drain_batches s n st) = sv_snapshot st"
  "sv_commands (drain_batches s n st) = sv_commands st"
  by (induction s n st rule: drain_batches.induct) (simp_all split: list.split)

lemma poll_one_other [simp]:
  "sv_db (poll_one e st) = sv_db st" "sv_phase (poll_one e st) = sv_phase st" "sv_known (poll_one e st) = sv_known st"
  "sv_snapshot (poll_one e st) = sv_snapshot st" "sv_batches (poll_one e st) = sv_batches st"
  "sv_commands (poll_one e st) = sv_commands st" "sv_desired (poll_one e st) = sv_desired st"
  "sv_launches (poll_one e st) = sv_launches st"
  by (simp_all add: poll_one_def set_observed_def split: prod.split lifecycle_event.split)

lemma poll_fold_other [simp]:
  "sv_db (fold poll_one es st) = sv_db st" "sv_phase (fold poll_one es st) = sv_phase st"
  "sv_known (fold poll_one es st) = sv_known st" "sv_snapshot (fold poll_one es st) = sv_snapshot st"
  "sv_batches (fold poll_one es st) = sv_batches st" "sv_commands (fold poll_one es st) = sv_commands st"
  "sv_desired (fold poll_one es st) = sv_desired st"
  by (induction es arbitrary: st) simp_all

lemma poll_fold_sessions: "bt_lookup i (sv_sessions (fold poll_one es st)) \<noteq> None \<Longrightarrow> bt_lookup i (sv_sessions st) \<noteq> None"
proof (induction es arbitrary: st)
  case (Cons e es)
  then have "bt_lookup i (sv_sessions (poll_one e st)) \<noteq> None" by simp
  then show ?case by (auto simp: poll_one_def set_observed_def split: prod.splits lifecycle_event.splits if_splits)
qed simp

lemma poll_fold_observed:
  "i \<notin> fst ` set es \<Longrightarrow> bt_lookup i (sv_observed (fold poll_one es st)) = bt_lookup i (sv_observed st)
     \<and> bt_lookup i (sv_sessions (fold poll_one es st)) = bt_lookup i (sv_sessions st)"
proof (induction es arbitrary: st)
  case (Cons e es)
  then have "i \<notin> fst ` set es" "fst e \<noteq> i" by auto
  moreover from this(2) have "bt_lookup i (sv_observed (poll_one e st)) = bt_lookup i (sv_observed st)
      \<and> bt_lookup i (sv_sessions (poll_one e st)) = bt_lookup i (sv_sessions st)"
    by (cases e) (auto simp: poll_one_def set_observed_def split: lifecycle_event.split)
  ultimately show ?case using Cons.IH [of "poll_one e st"] by simp
qed simp

lemma polled_ids:
  "fst ` set (List.map_filter (\<lambda>iid. map_option (Pair iid) (reports iid)) ks) \<subseteq> {i \<in> set ks. reports i \<noteq> None}"
  by (auto simp: List.map_filter_def image_iff)

text \<open>A session belongs to a launched instance.\<close>

definition launched_sessions :: "sup_state \<Rightarrow> bool" where
  "launched_sessions st \<longleftrightarrow> (\<forall>i. bt_lookup i (sv_sessions st) \<noteq> None \<longrightarrow> bt_lookup i (sv_desired st) \<noteq> None)"

lemma launched_apply: "launched_sessions st \<Longrightarrow> launched_sessions (apply_action s a st)"
  by (induction s a st rule: apply_action.induct) (auto simp: launched_sessions_def set_observed_def forget_def Let_def)

lemma launched_applies: "launched_sessions st \<Longrightarrow> launched_sessions (apply_actions s as st)"
  unfolding apply_actions_def by (induction as arbitrary: st) (simp_all add: launched_apply)

lemma launched_batches: "launched_sessions (st\<lparr>sv_batches := bs\<rparr>) = launched_sessions st"
  by (simp add: launched_sessions_def)

lemma launched_drain: "launched_sessions st \<Longrightarrow> launched_sessions (drain_batches s n st)"
  by (induction s n st rule: drain_batches.induct) (auto simp: launched_applies launched_batches split: list.split)

lemma launched_poll: "launched_sessions st \<Longrightarrow> launched_sessions (poll_session_lifecycle reports st)"
  unfolding launched_sessions_def poll_session_lifecycle_def poll_fold_other using poll_fold_sessions by blast

lemma launched_complete: "launched_sessions st \<Longrightarrow> launched_sessions (complete_launch k res st)"
  by (auto simp: launched_sessions_def complete_launch_def set_observed_def Let_def split: result.split)

lemma launched_tick: "launched_sessions st \<Longrightarrow> launched_sessions (ui_tick s reports st)"
  by (simp add: ui_tick_def launched_poll launched_drain)

lemma tick_other [simp]:
  "sv_db (ui_tick s reports st) = sv_db st" "sv_phase (ui_tick s reports st) = sv_phase st"
  "sv_known (ui_tick s reports st) = sv_known st" "sv_snapshot (ui_tick s reports st) = sv_snapshot st"
  "sv_commands (ui_tick s reports st) = sv_commands st"
  by (simp_all add: ui_tick_def poll_session_lifecycle_def)

text \<open>The fate of an instance once the waiting batches have been applied.\<close>

definition final_fate :: "sup_state \<Rightarrow> u64 \<Rightarrow> fate" where
  "final_fate st i = fate_after i (pending st) (fate st i)"

lemma fate_poll:
  assumes "launched_sessions st"
  shows "fate (poll_session_lifecycle reports st) i = fate st i"
proof (cases "bt_lookup i (sv_desired st)")
  case None
  with assms have "i \<notin> set (bt_keys (sv_sessions st))"
    by (auto simp: launched_sessions_def bt_keys_def bt_lookup_None_iff)
  then have "i \<notin> fst ` set (List.map_filter (\<lambda>iid. map_option (Pair iid) (reports iid)) (bt_keys (sv_sessions st)))"
    using polled_ids [of reports "bt_keys (sv_sessions st)"] by auto
  then show ?thesis by (simp add: fate_def poll_session_lifecycle_def poll_fold_observed)
qed (simp add: fate_def poll_session_lifecycle_def)

lemma fate_drain: "final_fate (drain_batches s n st) i = final_fate st i"
proof (induction s n st rule: drain_batches.induct)
  case (2 s n st)
  show ?case
  proof (cases "sv_batches st")
    case (Cons batch batches)
    have "fate (st\<lparr>sv_batches := batches\<rparr>) i = fate st i" by (simp add: fate_def)
    with 2 [OF Cons] Cons show ?thesis by (simp add: final_fate_def pending_def fate_apply_actions)
  qed simp
qed simp

lemma final_fate_tick: "launched_sessions st \<Longrightarrow> final_fate (ui_tick s reports st) i = final_fate st i"
proof -
  assume "launched_sessions st"
  then have poll: "fate (poll_session_lifecycle reports (drain_batches s UI_BATCH_LIMIT st)) i = fate (drain_batches s UI_BATCH_LIMIT st) i"
    by (intro fate_poll launched_drain)
  have "pending (poll_session_lifecycle reports st') = pending st'" for st'
    by (simp add: pending_def poll_session_lifecycle_def)
  with poll fate_drain [of s UI_BATCH_LIMIT st i] show ?thesis by (simp add: final_fate_def ui_tick_def)
qed

lemma final_fate_complete: "final_fate (complete_launch k res st) i = final_fate st i"
proof -
  have "fate (complete_launch k res st) i = fate st i"
    by (auto simp: fate_def complete_launch_def set_observed_def Let_def split: result.split)
  moreover have "pending (complete_launch k res st) = pending st"
    by (auto simp: pending_def complete_launch_def set_observed_def Let_def split: result.split)
  ultimately show ?thesis by (simp add: final_fate_def)
qed

lemma complete_other [simp]:
  "sv_db (complete_launch k res st) = sv_db st" "sv_phase (complete_launch k res st) = sv_phase st"
  "sv_known (complete_launch k res st) = sv_known st" "sv_snapshot (complete_launch k res st) = sv_snapshot st"
  "sv_commands (complete_launch k res st) = sv_commands st" "sv_batches (complete_launch k res st) = sv_batches st"
  by (auto simp: complete_launch_def set_observed_def Let_def split: result.split)


section \<open>A round of the worker\<close>

definition starts :: "desired_action list \<Rightarrow> plugin_instance list" where
  "starts = List.map_filter (\<lambda>x. case x of DesireStart p \<Rightarrow> Some p | _ \<Rightarrow> None)"

lemma starts_simps [simp]:
  "starts [] = []" "starts (DesireStop i # xs) = starts xs" "starts (DesireStart p # xs) = p # starts xs"
  "starts (xs @ ys) = starts xs @ starts ys" "starts (map DesireStop is) = []"
  by (simp_all add: starts_def List.map_filter_def comp_def)

lemma starts_plan:
  "starts (fst (plan_snapshot ps known))
     = filter (\<lambda>p. pi_desired p = DesiredRunning \<and> bt_lookup (pi_id p) known \<noteq> Some (fingerprint_of p)) ps"
proof -
  have "starts (own_actions known p)
      = (if pi_desired p = DesiredRunning \<and> bt_lookup (pi_id p) known \<noteq> Some (fingerprint_of p) then [p] else [])" for p
    by (cases "pi_desired p") (auto simp: own_actions_def plan_one_def Let_def)
  then have "starts (concat (map (own_actions known) qs))
      = filter (\<lambda>p. pi_desired p = DesiredRunning \<and> bt_lookup (pi_id p) known \<noteq> Some (fingerprint_of p)) qs" for qs
    by (induction qs) simp_all
  then show ?thesis by (simp add: plan_snapshot_def plan_actions)
qed

text \<open>Preparing starts changes no record but for its generation.\<close>

lemma prepare_table:
  assumes "instance_table (pe_store_lib env) d qs" "list_all2 same_record ps qs" "set (starts xs) \<subseteq> set qs"
    "distinct (map pi_id (starts xs))"
  shows "\<exists>qs'. instance_table (pe_store_lib env) (snd (fold (prepare_one env vault trust fs now) xs (as, d))) qs'
    \<and> list_all2 same_record ps qs'"
  using assms
proof (induction xs arbitrary: as d qs)
  case (Cons x xs)
  show ?case
  proof (cases x)
    case (DesireStop i)
    with Cons.IH [of d qs "as @ [ActStop i]"] Cons.prems show ?thesis by (simp add: prepare_one_def)
  next
    case (DesireStart p)
    obtain r d' where step: "advance_and_get (pe_store_lib env) now p d = (r, d')" by fastforce
    have p: "p \<in> set qs" and others: "q \<in> set (starts xs) \<Longrightarrow> q \<in> set qs \<and> pi_id q \<noteq> pi_id p" for q
      using Cons.prems(3,4) by (auto simp: DesireStart) (metis imageI)
    obtain qs' where "instance_table (pe_store_lib env) d' qs'" "list_all2 same_record ps qs'"
      "\<And>q. q \<in> set qs \<Longrightarrow> pi_id q \<noteq> pi_id p \<Longrightarrow> q \<in> set qs'"
      using advance_keeps_table [OF Cons.prems(1,2) p step] by blast
    moreover from this(3) others have "set (starts xs) \<subseteq> set qs'" by blast
    moreover obtain a where "prepare_one env vault trust fs now x (as, d) = (as @ [a], d')"
      by (simp add: DesireStart prepare_one_def step Let_def)
    ultimately show ?thesis
      using Cons.IH [of d' qs' "as @ [a]"] Cons.prems(4) by (simp add: DesireStart)
  qed
qed auto

lemma same_wanted:
  assumes "list_all2 same_record ps qs"
  shows "map_option fingerprint_of (wanted qs i) = map_option fingerprint_of (wanted ps i)"
  using assms
proof (induction rule: list_all2_induct)
  case (Cons p ps q qs)
  from Cons(1) have "pi_id q = pi_id p" "pi_desired q = pi_desired p" "fingerprint_of q = fingerprint_of p"
    by (cases p; cases q; simp add: same_record_def fingerprint_of_def)+
  with Cons.IH show ?case by (simp add: wanted_Cons)
qed (simp add: wanted_def)

lemma plan_prepared_table:
  assumes table: "instance_table (pe_store_lib env) d ps"
  obtains qs where "instance_table (pe_store_lib env) (snd (prepare_actions env vault trust fs now (fst (plan_snapshot ps known)) d)) qs"
    "list_all2 same_record ps qs"
proof -
  have "list_all2 same_record ps ps" by (simp add: list_all2_same)
  moreover have "set (starts (fst (plan_snapshot ps known))) \<subseteq> set ps" by (auto simp: starts_plan)
  moreover have "distinct (map pi_id (starts (fst (plan_snapshot ps known))))"
    using table_ids(2) [OF table] unfolding starts_plan by (rule distinct_map_filter)
  ultimately show thesis using prepare_table [OF table] that unfolding prepare_actions_def by blast
qed

lemma plan_lookup:
  "distinct (map pi_id ps) \<Longrightarrow> bt_lookup i (snd (plan_snapshot ps known)) = map_option fingerprint_of (wanted ps i)"
  by (simp add: plan_snapshot_def plan_known option.case_eq_if map_option_case)

text \<open>The outcomes of a round.\<close>

lemma worker_round_cases:
  assumes db: "db_ok (sv_db st)" and ready: "sv_phase st = PhaseReady"
  obtains e where "instance_list (pe_store_lib env) (sv_db st) = Err e" "worker_round env vault trust fs now st
      = st\<lparr>sv_phase := PhaseSending [ActFailure None None ''FINSTANCE_STORE''] (sv_known st)\<rparr>"
  | ps qs acts d where "instance_table (pe_store_lib env) (sv_db st) ps" "instance_table (pe_store_lib env) d qs"
      "list_all2 same_record ps qs" "(acts, d) = prepare_actions env vault trust fs now (fst (plan_snapshot ps (sv_known st))) (sv_db st)"
      "sv_db (worker_round env vault trust fs now st) = d"
      "sv_snapshot (worker_round env vault trust fs now st) = ps"
      "kept (worker_round env vault trust fs now st) = snd (plan_snapshot ps (sv_known st))"
      "sv_known (worker_round env vault trust fs now st) \<in> {sv_known st, snd (plan_snapshot ps (sv_known st))}"
      "pending (worker_round env vault trust fs now st) = concat (sv_batches st) @ acts"
      "sv_commands (worker_round env vault trust fs now st) = sv_commands st"
      "sv_sessions (worker_round env vault trust fs now st) = sv_sessions st"
      "sv_desired (worker_round env vault trust fs now st) = sv_desired st"
      "sv_observed (worker_round env vault trust fs now st) = sv_observed st"
proof (cases "instance_list (pe_store_lib env) (sv_db st)")
  case (Err e)
  then show thesis using that(1) by (simp add: worker_round_def)
next
  case (Ok ps)
  then have table: "instance_table (pe_store_lib env) (sv_db st) ps" by (simp add: db_ok_table [OF db])
  obtain xs next_known where plan: "plan_snapshot ps (sv_known st) = (xs, next_known)" by fastforce
  obtain acts d where prepared: "prepare_actions env vault trust fs now xs (sv_db st) = (acts, d)" by fastforce
  obtain qs where qs: "instance_table (pe_store_lib env) d qs" "list_all2 same_record ps qs"
    using plan_prepared_table [OF table, of vault trust fs now "sv_known st"] by (auto simp: plan prepared)
  show thesis
  proof (cases xs)
    case Nil
    then have "acts = []" "d = sv_db st" using prepared by (simp_all add: prepare_actions_def)
    with Nil Ok plan prepared table qs show thesis
      by (intro that(2) [of ps d qs acts]) (simp_all add: worker_round_def kept_def pending_def ready)
  next
    case (Cons x xs')
    with Ok plan prepared table qs show thesis
      by (intro that(2) [of ps d qs acts]) (simp_all add: worker_round_def kept_def pending_def ready)
  qed
qed


section \<open>Sessions and stored instances\<close>

definition sup_inv :: "sup_state \<Rightarrow> bool" where
  "sup_inv st \<longleftrightarrow> db_ok (sv_db st) \<and> bt_wf (kept st) \<and> bt_wf (sv_known st) \<and> launched_sessions st
     \<and> set (sv_commands st) \<subseteq> {StopWorker}
     \<and> (\<forall>i. (final_fate st i = Gone \<longleftrightarrow> wanted (sv_snapshot st) i = None)
            \<and> bt_lookup i (kept st) = map_option fingerprint_of (wanted (sv_snapshot st) i))"

text \<open>The database is only ever replaced by a valid one, and nobody asks for a retry.\<close>

fun undisturbed :: "sup_event \<Rightarrow> bool" where
  "undisturbed (EvRetry i) = False"
| "undisturbed (EvDatabase d) = db_ok d"
| "undisturbed _ = True"

lemma sup_inv_round:
  assumes inv: "sup_inv st" and ready: "sv_phase st = PhaseReady"
  shows "sup_inv (worker_round env vault trust fs now st)"
proof -
  have db: "db_ok (sv_db st)" and known: "bt_wf (sv_known st)" "kept st = sv_known st" and sessions: "launched_sessions st"
    and commands: "set (sv_commands st) \<subseteq> {StopWorker}"
    and fates: "\<And>i. final_fate st i = Gone \<longleftrightarrow> wanted (sv_snapshot st) i = None"
    and keeps: "\<And>i. bt_lookup i (kept st) = map_option fingerprint_of (wanted (sv_snapshot st) i)"
    using inv by (simp_all add: sup_inv_def kept_def ready)
  have pend: "pending st = concat (sv_batches st)" by (simp add: pending_def ready)
  show ?thesis
  proof (rule worker_round_cases [OF db ready, of env vault trust fs now])
    fix e assume round: "worker_round env vault trust fs now st
      = st\<lparr>sv_phase := PhaseSending [ActFailure None None ''FINSTANCE_STORE''] (sv_known st)\<rparr>"
    have "final_fate (worker_round env vault trust fs now st) i = final_fate st i" for i
      unfolding round by (simp add: final_fate_def pending_def ready fate_def)
    moreover have "kept (worker_round env vault trust fs now st) = kept st"
      unfolding round known(2) by (simp add: kept_def)
    ultimately show ?thesis
      using db known sessions commands fates keeps unfolding sup_inv_def by (simp add: round launched_sessions_def)
  next
    fix ps qs acts d
    let ?st = "worker_round env vault trust fs now st"
    assume table: "instance_table (pe_store_lib env) (sv_db st) ps" "instance_table (pe_store_lib env) d qs"
      and acts: "(acts, d) = prepare_actions env vault trust fs now (fst (plan_snapshot ps (sv_known st))) (sv_db st)"
      and st: "sv_db ?st = d" "sv_snapshot ?st = ps" "kept ?st = snd (plan_snapshot ps (sv_known st))"
        "sv_known ?st \<in> {sv_known st, snd (plan_snapshot ps (sv_known st))}" "pending ?st = concat (sv_batches st) @ acts"
        "sv_commands ?st = sv_commands st" "sv_sessions ?st = sv_sessions st" "sv_desired ?st = sv_desired st"
        "sv_observed ?st = sv_observed st"
    note ids = table_ids(2) [OF table(1)]
    have "acts = fst (prepare_actions env vault trust fs now (fst (plan_snapshot ps (sv_known st))) (sv_db st))"
      using acts by (metis fst_conv)
    moreover have "final_fate st i = Gone \<longleftrightarrow> bt_lookup i (sv_known st) = None" for i
      using fates keeps known(2) by simp
    ultimately have "fate_after i acts (final_fate st i) = Gone \<longleftrightarrow> wanted ps i = None" for i
      by (metis planned_fate [OF ids known(1)])
    moreover have "fate ?st i = fate st i" for i by (simp add: fate_def st)
    ultimately have "final_fate ?st i = Gone \<longleftrightarrow> wanted ps i = None" for i
      by (simp add: final_fate_def st(5) pend)
    moreover have "bt_wf (snd (plan_snapshot ps (sv_known st)))" by (simp add: plan_snapshot_def plan_wf)
    ultimately show ?thesis
      using sessions commands known(1) table_db_ok [OF table(2)] plan_lookup [OF ids] st
      unfolding sup_inv_def launched_sessions_def by auto
  qed
qed

lemma sup_inv_step:
  assumes inv: "sup_inv st" and e: "undisturbed e"
  shows "sup_inv (sup_step env vault e st)"
proof (cases e)
  case (EvRound now trust fs)
  with inv show ?thesis by (simp add: sup_inv_round)
next
  case EvSend
  have "final_fate (worker_send st) i = final_fate st i" "kept (worker_send st) = kept st" for i
    by (auto simp: worker_send_def final_fate_def pending_def kept_def fate_def split: worker_phase.split)
  moreover have "sv_known (worker_send st) \<in> {sv_known st, kept st}"
    by (auto simp: worker_send_def kept_def split: worker_phase.split)
  ultimately show ?thesis
    using inv EvSend by (auto simp: sup_inv_def worker_send_def launched_sessions_def split: worker_phase.split)
next
  case EvWait
  show ?thesis
  proof (cases "sv_phase st = PhaseWaiting")
    case True
    from inv have "sv_commands st = [] \<or> (\<exists>cs. sv_commands st = StopWorker # cs)"
      by (cases "sv_commands st") (auto simp: sup_inv_def)
    moreover from this True have "final_fate (wait_for_command st) i = final_fate st i"
      "kept (wait_for_command st) = kept st" for i
      by (auto simp: wait_for_command_def final_fate_def pending_def kept_def fate_def)
    ultimately show ?thesis
      using inv by (auto simp: EvWait True sup_inv_def wait_for_command_def launched_sessions_def)
  qed (use inv EvWait in simp)
next
  case (EvTick s reports)
  have "kept (ui_tick s reports st) = kept st"
    by (simp add: kept_def split: worker_phase.split)
  with inv show ?thesis by (simp add: sup_inv_def EvTick final_fate_tick launched_tick)
next
  case (EvLaunched k res)
  have "kept (complete_launch k res st) = kept st" by (simp add: kept_def split: worker_phase.split)
  with inv show ?thesis by (simp add: sup_inv_def EvLaunched final_fate_complete launched_complete)
next
  case (EvRetry i)
  with e show ?thesis by simp
next
  case (EvDatabase d)
  moreover have "kept (st\<lparr>sv_db := d\<rparr>) = kept st" by (simp add: kept_def split: worker_phase.split)
  moreover have "final_fate (st\<lparr>sv_db := d\<rparr>) i = final_fate st i" for i
    by (simp add: final_fate_def pending_def fate_def)
  ultimately show ?thesis using inv e by (simp add: sup_inv_def launched_sessions_def)
qed

lemma sup_inv_run: "sup_inv st \<Longrightarrow> list_all undisturbed evs \<Longrightarrow> sup_inv (sup_run env vault evs st)"
  unfolding sup_run_def by (induction evs arbitrary: st) (simp_all add: sup_inv_step)

lemma sup_inv_start: "db_ok d \<Longrightarrow> sup_inv (supervisor_start d)"
  by (simp add: sup_inv_def supervisor_start_def final_fate_def pending_def kept_def fate_def launched_sessions_def
      wanted_def)

text \<open>C6: However the worker, the user interface, the launches and the other users of the database
  interleave, as long as nobody asks for a retry: when no batch of actions is on its way, the instances
  that have been launched or isolated after a failure are exactly those that the worker last read as
  wanted, and only wanted instances have a window.\<close>

theorem supervisor_runs_what_is_wanted:
  assumes db: "db_ok d" and evs: "list_all undisturbed evs"
    and st: "st = sup_run env vault evs (supervisor_start d)" and settled: "pending st = []"
  shows "(fate st i \<noteq> Gone \<longleftrightarrow> wanted (sv_snapshot st) i \<noteq> None)
    \<and> (bt_lookup i (sv_sessions st) \<noteq> None \<longrightarrow> wanted (sv_snapshot st) i \<noteq> None)"
proof -
  have "sup_inv st" unfolding st by (intro sup_inv_run sup_inv_start db evs)
  then have "fate st i \<noteq> Gone \<longleftrightarrow> wanted (sv_snapshot st) i \<noteq> None" "launched_sessions st"
    by (simp_all add: sup_inv_def final_fate_def settled)
  moreover from this(2) have "bt_lookup i (sv_sessions st) \<noteq> None \<Longrightarrow> fate st i = Launched"
    by (simp add: launched_sessions_def fate_def)
  ultimately show ?thesis by auto
qed

text \<open>C8: The supervisor comes to rest, on a table of instances with ordered keys of at most 63 bits.  When the list of instances can be read, then whatever the round found to do and
  whether each start succeeded, the list can be read after it, and a next round over an otherwise unchanged database
  finds nothing to do, so a broken installation is not tried again and again.  When the list cannot be read, the round
  starts and stops nothing and changes neither the database nor what the worker knows; its one action is the report of
  the failure, which it makes again in every round until the list can be read.\<close>

theorem supervisor_comes_to_rest:
  assumes db: "db_ok (sv_db st)" and ready: "sv_phase st = PhaseReady"
  shows "case instance_list (pe_store_lib env) (sv_db st) of
      Ok ps \<Rightarrow> \<exists>qs. instance_list (pe_store_lib env) (sv_db (worker_round env vault trust fs now st)) = Ok qs
        \<and> plan_snapshot qs (kept (worker_round env vault trust fs now st)) = ([], kept (worker_round env vault trust fs now st))
    | Err e \<Rightarrow> worker_round env vault trust fs now st
        = st\<lparr>sv_phase := PhaseSending [ActFailure None None ''FINSTANCE_STORE''] (sv_known st)\<rparr>"
proof (rule worker_round_cases [OF db ready, of env vault trust fs now])
  fix e assume "instance_list (pe_store_lib env) (sv_db st) = Err e" "worker_round env vault trust fs now st
      = st\<lparr>sv_phase := PhaseSending [ActFailure None None ''FINSTANCE_STORE''] (sv_known st)\<rparr>"
  then show ?thesis by simp
next
  fix ps' qs acts d
  let ?st = "worker_round env vault trust fs now st"
  assume table: "instance_table (pe_store_lib env) (sv_db st) ps'" "instance_table (pe_store_lib env) d qs"
    and same: "list_all2 same_record ps' qs" and st: "sv_db ?st = d" "kept ?st = snd (plan_snapshot ps' (sv_known st))"
  have look: "bt_lookup i (kept ?st) = map_option fingerprint_of (wanted qs i)" for i
    by (simp add: st plan_lookup [OF table_ids(2) [OF table(1)]] same_wanted [OF same])
  have wf: "bt_wf (kept ?st)" by (simp add: st plan_snapshot_def plan_wf)
  note ids = table_ids(2) [OF table(2)]
  have none: "filter (\<lambda>x. desired_on x = i) (fst (plan_snapshot qs (kept ?st))) = []" for i
    by (simp add: plan_filter [OF ids wf] look split: option.split)
  have "fst (plan_snapshot qs (kept ?st)) = []"
  proof (cases "fst (plan_snapshot qs (kept ?st))")
    case (Cons x xs)
    with none [of "desired_on x"] show ?thesis by simp
  qed
  moreover have "snd (plan_snapshot qs (kept ?st)) = kept ?st"
    by (intro bt_eqI wf) (simp_all add: look plan_lookup [OF ids], simp add: plan_snapshot_def plan_wf)
  ultimately show ?thesis
    using instance_table_list [OF table(1)] instance_table_list [OF table(2)] st by (simp add: prod_eq_iff)
qed


section \<open>A lost stop\<close>

text \<open>The worker has forgotten an instance that has a session and is not wanted.\<close>

definition lost :: "'v store_lib \<Rightarrow> u64 \<Rightarrow> sup_state \<Rightarrow> bool" where
  "lost lib i st \<longleftrightarrow> bt_wf (sv_known st) \<and> bt_wf (kept st) \<and> bt_lookup i (sv_known st) = None \<and> bt_lookup i (kept st) = None
     \<and> (\<forall>a \<in> set (pending st). act_on a \<noteq> Some i) \<and> bt_lookup i (sv_sessions st) \<noteq> None
     \<and> (\<exists>qs. instance_table lib (sv_db st) qs \<and> wanted qs i = None)"

text \<open>The database is left alone and the session does not end by itself.\<close>

fun leaves :: "u64 \<Rightarrow> sup_event \<Rightarrow> bool" where
  "leaves i (EvDatabase d) = False"
| "leaves i (EvTick s reports) = (reports i = None)"
| "leaves i _ = True"

lemma prepare_acts_on:
  "a \<in> set (fst (fold (prepare_one env vault trust fs now) xs (as, d)))
     \<Longrightarrow> a \<in> set as \<or> (\<exists>x \<in> set xs. act_on a = Some (desired_on x))"
proof (induction xs arbitrary: as d)
  case (Cons x xs)
  obtain b d' where "prepare_one env vault trust fs now x (as, d) = (as @ [b], d')" "act_on b = Some (desired_on x)"
    using prepare_one_action [of env vault trust fs now x as d] by blast
  with Cons.IH [of "as @ [b]" d'] Cons.prems show ?case by auto
qed simp

lemma apply_keeps_session:
  "act_on a \<noteq> Some i \<Longrightarrow> bt_lookup i (sv_sessions (apply_action s a st)) = bt_lookup i (sv_sessions st)"
  by (induction s a st rule: apply_action.induct) (auto simp: set_observed_def forget_def Let_def)

lemma applies_keep_session:
  "\<forall>a \<in> set as. act_on a \<noteq> Some i \<Longrightarrow> bt_lookup i (sv_sessions (apply_actions s as st)) = bt_lookup i (sv_sessions st)"
  unfolding apply_actions_def by (induction as arbitrary: st) (simp_all add: apply_keeps_session)

lemma drain_keeps_session:
  "\<forall>a \<in> set (concat (sv_batches st)). act_on a \<noteq> Some i
     \<Longrightarrow> bt_lookup i (sv_sessions (drain_batches s n st)) = bt_lookup i (sv_sessions st)
       \<and> set (sv_batches (drain_batches s n st)) \<subseteq> set (sv_batches st)"
  by (induction s n st rule: drain_batches.induct) (auto simp: applies_keep_session split: list.split)

lemma tick_keeps_session:
  assumes "\<forall>a \<in> set (pending st). act_on a \<noteq> Some i" and "reports i = None"
  shows "bt_lookup i (sv_sessions (ui_tick s reports st)) = bt_lookup i (sv_sessions st)
    \<and> (\<forall>a \<in> set (pending (ui_tick s reports st)). act_on a \<noteq> Some i)"
proof -
  let ?st = "drain_batches s UI_BATCH_LIMIT st"
  have drained: "bt_lookup i (sv_sessions ?st) = bt_lookup i (sv_sessions st)" "set (sv_batches ?st) \<subseteq> set (sv_batches st)"
    using drain_keeps_session [of st i s UI_BATCH_LIMIT] assms(1) by (auto simp: pending_def)
  have "i \<notin> fst ` set (List.map_filter (\<lambda>iid. map_option (Pair iid) (reports iid)) (bt_keys (sv_sessions ?st)))"
    using polled_ids [of reports "bt_keys (sv_sessions ?st)"] assms(2) by auto
  note poll_fold_observed [OF this, of ?st]
  moreover have "set (pending (ui_tick s reports st)) \<subseteq> set (pending st)"
    using drained(2) by (auto simp: pending_def ui_tick_def poll_session_lifecycle_def split: worker_phase.splits)
  ultimately show ?thesis
    using drained(1) assms(1) by (auto simp: ui_tick_def poll_session_lifecycle_def)
qed

lemma lost_round:
  assumes lost: "lost (pe_store_lib env) i st" and ready: "sv_phase st = PhaseReady"
  shows "lost (pe_store_lib env) i (worker_round env vault trust fs now st)"
proof -
  from lost obtain ps where table: "instance_table (pe_store_lib env) (sv_db st) ps" and gone: "wanted ps i = None"
    and wf: "bt_wf (sv_known st)" and unknown: "bt_lookup i (sv_known st) = None"
    and pend: "\<forall>a \<in> set (pending st). act_on a \<noteq> Some i" and session: "bt_lookup i (sv_sessions st) \<noteq> None"
    by (auto simp: lost_def)
  show ?thesis
  proof (rule worker_round_cases [OF table_db_ok [OF table] ready, of env vault trust fs now])
    fix e assume "instance_list (pe_store_lib env) (sv_db st) = Err e"
    with instance_table_list [OF table] show ?thesis by simp
  next
    fix ps' qs acts d
    let ?st = "worker_round env vault trust fs now st"
    assume table': "instance_table (pe_store_lib env) (sv_db st) ps'" "instance_table (pe_store_lib env) d qs"
      and same: "list_all2 same_record ps' qs"
      and acts: "(acts, d) = prepare_actions env vault trust fs now (fst (plan_snapshot ps' (sv_known st))) (sv_db st)"
      and st: "sv_db ?st = d" "kept ?st = snd (plan_snapshot ps' (sv_known st))"
        "sv_known ?st \<in> {sv_known st, snd (plan_snapshot ps' (sv_known st))}" "pending ?st = concat (sv_batches st) @ acts"
        "sv_sessions ?st = sv_sessions st"
    have "ps' = ps" using instance_table_list [OF table] instance_table_list [OF table'(1)] by simp
    note ids = table_ids(2) [OF table]
    have "filter (\<lambda>x. desired_on x = i) (fst (plan_snapshot ps (sv_known st))) = []"
      by (simp add: plan_filter [OF ids wf] gone unknown)
    then have "\<forall>a \<in> set acts. act_on a \<noteq> Some i"
      using acts prepare_acts_on [of _ env vault trust fs now "fst (plan_snapshot ps (sv_known st))" "[]" "sv_db st"]
      unfolding \<open>ps' = ps\<close> prepare_actions_def by (fastforce simp: filter_empty_conv dest: arg_cong [where f = fst])
    moreover have "wanted qs i = None" using same_wanted [OF same, of i] gone by (simp add: \<open>ps' = ps\<close>)
    moreover have "bt_lookup i (snd (plan_snapshot ps (sv_known st))) = None" by (simp add: plan_lookup [OF ids] gone)
    moreover have "bt_wf (snd (plan_snapshot ps (sv_known st)))" by (simp add: plan_snapshot_def plan_wf)
    ultimately show ?thesis
      using table'(2) st pend session wf unknown unfolding lost_def \<open>ps' = ps\<close> by (auto simp: pending_def)
  qed
qed

lemma lost_step:
  assumes lost: "lost (pe_store_lib env) i st" and e: "leaves i e"
  shows "lost (pe_store_lib env) i (sup_step env vault e st)"
proof (cases e)
  case (EvRound now trust fs)
  with lost show ?thesis by (simp add: lost_round)
next
  case EvSend
  with lost show ?thesis
    by (cases "sv_phase st") (auto simp: lost_def worker_send_def pending_def kept_def)
next
  case EvWait
  with lost show ?thesis
    by (auto simp: lost_def wait_for_command_def pending_def kept_def split: list.split supervisor_command.split)
next
  case (EvTick s reports)
  have "kept (ui_tick s reports st) = kept st" by (simp add: kept_def split: worker_phase.split)
  with lost e tick_keeps_session [of st i reports s] show ?thesis by (simp add: EvTick lost_def)
next
  case (EvLaunched k res)
  have "kept (complete_launch k res st) = kept st" "pending (complete_launch k res st) = pending st"
    by (simp_all add: kept_def pending_def split: worker_phase.split)
  moreover have "bt_lookup i (sv_sessions st) \<noteq> None \<Longrightarrow> bt_lookup i (sv_sessions (complete_launch k res st)) \<noteq> None"
    by (auto simp: complete_launch_def set_observed_def Let_def split: result.split)
  ultimately show ?thesis using lost by (simp add: EvLaunched lost_def)
next
  case (EvRetry j)
  have "kept (supervisor_retry j st) = kept st" "pending (supervisor_retry j st) = pending st"
    by (simp_all add: kept_def pending_def supervisor_retry_def split: worker_phase.split)
  with lost show ?thesis by (auto simp: EvRetry lost_def supervisor_retry_def)
qed (use e in simp)

lemma lost_run:
  "lost (pe_store_lib env) i st \<Longrightarrow> list_all (leaves i) evs \<Longrightarrow> lost (pe_store_lib env) i (fold (sup_step env vault) evs st)"
  by (induction evs arbitrary: st) (simp_all add: lost_step)

text \<open>C16: A retry can make a stop go missing: when the worker takes the retry of an instance that still has a
  session and has been stopped or deleted meanwhile, with no action on it under way, it forgets the instance before it
  looks at the database.  However many rounds, launches, retries and ticks follow, none of them stops the session as long
  as nothing else changes the database and the session does not end by itself.  Nothing is claimed about what happens
  after a later change of the database, such as a new start of the instance.\<close>

theorem retried_stop_is_lost:
  assumes waiting: "sv_phase st = PhaseWaiting" "sv_commands st = Retry i # cs" "\<forall>a \<in> set (pending st). act_on a \<noteq> Some i"
    and session: "bt_lookup i (sv_sessions st) \<noteq> None" and known: "bt_wf (sv_known st)"
    and stopped: "instance_list (pe_store_lib env) (sv_db st) = Ok ps" "db_ok (sv_db st)" "wanted ps i = None"
    and evs: "list_all (leaves i) evs"
  shows "bt_lookup i (sv_sessions (sup_run env vault (EvWait # evs) st)) \<noteq> None"
proof -
  let ?st = "wait_for_command st"
  have "instance_table (pe_store_lib env) (sv_db st) ps" using stopped by (simp add: db_ok_table)
  then have "lost (pe_store_lib env) i ?st"
    using assms by (auto simp: lost_def wait_for_command_def pending_def kept_def)
  then have "lost (pe_store_lib env) i (sup_run env vault evs ?st)"
    unfolding sup_run_def by (rule lost_run [OF _ evs])
  then show ?thesis using waiting by (simp add: lost_def sup_run_def)
qed


section \<open>A concrete run\<close>

definition desk_started :: runnable_instance where
  "desk_started = desk_runnable\<lparr>rn_instance := desk_instance\<lparr>pi_generation := 1, pi_updated_at := 7\<rparr>\<rparr>"

lemma desk_plan: "plan_snapshot [desk_instance] [] = ([DesireStart desk_instance], [(2, fingerprint_of desk_instance)])"
  by (simp add: plan_snapshot_def plan_one_def Let_def bt_keys_def) (simp add: desk_instance_def)

lemma desk_round:
  "\<exists>d https. worker_round desk_env vault trust desk_fs 7 (supervisor_start (desk_db DesiredRunning))
     = (supervisor_start (desk_db DesiredRunning))\<lparr>sv_db := d, sv_snapshot := [desk_instance],
         sv_phase := PhaseSending [ActStart desk_started https] [(2, fingerprint_of desk_instance)]\<rparr>"
proof -
  obtain d where adv: "advance_and_get (pe_store_lib desk_env) 7 desk_instance (desk_db DesiredRunning)
      = (Ok (desk_instance\<lparr>pi_generation := 1, pi_updated_at := 7\<rparr>), d)" "db_grants d = []"
    using desk_advances by blast
  have load: "load_started desk_env trust (desk_instance\<lparr>pi_generation := 1, pi_updated_at := 7\<rparr>) desk_fs = Ok desk_started"
    by (simp add: load_started_def desk_runnable_loads desk_started_def)
  have "grants_for_instance (pi_id (rn_instance desk_started)) d = Ok []"
    by (simp add: grants_for_instance_def adv(2) sqlite_i64_def desk_started_def desk_instance_def)
  then obtain https where "compose_instance_https (pi_id (rn_instance desk_started)) (pl_manifest (rn_plugin desk_started)) vault d = Some https"
    by (simp add: compose_instance_https_def)
  with adv load have "prepare_actions desk_env vault trust desk_fs 7 [DesireStart desk_instance] (desk_db DesiredRunning)
      = ([ActStart desk_started https], d)"
    by (simp add: prepare_actions_def prepare_one_def Let_def)
  moreover have "instance_list (pe_store_lib desk_env) (desk_db DesiredRunning) = Ok [desk_instance]"
    by (rule instance_table_list [OF desk_running_table])
  ultimately show ?thesis by (auto simp: worker_round_def supervisor_start_def desk_plan)
qed

definition desk_events :: "sup_event list" where
  "desk_events = [EvRound 7 undefined desk_fs, EvSend, EvTick True (\<lambda>_. None), EvLaunched 0 (Ok ())]"

lemma sup_run_Cons: "sup_run env vault [] st = st" "sup_run env vault (e # es) st = sup_run env vault es (sup_step env vault e st)"
  by (simp_all add: sup_run_def)

lemma sup_run_append: "sup_run env vault (es @ es') st = sup_run env vault es' (sup_run env vault es st)"
  by (simp add: sup_run_def)

text \<open>The clock runs.\<close>

lemma desk_state:
  "\<exists>d. sup_run desk_env vault desk_events (supervisor_start (desk_db DesiredRunning))
     = \<lparr>sv_db = d, sv_phase = PhaseWaiting, sv_known = [(2, fingerprint_of desk_instance)], sv_snapshot = [desk_instance],
        sv_batches = [], sv_commands = [], sv_sessions = [(2, desk_started)], sv_desired = [(2, 1)], sv_launches = [],
        sv_observed = [(2, \<lparr>ob_instance = 2, ob_state = ObservedStarting, ob_code = None\<rparr>)]\<rparr>"
proof -
  obtain d https where round: "worker_round desk_env vault undefined desk_fs 7 (supervisor_start (desk_db DesiredRunning))
      = (supervisor_start (desk_db DesiredRunning))\<lparr>sv_db := d, sv_snapshot := [desk_instance],
         sv_phase := PhaseSending [ActStart desk_started https] [(2, fingerprint_of desk_instance)]\<rparr>"
    using desk_round by blast
  have ready: "sv_phase (supervisor_start (desk_db DesiredRunning)) = PhaseReady" by (simp add: supervisor_start_def)
  have facts: "pi_id (rn_instance desk_started) = 2" "pi_generation (rn_instance desk_started) = 1"
    by (simp_all add: desk_started_def desk_instance_def)
  show ?thesis
    by (simp add: sup_run_def desk_events_def ready round worker_send_def ACTION_QUEUE_CAPACITY_def)
      (simp add: supervisor_start_def
        ui_tick_def UI_BATCH_LIMIT_def eval_nat_numeral apply_actions_def facts set_observed_def Let_def
        poll_session_lifecycle_def bt_keys_def List.map_filter_def complete_launch_def)
qed

lemma desk_db_ok: "db_ok (desk_db s)"
  by (rule table_db_ok [OF desk_table])

lemma supervisor_runs_what_is_wanted_witness:
  "fate (sup_run desk_env undefined desk_events (supervisor_start (desk_db DesiredRunning))) 2 \<noteq> Gone"
proof -
  let ?st = "sup_run desk_env undefined desk_events (supervisor_start (desk_db DesiredRunning))"
  obtain d where st: "?st = \<lparr>sv_db = d, sv_phase = PhaseWaiting, sv_known = [(2, fingerprint_of desk_instance)], sv_snapshot = [desk_instance],
        sv_batches = [], sv_commands = [], sv_sessions = [(2, desk_started)], sv_desired = [(2, 1)], sv_launches = [],
        sv_observed = [(2, \<lparr>ob_instance = 2, ob_state = ObservedStarting, ob_code = None\<rparr>)]\<rparr>"
    using desk_state by blast
  have "pending ?st = []" by (simp add: st pending_def)
  moreover have "list_all undisturbed desk_events" by (simp add: desk_events_def)
  moreover have "wanted (sv_snapshot ?st) 2 \<noteq> None" by (simp add: st wanted_def desk_instance_def)
  ultimately show ?thesis using supervisor_runs_what_is_wanted [OF desk_db_ok _ refl] by blast
qed

lemma supervisor_comes_to_rest_witness:
  "\<exists>qs. instance_list (pe_store_lib desk_env) (sv_db (worker_round desk_env undefined undefined desk_fs 7
      (supervisor_start (desk_db DesiredRunning)))) = Ok qs"
proof -
  have "sv_phase (supervisor_start (desk_db DesiredRunning)) = PhaseReady" "db_ok (sv_db (supervisor_start (desk_db DesiredRunning)))"
    "instance_list (pe_store_lib desk_env) (sv_db (supervisor_start (desk_db DesiredRunning))) = Ok [desk_instance]"
    using instance_table_list [OF desk_running_table] desk_db_ok by (simp_all add: supervisor_start_def)
  with supervisor_comes_to_rest [OF this(2,1), of desk_env undefined undefined desk_fs 7] show ?thesis by auto
qed

lemma retried_stop_is_lost_witness:
  "bt_lookup 2 (sv_sessions (sup_run desk_env undefined
       (desk_events @ [EvRetry 2, EvDatabase (desk_db DesiredStopped), EvWait, EvRound 8 undefined desk_fs, EvWait, EvRound 9 undefined desk_fs])
       (supervisor_start (desk_db DesiredRunning)))) \<noteq> None"
proof -
  let ?run = "sup_run desk_env undefined" and ?evs = "[EvRound 8 undefined desk_fs, EvWait, EvRound 9 undefined desk_fs]"
  let ?st = "?run [EvRetry 2, EvDatabase (desk_db DesiredStopped)] (?run desk_events (supervisor_start (desk_db DesiredRunning)))"
  obtain d where "sup_run desk_env undefined desk_events (supervisor_start (desk_db DesiredRunning))
     = \<lparr>sv_db = d, sv_phase = PhaseWaiting, sv_known = [(2, fingerprint_of desk_instance)], sv_snapshot = [desk_instance],
        sv_batches = [], sv_commands = [], sv_sessions = [(2, desk_started)], sv_desired = [(2, 1)], sv_launches = [],
        sv_observed = [(2, \<lparr>ob_instance = 2, ob_state = ObservedStarting, ob_code = None\<rparr>)]\<rparr>"
    using desk_state by blast
  then have st: "sv_phase ?st = PhaseWaiting" "sv_commands ?st = [Retry 2]" "\<forall>a \<in> set (pending ?st). act_on a \<noteq> Some 2"
    "bt_lookup 2 (sv_sessions ?st) \<noteq> None" "bt_wf (sv_known ?st)" "sv_db ?st = desk_db DesiredStopped"
    by (simp_all add: sup_run_Cons supervisor_retry_def COMMAND_QUEUE_CAPACITY_def bt_wf_Cons pending_def)
  have "instance_list (pe_store_lib desk_env) (sv_db ?st) = Ok [desk_instance\<lparr>pi_desired := DesiredStopped\<rparr>]"
    unfolding st(6) by (rule instance_table_list [OF desk_table])
  moreover have "db_ok (sv_db ?st)" unfolding st(6) by (rule desk_db_ok)
  moreover have "wanted [desk_instance\<lparr>pi_desired := DesiredStopped\<rparr>] 2 = None" by (simp add: wanted_def)
  ultimately have "bt_lookup 2 (sv_sessions (sup_run desk_env undefined (EvWait # ?evs) ?st)) \<noteq> None"
    by (intro retried_stop_is_lost [OF st(1-5)]) simp_all
  then show ?thesis by (simp add: sup_run_def)
qed


end
