(* ===== verification/Control.thy ===== *)
theory Control
  imports Supervisor Floats
begin

text \<open>
  The control plane of the instances, \<open>floatile-shell/src/instance_control.rs\<close>: a form is derived from
  the JSON schema of an installation and the configuration of an instance, the user's commands go
  through a queue to a worker that checks and stores them, and the window shows the last snapshot the
  worker has sent.

  \<open>control_lib\<close> holds the JSON reader and writer and the JSON pointers of \<open>serde_json\<close>.  The numbers of
  the form are read as the standard library reads them: \<open>parse_i64\<close>, and \<open>parse_f64\<close> with the exact
  value rounded once.  The texts for users are left out but for their codes.
\<close>

section \<open>Reading numbers\<close>

definition parse_i64 :: "string \<Rightarrow> int option" where
  "parse_i64 s =
     (let neg = (case s of c # _ \<Rightarrow> c = CHR ''-'' | [] \<Rightarrow> False);
          ds = (case s of c # cs \<Rightarrow> if c = CHR ''+'' \<or> c = CHR ''-'' then cs else s | [] \<Rightarrow> s)
      in if ds = [] then None
         else case digits_value 0 ds of
                None \<Rightarrow> None
              | Some n \<Rightarrow> (let v = (if neg then - int n else int n) in if - (2 ^ 63) \<le> v \<and> v < 2 ^ 63 then Some v else None))"

text \<open>A sign and the text after it.\<close>

definition split_sign :: "string \<Rightarrow> bool \<times> string" where
  "split_sign s =
     (case s of
        [] \<Rightarrow> (False, s)
      | c # cs \<Rightarrow> if c = CHR ''-'' then (True, cs) else if c = CHR ''+'' then (False, cs) else (False, s))"

definition is_exponent_mark :: "char \<Rightarrow> bool" where
  "is_exponent_mark c \<longleftrightarrow> c = CHR ''e'' \<or> c = CHR ''E''"

text \<open>The exponent after the mantissa: none, or a mark, a sign and digits.\<close>

definition parse_exponent :: "string \<Rightarrow> int option" where
  "parse_exponent s =
     (case s of
        [] \<Rightarrow> Some 0
      | _ # cs \<Rightarrow>
          (case split_sign cs of
             (neg, ds) \<Rightarrow>
               if ds = [] then None
               else map_option (\<lambda>n. if neg then - int n else int n) (digits_value 0 ds)))"

definition parse_decimal :: "string \<Rightarrow> rat option" where
  "parse_decimal s =
     (let mantissa = takeWhile (\<lambda>c. \<not> is_exponent_mark c) s;
          whole = takeWhile (\<lambda>c. c \<noteq> CHR ''.'') mantissa;
          fraction = drop 1 (dropWhile (\<lambda>c. c \<noteq> CHR ''.'') mantissa)
      in if whole @ fraction = [] then None
         else case digits_value 0 (whole @ fraction) of
                None \<Rightarrow> None
              | Some n \<Rightarrow> map_option (\<lambda>e. of_nat n * 10 powi (e - int (length fraction)))
                           (parse_exponent (dropWhile (\<lambda>c. \<not> is_exponent_mark c) s)))"

definition parse_f64 :: "string \<Rightarrow> ieee option" where
  "parse_f64 s =
     (case split_sign s of
        (neg, body) \<Rightarrow>
          (let word = map to_ascii_lower body
           in if word = ''inf'' \<or> word = ''infinity'' then Some (Infinity neg)
              else if word = ''nan'' then Some NotANumber
              else map_option (\<lambda>r. f64_round (if neg then - r else r)) (parse_decimal body)))"

text \<open>\<open>Value::from(i64)\<close> and \<open>Number::from_f64\<close>.\<close>

definition json_of_i64 :: "int \<Rightarrow> json" where
  "json_of_i64 v = JNum (if 0 \<le> v then PosInt (word_of_int v) else NegInt v)"

definition json_of_f64 :: "ieee \<Rightarrow> json option" where
  "json_of_f64 x = (case x of Fin r \<Rightarrow> Some (JNum (Float r)) | _ \<Rightarrow> None)"

definition parse_bool :: "string \<Rightarrow> bool option" where
  "parse_bool s = (if s = ''true'' then Some True else if s = ''false'' then Some False else None)"

section \<open>The form\<close>

datatype config_field_kind = KindString | KindInteger | KindNumber | KindBoolean | KindJson | KindRootJson

record config_field =
  cf_key :: string
  cf_label :: string
  cf_kind :: config_field_kind
  cf_value :: string
  cf_required :: bool
  cf_present :: bool

record control_lib =
  cl_text :: "json \<Rightarrow> string"
  cl_read :: "string \<Rightarrow> json option"
  cl_pointer :: "json \<Rightarrow> string \<Rightarrow> json option"

text \<open>\<open>Value::get\<close> with a string.\<close>

definition value_get :: "json \<Rightarrow> string \<Rightarrow> json option" where
  "value_get v key = Option.bind (as_object v) (bt_lookup key)"

definition field_kind :: "json \<Rightarrow> config_field_kind" where
  "field_kind schema =
     (case Option.bind (value_get schema ''type'') as_str of
        None \<Rightarrow> KindJson
      | Some t \<Rightarrow>
          if t = ''string'' then KindString
          else if t = ''integer'' then KindInteger
          else if t = ''number'' then KindNumber
          else if t = ''boolean'' then KindBoolean
          else KindJson)"

definition field_value :: "control_lib \<Rightarrow> config_field_kind \<Rightarrow> json \<Rightarrow> string" where
  "field_value lib kind v =
     (case (kind, v) of (KindString, JStr s) \<Rightarrow> s | _ \<Rightarrow> cl_text lib v)"

definition resolve_schema :: "control_lib \<Rightarrow> json \<Rightarrow> json \<Rightarrow> json" where
  "resolve_schema lib root_schema schema =
     (case Option.bind (value_get schema ''$ref'') as_str of
        None \<Rightarrow> schema
      | Some reference \<Rightarrow>
          (case reference of
             [] \<Rightarrow> schema
           | c # pointer \<Rightarrow>
               if c \<noteq> CHR ''#'' then schema
               else case cl_pointer lib root_schema pointer of None \<Rightarrow> schema | Some s \<Rightarrow> s))"

text \<open>The label of the field of the whole configuration, in UTF-8.\<close>

definition root_label :: string where
  "root_label = [CHR 0xE5, CHR 0xAE, CHR 0x8C, CHR 0xE6, CHR 0x95, CHR 0xB4, CHR 0xE9, CHR 0x85, CHR 0x8D, CHR 0xE7, CHR 0xBD, CHR 0xAE]"

definition root_config_field :: "control_lib \<Rightarrow> json_map option \<Rightarrow> config_field list" where
  "root_config_field lib config =
     [\<lparr>cf_key = [], cf_label = root_label, cf_kind = KindRootJson,
       cf_value = (case config of None \<Rightarrow> ''{}'' | Some m \<Rightarrow> field_value lib KindRootJson (JObj m)),
       cf_required = True, cf_present = True\<rparr>]"

definition composition_keywords :: "string list" where
  "composition_keywords = [''allOf'', ''anyOf'', ''oneOf'', ''if'', ''then'', ''else'', ''patternProperties'']"

definition required_keys :: "json \<Rightarrow> string list" where
  "required_keys schema =
     (case Option.bind (value_get schema ''required'') as_array of
        None \<Rightarrow> []
      | Some vs \<Rightarrow> List.map_filter as_str vs)"

definition form_field :: "control_lib \<Rightarrow> json \<Rightarrow> json_map option \<Rightarrow> string \<times> json \<Rightarrow> config_field" where
  "form_field lib schema config entry =
     (let key = fst entry;
          field_schema = resolve_schema lib schema (snd entry);
          kind = field_kind field_schema;
          existing = Option.bind config (bt_lookup key);
          preset = value_get field_schema ''default'';
          req = (key \<in> set (required_keys schema))
      in \<lparr>cf_key = key,
          cf_label = (case Option.bind (value_get field_schema ''title'') as_str of None \<Rightarrow> key | Some t \<Rightarrow> t),
          cf_kind = kind,
          cf_value = (case (case existing of None \<Rightarrow> preset | Some v \<Rightarrow> Some v) of
                        None \<Rightarrow> [] | Some v \<Rightarrow> field_value lib kind v),
          cf_required = req,
          cf_present = (existing \<noteq> None \<or> preset \<noteq> None \<or> req)\<rparr>)"

definition form_fields :: "control_lib \<Rightarrow> json option \<Rightarrow> json_map option \<Rightarrow> config_field list" where
  "form_fields lib schema config =
     (case schema of
        None \<Rightarrow> []
      | Some s \<Rightarrow>
          (case Option.bind (value_get s ''properties'') as_object of
             None \<Rightarrow> root_config_field lib config
           | Some properties \<Rightarrow>
               if list_ex (\<lambda>k. value_get s k \<noteq> None) composition_keywords
                  \<or> (case config of None \<Rightarrow> False | Some m \<Rightarrow> list_ex (\<lambda>k. bt_lookup k properties = None) (bt_keys m))
               then root_config_field lib config
               else map (form_field lib s config) properties))"

datatype control_error =
    CtlInstallationMissing
  | CtlInstanceMissing
  | CtlMustBeStopped
  | CtlConcurrentUpdate
  | CtlSchemaInvalid
  | CtlInvalidField string
  | CtlCatalog catalog_error
  | CtlConfig instance_error
  | CtlConfigValidation config_validation_error
  | CtlStore store_error

fun control_error_code :: "control_error \<Rightarrow> string" where
  "control_error_code CtlInstallationMissing = ''FINSTANCE_INSTALLATION_MISSING''"
| "control_error_code CtlInstanceMissing = ''FINSTANCE_NOT_FOUND''"
| "control_error_code CtlMustBeStopped = ''FINSTANCE_MUST_BE_STOPPED''"
| "control_error_code CtlConcurrentUpdate = ''FINSTANCE_CONCURRENT_UPDATE''"
| "control_error_code CtlSchemaInvalid = ''FINSTANCE_CONFIG_SCHEMA_INVALID''"
| "control_error_code (CtlInvalidField f) = ''FINSTANCE_CONFIG_INVALID''"
| "control_error_code (CtlConfig e) = ''FINSTANCE_CONFIG_INVALID''"
| "control_error_code (CtlConfigValidation e) = ''FINSTANCE_CONFIG_INVALID''"
| "control_error_code (CtlCatalog e) = catalog_error_code e"
| "control_error_code (CtlStore e) = ''FINSTANCE_STORE''"

definition field_json :: "control_lib \<Rightarrow> config_field \<Rightarrow> (json, control_error) result" where
  "field_json lib f =
     ok_or (CtlInvalidField (cf_key f))
       (case cf_kind f of
          KindString \<Rightarrow> Some (JStr (cf_value f))
        | KindInteger \<Rightarrow> map_option json_of_i64 (parse_i64 (cf_value f))
        | KindNumber \<Rightarrow> Option.bind (parse_f64 (cf_value f)) json_of_f64
        | KindBoolean \<Rightarrow> map_option JBool (parse_bool (cf_value f))
        | _ \<Rightarrow> cl_read lib (cf_value f))"

definition config_from_fields :: "control_lib \<Rightarrow> config_field list \<Rightarrow> (json_map, control_error) result" where
  "config_from_fields lib form =
     (case find (\<lambda>f. cf_kind f = KindRootJson) form of
        Some f \<Rightarrow>
          try_bind (ok_or (CtlInvalidField ''<root>'') (cl_read lib (cf_value f)))
            (\<lambda>v. map_err CtlConfig (config_new (cl_text lib) v))
      | None \<Rightarrow>
          try_bind (try_fold (\<lambda>f m. try_bind (field_json lib f) (\<lambda>v. Ok (bt_insert (cf_key f) v m)))
                      (filter (\<lambda>f. cf_present f \<or> cf_required f) form) [])
            (\<lambda>m. map_err CtlConfig (config_new (cl_text lib) (JObj m))))"

section \<open>Commands\<close>

datatype control_command =
    CmdCreate string string "config_field list"
  | CmdConfigure u64 "config_field list"
  | CmdSetDesired u64 desired_state
  | CmdDelete u64
  | CmdStop

definition require_instance :: "'v store_lib \<Rightarrow> u64 \<Rightarrow> db \<Rightarrow> (plugin_instance, control_error) result" where
  "require_instance lib iid d =
     try_bind (map_err CtlStore (instance_get lib iid d)) (ok_or CtlInstanceMissing)"

definition require_stopped :: "plugin_instance \<Rightarrow> (unit, control_error) result" where
  "require_stopped p = (if pi_desired p = DesiredStopped then Ok () else Err CtlMustBeStopped)"

definition installed_for ::
  "'v plugin_env \<Rightarrow> control_lib \<Rightarrow> (installed_installation option, catalog_error) result \<Rightarrow> config_field list
     \<Rightarrow> (installed_installation \<times> json_map, control_error) result"
where
  "installed_for env lib found form =
     try_bind (map_err CtlCatalog found) (\<lambda>o1.
     try_bind (ok_or CtlInstallationMissing o1) (\<lambda>i.
     try_bind (config_from_fields lib form) (\<lambda>config.
     try_bind (map_err CtlConfigValidation (ii_validate_config (pe_lib env) (pe_validator_for env) i config)) (\<lambda>_.
     Ok (i, config)))))"

text \<open>The outcome of a statement of the store, \<open>false\<close> being a concurrent change.\<close>

definition stored :: "(bool, store_error) result \<times> db \<Rightarrow> (unit, control_error) result \<times> db" where
  "stored r =
     (case r of
        (Err e, d) \<Rightarrow> (Err (CtlStore e), d)
      | (Ok changed, d) \<Rightarrow> (if changed then Ok () else Err CtlConcurrentUpdate, d))"

definition apply_command ::
  "'v plugin_env \<Rightarrow> control_lib \<Rightarrow> fs \<Rightarrow> u64 \<Rightarrow> control_command \<Rightarrow> db \<Rightarrow> (unit, control_error) result \<times> db"
where
  "apply_command env lib fs now cmd d =
     (case cmd of
        CmdCreate plugin version form \<Rightarrow>
          (case try_bind (installed_for env lib (load_exact (pe_lib env) (pe_dir env) plugin version fs) form) (\<lambda>(i, config).
                  try_bind (map_err CtlCatalog (ii_reference (pe_lib env) i)) (\<lambda>r. Ok (r, config))) of
             Err e \<Rightarrow> (Err e, d)
           | Ok (r, config) \<Rightarrow>
               (case instance_create (pe_store_lib env) r config DesiredStopped now d of
                  (Err e, d') \<Rightarrow> (Err (CtlStore e), d')
                | (Ok _, d') \<Rightarrow> (Ok (), d')))
      | CmdConfigure iid form \<Rightarrow>
          (case try_bind (require_instance (pe_store_lib env) iid d) (\<lambda>p.
                  try_bind (require_stopped p) (\<lambda>_.
                  try_bind (installed_for env lib (load_reference (pe_lib env) (pe_dir env) (pi_installation p) fs) form)
                    (\<lambda>(i, config). Ok (p, config)))) of
             Err e \<Rightarrow> (Err e, d)
           | Ok (p, config) \<Rightarrow>
               stored (instance_update_config (pe_store_lib env) iid config (max now (pi_updated_at p)) d))
      | CmdSetDesired iid desired \<Rightarrow>
          (case require_instance (pe_store_lib env) iid d of
             Err e \<Rightarrow> (Err e, d)
           | Ok p \<Rightarrow> stored (instance_set_desired iid desired (max now (pi_updated_at p)) d))
      | CmdDelete iid \<Rightarrow>
          (case try_bind (require_instance (pe_store_lib env) iid d) require_stopped of
             Err e \<Rightarrow> (Err e, d)
           | Ok _ \<Rightarrow> stored (instance_delete iid d))
      | CmdStop \<Rightarrow> (Ok (), d))"

section \<open>Snapshots\<close>

text \<open>A notice is the confirmation of a command or the code of an error.\<close>

datatype notice = NoticeOk | NoticeError string

record installation_record =
  nst_plugin_id :: string
  nst_name :: string
  nst_version :: string
  nst_fields :: "config_field list"

record instance_record =
  nsr_instance :: plugin_instance
  nsr_fields :: "config_field list"

record control_snapshot =
  cs_installations :: "installation_record list"
  cs_instances :: "instance_record list"
  cs_notice :: "notice option"

definition empty_snapshot :: control_snapshot where
  "empty_snapshot = \<lparr>cs_installations = [], cs_instances = [], cs_notice = None\<rparr>"

definition config_schema :: "'v install_lib \<Rightarrow> installed_installation \<Rightarrow> (json option, control_error) result" where
  "config_schema lib i =
     (case mf_config_schema (ii_manifest i) of
        None \<Rightarrow> Ok None
      | Some path \<Rightarrow>
          try_bind (ok_or CtlSchemaInvalid (ii_file i path)) (\<lambda>bytes.
          try_bind (ok_or CtlSchemaInvalid (il_parse_json lib bytes)) (\<lambda>schema. Ok (Some schema))))"

definition installation_record_of ::
  "'v install_lib \<Rightarrow> control_lib \<Rightarrow> installed_installation \<Rightarrow> (installation_record, control_error) result"
where
  "installation_record_of lib clib i =
     try_bind (config_schema lib i) (\<lambda>schema.
     Ok \<lparr>nst_plugin_id = im_id (ii_meta i), nst_name = mf_name (ii_manifest i), nst_version = im_version (ii_meta i),
         nst_fields = form_fields clib schema None\<rparr>)"

text \<open>The record of an instance, and the notice unless there is one already.\<close>

definition instance_record_of ::
  "'v plugin_env \<Rightarrow> control_lib \<Rightarrow> fs \<Rightarrow> plugin_instance \<Rightarrow> instance_record list \<times> notice option
     \<Rightarrow> instance_record list \<times> notice option"
where
  "instance_record_of env clib fs p acc =
     (let (form, problem) =
        (case load_reference (pe_lib env) (pe_dir env) (pi_installation p) fs of
           Ok (Some i) \<Rightarrow>
             (case config_schema (pe_lib env) i of
                Ok schema \<Rightarrow> (form_fields clib schema (Some (pi_config p)), None)
              | Err e \<Rightarrow> ([], Some (NoticeError (control_error_code e))))
         | Ok None \<Rightarrow> ([], Some (NoticeError ''FINSTANCE_INSTALLATION_MISSING''))
         | Err e \<Rightarrow> ([], Some (NoticeError (catalog_error_code e))))
      in (fst acc @ [\<lparr>nsr_instance = p, nsr_fields = form\<rparr>], case snd acc of None \<Rightarrow> problem | Some n \<Rightarrow> Some n))"

definition load_snapshot ::
  "'v::linorder plugin_env \<Rightarrow> control_lib \<Rightarrow> fs \<Rightarrow> notice option \<Rightarrow> db \<Rightarrow> control_snapshot"
where
  "load_snapshot env clib fs note d =
     (case try_bind (map_err CtlCatalog (list_highest (pe_lib env) (pe_read_dir env) (pe_dir env) fs))
             (\<lambda>is. try_fold (\<lambda>i acc. try_bind (installation_record_of (pe_lib env) clib i) (\<lambda>r. Ok (acc @ [r]))) is []) of
        Err e \<Rightarrow> empty_snapshot\<lparr>cs_notice := Some (NoticeError (control_error_code e))\<rparr>
      | Ok records \<Rightarrow>
          (case instance_list (pe_store_lib env) d of
             Err e \<Rightarrow> empty_snapshot\<lparr>cs_installations := records, cs_notice := Some (NoticeError ''FINSTANCE_STORE'')\<rparr>
           | Ok ps \<Rightarrow>
               (case fold (instance_record_of env clib fs) ps ([], None) of
                  (instances, problem) \<Rightarrow>
                    \<lparr>cs_installations = records, cs_instances = instances,
                     cs_notice = (case note of None \<Rightarrow> problem | Some n \<Rightarrow> Some n)\<rparr>)))"

text \<open>The loop of the worker, one entry for what each wait returns, with the files and the time it then
  finds: no command at the end of the interval, or a command.\<close>

fun control_worker ::
  "'v::linorder plugin_env \<Rightarrow> control_lib \<Rightarrow> (fs \<times> u64 \<times> control_command option) list \<Rightarrow> notice option \<Rightarrow> db
     \<Rightarrow> control_snapshot list \<times> db"
where
  "control_worker env clib [] note d = ([], d)"
| "control_worker env clib ((fs, now, received) # steps) note d =
     (let snapshot = load_snapshot env clib fs note d
      in case received of
           None \<Rightarrow> (case control_worker env clib steps None d of (snapshots, d') \<Rightarrow> (snapshot # snapshots, d'))
         | Some CmdStop \<Rightarrow> ([snapshot], d)
         | Some cmd \<Rightarrow>
             (case apply_command env clib fs now cmd d of
                (res, d1) \<Rightarrow>
                  (case control_worker env clib steps
                          (Some (case res of Ok _ \<Rightarrow> NoticeOk | Err e \<Rightarrow> NoticeError (control_error_code e))) d1 of
                     (snapshots, d') \<Rightarrow> (snapshot # snapshots, d'))))"

section \<open>The window\<close>

datatype selection = SelectNone | SelectInstallation string string | SelectInstance u64

record control_state =
  cw_snapshot :: control_snapshot
  cw_fields :: "config_field list"
  cw_selection :: selection

definition selected_installation :: "control_snapshot \<Rightarrow> string \<Rightarrow> string \<Rightarrow> installation_record option" where
  "selected_installation s plugin version =
     find (\<lambda>r. nst_plugin_id r = plugin \<and> nst_version r = version) (cs_installations s)"

definition instance_listed :: "control_snapshot \<Rightarrow> u64 \<Rightarrow> bool" where
  "instance_listed s iid \<longleftrightarrow> list_ex (\<lambda>r. pi_id (nsr_instance r) = iid) (cs_instances s)"

definition selected_instance_id :: "control_state \<Rightarrow> u64 option" where
  "selected_instance_id w =
     (case cw_selection w of
        SelectInstance iid \<Rightarrow> if instance_listed (cw_snapshot w) iid then Some iid else None
      | _ \<Rightarrow> None)"

definition normalize_selection :: "control_state \<Rightarrow> control_state" where
  "normalize_selection w =
     (if (case cw_selection w of
            SelectNone \<Rightarrow> True
          | SelectInstallation p v \<Rightarrow> selected_installation (cw_snapshot w) p v \<noteq> None
          | SelectInstance iid \<Rightarrow> instance_listed (cw_snapshot w) iid)
      then w else w\<lparr>cw_selection := SelectNone\<rparr>)"

text \<open>The timer takes the newest snapshot.\<close>

definition control_tick :: "control_snapshot list \<Rightarrow> control_state \<Rightarrow> control_state" where
  "control_tick received w =
     (if received = [] then w else normalize_selection (w\<lparr>cw_snapshot := last received\<rparr>))"

datatype control_click =
    ClickInstallation int
  | ClickInstance int
  | EditField int string bool
  | ClickCreate
  | ClickSave
  | ClickDesired desired_state
  | ClickRetry
  | ClickDelete

datatype control_request = RequestCommand control_command | RequestRetry u64

definition edit_field :: "string \<Rightarrow> bool \<Rightarrow> config_field \<Rightarrow> config_field" where
  "edit_field val present f = f\<lparr>cf_value := val, cf_present := (cf_required f \<or> present)\<rparr>"

fun control_clicked :: "control_click \<Rightarrow> control_state \<Rightarrow> control_request option \<times> control_state" where
  "control_clicked (ClickInstallation k) w =
     (if k < 0 \<or> int (length (cs_installations (cw_snapshot w))) \<le> k then (None, w)
      else let r = cs_installations (cw_snapshot w) ! nat k
           in (None, w\<lparr>cw_fields := nst_fields r, cw_selection := SelectInstallation (nst_plugin_id r) (nst_version r)\<rparr>))"
| "control_clicked (ClickInstance k) w =
     (if k < 0 \<or> int (length (cs_instances (cw_snapshot w))) \<le> k then (None, w)
      else let r = cs_instances (cw_snapshot w) ! nat k
           in (None, w\<lparr>cw_fields := nsr_fields r, cw_selection := SelectInstance (pi_id (nsr_instance r))\<rparr>))"
| "control_clicked (EditField k val present) w =
     (if k < 0 \<or> int (length (cw_fields w)) \<le> k then (None, w)
      else (None, w\<lparr>cw_fields := (cw_fields w)[nat k := edit_field val present (cw_fields w ! nat k)]\<rparr>))"
| "control_clicked ClickCreate w =
     (case cw_selection w of
        SelectInstallation p v \<Rightarrow>
          (map_option (\<lambda>r. RequestCommand (CmdCreate (nst_plugin_id r) (nst_version r) (cw_fields w)))
             (selected_installation (cw_snapshot w) p v), w)
      | _ \<Rightarrow> (None, w))"
| "control_clicked ClickSave w =
     (map_option (\<lambda>iid. RequestCommand (CmdConfigure iid (cw_fields w))) (selected_instance_id w), w)"
| "control_clicked (ClickDesired desired) w =
     (map_option (\<lambda>iid. RequestCommand (CmdSetDesired iid desired)) (selected_instance_id w), w)"
| "control_clicked ClickRetry w = (map_option RequestRetry (selected_instance_id w), w)"
| "control_clicked ClickDelete w = (map_option (\<lambda>iid. RequestCommand (CmdDelete iid)) (selected_instance_id w), w)"

text \<open>What the window shows: the states of the instances and which actions it offers.\<close>

record control_view =
  cv_installations :: "(string \<times> string \<times> string) list"
  cv_instances :: "(u64 \<times> string \<times> string \<times> string \<times> string option) list"
  cv_notice_ok :: bool
  cv_can_start :: bool
  cv_can_stop :: bool
  cv_can_retry :: bool
  cv_can_configure :: bool

definition shown_state :: "(u64, observed_status) btree \<Rightarrow> plugin_instance \<Rightarrow> observed_state" where
  "shown_state observed p =
     (case bt_lookup (pi_id p) observed of
        Some status \<Rightarrow> ob_state status
      | None \<Rightarrow> (case pi_desired p of DesiredRunning \<Rightarrow> ObservedStarting | DesiredStopped \<Rightarrow> ObservedStopped))"

definition render_window :: "(u64, observed_status) btree \<Rightarrow> control_state \<Rightarrow> control_view" where
  "render_window observed w =
     (let s = cw_snapshot w;
          selected = Option.bind (selected_instance_id w)
                       (\<lambda>iid. find (\<lambda>r. pi_id (nsr_instance r) = iid) (cs_instances s));
          stopped = (\<lambda>r. pi_desired (nsr_instance r) = DesiredStopped);
          failed = (\<lambda>r. map_option ob_state (bt_lookup (pi_id (nsr_instance r)) observed) = Some ObservedFailed)
      in \<lparr>cv_installations = map (\<lambda>r. (nst_name r, nst_plugin_id r, nst_version r)) (cs_installations s),
          cv_instances =
            map (\<lambda>r. let p = nsr_instance r in
                   (pi_id p, ir_plugin (pi_installation p), desired_as_str (pi_desired p),
                    observed_as_str (shown_state observed p), Option.bind (bt_lookup (pi_id p) observed) ob_code)) (cs_instances s),
          cv_notice_ok = (cs_notice s = Some NoticeOk),
          cv_can_start = (case selected of None \<Rightarrow> False | Some r \<Rightarrow> stopped r),
          cv_can_stop = (case selected of None \<Rightarrow> False | Some r \<Rightarrow> \<not> stopped r),
          cv_can_retry = (case selected of None \<Rightarrow> False | Some r \<Rightarrow> failed r \<and> \<not> stopped r),
          cv_can_configure = (case selected of None \<Rightarrow> False | Some r \<Rightarrow> stopped r)\<rparr>)"

section \<open>What a command does to the other instances\<close>

text \<open>The row of an instance is as it was.\<close>

definition same_row :: "u64 \<Rightarrow> db \<Rightarrow> db \<Rightarrow> bool" where
  "same_row iid d d' \<longleftrightarrow> bt_lookup (uint iid) (db_instances d') = bt_lookup (uint iid) (db_instances d)"

lemma same_row_refl [simp]: "same_row iid d d"
  by (simp add: same_row_def)

lemma same_row_get: "same_row iid d d' \<Longrightarrow> instance_get lib iid d' = instance_get lib iid d"
  by (cases "fits iid") (simp_all add: same_row_def instance_get_def sqlite_i64_fits)

lemma update_instance_frame:
  assumes "update_instance i t guard upd d = Ok (changed, d')"
  shows "(\<not> changed \<longrightarrow> d' = d) \<and> (iid \<noteq> i \<longrightarrow> same_row iid d d')"
  using assms
  by (auto simp: update_instance_def update_where_def same_row_def word_uint_eq_iff split: option.splits if_splits)

lemma update_commit_frame:
  assumes "commit d (update_instance i t guard upd d) = (res, d')"
  shows "(res \<noteq> Ok True \<longrightarrow> d' = d) \<and> (iid \<noteq> i \<longrightarrow> same_row iid d d')"
proof (cases "update_instance i t guard upd d")
  case (Ok r)
  obtain changed d1 where r: "r = (changed, d1)" by (cases r)
  with Ok assms update_instance_frame [of i t guard upd d changed d1 iid] show ?thesis by (auto simp: commit_def)
qed (use assms in \<open>simp add: commit_def\<close>)

lemma delete_frame:
  assumes "instance_delete i d = (res, d')"
  shows "(iid \<noteq> i \<longrightarrow> same_row iid d d') \<and> (res \<noteq> Ok True \<and> bt_lookup (uint i) (db_instances d) \<noteq> None \<longrightarrow> d' = d)"
  using assms
  by (cases "sqlite_i64 i")
    (auto simp: instance_delete_def commit_def Let_def same_row_def word_uint_eq_iff split: if_splits)

lemma create_frame:
  assumes "instance_create lib r c desired t d = (res, d')" and "bt_lookup (uint iid) (db_instances d) \<noteq> None"
  shows "same_row iid d d'"
  using assms
  by (auto simp: instance_create_def same_row_def insert_row_def Let_def split: result.splits if_splits)

text \<open>The row that an instance was read from.\<close>

lemma get_Some_row:
  assumes "instance_get lib iid d = Ok (Some p)"
  obtains row where "bt_lookup (uint iid) (db_instances d) = Some row" "row_to_instance lib (uint iid) row = Ok p"
  using assms by (auto simp: instance_get_def split: option.splits)

lemma require_instance_Ok: "require_instance lib iid d = Ok p \<longleftrightarrow> instance_get lib iid d = Ok (Some p)"
proof (cases "instance_get lib iid d")
  case (Ok found)
  then show ?thesis by (cases found) (simp_all add: require_instance_def)
qed (simp add: require_instance_def)

lemma stored_Ok: "stored r = (Ok u, d) \<longleftrightarrow> r = (Ok True, d)"
  by (cases r; cases "fst r") (auto simp: stored_def split: if_splits)

section \<open>Running instances are not edited\<close>

definition sets_desired :: "u64 \<Rightarrow> control_command option \<Rightarrow> bool" where
  "sets_desired iid cmd \<longleftrightarrow> (case cmd of Some (CmdSetDesired i _) \<Rightarrow> i = iid | _ \<Rightarrow> False)"

lemma row_desired: "row_to_instance lib key row = Ok p \<Longrightarrow> desired_parse (nr_desired row) = Ok (pi_desired p)"
  by (auto simp: row_to_instance_def restore_Ok_iff split: if_splits)

lemma create_keeps:
  assumes "apply_command env clib fs now (CmdCreate plugin version form) d = (res, d')"
    and "bt_lookup (uint iid) (db_instances d) \<noteq> None"
  shows "same_row iid d d'"
  using assms by (auto simp: apply_command_def split: result.splits prod.splits dest: create_frame)

lemma stored_snd: "stored (commit d x) = (res, d') \<Longrightarrow> snd (commit d x) = d'"
  by (auto simp: stored_def split: prod.splits result.splits)

lemma commit_frame_snd:
  "snd (commit d (update_instance i t guard upd d)) = d' \<Longrightarrow> i \<noteq> iid \<Longrightarrow> same_row iid d d'"
  using update_commit_frame [OF prod.collapse [symmetric], of d i t guard upd iid] by auto

lemma configure_keeps:
  assumes "apply_command env clib fs now (CmdConfigure i form) d = (res, d')"
    and "require_instance (pe_store_lib env) iid d = Ok p" "pi_desired p = DesiredRunning"
  shows "same_row iid d d'"
proof (cases "i = iid")
  case True
  with assms show ?thesis by (simp add: apply_command_def require_stopped_def)
next
  case False
  with assms(1) show ?thesis
    by (auto simp: apply_command_def instance_update_config_def split: result.splits prod.splits
        dest!: stored_snd intro: commit_frame_snd)
qed

lemma set_desired_keeps:
  assumes "apply_command env clib fs now (CmdSetDesired i desired) d = (res, d')" "i \<noteq> iid"
  shows "same_row iid d d'"
  using assms
  by (auto simp: apply_command_def instance_set_desired_def split: result.splits dest!: stored_snd intro: commit_frame_snd)

lemma delete_keeps:
  assumes "apply_command env clib fs now (CmdDelete i) d = (res, d')"
    and "require_instance (pe_store_lib env) iid d = Ok p" "pi_desired p = DesiredRunning"
  shows "same_row iid d d'"
proof (cases "i = iid")
  case True
  with assms show ?thesis by (simp add: apply_command_def require_stopped_def)
next
  case False
  obtain res1 d1 where del: "instance_delete i d = (res1, d1)" by (cases "instance_delete i d")
  have "d' = d \<or> d' = d1"
    using assms(1) del by (auto simp: apply_command_def stored_def split: result.splits)
  with delete_frame [OF del, of iid] False show ?thesis by auto
qed

lemma command_keeps_running:
  assumes got: "instance_get (pe_store_lib env) iid d = Ok (Some p)" and run: "pi_desired p = DesiredRunning"
    and other: "\<not> sets_desired iid (Some cmd)" and step: "apply_command env clib fs now cmd d = (res, d')"
  shows "instance_get (pe_store_lib env) iid d' = Ok (Some p)"
proof -
  have req: "require_instance (pe_store_lib env) iid d = Ok p" by (simp add: require_instance_Ok got)
  have "same_row iid d d'"
  proof (cases cmd)
    case (CmdCreate plugin version form)
    with create_keeps [OF step [unfolded CmdCreate], of iid] got show ?thesis by (auto elim: get_Some_row)
  next
    case (CmdConfigure i form)
    with configure_keeps [OF step [unfolded CmdConfigure] req run] show ?thesis by simp
  next
    case (CmdSetDesired i desired)
    with set_desired_keeps [OF step [unfolded CmdSetDesired], of iid] other show ?thesis by (simp add: sets_desired_def)
  next
    case (CmdDelete i)
    with delete_keeps [OF step [unfolded CmdDelete] req run] show ?thesis by simp
  next
    case CmdStop
    with step show ?thesis by (simp add: apply_command_def)
  qed
  then show ?thesis by (simp add: same_row_get got)
qed

text \<open>C21: No commands of the control plane, whatever they are and whatever the files they find, change or delete the
  record of an instance whose desired state is running, as long as none of them sets the desired state of
  that instance: an instance has to be stopped before it is configured or deleted.\<close>

theorem running_instance_is_not_edited:
  assumes "instance_get (pe_store_lib env) iid d = Ok (Some p)" and "pi_desired p = DesiredRunning"
    and "list_all (\<lambda>(fs, now, cmd). \<not> sets_desired iid cmd) steps"
    and "control_worker env clib steps msg d = (snapshots, d')"
  shows "instance_get (pe_store_lib env) iid d' = Ok (Some p)"
  using assms
proof (induction env clib steps msg d arbitrary: snapshots rule: control_worker.induct)
  case (2 env clib fs now received steps msg d)
  show ?case
  proof (cases "received = None \<or> received = Some CmdStop")
    case True
    with 2 show ?thesis by (auto simp: Let_def split: prod.splits)
  next
    case False
    then obtain cmd where cmd: "received = Some cmd" "cmd \<noteq> CmdStop" by auto
    obtain res d1 where step: "apply_command env clib fs now cmd d = (res, d1)" by force
    have "instance_get (pe_store_lib env) iid d1 = Ok (Some p)"
      using command_keeps_running [OF "2.prems"(1,2) _ step] "2.prems"(3) cmd by simp
    moreover obtain msg' snapshots' where "control_worker env clib steps msg' d1 = (snapshots', d')"
      "msg' = Some (case res of Ok _ \<Rightarrow> NoticeOk | Err e \<Rightarrow> NoticeError (control_error_code e))"
      using "2.prems"(4) cmd step by (cases cmd) (auto simp: Let_def split: prod.splits)
    ultimately show ?thesis
      using "2.IH" "2.prems" cmd step by (cases cmd) auto
  qed
qed simp

section \<open>Refused commands\<close>

lemma create_Err:
  assumes "instance_create lib r c desired t d = (Err e, d')" and "pred_option (\<lambda>n. 0 \<le> n) (db_next_instance d)"
  shows "d' = d"
proof (rule ccontr)
  assume "d' \<noteq> d"
  with assms obtain key where "0 \<le> key" "key < 2 ^ 63" "installation_ref_validate (sl_semver lib) r = Ok ()"
    "try_bind (read_u64 key) (\<lambda>iid. corrupt (instance_restore (sl_semver lib) iid r c desired 0 t t)) = Err e"
    by (auto simp: instance_create_def allocate_def Let_def split: result.splits option.splits if_splits)
  then show False
    by (auto simp: read_u64_def instance_restore_def installation_ref_validate_def)
qed

lemma stored_Err:
  assumes "stored (commit d (update_instance i t guard upd d)) = (Err e, d')"
  shows "d' = d"
proof -
  obtain res d1 where r: "commit d (update_instance i t guard upd d) = (res, d1)" by force
  with assms have "d' = d1" "res \<noteq> Ok True" by (auto simp: stored_def split: result.splits if_splits)
  with update_commit_frame [OF r] show ?thesis by simp
qed

text \<open>A command that is refused, for whatever reason, leaves the database as it was: the checks come first
  and each statement of the store is made as a whole or not at all.\<close>

theorem refused_command_changes_nothing:
  assumes step: "apply_command env clib fs now cmd d = (Err e, d')"
    and counter: "pred_option (\<lambda>n. 0 \<le> n) (db_next_instance d)"
  shows "d' = d"
proof (cases cmd)
  case (CmdCreate plugin version form)
  with step counter show ?thesis
    by (auto simp: apply_command_def split: result.splits prod.splits dest: create_Err)
next
  case (CmdConfigure i form)
  with step show ?thesis
    by (auto simp: apply_command_def instance_update_config_def split: result.splits prod.splits dest: stored_Err)
next
  case (CmdSetDesired i desired)
  with step show ?thesis
    by (auto simp: apply_command_def instance_set_desired_def split: result.splits dest: stored_Err)
next
  case (CmdDelete i)
  obtain res d1 where del: "instance_delete i d = (res, d1)" by force
  show ?thesis
  proof (cases "try_bind (require_instance (pe_store_lib env) i d) require_stopped")
    case (Ok u)
    then obtain p where "instance_get (pe_store_lib env) i d = Ok (Some p)"
      by (cases "require_instance (pe_store_lib env) i d") (auto simp: require_instance_Ok)
    then have "bt_lookup (uint i) (db_instances d) \<noteq> None" by (auto elim: get_Some_row)
    moreover have "res \<noteq> Ok True" "d' = d1"
      using step CmdDelete Ok del by (auto simp: apply_command_def stored_def split: result.splits if_splits)
    ultimately show ?thesis using delete_frame [OF del] by simp
  qed (use step CmdDelete in \<open>simp add: apply_command_def\<close>)
next
  case CmdStop
  with step show ?thesis by (simp add: apply_command_def)
qed

section \<open>What is saved can be started\<close>

lemma installed_for_Ok:
  assumes "installed_for env clib found form = Ok (i, c)"
  shows "found = Ok (Some i) \<and> config_from_fields clib form = Ok c
    \<and> ii_validate_config (pe_lib env) (pe_validator_for env) i c = Ok ()"
proof -
  from assms obtain o1 i' c' u where "map_err CtlCatalog found = Ok o1" "ok_or CtlInstallationMissing o1 = Ok i'"
    "config_from_fields clib form = Ok c'"
    "map_err CtlConfigValidation (ii_validate_config (pe_lib env) (pe_validator_for env) i' c') = Ok u" "i' = i" "c' = c"
    by (auto simp: installed_for_def)
  moreover from this have "o1 = Some i" by (cases o1) auto
  ultimately show ?thesis by (simp add: map_err_Ok_iff)
qed

lemma config_new_Ok: "config_new text v = Ok c \<Longrightarrow> v = JObj c \<and> config_new text (JObj c) = Ok c"
  by (cases v) (auto simp: config_new_def Let_def split: if_splits)

lemma config_from_fields_new:
  assumes "config_from_fields clib form = Ok c"
  shows "config_new (cl_text clib) (JObj c) = Ok c"
  using assms
  by (auto simp: config_from_fields_def map_err_Ok_iff split: option.splits dest: config_new_Ok)

text \<open>The record after a configuration has been stored.\<close>

definition reconfigured :: "json_map \<Rightarrow> u64 \<Rightarrow> plugin_instance \<Rightarrow> plugin_instance" where
  "reconfigured c t p = p\<lparr>pi_config := c, pi_updated_at := t\<rparr>"

lemma row_reconfigured:
  assumes row: "row_to_instance lib key row = Ok p" and c: "config_ok lib c" and t: "pi_updated_at p \<le> t"
  shows "row_to_instance lib key (row\<lparr>nr_config := sl_json_text lib (JObj c), nr_updated := uint t\<rparr>) = Ok (reconfigured c t p)"
proof -
  from row have created: "pi_created_at p \<le> pi_updated_at p" by (auto simp: row_to_instance_def restore_Ok_iff split: if_splits)
  with t have "pi_created_at p \<le> t" by simp
  with row c show ?thesis
    by (auto simp: row_to_instance_def restore_Ok_iff config_ok_def reconfigured_def split: if_splits)
qed

lemma update_config_get:
  assumes got: "instance_get lib iid d = Ok (Some p)" and c: "config_ok lib c" and t: "pi_updated_at p \<le> t"
    and upd: "instance_update_config lib iid c t d = (Ok True, d')"
  shows "instance_get lib iid d' = Ok (Some (reconfigured c t p))"
proof -
  from got obtain row where row: "bt_lookup (uint iid) (db_instances d) = Some row" "row_to_instance lib (uint iid) row = Ok p"
    by (rule get_Some_row)
  have iid: "fits iid" and t': "fits t"
    using upd by (auto simp: instance_update_config_def update_instance_def commit_def split: result.splits)
  have "d' = d\<lparr>db_instances := bt_insert (uint iid)
      (row\<lparr>nr_config := sl_json_text lib (JObj c), nr_updated := uint t\<rparr>) (db_instances d)\<rparr>"
    using upd row iid t'
    by (auto simp: instance_update_config_def update_instance_def update_where_def sqlite_i64_fits split: if_splits)
  then show ?thesis
    by (simp add: instance_get_def sqlite_i64_fits iid row_reconfigured [OF row(2) c t])
qed

text \<open>The later checks of a start have errors of their own.\<close>

lemma installed_plugin_error: "installed_plugin_of i \<noteq> Err (LoadInvalidConfig e)"
  by (auto simp: installed_plugin_of_def Let_def try_bind_Err_iff ok_or_Err_iff)

lemma installed_files_error: "installed_files x i = Err y \<Longrightarrow> y = x"
proof -
  have "try_fold (\<lambda>name files. try_bind (ok_or x (f name)) (\<lambda>b. Ok (bt_insert name b files))) ks acc = Err y \<Longrightarrow> y = x"
    for f ks acc by (induction ks arbitrary: acc) (auto simp: try_bind_Err_iff ok_or_Err_iff)
  then show "installed_files x i = Err y \<Longrightarrow> y = x" by (auto simp: installed_files_def)
qed

lemma runtime_trust_error: "verify_runtime_trust lib i trust \<noteq> Err (LoadInvalidConfig e)"
  by (auto simp: verify_runtime_trust_def Let_def try_bind_Err_iff map_err_Err_iff ok_or_Err_iff dest: installed_files_error)

text \<open>C20: A configuration the control plane has saved belongs to an instance that was and is stopped, is the
  one in the form, is read back from the store as it is, and is not refused by the check that the shell makes when
  it starts the instance with the same files: saving and starting agree on which configurations are valid.  The
  hypotheses are that one JSON writer serves both and that the JSON reader reads the text of this configuration
  back.\<close>

theorem saved_config_passes_start:
  assumes "apply_command env clib fs now (CmdConfigure iid form) d = (Ok (), d')"
    and "cl_text clib = sl_json_text (pe_store_lib env)"
    and "config_from_fields clib form = Ok c"
    and "sl_json_read (pe_store_lib env) (sl_json_text (pe_store_lib env) (JObj c)) = Some (JObj c)"
  shows "\<exists>p. instance_get (pe_store_lib env) iid d = Ok (Some p) \<and> pi_desired p = DesiredStopped
    \<and> instance_get (pe_store_lib env) iid d' = Ok (Some (reconfigured c (max now (pi_updated_at p)) p))
    \<and> load_runnable_instance_with_trust env trust (reconfigured c (max now (pi_updated_at p)) p) fs
        \<noteq> Err (LoadInvalidConfig e)"
proof -
  let ?lib = "pe_store_lib env"
  have ok: "config_ok ?lib c"
    using config_from_fields_new [OF assms(3)] assms(2,4) by (simp add: config_ok_def)
  from assms(1) obtain p i c' where p: "require_instance ?lib iid d = Ok p" "require_stopped p = Ok ()"
    and i: "installed_for env clib (load_reference (pe_lib env) (pe_dir env) (pi_installation p) fs) form = Ok (i, c')"
    and upd: "stored (instance_update_config ?lib iid c' (max now (pi_updated_at p)) d) = (Ok (), d')"
    by (auto simp: apply_command_def split: result.splits)
  note found = installed_for_Ok [OF i]
  with assms(3) have [simp]: "c' = c" by simp
  have got: "instance_get ?lib iid d = Ok (Some p)" using p(1) by (simp add: require_instance_Ok)
  moreover have "pi_desired p = DesiredStopped" using p(2) by (simp add: require_stopped_def split: if_splits)
  moreover have "instance_get ?lib iid d' = Ok (Some (reconfigured c (max now (pi_updated_at p)) p))"
    by (rule update_config_get [OF got ok]) (use upd in \<open>simp_all add: stored_Ok\<close>)
  moreover have "load_runnable_instance_with_trust env trust (reconfigured c (max now (pi_updated_at p)) p) fs
      \<noteq> Err (LoadInvalidConfig e)"
    using found
    by (auto simp: load_runnable_instance_with_trust_def load_runnable_def reconfigured_def try_bind_Err_iff
        installed_plugin_error runtime_trust_error)
  ultimately show ?thesis by blast
qed

section \<open>What the form keeps\<close>

text \<open>The value of a field and its text: what the code relies on for the field to be read back.\<close>

definition text_fits :: "control_lib \<Rightarrow> config_field_kind \<Rightarrow> json \<Rightarrow> bool" where
  "text_fits lib kind v =
     (case (kind, v) of
        (KindString, JStr s) \<Rightarrow> True
      | (KindInteger, JNum (PosInt w)) \<Rightarrow> uint w < 2 ^ 63 \<and> cl_text lib v = decimal (unat w)
      | (KindInteger, JNum (NegInt i)) \<Rightarrow> - (2 ^ 63) \<le> i \<and> i < 0 \<and> cl_text lib v = CHR ''-'' # decimal (nat (- i))
      | (KindNumber, JNum (Float r)) \<Rightarrow> parse_f64 (cl_text lib v) = Some (Fin r)
      | (KindBoolean, JBool b) \<Rightarrow> cl_text lib v = (if b then ''true'' else ''false'')
      | (KindJson, _) \<Rightarrow> cl_read lib (cl_text lib v) = Some v
      | _ \<Rightarrow> False)"

lemma digits_value_decimal: "digits_value 0 (decimal n) = Some n"
proof -
  have "digits_value acc (ds @ [c]) = (case digits_value acc ds of None \<Rightarrow> None
      | Some v \<Rightarrow> if is_ascii_digit c then Some (10 * v + (of_char c - 48)) else None)" for acc ds c
    by (induction ds arbitrary: acc) auto
  then show ?thesis
  proof (induction n rule: decimal.induct)
    case (1 n)
    have digit: "is_ascii_digit (char_of (48 + k :: nat))" "(of_char (char_of (48 + k :: nat) :: char) :: nat) = 48 + k" if "k < 10" for k
      using that by (simp_all add: is_ascii_digit_def less_eq_char_def)
    show ?case
    proof (cases "n < 10")
      case True
      with digit show ?thesis by (subst decimal.simps) simp
    next
      case False
      with 1 digit [of "n mod 10"] show ?thesis by (subst decimal.simps) simp
    qed
  qed
qed

lemma decimal_not_Nil [simp]: "decimal n \<noteq> []"
  by (subst decimal.simps) simp

lemma decimal_hd: "decimal n = c # cs \<Longrightarrow> c \<noteq> CHR ''-'' \<and> c \<noteq> CHR ''+''"
  using decimal_digits [of c n] by (auto simp: is_ascii_digit_def)

lemma parse_i64_decimal: "int n < 2 ^ 63 \<Longrightarrow> parse_i64 (decimal n) = Some (int n)"
  using decimal_hd [of n] digits_value_decimal [of n]
  by (cases "decimal n") (auto simp: parse_i64_def Let_def dest: decimal_hd)

lemma parse_i64_negative: "int n \<le> 2 ^ 63 \<Longrightarrow> parse_i64 (CHR ''-'' # decimal n) = Some (- int n)"
  using digits_value_decimal [of n] by (simp add: parse_i64_def Let_def)

lemma field_kind_not_root: "field_kind schema \<noteq> KindRootJson"
  by (auto simp: field_kind_def split: option.splits if_splits)

text \<open>A field that shows a value it can represent gives that value again.\<close>

lemma field_reads_back:
  assumes "text_fits lib (cf_kind f) v" and "cf_value f = field_value lib (cf_kind f) v"
  shows "field_json lib f = Ok v"
proof (cases v)
  case (JNum n)
  show ?thesis
  proof (cases n)
    case (PosInt w)
    show ?thesis
    proof (cases "cf_kind f")
      case KindInteger
      have v: "v = JNum (PosInt w)" by (simp add: JNum PosInt)
      with assms KindInteger have small: "uint w < 2 ^ 63" and shown: "cf_value f = decimal (unat w)"
        by (simp_all add: text_fits_def field_value_def)
      have "parse_i64 (decimal (unat w)) = Some (uint w)"
        using parse_i64_decimal [of "unat w"] small by simp
      then show ?thesis by (simp add: field_json_def KindInteger shown v json_of_i64_def)
    qed (use assms JNum PosInt in \<open>simp_all add: text_fits_def field_json_def field_value_def\<close>)
  next
    case (NegInt i)
    show ?thesis
    proof (cases "cf_kind f")
      case KindInteger
      have v: "v = JNum (NegInt i)" by (simp add: JNum NegInt)
      with assms KindInteger have small: "- (2 ^ 63) \<le> i" "i < 0" and shown: "cf_value f = CHR ''-'' # decimal (nat (- i))"
        by (simp_all add: text_fits_def field_value_def)
      have "parse_i64 (CHR ''-'' # decimal (nat (- i))) = Some i"
        using parse_i64_negative [of "nat (- i)"] small by simp
      then show ?thesis using small by (simp add: field_json_def KindInteger shown v json_of_i64_def)
    qed (use assms JNum NegInt in \<open>simp_all add: text_fits_def field_json_def field_value_def\<close>)
  next
    case (Float r)
    with JNum assms show ?thesis
      by (cases "cf_kind f") (simp_all add: text_fits_def field_json_def field_value_def json_of_f64_def)
  qed
next
  case (JBool b)
  with assms show ?thesis
    by (cases "cf_kind f"; cases b) (simp_all add: text_fits_def field_json_def field_value_def parse_bool_def)
next
  case JNull
  with assms show ?thesis by (cases "cf_kind f") (simp_all add: text_fits_def field_json_def field_value_def)
next
  case (JStr x)
  with assms show ?thesis by (cases "cf_kind f") (simp_all add: text_fits_def field_json_def field_value_def)
next
  case (JArr x)
  with assms show ?thesis by (cases "cf_kind f") (simp_all add: text_fits_def field_json_def field_value_def)
next
  case (JObj x)
  with assms show ?thesis by (cases "cf_kind f") (simp_all add: text_fits_def field_json_def field_value_def)
qed

text \<open>The values of the configuration under the given keys are inserted in turn.\<close>

definition restrict_keys :: "json_map \<Rightarrow> string list \<Rightarrow> json_map \<Rightarrow> json_map" where
  "restrict_keys m ks acc =
     fold (\<lambda>k a. case bt_lookup k m of None \<Rightarrow> a | Some v \<Rightarrow> bt_insert k v a) ks acc"

lemma restrict_keys_wf: "bt_wf acc \<Longrightarrow> bt_wf (restrict_keys m ks acc)"
  unfolding restrict_keys_def by (induction ks arbitrary: acc) (auto split: option.split)

lemma restrict_keys_lookup:
  "bt_lookup k (restrict_keys m ks acc) = (if k \<in> set ks \<and> bt_lookup k m \<noteq> None then bt_lookup k m else bt_lookup k acc)"
  unfolding restrict_keys_def by (induction ks arbitrary: acc) (auto split: option.split)

text \<open>What a property of the schema asks of the configuration: its value can be represented by its field, and if
  there is none then no default and no requirement supplies one.\<close>

definition property_kept :: "control_lib \<Rightarrow> json \<Rightarrow> json_map \<Rightarrow> string \<times> json \<Rightarrow> bool" where
  "property_kept lib schema m e \<longleftrightarrow>
     (case bt_lookup (fst e) m of
        Some v \<Rightarrow> text_fits lib (field_kind (resolve_schema lib schema (snd e))) v
      | None \<Rightarrow> value_get (resolve_schema lib schema (snd e)) ''default'' = None
                \<and> fst e \<notin> set (required_keys schema))"

lemma form_field_key [simp]: "cf_key (form_field lib schema config e) = fst e"
  by (simp add: form_field_def Let_def)

lemma form_fields_read_back:
  assumes "list_all (property_kept lib schema m) ps"
  shows "try_fold (\<lambda>f a. try_bind (field_json lib f) (\<lambda>v. Ok (bt_insert (cf_key f) v a)))
      (filter (\<lambda>f. cf_present f \<or> cf_required f) (map (form_field lib schema (Some m)) ps)) acc
    = Ok (restrict_keys m (map fst ps) acc)"
  using assms
proof (induction ps arbitrary: acc)
  case (Cons e ps)
  let ?f = "form_field lib schema (Some m) e"
  have kept: "property_kept lib schema m e" and IH: "list_all (property_kept lib schema m) ps"
    using Cons.prems by simp_all
  show ?case
  proof (cases "bt_lookup (fst e) m")
    case None
    with kept have "\<not> cf_present ?f \<and> \<not> cf_required ?f"
      by (simp add: property_kept_def form_field_def Let_def)
    with None Cons.IH [OF IH] show ?thesis by (simp add: restrict_keys_def)
  next
    case (Some v)
    with kept have "text_fits lib (cf_kind ?f) v" "cf_value ?f = field_value lib (cf_kind ?f) v" "cf_present ?f"
      by (simp_all add: property_kept_def form_field_def Let_def)
    with field_reads_back have "field_json lib ?f = Ok v" by blast
    with Some Cons.IH [OF IH] \<open>cf_present ?f\<close> show ?thesis by (simp add: restrict_keys_def)
  qed
qed (simp add: restrict_keys_def)

text \<open>Saving a form that nobody has edited keeps the configuration: the fields derived from the schema and the
  stored configuration are read back to exactly this configuration, with its checks, whether the form has one
  field for each property or one for the whole configuration.  It needs that each value can be represented by the
  field its schema gives it, that the JSON reader reads back what the writer wrote, and that no property is
  filled in by a default or a requirement.\<close>

theorem untouched_form_keeps_configuration:
  assumes wf: "bt_wf m"
    and properties: "list_all (property_kept lib schema m) (case Option.bind (value_get schema ''properties'') as_object of
        None \<Rightarrow> [] | Some ps \<Rightarrow> ps)"
    and whole: "cl_read lib (cl_text lib (JObj m)) = Some (JObj m)"
  shows "config_from_fields lib (form_fields lib (Some schema) (Some m))
    = map_err CtlConfig (config_new (cl_text lib) (JObj m))"
proof (cases "form_fields lib (Some schema) (Some m) = root_config_field lib (Some m)")
  case True
  then show ?thesis
    by (simp add: config_from_fields_def root_config_field_def field_value_def whole)
next
  case False
  then obtain ps where ps: "Option.bind (value_get schema ''properties'') as_object = Some ps"
    and all: "\<not> list_ex (\<lambda>k. bt_lookup k ps = None) (bt_keys m)"
    and form: "form_fields lib (Some schema) (Some m) = map (form_field lib schema (Some m)) ps"
    by (auto simp: form_fields_def split: option.splits if_splits)
  have "find (\<lambda>f. cf_kind f = KindRootJson) (map (form_field lib schema (Some m)) ps) = None"
    by (auto simp: find_None_iff form_field_def Let_def field_kind_not_root)
  moreover have "restrict_keys m (map fst ps) [] = m"
  proof (rule bt_eqI [OF restrict_keys_wf [OF bt_wf_Nil] wf])
    fix k
    have "k \<in> fst ` set ps" if "bt_lookup k m \<noteq> None"
      using that all by (auto simp: list_ex_iff bt_keys_def bt_lookup_None_iff)
    then show "bt_lookup k (restrict_keys m (map fst ps) []) = bt_lookup k m"
      by (cases "bt_lookup k m") (simp_all add: restrict_keys_lookup)
  qed
  ultimately show ?thesis
    using form_fields_read_back [of lib schema m ps "[]"] properties ps by (simp add: config_from_fields_def form)
qed

text \<open>Where the fields do not keep a value: an integer of the schema that is written with a fraction is refused, and
  an integer in a field for numbers is stored as the nearest \<open>f64\<close>.\<close>

lemma integer_field_refuses_fraction:
  "cf_kind f = KindInteger \<Longrightarrow> cf_value f = ''1.0'' \<Longrightarrow> field_json lib f = Err (CtlInvalidField (cf_key f))"
  by (simp add: field_json_def parse_i64_def is_ascii_digit_def less_eq_char_def)

lemma bitlen_54: "bitlen 9007199254740993 = 54"
proof -
  have "bitlen 9007199254740993 \<le> 54" "\<not> bitlen 9007199254740993 \<le> 53"
    using bitlen_le_iff_power [of 9007199254740993 54] bitlen_le_iff_power [of 9007199254740993 53] by simp_all
  then show ?thesis by simp
qed

lemma floor_half: "\<lfloor>9007199254740993 / 2 :: rat\<rfloor> = 4503599627370496"
  by (simp add: floor_eq_iff)

lemma number_field_rounds:
  "cf_kind f = KindNumber \<Longrightarrow> cf_value f = ''9007199254740993''
     \<Longrightarrow> field_json lib f = Ok (JNum (Float 9007199254740992))"
  by (simp add: field_json_def parse_f64_def split_sign_def parse_decimal_def Let_def is_exponent_mark_def parse_exponent_def
      is_ascii_digit_def less_eq_char_def to_ascii_lower_def is_ascii_uppercase_def f64_round_def ieee_round_def
      rat_log2_def bitlen_54 floor_half round_half_even_def json_of_f64_def)

section \<open>A concrete session\<close>

definition desk_control_lib :: control_lib where
  "desk_control_lib = \<lparr>cl_text = (\<lambda>_. ''{}''), cl_read = (\<lambda>_. Some (JObj [])), cl_pointer = (\<lambda>_ _. None)\<rparr>"

lemma desk_get:
  "instance_get (pe_store_lib desk_env) 2 (desk_db s) = Ok (Some (desk_instance\<lparr>pi_desired := s\<rparr>))"
  using desk_table [of s] by (simp add: instance_get_def sqlite_i64_def instance_table_def desk_db_def)

definition desk_steps :: "(fs \<times> u64 \<times> control_command option) list" where
  "desk_steps =
     [(desk_fs, 7, Some (CmdDelete 2)), (desk_fs, 8, None), (desk_fs, 9, Some (CmdConfigure 2 [])),
      (desk_fs, 10, Some (CmdSetDesired 3 DesiredStopped))]"

lemma running_instance_is_not_edited_witness:
  "instance_get (pe_store_lib desk_env) 2
     (snd (control_worker desk_env desk_control_lib desk_steps None (desk_db DesiredRunning))) = Ok (Some desk_instance)"
proof -
  obtain snapshots d where run: "control_worker desk_env desk_control_lib desk_steps None (desk_db DesiredRunning) = (snapshots, d)"
    by fastforce
  have "instance_get (pe_store_lib desk_env) 2 (desk_db DesiredRunning) = Ok (Some desk_instance)"
    "pi_desired desk_instance = DesiredRunning"
    "list_all (\<lambda>(fs, now, cmd). \<not> sets_desired 2 cmd) desk_steps"
    using desk_get [of DesiredRunning] by (simp_all add: desk_running desk_steps_def sets_desired_def) (simp add: desk_instance_def)
  from running_instance_is_not_edited [OF this run] run show ?thesis by simp
qed

lemma refused_command_changes_nothing_witness:
  "apply_command desk_env desk_control_lib desk_fs 7 (CmdDelete 2) (desk_db DesiredRunning)
     = (Err CtlMustBeStopped, desk_db DesiredRunning)"
proof -
  obtain d where step: "apply_command desk_env desk_control_lib desk_fs 7 (CmdDelete 2) (desk_db DesiredRunning)
      = (Err CtlMustBeStopped, d)"
    using desk_get [of DesiredRunning] by (simp add: apply_command_def require_instance_def require_stopped_def)
  moreover have "pred_option (\<lambda>n. 0 \<le> n) (db_next_instance (desk_db DesiredRunning))"
    by (simp add: desk_db_def empty_db_def)
  ultimately show ?thesis using refused_command_changes_nothing [OF step] by simp
qed

lemma desk_saved:
  "\<exists>d. apply_command desk_env desk_control_lib desk_fs 7 (CmdConfigure 2 []) (desk_db DesiredStopped) = (Ok (), d)"
proof -
  let ?p = "desk_instance\<lparr>pi_desired := DesiredStopped\<rparr>"
  have "load_runnable_instance_with_trust desk_env undefined desk_instance desk_fs = Ok (Some desk_runnable)"
    using desk_runnable_loads [where trust = undefined and g = 0 and t = 5] by (simp add: desk_instance_def desk_runnable_def)
  then obtain i where i: "load_reference (pe_lib desk_env) (pe_dir desk_env) (pi_installation ?p) desk_fs = Ok (Some i)"
    "ii_validate_config (pe_lib desk_env) (pe_validator_for desk_env) i [] = Ok ()"
    unfolding load_runnable_instance_with_trust_def by (rule load_runnable_Some) (simp add: desk_instance_def)
  have config: "config_from_fields desk_control_lib [] = Ok []"
    by (simp add: config_from_fields_def config_new_def desk_control_lib_def MAX_INSTANCE_CONFIG_BYTES_def
        MAX_INSTANCE_CONFIG_DEPTH_def)
  obtain d where "instance_update_config (pe_store_lib desk_env) 2 [] 7 (desk_db DesiredStopped) = (Ok True, d)"
    by (simp add: instance_update_config_def update_instance_def update_where_def sqlite_i64_def desk_db_def
        instance_row_of_def desk_instance_def instance_check_def sample_reference_def sample_digest_def)
  moreover have "max 7 (pi_updated_at ?p) = 7" by (simp add: desk_instance_def)
  ultimately show ?thesis
    using desk_get [of DesiredStopped] i config
    by (simp add: apply_command_def require_instance_def require_stopped_def installed_for_def stored_def)
qed

lemma saved_config_passes_start_witness:
  "\<exists>p. pi_desired p = DesiredStopped
     \<and> load_runnable_instance_with_trust desk_env undefined (reconfigured [] 7 p) desk_fs \<noteq> Err (LoadInvalidConfig ConfigNotDeclared)"
proof -
  obtain d where saved: "apply_command desk_env desk_control_lib desk_fs 7 (CmdConfigure 2 []) (desk_db DesiredStopped) = (Ok (), d)"
    using desk_saved by blast
  have laws: "cl_text desk_control_lib = sl_json_text (pe_store_lib desk_env)"
    "config_from_fields desk_control_lib [] = Ok []"
    "sl_json_read (pe_store_lib desk_env) (sl_json_text (pe_store_lib desk_env) (JObj [])) = Some (JObj [])"
    by (simp_all add: desk_control_lib_def desk_env_def config_from_fields_def config_new_def MAX_INSTANCE_CONFIG_BYTES_def
        MAX_INSTANCE_CONFIG_DEPTH_def)
  from saved_config_passes_start [OF saved this, where trust = undefined and e = ConfigNotDeclared]
  obtain p where "instance_get (pe_store_lib desk_env) 2 (desk_db DesiredStopped) = Ok (Some p)" "pi_desired p = DesiredStopped"
    "load_runnable_instance_with_trust desk_env undefined (reconfigured [] (max 7 (pi_updated_at p)) p) desk_fs
       \<noteq> Err (LoadInvalidConfig ConfigNotDeclared)" by blast
  moreover from this desk_get [of DesiredStopped] have "max 7 (pi_updated_at p) = 7" by (auto simp: desk_instance_def)
  ultimately show ?thesis by metis
qed

definition form_schema :: json where
  "form_schema = JObj [(''properties'', JObj [(''on'', JObj [(''type'', JStr ''boolean'')]),
     (''seconds'', JObj [(''type'', JStr ''integer'')])])]"

definition form_config :: json_map where
  "form_config = [(''on'', JBool True), (''seconds'', JNum (PosInt 5))]"

definition form_lib :: control_lib where
  "form_lib = \<lparr>cl_text = (\<lambda>v. case v of JBool b \<Rightarrow> if b then ''true'' else ''false'' | JNum n \<Rightarrow> ''5'' | _ \<Rightarrow> ''{}''),
     cl_read = (\<lambda>_. Some (JObj form_config)), cl_pointer = (\<lambda>_ _. None)\<rparr>"

lemma char_5: "char_of (53 :: nat) = CHR ''5''"
  by code_simp

lemma untouched_form_keeps_configuration_witness:
  "config_from_fields form_lib (form_fields form_lib (Some form_schema) (Some form_config)) = Ok form_config"
proof -
  have "bt_wf form_config" by (simp add: form_config_def bt_wf_Cons less_list_code)
  moreover have "list_all (property_kept form_lib form_schema form_config)
      (case Option.bind (value_get form_schema ''properties'') as_object of None \<Rightarrow> [] | Some ps \<Rightarrow> ps)"
    by (simp add: form_schema_def form_config_def form_lib_def value_get_def property_kept_def resolve_schema_def
        field_kind_def text_fits_def decimal.simps char_5)
  moreover have "cl_read form_lib (cl_text form_lib (JObj form_config)) = Some (JObj form_config)"
    by (simp add: form_lib_def)
  ultimately have "config_from_fields form_lib (form_fields form_lib (Some form_schema) (Some form_config))
      = map_err CtlConfig (config_new (cl_text form_lib) (JObj form_config))"
    by (rule untouched_form_keeps_configuration)
  also have "\<dots> = Ok form_config"
    by (simp add: config_new_def form_lib_def form_config_def MAX_INSTANCE_CONFIG_BYTES_def MAX_INSTANCE_CONFIG_DEPTH_def)
  finally show ?thesis .
qed

end
