(* ===== verification/Instance_Commands.thy ===== *)
theory Instance_Commands
  imports Control
begin

text \<open>
  The developer's commands on instances and on the publishers a host trusts,
  \<open>floatile-cli/src/instance.rs\<close> and \<open>floatile-cli/src/trust.rs\<close>.  A command opens the database, reads the
  installations of the plugin directory, does one change and answers with a view of what is stored.

  The tables of the instances (\<open>db\<close>) and of the publishers (\<open>trust_db\<close>) are in one file, which is opened by
  \<open>open_attempt\<close>: the directory of the file can or cannot be made, SQLite can or cannot open it.
\<close>

section \<open>Views and errors\<close>

record instance_view =
  iv_schema_version :: u32
  iv_instance_id :: u64
  iv_plugin_id :: string
  iv_version :: string
  iv_digest :: string
  iv_config :: json
  iv_desired_state :: desired_state
  iv_generation :: u64
  iv_created_at :: u64
  iv_updated_at :: u64

definition instance_view_of :: "plugin_instance \<Rightarrow> instance_view" where
  "instance_view_of p =
     \<lparr>iv_schema_version = 1, iv_instance_id = pi_id p, iv_plugin_id = ir_plugin (pi_installation p),
      iv_version = ir_version (pi_installation p), iv_digest = hex_encode (ir_digest (pi_installation p)),
      iv_config = JObj (pi_config p), iv_desired_state = pi_desired p, iv_generation = pi_generation p,
      iv_created_at = pi_created_at p, iv_updated_at = pi_updated_at p\<rparr>"

datatype 'v instance_command_error =
    IcInvalidArguments
  | IcInstallationMissing string string
  | IcInstallation catalog_error
  | IcConfig instance_error
  | IcConfigNotDeclared
  | IcConfigSchemaMissing
  | IcConfigSchemaInvalid
  | IcStore store_error
  | IcNotFound u64
  | IcMustBeStopped u64
  | IcConcurrentUpdate u64
  | IcDatabaseDirectory
  | IcRollback rollback_plan_error
  | IcTrust "'v install_error"

fun instance_command_code :: "'v instance_command_error \<Rightarrow> string" where
  "instance_command_code IcInvalidArguments = ''FINSTANCE_INVALID_ARGUMENTS''"
| "instance_command_code (IcInstallationMissing i v) = ''FINSTANCE_INSTALLATION_MISSING''"
| "instance_command_code (IcInstallation e) = catalog_error_code e"
| "instance_command_code (IcConfig e) = ''FINSTANCE_CONFIG_INVALID''"
| "instance_command_code IcConfigNotDeclared = ''FINSTANCE_CONFIG_NOT_DECLARED''"
| "instance_command_code IcConfigSchemaMissing = ''FINSTANCE_CONFIG_SCHEMA_MISSING''"
| "instance_command_code IcConfigSchemaInvalid = ''FINSTANCE_CONFIG_SCHEMA_INVALID''"
| "instance_command_code (IcStore e) = ''FINSTANCE_STORE''"
| "instance_command_code (IcNotFound i) = ''FINSTANCE_NOT_FOUND''"
| "instance_command_code (IcMustBeStopped i) = ''FINSTANCE_MUST_BE_STOPPED''"
| "instance_command_code (IcConcurrentUpdate i) = ''FINSTANCE_CONCURRENT_UPDATE''"
| "instance_command_code IcDatabaseDirectory = ''FINSTANCE_DATABASE_DIRECTORY''"
| "instance_command_code (IcRollback e) = ''FINSTANCE_ROLLBACK_REJECTED''"
| "instance_command_code (IcTrust e) = install_error_code e"

section \<open>The commands on instances\<close>

datatype open_attempt = DirectoryFails | OpenFails | Opens

definition open_database :: "open_attempt \<Rightarrow> db \<Rightarrow> (db, 'v instance_command_error) result" where
  "open_database attempt d =
     (case attempt of
        DirectoryFails \<Rightarrow> Err IcDatabaseDirectory
      | OpenFails \<Rightarrow> Err (IcStore StoreOpen)
      | Opens \<Rightarrow> map_err IcStore (migrate d))"

text \<open>A command on the opened database.\<close>

definition with_database ::
  "open_attempt \<Rightarrow> db \<Rightarrow> (db \<Rightarrow> ('a, 'v instance_command_error) result \<times> db) \<Rightarrow> ('a, 'v instance_command_error) result \<times> db"
where
  "with_database attempt d f = (case open_database attempt d of Err e \<Rightarrow> (Err e, d) | Ok d0 \<Rightarrow> f d0)"

definition instance_required :: "'v store_lib \<Rightarrow> u64 \<Rightarrow> db \<Rightarrow> (plugin_instance, 'v instance_command_error) result" where
  "instance_required lib iid d = try_bind (map_err IcStore (instance_get lib iid d)) (ok_or (IcNotFound iid))"

definition stopped_required :: "plugin_instance \<Rightarrow> (unit, 'v instance_command_error) result" where
  "stopped_required p = (if pi_desired p = DesiredStopped then Ok () else Err (IcMustBeStopped (pi_id p)))"

definition get_from_store :: "'v store_lib \<Rightarrow> u64 \<Rightarrow> db \<Rightarrow> (instance_view, 'v instance_command_error) result" where
  "get_from_store lib iid d = try_bind (instance_required lib iid d) (\<lambda>p. Ok (instance_view_of p))"

fun config_command_error :: "config_validation_error \<Rightarrow> 'v instance_command_error" where
  "config_command_error ConfigNotDeclared = IcConfigNotDeclared"
| "config_command_error ConfigSchemaMissing = IcConfigSchemaMissing"
| "config_command_error ConfigSchemaInvalid = IcConfigSchemaInvalid"
| "config_command_error (ConfigModel e) = IcConfig e"

definition check_config ::
  "'v plugin_env \<Rightarrow> installed_installation \<Rightarrow> json_map \<Rightarrow> (unit, 'v instance_command_error) result"
where
  "check_config env i config =
     map_err config_command_error (ii_validate_config (pe_lib env) (pe_validator_for env) i config)"

text \<open>The installation with this identifier and version, as found.\<close>

definition installation_required ::
  "string \<Rightarrow> string \<Rightarrow> (installed_installation option, catalog_error) result
     \<Rightarrow> (installed_installation, 'v instance_command_error) result"
where
  "installation_required pid version found =
     try_bind (map_err IcInstallation found) (ok_or (IcInstallationMissing pid version))"

definition instance_installation ::
  "'v plugin_env \<Rightarrow> fs \<Rightarrow> plugin_instance \<Rightarrow> (installed_installation, 'v instance_command_error) result"
where
  "instance_installation env fs p =
     installation_required (ir_plugin (pi_installation p)) (ir_version (pi_installation p))
       (load_reference (pe_lib env) (pe_dir env) (pi_installation p) fs)"

text \<open>After a statement of the store: its failure, a concurrent change, or the answer.\<close>

definition after_update ::
  "u64 \<Rightarrow> (db \<Rightarrow> ('a, 'v instance_command_error) result) \<Rightarrow> (bool, store_error) result \<times> db
     \<Rightarrow> ('a, 'v instance_command_error) result \<times> db"
where
  "after_update iid answer r =
     (case r of
        (Err e, d) \<Rightarrow> (Err (IcStore e), d)
      | (Ok changed, d) \<Rightarrow> (if changed then answer d else Err (IcConcurrentUpdate iid), d))"

definition create_instance ::
  "'v plugin_env \<Rightarrow> open_attempt \<Rightarrow> fs \<Rightarrow> string \<Rightarrow> string \<Rightarrow> json_map \<Rightarrow> desired_state \<Rightarrow> u64 \<Rightarrow> db
     \<Rightarrow> (instance_view, 'v instance_command_error) result \<times> db"
where
  "create_instance env attempt fs pid version config desired now d =
     (case try_bind (installation_required pid version (load_exact (pe_lib env) (pe_dir env) pid version fs)) (\<lambda>i.
           try_bind (check_config env i config) (\<lambda>_.
           map_err IcInstallation (ii_reference (pe_lib env) i))) of
        Err e \<Rightarrow> (Err e, d)
      | Ok r \<Rightarrow>
          with_database attempt d (\<lambda>d0.
            case instance_create (pe_store_lib env) r config desired now d0 of
              (Err e, d1) \<Rightarrow> (Err (IcStore e), d1)
            | (Ok p, d1) \<Rightarrow> (Ok (instance_view_of p), d1)))"

definition list_instances ::
  "'v plugin_env \<Rightarrow> open_attempt \<Rightarrow> db \<Rightarrow> (instance_view list, 'v instance_command_error) result \<times> db"
where
  "list_instances env attempt d =
     with_database attempt d (\<lambda>d0.
       (try_bind (map_err IcStore (instance_list (pe_store_lib env) d0)) (\<lambda>ps. Ok (map instance_view_of ps)), d0))"

definition get_instance ::
  "'v plugin_env \<Rightarrow> open_attempt \<Rightarrow> u64 \<Rightarrow> db \<Rightarrow> (instance_view, 'v instance_command_error) result \<times> db"
where
  "get_instance env attempt iid d =
     with_database attempt d (\<lambda>d0. (get_from_store (pe_store_lib env) iid d0, d0))"

definition configure_instance ::
  "'v plugin_env \<Rightarrow> open_attempt \<Rightarrow> fs \<Rightarrow> u64 \<Rightarrow> json_map \<Rightarrow> u64 \<Rightarrow> db
     \<Rightarrow> (instance_view, 'v instance_command_error) result \<times> db"
where
  "configure_instance env attempt fs iid config now d =
     with_database attempt d (\<lambda>d0.
       case try_bind (instance_required (pe_store_lib env) iid d0) (\<lambda>p.
            try_bind (stopped_required p) (\<lambda>_.
            try_bind (instance_installation env fs p) (\<lambda>i.
            try_bind (check_config env i config) (\<lambda>_. Ok p)))) of
         Err e \<Rightarrow> (Err e, d0)
       | Ok p \<Rightarrow> after_update iid (get_from_store (pe_store_lib env) iid)
                   (instance_update_config (pe_store_lib env) iid config (max now (pi_updated_at p)) d0))"

definition set_instance_desired_state ::
  "'v plugin_env \<Rightarrow> open_attempt \<Rightarrow> u64 \<Rightarrow> desired_state \<Rightarrow> u64 \<Rightarrow> db
     \<Rightarrow> (instance_view, 'v instance_command_error) result \<times> db"
where
  "set_instance_desired_state env attempt iid desired now d =
     with_database attempt d (\<lambda>d0.
       case instance_required (pe_store_lib env) iid d0 of
         Err e \<Rightarrow> (Err e, d0)
       | Ok p \<Rightarrow> after_update iid (get_from_store (pe_store_lib env) iid)
                   (instance_set_desired iid desired (max now (pi_updated_at p)) d0))"

definition delete_instance ::
  "'v plugin_env \<Rightarrow> open_attempt \<Rightarrow> u64 \<Rightarrow> db \<Rightarrow> (instance_view, 'v instance_command_error) result \<times> db"
where
  "delete_instance env attempt iid d =
     with_database attempt d (\<lambda>d0.
       case try_bind (instance_required (pe_store_lib env) iid d0) (\<lambda>p.
            try_bind (stopped_required p) (\<lambda>_. Ok p)) of
         Err e \<Rightarrow> (Err e, d0)
       | Ok p \<Rightarrow> after_update iid (\<lambda>_. Ok (instance_view_of p)) (instance_delete iid d0))"

text \<open>What a rollback checks: the instance, the installation it goes to and its reference.\<close>

definition rollback_checks ::
  "'v::linorder plugin_env \<Rightarrow> fs \<Rightarrow> trust_db \<Rightarrow> u64 \<Rightarrow> string \<Rightarrow> db
     \<Rightarrow> (plugin_instance \<times> installation_ref, 'v instance_command_error) result"
where
  "rollback_checks env fs trust iid target_version d =
     try_bind (instance_required (pe_store_lib env) iid d) (\<lambda>p.
     try_bind (stopped_required p) (\<lambda>_.
     try_bind (instance_installation env fs p) (\<lambda>current.
     try_bind (installation_required (ir_plugin (pi_installation p)) target_version
        (load_exact (pe_lib env) (pe_dir env) (ir_plugin (pi_installation p)) target_version fs)) (\<lambda>target.
     try_bind (map_err IcRollback (plan_rollback (il_semver (pe_lib env)) (ii_manifest current) (ii_manifest target))) (\<lambda>_.
     try_bind (check_config env target (pi_config p)) (\<lambda>_.
     try_bind (map_err IcTrust (verify_trusted_installation (pe_lib env) target trust)) (\<lambda>_.
     try_bind (map_err IcInstallation (ii_reference (pe_lib env) target)) (\<lambda>r. Ok (p, r)))))))))"

definition rollback_instance ::
  "'v::linorder plugin_env \<Rightarrow> open_attempt \<Rightarrow> fs \<Rightarrow> trust_db \<Rightarrow> u64 \<Rightarrow> string \<Rightarrow> string \<Rightarrow> u64 \<Rightarrow> db
     \<Rightarrow> (instance_view, 'v instance_command_error) result \<times> db"
where
  "rollback_instance env attempt fs trust iid target_version reason now d =
     (if reason = [] \<or> 512 < length reason then (Err IcInvalidArguments, d)
      else
        with_database attempt d (\<lambda>d0.
          case rollback_checks env fs trust iid target_version d0 of
            Err e \<Rightarrow> (Err e, d0)
          | Ok (p, r) \<Rightarrow>
              after_update iid (get_from_store (pe_store_lib env) iid)
                (instance_rollback (pe_store_lib env) iid (pi_installation p) r reason (max now (pi_updated_at p)) d0)))"

section \<open>The commands on publishers\<close>

datatype trust_command_error = TcInvalidArgument | TcDatabaseDirectory | TcStore store_error | TcNotFound

fun trust_command_code :: "trust_command_error \<Rightarrow> string" where
  "trust_command_code TcInvalidArgument = ''FTRUST_ARGUMENT''"
| "trust_command_code TcDatabaseDirectory = ''FTRUST_DATABASE''"
| "trust_command_code (TcStore e) = ''FTRUST_STORE''"
| "trust_command_code TcNotFound = ''FTRUST_NOT_FOUND''"

record trust_key_view =
  tk_key_id :: string
  tk_state :: string

record trust_view =
  tv_publisher_id :: string
  tv_state :: string
  tv_keys :: "trust_key_view list"

text \<open>\<open>state_name\<close> gives the texts of \<open>trust_state_as_str\<close>.\<close>

fun state_name :: "trust_state \<Rightarrow> string" where
  "state_name TrustActive = ''active''"
| "state_name TrustRevoked = ''revoked''"

definition trust_view_of :: "publisher_trust_record \<Rightarrow> trust_view" where
  "trust_view_of r =
     \<lparr>tv_publisher_id = pt_publisher_id r, tv_state = state_name (pt_state r),
      tv_keys = map (\<lambda>k. \<lparr>tk_key_id = pk_key_id k, tk_state = state_name (pk_state k)\<rparr>) (pt_keys r)\<rparr>"

definition open_trust_database :: "open_attempt \<Rightarrow> (unit, trust_command_error) result" where
  "open_trust_database attempt =
     (case attempt of
        DirectoryFails \<Rightarrow> Err TcDatabaseDirectory
      | OpenFails \<Rightarrow> Err (TcStore StoreOpen)
      | Opens \<Rightarrow> Ok ())"

definition trust_view_in :: "crypto \<Rightarrow> string \<Rightarrow> trust_db \<Rightarrow> (trust_view, trust_command_error) result" where
  "trust_view_in cr pub d =
     try_bind (map_err TcStore (trust_get cr pub d)) (\<lambda>found. ok_or TcNotFound (map_option trust_view_of found))"

definition set_key_state ::
  "crypto \<Rightarrow> open_attempt \<Rightarrow> string \<Rightarrow> string \<Rightarrow> trust_state \<Rightarrow> u64 \<Rightarrow> trust_db
     \<Rightarrow> (trust_view, trust_command_error) result \<times> trust_db"
where
  "set_key_state cr attempt pub key_hex state updated d =
     (case Option.bind (hex_decode key_hex) (\<lambda>b. if length b = 32 then Some b else None) of
        None \<Rightarrow> (Err TcInvalidArgument, d)
      | Some key \<Rightarrow>
          (case open_trust_database attempt of
             Err e \<Rightarrow> (Err e, d)
           | Ok _ \<Rightarrow>
               (case upsert_key cr pub key state updated d of
                  (Err e, d1) \<Rightarrow> (Err (TcStore e), d1)
                | (Ok _, d1) \<Rightarrow> (trust_view_in cr pub d1, d1))))"

definition add_key ::
  "crypto \<Rightarrow> open_attempt \<Rightarrow> string \<Rightarrow> string \<Rightarrow> u64 \<Rightarrow> trust_db \<Rightarrow> (trust_view, trust_command_error) result \<times> trust_db"
where
  "add_key cr attempt pub key_hex = set_key_state cr attempt pub key_hex TrustActive"

definition revoke_key ::
  "crypto \<Rightarrow> open_attempt \<Rightarrow> string \<Rightarrow> string \<Rightarrow> u64 \<Rightarrow> trust_db \<Rightarrow> (trust_view, trust_command_error) result \<times> trust_db"
where
  "revoke_key cr attempt pub key_hex = set_key_state cr attempt pub key_hex TrustRevoked"

definition revoke_publisher ::
  "crypto \<Rightarrow> open_attempt \<Rightarrow> string \<Rightarrow> u64 \<Rightarrow> trust_db \<Rightarrow> (trust_view, trust_command_error) result \<times> trust_db"
where
  "revoke_publisher cr attempt pub updated d =
     (case open_trust_database attempt of
        Err e \<Rightarrow> (Err e, d)
      | Ok _ \<Rightarrow>
          (case set_publisher_state pub TrustRevoked updated d of
             (Err e, d1) \<Rightarrow> (Err (TcStore e), d1)
           | (Ok changed, d1) \<Rightarrow> (if changed then trust_view_in cr pub d1 else Err TcNotFound, d1)))"

definition show_trust ::
  "crypto \<Rightarrow> open_attempt \<Rightarrow> string \<Rightarrow> trust_db \<Rightarrow> (trust_view, trust_command_error) result"
where
  "show_trust cr attempt pub d = try_bind (open_trust_database attempt) (\<lambda>_. trust_view_in cr pub d)"

text \<open>The commands as data.\<close>

datatype trust_command =
    AddKeyCommand string string u64
  | RevokeKeyCommand string string u64
  | RevokePublisherCommand string u64
  | ShowCommand string

fun run_trust_command :: "crypto \<Rightarrow> open_attempt \<times> trust_command \<Rightarrow> trust_db \<Rightarrow> trust_db" where
  "run_trust_command cr (attempt, AddKeyCommand pub key_hex updated) d = snd (add_key cr attempt pub key_hex updated d)"
| "run_trust_command cr (attempt, RevokeKeyCommand pub key_hex updated) d = snd (revoke_key cr attempt pub key_hex updated d)"
| "run_trust_command cr (attempt, RevokePublisherCommand pub updated) d = snd (revoke_publisher cr attempt pub updated d)"
| "run_trust_command cr (attempt, ShowCommand pub) d = d"

section \<open>The two ways to change an instance\<close>

text \<open>A command of the developer and one of the window have the same effect: they leave the same database, and the
  developer is told of a success only if the window is.\<close>

definition same_effect :: "('a, 'e) result \<times> db \<Rightarrow> (unit, control_error) result \<times> db \<Rightarrow> bool" where
  "same_effect cli window \<longleftrightarrow> snd cli = snd window \<and> (\<forall>v. fst cli = Ok v \<longrightarrow> fst window = Ok ())"

lemma migrate_current: "db_user_version d = SCHEMA_VERSION \<Longrightarrow> migrate d = Ok d"
  by (simp add: migrate_def)

lemma with_current_database: "db_user_version d = SCHEMA_VERSION \<Longrightarrow> with_database Opens d f = f d"
  by (simp add: with_database_def open_database_def migrate_current)

lemma after_update_effect: "same_effect (after_update iid answer r) (stored r)"
  by (cases r; cases "fst r") (auto simp: same_effect_def after_update_def stored_def)

lemma failing_effect [simp]: "same_effect (Err e, d) (Err e', d)"
  by (simp add: same_effect_def)

lemmas command_defs = configure_instance_def set_instance_desired_state_def delete_instance_def create_instance_def
  instance_required_def stopped_required_def instance_installation_def installation_required_def check_config_def
  apply_command_def require_instance_def require_stopped_def installed_for_def

lemma configure_effect:
  assumes v: "db_user_version d = SCHEMA_VERSION" and form: "config_from_fields lib form = Ok c"
  shows "same_effect (configure_instance env Opens fs iid c now d) (apply_command env lib fs now (CmdConfigure iid form) d)"
proof (cases "instance_get (pe_store_lib env) iid d")
  case got: (Ok found)
  show ?thesis
  proof (cases found)
    case p: (Some p)
    show ?thesis
    proof (cases "pi_desired p = DesiredStopped")
      case stopped: True
      show ?thesis
      proof (cases "load_reference (pe_lib env) (pe_dir env) (pi_installation p) fs")
        case loaded: (Ok x)
        show ?thesis
        proof (cases x)
          case i: (Some i)
          show ?thesis
            by (cases "ii_validate_config (pe_lib env) (pe_validator_for env) i c")
              (simp_all add: command_defs with_current_database [OF v] got p stopped loaded i form after_update_effect)
        qed (simp add: command_defs with_current_database [OF v] got p stopped loaded)
      qed (simp add: command_defs with_current_database [OF v] got p stopped)
    qed (simp add: command_defs with_current_database [OF v] got p)
  qed (simp add: command_defs with_current_database [OF v] got)
qed (simp add: command_defs with_current_database [OF v])

lemma set_desired_effect:
  assumes v: "db_user_version d = SCHEMA_VERSION"
  shows "same_effect (set_instance_desired_state env Opens iid desired now d)
    (apply_command env lib fs now (CmdSetDesired iid desired) d)"
proof (cases "instance_get (pe_store_lib env) iid d")
  case got: (Ok found)
  then show ?thesis
    by (cases found) (simp_all add: command_defs with_current_database [OF v] after_update_effect)
qed (simp add: command_defs with_current_database [OF v])

lemma delete_effect:
  assumes v: "db_user_version d = SCHEMA_VERSION"
  shows "same_effect (delete_instance env Opens iid d) (apply_command env lib fs now (CmdDelete iid) d)"
proof (cases "instance_get (pe_store_lib env) iid d")
  case got: (Ok found)
  show ?thesis
  proof (cases found)
    case p: (Some p)
    show ?thesis
      by (cases "pi_desired p") (simp_all add: command_defs with_current_database [OF v] got p after_update_effect)
  qed (simp add: command_defs with_current_database [OF v] got)
qed (simp add: command_defs with_current_database [OF v])

lemma create_effect:
  assumes v: "db_user_version d = SCHEMA_VERSION" and form: "config_from_fields lib form = Ok c"
  shows "same_effect (create_instance env Opens fs pid version c DesiredStopped now d)
    (apply_command env lib fs now (CmdCreate pid version form) d)"
proof (cases "load_exact (pe_lib env) (pe_dir env) pid version fs")
  case loaded: (Ok x)
  show ?thesis
  proof (cases x)
    case i: (Some i)
    show ?thesis
    proof (cases "ii_validate_config (pe_lib env) (pe_validator_for env) i c")
      case ok: (Ok u)
      show ?thesis
      proof (cases "ii_reference (pe_lib env) i")
        case r: (Ok r)
        obtain res d1 where "instance_create (pe_store_lib env) r c DesiredStopped now d = (res, d1)" by fastforce
        then show ?thesis
          by (cases res) (simp_all add: command_defs with_current_database [OF v] loaded i ok r form same_effect_def)
      qed (simp add: command_defs loaded i ok form)
    qed (simp add: command_defs loaded i form)
  qed (simp add: command_defs loaded)
qed (simp add: command_defs)

text \<open>C31: The commands of the developer and those of the control window are two implementations of one semantics: on a
  database of the current version, with the configuration the form stands for, creating (stopped, as the window does), configuring, starting or
  stopping and deleting an instance leaves the same database whichever of the two is used, and whenever the
  developer's command answers with a view the window shows a success.\<close>

theorem commands_agree_with_control_window:
  assumes "db_user_version d = SCHEMA_VERSION" and "config_from_fields lib form = Ok c"
  shows "same_effect (create_instance env Opens fs pid version c DesiredStopped now d)
      (apply_command env lib fs now (CmdCreate pid version form) d)
    \<and> same_effect (configure_instance env Opens fs iid c now d) (apply_command env lib fs now (CmdConfigure iid form) d)
    \<and> same_effect (set_instance_desired_state env Opens iid desired now d)
      (apply_command env lib fs now (CmdSetDesired iid desired) d)
    \<and> same_effect (delete_instance env Opens iid d) (apply_command env lib fs now (CmdDelete iid) d)"
  using create_effect [OF assms] configure_effect [OF assms] set_desired_effect [OF assms(1)] delete_effect [OF assms(1)]
  by blast

section \<open>A rolled back instance starts\<close>

definition rebound :: "installation_ref \<Rightarrow> u64 \<Rightarrow> plugin_instance \<Rightarrow> plugin_instance" where
  "rebound r t p = p\<lparr>pi_installation := r, pi_updated_at := t\<rparr>"

lemma row_rebound:
  assumes row: "row_to_instance lib key row = Ok p" and r: "installation_ref_validate (sl_semver lib) r = Ok ()"
    "length (ir_digest r) = 32" "ir_plugin r = ir_plugin (pi_installation p)" and t: "pi_updated_at p \<le> t"
  shows "row_to_instance lib key (row\<lparr>nr_version := ir_version r, nr_digest := ir_digest r, nr_updated := uint t\<rparr>)
    = Ok (rebound r t p)"
proof -
  from row have "pi_created_at p \<le> pi_updated_at p" by (auto simp: row_to_instance_def restore_Ok_iff split: if_splits)
  with t have "pi_created_at p \<le> t" by simp
  with row r show ?thesis
    by (cases r)
      (auto simp: row_to_instance_def restore_Ok_iff rebound_def installation_ref_validate_def installation_ref_new_def
        map_err_Ok_iff split: if_splits)
qed

lemma rollback_get:
  assumes got: "instance_get lib iid d = Ok (Some p)" and r: "ir_plugin r = ir_plugin (pi_installation p)"
    and t: "pi_updated_at p \<le> t"
    and run: "instance_rollback lib iid (pi_installation p) r reason t d = (Ok True, d')"
  shows "instance_get lib iid d' = Ok (Some (rebound r t p))
    \<and> db_rollbacks d' = db_rollbacks d @ [rollback_entry iid (pi_installation p) r reason t]"
proof -
  from got obtain row where row: "bt_lookup (uint iid) (db_instances d) = Some row" "row_to_instance lib (uint iid) row = Ok p"
    by (rule get_Some_row)
  have fits: "fits iid" "fits t" and valid: "installation_ref_validate (sl_semver lib) r = Ok ()"
    using run by (auto simp: instance_rollback_def update_instance_def commit_def split: result.splits if_splits)
  let ?row = "row\<lparr>nr_version := ir_version r, nr_digest := ir_digest r, nr_updated := uint t\<rparr>"
  have d': "instance_check ?row" "db_instances d' = bt_insert (uint iid) ?row (db_instances d)"
    "db_rollbacks d' = db_rollbacks d @ [rollback_entry iid (pi_installation p) r reason t]"
    using run row fits
    by (auto simp: instance_rollback_def update_instance_def update_where_def sqlite_i64_fits commit_def rollback_entry_def Let_def
        split: result.splits if_splits)
  then have "length (ir_digest r) = 32" by (simp add: instance_check_def)
  with d' fits row_rebound [OF row(2) valid _ r t] show ?thesis by (simp add: instance_get_def sqlite_i64_fits)
qed

text \<open>Everything else in the database stays.\<close>

lemma rollback_others:
  assumes "instance_rollback lib iid cur r reason t d = (Ok True, d')"
  shows "d' = d\<lparr>db_instances := db_instances d', db_rollbacks := db_rollbacks d'\<rparr>"
    and "\<forall>j. j \<noteq> iid \<longrightarrow> instance_get lib j d' = instance_get lib j d"
proof -
  from assms obtain row rows where d': "d' = d\<lparr>db_instances := bt_insert (uint iid) row (db_instances d), db_rollbacks := rows\<rparr>"
    by (auto simp: instance_rollback_def update_instance_def update_where_def commit_def sqlite_i64_def Let_def
        split: result.splits if_splits option.splits)
  show "d' = d\<lparr>db_instances := db_instances d', db_rollbacks := db_rollbacks d'\<rparr>" by (simp add: d')
  show "\<forall>j. j \<noteq> iid \<longrightarrow> instance_get lib j d' = instance_get lib j d"
    by (auto simp: instance_get_def sqlite_i64_def d' word_uint_eq_iff)
qed

lemma installed_files_any: "installed_files e i = Ok files \<Longrightarrow> installed_files e' i = Ok files"
proof -
  have "try_fold (\<lambda>name files. try_bind (ok_or e (f name)) (\<lambda>b. Ok (bt_insert name b files))) ks acc = Ok files
    \<Longrightarrow> try_fold (\<lambda>name files. try_bind (ok_or e' (f name)) (\<lambda>b. Ok (bt_insert name b files))) ks acc = Ok files"
    for f ks acc by (induction ks arbitrary: acc) (auto split: option.splits)
  then show "installed_files e i = Ok files \<Longrightarrow> installed_files e' i = Ok files" by (simp add: installed_files_def)
qed

text \<open>What is verified for a rollback is verified for a start.\<close>

lemma trusted_starts:
  "verify_trusted_installation lib i trust = Ok () \<Longrightarrow> verify_runtime_trust lib i trust = Ok ()"
  by (auto simp: verify_trusted_installation_def verify_runtime_trust_def verify_package_signature_def Let_def
      map_err_Ok_iff dest: installed_files_any)

lemma rollback_checks_Ok:
  assumes "rollback_checks env fs trust iid version d = Ok (p, r)"
  obtains current target plan where
    "instance_get (pe_store_lib env) iid d = Ok (Some p)" "pi_desired p = DesiredStopped"
    "load_reference (pe_lib env) (pe_dir env) (pi_installation p) fs = Ok (Some current)"
    "load_exact (pe_lib env) (pe_dir env) (ir_plugin (pi_installation p)) version fs = Ok (Some target)"
    "plan_rollback (il_semver (pe_lib env)) (ii_manifest current) (ii_manifest target) = Ok plan"
    "ii_validate_config (pe_lib env) (pe_validator_for env) target (pi_config p) = Ok ()"
    "verify_trusted_installation (pe_lib env) target trust = Ok ()" "ii_reference (pe_lib env) target = Ok r"
  using assms by (auto simp: rollback_checks_def command_defs map_err_Ok_iff split: if_splits)

lemma after_update_Ok:
  "after_update iid answer r = (Ok v, d) \<Longrightarrow> r = (Ok True, d) \<and> answer d = Ok v"
  by (cases r; cases "fst r") (auto simp: after_update_def split: if_splits)

lemma load_exact_dir:
  "load_exact lib store pid version fs = Ok (Some i) \<Longrightarrow> \<exists>dir. load_from_dir lib dir fs = Ok i"
  by (auto simp: load_exact_def Let_def split: if_splits)

text \<open>C25: A rollback that answers with the version it was asked for has found the instance stopped in the database it
  was given (after the migration to the current schema) and leaves it
  bound to an older version of the same plugin, one that the planner of rollbacks has accepted, with its
  configuration, its generation and its desired state as they were and one more entry in the history; the other rows
  of the database are as they were.  The checks it
  has made are those of the next start: with the same files and the same trusted publishers the instance can be
  loaded with the code and the user interface of the older version, or an entry file is missing in it.\<close>

theorem rolled_back_instance_starts:
  assumes "rollback_instance env attempt fs trust iid version reason now d = (Ok view, d')"
    and "iv_version view = version"
  shows "\<exists>d0 p r current target plan.
      attempt = Opens \<and> migrate d = Ok d0
    \<and> instance_get (pe_store_lib env) iid d0 = Ok (Some p) \<and> pi_desired p = DesiredStopped
    \<and> load_reference (pe_lib env) (pe_dir env) (pi_installation p) fs = Ok (Some current)
    \<and> load_reference (pe_lib env) (pe_dir env) r fs = Ok (Some target)
    \<and> plan_rollback (il_semver (pe_lib env)) (ii_manifest current) (ii_manifest target) = Ok plan
    \<and> rp_target_version plan < rp_current_version plan
    \<and> instance_get (pe_store_lib env) iid d' = Ok (Some (rebound r (max now (pi_updated_at p)) p))
    \<and> view = instance_view_of (rebound r (max now (pi_updated_at p)) p)
    \<and> pi_config (rebound r (max now (pi_updated_at p)) p) = pi_config p
    \<and> pi_generation (rebound r (max now (pi_updated_at p)) p) = pi_generation p
    \<and> pi_desired (rebound r (max now (pi_updated_at p)) p) = pi_desired p
    \<and> db_rollbacks d' = db_rollbacks d0 @ [rollback_entry iid (pi_installation p) r reason (max now (pi_updated_at p))]
    \<and> d' = d0\<lparr>db_instances := db_instances d', db_rollbacks := db_rollbacks d'\<rparr>
    \<and> (\<forall>j. j \<noteq> iid \<longrightarrow> instance_get (pe_store_lib env) j d' = instance_get (pe_store_lib env) j d0)
    \<and> load_runnable_instance_with_trust env trust (rebound r (max now (pi_updated_at p)) p) fs
        = try_bind (installed_plugin_of target)
            (\<lambda>plugin. Ok (Some \<lparr>rn_instance = rebound r (max now (pi_updated_at p)) p, rn_plugin = plugin\<rparr>))"
proof -
  let ?lib = "pe_lib env"
  from assms(1) obtain d0 p r where opened: "attempt = Opens" "migrate d = Ok d0" and checks: "rollback_checks env fs trust iid version d0 = Ok (p, r)"
    and upd: "after_update iid (get_from_store (pe_store_lib env) iid)
      (instance_rollback (pe_store_lib env) iid (pi_installation p) r reason (max now (pi_updated_at p)) d0) = (Ok view, d')"
    by (auto simp: rollback_instance_def with_database_def open_database_def map_err_Ok_iff
        split: if_splits result.splits open_attempt.splits)
  let ?t = "max now (pi_updated_at p)"
  from checks obtain current target plan where got: "instance_get (pe_store_lib env) iid d0 = Ok (Some p)"
      "pi_desired p = DesiredStopped"
    and loaded: "load_reference ?lib (pe_dir env) (pi_installation p) fs = Ok (Some current)"
      "load_exact ?lib (pe_dir env) (ir_plugin (pi_installation p)) version fs = Ok (Some target)"
    and plan: "plan_rollback (il_semver ?lib) (ii_manifest current) (ii_manifest target) = Ok plan"
    and ok: "ii_validate_config ?lib (pe_validator_for env) target (pi_config p) = Ok ()"
      "verify_trusted_installation ?lib target trust = Ok ()" "ii_reference ?lib target = Ok r"
    by (rule rollback_checks_Ok)
  from plan have plans: "mf_id (ii_manifest target) = mf_id (ii_manifest current)" "rp_target_version plan < rp_current_version plan"
    by (auto simp: plan_rollback_def split: if_splits)
  from load_exact_dir [OF loaded(2)] obtain dir where "load_from_dir ?lib dir fs = Ok target" by blast
  from loaded_reference_digest(2) [OF this ok(3)] loaded_reference_digest(2) [OF load_reference_Some [OF loaded(1)]]
  have plugin: "ir_plugin r = ir_plugin (pi_installation p)" using plans(1) by simp
  note updated = after_update_Ok [OF upd]
  from rollback_get [OF got(1) plugin _ conjunct1 [OF updated]]
  have stored: "instance_get (pe_store_lib env) iid d' = Ok (Some (rebound r ?t p))"
    "db_rollbacks d' = db_rollbacks d0 @ [rollback_entry iid (pi_installation p) r reason ?t]" by simp_all
  have kept: "pi_config (rebound r ?t p) = pi_config p" "pi_generation (rebound r ?t p) = pi_generation p"
    "pi_desired (rebound r ?t p) = pi_desired p" by (simp_all add: rebound_def)
  note others = rollback_others [OF conjunct1 [OF updated]]
  from stored have view: "view = instance_view_of (rebound r ?t p)"
    using updated by (simp add: get_from_store_def instance_required_def)
  then have "ir_version r = version" using assms(2) by (simp add: instance_view_of_def rebound_def)
  then have target: "load_reference ?lib (pe_dir env) r fs = Ok (Some target)"
    using loaded(2) ok(3) by (simp add: load_reference_def plugin)
  then have "load_runnable_instance_with_trust env trust (rebound r ?t p) fs
      = try_bind (installed_plugin_of target) (\<lambda>plugin. Ok (Some \<lparr>rn_instance = rebound r ?t p, rn_plugin = plugin\<rparr>))"
    by (simp add: load_runnable_instance_with_trust_def load_runnable_def rebound_def ok(1) trusted_starts [OF ok(2)])
  with opened got loaded(1) target plan plans(2) stored view kept others show ?thesis by blast
qed

section \<open>A revoked publisher stays revoked\<close>

definition publisher_revoked :: "string \<Rightarrow> trust_db \<Rightarrow> bool" where
  "publisher_revoked pub d \<longleftrightarrow> (\<exists>row. bt_lookup pub (tb_publishers d) = Some row \<and> ur_state row = ''revoked'')"

lemma upsert_keeps_revoked:
  assumes "publisher_revoked pub d"
  shows "publisher_revoked pub (snd (upsert_key cr other key state updated d))"
  using assms
  by (cases "try_bind (validate_publisher_id other) (\<lambda>_. sqlite_time updated)")
    (auto simp: upsert_key_def publisher_revoked_def Let_def trust_commit_def split: result.splits option.splits if_splits)

lemma set_key_keeps_revoked:
  "publisher_revoked pub d \<Longrightarrow> publisher_revoked pub (snd (set_key_state cr attempt other key_hex state updated d))"
  using upsert_keeps_revoked [of pub d cr other _ state updated]
  by (auto simp: set_key_state_def split: option.splits result.splits prod.splits) (metis snd_conv)+

lemma revoke_revokes:
  "set_publisher_state pub TrustRevoked updated d = (Ok True, d1) \<Longrightarrow> publisher_revoked pub d1"
  by (auto simp: set_publisher_state_def trust_commit_def publisher_revoked_def split: result.splits option.splits)

lemma revoke_keeps_revoked:
  "publisher_revoked pub d \<Longrightarrow> publisher_revoked pub (snd (set_publisher_state other TrustRevoked updated d))"
  by (auto simp: set_publisher_state_def trust_commit_def publisher_revoked_def split: result.splits option.splits)

lemma command_keeps_revoked:
  assumes "publisher_revoked pub d"
  shows "publisher_revoked pub (run_trust_command cr c d)"
proof (cases c)
  case (Pair attempt cmd)
  show ?thesis
  proof (cases cmd)
    case (RevokePublisherCommand other updated)
    with assms revoke_keeps_revoked [OF assms, of other updated] Pair show ?thesis
      by (auto simp: revoke_publisher_def split: result.splits prod.splits)
  qed (use assms Pair in \<open>simp_all add: add_key_def revoke_key_def set_key_keeps_revoked\<close>)
qed

text \<open>C26: Revoking a publisher is final for everything its keys have signed: once the command has answered, no
  sequence of the trust commands, adding keys to the same publisher included, makes an installation start again
  whose manifest names this publisher, unless it was made without a signature.\<close>

theorem revoked_publisher_stays_refused:
  assumes "revoke_publisher (il_crypto (pe_lib env)) attempt pub updated t = (Ok view, t')"
    and "load_runnable_instance_with_trust env (fold (run_trust_command (il_crypto (pe_lib env))) commands t') p fs
      = Ok (Some runnable)"
  shows "pub_id (mf_publisher (pl_manifest (rn_plugin runnable))) \<noteq> pub
    \<or> im_trust (pl_meta (rn_plugin runnable)) = Unsigned"
proof -
  let ?lib = "pe_lib env" and ?cr = "il_crypto (pe_lib env)"
  let ?t = "fold (run_trust_command ?cr) commands t'"
  have "publisher_revoked pub t'"
    using assms(1) by (auto simp: revoke_publisher_def split: result.splits prod.splits if_splits intro: revoke_revokes)
  then have "publisher_revoked pub ?t"
    by (induction commands arbitrary: t') (simp_all add: command_keeps_revoked)
  moreover from assms(2) obtain i where i: "load_reference ?lib (pe_dir env) (pi_installation p) fs = Ok (Some i)"
    "verify_runtime_trust ?lib i ?t = Ok ()" "installed_plugin_of i = Ok (rn_plugin runnable)"
    unfolding load_runnable_instance_with_trust_def by (rule load_runnable_Some)
  ultimately show ?thesis
    using verify_runtime_trust_Ok [OF load_reference_Some(1) [OF i(1)] i(2)] installed_plugin_Ok [OF i(3)]
    by (auto simp: vouched_def publisher_revoked_def)
qed

section \<open>A concrete host\<close>

text \<open>Two versions of a signed plugin; the metadata and the manifest of a version are told by its name.\<close>

definition host_names :: "string list" where
  "host_names = [''logic/main.wasm'', ''manifest.json'', ''signature.json'', ''ui/main.ftui'']"

definition host_meta :: "string \<Rightarrow> install_meta" where
  "host_meta v = sample_meta\<lparr>im_version := v, im_trust := Trusted,
     im_files := map (\<lambda>n. (n, hex_encode (sample_digest CHR ''m''))) host_names\<rparr>"

definition host_crypto :: crypto where
  "host_crypto = \<lparr>cr_sha256 = (\<lambda>_. sample_digest CHR ''m''), cr_b64_decode = Some, cr_b64_encode = (\<lambda>b. b),
     cr_parse_envelope = (\<lambda>_. Some \<lparr>se_payload_type = PACKAGE_DIGEST_PAYLOAD_TYPE, se_payload = sample_digest CHR ''m'',
        se_signatures = [\<lparr>es_keyid = hex_encode (sample_digest CHR ''m''), es_sig = replicate 64 CHR ''x''\<rparr>]\<rparr>),
     cr_verify = (\<lambda>key. Some (\<lambda>msg sig. True))\<rparr>"

definition host_env :: "nat plugin_env" where
  "host_env = desk_env\<lparr>pe_lib := sample_install_lib\<lparr>il_crypto := host_crypto, il_parse_meta := (\<lambda>v. Some (host_meta v)),
     il_parse_manifest := (\<lambda>v. Some (example_manifest v [] []))\<rparr>\<rparr>"

definition host_dir :: "string \<Rightarrow> path" where
  "host_dir v = [''store'', ''dev.clock'', v]"

definition host_files :: "string \<Rightarrow> (path \<times> node) list" where
  "host_files v =
     [(host_dir v, Directory), (host_dir v @ [''install.json''], Regular v), (host_dir v @ [''manifest.json''], Regular v),
      (host_dir v @ [''signature.json''], Regular ''s''), (host_dir v @ [''logic'', ''main.wasm''], Regular ''w''),
      (host_dir v @ [''ui'', ''main.ftui''], Regular ''u'')]"

definition host_fs :: fs where
  "host_fs = map_of (host_files ''1.0.0'' @ host_files ''1.1.0'')"

definition host_installation :: "string \<Rightarrow> installed_installation" where
  "host_installation v =
     \<lparr>ii_dir = host_dir v, ii_manifest = example_manifest v [] [], ii_meta = host_meta v,
      ii_files = [(''logic/main.wasm'', ''w''), (''manifest.json'', v), (''signature.json'', ''s''), (''ui/main.ftui'', ''u'')]\<rparr>"

definition host_reference :: "string \<Rightarrow> installation_ref" where
  "host_reference v = sample_reference\<lparr>ir_version := v\<rparr>"

definition host_version :: "string \<Rightarrow> bool" where
  "host_version v \<longleftrightarrow> v = ''1.0.0'' \<or> v = ''1.1.0''"

definition host_trust :: trust_db where
  "host_trust =
     \<lparr>tb_publishers = [(''dev'', \<lparr>ur_state = ''active'', ur_updated = 1\<rparr>), (''old'', \<lparr>ur_state = ''active'', ur_updated = 1\<rparr>)],
      tb_keys = [((''dev'', hex_encode (sample_digest CHR ''m'')),
        \<lparr>xr_public_key = sample_digest CHR ''k'', xr_state = ''active'', xr_updated = 1\<rparr>)],
      tb_accepted = [], tb_pending = []\<rparr>"

lemma host_lib [simp]:
  "il_semver (pe_lib host_env) = example_semver" "il_crypto (pe_lib host_env) = host_crypto"
  "cr_sha256 host_crypto b = sample_digest CHR ''m''" "il_parse_meta (pe_lib host_env) v = Some (host_meta v)"
  "il_parse_manifest (pe_lib host_env) v = Some (example_manifest v [] [])" "pe_dir host_env = [''store'']"
  "pe_store_lib host_env = pe_store_lib desk_env"
  by (simp_all add: host_env_def host_crypto_def sample_install_lib_def desk_env_def)

lemma host_meta_simps [simp]:
  "im_id (host_meta v) = ''dev.clock''" "im_version (host_meta v) = v" "im_trust (host_meta v) = Trusted"
  "im_digest (host_meta v) = hex_encode (sample_digest CHR ''m'')"
  by (simp_all add: host_meta_def sample_meta_def)

lemma host_version_semver: "host_version v \<Longrightarrow> example_semver v \<noteq> None"
  by (auto simp: host_version_def example_semver_def)

lemma host_read:
  assumes "host_version v"
  shows "fs_read_in (host_dir v) ''install.json'' host_fs = Some v" "fs_read_in (host_dir v) ''manifest.json'' host_fs = Some v"
    "fs_read_in (host_dir v) ''signature.json'' host_fs = Some ''s''" "fs_read_in (host_dir v) ''logic/main.wasm'' host_fs = Some ''w''"
    "fs_read_in (host_dir v) ''ui/main.ftui'' host_fs = Some ''u''" "fs_is_dir (host_dir v) host_fs"
proof -
  have join: "path_join base ''signature.json'' = base @ [''signature.json'']" for base
    by (simp add: path_join_plain plain_segment_def)
  show "fs_read_in (host_dir v) ''install.json'' host_fs = Some v" "fs_read_in (host_dir v) ''manifest.json'' host_fs = Some v"
    "fs_read_in (host_dir v) ''signature.json'' host_fs = Some ''s''" "fs_read_in (host_dir v) ''logic/main.wasm'' host_fs = Some ''w''"
    "fs_read_in (host_dir v) ''ui/main.ftui'' host_fs = Some ''u''" "fs_is_dir (host_dir v) host_fs"
    using assms
    by (auto simp: fs_read_in_def fs_read_def fs_is_dir_def join sample_join desk_paths host_fs_def host_files_def host_dir_def
        host_version_def)
qed

lemma host_ref: "host_version v \<Longrightarrow> ii_reference (pe_lib host_env) (host_installation v) = Ok (host_reference v)"
proof -
  have "validate_plugin_id ''dev.clock'' = Ok ()"
    by (simp add: validate_plugin_id_def plugin_id_char_def ascii_eval)
  then show "host_version v \<Longrightarrow> ii_reference (pe_lib host_env) (host_installation v) = Ok (host_reference v)"
    by (auto simp: ii_reference_def installation_ref_from_meta_def installation_ref_new_def digest_from_hex_def hex_decode_def
        length_hex_encode hex_decode_chunks_encode host_installation_def host_reference_def sample_reference_def
        sample_digest_def dest: host_version_semver)
qed

lemma host_loads_dir:
  assumes v: "host_version v"
  shows "load_from_dir (pe_lib host_env) (host_dir v) host_fs = Ok (host_installation v)"
proof -
  have "validate_manifest example_semver (example_manifest v [] []) = Ok ()"
    by (intro example_valid)
      (simp_all add: host_version_semver [OF v] validate_http_templates_def network_permission_def example_manifest_def)
  moreover have "try_fold (load_file (pe_lib host_env) (host_meta v) (host_dir v) host_fs) (im_files (host_meta v)) []
      = Ok (ii_files (host_installation v))"
    by (simp add: host_meta_def host_names_def load_file_def host_read [OF v] file_digest_def host_installation_def)
  moreover have "mf_id (example_manifest v [] []) = ''dev.clock''" "mf_version (example_manifest v [] []) = v"
    by (simp_all add: example_manifest_def)
  ultimately show ?thesis
    using host_ref [OF v] by (simp add: load_from_dir_def host_read [OF v] Let_def content_digest_def) (simp add: host_installation_def)
qed

lemma host_loads:
  assumes v: "host_version v"
  shows "load_exact (pe_lib host_env) [''store''] ''dev.clock'' v host_fs = Ok (Some (host_installation v))"
    "load_reference (pe_lib host_env) [''store''] (host_reference v) host_fs = Ok (Some (host_installation v))"
proof -
  have "path_join (path_join [''store''] ''dev.clock'') v = host_dir v"
    using v by (auto simp: host_version_def host_dir_def path_join_plain plain_segment_def)
  then show exact: "load_exact (pe_lib host_env) [''store''] ''dev.clock'' v host_fs = Ok (Some (host_installation v))"
    by (simp add: load_exact_def host_read [OF v] host_loads_dir [OF v])
  have "ir_plugin (host_reference v) = ''dev.clock''" "ir_version (host_reference v) = v"
    by (simp_all add: host_reference_def sample_reference_def)
  then show "load_reference (pe_lib host_env) [''store''] (host_reference v) host_fs = Ok (Some (host_installation v))"
    by (simp add: load_reference_def exact host_ref [OF v])
qed

text \<open>The installations verify whenever the publisher and its key are trusted.\<close>

definition dev_trust :: publisher_trust_record where
  "dev_trust = \<lparr>pt_publisher_id = ''dev'', pt_state = TrustActive, pt_updated_at = 1,
     pt_keys = [\<lparr>pk_key_id = hex_encode (sample_digest CHR ''m''), pk_public_key = sample_digest CHR ''k'',
        pk_state = TrustActive, pk_updated_at = 1\<rparr>]\<rparr>"

lemma host_verifies:
  assumes "trust_get host_crypto ''dev'' trust = Ok (Some dev_trust)"
  shows "verify_trusted_installation (pe_lib host_env) (host_installation v) trust = Ok ()"
proof -
  have files: "installed_files e (host_installation v) = Ok (ii_files (host_installation v))" for e :: "nat install_error"
    by (simp add: installed_files_def ii_file_def host_installation_def host_meta_def host_names_def bt_keys_def)
  have "verify_signature_envelope host_crypto ''s'' (ii_files (host_installation v)) ''dev'' (verifier_binding dev_trust) = Ok ()"
    by (simp add: verify_signature_envelope_def verifier_binding_def dev_trust_def host_crypto_def MAX_SIGNATURE_ENVELOPE_BYTES_def
        MAX_PACKAGE_SIGNATURES_def decode_canonical_base64_def signable_content_digest_def content_digest_def
        publisher_key_id_def check_signature_def sample_digest_def)
  moreover have "bt_lookup SIGNATURE_FILE (ii_files (host_installation v)) = Some ''s''"
    by (simp add: host_installation_def SIGNATURE_FILE_def)
  moreover have "pub_id (mf_publisher (ii_manifest (host_installation v))) = ''dev''"
    by (simp add: host_installation_def example_manifest_def)
  ultimately show ?thesis
    using assms files by (simp add: verify_trusted_installation_def verify_package_signature_def Let_def)
qed

lemma host_trusts: "trust_get host_crypto ''dev'' host_trust = Ok (Some dev_trust)"
  by (simp add: trust_get_def host_trust_def validate_publisher_id_def MAX_PUBLISHER_ID_BYTES_def read_key_def digest_array_def
      sample_digest_def publisher_key_id_def trust_state_parse_def read_time_def dev_trust_def)

definition host_instance :: plugin_instance where
  "host_instance = desk_instance\<lparr>pi_installation := host_reference ''1.1.0'', pi_desired := DesiredStopped\<rparr>"

definition host_db :: db where
  "host_db = empty_db\<lparr>db_user_version := SCHEMA_VERSION,
     db_instances := [(2, instance_row_of (pe_store_lib desk_env) host_instance)]\<rparr>"

lemma host_get: "instance_get (pe_store_lib host_env) 2 host_db = Ok (Some host_instance)"
proof -
  have "validate_plugin_id ''dev.clock'' = Ok ()"
    by (simp add: validate_plugin_id_def plugin_id_char_def ascii_eval)
  then have "instance_ok (pe_store_lib desk_env) host_instance"
    by (simp add: instance_ok_def installation_ok_def config_ok_def config_new_def desk_env_def desk_instance_def
        host_instance_def host_reference_def sample_reference_def example_semver_def sample_digest_def fits_def
        MAX_INSTANCE_CONFIG_BYTES_def MAX_INSTANCE_CONFIG_DEPTH_def)
  from instance_row_decode [OF this] show ?thesis
    by (simp add: instance_get_def sqlite_i64_def host_db_def host_instance_def desk_instance_def)
qed

lemma host_plan:
  "plan_rollback example_semver (example_manifest ''1.1.0'' [] []) (example_manifest ''1.0.0'' [] [])
     = Ok \<lparr>rp_current_version = 2, rp_target_version = 1, rp_permissions = []\<rparr>"
proof -
  have "permission_changes (example_manifest ''1.1.0'' [] []) (example_manifest ''1.0.0'' [] []) = Ok []"
    by (simp add: permission_changes_def parsed_permissions_def example_manifest_def all_capabilities_def bt_of_list_def
        bt_keys_def map_filter_def)
  moreover have "mf_id (example_manifest v [] []) = ''dev.clock''" "pub_id (mf_publisher (example_manifest v [] [])) = ''dev''"
    "mf_version (example_manifest v [] []) = v" "migration_version (example_manifest v [] []) = migration_version (example_manifest [] [] [])" for v
    by (simp_all add: example_manifest_def migration_version_def)
  moreover have "example_semver ''1.0.0'' = Some 1" "example_semver ''1.1.0'' = Some 2" by (simp_all add: example_semver_def)
  ultimately show ?thesis unfolding plan_rollback_def by simp
qed

lemma host_checks:
  "rollback_checks host_env host_fs host_trust 2 ''1.0.0'' host_db = Ok (host_instance, host_reference ''1.0.0'')"
proof -
  have v: "host_version ''1.0.0''" "host_version ''1.1.0''" by (simp_all add: host_version_def)
  have p: "pi_installation host_instance = host_reference ''1.1.0''" "pi_desired host_instance = DesiredStopped"
    "pi_config host_instance = []" "ir_plugin (host_reference x) = ''dev.clock''" for x
    by (simp_all add: host_instance_def desk_instance_def host_reference_def sample_reference_def)
  have m: "ii_manifest (host_installation x) = example_manifest x [] []" "mf_config_schema (example_manifest x [] []) = None" for x
    by (simp_all add: host_installation_def example_manifest_def)
  show ?thesis
    using host_get
    by (simp add: rollback_checks_def command_defs p host_loads [OF v(1)] host_loads [OF v(2)] m host_plan ii_validate_config_def
        host_verifies [OF host_trusts] host_ref [OF v(1)])
qed

lemma host_refs:
  "installation_ref_validate (sl_semver (pe_store_lib desk_env)) (host_reference ''1.0.0'') = Ok ()"
  "installation_ref_validate (sl_semver (pe_store_lib desk_env)) (host_reference ''1.1.0'') = Ok ()"
  "ir_plugin (host_reference v) = ''dev.clock''" "ir_version (host_reference v) = v" "length (ir_digest (host_reference v)) = 32"
proof -
  have "validate_plugin_id ''dev.clock'' = Ok ()"
    by (simp add: validate_plugin_id_def plugin_id_char_def ascii_eval)
  then show "installation_ref_validate (sl_semver (pe_store_lib desk_env)) (host_reference ''1.0.0'') = Ok ()"
    "installation_ref_validate (sl_semver (pe_store_lib desk_env)) (host_reference ''1.1.0'') = Ok ()"
    by (simp_all add: installation_ref_validate_def installation_ref_new_def host_reference_def sample_reference_def
        example_semver_def desk_env_def)
qed (simp_all add: host_reference_def sample_reference_def sample_digest_def)

lemma rolled_back_instance_starts_witness:
  "\<exists>view d'. rollback_instance host_env Opens host_fs host_trust 2 ''1.0.0'' ''broken'' 9 host_db = (Ok view, d')
     \<and> (\<exists>p r target. instance_get (pe_store_lib host_env) 2 d' = Ok (Some (rebound r (max 9 (pi_updated_at p)) p))
          \<and> load_reference (pe_lib host_env) (pe_dir host_env) r host_fs = Ok (Some target))"
proof -
  have t: "max 9 (pi_updated_at host_instance) = 9" by (simp add: host_instance_def desk_instance_def)
  obtain d' where upd: "instance_rollback (pe_store_lib host_env) 2 (pi_installation host_instance) (host_reference ''1.0.0'')
      ''broken'' 9 host_db = (Ok True, d')"
    by (simp add: instance_rollback_def update_instance_def update_where_def sqlite_i64_def host_db_def commit_def Let_def
        rollback_row_check_def sql_length_def char_count_def utf8_continuation_def
        instance_row_of_def host_instance_def desk_instance_def instance_check_def host_refs)
  have "instance_get (pe_store_lib host_env) 2 d' = Ok (Some (rebound (host_reference ''1.0.0'') 9 host_instance))"
    using rollback_get [OF host_get _ _ upd]
    by (simp add: host_instance_def desk_instance_def host_reference_def)
  then have run: "rollback_instance host_env Opens host_fs host_trust 2 ''1.0.0'' ''broken'' 9 host_db
      = (Ok (instance_view_of (rebound (host_reference ''1.0.0'') 9 host_instance)), d')"
    using upd by (simp add: rollback_instance_def with_current_database host_db_def)
      (simp add: host_db_def [symmetric] host_checks t after_update_def get_from_store_def instance_required_def)
  have "iv_version (instance_view_of (rebound (host_reference ''1.0.0'') 9 host_instance)) = ''1.0.0''"
    by (simp add: instance_view_of_def rebound_def host_reference_def)
  from rolled_back_instance_starts [OF run this] run show ?thesis by blast
qed

lemma host_revokes:
  "\<exists>view t. revoke_publisher host_crypto Opens ''old'' 9 host_trust = (Ok view, t)
     \<and> trust_get host_crypto ''dev'' t = Ok (Some dev_trust)"
  using host_trusts
  by (simp add: revoke_publisher_def open_trust_database_def set_publisher_state_def trust_commit_def sqlite_time_def
      validate_publisher_id_def MAX_PUBLISHER_ID_BYTES_def host_trust_def trust_view_in_def trust_get_def
      trust_state_parse_def read_time_def)

lemma revoked_publisher_stays_refused_witness:
  "\<exists>view t. revoke_publisher (il_crypto (pe_lib host_env)) Opens ''old'' 9 host_trust = (Ok view, t)
     \<and> pub_id (mf_publisher (example_manifest ''1.0.0'' [] [])) \<noteq> ''old''"
proof -
  obtain view t where revoked: "revoke_publisher host_crypto Opens ''old'' 9 host_trust = (Ok view, t)"
    and trusted: "trust_get host_crypto ''dev'' t = Ok (Some dev_trust)"
    using host_revokes by blast
  have v: "host_version ''1.0.0''" by (simp add: host_version_def)
  let ?p = "rebound (host_reference ''1.0.0'') 9 host_instance"
  let ?r = "\<lparr>rn_instance = ?p, rn_plugin = \<lparr>pl_manifest = example_manifest ''1.0.0'' [] [], pl_meta = host_meta ''1.0.0'',
    pl_wasm = ''w'', pl_ui_bytes = ''u''\<rparr>\<rparr>"
  have "installed_plugin_of (host_installation ''1.0.0'') = Ok (rn_plugin ?r)"
    by (simp add: installed_plugin_of_def Let_def ii_file_def host_installation_def example_manifest_def)
  moreover have "ii_validate_config lib vf (host_installation ''1.0.0'') [] = Ok ()" for lib :: "nat install_lib" and vf
    by (simp add: ii_validate_config_def host_installation_def example_manifest_def)
  moreover have "pi_installation ?p = host_reference ''1.0.0''" "pi_config ?p = []"
    by (simp_all add: rebound_def host_instance_def desk_instance_def)
  ultimately have "load_runnable_instance_with_trust host_env t ?p host_fs = Ok (Some ?r)"
    using host_loads(2) [OF v] trusted_starts [OF host_verifies [OF trusted]]
    by (simp add: load_runnable_instance_with_trust_def load_runnable_def)
  with revoked_publisher_stays_refused [where env = host_env and commands = "[]" and p = ?p and fs = host_fs and runnable = ?r
      and t = host_trust and t' = t and view = view and attempt = Opens and updated = 9 and pub = "''old''"] revoked
  show ?thesis by auto
qed

lemma commands_agree_with_control_window_witness:
  "same_effect (configure_instance host_env Opens host_fs 2 [] 7 host_db)
     (apply_command host_env desk_control_lib host_fs 7 (CmdConfigure 2 []) host_db)"
proof -
  have "db_user_version host_db = SCHEMA_VERSION" by (simp add: host_db_def)
  moreover have "config_from_fields desk_control_lib [] = Ok []"
    by (simp add: config_from_fields_def config_new_def desk_control_lib_def MAX_INSTANCE_CONFIG_BYTES_def
        MAX_INSTANCE_CONFIG_DEPTH_def)
  ultimately show ?thesis using commands_agree_with_control_window by blast
qed

end
