(* ===== verification/Renderer.thy ===== *)
theory Renderer
  imports Ui_Document Connection Floats
begin

text \<open>
  The renderer, \<open>floatile-renderer/src/render.rs\<close>: an accepted document is turned into the source text
  of one component of the user interface toolkit, with the slots through which the state is projected
  into it (bindings) and the events come back (events); and \<open>project_binding_value\<close> of
  \<open>floatile-shell/src/runtime_ui.rs\<close>, which reads the value of a slot from a state.

  The source is generated text: \<open>line\<close> ends a line, \<open>concat\<close> is \<open>format!\<close>.  The context of the walk
  is threaded.  \<open>f64_display\<close> is the \<open>Display\<close> of the standard library for finite numbers (the sign
  of zero is not kept by the numbers of the model).  The texts of errors are left out.
\<close>

section \<open>Text\<close>

definition line :: "string \<Rightarrow> string" where
  "line s = s @ [CHR 0x0A]"

definition strip_cr :: "string \<Rightarrow> string" where
  "strip_cr s = (if s \<noteq> [] \<and> last s = CHR 0x0D then butlast s else s)"

text \<open>\<open>str::lines\<close>\<close>

definition text_lines :: "string \<Rightarrow> string list" where
  "text_lines s =
     (let segs = split_on CHR 0x0A s
      in map strip_cr (butlast segs) @ (if last segs = [] then [] else [last segs]))"

fun join_with :: "string \<Rightarrow> string list \<Rightarrow> string" where
  "join_with sep [] = []"
| "join_with sep [s] = s"
| "join_with sep (s # ss) = s @ sep @ join_with sep ss"

text \<open>The characters of a text in UTF-8 and \<open>str::trim\<close>.\<close>

fun utf8_chars :: "string \<Rightarrow> string list" where
  "utf8_chars [] = []"
| "utf8_chars (c # cs) =
     (case utf8_chars cs of
        [] \<Rightarrow> [[c]]
      | g # gs \<Rightarrow> if utf8_continuation (hd g) then (c # g) # gs else [c] # g # gs)"

definition trim_text :: "string \<Rightarrow> string" where
  "trim_text s = concat (rev (dropWhile has_whitespace (rev (dropWhile has_whitespace (utf8_chars s)))))"

section \<open>Numbers\<close>

definition json_f64 :: "json \<Rightarrow> ieee option" where
  "json_f64 v = (case v of JNum n \<Rightarrow> Some (f64_round (number_value n)) | _ \<Rightarrow> None)"

text \<open>The exponent of the first digit of a positive number.\<close>

definition rat_log10 :: "rat \<Rightarrow> int" where
  "rat_log10 x =
     (if 1 \<le> x then int (length (decimal (nat \<lfloor>x\<rfloor>))) - 1 else - int (length (decimal (nat (\<lceil>1 / x\<rceil> - 1)))))"

text \<open>The decimals of \<open>n\<close> digits next to \<open>x\<close> that are read back as \<open>x\<close>, as a digit sequence and an exponent.\<close>

definition decimals_of :: "rat \<Rightarrow> nat \<Rightarrow> (int \<times> int) list" where
  "decimals_of x n =
     (let e = rat_log10 x - (int n - 1); lo = \<lfloor>x / 10 powi e\<rfloor>
      in filter (\<lambda>d. f64_round (of_int (fst d) * 10 powi snd d) = Fin x) [(lo, e), (lo + 1, e)])"

definition nearer :: "rat \<Rightarrow> (int \<times> int) list \<Rightarrow> int \<times> int" where
  "nearer x ds =
     (case ds of
        [a, b] \<Rightarrow>
          (let da = x - of_int (fst a) * 10 powi snd a; db = of_int (fst b) * 10 powi snd b - x
           in if da < db \<or> (da = db \<and> even (fst a)) then a else b)
      | a # _ \<Rightarrow> a
      | [] \<Rightarrow> (0, 0))"

text \<open>The shortest one; 17 digits are always enough.\<close>

definition shortest_decimal :: "rat \<Rightarrow> int \<times> int" where
  "shortest_decimal x =
     nearer x (case find (\<lambda>ds. ds \<noteq> []) (map (decimals_of x) [1..<18]) of None \<Rightarrow> [] | Some ds \<Rightarrow> ds)"

definition decimal_text :: "int \<times> int \<Rightarrow> string" where
  "decimal_text d =
     (let ds = decimal (nat (fst d)); k = nat (- snd d)
      in if 0 \<le> snd d then ds @ replicate (nat (snd d)) CHR ''0''
         else if k < length ds then take (length ds - k) ds @ ''.'' @ drop (length ds - k) ds
         else ''0.'' @ replicate (k - length ds) CHR ''0'' @ ds)"

fun f64_display :: "ieee \<Rightarrow> string" where
  "f64_display (Fin r) =
     (if r = 0 then ''0'' else if r < 0 then CHR ''-'' # decimal_text (shortest_decimal (- r))
      else decimal_text (shortest_decimal r))"
| "f64_display (Infinity neg) = (if neg then ''-inf'' else ''inf'')"
| "f64_display NotANumber = ''NaN''"

section \<open>Slots and the context\<close>

datatype value_type = BvString | BvBoolean | BvNumber | BvStringList | BvNumberList

record binding_slot =
  bs_path :: string
  bs_prop :: string
  bs_type :: value_type

record event_slot =
  es_event :: string
  es_callback :: string

record rendered_component =
  rc_source :: string
  rc_bindings :: "binding_slot list"
  rc_events :: "event_slot list"

text \<open>\<open>RenderPanic\<close> stands for the panic of \<open>chunks\<close> with no columns.\<close>

datatype render_error =
    RenderInvalidIr ui_error
  | RenderBudget
  | RenderUnsupported string
  | RenderBinding
  | RenderEncode
  | RenderPanic

fun render_error_code :: "render_error \<Rightarrow> string" where
  "render_error_code (RenderInvalidIr e) = ''RNDR_INVALID_IR''"
| "render_error_code RenderBudget = ''RNDR_BUDGET_EXCEEDED''"
| "render_error_code (RenderUnsupported c) = ''RNDR_UNSUPPORTED_COMPONENT''"
| "render_error_code RenderBinding = ''RNDR_BINDING_ERROR''"
| "render_error_code RenderEncode = ''RNDR_ENCODE_ERROR''"
| "render_error_code RenderPanic = []"

record render_ctx =
  rx_bindings :: "(string, binding_slot) btree"
  rx_events :: "(string, event_slot) btree"
  rx_nodes :: nat
  rx_callbacks :: nat
  rx_minor :: u64

type_synonym 'a rendering = "render_ctx \<Rightarrow> ('a \<times> render_ctx, render_error) result"

definition rd_return :: "('a, render_error) result \<Rightarrow> 'a rendering" where
  "rd_return r ctx = try_bind r (\<lambda>a. Ok (a, ctx))"

definition rd_bind :: "'a rendering \<Rightarrow> ('a \<Rightarrow> 'b rendering) \<Rightarrow> 'b rendering" where
  "rd_bind m f ctx = try_bind (m ctx) (\<lambda>(a, ctx'). f a ctx')"

abbreviation rd_ok :: "'a \<Rightarrow> 'a rendering" where
  "rd_ok a \<equiv> rd_return (Ok a)"

abbreviation rd_fail :: "render_error \<Rightarrow> 'a rendering" where
  "rd_fail e \<equiv> rd_return (Err e)"

fun strip_dollar_dots :: "string \<Rightarrow> string" where
  "strip_dollar_dots (c # d # s) =
     (if c = CHR ''$'' \<and> d = CHR ''.'' then strip_dollar_dots s else c # d # s)"
| "strip_dollar_dots s = s"

definition path_prop_name :: "string \<Rightarrow> string" where
  "path_prop_name bind =
     (let segments = (case path_parse bind of
                        Ok segs \<Rightarrow> join_with ''_'' segs
                      | Err _ \<Rightarrow> map (\<lambda>c. if c \<in> set ''. -['' then CHR ''_'' else c) (strip_dollar_dots bind))
      in if segments = [] then ''state'' else segments)"

definition binding_slot_for :: "string \<Rightarrow> value_type \<Rightarrow> binding_slot rendering" where
  "binding_slot_for bind ty ctx =
     try_bind (map_err (\<lambda>_. RenderBinding) (path_parse bind)) (\<lambda>_.
     case bt_lookup bind (rx_bindings ctx) of
       Some slot \<Rightarrow> if bs_type slot \<noteq> ty then Err RenderBinding else Ok (slot, ctx)
     | None \<Rightarrow>
         if MAX_BINDINGS \<le> length (rx_bindings ctx) then Err RenderBudget
         else let slot = \<lparr>bs_path = bind, bs_prop = ''prop_'' @ path_prop_name bind, bs_type = ty\<rparr>
              in Ok (slot, ctx\<lparr>rx_bindings := bt_insert bind slot (rx_bindings ctx)\<rparr>))"

definition root_prop :: "string \<Rightarrow> value_type \<Rightarrow> string rendering" where
  "root_prop bind ty = rd_bind (binding_slot_for bind ty) (\<lambda>slot. rd_ok (''root.'' @ bs_prop slot))"

definition event_callback :: "(string \<times> emitted_event) list \<Rightarrow> string \<Rightarrow> event_slot rendering" where
  "event_callback events input_event ctx =
     (case bt_lookup input_event events of
        None \<Rightarrow> Err RenderBinding
      | Some emitted \<Rightarrow>
          (case bt_lookup (ee_emit emitted) (rx_events ctx) of
             Some slot \<Rightarrow> Ok (slot, ctx)
           | None \<Rightarrow>
               let slot = \<lparr>es_event = ee_emit emitted, es_callback = ''emit_'' @ decimal (rx_callbacks ctx)\<rparr>
               in Ok (slot, ctx\<lparr>rx_callbacks := rx_callbacks ctx + 1,
                               rx_events := bt_insert (ee_emit emitted) slot (rx_events ctx)\<rparr>)))"

section \<open>Literals\<close>

text \<open>A string as a literal; a control character other than the three with an escape is refused.\<close>

fun encode_chars :: "string \<Rightarrow> string option" where
  "encode_chars [] = Some []"
| "encode_chars (c # cs) =
     (if c = CHR 0x22 then map_option (\<lambda>t. [CHR 0x5C, CHR 0x22] @ t) (encode_chars cs)
      else if c = CHR 0x5C then map_option (\<lambda>t. [CHR 0x5C, CHR 0x5C] @ t) (encode_chars cs)
      else if c = CHR 0x0A then map_option (\<lambda>t. [CHR 0x5C, CHR ''n''] @ t) (encode_chars cs)
      else if c = CHR 0x0D then map_option (\<lambda>t. [CHR 0x5C, CHR ''r''] @ t) (encode_chars cs)
      else if c = CHR 0x09 then map_option (\<lambda>t. [CHR 0x5C, CHR ''t''] @ t) (encode_chars cs)
      else if has_control (take (if c = CHR 0xC2 then 2 else 1) (c # cs)) then None
      else map_option (\<lambda>t. c # t) (encode_chars cs))"

definition encode_string :: "string \<Rightarrow> (string, render_error) result" where
  "encode_string s = ok_or RenderEncode (map_option (\<lambda>t. CHR 0x22 # t @ [CHR 0x22]) (encode_chars s))"

definition is_hexdigit :: "char \<Rightarrow> bool" where
  "is_hexdigit c \<longleftrightarrow> is_ascii_digit c \<or> c \<in> set ''abcdefABCDEF''"

definition color_literal :: "string \<Rightarrow> (string, render_error) result" where
  "color_literal s =
     (let t = trim_text s
      in case t of
           [] \<Rightarrow> Err RenderEncode
         | c # cs \<Rightarrow>
             if c = CHR ''#'' \<and> length t \<in> {4, 7, 9} \<and> list_all is_hexdigit cs then Ok t else Err RenderEncode)"

definition value_to_string :: "json \<Rightarrow> (string, render_error) result" where
  "value_to_string v = (case v of JStr s \<Rightarrow> Ok s | JNull \<Rightarrow> Ok [] | _ \<Rightarrow> Err RenderEncode)"

definition literal_text :: "json \<Rightarrow> (string, render_error) result" where
  "literal_text v = try_bind (value_to_string v) encode_string"

type_synonym ui_props = "(string \<times> prop_value) list"

text \<open>The text of a property that may be bound to the state or to the item of a ForEach.\<close>

definition render_string_prop :: "ui_props \<Rightarrow> string \<Rightarrow> string rendering" where
  "render_string_prop props name =
     (case bt_lookup name props of
        Some (BindingValue (StateBinding bind)) \<Rightarrow> root_prop bind BvString
      | Some (BindingValue (ItemBinding item)) \<Rightarrow> rd_ok item
      | Some (LiteralValue v) \<Rightarrow> rd_return (literal_text v)
      | None \<Rightarrow> rd_fail RenderBinding)"

definition render_accessibility_label :: "string \<Rightarrow> ui_props \<Rightarrow> string rendering" where
  "render_accessibility_label kind props ctx =
     (if rx_minor ctx < 6 \<and> bt_lookup ''accessibilityLabel'' props = None
      then rd_return (encode_string kind) ctx
      else render_string_prop props ''accessibilityLabel'' ctx)"

text \<open>The number of a literal property.\<close>

definition number_prop :: "ui_props \<Rightarrow> string \<Rightarrow> ieee option" where
  "number_prop props name =
     (case bt_lookup name props of Some (LiteralValue v) \<Rightarrow> json_f64 v | _ \<Rightarrow> None)"

definition string_literal_prop :: "ui_props \<Rightarrow> string \<Rightarrow> string option" where
  "string_literal_prop props name =
     (case bt_lookup name props of Some (LiteralValue v) \<Rightarrow> as_str v | _ \<Rightarrow> None)"

definition percent :: "ieee \<Rightarrow> ieee" where
  "percent x = (case ieee_clamp x (Fin 0) (Fin 100) of Some y \<Rightarrow> y | None \<Rightarrow> x)"

section \<open>Components\<close>

definition text_style_props :: "ui_props \<Rightarrow> (string, render_error) result" where
  "text_style_props props =
     try_bind
       (case string_literal_prop props ''colorToken'' of
          Some token \<Rightarrow>
            (case color_token token of
               Some color \<Rightarrow> Ok (line (''        color: '' @ snd color @ '';''))
             | None \<Rightarrow> Err RenderEncode)
        | None \<Rightarrow>
            (case string_literal_prop props ''color'' of
               Some s \<Rightarrow> try_bind (color_literal s) (\<lambda>t. Ok (line (''        color: '' @ t @ '';'')))
             | None \<Rightarrow> Ok []))
       (\<lambda>color.
          Ok (color @ (case number_prop props ''opacity'' of
                         Some f \<Rightarrow> line (''        opacity: '' @ f64_display f @ '';'')
                       | None \<Rightarrow> [])))"

definition render_text :: "ui_props \<Rightarrow> string rendering" where
  "render_text props =
     rd_bind (render_string_prop props ''text'') (\<lambda>t.
     rd_bind (rd_return (text_style_props props)) (\<lambda>style.
     rd_ok (line ''    Text {'' @ line (''        text: '' @ t @ '';'') @ style @ line ''    }'')))"

definition button_text :: "string \<Rightarrow> string \<Rightarrow> string" where
  "button_text label callback =
     concat (map line
       [''    TouchArea {'', ''        accessible-role: button;'', ''        accessible-label: '' @ label @ '';'',
        ''        Rectangle {'', ''            border-radius: 4px;'', ''            background: #2a2f3a;'',
        ''            Text {'', ''                text: '' @ label @ '';'', ''                color: white;'',
        ''                horizontal-alignment: center;'', ''                vertical-alignment: center;'',
        ''            }'', ''        }'', ''        clicked => { root.'' @ callback @ ''(); }'', ''    }''])"

definition render_button :: "ui_props \<Rightarrow> (string \<times> emitted_event) list \<Rightarrow> string rendering" where
  "render_button props events =
     rd_bind (render_string_prop props ''label'') (\<lambda>label.
     rd_bind (event_callback events ''activate'') (\<lambda>slot.
     rd_ok (button_text label (es_callback slot))))"

definition toggle_checked :: "ui_props \<Rightarrow> string rendering" where
  "toggle_checked props =
     (case bt_lookup ''checked'' props of
        Some (BindingValue (StateBinding bind)) \<Rightarrow> root_prop bind BvBoolean
      | Some (BindingValue (ItemBinding item)) \<Rightarrow> rd_ok item
      | Some (LiteralValue v) \<Rightarrow>
          rd_return (try_bind (ok_or RenderBinding (as_bool v)) (\<lambda>b. Ok (if b then ''true'' else ''false'')))
      | None \<Rightarrow> rd_fail RenderBinding)"

definition tied :: "string \<Rightarrow> string" where
  "tied checked = ''(if '' @ checked @ '' ? #3a7dff : #2a2f3a)''"

definition toggle_text :: "string \<Rightarrow> string \<Rightarrow> string \<Rightarrow> string" where
  "toggle_text checked label callback =
     concat (map line
       [''    TouchArea {'', ''        accessible-role: switch;'', ''        accessible-label: '' @ label @ '';'',
        ''        accessible-checked: '' @ checked @ '';'', ''        Rectangle {'', ''            border-radius: 2px;'',
        ''            border-width: 1px;'', ''            border-color: #4a90e2;'',
        ''            background: '' @ tied checked @ '';'', ''        }'',
        ''        clicked => { root.'' @ callback @ ''(); }'', ''    }''])"

definition render_toggle :: "string \<Rightarrow> ui_props \<Rightarrow> (string \<times> emitted_event) list \<Rightarrow> string rendering" where
  "render_toggle kind props events =
     rd_bind (toggle_checked props) (\<lambda>checked.
     rd_bind (render_accessibility_label kind props) (\<lambda>label.
     rd_bind (event_callback events ''toggle'') (\<lambda>slot.
     rd_ok (toggle_text checked label (es_callback slot)))))"

definition meter_value :: "ui_props \<Rightarrow> string rendering" where
  "meter_value props =
     (case bt_lookup ''value'' props of
        Some (BindingValue (StateBinding bind)) \<Rightarrow>
          rd_bind (root_prop bind BvNumber) (\<lambda>p.
          rd_ok (concat [''('', p, '' < 0 ? 0 : ('', p, '' > 100 ? 100 : '', p, ''))'']))
      | Some (LiteralValue v) \<Rightarrow>
          rd_return (try_bind (ok_or RenderBinding (json_f64 v)) (\<lambda>f. Ok (f64_display (percent f))))
      | _ \<Rightarrow> rd_fail RenderBinding)"

definition meter_text :: "string \<Rightarrow> string \<Rightarrow> string" where
  "meter_text val label =
     concat (map line
       [''    Rectangle {'', ''        accessible-role: progress-indicator;'', ''        accessible-label: '' @ label @ '';'',
        ''        accessible-value: '' @ val @ '';'', ''        accessible-value-minimum: 0;'',
        ''        accessible-value-maximum: 100;'', ''        border-radius: 2px;'', ''        background: #2a2f3a;'',
        ''        width: 100%;'', ''        height: 8px;'', ''        Rectangle {'', ''            border-radius: 2px;'',
        ''            background: #4a90e2;'', ''            width: parent.width * ('' @ val @ '' / 100);'',
        ''            height: 8px;'', ''        }'', ''    }''])"

definition render_meter :: "string \<Rightarrow> ui_props \<Rightarrow> string rendering" where
  "render_meter kind props =
     rd_bind (meter_value props) (\<lambda>val.
     rd_bind (render_accessibility_label kind props) (\<lambda>label.
     rd_ok (meter_text val label)))"

definition badge_background :: "string \<Rightarrow> string option" where
  "badge_background tone =
     map_of [(''neutral'', ''#3b4351''), (''info'', ''#245ea8''), (''success'', ''#247a45''),
             (''warning'', ''#8a6418''), (''danger'', ''#9b3030'')] tone"

definition badge_tone :: "ui_props \<Rightarrow> (string, render_error) result" where
  "badge_tone props =
     (case bt_lookup ''tone'' props of
        None \<Rightarrow> Ok ''neutral''
      | Some (LiteralValue v) \<Rightarrow> ok_or RenderBinding (as_str v)
      | Some (BindingValue b) \<Rightarrow> Err RenderBinding)"

definition badge_text :: "string \<Rightarrow> string \<Rightarrow> string" where
  "badge_text background label =
     concat (map line
       [''    Rectangle {'', ''        border-radius: 8px;'', ''        background: '' @ background @ '';'',
        ''        height: 20px;'', ''        Text {'', ''            text: '' @ label @ '';'', ''            color: white;'',
        ''            horizontal-alignment: center;'', ''            vertical-alignment: center;'', ''        }'', ''    }''])"

definition render_badge :: "ui_props \<Rightarrow> string rendering" where
  "render_badge props =
     rd_bind (render_string_prop props ''label'') (\<lambda>label.
     rd_bind (rd_return (badge_tone props)) (\<lambda>tone.
     rd_bind (rd_return (ok_or RenderEncode (badge_background tone))) (\<lambda>background.
     rd_ok (badge_text background label))))"

definition sparkline_label :: "ui_props \<Rightarrow> string rendering" where
  "sparkline_label props =
     (case bt_lookup ''label'' props of
        Some (BindingValue (StateBinding bind)) \<Rightarrow> root_prop bind BvString
      | Some (LiteralValue v) \<Rightarrow> rd_return (try_bind (ok_or RenderBinding (as_str v)) encode_string)
      | _ \<Rightarrow> rd_fail RenderBinding)"

definition sparkline_color :: "ui_props \<Rightarrow> (string, render_error) result" where
  "sparkline_color props =
     (case bt_lookup ''tone'' props of
        None \<Rightarrow> Ok ''#2f6feb''
      | Some (BindingValue b) \<Rightarrow> Err RenderBinding
      | Some (LiteralValue v) \<Rightarrow>
          (case as_str v of
             None \<Rightarrow> Ok ''#2f6feb''
           | Some tone \<Rightarrow>
               ok_or RenderBinding
                 (map_of [(''success'', ''#247a45''), (''warning'', ''#a86600''), (''danger'', ''#a33a3a''),
                          (''info'', ''#2f6feb'')] tone)))"

definition bar_of :: "string \<Rightarrow> json \<Rightarrow> (string, render_error) result" where
  "bar_of color v =
     try_bind (ok_or RenderBinding (json_f64 v)) (\<lambda>f.
     Ok (line (concat [''        Rectangle { width: 4px; height: parent.height * '', f64_display (percent f),
                       '' / 100; background: '', color, ''; }''])))"

definition sparkline_bars :: "ui_props \<Rightarrow> string \<Rightarrow> string rendering" where
  "sparkline_bars props color =
     (case bt_lookup ''values'' props of
        Some (BindingValue (StateBinding bind)) \<Rightarrow>
          rd_bind (root_prop bind BvNumberList) (\<lambda>vs.
          rd_ok (concat (map line
            [''        for value in '' @ vs @ '': Rectangle {'', ''            width: 4px;'',
             ''            height: parent.height * ((value < 0 ? 0 : (value > 100 ? 100 : value)) / 100);'',
             ''            background: '' @ color @ '';'', ''        }''])))
      | Some (LiteralValue v) \<Rightarrow>
          rd_return (try_bind (ok_or RenderBinding (as_array v))
            (\<lambda>vs. try_fold (\<lambda>x acc. try_bind (bar_of color x) (\<lambda>b. Ok (acc @ b))) vs []))
      | _ \<Rightarrow> rd_fail RenderBinding)"

definition render_sparkline :: "ui_props \<Rightarrow> string rendering" where
  "render_sparkline props =
     rd_bind (sparkline_label props) (\<lambda>label.
     rd_bind (rd_return (sparkline_color props)) (\<lambda>color.
     rd_bind (sparkline_bars props color) (\<lambda>bars.
     rd_ok (concat (map line
         [''Rectangle {'', ''    height: 48px;'', ''    accessible-role: image;'', ''    accessible-label: '' @ label @ '';'',
          ''    HorizontalLayout {'', ''        spacing: 2px;'', ''        alignment: end;''])
       @ bars @ line ''    }'' @ line ''}''))))"

text \<open>A List with the property \<open>items\<close>.\<close>

definition list_item :: "json \<Rightarrow> (string, render_error) result" where
  "list_item v =
     try_bind (ok_or RenderBinding (as_str v)) (\<lambda>s. try_bind (encode_string s) (\<lambda>t.
     Ok (line (''    Text { text: '' @ t @ ''; }''))))"

definition render_items :: "prop_value \<Rightarrow> bool \<Rightarrow> string rendering" where
  "render_items items has_children =
     (if has_children then rd_fail RenderBinding
      else case items of
        BindingValue (StateBinding bind) \<Rightarrow>
          rd_bind (root_prop bind BvStringList) (\<lambda>p.
          rd_ok (line ''VerticalLayout {'' @ line (''    for item in '' @ p @ '': Text { text: item; }'') @ line ''}''))
      | BindingValue (ItemBinding item) \<Rightarrow> rd_fail RenderBinding
      | LiteralValue v \<Rightarrow>
          rd_return (try_bind (ok_or RenderBinding (as_array v)) (\<lambda>vs.
            try_bind (try_fold (\<lambda>x acc. try_bind (list_item x) (\<lambda>t. Ok (acc @ t))) vs []) (\<lambda>children.
            Ok (line ''VerticalLayout {'' @ children @ line ''}'')))))"

section \<open>Containers\<close>

definition render_layout_props :: "ui_props \<Rightarrow> string" where
  "render_layout_props props =
     (case number_prop props ''padding'' of Some px \<Rightarrow> line (''    padding: '' @ f64_display px @ ''px;'') | None \<Rightarrow> [])
     @ (case number_prop props ''gap'' of Some px \<Rightarrow> line (''    spacing: '' @ f64_display px @ ''px;'') | None \<Rightarrow> [])"

definition layout_text :: "string \<Rightarrow> ui_props \<Rightarrow> string list \<Rightarrow> string" where
  "layout_text layout props texts =
     line (layout @ '' {'') @ render_layout_props props @ concat (map line texts) @ line ''}''"

definition responsive_text :: "string \<Rightarrow> ui_props \<Rightarrow> string list \<Rightarrow> string" where
  "responsive_text breakpoint props texts =
     ''if root.width < '' @ breakpoint @ ''px: '' @ layout_text ''VerticalLayout'' props texts
     @ ''if root.width >= '' @ breakpoint @ ''px: '' @ layout_text ''HorizontalLayout'' props texts"

definition grid_columns :: "ui_props \<Rightarrow> nat" where
  "grid_columns props =
     (case bt_lookup ''columns'' props of
        Some (LiteralValue v) \<Rightarrow> (case as_u64 v of Some n \<Rightarrow> unat n | None \<Rightarrow> 1)
      | _ \<Rightarrow> 1)"

text \<open>\<open>chunks(Suc n)\<close>\<close>

fun chunks :: "nat \<Rightarrow> 'a list \<Rightarrow> 'a list list" where
  "chunks n [] = []"
| "chunks n (x # xs) = (x # take n xs) # chunks n (drop n xs)"

definition grid_row :: "string list \<Rightarrow> string" where
  "grid_row texts =
     line ''    Row {'' @ concat (map (\<lambda>l. line (''        '' @ l)) (concat (map text_lines texts))) @ line ''    }''"

definition grid_text :: "ui_props \<Rightarrow> string list \<Rightarrow> string" where
  "grid_text props texts =
     line ''GridLayout {'' @ render_layout_props props
     @ concat (map grid_row (chunks (grid_columns props - 1) texts)) @ line ''}''"

definition is_container :: "string \<Rightarrow> ui_props \<Rightarrow> bool" where
  "is_container kind props \<longleftrightarrow>
     kind \<in> {''Column'', ''Row'', ''Stack'', ''Grid'', ''Responsive''} \<or> (kind = ''List'' \<and> bt_lookup ''items'' props = None)"

text \<open>What is checked before the children.\<close>

definition container_check :: "string \<Rightarrow> ui_props \<Rightarrow> (unit, render_error) result" where
  "container_check kind props =
     (if kind = ''Responsive'' \<and> number_prop props ''breakpoint'' = None then Err RenderBinding
      else if kind = ''Grid'' \<and> grid_columns props = 0 then Err RenderPanic
      else Ok ())"

definition container_text :: "string \<Rightarrow> ui_props \<Rightarrow> string list \<Rightarrow> string" where
  "container_text kind props texts =
     (if kind = ''Row'' then layout_text ''HorizontalLayout'' props texts
      else if kind = ''Stack'' then layout_text ''StackLayout'' props texts
      else if kind = ''Grid'' then grid_text props texts
      else if kind = ''Responsive'' then
        responsive_text (case number_prop props ''breakpoint'' of Some f \<Rightarrow> f64_display f | None \<Rightarrow> []) props texts
      else layout_text ''VerticalLayout'' props texts)"

section \<open>The tree\<close>

text \<open>The components without children; \<open>List\<close> is here for its property \<open>items\<close>.\<close>

definition render_leaf ::
  "string \<Rightarrow> ui_props \<Rightarrow> bool \<Rightarrow> (string \<times> emitted_event) list \<Rightarrow> string rendering"
where
  "render_leaf kind props has_children events =
     (if kind = ''List'' then
        (case bt_lookup ''items'' props of Some items \<Rightarrow> render_items items has_children | None \<Rightarrow> rd_fail RenderBinding)
      else if kind = ''Sparkline'' then render_sparkline props
      else if kind = ''Text'' then render_text props
      else if kind = ''Button'' then render_button props events
      else if kind = ''Toggle'' then render_toggle kind props events
      else if kind = ''Progress'' \<or> kind = ''Gauge'' then render_meter kind props
      else if kind = ''Badge'' then render_badge props
      else rd_fail (RenderUnsupported kind))"

definition enter_node :: "nat \<Rightarrow> unit rendering" where
  "enter_node depth ctx =
     (if MAX_TREE_DEPTH < depth then Err RenderBudget
      else if MAX_NODES < rx_nodes ctx + 1 then Err RenderBudget
      else if MAX_BINDINGS < length (rx_bindings ctx) then Err RenderBudget
      else Ok ((), ctx\<lparr>rx_nodes := rx_nodes ctx + 1\<rparr>))"

definition control_prop :: "binding option \<Rightarrow> value_type \<Rightarrow> string rendering" where
  "control_prop b ty =
     (case b of Some (StateBinding bind) \<Rightarrow> root_prop bind ty | _ \<Rightarrow> rd_fail RenderBinding)"

definition item_key :: "string option \<Rightarrow> (string, render_error) result" where
  "item_key key = (case key of None \<Rightarrow> Ok ''item'' | Some k \<Rightarrow> if k = [] then Err RenderBinding else Ok k)"

fun render_node :: "ui_component \<Rightarrow> nat \<Rightarrow> string rendering" where
  "render_node (UiComponent kind props children events w th el items key template) depth ctx =
     try_bind (enter_node depth ctx) (\<lambda>(_, ctx1).
     if is_container kind props then
       try_bind (container_check kind props) (\<lambda>_.
       try_bind (try_fold (\<lambda>child acc. try_bind (render_node child (depth + 1) (snd acc))
                                          (\<lambda>(t, x). Ok (fst acc @ [t], x))) children ([], ctx1)) (\<lambda>(texts, ctx2).
       Ok (container_text kind props texts, ctx2)))
     else if kind = ''If'' then
       try_bind (control_prop w BvBoolean ctx1) (\<lambda>(c, ctx2).
       case th of
         None \<Rightarrow> Err RenderBinding
       | Some t \<Rightarrow>
           try_bind (render_node t (depth + 1) ctx2) (\<lambda>(then_text, ctx3).
           case el of
             None \<Rightarrow> Ok (''if '' @ c @ '': '' @ then_text, ctx3)
           | Some e \<Rightarrow>
               try_bind (render_node e (depth + 1) ctx3) (\<lambda>(else_text, ctx4).
               Ok (''if '' @ c @ '': '' @ then_text @ ''if !'' @ c @ '': '' @ else_text, ctx4))))
     else if kind = ''ForEach'' then
       try_bind (control_prop items BvString ctx1) (\<lambda>(p, ctx2).
       case template of
         None \<Rightarrow> Err RenderBinding
       | Some t \<Rightarrow>
           try_bind (render_node t (depth + 1) ctx2) (\<lambda>(template_text, ctx3).
           try_bind (item_key key) (\<lambda>k.
           Ok (line (''for item['' @ k @ ''] in '' @ p @ '': {'') @ template_text @ line ''}'', ctx3))))
     else render_leaf kind props (children \<noteq> []) events ctx1)"

section \<open>The component\<close>

fun slot_kind :: "value_type \<Rightarrow> string \<times> string" where
  "slot_kind BvString = (''string'', [CHR 0x22, CHR 0x22])"
| "slot_kind BvBoolean = (''bool'', ''false'')"
| "slot_kind BvNumber = (''float'', ''0'')"
| "slot_kind BvStringList = (''[string]'', ''[]'')"
| "slot_kind BvNumberList = (''[float]'', ''[]'')"

definition slot_line :: "binding_slot \<Rightarrow> string" where
  "slot_line s =
     line (concat [''    in property <'', fst (slot_kind (bs_type s)), ''> '', bs_prop s, '': '', snd (slot_kind (bs_type s)), '';''])"

text \<open>The comment of the first line, in UTF-8.\<close>

definition generated_notice :: string where
  "generated_notice =
     [CHR 0x2F, CHR 0x2F, CHR 0x20, CHR 0xE7, CHR 0x94, CHR 0xB1, CHR 0x20, CHR 0x66, CHR 0x6C, CHR 0x6F, CHR 0x61,
      CHR 0x74, CHR 0x69, CHR 0x6C, CHR 0x65, CHR 0x2D, CHR 0x72, CHR 0x65, CHR 0x6E, CHR 0x64, CHR 0x65, CHR
      0x72, CHR 0x65, CHR 0x72, CHR 0x20, CHR 0xE7, CHR 0x94, CHR 0x9F, CHR 0xE6, CHR 0x88, CHR 0x90, CHR
      0x3B, CHR 0xE5, CHR 0xAE, CHR 0xBF, CHR 0xE4, CHR 0xB8, CHR 0xBB, CHR 0xE6, CHR 0x8E, CHR 0xA7, CHR
      0xE5, CHR 0x88, CHR 0xB6, CHR 0x2C, CHR 0xE5, CHR 0x8B, CHR 0xBF, CHR 0xE6, CHR 0x89, CHR 0x8B, CHR
      0xE7, CHR 0xBC, CHR 0x96, CHR 0xE3, CHR 0x80, CHR 0x82]"

definition wrap_component :: "string \<Rightarrow> binding_slot list \<Rightarrow> event_slot list \<Rightarrow> string" where
  "wrap_component body bindings callbacks =
     line generated_notice @ line ''export component ClockPluginUI inherits Rectangle {''
     @ concat (map slot_line bindings)
     @ concat (map (\<lambda>s. line (''    callback '' @ es_callback s @ '';'')) callbacks)
     @ line ''    background: transparent;'' @ body @ line ''}''"

definition minor_of :: "string \<Rightarrow> u64" where
  "minor_of version =
     (case drop 1 (split_on CHR ''.'' version) of
        [] \<Rightarrow> 0
      | minor # _ \<Rightarrow> (case parse_u64 minor of Some n \<Rightarrow> n | None \<Rightarrow> 0))"

definition render_ctx_new :: "ui_document \<Rightarrow> render_ctx" where
  "render_ctx_new doc =
     \<lparr>rx_bindings = [], rx_events = [], rx_nodes = 0, rx_callbacks = 0, rx_minor = minor_of (ud_api_version doc)\<rparr>"

definition render_component :: "(ui_document \<Rightarrow> nat) \<Rightarrow> ui_document \<Rightarrow> (rendered_component, render_error) result" where
  "render_component ir_size doc =
     try_bind (map_err RenderInvalidIr (validate_document ir_size doc)) (\<lambda>_.
     try_bind (render_node (ud_root doc) 0 (render_ctx_new doc)) (\<lambda>(body, ctx).
     let bindings = map snd (rx_bindings ctx); events = map snd (rx_events ctx)
     in Ok \<lparr>rc_source = wrap_component body bindings events, rc_bindings = bindings, rc_events = events\<rparr>))"

section \<open>Projection\<close>

datatype projected_value =
    PvString string
  | PvBoolean bool
  | PvNumber ieee
  | PvStringList "string list"
  | PvNumberList "ieee list"

text \<open>The elements of an array, each read by a function.\<close>

definition project_list :: "nat \<Rightarrow> (json \<Rightarrow> 'a option) \<Rightarrow> json \<Rightarrow> 'a list option" where
  "project_list limit read v =
     (case as_array v of
        None \<Rightarrow> None
      | Some vs \<Rightarrow> if limit < length vs then None else those (map read vs))"

definition project_value :: "value_type \<Rightarrow> json \<Rightarrow> projected_value option" where
  "project_value ty v =
     (case ty of
        BvString \<Rightarrow> map_option PvString (as_str v)
      | BvBoolean \<Rightarrow> map_option PvBoolean (as_bool v)
      | BvNumber \<Rightarrow> map_option PvNumber (json_f64 v)
      | BvStringList \<Rightarrow> map_option PvStringList (project_list MAX_LIST_ITEMS as_str v)
      | BvNumberList \<Rightarrow> map_option PvNumberList (project_list MAX_CHART_POINTS json_f64 v))"

text \<open>\<open>None\<close> is \<open>RuntimeUiError::Projection\<close>.\<close>

definition project_binding_value :: "binding_slot \<Rightarrow> json \<Rightarrow> projected_value option" where
  "project_binding_value slot state =
     (case path_parse (bs_path slot) of
        Err _ \<Rightarrow> None
      | Ok segs \<Rightarrow> Option.bind (json_get state segs) (project_value (bs_type slot)))"

text \<open>The slots in order, up to the first that fails.\<close>

definition project_state :: "binding_slot list \<Rightarrow> json \<Rightarrow> (string \<times> projected_value) list \<times> bool" where
  "project_state slots state =
     (let ok = takeWhile (\<lambda>s. project_binding_value s state \<noteq> None) slots
      in (List.map_filter (\<lambda>s. map_option (Pair (bs_prop s)) (project_binding_value s state)) ok,
          length ok = length slots))"

section \<open>Literals read back\<close>

text \<open>Reading a literal: its content up to the quote that closes it, and the text after it.\<close>

definition unescape :: "char \<Rightarrow> char option" where
  "unescape c =
     map_of [(CHR 0x22, CHR 0x22), (CHR 0x5C, CHR 0x5C), (CHR ''n'', CHR 0x0A), (CHR ''r'', CHR 0x0D), (CHR ''t'', CHR 0x09)] c"

fun scan_body :: "string \<Rightarrow> (string \<times> string) option" where
  "scan_body [] = None"
| "scan_body (c # cs) =
     (if c = CHR 0x22 then Some ([], cs)
      else if c = CHR 0x5C then
        (case cs of
           [] \<Rightarrow> None
         | d # ds \<Rightarrow>
             Option.bind (unescape d) (\<lambda>x. map_option (\<lambda>(s, rest). (x # s, rest)) (scan_body ds)))
      else map_option (\<lambda>(s, rest). (c # s, rest)) (scan_body cs))"

definition scan_literal :: "string \<Rightarrow> (string \<times> string) option" where
  "scan_literal s = (case s of c # cs \<Rightarrow> if c = CHR 0x22 then scan_body cs else None | [] \<Rightarrow> None)"

lemma encode_chars_scan: "encode_chars s = Some t \<Longrightarrow> scan_body (t @ CHR 0x22 # rest) = Some (s, rest)"
proof (induction s arbitrary: t)
  case (Cons c cs)
  then show ?case
    by (auto simp: unescape_def split: if_splits)
qed simp

text \<open>A text that a document shows cannot leave its literal: what the renderer writes for it is read back to
  exactly this text, and reading stops at the end of the literal whatever source follows.\<close>

theorem literal_reads_back:
  assumes "encode_string s = Ok t"
  shows "scan_literal (t @ rest) = Some (s, rest)"
  using assms by (auto simp: encode_string_def scan_literal_def encode_chars_scan)

lemma literal_reads_back_witness:
  "scan_literal ([CHR 0x22, CHR ''a'', CHR 0x5C, CHR 0x22, CHR ''}'', CHR 0x22] @ ''; }'')
     = Some ([CHR ''a'', CHR 0x22, CHR ''}''], ''; }'')"
proof (rule literal_reads_back)
  show "encode_string [CHR ''a'', CHR 0x22, CHR ''}''] = Ok [CHR 0x22, CHR ''a'', CHR 0x5C, CHR 0x22, CHR ''}'', CHR 0x22]"
    by (simp add: encode_string_def)
qed

section \<open>The names of the slots\<close>

lemma path_prop_name_collides: "path_prop_name ''$.a.b'' = path_prop_name ''$.a_b''"
  by (simp add: path_prop_name_def path_parse_def path_field_ok_def)

lemma split_join:
  "ss \<noteq> [] \<Longrightarrow> list_all (\<lambda>s. CHR ''_'' \<notin> set s) ss \<Longrightarrow> split_on CHR ''_'' (join_with ''_'' ss) = ss"
  by (induction "''_''" ss rule: join_with.induct) (auto simp: split_on_absent split_on_at)

section \<open>What a rendering does to the context\<close>

text \<open>The slots so far: keyed by their paths and events, named after them, of a type \<open>Q\<close> allows, and with
  callbacks that are numbered.\<close>

definition slots_ok :: "(string \<Rightarrow> value_type \<Rightarrow> bool) \<Rightarrow> render_ctx \<Rightarrow> bool" where
  "slots_ok Q r \<longleftrightarrow>
     bt_wf (rx_bindings r)
   \<and> (\<forall>p s. bt_lookup p (rx_bindings r) = Some s \<longrightarrow>
        bs_path s = p \<and> bs_prop s = ''prop_'' @ path_prop_name p \<and> (\<exists>segs. path_parse p = Ok segs) \<and> Q p (bs_type s))
   \<and> bt_wf (rx_events r)
   \<and> (\<forall>e s. bt_lookup e (rx_events r) = Some s \<longrightarrow>
        es_event s = e \<and> (\<exists>k < rx_callbacks r. es_callback s = ''emit_'' @ decimal k))
   \<and> (\<forall>e e' s s'. bt_lookup e (rx_events r) = Some s \<longrightarrow> bt_lookup e' (rx_events r) = Some s' \<longrightarrow>
        es_callback s = es_callback s' \<longrightarrow> e = e')"

text \<open>A rendering that registers at most \<open>k\<close> slots, all allowed, keeps the other counters and neither exceeds a
  budget nor panics while there is room for them.\<close>

definition rd_spec :: "(string \<Rightarrow> value_type \<Rightarrow> bool) \<Rightarrow> nat \<Rightarrow> 'a rendering \<Rightarrow> bool" where
  "rd_spec Q k m \<longleftrightarrow>
     (\<forall>r. slots_ok Q r \<and> length (rx_bindings r) + k \<le> MAX_BINDINGS \<longrightarrow>
        (case m r of
           Ok (a, r') \<Rightarrow> slots_ok Q r' \<and> rx_nodes r' = rx_nodes r \<and> length (rx_bindings r') \<le> length (rx_bindings r) + k
         | Err e \<Rightarrow> e \<noteq> RenderBudget \<and> e \<noteq> RenderPanic))"

lemma rd_specD:
  assumes "rd_spec Q k m" and "slots_ok Q r" and "length (rx_bindings r) + k \<le> MAX_BINDINGS"
  shows "m r = Ok (a, r') \<Longrightarrow> slots_ok Q r' \<and> rx_nodes r' = rx_nodes r \<and> length (rx_bindings r') \<le> length (rx_bindings r) + k"
    and "m r = Err e \<Longrightarrow> e \<noteq> RenderBudget \<and> e \<noteq> RenderPanic"
  using assms by (auto simp: rd_spec_def split: result.splits)

lemma rd_spec_return: "x \<noteq> Err RenderBudget \<Longrightarrow> x \<noteq> Err RenderPanic \<Longrightarrow> rd_spec Q k (rd_return x)"
  by (cases x) (auto simp: rd_spec_def rd_return_def)

lemma rd_spec_bind:
  assumes "rd_spec Q j m" and "\<And>a. rd_spec Q k (f a)"
  shows "rd_spec Q (j + k) (rd_bind m f)"
proof -
  have "case rd_bind m f r of
      Ok (a, r') \<Rightarrow> slots_ok Q r' \<and> rx_nodes r' = rx_nodes r \<and> length (rx_bindings r') \<le> length (rx_bindings r) + (j + k)
    | Err e \<Rightarrow> e \<noteq> RenderBudget \<and> e \<noteq> RenderPanic"
    if ok: "slots_ok Q r" and room: "length (rx_bindings r) + (j + k) \<le> MAX_BINDINGS" for r
  proof (cases "m r")
    case (Err e)
    with rd_specD(2) [OF assms(1) ok] room show ?thesis by (simp add: rd_bind_def)
  next
    case (Ok x)
    obtain a r1 where x: "x = (a, r1)" by (cases x)
    with Ok rd_specD(1) [OF assms(1) ok] room have r1: "slots_ok Q r1" "rx_nodes r1 = rx_nodes r"
      "length (rx_bindings r1) \<le> length (rx_bindings r) + j" by auto
    with room have "length (rx_bindings r1) + k \<le> MAX_BINDINGS" by simp
    with rd_specD [OF assms(2) r1(1)] r1 show ?thesis
      by (cases "f a r1") (auto simp: rd_bind_def Ok x, fastforce+)
  qed
  then show ?thesis by (simp add: rd_spec_def)
qed

lemma rd_spec_mono: "rd_spec Q j m \<Longrightarrow> j \<le> k \<Longrightarrow> rd_spec Q k m"
  unfolding rd_spec_def by (fastforce split: result.splits)

text \<open>Two ways to show the contract: from the outcome, or because the rendering stops with an error.\<close>

lemma rd_specI:
  assumes "\<And>r a r'. m r = Ok (a, r') \<Longrightarrow> slots_ok Q r \<Longrightarrow> length (rx_bindings r) + k \<le> MAX_BINDINGS \<Longrightarrow>
      slots_ok Q r' \<and> rx_nodes r' = rx_nodes r \<and> length (rx_bindings r') \<le> length (rx_bindings r) + k"
    and "\<And>r e. m r = Err e \<Longrightarrow> slots_ok Q r \<Longrightarrow> length (rx_bindings r) + k \<le> MAX_BINDINGS \<Longrightarrow>
      e \<noteq> RenderBudget \<and> e \<noteq> RenderPanic"
  shows "rd_spec Q k m"
  using assms by (auto simp: rd_spec_def split: result.split)

lemma slots_ok_insert:
  assumes "slots_ok Q r" and "path_parse bind = Ok segs" and "Q bind ty"
  shows "slots_ok Q (r\<lparr>rx_bindings := bt_insert bind
      \<lparr>bs_path = bind, bs_prop = ''prop_'' @ path_prop_name bind, bs_type = ty\<rparr> (rx_bindings r)\<rparr>)"
  using assms by (auto simp: slots_ok_def)

lemma slots_ok_length:
  "slots_ok Q r \<Longrightarrow> length (bt_insert bind s (rx_bindings r)) \<le> Suc (length (rx_bindings r))"
  by (simp add: bt_length_insert slots_ok_def)

lemma binding_slot_cases:
  "binding_slot_for bind ty r = Ok (s, r') \<Longrightarrow> r' = r \<or> (\<exists>segs. path_parse bind = Ok segs \<and>
      r' = r\<lparr>rx_bindings := bt_insert bind
        \<lparr>bs_path = bind, bs_prop = ''prop_'' @ path_prop_name bind, bs_type = ty\<rparr> (rx_bindings r)\<rparr>)"
  by (auto simp: binding_slot_for_def Let_def split: option.splits if_splits)

lemma binding_slot_error:
  "binding_slot_for bind ty r = Err e \<Longrightarrow> length (rx_bindings r) < MAX_BINDINGS \<Longrightarrow> e = RenderBinding"
  by (auto simp: binding_slot_for_def Let_def try_bind_Err_iff map_err_Err_iff split: option.splits if_splits)

lemma binding_slot_spec:
  assumes "Q bind ty"
  shows "rd_spec Q (Suc 0) (binding_slot_for bind ty)"
proof (rule rd_specI)
  fix r a r' assume "binding_slot_for bind ty r = Ok (a, r')" and ok: "slots_ok Q r"
  then show "slots_ok Q r' \<and> rx_nodes r' = rx_nodes r \<and> length (rx_bindings r') \<le> length (rx_bindings r) + Suc 0"
    using slots_ok_insert [OF ok _ assms] slots_ok_length [OF ok] by (auto dest!: binding_slot_cases)
qed (auto dest: binding_slot_error)

lemma rd_spec_bind1:
  "rd_spec Q k m \<Longrightarrow> (\<And>a. rd_spec Q 0 (f a)) \<Longrightarrow> rd_spec Q k (rd_bind m f)"
  using rd_spec_bind [of Q k m 0 f] by simp

lemma rd_spec_bind0:
  "rd_spec Q 0 m \<Longrightarrow> (\<And>a. rd_spec Q k (f a)) \<Longrightarrow> rd_spec Q k (rd_bind m f)"
  using rd_spec_bind [of Q 0 m k f] by simp

lemma root_prop_spec: "Q bind ty \<Longrightarrow> rd_spec Q (Suc 0) (root_prop bind ty)"
  unfolding root_prop_def by (intro rd_spec_bind1 binding_slot_spec rd_spec_return) simp_all

lemma event_callback_spec: "rd_spec Q 0 (event_callback events name)"
proof -
  have "slots_ok Q (r\<lparr>rx_callbacks := rx_callbacks r + 1, rx_events := bt_insert e
      \<lparr>es_event = e, es_callback = ''emit_'' @ decimal (rx_callbacks r)\<rparr> (rx_events r)\<rparr>)"
    if ok: "slots_ok Q r" and new: "bt_lookup e (rx_events r) = None" for r e
  proof -
    have fresh: "es_callback s \<noteq> ''emit_'' @ decimal (rx_callbacks r)" if "bt_lookup e' (rx_events r) = Some s" for e' s
      using ok that by (fastforce simp: slots_ok_def decimal_inject)
    have numbered: "\<exists>k < Suc (rx_callbacks r). es_callback s = ''emit_'' @ decimal k" if "bt_lookup e' (rx_events r) = Some s" for e' s
      using ok that less_SucI unfolding slots_ok_def by blast
    show ?thesis
      using ok fresh fresh [symmetric] numbered unfolding slots_ok_def by (auto simp: less_Suc_eq)
  qed
  then show ?thesis
    by (intro rd_specI) (auto simp: event_callback_def Let_def split: option.splits)
qed

section \<open>The components register what their properties are bound to\<close>

text \<open>The type of the slot of a bound property.\<close>

definition slot_type_of :: "string \<Rightarrow> value_type" where
  "slot_type_of name =
     (if name = ''checked'' then BvBoolean else if name = ''value'' then BvNumber
      else if name = ''items'' then BvStringList else if name = ''values'' then BvNumberList else BvString)"

definition props_bound :: "(string \<Rightarrow> value_type \<Rightarrow> bool) \<Rightarrow> ui_props \<Rightarrow> bool" where
  "props_bound Q props \<longleftrightarrow>
     (\<forall>name bind. bt_lookup name props = Some (BindingValue (StateBinding bind)) \<longrightarrow> Q bind (slot_type_of name))"

lemma props_boundD:
  "bt_lookup name props = Some (BindingValue (StateBinding bind)) \<Longrightarrow> props_bound Q props \<Longrightarrow> Q bind (slot_type_of name)"
  by (simp add: props_bound_def)

lemma encode_string_error: "encode_string s = Err e \<Longrightarrow> e = RenderEncode"
  by (auto simp: encode_string_def ok_or_Err_iff)

lemma literal_text_error: "literal_text v = Err e \<Longrightarrow> e = RenderEncode"
  by (cases v) (auto simp: literal_text_def value_to_string_def encode_string_error)

lemma color_literal_error: "color_literal s = Err e \<Longrightarrow> e = RenderEncode"
  by (auto simp: color_literal_def Let_def split: list.splits if_splits)

lemma text_style_error: "text_style_props props = Err e \<Longrightarrow> e = RenderEncode"
  by (auto simp: text_style_props_def try_bind_Err_iff color_literal_error split: option.splits)

text \<open>Renderings that fail with one of two errors only.\<close>

definition plain_error :: "('a, render_error) result \<Rightarrow> bool" where
  "plain_error x \<longleftrightarrow> x \<noteq> Err RenderBudget \<and> x \<noteq> Err RenderPanic"

lemma plain_errorI: "(\<And>e. x = Err e \<Longrightarrow> e = RenderEncode \<or> e = RenderBinding) \<Longrightarrow> plain_error x"
  by (auto simp: plain_error_def)

lemma rd_spec_plain: "plain_error x \<Longrightarrow> rd_spec Q k (rd_return x)"
  by (simp add: plain_error_def rd_spec_return)

lemma plain_error_simps [simp]:
  "plain_error (Ok a)" "plain_error (Err RenderBinding)" "plain_error (Err RenderEncode)" "plain_error (Err (RenderUnsupported k))"
  "plain_error (encode_string s)" "plain_error (literal_text v)" "plain_error (text_style_props props)"
  "plain_error (ok_or RenderBinding x)" "plain_error (ok_or RenderEncode x)"
  by (auto simp: plain_error_def ok_or_Err_iff dest: encode_string_error literal_text_error text_style_error)

lemma plain_error_bind: "plain_error x \<Longrightarrow> (\<And>a. plain_error (f a)) \<Longrightarrow> plain_error (try_bind x f)"
  by (cases x) (auto simp: plain_error_def)

lemma plain_error_fold: "(\<And>x s. plain_error (f x s)) \<Longrightarrow> plain_error (try_fold f xs s)"
  by (induction xs arbitrary: s) (auto intro: plain_error_bind)

lemma render_string_prop_spec:
  assumes "props_bound Q props" and "slot_type_of name = BvString"
  shows "rd_spec Q (Suc 0) (render_string_prop props name)"
  using assms
  by (auto simp: render_string_prop_def split: option.split prop_value.split binding.split
      intro!: rd_spec_plain root_prop_spec dest!: props_boundD)

lemma rd_spec_if: "rd_spec Q k m \<Longrightarrow> rd_spec Q k m' \<Longrightarrow> rd_spec Q k (\<lambda>r. if P r then m r else m' r)"
  by (simp add: rd_spec_def)

lemma label_spec:
  assumes "props_bound Q props"
  shows "rd_spec Q (Suc 0) (render_accessibility_label kind props)"
  unfolding render_accessibility_label_def [abs_def]
  by (intro rd_spec_if rd_spec_plain render_string_prop_spec [OF assms]) (simp_all add: slot_type_of_def)

lemma toggle_checked_spec: "props_bound Q props \<Longrightarrow> rd_spec Q (Suc 0) (toggle_checked props)"
  by (auto simp: toggle_checked_def slot_type_of_def split: option.split prop_value.split binding.split
      intro!: rd_spec_plain root_prop_spec plain_error_bind dest!: props_boundD)

lemma meter_value_spec: "props_bound Q props \<Longrightarrow> rd_spec Q (Suc 0) (meter_value props)"
  by (auto simp: meter_value_def slot_type_of_def split: option.split prop_value.split binding.split
      intro!: rd_spec_plain rd_spec_bind1 root_prop_spec plain_error_bind dest!: props_boundD)

lemma sparkline_label_spec: "props_bound Q props \<Longrightarrow> rd_spec Q (Suc 0) (sparkline_label props)"
  by (auto simp: sparkline_label_def slot_type_of_def split: option.split prop_value.split binding.split
      intro!: rd_spec_plain root_prop_spec plain_error_bind dest!: props_boundD)

lemma sparkline_bars_spec: "props_bound Q props \<Longrightarrow> rd_spec Q (Suc 0) (sparkline_bars props color)"
  by (auto simp: sparkline_bars_def slot_type_of_def bar_of_def
      split: option.split prop_value.split binding.split
      intro!: rd_spec_plain rd_spec_bind1 root_prop_spec plain_error_bind plain_error_fold dest!: props_boundD)

lemma sparkline_color_plain [simp]: "plain_error (sparkline_color props)"
  by (auto simp: sparkline_color_def split: option.split prop_value.split)

lemma badge_tone_plain [simp]: "plain_error (badge_tone props)"
  by (auto simp: badge_tone_def split: option.split prop_value.split)

text \<open>A component without children registers at most two slots.\<close>

lemma render_items_spec:
  "bt_lookup ''items'' props = Some items \<Longrightarrow> props_bound Q props \<Longrightarrow> rd_spec Q 2 (render_items items has_children)"
  by (auto simp: render_items_def slot_type_of_def list_item_def split: prop_value.split binding.split
      intro!: rd_spec_plain rd_spec_bind1 rd_spec_mono [OF root_prop_spec] plain_error_bind plain_error_fold dest!: props_boundD)

lemma render_leaf_spec:
  assumes "props_bound Q props"
  shows "rd_spec Q 2 (render_leaf kind props has_children events)"
proof -
  have str: "rd_spec Q (Suc 0) (render_string_prop props name)" if "name \<in> {''text'', ''label''}" for name
    using that render_string_prop_spec [OF assms] by (auto simp: slot_type_of_def)
  have two: "rd_spec Q 2 (rd_bind m f)" if "rd_spec Q (Suc 0) m" "\<And>a. rd_spec Q (Suc 0) (f a)" for m :: "string rendering" and f :: "string \<Rightarrow> string rendering"
    using rd_spec_bind [OF that] by (simp add: numeral_2_eq_2)
  have one: "rd_spec Q 2 m" if "rd_spec Q (Suc 0) m" for m :: "string rendering"
    using that by (rule rd_spec_mono) simp
  have "rd_spec Q 2 (render_text props)" "rd_spec Q 2 (render_badge props)"
    unfolding render_text_def render_badge_def by (intro one rd_spec_bind1 str rd_spec_plain; simp)+
  moreover have "rd_spec Q 2 (render_button props events)"
    unfolding render_button_def by (intro one rd_spec_bind1 str event_callback_spec rd_spec_plain; simp)
  moreover have "rd_spec Q 2 (render_toggle c props events)" for c
    unfolding render_toggle_def
    by (intro two toggle_checked_spec [OF assms] rd_spec_bind1 label_spec [OF assms] event_callback_spec rd_spec_plain; simp)
  moreover have "rd_spec Q 2 (render_meter c props)" for c
    unfolding render_meter_def
    by (intro two meter_value_spec [OF assms] rd_spec_bind1 label_spec [OF assms] rd_spec_plain; simp)
  moreover have "rd_spec Q 2 (render_sparkline props)"
    unfolding render_sparkline_def
    by (intro two sparkline_label_spec [OF assms] rd_spec_bind0 [OF rd_spec_plain] rd_spec_bind1 sparkline_bars_spec [OF assms]
        rd_spec_plain; simp)
  ultimately show ?thesis
    using render_items_spec [OF _ assms]
    by (cases "bt_lookup ''items'' props") (simp_all add: render_leaf_def rd_spec_plain)
qed

section \<open>The two walks of the tree\<close>

text \<open>What a slot may be used for: the schema of its path has the type the slot is read with.  The array of a ForEach is
  registered as a string.\<close>

definition slot_target :: "value_type \<Rightarrow> json_schema \<Rightarrow> bool" where
  "slot_target ty target \<longleftrightarrow>
     (case ty of
        BvString \<Rightarrow> schema_json_type target = ''string'' \<or> schema_json_type target = ''array''
      | BvBoolean \<Rightarrow> schema_json_type target = ''boolean''
      | BvNumber \<Rightarrow> schema_json_type target = ''number''
      | BvStringList \<Rightarrow> bounded_array_of MAX_LIST_ITEMS (\<lambda>s. case s of SString _ \<Rightarrow> True | _ \<Rightarrow> False) target
      | BvNumberList \<Rightarrow> bounded_array_of MAX_CHART_POINTS (\<lambda>s. s = SNumber \<or> s = SInteger) target)"

definition slot_typed :: "json_schema \<Rightarrow> string \<Rightarrow> value_type \<Rightarrow> bool" where
  "slot_typed st p ty \<longleftrightarrow> (\<exists>target. try_bind (path_parse p) (path_resolve st) = Ok target \<and> slot_target ty target)"

lemma bindable_props:
  assumes "spec \<in> set ui_registry" and "find_prop spec name = Some p" and "ps_allow_binding p"
  shows "ps_types p = [case slot_type_of name of BvString \<Rightarrow> TString | BvBoolean \<Rightarrow> TBoolean | BvNumber \<Rightarrow> TNumber
      | BvStringList \<Rightarrow> TArray | BvNumberList \<Rightarrow> TArray]
    \<and> (name = ''items'' \<longrightarrow> cs_name spec = ''List'') \<and> (name = ''values'' \<longrightarrow> cs_name spec = ''Sparkline'')"
proof -
  have "list_all (\<lambda>spec. list_all (\<lambda>p. ps_allow_binding p \<longrightarrow>
      ps_types p = [case slot_type_of (ps_name p) of BvString \<Rightarrow> TString | BvBoolean \<Rightarrow> TBoolean | BvNumber \<Rightarrow> TNumber
        | BvStringList \<Rightarrow> TArray | BvNumberList \<Rightarrow> TArray]
      \<and> (ps_name p = ''items'' \<longrightarrow> cs_name spec = ''List'') \<and> (ps_name p = ''values'' \<longrightarrow> cs_name spec = ''Sparkline''))
      (cs_props spec)) ui_registry"
    by (simp add: ui_registry_def static_components_def value_components_def element_def element_since_def control_def
        COMMON_ELEMENT_PROPS_def prop_of_def slot_type_of_def)
  with assms show ?thesis by (auto simp: list_all_iff find_prop_def find_Some_iff dest!: nth_mem)
qed

lemma validated_props_bound:
  assumes spec: "registry_find kind = Ok spec" and ok: "try_fold (validate_prop env spec st it kind) props v = Ok v'"
  shows "props_bound (slot_typed st) props"
  unfolding props_bound_def
proof (intro allI impI)
  fix name bind assume "bt_lookup name props = Some (BindingValue (StateBinding bind))"
  then have "(name, BindingValue (StateBinding bind)) \<in> set props" by (rule bt_lookup_Some_in)
  from try_fold_member [OF ok this] obtain u w where
    "validate_prop env spec st it kind (name, BindingValue (StateBinding bind)) u = Ok w" by blast
  then obtain p where p: "find_prop spec name = Some p" "ps_allow_binding p"
    and b: "validate_binding (StateBinding bind) p st it kind name = Ok ()"
    by (auto simp: validate_prop_def split: if_splits)
  note types = bindable_props [OF registry_find_spec(2) [OF spec] p] registry_find_spec(1) [OF spec]
  from b obtain target where target: "try_bind (path_parse bind) (path_resolve st) = Ok target"
    by (auto simp: validate_binding_def binding_target_def)
  have "slot_target (slot_type_of name) target"
    using b target types schema_json_type_not_integer [of target]
    by (auto simp: validate_binding_def binding_target_def slot_target_def slot_type_of_def split: if_splits)
  with target show "slot_typed st bind (slot_type_of name)" by (auto simp: slot_typed_def)
qed

lemma validated_columns:
  assumes spec: "registry_find ''Grid'' = Ok spec" and ok: "try_fold (validate_prop env spec st it ''Grid'') props v = Ok v'"
  shows "grid_columns props \<noteq> 0"
proof (cases "\<exists>val n. bt_lookup ''columns'' props = Some (LiteralValue val) \<and> as_u64 val = Some n")
  case True
  then obtain val n where val: "bt_lookup ''columns'' props = Some (LiteralValue val)" "as_u64 val = Some n" by blast
  from try_fold_member [OF ok bt_lookup_Some_in [OF val(1)]] obtain u w where
    "validate_prop env spec st it ''Grid'' (''columns'', LiteralValue val) u = Ok w" by blast
  then obtain p where "find_prop spec ''columns'' = Some p" "validate_literal spec p (LiteralValue val) = Ok ()"
    by (auto simp: validate_prop_def split: if_splits)
  then have "literal_value_ok ''Grid'' ''columns'' val"
    using registry_find_spec(1) [OF spec] by (auto simp: validate_literal_def find_prop_def find_Some_iff split: if_splits)
  with val have "1 \<le> n" by (simp add: literal_value_ok_def)
  then have "unat n \<noteq> 0" by (simp add: unat_eq_zero) (auto simp: word_le_nat_alt)
  with val show ?thesis by (simp add: grid_columns_def)
qed (auto simp: grid_columns_def split: option.splits prop_value.splits)

text \<open>The renderer and the validation count the same nodes; the slots are at most two for each of them.\<close>

definition in_step :: "json_schema \<Rightarrow> ui_counts \<Rightarrow> render_ctx \<Rightarrow> bool" where
  "in_step st v r \<longleftrightarrow> slots_ok (slot_typed st) r \<and> rx_nodes r = ct_nodes v \<and> length (rx_bindings r) \<le> 2 * rx_nodes r"

definition outcome_ok :: "json_schema \<Rightarrow> ui_counts \<Rightarrow> ('a \<times> render_ctx, render_error) result \<Rightarrow> bool" where
  "outcome_ok st v x \<longleftrightarrow>
     (case x of Ok (a, r) \<Rightarrow> in_step st v r | Err e \<Rightarrow> e \<noteq> RenderBudget \<and> e \<noteq> RenderPanic)"

lemma outcome_ok_simps [simp]:
  "outcome_ok st v (Ok (a, r)) \<longleftrightarrow> in_step st v r"
  "outcome_ok st v (Err e) \<longleftrightarrow> e \<noteq> RenderBudget \<and> e \<noteq> RenderPanic"
  by (simp_all add: outcome_ok_def)

lemma outcome_ok_bind:
  assumes "outcome_ok st v x" and "\<And>a r. in_step st v r \<Longrightarrow> outcome_ok st v' (f (a, r))"
  shows "outcome_ok st v' (try_bind x f)"
  using assms by (cases x) (auto simp: outcome_ok_def)

text \<open>A rendering of a component that has entered its node, with room for its two slots.\<close>

lemma outcome_ok_leaf:
  assumes "rd_spec (slot_typed st) 2 m" and "slots_ok (slot_typed st) r"
    and "length (rx_bindings r) + 2 \<le> 2 * rx_nodes r" and "rx_nodes r \<le> MAX_NODES" and "rx_nodes r = ct_nodes v"
  shows "outcome_ok st v (m r)"
proof -
  have "length (rx_bindings r) + 2 \<le> MAX_BINDINGS" using assms(3,4) by (simp add: MAX_NODES_def MAX_BINDINGS_def)
  note D = rd_specD [OF assms(1,2) this]
  show ?thesis
  proof (cases "m r")
    case (Ok x)
    then show ?thesis using D(1) [of "fst x" "snd x"] assms(3,5) by (cases x) (simp add: in_step_def)
  qed (use D(2) in auto)
qed

lemma entered:
  assumes step: "in_step st v r" and bounds: "Suc d \<le> MAX_TREE_DEPTH" "ct_nodes v + 1 \<le> MAX_NODES"
  defines "r1 \<equiv> r\<lparr>rx_nodes := rx_nodes r + 1\<rparr>"
  shows "enter_node d r = Ok ((), r1)" and "slots_ok (slot_typed st) r1" and "length (rx_bindings r1) + 2 \<le> 2 * rx_nodes r1"
    and "rx_nodes r1 \<le> MAX_NODES" and "rx_nodes r1 = ct_nodes (v\<lparr>ct_nodes := ct_nodes v + 1\<rparr>)"
    and "in_step st (v\<lparr>ct_nodes := ct_nodes v + 1\<rparr>) r1"
  using assms by (auto simp: enter_node_def in_step_def slots_ok_def MAX_BINDINGS_def MAX_NODES_def)

lemma control_prop_spec: "b = Some (StateBinding p) \<Longrightarrow> slot_typed st p ty \<Longrightarrow> rd_spec (slot_typed st) 2 (control_prop b ty)"
  by (auto simp: control_prop_def intro: rd_spec_mono [OF root_prop_spec])

lemma leaf_children:
  assumes "registry_find kind = Ok spec" and "validate_shape env spec kind props n = Ok ()" and "\<not> is_container kind props"
    and "kind \<in> {''List'', ''Sparkline'', ''Text'', ''Button'', ''Toggle'', ''Progress'', ''Gauge'', ''Badge''}"
  shows "n = 0"
proof -
  have "list_all (\<lambda>s. cs_name s \<in> {''Sparkline'', ''Text'', ''Button'', ''Toggle'', ''Progress'', ''Gauge'', ''Badge''} \<longrightarrow>
      cs_children s = ChildrenForbidden) ui_registry"
    by (simp add: ui_registry_def static_components_def value_components_def element_def element_since_def control_def)
  with registry_find_spec(1,2) [OF assms(1)] assms(4) have "kind = ''List'' \<or> cs_children spec = ChildrenForbidden"
    by (auto simp: list_all_iff)
  with assms(2,3) show ?thesis
    by (auto simp: validate_shape_def is_container_def has_prop_def split: option.splits if_splits)
qed

lemma render_leaf_unsupported:
  "kind \<notin> {''List'', ''Sparkline'', ''Text'', ''Button'', ''Toggle'', ''Progress'', ''Gauge'', ''Badge''}
     \<Longrightarrow> render_leaf kind props h events r = Err (RenderUnsupported kind)"
  by (simp add: render_leaf_def rd_return_def)

lemma render_children:
  assumes "\<And>c v v' r. c \<in> set cs \<Longrightarrow> validate_component env st it (Suc d) c v = Ok v' \<Longrightarrow> in_step st v r
      \<Longrightarrow> outcome_ok st v' (render_node c d r)"
    and "try_fold (validate_component env st it (Suc d)) cs v = Ok v'" and "in_step st v r"
  shows "outcome_ok st v' (try_fold (\<lambda>child acc. try_bind (render_node child d (snd acc))
      (\<lambda>(t, x). Ok (fst acc @ [t], x))) cs (texts, r))"
  using assms
proof (induction cs arbitrary: v r texts)
  case (Cons c cs)
  from Cons.prems(2) obtain v1 where v1: "validate_component env st it (Suc d) c v = Ok v1"
    "try_fold (validate_component env st it (Suc d)) cs v1 = Ok v'" by auto
  have first: "outcome_ok st v1 (render_node c d r)" by (rule Cons.prems(1) [OF _ v1(1) Cons.prems(3)]) simp
  show ?case
  proof (cases "render_node c d r")
    case (Ok x)
    obtain t r1 where x: "x = (t, r1)" by (cases x)
    with first Ok have "in_step st v1 r1" by simp
    with Cons.IH [OF Cons.prems(1) v1(2)] show ?thesis by (simp add: Ok x)
  qed (use first in simp)
qed simp

lemma in_step_nodes: "in_step st v r \<Longrightarrow> ct_nodes v' = ct_nodes v \<Longrightarrow> in_step st v' r"
  by (simp add: in_step_def)

lemma control_target_typed:
  assumes "control_target st w = Ok target" and "slot_target ty target"
  shows "\<exists>p. w = Some (StateBinding p) \<and> slot_typed st p ty"
  using assms by (auto simp: control_target_def slot_typed_def split: option.splits binding.splits)

lemma if_condition_typed: "if_condition st w = Ok () \<Longrightarrow> \<exists>p. w = Some (StateBinding p) \<and> slot_typed st p BvBoolean"
  by (auto simp: if_condition_def slot_target_def split: if_splits dest!: control_target_typed [where ty = BvBoolean])

lemma foreach_items_typed: "foreach_items st w = Ok elem \<Longrightarrow> \<exists>p. w = Some (StateBinding p) \<and> slot_typed st p BvString"
  by (auto dest!: foreach_items_Ok control_target_typed [where ty = BvString] simp: slot_target_def)

lemma render_validated:
  "validate_component env st it depth c v = Ok v' \<Longrightarrow> depth = Suc d \<Longrightarrow> in_step st v r \<Longrightarrow> outcome_ok st v' (render_node c d r)"
proof (induction c arbitrary: it depth d v v' r rule: measure_induct_rule [where f = size])
  case (less c)
  obtain kind props children events w th el items key template where
    c: "c = UiComponent kind props children events w th el items key template" by (cases c)
  let ?v1 = "v\<lparr>ct_nodes := ct_nodes v + 1\<rparr>" and ?r1 = "r\<lparr>rx_nodes := rx_nodes r + 1\<rparr>"
  have IH: "outcome_ok st y (render_node p (Suc d) x)"
    if "p \<in> set (ui_parts c)" "validate_component env st i (depth + 1) p u = Ok y" "in_step st u x" for p i u y x
    using less.IH [OF ui_parts_size [OF that(1)] that(2) _ that(3)] less.prems(2) by simp
  note enter = entered [OF less.prems(3)]
  from less.prems(1) show ?case
  proof (cases rule: validate_component_OkE)
    case (accepted_if t v2)
    have kind: "kind = ''If''" "th = Some t" "w = uc_when c" "el = uc_else c" using accepted_if by (simp_all add: c)
    have bounds: "Suc d \<le> MAX_TREE_DEPTH" "ct_nodes v + 1 \<le> MAX_NODES" using accepted_if(1,2) less.prems(2) by simp_all
    note r1 = enter [OF bounds]
    have parts: "ui_parts c = t # (case el of Some e \<Rightarrow> [e] | None \<Rightarrow> [])" using kind(1,2) by (simp add: ui_parts_def c)
    from if_condition_typed [OF accepted_if(5)] obtain p where p: "w = Some (StateBinding p)" "slot_typed st p BvBoolean"
      using kind by auto
    have cond: "outcome_ok st ?v1 (control_prop w BvBoolean ?r1)"
      by (rule outcome_ok_leaf [OF control_prop_spec [OF p] r1(2-5)])
    have then_part: "outcome_ok st v2 (render_node t (Suc d) x)" if "in_step st ?v1 x" for x
      using IH [OF _ accepted_if(7) that] parts by simp
    have else_part: "outcome_ok st v' (case el of None \<Rightarrow> Ok (a, x)
        | Some e \<Rightarrow> try_bind (render_node e (d + 1) x) (\<lambda>(s, y). Ok (f s, y)))" if "in_step st v2 x" for x a f
    proof (cases el)
      case None
      with accepted_if(8) kind that show ?thesis by simp
    next
      case (Some e)
      with accepted_if(8) kind have "validate_component env st None (depth + 1) e v2 = Ok v'"
        by (metis option.distinct(1) option.inject)
      from IH [OF _ this that] parts Some have "outcome_ok st v' (render_node e (Suc d) x)" by simp
      then show ?thesis by (auto simp: Some intro: outcome_ok_bind)
    qed
    have eq: "render_node c d r = try_bind (control_prop w BvBoolean ?r1) (\<lambda>(cp, x).
        try_bind (render_node t (Suc d) x) (\<lambda>(s, y).
        case el of
          None \<Rightarrow> Ok (''if '' @ cp @ '': '' @ s, y)
        | Some e \<Rightarrow> try_bind (render_node e (d + 1) y) (\<lambda>(s', z).
            Ok (''if '' @ cp @ '': '' @ s @ ''if !'' @ cp @ '': '' @ s', z))))"
      using r1(1) unfolding c by (simp add: kind(1,2) is_container_def)
    show ?thesis
      unfolding eq by (rule outcome_ok_bind [OF cond], clarify, rule outcome_ok_bind [OF then_part], assumption, clarify, rule else_part)
  next
    case (accepted_foreach t elem)
    have kind: "kind = ''ForEach''" "template = Some t" "items = uc_items c" using accepted_foreach by (simp_all add: c)
    have bounds: "Suc d \<le> MAX_TREE_DEPTH" "ct_nodes v + 1 \<le> MAX_NODES" using accepted_foreach(1,2) less.prems(2) by simp_all
    note r1 = enter [OF bounds]
    have parts: "ui_parts c = [t]" using kind(1,2) by (simp add: ui_parts_def c)
    from foreach_items_typed [OF accepted_foreach(5)] obtain p where p: "items = Some (StateBinding p)" "slot_typed st p BvString"
      using kind by auto
    have slot: "outcome_ok st ?v1 (control_prop items BvString ?r1)"
      by (rule outcome_ok_leaf [OF control_prop_spec [OF p] r1(2-5)])
    have body: "outcome_ok st v' (render_node t (Suc d) x)" if "in_step st ?v1 x" for x
      using IH [OF _ accepted_foreach(7) that] parts by simp
    have keyed: "outcome_ok st v' (try_bind (item_key key) (\<lambda>k. Ok (f k, x)))" if "in_step st v' x" for f x
      using that by (auto simp: item_key_def split: option.split)
    have eq: "render_node c d r = try_bind (control_prop items BvString ?r1) (\<lambda>(ip, x).
        try_bind (render_node t (Suc d) x) (\<lambda>(s, y).
        try_bind (item_key key) (\<lambda>k. Ok (line (''for item['' @ k @ ''] in '' @ ip @ '': {'') @ s @ line ''}'', y))))"
      using r1(1) unfolding c by (simp add: kind(1,2) is_container_def)
    show ?thesis
      unfolding eq by (rule outcome_ok_bind [OF slot], clarify, rule outcome_ok_bind [OF body], assumption, clarify, rule keyed)
  next
    case (accepted_element spec v2 v3)
    have kind: "kind = uc_kind c" "props = uc_props c" "children = uc_children c" by (simp_all add: c)
    have bounds: "Suc d \<le> MAX_TREE_DEPTH" "ct_nodes v + 1 \<le> MAX_NODES" using accepted_element(1,2) less.prems(2) by simp_all
    note r1 = enter [OF bounds]
    have nodes: "ct_nodes v2 = ct_nodes ?v1" "ct_nodes v' = ct_nodes v3"
      using validate_props_count [OF accepted_element(6)] count_asset_Ok [OF accepted_element(10)] by simp_all
    have parts: "ui_parts c = children" using accepted_element(3,4) kind by (simp add: ui_parts_def)
    show ?thesis
    proof (cases "is_container kind props")
      case True
      have "kind = ''Grid'' \<Longrightarrow> grid_columns props \<noteq> 0"
        using validated_columns accepted_element(5,6) kind by metis
      then have check: "container_check kind props = Ok () \<or> container_check kind props = Err RenderBinding"
        by (auto simp: container_check_def)
      have walk: "try_fold (validate_component env st it (Suc (Suc d))) children v2 = Ok v3"
        using accepted_element(8) less.prems(2) kind by simp
      have "outcome_ok st v3 (try_fold (\<lambda>child acc. try_bind (render_node child (Suc d) (snd acc))
          (\<lambda>(t, x). Ok (fst acc @ [t], x))) children ([], ?r1))"
        by (rule render_children [OF _ walk in_step_nodes [OF r1(6) nodes(1)]])
          (use IH parts less.prems(2) in auto)
      with nodes(2) have "outcome_ok st v' (try_fold (\<lambda>child acc. try_bind (render_node child (Suc d) (snd acc))
          (\<lambda>(t, x). Ok (fst acc @ [t], x))) children ([], ?r1))"
        by (auto simp: outcome_ok_def split: result.splits intro: in_step_nodes)
      then have "outcome_ok st v' (try_bind (try_fold (\<lambda>child acc. try_bind (render_node child (Suc d) (snd acc))
          (\<lambda>(t, x). Ok (fst acc @ [t], x))) children ([], ?r1)) (\<lambda>(texts, x). Ok (container_text kind props texts, x)))"
        by (rule outcome_ok_bind) simp
      with check r1(1) True show ?thesis unfolding c by auto
    next
      case False
      have leaf: "render_node c d r = render_leaf kind props (children \<noteq> []) events ?r1"
        using False r1(1) accepted_element(3,4) unfolding c by simp
      show ?thesis
      proof (cases "kind \<in> {''List'', ''Sparkline'', ''Text'', ''Button'', ''Toggle'', ''Progress'', ''Gauge'', ''Badge''}")
        case True
        then have "children = []"
          using leaf_children [OF accepted_element(5,7)] False kind by simp
        with accepted_element(8) kind nodes have "ct_nodes v' = ct_nodes ?v1" by simp
        moreover have "props_bound (slot_typed st) props"
          using validated_props_bound [OF accepted_element(5,6)] kind by simp
        ultimately show ?thesis
          unfolding leaf using r1(2-5) by (intro outcome_ok_leaf [OF render_leaf_spec]) simp_all
      next
        case False
        then show ?thesis unfolding leaf by (simp add: render_leaf_unsupported)
      qed
    qed
  qed
qed

section \<open>What is rendered\<close>

definition underscore_free :: "string \<Rightarrow> bool" where
  "underscore_free p \<longleftrightarrow> (\<exists>segs. path_parse p = Ok segs \<and> segs \<noteq> [] \<and> list_all (\<lambda>s. CHR ''_'' \<notin> set s) segs)"

lemma path_parse_inject:
  assumes "path_parse p = Ok (s # ss)" and "path_parse q = Ok (s # ss)"
  shows "p = q"
proof -
  have "\<exists>body. x = ''$.'' @ body \<and> split_on CHR ''.'' body = s # ss" if "path_parse x = Ok (s # ss)" for x
    using that by (auto simp: path_parse_def split: list.splits if_splits)
  with assms obtain a b where "p = ''$.'' @ a" "q = ''$.'' @ b" "split_on CHR ''.'' a = split_on CHR ''.'' b" by metis
  then show ?thesis using split_on_inject by blast
qed

lemma prop_names_inject:
  assumes "underscore_free p" "underscore_free q" and same: "path_prop_name p = path_prop_name q"
  shows "p = q"
proof -
  from assms(1,2) obtain ps qs where ps: "path_parse p = Ok ps" "ps \<noteq> []" "list_all (\<lambda>s. CHR ''_'' \<notin> set s) ps"
    and qs: "path_parse q = Ok qs" "qs \<noteq> []" "list_all (\<lambda>s. CHR ''_'' \<notin> set s) qs"
    by (auto simp: underscore_free_def)
  have nonempty: "join_with ''_'' xs \<noteq> []" if "path_parse x = Ok xs" "xs \<noteq> []" for x xs
  proof -
    have "list_all path_field_ok xs" using that by (auto simp: path_parse_def split: list.splits if_splits)
    with that(2) show ?thesis by (cases "(''_'', xs)" rule: join_with.cases) (auto simp: path_field_ok_def)
  qed
  have "join_with ''_'' ps = join_with ''_'' qs"
    using same nonempty [OF ps(1,2)] nonempty [OF qs(1,2)] by (simp add: path_prop_name_def Let_def ps(1) qs(1))
  then have "ps = qs" using split_join ps(2,3) qs(2,3) by metis
  with ps qs show ?thesis using path_parse_inject by (cases ps) auto
qed

lemma rendered_context:
  assumes "validate_document ir_size doc = Ok ()"
  shows "\<exists>v. outcome_ok (ud_schema doc) v (render_node (ud_root doc) 0 (render_ctx_new doc)) \<and> ct_nodes v \<le> MAX_NODES"
proof -
  from assms obtain minor v where
    walk: "validate_component \<lparr>ue_events = ud_events doc, ue_minor = minor\<rparr> (ud_schema doc) None 1 (ud_root doc)
       \<lparr>ct_nodes = 0, ct_bindings = 0, ct_assets = 0\<rparr> = Ok v"
    by (auto simp: validate_document_def split: if_splits)
  have "in_step (ud_schema doc) \<lparr>ct_nodes = 0, ct_bindings = 0, ct_assets = 0\<rparr> (render_ctx_new doc)"
    by (simp add: in_step_def slots_ok_def render_ctx_new_def)
  from render_validated [OF walk _ this, of 0] validate_component_walked [OF walk] show ?thesis
    by (auto simp: walked_def)
qed

lemma render_component_Ok:
  assumes "render_component ir_size doc = Ok c"
  obtains ctx where "slots_ok (slot_typed (ud_schema doc)) ctx" "length (rx_bindings ctx) \<le> 2 * MAX_NODES"
    "rc_bindings c = map snd (rx_bindings ctx)" "rc_events c = map snd (rx_events ctx)" "validate_document ir_size doc = Ok ()"
proof -
  from assms obtain body ctx where ok: "validate_document ir_size doc = Ok ()"
    and render: "render_node (ud_root doc) 0 (render_ctx_new doc) = Ok (body, ctx)"
    and c: "rc_bindings c = map snd (rx_bindings ctx)" "rc_events c = map snd (rx_events ctx)"
    by (auto simp: render_component_def Let_def)
  from rendered_context [OF ok] render obtain v where "in_step (ud_schema doc) v ctx" "ct_nodes v \<le> MAX_NODES" by auto
  then show thesis using that c ok by (auto simp: in_step_def)
qed

lemma keyed_distinct:
  assumes "bt_wf m" and "\<And>k v. bt_lookup k m = Some v \<Longrightarrow> key v = k"
  shows "distinct (map key (map snd m))"
proof -
  have "map key (map snd m) = map fst m"
    using assms by (auto simp: bt_lookup_in)
  then show ?thesis using bt_wf_distinct [OF assms(1)] by metis
qed

lemma distinct_of_key:
  assumes "distinct (map key xs)" and "\<And>x y. x \<in> set xs \<Longrightarrow> y \<in> set xs \<Longrightarrow> f x = f y \<Longrightarrow> key x = key y"
  shows "distinct (map f xs)"
proof -
  have "inj_on f (set xs)"
    using assms by (auto intro!: inj_onI dest: inj_onD simp: distinct_map)
  with assms(1) show ?thesis by (auto simp: distinct_map)
qed

text \<open>C18: An accepted document is rendered within the budgets: the renderer never reports an exceeded budget and never
  panics, because it counts the nodes the validation counted and registers at most two slots for each.  What it
  returns has at most 512 slots with distinct paths, distinct events with distinct callbacks, and distinct
  properties as long as no field of a path contains an underscore (two paths can share a property otherwise).\<close>

theorem rendering_stays_in_budget:
  assumes "validate_document ir_size doc = Ok ()"
  shows "case render_component ir_size doc of
      Err e \<Rightarrow> e \<noteq> RenderBudget \<and> e \<noteq> RenderPanic
    | Ok c \<Rightarrow> length (rc_bindings c) \<le> 512 \<and> distinct (map bs_path (rc_bindings c))
        \<and> distinct (map es_event (rc_events c)) \<and> distinct (map es_callback (rc_events c))
        \<and> (list_all (underscore_free \<circ> bs_path) (rc_bindings c) \<longrightarrow> distinct (map bs_prop (rc_bindings c)))"
proof (cases "render_component ir_size doc")
  case (Err e)
  from rendered_context [OF assms] obtain v where
    out: "outcome_ok (ud_schema doc) v (render_node (ud_root doc) 0 (render_ctx_new doc))" by blast
  from Err assms have "render_node (ud_root doc) 0 (render_ctx_new doc) = Err e"
    by (auto simp: render_component_def Let_def try_bind_Err_iff)
  with out Err show ?thesis by simp
next
  case (Ok c)
  then obtain ctx where ok: "slots_ok (slot_typed (ud_schema doc)) ctx" and few: "length (rx_bindings ctx) \<le> 2 * MAX_NODES"
    and c: "rc_bindings c = map snd (rx_bindings ctx)" "rc_events c = map snd (rx_events ctx)"
    by (rule render_component_Ok)
  have paths: "distinct (map bs_path (rc_bindings c))"
    unfolding c using ok by (intro keyed_distinct) (auto simp: slots_ok_def)
  have events: "distinct (map es_event (rc_events c))"
    unfolding c using ok by (intro keyed_distinct) (auto simp: slots_ok_def)
  have event_in: "bt_lookup (es_event s) (rx_events ctx) = Some s" if "s \<in> set (rc_events c)" for s
  proof -
    from that obtain e where "(e, s) \<in> set (rx_events ctx)" by (auto simp: c)
    with ok have "bt_lookup e (rx_events ctx) = Some s" by (simp add: slots_ok_def bt_lookup_in)
    with ok show ?thesis by (auto simp: slots_ok_def)
  qed
  have slot_in: "bs_prop s = ''prop_'' @ path_prop_name (bs_path s)" if "s \<in> set (rc_bindings c)" for s
  proof -
    from that obtain p where "(p, s) \<in> set (rx_bindings ctx)" by (auto simp: c)
    with ok have "bt_lookup p (rx_bindings ctx) = Some s" by (simp add: slots_ok_def bt_lookup_in)
    with ok show ?thesis by (auto simp: slots_ok_def)
  qed
  have "distinct (map es_callback (rc_events c))"
  proof (rule distinct_of_key [OF events])
    fix s t assume "s \<in> set (rc_events c)" "t \<in> set (rc_events c)" "es_callback s = es_callback t"
    moreover have "\<forall>e e' s s'. bt_lookup e (rx_events ctx) = Some s \<longrightarrow> bt_lookup e' (rx_events ctx) = Some s' \<longrightarrow>
        es_callback s = es_callback s' \<longrightarrow> e = e'" using ok by (simp add: slots_ok_def)
    ultimately show "es_event s = es_event t" using event_in by blast
  qed
  moreover have "distinct (map bs_prop (rc_bindings c))" if "list_all (underscore_free \<circ> bs_path) (rc_bindings c)"
    using that slot_in prop_names_inject by (intro distinct_of_key [OF paths]) (auto simp: list_all_iff)
  ultimately show ?thesis
    using Ok paths events few by (simp add: c MAX_NODES_def)
qed

text \<open>The value a slot reads from a state.\<close>

definition slot_value :: "binding_slot \<Rightarrow> json \<Rightarrow> json option" where
  "slot_value s state = (case path_parse (bs_path s) of Ok segs \<Rightarrow> json_get state segs | Err e \<Rightarrow> None)"

lemma those_map: "list_all (\<lambda>x. f x \<noteq> None) xs \<Longrightarrow> those (map f xs) \<noteq> None"
  by (induction xs) auto

lemma project_typed_value:
  assumes target: "slot_target ty target" and conf: "conforms target v"
  shows "project_value ty v \<noteq> None \<longleftrightarrow> \<not> (ty = BvString \<and> as_array v \<noteq> None)"
proof (cases ty)
  case BvString
  with target conf show ?thesis
    by (cases target; cases v) (auto simp: slot_target_def project_value_def elim: conforms.cases)
next
  case BvBoolean
  with target conf show ?thesis
    by (cases target; cases v) (auto simp: slot_target_def project_value_def elim: conforms.cases)
next
  case BvNumber
  with target conf show ?thesis
    by (cases target; cases v) (auto simp: slot_target_def project_value_def json_f64_def elim: conforms.cases)
next
  case BvStringList
  have str: "as_str x \<noteq> None" if "case i of SString _ \<Rightarrow> True | _ \<Rightarrow> False" "conforms i x" for i x
    using that by (cases i; cases x) (auto elim: conforms.cases)
  from BvStringList target have "bounded_array_of MAX_LIST_ITEMS (\<lambda>s. case s of SString _ \<Rightarrow> True | _ \<Rightarrow> False) target"
    by (simp add: slot_target_def)
  from bounded_array_conforms [OF this conf, where P = "\<lambda>x. as_str x \<noteq> None"] str obtain xs where
    "v = JArr xs" "length xs \<le> MAX_LIST_ITEMS" "list_all (\<lambda>x. as_str x \<noteq> None) xs" by blast
  with those_map [of as_str xs] BvStringList show ?thesis by (auto simp: project_value_def project_list_def)
next
  case BvNumberList
  have num: "json_f64 x \<noteq> None" if "i = SNumber \<or> i = SInteger" "conforms i x" for i x
    using that by (cases x) (auto simp: json_f64_def elim: conforms.cases)
  from BvNumberList target have "bounded_array_of MAX_CHART_POINTS (\<lambda>s. s = SNumber \<or> s = SInteger) target"
    by (simp add: slot_target_def)
  from bounded_array_conforms [OF this conf, where P = "\<lambda>x. json_f64 x \<noteq> None"] num obtain xs where
    "v = JArr xs" "length xs \<le> MAX_CHART_POINTS" "list_all (\<lambda>x. json_f64 x \<noteq> None) xs" by blast
  with those_map [of json_f64 xs] BvNumberList show ?thesis by (auto simp: project_value_def project_list_def)
qed

text \<open>C19: Which slots are shown: for an accepted and rendered document and any state its schema accepts, the value of a
  slot is projected with the type of the slot if and only if the state has the field, and the slot is not that of the
  array of a ForEach, which the renderer registers as a string and which therefore never projects.\<close>

theorem slots_project_what_the_schema_allows:
  assumes doc: "render_component ir_size doc = Ok c" and slot: "s \<in> set (rc_bindings c)"
    and state: "validate_value (ud_schema doc) state depth = Ok ()"
  shows "(project_binding_value s state \<noteq> None)
    = (slot_value s state \<noteq> None \<and> \<not> (bs_type s = BvString \<and> Option.bind (slot_value s state) as_array \<noteq> None))"
proof -
  from doc obtain ctx where ok: "slots_ok (slot_typed (ud_schema doc)) ctx" and c: "rc_bindings c = map snd (rx_bindings ctx)"
    by (rule render_component_Ok)
  from slot c obtain p where "(p, s) \<in> set (rx_bindings ctx)" by auto
  with ok have "bt_lookup p (rx_bindings ctx) = Some s" by (simp add: slots_ok_def bt_lookup_in)
  with ok have "bs_path s = p" "slot_typed (ud_schema doc) p (bs_type s)" by (auto simp: slots_ok_def)
  then obtain segs target where segs: "path_parse (bs_path s) = Ok segs" "path_resolve (ud_schema doc) segs = Ok target"
    and target: "slot_target (bs_type s) target"
    by (auto simp: slot_typed_def)
  have "conforms (ud_schema doc) state" using state by (simp add: validate_value_iff)
  then have "project_value (bs_type s) v \<noteq> None \<longleftrightarrow> \<not> (bs_type s = BvString \<and> as_array v \<noteq> None)"
    if "json_get state segs = Some v" for v
    using project_typed_value [OF target path_resolve_conforms [OF segs(2) _ that]] by blast
  then show ?thesis
    by (cases "json_get state segs") (auto simp: project_binding_value_def slot_value_def segs)
qed

section \<open>Concrete renderings\<close>

text \<open>The sample document with another key for its ForEach.\<close>

definition keyed_root :: "string \<Rightarrow> ui_component" where
  "keyed_root k = UiComponent ''ForEach'' [] [] [] None None None (Some (StateBinding ''$.zones'')) (Some k)
     (Some (plain_component ''Text'' [(''text'', BindingValue (ItemBinding ''value''))] []))"

lemma keyed_document_valid_at:
  assumes "ir_size (sample_document (keyed_root k)) \<le> MAX_IR_BYTES"
  shows "validate_document ir_size (sample_document (keyed_root k)) = Ok ()"
proof -
  let ?doc = "sample_document (keyed_root k)"
  have "validate_component \<lparr>ue_events = [], ue_minor = 0\<rparr> (ud_schema ?doc) None 1 (keyed_root k)
       \<lparr>ct_nodes = 0, ct_bindings = 0, ct_assets = 0\<rparr> = Ok \<lparr>ct_nodes = 2, ct_bindings = 1, ct_assets = 0\<rparr>"
    using sample_text_valid [of 1 "\<lparr>ct_nodes = 1, ct_bindings = 0, ct_assets = 0\<rparr>"]
    by (simp add: keyed_root_def sample_registry control_def count_node_def MAX_TREE_DEPTH_def MAX_NODES_def sample_items)
  moreover have "ud_api_version ?doc = ''1.0.0''" "ud_events ?doc = []" "ud_root ?doc = keyed_root k"
    "ud_initial ?doc = JObj [(''on'', JBool True), (''zones'', JArr [JStr ''UTC''])]"
    by (simp_all add: sample_document_def)
  ultimately show ?thesis using assms
    by (simp add: validate_document_def sample_version sample_initial_valid sample_schema_depth MAX_EVENT_DECLS_def)
qed

lemma keyed_document_valid: "validate_document (\<lambda>_. 100) (sample_document (keyed_root k)) = Ok ()"
  by (rule keyed_document_valid_at) (simp add: MAX_IR_BYTES_def)

definition zones_slot :: binding_slot where
  "zones_slot = \<lparr>bs_path = ''$.zones'', bs_prop = ''prop_zones'', bs_type = BvString\<rparr>"

definition keyed_source :: "string \<Rightarrow> string" where
  "keyed_source k =
     wrap_component
       (line (''for item['' @ k @ ''] in root.prop_zones: {'')
        @ line ''    Text {'' @ line ''        text: value;'' @ line ''    }'' @ line ''}'') [zones_slot] []"

lemma keyed_document_renders_at:
  assumes "k \<noteq> []" and size: "ir_size (sample_document (keyed_root k)) \<le> MAX_IR_BYTES"
  shows "render_component ir_size (sample_document (keyed_root k))
    = Ok \<lparr>rc_source = keyed_source k, rc_bindings = [zones_slot], rc_events = []\<rparr>"
proof -
  have slot: "path_prop_name ''$.zones'' = ''zones''"
    by (simp add: path_prop_name_def sample_paths)
  have "render_node (keyed_root k) 0 \<lparr>rx_bindings = [], rx_events = [], rx_nodes = 0, rx_callbacks = 0, rx_minor = n\<rparr>
     = Ok (line (''for item['' @ k @ ''] in root.prop_zones: {'')
        @ line ''    Text {'' @ line ''        text: value;'' @ line ''    }'' @ line ''}'',
       \<lparr>rx_bindings = [(''$.zones'', zones_slot)], rx_events = [], rx_nodes = 2, rx_callbacks = 0, rx_minor = n\<rparr>)" for n
    using assms(1)
    by (simp add: keyed_root_def plain_component_def enter_node_def MAX_TREE_DEPTH_def MAX_NODES_def MAX_BINDINGS_def
        is_container_def control_prop_def root_prop_def rd_bind_def rd_return_def binding_slot_for_def sample_paths slot
        zones_slot_def render_leaf_def render_text_def render_string_prop_def text_style_props_def
        string_literal_prop_def number_prop_def item_key_def Let_def)
  moreover have "ud_root (sample_document (keyed_root k)) = keyed_root k" by (simp add: sample_document_def)
  ultimately show ?thesis
    by (simp add: render_component_def keyed_document_valid_at [of ir_size k, OF size] render_ctx_new_def keyed_source_def Let_def)
qed

lemma keyed_document_renders:
  "k \<noteq> [] \<Longrightarrow> render_component (\<lambda>_. 100) (sample_document (keyed_root k))
    = Ok \<lparr>rc_source = keyed_source k, rc_bindings = [zones_slot], rc_events = []\<rparr>"
  by (rule keyed_document_renders_at) (simp_all add: MAX_IR_BYTES_def)

text \<open>Another key for a ForEach.\<close>

definition with_key :: "string \<Rightarrow> ui_component \<Rightarrow> ui_component" where
  "with_key k c = (case c of UiComponent kind props children events w th el items key template \<Rightarrow>
     UiComponent kind props children events w th el items (Some k) template)"

lemma with_key_valid:
  "validate_component env st sc d (with_key k c) cn = validate_component env st sc d (with_key k' c) cn"
proof (cases c)
  case (UiComponent kind props children events w th el items key template)
  have present: "(Some k = None) = False" for k :: string by simp
  show ?thesis unfolding UiComponent with_key_def ui_component.case validate_component.simps present ..
qed

lemma with_key_renders:
  assumes "uc_kind c = ''ForEach''" "k \<noteq> []" "k' \<noteq> []" and run: "render_node (with_key k c) d r = Ok (source, r')"
  shows "\<exists>rest. source = ''for item['' @ k @ rest \<and> render_node (with_key k' c) d r = Ok (''for item['' @ k' @ rest, r')"
proof -
  obtain kind props children events w th el items key template
    where c: "c = UiComponent kind props children events w th el items key template" by (cases c)
  with assms(1) have kind: "kind = ''ForEach''" by simp
  from run obtain r1 p r2 t body where steps: "enter_node d r = Ok ((), r1)" "control_prop items BvString r1 = Ok (p, r2)"
      "template = Some t" "render_node t (Suc d) r2 = Ok (body, r')"
    and source: "source = line (''for item['' @ k @ ''] in '' @ p @ '': {'') @ body @ line ''}''"
    using assms(2) by (auto simp: c kind with_key_def is_container_def item_key_def split: option.splits)
  then show ?thesis using assms(3)
    by (intro exI [of _ "''] in '' @ p @ '': {'' @ [CHR 0x0A] @ body @ line ''}''"])
      (simp add: c kind with_key_def is_container_def item_key_def line_def)
qed

text \<open>C17: The key of a ForEach reaches the source as it is, neither escaped nor checked.  The validation of a ForEach does
  not depend on its key, and whatever the key is, as long as it is not empty, the source of the component has it after
  the same opening text and before the same remaining text, so a key can close the brackets and go on with source of its
  own.  This gets to the compiler: there is a document that is accepted and rendered with every key that is not empty and
  leaves the document within the size limit of 256 KiB, and the compiled source has the key between two fixed texts.\<close>

theorem foreach_key_is_source_text:
  assumes keys: "k \<noteq> []" "k' \<noteq> []" and foreach: "uc_kind c = ''ForEach''"
  shows "validate_component env st sc d (with_key k c) cn = validate_component env st sc d (with_key k' c) cn
    \<and> (\<forall>source r'. render_node (with_key k c) depth r = Ok (source, r') \<longrightarrow>
         (\<exists>rest. source = ''for item['' @ k @ rest \<and> render_node (with_key k' c) depth r = Ok (''for item['' @ k' @ rest, r')))
    \<and> (\<exists>before after. \<forall>ir_size x. x \<noteq> [] \<and> ir_size (sample_document (keyed_root x)) \<le> MAX_IR_BYTES \<longrightarrow>
         validate_document ir_size (sample_document (keyed_root x)) = Ok ()
         \<and> (\<exists>rc. render_component ir_size (sample_document (keyed_root x)) = Ok rc \<and> rc_source rc = before @ x @ after))"
proof (intro conjI allI impI)
  show "validate_component env st sc d (with_key k c) cn = validate_component env st sc d (with_key k' c) cn"
    by (rule with_key_valid)
next
  let ?before = "line generated_notice @ line ''export component ClockPluginUI inherits Rectangle {''
     @ slot_line zones_slot @ line ''    background: transparent;'' @ ''for item[''"
  let ?after = "line ''] in root.prop_zones: {'' @ line ''    Text {'' @ line ''        text: value;'' @ line ''    }'' @ line ''}'' @ line ''}''"
  have "keyed_source k = ?before @ k @ ?after" for k
    by (simp add: keyed_source_def wrap_component_def line_def)
  then show "\<exists>before after. \<forall>ir_size x. x \<noteq> [] \<and> ir_size (sample_document (keyed_root x)) \<le> MAX_IR_BYTES \<longrightarrow>
         validate_document ir_size (sample_document (keyed_root x)) = Ok ()
         \<and> (\<exists>rc. render_component ir_size (sample_document (keyed_root x)) = Ok rc \<and> rc_source rc = before @ x @ after)"
    by (intro exI [of _ ?before] exI [of _ ?after]) (simp add: keyed_document_valid_at keyed_document_renders_at)
qed (rule with_key_renders [OF foreach keys])

lemma sample_keyed: "sample_root = keyed_root ''value''"
  by (simp add: sample_root_def keyed_root_def)

lemma foreach_key_is_source_text_witness:
  "\<exists>before after rc. render_component (\<lambda>_. 100) (sample_document (keyed_root ''a]{}'')) = Ok rc \<and> rc_source rc = before @ ''a]{}'' @ after"
proof -
  have keys: "''value'' \<noteq> []" "''a]{}'' \<noteq> []" and kind: "uc_kind (keyed_root ''value'') = ''ForEach''"
    by (simp_all add: keyed_root_def)
  obtain before after where "\<forall>ir_size x. x \<noteq> [] \<and> ir_size (sample_document (keyed_root x)) \<le> MAX_IR_BYTES \<longrightarrow>
      validate_document ir_size (sample_document (keyed_root x)) = Ok ()
      \<and> (\<exists>rc. render_component ir_size (sample_document (keyed_root x)) = Ok rc \<and> rc_source rc = before @ x @ after)"
    using foreach_key_is_source_text [OF keys kind] by blast
  from this [rule_format, of "''a]{}''" "\<lambda>_. 100"] show ?thesis by (auto simp: MAX_IR_BYTES_def)
qed

lemma rendering_stays_in_budget_witness:
  "\<exists>c. render_component (\<lambda>_. 100) (sample_document sample_root) = Ok c \<and> length (rc_bindings c) \<le> 512
     \<and> distinct (map bs_path (rc_bindings c))"
  using rendering_stays_in_budget [OF sample_document_valid] keyed_document_renders [of "''value''"]
  by (simp add: sample_keyed)

lemma slots_project_what_the_schema_allows_witness:
  "project_binding_value zones_slot (JObj [(''on'', JBool True), (''zones'', JArr [JStr ''UTC''])]) = None"
proof -
  let ?state = "JObj [(''on'', JBool True), (''zones'', JArr [JStr ''UTC''])]"
  have render: "render_component (\<lambda>_. 100) (sample_document (keyed_root ''value''))
      = Ok \<lparr>rc_source = keyed_source ''value'', rc_bindings = [zones_slot], rc_events = []\<rparr>"
    by (simp add: keyed_document_renders)
  have "slot_value zones_slot ?state = Some (JArr [JStr ''UTC''])"
    by (simp add: slot_value_def zones_slot_def sample_paths)
  with slots_project_what_the_schema_allows [OF render _ sample_initial_valid, of zones_slot] show ?thesis
    by (simp add: zones_slot_def)
qed

end
