(* ===== verification/Ui_Session.thy ===== *)
theory Ui_Session
  imports Instance_Commands Actor Renderer "HOL-Library.Sublist"
begin

text \<open>
  The window of a running plugin, \<open>floatile-shell/src/runtime_ui.rs\<close>: the user interface of an installed plugin
  is read, checked, rendered and compiled, a worker runs the plugin, brings its states to the window and the user's
  events to the plugin, and reports to the supervisor what becomes of it.

  The window's thread and the worker are two processes with a bounded queue and a counter between them.  A
  \<open>session_action\<close> is one step of either: a callback of the window, or the worker's next step with what it is
  told at that moment.  The compiler of the generated source and the widgets are parameters (\<open>ui_env\<close>), the detail
  texts of the errors are left out.
\<close>

section \<open>From the package to the runtime\<close>

datatype runtime_ui_error =
    RuiIrTooLarge nat
  | RuiParse
  | RuiInvalidIr ui_error
  | RuiRender render_error
  | RuiCompile
  | RuiMissingComponent
  | RuiInstantiate
  | RuiProjection
  | RuiCallback
  | RuiGrant capability_error
  | RuiInstanceIdentity
  | RuiRuntime

fun runtime_ui_error_code :: "runtime_ui_error \<Rightarrow> string" where
  "runtime_ui_error_code (RuiIrTooLarge n) = ''RUI_IR_TOO_LARGE''"
| "runtime_ui_error_code RuiParse = ''RUI_PARSE''"
| "runtime_ui_error_code (RuiInvalidIr e) = ''RUI_INVALID_IR''"
| "runtime_ui_error_code (RuiRender e) = ''RUI_RENDER''"
| "runtime_ui_error_code RuiCompile = ''RUI_COMPILE''"
| "runtime_ui_error_code RuiMissingComponent = ''RUI_MISSING_COMPONENT''"
| "runtime_ui_error_code RuiInstantiate = ''RUI_INSTANTIATE''"
| "runtime_ui_error_code RuiProjection = ''RUI_PROJECTION''"
| "runtime_ui_error_code RuiCallback = ''RUI_CALLBACK''"
| "runtime_ui_error_code (RuiGrant e) = ''RUI_GRANT''"
| "runtime_ui_error_code RuiInstanceIdentity = ''RUI_INSTANCE_IDENTITY''"
| "runtime_ui_error_code RuiRuntime = ''RUI_RUNTIME''"

text \<open>What the compiler of Slint answers to a source, and the other third-party code.\<close>

datatype compile_outcome = CompileFails | ComponentMissing | Compiled

record ui_env =
  un_read :: "bytes \<Rightarrow> ui_document option"
  un_size :: "ui_document \<Rightarrow> nat"
  un_threads :: bool
  un_compile :: "string \<Rightarrow> compile_outcome"
  un_create :: bool
  un_callback :: "string \<Rightarrow> bool"

definition parse_document :: "ui_env \<Rightarrow> bytes \<Rightarrow> (ui_document, runtime_ui_error) result" where
  "parse_document env ui_bytes =
     (if MAX_IR_BYTES < length ui_bytes then Err (RuiIrTooLarge (length ui_bytes))
      else try_bind (ok_or RuiParse (un_read env ui_bytes)) (\<lambda>doc.
           try_bind (map_err RuiInvalidIr (validate_document (un_size env) doc)) (\<lambda>_. Ok doc)))"

definition render_ftui :: "ui_env \<Rightarrow> bytes \<Rightarrow> (rendered_component, runtime_ui_error) result" where
  "render_ftui env ui_bytes =
     try_bind (parse_document env ui_bytes) (\<lambda>doc. map_err RuiRender (render_component (un_size env) doc))"

record prepared_ui =
  pu_rendered :: rendered_component
  pu_initial_state :: json
  pu_state_schema :: json_schema

definition prepare_runtime_ui :: "ui_env \<Rightarrow> bytes \<Rightarrow> (prepared_ui, runtime_ui_error) result" where
  "prepare_runtime_ui env ui_bytes =
     (if \<not> un_threads env then Err RuiRuntime
      else try_bind (parse_document env ui_bytes) (\<lambda>doc.
           try_bind (map_err RuiRender (render_component (un_size env) doc)) (\<lambda>rendered.
           Ok \<lparr>pu_rendered = rendered, pu_initial_state = ud_initial doc, pu_state_schema = ud_schema doc\<rparr>)))"

definition compile_component :: "ui_env \<Rightarrow> rendered_component \<Rightarrow> (unit, runtime_ui_error) result" where
  "compile_component env rendered =
     (case un_compile env (rc_source rendered) of
        CompileFails \<Rightarrow> Err RuiCompile
      | ComponentMissing \<Rightarrow> Err RuiMissingComponent
      | Compiled \<Rightarrow> Ok ())"

definition register_events :: "ui_env \<Rightarrow> event_slot list \<Rightarrow> (unit, runtime_ui_error) result" where
  "register_events env slots = (if list_all (\<lambda>s. un_callback env (es_callback s)) slots then Ok () else Err RuiCallback)"

definition validate_runtime_instance ::
  "'v plugin_env \<Rightarrow> installed_plugin \<Rightarrow> plugin_instance \<Rightarrow> (u64 \<times> u64 \<times> string, runtime_ui_error) result"
where
  "validate_runtime_instance env plugin p =
     try_bind (map_err (\<lambda>_. RuiInstanceIdentity) (installation_ref_from_meta (il_semver (pe_lib env)) (pl_meta plugin))) (\<lambda>r.
     if r \<noteq> pi_installation p then Err RuiInstanceIdentity
     else Ok (pi_id p, pi_generation p, sl_json_text (pe_store_lib env) (JObj (pi_config p))))"

text \<open>What the window and the worker are given.\<close>

record session_config =
  sc_widget :: widget_config
  sc_bindings :: "binding_slot list"
  sc_events :: "event_slot list"

definition spawn_runtime_ui ::
  "'v plugin_env \<Rightarrow> ui_env \<Rightarrow> installed_plugin \<Rightarrow> plugin_instance \<Rightarrow> (session_config, runtime_ui_error) result"
where
  "spawn_runtime_ui env uenv plugin p =
     try_bind (validate_runtime_instance env plugin p) (\<lambda>(iid, generation, config).
     try_bind (prepare_runtime_ui uenv (pl_ui_bytes plugin)) (\<lambda>prepared.
     try_bind (compile_component uenv (pu_rendered prepared)) (\<lambda>_.
     try_bind (if un_create uenv then Ok () else Err RuiInstantiate) (\<lambda>_.
     try_bind (register_events uenv (rc_events (pu_rendered prepared))) (\<lambda>_.
     try_bind (map_err RuiGrant (manifest_grants (pl_manifest plugin) iid)) (\<lambda>grants.
     if un_threads uenv
     then Ok \<lparr>sc_widget =
                \<lparr>wc_plugin = mf_id (pl_manifest plugin), wc_instance = iid, wc_generation = generation,
                 wc_wasm = pl_wasm plugin, wc_initial_state = pu_initial_state prepared,
                 wc_state_schema = pu_state_schema prepared, wc_config_json = config, wc_grants = grants\<rparr>,
              sc_bindings = rc_bindings (pu_rendered prepared), sc_events = rc_events (pu_rendered prepared)\<rparr>
     else Err RuiRuntime))))))"

section \<open>The callbacks of the window\<close>

text \<open>\<open>slint_interpreter::Value\<close>; the other values come with their debug text.\<close>

datatype ui_value = UiString string | UiNumber ieee | UiBool bool | UiVoid | UiOther string

definition serialize_callback_args :: "ui_value list \<Rightarrow> json list" where
  "serialize_callback_args =
     map (\<lambda>v. case v of
                UiString s \<Rightarrow> JStr s
              | UiNumber x \<Rightarrow> (case json_of_f64 x of None \<Rightarrow> JNull | Some n \<Rightarrow> n)
              | UiBool b \<Rightarrow> JBool b
              | UiVoid \<Rightarrow> JNull
              | UiOther s \<Rightarrow> JStr s)"

definition EVENT_QUEUE_CAPACITY :: nat where "EVENT_QUEUE_CAPACITY = 64"
definition EVENT_BATCH_SIZE :: nat where "EVENT_BATCH_SIZE = 8"

datatype event_enqueue_outcome = Enqueued | DroppedFull | QueueClosed

text \<open>The queue from the callbacks to the worker, the counter of what did not fit, and whether the worker still
  holds the receiver.\<close>

record event_bridge =
  eb_queue :: "(string \<times> string) list"
  eb_dropped :: u64
  eb_open :: bool

definition bridge_try_send :: "string \<Rightarrow> string \<Rightarrow> event_bridge \<Rightarrow> event_enqueue_outcome \<times> event_bridge" where
  "bridge_try_send name payload b =
     (if \<not> eb_open b then (QueueClosed, b)
      else if EVENT_QUEUE_CAPACITY \<le> length (eb_queue b) then (DroppedFull, b\<lparr>eb_dropped := eb_dropped b + 1\<rparr>)
      else (Enqueued, b\<lparr>eb_queue := eb_queue b @ [(name, payload)]\<rparr>))"

record overload_audit =
  oa_plugin :: string
  oa_instance :: u64
  oa_capability :: string
  oa_decision :: string
  oa_reason :: string
  oa_detail :: string

definition flush_event_overload_audit ::
  "string \<Rightarrow> u64 \<Rightarrow> event_bridge \<Rightarrow> overload_audit option \<times> event_bridge"
where
  "flush_event_overload_audit plugin inst b =
     (let count = eb_dropped b; b' = b\<lparr>eb_dropped := 0\<rparr>
      in if count = 0 then (None, b')
         else (Some \<lparr>oa_plugin = plugin, oa_instance = inst, oa_capability = ''ui:event-queue'', oa_decision = ''deny'',
                     oa_reason = ''QueueFull'', oa_detail = ''dropped='' @ decimal (unat count)\<rparr>, b'))"

section \<open>The worker\<close>

text \<open>Where the worker is in its loop: \<open>Forwarding n\<close> may forward \<open>n\<close> more events in this round.\<close>

datatype session_phase = Flushing | Polling | Forwarding nat | Awaiting | FinalFlush | Closing | Ended

text \<open>What the worker is told at a step: what the wait for a state gives, and whether the event loop of the window takes the
  projection.\<close>

datatype received_update = NoUpdate | UpdatesClosed | StateUpdate json

record worker_input =
  wi_update :: received_update
  wi_window :: bool

text \<open>\<open>us_forwarded\<close> are the events handed to the plugin (an error of the plugin is only logged), \<open>us_audits\<close> the records
  written, \<open>us_shown\<close> the properties set, \<open>us_lifecycle\<close> the content of the channel to the supervisor, all in order.
  \<open>us_dropped\<close> says that the supervisor has dropped the \<open>RuntimeUiSession\<close>: a stop is waiting for the worker, and the
  receiver of the reports is gone.  \<open>us_shutdown\<close> says that the plugin has been shut down.\<close>

record ui_session =
  us_bridge :: event_bridge
  us_phase :: session_phase
  us_dropped :: bool
  us_shutdown :: bool
  us_stopped_by_host :: bool
  us_failure :: "string option"
  us_forwarded :: "(string \<times> string) list"
  us_audits :: "overload_audit list"
  us_shown :: "(string \<times> projected_value) list list"
  us_lifecycle :: "lifecycle_event list"

definition LIFECYCLE_CAPACITY :: nat where "LIFECYCLE_CAPACITY = 4"

text \<open>\<open>try_send\<close> on the channel of the lifecycle: a full channel and one without a receiver lose the report.\<close>

definition report :: "lifecycle_event \<Rightarrow> ui_session \<Rightarrow> ui_session" where
  "report e s =
     (if us_dropped s \<or> LIFECYCLE_CAPACITY \<le> length (us_lifecycle s) then s
      else s\<lparr>us_lifecycle := us_lifecycle s @ [e]\<rparr>)"

definition flush_audit :: "session_config \<Rightarrow> ui_session \<Rightarrow> ui_session" where
  "flush_audit c s =
     (case flush_event_overload_audit (wc_plugin (sc_widget c)) (wc_instance (sc_widget c)) (us_bridge s) of
        (record, b) \<Rightarrow> s\<lparr>us_bridge := b, us_audits := us_audits s @ (case record of None \<Rightarrow> [] | Some r \<Rightarrow> [r])\<rparr>)"

text \<open>The slots of a state that can be projected; the others are logged and left as they are.\<close>

definition projections :: "binding_slot list \<Rightarrow> json \<Rightarrow> (string \<times> projected_value) list" where
  "projections slots state = List.map_filter (\<lambda>slot. map_option (Pair (bs_prop slot)) (project_binding_value slot state)) slots"

definition receive_update :: "session_config \<Rightarrow> worker_input \<Rightarrow> ui_session \<Rightarrow> ui_session" where
  "receive_update c i s =
     (case wi_update i of
        NoUpdate \<Rightarrow> s\<lparr>us_phase := Flushing\<rparr>
      | UpdatesClosed \<Rightarrow> s\<lparr>us_failure := Some ''RUI_RUNTIME_CLOSED'', us_phase := FinalFlush\<rparr>
      | StateUpdate state \<Rightarrow>
          (let ps = projections (sc_bindings c) state
           in if ps = [] then s\<lparr>us_phase := Flushing\<rparr>
              else if wi_window i then s\<lparr>us_shown := us_shown s @ [ps], us_phase := Flushing\<rparr>
              else s\<lparr>us_failure := Some ''RUI_UI_CLOSED'', us_phase := FinalFlush\<rparr>))"

definition terminal_event :: "ui_session \<Rightarrow> lifecycle_event" where
  "terminal_event s =
     (case us_failure s of
        Some code \<Rightarrow> LifeFailed code
      | None \<Rightarrow> if us_stopped_by_host s then LifeStopped else LifeFailed ''RUI_RUNTIME_CLOSED'')"

definition worker_step :: "session_config \<Rightarrow> worker_input \<Rightarrow> ui_session \<Rightarrow> ui_session" where
  "worker_step c i s =
     (case us_phase s of
        Flushing \<Rightarrow> (flush_audit c s)\<lparr>us_phase := Polling\<rparr>
      | Polling \<Rightarrow>
          if us_dropped s then s\<lparr>us_stopped_by_host := True, us_phase := FinalFlush\<rparr>
          else s\<lparr>us_phase := Forwarding EVENT_BATCH_SIZE\<rparr>
      | Forwarding n \<Rightarrow>
          (case (n, eb_queue (us_bridge s)) of
             (Suc m, e # es) \<Rightarrow>
               s\<lparr>us_bridge := (us_bridge s)\<lparr>eb_queue := es\<rparr>, us_forwarded := us_forwarded s @ [e], us_phase := Forwarding m\<rparr>
           | _ \<Rightarrow> s\<lparr>us_phase := Awaiting\<rparr>)
      | Awaiting \<Rightarrow> receive_update c i s
      | FinalFlush \<Rightarrow> (flush_audit c s)\<lparr>us_phase := Closing\<rparr>
      | Closing \<Rightarrow> (report (terminal_event s) s)\<lparr>us_shutdown := True, us_bridge := (us_bridge s)\<lparr>eb_open := False\<rparr>, us_phase := Ended\<rparr>
      | Ended \<Rightarrow> s)"

text \<open>The start of the worker: the runtime, the manager, the plugin and its first call can fail.\<close>

datatype worker_start = WorkerFails | WorkerRuns

definition session_start :: "worker_start \<Rightarrow> ui_session" where
  "session_start outcome =
     (let s = \<lparr>us_bridge = \<lparr>eb_queue = [], eb_dropped = 0, eb_open = True\<rparr>, us_phase = Flushing, us_dropped = False, us_shutdown = False, us_stopped_by_host = False,
               us_failure = None, us_forwarded = [], us_audits = [], us_shown = [], us_lifecycle = []\<rparr>
      in case outcome of
           WorkerRuns \<Rightarrow> report LifeRunning s
         | WorkerFails \<Rightarrow> (report (LifeFailed ''RUI_RUNTIME'') s)\<lparr>us_bridge := (us_bridge s)\<lparr>eb_open := False\<rparr>, us_phase := Ended\<rparr>)"

text \<open>A callback of the window runs the sink of its event with the arguments as a JSON text.  The supervisor stops a plugin
  by dropping its session: a stop is sent, and then the channel of the reports goes with what is in it.\<close>

datatype session_action =
    WindowCallback string string
  | WorkerStep worker_input
  | DropSession

definition session_step :: "session_config \<Rightarrow> session_action \<Rightarrow> ui_session \<Rightarrow> ui_session" where
  "session_step c a s =
     (case a of
        WindowCallback name payload \<Rightarrow> s\<lparr>us_bridge := snd (bridge_try_send name payload (us_bridge s))\<rparr>
      | WorkerStep i \<Rightarrow> worker_step c i s
      | DropSession \<Rightarrow> s\<lparr>us_dropped := True, us_lifecycle := []\<rparr>)"

definition session_run :: "session_config \<Rightarrow> session_action list \<Rightarrow> ui_session \<Rightarrow> ui_session" where
  "session_run c actions s = fold (session_step c) actions s"

text \<open>The event of a callback, as the window registers it: the last slot with its name.\<close>

definition callback_event :: "event_slot list \<Rightarrow> (json \<Rightarrow> string) \<Rightarrow> string \<Rightarrow> ui_value list \<Rightarrow> session_action option" where
  "callback_event slots text callback args =
     map_option (\<lambda>slot. WindowCallback (es_event slot) (text (JArr (serialize_callback_args args))))
       (find (\<lambda>slot. es_callback slot = callback) (rev slots))"

text \<open>The supervisor takes the oldest report.\<close>

definition try_lifecycle_event :: "ui_session \<Rightarrow> lifecycle_event option \<times> ui_session" where
  "try_lifecycle_event s =
     (case us_lifecycle s of [] \<Rightarrow> (None, s) | e # es \<Rightarrow> (Some e, s\<lparr>us_lifecycle := es\<rparr>))"

section \<open>No event is lost without a record\<close>

text \<open>The events the window has sent, and the number a record gives.\<close>

definition offered :: "session_action list \<Rightarrow> (string \<times> string) list" where
  "offered = List.map_filter (\<lambda>a. case a of WindowCallback name payload \<Rightarrow> Some (name, payload) | _ \<Rightarrow> None)"

definition drops_of :: "overload_audit \<Rightarrow> nat" where
  "drops_of r = (case digits_value 0 (drop 8 (oa_detail r)) of Some n \<Rightarrow> n | None \<Rightarrow> 0)"

lemma offered_simps [simp]:
  "offered [] = []" "offered (WindowCallback name payload # as) = (name, payload) # offered as"
  "offered (WorkerStep i # as) = offered as" "offered (DropSession # as) = offered as" "offered (as @ bs) = offered as @ offered bs"
  by (simp_all add: offered_def map_filter_def)

lemma offered_length: "length (offered actions) \<le> length actions"
proof (induction actions)
  case (Cons a actions)
  then show ?case by (cases a) simp_all
qed simp

definition accounted :: "(string \<times> string) list \<Rightarrow> ui_session \<Rightarrow> bool" where
  "accounted xs s \<longleftrightarrow>
     subseq (us_forwarded s @ eb_queue (us_bridge s)) xs \<and> length (eb_queue (us_bridge s)) \<le> EVENT_QUEUE_CAPACITY
     \<and> length xs = length (us_forwarded s) + length (eb_queue (us_bridge s)) + unat (eb_dropped (us_bridge s))
         + sum_list (map drops_of (us_audits s))"

lemma flush_accounted: "accounted xs s \<Longrightarrow> accounted xs (flush_audit c s)"
  by (simp add: accounted_def flush_audit_def flush_event_overload_audit_def Let_def drops_of_def digits_value_decimal)

lemma worker_accounted: "accounted xs s \<Longrightarrow> accounted xs (worker_step c i s)"
  using flush_accounted [of xs s c]
  by (auto simp: worker_step_def receive_update_def report_def Let_def accounted_def
      split: session_phase.split nat.split list.split received_update.split)

lemma callback_accounted:
  assumes s: "accounted xs s" "eb_open (us_bridge s)" and few: "Suc (length xs) < 2 ^ 64"
  shows "accounted (xs @ [(name, payload)]) (s\<lparr>us_bridge := snd (bridge_try_send name payload (us_bridge s))\<rparr>)"
proof -
  let ?old = "us_forwarded s @ eb_queue (us_bridge s)"
  have "unat (eb_dropped (us_bridge s)) \<le> length xs" using s(1) by (simp add: accounted_def)
  from seq_next [OF this few] have drop: "unat (eb_dropped (us_bridge s) + 1) = Suc (unat (eb_dropped (us_bridge s)))" by simp
  have "subseq ?old xs" using s(1) by (simp add: accounted_def)
  then have "subseq (?old @ [(name, payload)]) (xs @ [(name, payload)])" "subseq (?old @ []) (xs @ [(name, payload)])"
    by (intro list_emb_append_mono; simp)+
  with s drop show ?thesis by (auto simp: accounted_def bridge_try_send_def)
qed

text \<open>C24: What the user does in the window reaches the plugin in order or is on record: as long as the worker holds
  the queue, the events given to the plugin and those waiting are, in this order, some of the events the window has
  sent, never more than 64 are waiting, and the others are counted exactly, by the counter and by the audit records
  the worker has written.  An event that the plugin answers with an error counts as given, and the run has fewer than
  \<open>2 ^ 64\<close> steps.\<close>

theorem events_are_forwarded_or_recorded:
  assumes "eb_open (us_bridge (session_run c actions (session_start start)))" and "length actions < 2 ^ 64"
  shows "subseq (us_forwarded (session_run c actions (session_start start))
      @ eb_queue (us_bridge (session_run c actions (session_start start)))) (offered actions)
    \<and> length (eb_queue (us_bridge (session_run c actions (session_start start)))) \<le> EVENT_QUEUE_CAPACITY
    \<and> length (offered actions)
      = length (us_forwarded (session_run c actions (session_start start)))
        + length (eb_queue (us_bridge (session_run c actions (session_start start))))
        + unat (eb_dropped (us_bridge (session_run c actions (session_start start))))
        + sum_list (map drops_of (us_audits (session_run c actions (session_start start))))"
proof -
  have "accounted (offered actions) (session_run c actions (session_start start))"
    using assms
  proof (induction actions rule: rev_induct)
    case Nil
    then show ?case
      by (simp add: session_run_def accounted_def session_start_def report_def EVENT_QUEUE_CAPACITY_def Let_def split: worker_start.split)
  next
    case (snoc a actions)
    let ?s = "session_run c actions (session_start start)"
    have run: "session_run c (actions @ [a]) (session_start start) = session_step c a ?s" for a by (simp add: session_run_def)
    have still: "eb_open (us_bridge ?s)"
      using snoc.prems(1) unfolding run
      by (auto simp: session_step_def worker_step_def receive_update_def report_def flush_audit_def flush_event_overload_audit_def
          bridge_try_send_def Let_def split: session_action.splits session_phase.splits nat.splits list.splits
          received_update.splits if_splits)
    with snoc have IH: "accounted (offered actions) ?s" by simp
    from snoc.prems(2) offered_length [of actions] have few: "Suc (length (offered actions)) < 2 ^ 64" by simp
    show ?case
    proof (cases a)
      case (WindowCallback name payload)
      with callback_accounted [OF IH still few, of name payload] show ?thesis by (simp add: run session_step_def)
    next
      case (WorkerStep i)
      with worker_accounted [OF IH, of c i] show ?thesis by (simp add: run session_step_def)
    next
      case DropSession
      with IH show ?thesis by (simp add: run session_step_def accounted_def)
    qed
  qed
  then show ?thesis by (simp add: accounted_def)
qed

section \<open>A stop is obeyed\<close>

text \<open>The steps left to the worker once a stop is waiting.\<close>

fun steps_left :: "session_phase \<Rightarrow> nat" where
  "steps_left Ended = 0"
| "steps_left Closing = 1"
| "steps_left FinalFlush = 2"
| "steps_left Polling = 3"
| "steps_left Flushing = 4"
| "steps_left Awaiting = 5"
| "steps_left (Forwarding n) = n + 6"

text \<open>The reports follow from the state.\<close>

definition final_phase :: "session_phase \<Rightarrow> bool" where
  "final_phase p \<longleftrightarrow> p \<in> {FinalFlush, Closing, Ended}"

definition reported :: "ui_session \<Rightarrow> bool" where
  "reported s \<longleftrightarrow>
     us_lifecycle s = (if us_dropped s then [] else if us_phase s = Ended then [LifeRunning, terminal_event s] else [LifeRunning])
     \<and> (final_phase (us_phase s) \<or> (us_failure s = None \<and> \<not> us_stopped_by_host s))
     \<and> (final_phase (us_phase s) \<longrightarrow> (us_failure s = None) = us_stopped_by_host s)
     \<and> (us_stopped_by_host s \<longrightarrow> us_dropped s)
     \<and> us_failure s \<in> {None, Some ''RUI_RUNTIME_CLOSED'', Some ''RUI_UI_CLOSED''}
     \<and> us_shutdown s = (us_phase s = Ended) \<and> eb_open (us_bridge s) = (us_phase s \<noteq> Ended)
     \<and> (case us_phase s of Forwarding n \<Rightarrow> n \<le> EVENT_BATCH_SIZE | _ \<Rightarrow> True)"

lemma reported_start: "reported (session_start WorkerRuns)"
  by (simp add: reported_def final_phase_def session_start_def report_def LIFECYCLE_CAPACITY_def Let_def)

lemma reported_step: "reported s \<Longrightarrow> reported (session_step c a s)"
  by (cases "us_phase s"; cases a)
    (auto simp: reported_def final_phase_def session_step_def worker_step_def receive_update_def report_def flush_audit_def terminal_event_def
      flush_event_overload_audit_def bridge_try_send_def LIFECYCLE_CAPACITY_def EVENT_BATCH_SIZE_def Let_def
      split: nat.split list.split received_update.split prod.split option.split)

lemma reported_run: "reported s \<Longrightarrow> reported (session_run c actions s)"
  by (induction actions arbitrary: s) (simp_all add: session_run_def reported_step)

definition worker_steps :: "session_action list \<Rightarrow> worker_input list" where
  "worker_steps = List.map_filter (\<lambda>a. case a of WorkerStep i \<Rightarrow> Some i | _ \<Rightarrow> None)"

lemma worker_steps_simps [simp]:
  "worker_steps [] = []" "worker_steps (WindowCallback name payload # as) = worker_steps as"
  "worker_steps (WorkerStep i # as) = i # worker_steps as" "worker_steps (DropSession # as) = worker_steps as"
  by (simp_all add: worker_steps_def map_filter_def)

text \<open>Only the supervisor drops the session, once and for all.\<close>

lemma session_step_dropped: "us_dropped (session_step c a s) = (us_dropped s \<or> a = DropSession)"
  by (cases a; cases "us_phase s")
    (auto simp: session_step_def worker_step_def receive_update_def report_def flush_audit_def Let_def
      split: nat.split list.split received_update.split prod.split)

lemma session_run_dropped: "us_dropped (session_run c actions s) = (us_dropped s \<or> DropSession \<in> set actions)"
  by (induction actions arbitrary: s) (auto simp: session_run_def session_step_dropped)

lemma step_left:
  "us_dropped s \<Longrightarrow> steps_left (us_phase (worker_step c i s)) \<le> steps_left (us_phase s) - 1"
  by (cases "us_phase s")
    (auto simp: worker_step_def receive_update_def report_def flush_audit_def Let_def
      split: nat.split list.split received_update.split prod.split)

lemma run_left:
  "us_dropped s \<Longrightarrow> steps_left (us_phase (session_run c actions s)) \<le> steps_left (us_phase s) - length (worker_steps actions)"
proof (induction actions arbitrary: s)
  case (Cons a actions)
  have run: "session_run c (a # actions) s = session_run c actions (session_step c a s)" for a by (simp add: session_run_def)
  from Cons.prems have "us_dropped (session_step c a s)" by (simp add: session_step_dropped)
  note IH = Cons.IH [OF this]
  show ?case
  proof (cases a)
    case (WorkerStep i)
    with IH step_left [OF Cons.prems, of c i] show ?thesis by (simp add: run session_step_def)
  qed (use IH in \<open>simp_all add: run session_step_def\<close>)
qed (simp add: session_run_def)

text \<open>C23: Dropping the session, which is how the supervisor stops a plugin, ends the worker within a bounded number of its
  steps, whatever the plugin and the window do meanwhile: after any history, 14 steps of the worker are enough.  The
  plugin has then been shut down and its queue of events is closed.  Nobody is told: the channel of the reports is gone
  with the session, so the event \<open>Stopped\<close> reaches no one.  Until the session is dropped, the supervisor has been told
  that the plugin runs and, exactly when the worker has ended by itself, which of its states or its window ended first.\<close>

theorem stop_ends_session:
  assumes "EVENT_BATCH_SIZE + 6 \<le> length (worker_steps actions)"
  shows "us_phase (session_run c (history @ DropSession # actions) (session_start WorkerRuns)) = Ended
    \<and> us_shutdown (session_run c (history @ DropSession # actions) (session_start WorkerRuns))
    \<and> \<not> eb_open (us_bridge (session_run c (history @ DropSession # actions) (session_start WorkerRuns)))
    \<and> us_lifecycle (session_run c (history @ DropSession # actions) (session_start WorkerRuns)) = []
    \<and> (DropSession \<notin> set history \<longrightarrow>
        (if us_phase (session_run c history (session_start WorkerRuns)) = Ended
         then us_lifecycle (session_run c history (session_start WorkerRuns))
           \<in> {[LifeRunning, LifeFailed ''RUI_RUNTIME_CLOSED''], [LifeRunning, LifeFailed ''RUI_UI_CLOSED'']}
         else us_lifecycle (session_run c history (session_start WorkerRuns)) = [LifeRunning]))"
proof -
  let ?h = "session_run c history (session_start WorkerRuns)"
  let ?s = "session_step c DropSession ?h" and ?t = "session_run c (history @ DropSession # actions) (session_start WorkerRuns)"
  have t: "?t = session_run c actions ?s" by (simp add: session_run_def)
  have r: "reported ?h" "reported ?s" "reported ?t" by (intro reported_step reported_run reported_start)+
  have "steps_left (us_phase ?s) \<le> EVENT_BATCH_SIZE + 6"
    using r(2) by (cases "us_phase ?s") (auto simp: reported_def)
  moreover have "us_dropped ?s" by (simp add: session_step_dropped)
  ultimately have "steps_left (us_phase ?t) = 0" using run_left [of ?s c actions] assms by (simp add: t)
  then have ended: "us_phase ?t = Ended" by (cases "us_phase ?t") auto
  have "us_dropped ?t" by (simp add: session_run_dropped)
  with ended r(3) have "us_shutdown ?t" "\<not> eb_open (us_bridge ?t)" "us_lifecycle ?t = []" by (simp_all add: reported_def)
  moreover have "if us_phase ?h = Ended
      then us_lifecycle ?h \<in> {[LifeRunning, LifeFailed ''RUI_RUNTIME_CLOSED''], [LifeRunning, LifeFailed ''RUI_UI_CLOSED'']}
      else us_lifecycle ?h = [LifeRunning]" if "DropSession \<notin> set history"
  proof -
    have "\<not> us_dropped ?h" using that by (simp add: session_run_dropped session_start_def report_def Let_def)
    with r(1) show ?thesis by (auto simp: reported_def final_phase_def terminal_event_def)
  qed
  ultimately show ?thesis using ended by blast
qed

section \<open>What is loaded is what runs\<close>

lemma parse_document_Ok:
  "parse_document env b = Ok doc \<longleftrightarrow>
     length b \<le> MAX_IR_BYTES \<and> un_read env b = Some doc \<and> validate_document (un_size env) doc = Ok ()"
  by (auto simp: parse_document_def map_err_Ok_iff)

lemma compile_component_Ok: "compile_component env r = Ok u \<longleftrightarrow> un_compile env (rc_source r) = Compiled"
  by (simp add: compile_component_def split: compile_outcome.split)

lemma prepare_runtime_ui_Ok:
  "prepare_runtime_ui env b = Ok u \<Longrightarrow> validate_value (pu_state_schema u) (pu_initial_state u) 0 = Ok ()"
  by (auto simp: prepare_runtime_ui_def parse_document_Ok validate_document_def map_err_Ok_iff split: if_splits)

lemma spawn_runtime_ui_Ok:
  assumes "spawn_runtime_ui env uenv plugin p = Ok c"
  obtains prepared where "validate_runtime_instance env plugin p
      = Ok (wc_instance (sc_widget c), wc_generation (sc_widget c), wc_config_json (sc_widget c))"
    "prepare_runtime_ui uenv (pl_ui_bytes plugin) = Ok prepared"
    "manifest_grants (pl_manifest plugin) (wc_instance (sc_widget c)) = Ok (wc_grants (sc_widget c))"
    "wc_plugin (sc_widget c) = mf_id (pl_manifest plugin)" "wc_wasm (sc_widget c) = pl_wasm plugin"
    "wc_initial_state (sc_widget c) = pu_initial_state prepared" "wc_state_schema (sc_widget c) = pu_state_schema prepared"
  using assms by (auto simp: spawn_runtime_ui_def map_err_Ok_iff split: if_splits)

lemma spawn_identity:
  assumes "validate_runtime_instance env plugin p = Ok x"
  shows "spawn_runtime_ui env uenv plugin p \<noteq> Err RuiInstanceIdentity"
proof -
  have "prepare_runtime_ui uenv b \<noteq> Err RuiInstanceIdentity" for b
    by (auto simp: prepare_runtime_ui_def parse_document_def try_bind_Err_iff map_err_Err_iff ok_or_Err_iff split: if_splits)
  moreover have "compile_component uenv r \<noteq> Err RuiInstanceIdentity" for r
    by (simp add: compile_component_def split: compile_outcome.split)
  moreover have "register_events uenv ss \<noteq> Err RuiInstanceIdentity" for ss by (simp add: register_events_def)
  ultimately show ?thesis
    using assms by (cases x) (auto simp: spawn_runtime_ui_def try_bind_Err_iff map_err_Err_iff split: if_splits)
qed

text \<open>C22: What was loaded and verified for an instance is what its window runs: the identity check between loading and
  running never refuses it, and the runtime is given the code of the verified installation, the identity and the
  generation of the instance, its configuration as text, exactly the grants of the manifest for it, and an initial
  state that conforms to the schema by which its states will be checked.\<close>

theorem loaded_instance_runs_as_itself:
  assumes "load_runnable_instance_with_trust env trust p fs = Ok (Some r)"
  shows "spawn_runtime_ui env uenv (rn_plugin r) (rn_instance r) \<noteq> Err RuiInstanceIdentity
    \<and> (\<forall>c. spawn_runtime_ui env uenv (rn_plugin r) (rn_instance r) = Ok c \<longrightarrow>
        wc_instance (sc_widget c) = pi_id p \<and> wc_generation (sc_widget c) = pi_generation p
      \<and> wc_wasm (sc_widget c) = pl_wasm (rn_plugin r) \<and> wc_plugin (sc_widget c) = ir_plugin (pi_installation p)
      \<and> wc_config_json (sc_widget c) = sl_json_text (pe_store_lib env) (JObj (pi_config p))
      \<and> manifest_grants (pl_manifest (rn_plugin r)) (pi_id p) = Ok (wc_grants (sc_widget c))
      \<and> validate_value (wc_state_schema (sc_widget c)) (wc_initial_state (sc_widget c)) 0 = Ok ())"
proof -
  from assms obtain i where i: "load_reference (pe_lib env) (pe_dir env) (pi_installation p) fs = Ok (Some i)"
    "installed_plugin_of i = Ok (rn_plugin r)" "rn_instance r = p"
    unfolding load_runnable_instance_with_trust_def by (rule load_runnable_Some)
  note found = load_reference_Some [OF i(1)] and plugin = installed_plugin_Ok [OF i(2)]
  have "installation_ref_from_meta (il_semver (pe_lib env)) (pl_meta (rn_plugin r)) = Ok (pi_installation p)"
    using found(2) plugin by (simp add: ii_reference_def map_err_Ok_iff)
  then have identity: "validate_runtime_instance env (rn_plugin r) p
      = Ok (pi_id p, pi_generation p, sl_json_text (pe_store_lib env) (JObj (pi_config p)))"
    by (simp add: validate_runtime_instance_def)
  have "mf_id (pl_manifest (rn_plugin r)) = ir_plugin (pi_installation p)"
    using loaded_reference_digest(2) [OF found] plugin by simp
  with identity show ?thesis
    using spawn_identity [OF identity, of uenv] by (auto simp: i(3) elim!: spawn_runtime_ui_Ok dest: prepare_runtime_ui_Ok)
qed

section \<open>A concrete session\<close>

definition desk_ui :: ui_env where
  "desk_ui = \<lparr>un_read = (\<lambda>_. Some (sample_document (keyed_root ''value''))), un_size = (\<lambda>_. 100), un_threads = True,
     un_compile = (\<lambda>_. Compiled), un_create = True, un_callback = (\<lambda>_. True)\<rparr>"

lemma loaded_instance_runs_as_itself_witness:
  "\<exists>c. spawn_runtime_ui desk_env desk_ui (rn_plugin desk_runnable) (rn_instance desk_runnable) = Ok c
     \<and> wc_wasm (sc_widget c) = ''w'' \<and> wc_instance (sc_widget c) = 2"
proof -
  have load: "load_runnable_instance_with_trust desk_env undefined desk_instance desk_fs = Ok (Some desk_runnable)"
    using desk_runnable_loads [where trust = undefined and g = 0 and t = 5] by (simp add: desk_instance_def desk_runnable_def)
  have "parse_document desk_ui ''u'' = Ok (sample_document (keyed_root ''value''))"
    by (simp add: parse_document_Ok desk_ui_def keyed_document_valid MAX_IR_BYTES_def)
  then have prepared: "\<exists>u. prepare_runtime_ui desk_ui ''u'' = Ok u \<and> rc_events (pu_rendered u) = []"
    by (simp add: prepare_runtime_ui_def) (simp add: desk_ui_def keyed_document_renders)
  have "installation_ref_from_meta (il_semver (pe_lib desk_env)) (pl_meta (rn_plugin desk_runnable)) = Ok sample_reference"
    using sample_ref_of_meta
    by (simp add: installation_ref_from_meta_def desk_env_def sample_install_lib_def desk_runnable_def) (simp add: sample_meta_def)
  then have identity: "validate_runtime_instance desk_env (rn_plugin desk_runnable) (rn_instance desk_runnable) = Ok (2, 0, ''{}'')"
    by (simp add: validate_runtime_instance_def desk_runnable_def desk_instance_def) (simp add: desk_env_def)
  have granted: "\<exists>g. manifest_grants (pl_manifest (rn_plugin desk_runnable)) 2 = Ok g"
    by (simp add: manifest_grants_def desk_runnable_def example_manifest_def narrow_instance_def)
  have "\<exists>c. spawn_runtime_ui desk_env desk_ui (rn_plugin desk_runnable) (rn_instance desk_runnable) = Ok c"
  proof -
    obtain u g where "prepare_runtime_ui desk_ui ''u'' = Ok u" "rc_events (pu_rendered u) = []"
      "manifest_grants (pl_manifest (rn_plugin desk_runnable)) 2 = Ok g"
      using prepared granted by blast
    moreover have "un_create desk_ui" "un_threads desk_ui" "compile_component desk_ui (pu_rendered u) = Ok ()"
      by (simp_all add: desk_ui_def compile_component_def)
    moreover have "pl_ui_bytes (rn_plugin desk_runnable) = ''u''" by (simp add: desk_runnable_def)
    ultimately show ?thesis using identity by (simp add: spawn_runtime_ui_def register_events_def)
  qed
  with loaded_instance_runs_as_itself [OF load, of desk_ui] show ?thesis by (auto simp: desk_runnable_def desk_instance_def)
qed

text \<open>Sixty-six events before the worker looks: two are dropped, and told of in the next round.\<close>

definition desk_session :: session_config where
  "desk_session = \<lparr>sc_widget = \<lparr>wc_plugin = ''dev.clock'', wc_instance = 2, wc_generation = 0, wc_wasm = [], wc_initial_state = JNull,
     wc_state_schema = SBoolean, wc_config_json = ''{}'', wc_grants = undefined\<rparr>, sc_bindings = [], sc_events = []\<rparr>"

definition idle_input :: worker_input where
  "idle_input = \<lparr>wi_update = NoUpdate, wi_window = True\<rparr>"

definition desk_actions :: "session_action list" where
  "desk_actions = replicate 66 (WindowCallback ''tap'' ''[]'') @ [WorkerStep idle_input, WorkerStep idle_input]"

lemma events_are_forwarded_or_recorded_witness:
  "subseq (us_forwarded (session_run desk_session desk_actions (session_start WorkerRuns))
     @ eb_queue (us_bridge (session_run desk_session desk_actions (session_start WorkerRuns)))) (offered desk_actions)"
proof -
  have window: "eb_open (us_bridge s) \<and> us_phase s = ph \<Longrightarrow>
      eb_open (us_bridge (fold (session_step c) (replicate n (WindowCallback name x)) s))
      \<and> us_phase (fold (session_step c) (replicate n (WindowCallback name x)) s) = ph" for c n name x ph s
    by (induction n arbitrary: s) (simp_all add: session_step_def bridge_try_send_def)
  let ?s = "fold (session_step desk_session) (replicate 66 (WindowCallback ''tap'' ''[]'')) (session_start WorkerRuns)"
  have s: "eb_open (us_bridge ?s)" "us_phase ?s = Flushing"
    using window [of "session_start WorkerRuns" Flushing desk_session 66 "''tap''" "''[]''"]
    by (simp_all add: session_start_def report_def Let_def)
  have "eb_open (us_bridge (session_run desk_session desk_actions (session_start WorkerRuns)))"
    using s unfolding session_run_def desk_actions_def fold_append o_apply
    by (simp add: session_step_def worker_step_def flush_audit_def flush_event_overload_audit_def Let_def idle_input_def
        del: replicate.simps)
  moreover have "length desk_actions < 2 ^ 64" by (simp add: desk_actions_def)
  ultimately show ?thesis using events_are_forwarded_or_recorded by blast
qed

lemma stop_ends_session_witness:
  "us_phase (session_run desk_session (desk_actions @ DropSession # replicate 14 (WorkerStep idle_input)) (session_start WorkerRuns)) = Ended"
proof -
  have "worker_steps (replicate n (WorkerStep i)) = replicate n i" for n i by (induction n) simp_all
  then show ?thesis
    using stop_ends_session [of "replicate 14 (WorkerStep idle_input)" desk_session desk_actions]
    by (simp add: EVENT_BATCH_SIZE_def)
qed

end
