(* ===== verification/Desktop.thy ===== *)
theory Desktop
  imports Store_Spec Ui_Schema
begin

text \<open>
  The widget's window on the desktop: \<open>floatile-shell/src/lib.rs\<close> with its modes, its geometry and the layout made
  from the window, and of \<open>floatile-shell/src/main.rs\<close> the handlers of the window's events, the restoring and saving
  of the layout and the registration of the recovery hotkey.

  A \<open>desk_event\<close> is one call of the event loop into these handlers; \<open>desk_io\<close> is what the platform answers during
  it.  A move the program asks for is recorded in \<open>dk_move_request\<close> and takes effect when the window system reports
  \<open>WindowMoved\<close>.  Geometry is \<open>f32\<close>, the scale factor \<open>f64\<close>; a step that panics is \<open>None\<close>.
\<close>

section \<open>Modes\<close>

datatype mode_effect = EffectEdit | EffectShow bool

record shell_controller =
  sh_mode :: widget_mode
  sh_click_through_supported :: bool

definition controller_new :: "bool \<Rightarrow> shell_controller" where
  "controller_new supported = \<lparr>sh_mode = Edit, sh_click_through_supported = supported\<rparr>"

definition current_effect :: "shell_controller \<Rightarrow> mode_effect" where
  "current_effect c = (case sh_mode c of Edit \<Rightarrow> EffectEdit | Show \<Rightarrow> EffectShow (sh_click_through_supported c))"

definition toggle_mode :: "shell_controller \<Rightarrow> mode_effect \<times> shell_controller" where
  "toggle_mode c = (let c' = c\<lparr>sh_mode := mode_toggle (sh_mode c)\<rparr> in (current_effect c', c'))"

definition restore_edit_mode :: "shell_controller \<Rightarrow> mode_effect \<times> shell_controller" where
  "restore_edit_mode c = (let c' = c\<lparr>sh_mode := Edit\<rparr> in (current_effect c', c'))"

definition click_through_enabled :: "shell_controller \<Rightarrow> bool" where
  "click_through_enabled c \<longleftrightarrow> sh_mode c = Show \<and> sh_click_through_supported c"

section \<open>Projection of a state\<close>

datatype projection_error = ProjectionInvalidPath | ProjectionMissingField string | ProjectionNonString string

fun walk_state :: "json \<Rightarrow> string list \<Rightarrow> (json, projection_error) result" where
  "walk_state v [] = Ok v"
| "walk_state v (segment # segments) =
     (case v of
        JObj m \<Rightarrow> (case bt_lookup segment m of None \<Rightarrow> Err (ProjectionMissingField segment) | Some w \<Rightarrow> walk_state w segments)
      | _ \<Rightarrow> Err (ProjectionMissingField segment))"

definition resolve_binding_string :: "string \<Rightarrow> json \<Rightarrow> (string, projection_error) result" where
  "resolve_binding_string path state =
     try_bind (map_err (\<lambda>_. ProjectionInvalidPath) (path_parse path)) (\<lambda>segments.
     try_bind (walk_state state segments) (\<lambda>v. ok_or (ProjectionNonString path) (as_str v)))"

section \<open>Regions of the window\<close>

text \<open>Division, with the one zero counted as positive.\<close>

fun ieee_div :: "(rat \<Rightarrow> ieee) \<Rightarrow> ieee \<Rightarrow> ieee \<Rightarrow> ieee" where
  "ieee_div rnd (Fin a) (Fin b) = (if b = 0 then if a = 0 then NotANumber else Infinity (a < 0) else rnd (a / b))"
| "ieee_div rnd (Fin a) (Infinity n) = Fin 0"
| "ieee_div rnd (Infinity n) (Fin b) = Infinity (n \<noteq> (b < 0))"
| "ieee_div rnd (Infinity n) (Infinity m) = NotANumber"
| "ieee_div rnd NotANumber y = NotANumber"
| "ieee_div rnd x NotANumber = NotANumber"

definition is_window_resize_handle :: "logical_position \<Rightarrow> logical_size \<Rightarrow> widget_mode \<Rightarrow> bool" where
  "is_window_resize_handle p s mode \<longleftrightarrow>
     mode = Edit \<and> ieee_le (ieee_sub f32_round (ls_width s) (Fin 24)) (lp_x p) \<and> ieee_lt (lp_x p) (ls_width s)
     \<and> ieee_le (ieee_sub f32_round (ls_height s) (Fin 24)) (lp_y p) \<and> ieee_lt (lp_y p) (ls_height s)"

definition in_control_strip :: "logical_position \<Rightarrow> bool" where
  "in_control_strip p \<longleftrightarrow>
     ieee_le (Fin 8) (lp_x p) \<and> ieee_lt (lp_x p) (Fin 176) \<and> ieee_le (Fin 8) (lp_y p) \<and> ieee_lt (lp_y p) (Fin 32)"

definition is_window_drag_region :: "logical_position \<Rightarrow> logical_size \<Rightarrow> widget_mode \<Rightarrow> bool" where
  "is_window_drag_region p s mode \<longleftrightarrow>
     \<not> (mode \<noteq> Edit \<or> ieee_lt (lp_x p) (Fin 0) \<or> ieee_lt (lp_y p) (Fin 0)
        \<or> ieee_le (ls_width s) (lp_x p) \<or> ieee_le (ls_height s) (lp_y p))
     \<and> \<not> in_control_strip p \<and> \<not> is_window_resize_handle p s mode"

section \<open>The layout of a window\<close>

record window_snapshot =
  ws_rect :: logical_rect
  ws_physical :: physical_size
  ws_scale :: ieee
  ws_mode :: widget_mode

definition SINGLE_WINDOW_Z :: u32 where "SINGLE_WINDOW_Z = 1"
definition CLOCK_INSTANCE_ID :: u64 where "CLOCK_INSTANCE_ID = 1"
definition BUILTIN_CLOCK_PLUGIN :: string where "BUILTIN_CLOCK_PLUGIN = ''builtin.clock''"

definition rect_contains :: "logical_rect \<Rightarrow> logical_position \<Rightarrow> bool" where
  "rect_contains b p \<longleftrightarrow>
     ieee_le (lp_x (lr_position b)) (lp_x p)
     \<and> ieee_lt (lp_x p) (ieee_add f32_round (lp_x (lr_position b)) (ls_width (lr_size b)))
     \<and> ieee_le (lp_y (lr_position b)) (lp_y p)
     \<and> ieee_lt (lp_y p) (ieee_add f32_round (lp_y (lr_position b)) (ls_height (lr_size b)))"

definition rect_center :: "logical_rect \<Rightarrow> logical_position" where
  "rect_center r =
     \<lparr>lp_x = ieee_add f32_round (lp_x (lr_position r)) (ieee_div f32_round (ls_width (lr_size r)) (Fin 2)),
      lp_y = ieee_add f32_round (lp_y (lr_position r)) (ieee_div f32_round (ls_height (lr_size r)) (Fin 2))\<rparr>"

text \<open>The first monitor with the window's center, or else the first primary one.\<close>

definition monitor_of_window :: "logical_rect \<Rightarrow> monitor_layout list \<Rightarrow> monitor_layout option" where
  "monitor_of_window r monitors =
     (case find (\<lambda>m. rect_contains (ml_bounds m) (rect_center r)) monitors of
        Some m \<Rightarrow> Some m
      | None \<Rightarrow> find ml_primary monitors)"

definition layout_from_window ::
  "u64 \<Rightarrow> string \<Rightarrow> window_snapshot \<Rightarrow> monitor_layout list \<Rightarrow> u64 \<Rightarrow> (widget_layout option, layout_validation_error) result"
where
  "layout_from_window iid plugin snap monitors updated =
     (case monitor_of_window (ws_rect snap) monitors of
        None \<Rightarrow> Ok None
      | Some m \<Rightarrow>
          (let r = ws_rect snap;
               l = \<lparr>wl_instance = iid, wl_plugin = plugin, wl_monitor_key = Some (ml_key m),
                    wl_rect = \<lparr>lr_position =
                        \<lparr>lp_x = ieee_sub f32_round (lp_x (lr_position r)) (lp_x (lr_position (ml_bounds m))),
                         lp_y = ieee_sub f32_round (lp_y (lr_position r)) (lp_y (lr_position (ml_bounds m)))\<rparr>,
                      lr_size = lr_size r\<rparr>,
                    wl_physical = ws_physical snap, wl_scale = ws_scale snap, wl_lost_monitor = False,
                    wl_z = SINGLE_WINDOW_Z, wl_mode = ws_mode snap, wl_version = LAYOUT_RECORD_VERSION,
                    wl_updated_at = updated\<rparr>
           in try_bind (layout_validate l) (\<lambda>_. Ok (Some l))))"

section \<open>The state of the desktop\<close>

record monitor_info =
  mi_key :: string
  mi_position :: "int \<times> int"
  mi_size :: "u32 \<times> u32"
  mi_primary :: bool

definition to_monitor_layout :: "monitor_info \<Rightarrow> ieee \<Rightarrow> monitor_layout" where
  "to_monitor_layout i scale =
     (let sf = as_f32 scale; to = (\<lambda>n. ieee_div f32_round (f32_round (of_int n)) sf)
      in \<lparr>ml_key = mi_key i,
          ml_bounds = \<lparr>lr_position = \<lparr>lp_x = to (fst (mi_position i)), lp_y = to (snd (mi_position i))\<rparr>,
                       lr_size = \<lparr>ls_width = to (uint (fst (mi_size i))), ls_height = to (uint (snd (mi_size i)))\<rparr>\<rparr>,
          ml_scale = scale, ml_primary = mi_primary i\<rparr>)"

text \<open>The window as the window system reports it: the outer position in pixels, unless the compositor hides it.\<close>

record winit_window =
  win_position :: "(int \<times> int) option"
  win_size :: "u32 \<times> u32"
  win_scale :: ieee

record desk =
  dk_controller :: shell_controller
  dk_store :: "db option"
  dk_monitors :: "monitor_layout list"
  dk_scale :: ieee
  dk_suppress :: bool
  dk_window :: winit_window
  dk_cursor :: "(ieee \<times> ieee) option"
  dk_resize :: "((ieee \<times> ieee) \<times> logical_size) option"
  dk_click_through :: bool
  dk_edit_controls :: bool
  dk_move_request :: "(int \<times> int) option"
  dk_size_request :: "logical_size option"

text \<open>What the platform answers during an event: the time, whether the click-through switch works, the monitors,
  whether a window can be moved.\<close>

record desk_io =
  io_now :: u64
  io_click_ok :: bool
  io_monitors :: "monitor_info list option"
  io_move_ok :: bool

definition refresh_monitors :: "desk_io \<Rightarrow> desk \<Rightarrow> desk" where
  "refresh_monitors i k =
     k\<lparr>dk_monitors :=
         (case io_monitors i of
            None \<Rightarrow> []
          | Some infos \<Rightarrow>
              (let scale = (case scale_factor_new (dk_scale k) of Ok s \<Rightarrow> s | Err _ \<Rightarrow> Fin 1)
               in map (\<lambda>info. to_monitor_layout info scale) infos))\<rparr>"

text \<open>\<open>f64::round\<close> and the saturating cast to \<open>i32\<close>.\<close>

definition round_to_i32 :: "ieee \<Rightarrow> int" where
  "round_to_i32 x =
     (case x of
        Fin r \<Rightarrow> max (- (2 ^ 31)) (min (2 ^ 31 - 1) (if 0 \<le> r then \<lfloor>r + 1 / 2\<rfloor> else - \<lfloor>1 / 2 - r\<rfloor>))
      | Infinity neg \<Rightarrow> (if neg then - (2 ^ 31) else 2 ^ 31 - 1)
      | NotANumber \<Rightarrow> 0)"

definition restore_target :: "winit_window \<Rightarrow> logical_position \<Rightarrow> int \<times> int" where
  "restore_target w p =
     (round_to_i32 (ieee_mul f64_round (lp_x p) (win_scale w)), round_to_i32 (ieee_mul f64_round (lp_y p) (win_scale w)))"

text \<open>\<open>None\<close> when the window cannot be moved, otherwise whether a move was asked for.\<close>

definition apply_restored_position :: "desk_io \<Rightarrow> logical_position \<Rightarrow> desk \<Rightarrow> (bool \<times> desk) option" where
  "apply_restored_position i p k =
     (let target = restore_target (dk_window k) p
      in if win_position (dk_window k) = Some target then Some (False, k)
         else if io_move_ok i then Some (True, k\<lparr>dk_move_request := Some target\<rparr>)
         else None)"

definition apply_mode_effect :: "desk_io \<Rightarrow> mode_effect \<Rightarrow> desk \<Rightarrow> desk" where
  "apply_mode_effect i e k =
     (let (mode, click_through) = (case e of EffectEdit \<Rightarrow> (Edit, False) | EffectShow b \<Rightarrow> (Show, b))
      in if io_click_ok i then k\<lparr>dk_click_through := click_through, dk_edit_controls := (mode = Edit)\<rparr> else k)"

section \<open>Saving and restoring\<close>

definition window_rect :: "winit_window \<Rightarrow> int \<times> int \<Rightarrow> logical_rect" where
  "window_rect w p =
     (let to = (\<lambda>n. ieee_div f32_round (f32_round (of_int n)) (as_f32 (win_scale w)))
      in \<lparr>lr_position = \<lparr>lp_x = to (fst p), lp_y = to (snd p)\<rparr>,
          lr_size = \<lparr>ls_width = to (uint (fst (win_size w))), ls_height = to (uint (snd (win_size w)))\<rparr>\<rparr>)"

definition save_layout :: "desk_io \<Rightarrow> widget_mode \<Rightarrow> desk \<Rightarrow> desk" where
  "save_layout i mode k =
     (case (dk_store k, win_position (dk_window k)) of
        (Some d, Some p) \<Rightarrow>
          (case scale_factor_new (win_scale (dk_window k)) of
             Err _ \<Rightarrow> k
           | Ok scale \<Rightarrow>
               (case layout_from_window CLOCK_INSTANCE_ID BUILTIN_CLOCK_PLUGIN
                       \<lparr>ws_rect = window_rect (dk_window k) p,
                        ws_physical = \<lparr>ps_width = fst (win_size (dk_window k)), ps_height = snd (win_size (dk_window k))\<rparr>,
                        ws_scale = scale, ws_mode = mode\<rparr> (dk_monitors k) (io_now i) of
                  Ok (Some l) \<Rightarrow> k\<lparr>dk_store := Some (snd (layout_save l d))\<rparr>
                | _ \<Rightarrow> k))
      | _ \<Rightarrow> k)"

text \<open>The outer \<open>None\<close> is a panic, the inner one that there is nothing to restore.\<close>

definition restored_placement :: "desk \<Rightarrow> (logical_rect \<times> widget_mode \<times> bool) option option" where
  "restored_placement k =
     (case dk_store k of
        None \<Rightarrow> Some None
      | Some d \<Rightarrow>
          (case layout_list d of
             Err _ \<Rightarrow> Some None
           | Ok ls \<Rightarrow>
               (case find (\<lambda>l. wl_instance l = CLOCK_INSTANCE_ID) ls of
                  None \<Rightarrow> Some None
                | Some l \<Rightarrow>
                    (if layout_validate l \<noteq> Ok () then Some None
                     else case recover_layout l (dk_monitors k) of
                            None \<Rightarrow> None
                          | Some (Err _) \<Rightarrow> Some None
                          | Some (Ok r) \<Rightarrow> Some (Some (rl_rect r, wl_mode l, rl_lost_monitor r))))))"

text \<open>The part that the start and a change of focus share: the monitors are read again, and the window goes to its
  place.  The mode is that of the record, unless nothing was restored.\<close>

definition restore_window :: "desk_io \<Rightarrow> desk \<Rightarrow> (widget_mode option \<times> desk) option" where
  "restore_window i k =
     (let k1 = refresh_monitors i (k\<lparr>dk_scale := win_scale (dk_window k)\<rparr>)
      in case restored_placement k1 of
           None \<Rightarrow> None
         | Some None \<Rightarrow> Some (None, k1)
         | Some (Some (rect, mode, lost)) \<Rightarrow>
             (case apply_restored_position i (lr_position rect) k1 of
                None \<Rightarrow> Some (None, k1)
              | Some (moved, k2) \<Rightarrow>
                  Some (Some mode, k2\<lparr>dk_size_request := Some (lr_size rect), dk_suppress := (moved \<or> dk_suppress k2)\<rparr>)))"

definition restore_at_start :: "desk_io \<Rightarrow> desk \<Rightarrow> desk option" where
  "restore_at_start i k =
     (case restore_window i k of
        None \<Rightarrow> None
      | Some (None, k1) \<Rightarrow> Some k1
      | Some (Some mode, k1) \<Rightarrow>
          (if sh_mode (dk_controller k1) = mode then Some k1
           else let c = (dk_controller k1)\<lparr>sh_mode := mode\<rparr>
                in Some (apply_mode_effect i (current_effect c) (k1\<lparr>dk_controller := c\<rparr>))))"

section \<open>The events\<close>

text \<open>\<open>WindowMoved\<close> and \<open>WindowSized\<close> bring what the window system reports, the presses find the cursor where the last
  \<open>CursorMoved\<close> has left it.\<close>

datatype desk_event =
    StartRestore
  | HotkeyRegistered
  | HotkeyPressed
  | CursorMoved "ieee \<times> ieee"
  | LeftPressed
  | LeftReleased
  | WindowMoved "(int \<times> int) option"
  | WindowSized "u32 \<times> u32"
  | CloseRequested
  | EscapePressed
  | FocusGained
  | ShowModeClicked
  | DeleteClicked
  | TrayExit

definition default_constraints :: size_constraints where
  "default_constraints =
     \<lparr>sc_min = \<lparr>ls_width = Fin 120, ls_height = Fin 60\<rparr>, sc_max = \<lparr>ls_width = Fin 2000, ls_height = Fin 1200\<rparr>\<rparr>"

definition cursor_moved :: "ieee \<times> ieee \<Rightarrow> desk \<Rightarrow> desk option" where
  "cursor_moved p k =
     (let k1 = k\<lparr>dk_cursor := Some p\<rparr>
      in case dk_resize k of
           None \<Rightarrow> Some k1
         | Some (started, extent) \<Rightarrow>
             (let scale = as_f32 (win_scale (dk_window k));
                  grow = (\<lambda>s a b. ieee_add f32_round s (as_f32 (ieee_div f64_round (ieee_sub f64_round a b) scale)));
                  requested = \<lparr>ls_width = grow (ls_width extent) (fst p) (fst started),
                               ls_height = grow (ls_height extent) (snd p) (snd started)\<rparr>
              in map_option (\<lambda>clamped. k1\<lparr>dk_size_request := Some clamped\<rparr>) (size_clamp default_constraints requested)))"

definition left_pressed :: "desk \<Rightarrow> desk" where
  "left_pressed k =
     (case dk_cursor k of
        None \<Rightarrow> k
      | Some p \<Rightarrow>
          (let scale = as_f32 (win_scale (dk_window k));
               position = \<lparr>lp_x = ieee_div f32_round (as_f32 (fst p)) scale, lp_y = ieee_div f32_round (as_f32 (snd p)) scale\<rparr>;
               extent = \<lparr>ls_width = ieee_div f32_round (f32_round (of_int (uint (fst (win_size (dk_window k)))))) scale,
                       ls_height = ieee_div f32_round (f32_round (of_int (uint (snd (win_size (dk_window k)))))) scale\<rparr>
           in if is_window_resize_handle position extent (sh_mode (dk_controller k))
              then k\<lparr>dk_resize := Some (p, extent)\<rparr> else k))"

definition window_moved :: "desk_io \<Rightarrow> (int \<times> int) option \<Rightarrow> desk \<Rightarrow> desk" where
  "window_moved i p k =
     (let k1 = k\<lparr>dk_window := (dk_window k)\<lparr>win_position := p\<rparr>\<rparr>
      in if dk_suppress k1 then k1\<lparr>dk_suppress := False\<rparr> else save_layout i (sh_mode (dk_controller k1)) k1)"

definition desk_step :: "desk_io \<Rightarrow> desk_event \<Rightarrow> desk \<Rightarrow> desk option" where
  "desk_step i e k =
     (case e of
        StartRestore \<Rightarrow> restore_at_start i k
      | HotkeyRegistered \<Rightarrow> Some (k\<lparr>dk_controller := (dk_controller k)\<lparr>sh_click_through_supported := True\<rparr>\<rparr>)
      | HotkeyPressed \<Rightarrow>
          (case restore_edit_mode (dk_controller k) of
             (effect, c) \<Rightarrow> Some (save_layout i Edit (apply_mode_effect i effect (k\<lparr>dk_controller := c\<rparr>))))
      | CursorMoved p \<Rightarrow> cursor_moved p k
      | LeftPressed \<Rightarrow> Some (left_pressed k)
      | LeftReleased \<Rightarrow>
          Some (if dk_resize k = None then k else save_layout i (sh_mode (dk_controller k)) (k\<lparr>dk_resize := None\<rparr>))
      | WindowMoved p \<Rightarrow> Some (window_moved i p k)
      | WindowSized s \<Rightarrow> Some (k\<lparr>dk_window := (dk_window k)\<lparr>win_size := s\<rparr>\<rparr>)
      | CloseRequested \<Rightarrow> Some (save_layout i (sh_mode (dk_controller k)) k)
      | EscapePressed \<Rightarrow>
          (if sh_mode (dk_controller k) = Show
           then case restore_edit_mode (dk_controller k) of
                  (effect, c) \<Rightarrow> Some (apply_mode_effect i effect (k\<lparr>dk_controller := c\<rparr>))
           else Some k)
      | FocusGained \<Rightarrow>
          map_option (\<lambda>(_, k1). apply_mode_effect i (current_effect (dk_controller k1)) k1) (restore_window i k)
      | ShowModeClicked \<Rightarrow>
          (case toggle_mode (dk_controller k) of
             (effect, c) \<Rightarrow>
               Some (save_layout i (sh_mode c) (apply_mode_effect i effect (k\<lparr>dk_controller := c\<rparr>))))
      | DeleteClicked \<Rightarrow>
          Some (k\<lparr>dk_store := map_option (\<lambda>d. snd (layout_delete CLOCK_INSTANCE_ID d)) (dk_store k)\<rparr>)
      | TrayExit \<Rightarrow> Some (save_layout i (sh_mode (dk_controller k)) k))"

text \<open>The state in which the events begin.\<close>

definition desk_start :: "db option \<Rightarrow> winit_window \<Rightarrow> desk" where
  "desk_start store w =
     \<lparr>dk_controller = controller_new False, dk_store = store, dk_monitors = [], dk_scale = Fin 1, dk_suppress = False,
      dk_window = w, dk_cursor = None, dk_resize = None, dk_click_through = False, dk_edit_controls = True,
      dk_move_request = None, dk_size_request = None\<rparr>"

section \<open>The registration of the hotkey\<close>

text \<open>The timer of \<open>main\<close> on Windows: the role of the window, the hotkey and the icon in the tray, each until it
  succeeds.  A tick is told whether the window exists and what would succeed.\<close>

record registration =
  rg_running :: bool
  rg_retries :: nat
  rg_role_done :: bool
  rg_hotkey_done :: bool
  rg_tray_done :: bool
  rg_candidate :: nat
  rg_registered :: "nat option"

record registration_tick =
  rt_window :: bool
  rt_role :: bool
  rt_hotkey :: "nat \<Rightarrow> bool"
  rt_tray :: bool

definition MAX_RETRIES :: nat where "MAX_RETRIES = 25"
definition HOTKEY_CANDIDATES :: nat where "HOTKEY_CANDIDATES = 3"

definition registration_start :: registration where
  "registration_start =
     \<lparr>rg_running = True, rg_retries = 0, rg_role_done = False, rg_hotkey_done = False, rg_tray_done = False,
      rg_candidate = 0, rg_registered = None\<rparr>"

definition try_role :: "registration_tick \<Rightarrow> registration \<Rightarrow> bool \<times> registration" where
  "try_role t g =
     (if rg_role_done g then (False, g)
      else if rt_window t \<and> rt_role t then (False, g\<lparr>rg_role_done := True\<rparr>) else (True, g))"

definition try_hotkey :: "registration_tick \<Rightarrow> registration \<Rightarrow> bool \<times> registration" where
  "try_hotkey t g =
     (if rg_hotkey_done g then (False, g)
      else if HOTKEY_CANDIDATES \<le> rg_candidate g then (False, g\<lparr>rg_hotkey_done := True\<rparr>)
      else if rt_window t \<and> rt_hotkey t (rg_candidate g)
      then (False, g\<lparr>rg_hotkey_done := True, rg_registered := Some (rg_candidate g)\<rparr>)
      else (True, g\<lparr>rg_candidate := rg_candidate g + 1\<rparr>))"

definition try_tray :: "registration_tick \<Rightarrow> registration \<Rightarrow> bool \<times> registration" where
  "try_tray t g =
     (if rg_tray_done g then (False, g)
      else if rt_tray t then (False, g\<lparr>rg_tray_done := True\<rparr>) else (True, g))"

definition register_tick :: "registration_tick \<Rightarrow> registration \<Rightarrow> registration" where
  "register_tick t g =
     (if \<not> rg_running g then g
      else if MAX_RETRIES \<le> rg_retries g then g\<lparr>rg_running := False\<rparr>
      else
        let (p1, g1) = try_role t g; (p2, g2) = try_hotkey t g1; (p3, g3) = try_tray t g2
        in if p1 \<or> p2 \<or> p3 then g3\<lparr>rg_retries := rg_retries g + 1\<rparr> else g3\<lparr>rg_running := False\<rparr>)"

definition register_run :: "registration_tick list \<Rightarrow> registration \<Rightarrow> registration" where
  "register_run = fold register_tick"

section \<open>Clicks go through only with a way back\<close>

definition desk_run :: "(desk_io \<times> desk_event) list \<Rightarrow> desk \<Rightarrow> desk option" where
  "desk_run steps k = fold (\<lambda>(i, e) acc. Option.bind acc (desk_step i e)) steps (Some k)"

lemma save_layout_same [simp]:
  "dk_controller (save_layout i mode k) = dk_controller k" "dk_click_through (save_layout i mode k) = dk_click_through k"
  "dk_edit_controls (save_layout i mode k) = dk_edit_controls k" "dk_window (save_layout i mode k) = dk_window k"
  "dk_monitors (save_layout i mode k) = dk_monitors k"
  by (auto simp: save_layout_def split: option.split result.split)

definition way_back :: "bool \<Rightarrow> desk \<Rightarrow> bool" where
  "way_back registered k \<longleftrightarrow>
     (sh_click_through_supported (dk_controller k) \<longrightarrow> registered) \<and> (dk_click_through k \<longrightarrow> registered)"

lemma restore_window_same:
  "restore_window i k = Some (m, k1) \<Longrightarrow> dk_controller k1 = dk_controller k \<and> dk_click_through k1 = dk_click_through k"
  by (auto simp: restore_window_def refresh_monitors_def apply_restored_position_def Let_def split: option.splits if_splits)

lemma way_back_effect:
  "way_back registered k \<Longrightarrow> way_back registered (apply_mode_effect i (current_effect (dk_controller k)) k)"
  by (auto simp: way_back_def apply_mode_effect_def current_effect_def Let_def split: widget_mode.splits)

lemma way_back_mode [simp]:
  "way_back registered (k\<lparr>dk_controller := (dk_controller k)\<lparr>sh_mode := m\<rparr>\<rparr>) = way_back registered k"
  by (simp add: way_back_def)

lemma way_back_weaken: "way_back registered k \<Longrightarrow> way_back (registered \<or> b) k"
  by (auto simp: way_back_def)

lemma way_back_same:
  "way_back registered k \<Longrightarrow> dk_controller k' = dk_controller k \<Longrightarrow> dk_click_through k' = dk_click_through k
     \<Longrightarrow> way_back registered k'"
  by (simp add: way_back_def)

lemma way_back_mode_effect:
  assumes "way_back registered k"
  shows "way_back registered (apply_mode_effect i (current_effect ((dk_controller k)\<lparr>sh_mode := m\<rparr>))
    (k\<lparr>dk_controller := (dk_controller k)\<lparr>sh_mode := m\<rparr>\<rparr>))"
  using way_back_effect [of registered "k\<lparr>dk_controller := (dk_controller k)\<lparr>sh_mode := m\<rparr>\<rparr>" i] assms by simp

lemma way_back_step:
  assumes k: "way_back registered k" and step: "desk_step i e k = Some k'"
  shows "way_back (registered \<or> e = HotkeyRegistered) k'"
proof (cases e)
  case StartRestore
  from step StartRestore obtain m k1 where r: "restore_window i k = Some (m, k1)"
    by (auto simp: desk_step_def restore_at_start_def split: option.splits)
  have k1: "way_back registered k1" by (rule way_back_same [OF k]) (use restore_window_same [OF r] in simp_all)
  have "way_back registered k'"
    using step r k1 way_back_mode_effect [OF k1, of i]
    by (auto simp: desk_step_def StartRestore restore_at_start_def Let_def split: option.splits if_splits)
  then show ?thesis by (rule way_back_weaken)
next
  case FocusGained
  from step FocusGained obtain m k1 where r: "restore_window i k = Some (m, k1)"
    and k': "k' = apply_mode_effect i (current_effect (dk_controller k1)) k1"
    by (auto simp: desk_step_def)
  have "way_back registered k1" by (rule way_back_same [OF k]) (use restore_window_same [OF r] in simp_all)
  from way_back_effect [OF this] show ?thesis unfolding k' by (rule way_back_weaken)
next
  case HotkeyRegistered
  with step k show ?thesis by (auto simp: desk_step_def way_back_def)
next
  case HotkeyPressed
  have "way_back registered k'"
    by (rule way_back_same [OF way_back_mode_effect [OF k, of i Edit]])
      (use step HotkeyPressed in \<open>auto simp: desk_step_def restore_edit_mode_def Let_def\<close>)
  then show ?thesis by (rule way_back_weaken)
next
  case EscapePressed
  have "way_back registered k'"
    using step k way_back_mode_effect [OF k, of i Edit]
    by (auto simp: desk_step_def EscapePressed restore_edit_mode_def Let_def split: if_splits)
  then show ?thesis by (rule way_back_weaken)
next
  case ShowModeClicked
  have "way_back registered k'"
    by (rule way_back_same [OF way_back_mode_effect [OF k, of i "mode_toggle (sh_mode (dk_controller k))"]])
      (use step ShowModeClicked in \<open>auto simp: desk_step_def toggle_mode_def Let_def\<close>)
  then show ?thesis by (rule way_back_weaken)
next
  case (CursorMoved p)
  have "way_back registered k'"
    by (rule way_back_same [OF k])
      (use step CursorMoved in \<open>auto simp: desk_step_def cursor_moved_def Let_def split: option.splits\<close>)
  then show ?thesis by (rule way_back_weaken)
next
  case (WindowMoved p)
  have "way_back registered k'"
    by (rule way_back_same [OF k]) (use step WindowMoved in \<open>auto simp: desk_step_def window_moved_def Let_def split: if_splits\<close>)
  then show ?thesis by (rule way_back_weaken)
next
  case LeftPressed
  have "way_back registered k'"
    by (rule way_back_same [OF k]) (use step LeftPressed in \<open>auto simp: desk_step_def left_pressed_def Let_def split: option.splits if_splits\<close>)
  then show ?thesis by (rule way_back_weaken)
qed (use step k in \<open>auto simp: desk_step_def way_back_def split: if_splits\<close>)

lemma way_back_run:
  assumes "way_back registered k" and "desk_run steps k = Some k'"
  shows "way_back (registered \<or> HotkeyRegistered \<in> snd ` set steps) k'"
  using assms
proof (induction steps arbitrary: registered k)
  case (Cons s steps)
  obtain i e where s: "s = (i, e)" by (cases s)
  have none: "fold (\<lambda>(i, e) acc. Option.bind acc (desk_step i e)) steps None = None"
    by (induction steps) auto
  from Cons.prems(2) none obtain k1 where k1: "desk_step i e k = Some k1" "desk_run steps k1 = Some k'"
    by (cases "desk_step i e k") (auto simp: desk_run_def s)
  from Cons.IH [OF way_back_step [OF Cons.prems(1) k1(1)] k1(2)] show ?case by (auto simp: s way_back_def)
qed (simp add: desk_run_def)

text \<open>C32: The user is never locked out of the widget: in whatever order the events come and whatever the platform answers,
  clicks go through the window only after a recovery hotkey has been registered, and pressing it in any state the
  program can reach leaves the edit mode on and the window clickable, with its controls shown, whenever the platform
  performs the switch; pressing it again changes none of this.\<close>

theorem clicks_go_through_only_with_hotkey:
  assumes "desk_run steps (desk_start store w) = Some k"
  shows "(dk_click_through k \<longrightarrow> HotkeyRegistered \<in> snd ` set steps)
    \<and> (\<forall>i. io_click_ok i \<longrightarrow>
        (\<exists>k1 k2. desk_step i HotkeyPressed k = Some k1 \<and> desk_step i HotkeyPressed k1 = Some k2
         \<and> sh_mode (dk_controller k1) = Edit \<and> \<not> dk_click_through k1 \<and> dk_edit_controls k1
         \<and> dk_controller k2 = dk_controller k1 \<and> \<not> dk_click_through k2 \<and> dk_edit_controls k2))"
proof -
  have "way_back False (desk_start store w)" by (simp add: way_back_def desk_start_def controller_new_def)
  from way_back_run [OF this assms] show ?thesis
    by (auto simp: way_back_def desk_step_def restore_edit_mode_def current_effect_def apply_mode_effect_def Let_def)
qed

definition hidden_window :: winit_window where
  "hidden_window = \<lparr>win_position = None, win_size = (0, 0), win_scale = Fin 1\<rparr>"

lemma clicks_go_through_only_with_hotkey_witness:
  "\<exists>k i k1. desk_run [(i, HotkeyRegistered), (i, ShowModeClicked)] (desk_start None hidden_window) = Some k \<and> dk_click_through k
    \<and> desk_step i HotkeyPressed k = Some k1 \<and> \<not> dk_click_through k1"
proof -
  let ?i = "\<lparr>io_now = 9, io_click_ok = True, io_monitors = None, io_move_ok = True\<rparr>"
  have io: "io_click_ok ?i" by simp
  obtain k where k: "desk_run [(?i, HotkeyRegistered), (?i, ShowModeClicked)] (desk_start None hidden_window) = Some k" "dk_click_through k"
    by (simp add: desk_run_def desk_step_def desk_start_def controller_new_def toggle_mode_def current_effect_def
        apply_mode_effect_def Let_def save_layout_def)
  from clicks_go_through_only_with_hotkey [OF k(1)] obtain k1 where
    "desk_step ?i HotkeyPressed k = Some k1" "\<not> dk_click_through k1" using io by blast
  with k show ?thesis by blast
qed

section \<open>A window that is not ready loses its hotkey\<close>

lemma no_candidates_left:
  assumes "HOTKEY_CANDIDATES \<le> rg_candidate g" "rg_registered g = None"
  shows "HOTKEY_CANDIDATES \<le> rg_candidate (register_tick t g) \<and> rg_registered (register_tick t g) = None"
  using assms by (auto simp: register_tick_def try_role_def try_hotkey_def try_tray_def Let_def split: prod.splits if_splits)

lemma no_candidates_run:
  "HOTKEY_CANDIDATES \<le> rg_candidate g \<Longrightarrow> rg_registered g = None \<Longrightarrow> rg_registered (register_run ts g) = None"
proof (induction ts arbitrary: g)
  case (Cons t ts)
  from no_candidates_left [OF Cons.prems, of t] Cons.IH [of "register_tick t g"] show ?case by (simp add: register_run_def)
qed (simp add: register_run_def)

text \<open>C34: A window that does not exist yet costs a candidate at every tick: after three such ticks, well within the 25
  of the budget, no hotkey will be registered, whatever succeeds later.\<close>

theorem unready_window_loses_hotkey:
  assumes "\<not> rt_window t1" and "\<not> rt_window t2" and "\<not> rt_window t3"
  shows "rg_registered (register_run (t1 # t2 # t3 # later) registration_start) = None"
proof -
  let ?g = "register_run [t1, t2, t3] registration_start"
  have "HOTKEY_CANDIDATES \<le> rg_candidate ?g \<and> rg_registered ?g = None"
    using assms
    by (simp add: register_run_def register_tick_def try_role_def try_hotkey_def try_tray_def registration_start_def
        MAX_RETRIES_def HOTKEY_CANDIDATES_def Let_def split: prod.split if_split)
  with no_candidates_run [of ?g later] show ?thesis by (simp add: register_run_def)
qed

lemma unready_window_loses_hotkey_witness:
  "rg_registered (register_run
     (replicate 3 \<lparr>rt_window = False, rt_role = True, rt_hotkey = (\<lambda>_. True), rt_tray = True\<rparr>
      @ [\<lparr>rt_window = True, rt_role = True, rt_hotkey = (\<lambda>_. True), rt_tray = True\<rparr>]) registration_start) = None"
  using unready_window_loses_hotkey
    [of "\<lparr>rt_window = False, rt_role = True, rt_hotkey = (\<lambda>_. True), rt_tray = True\<rparr>"
      "\<lparr>rt_window = False, rt_role = True, rt_hotkey = (\<lambda>_. True), rt_tray = True\<rparr>"
      "\<lparr>rt_window = False, rt_role = True, rt_hotkey = (\<lambda>_. True), rt_tray = True\<rparr>"
      "[\<lparr>rt_window = True, rt_role = True, rt_hotkey = (\<lambda>_. True), rt_tray = True\<rparr>]"]
  by (simp add: numeral_3_eq_3)

section \<open>A saved window reappears\<close>

lemma apply_mode_effect_same [simp]:
  "dk_controller (apply_mode_effect i e k) = dk_controller k" "dk_store (apply_mode_effect i e k) = dk_store k"
  "dk_move_request (apply_mode_effect i e k) = dk_move_request k" "dk_size_request (apply_mode_effect i e k) = dk_size_request k"
  by (auto simp: apply_mode_effect_def Let_def split: prod.split)

text \<open>A window in whole pixels at scale 1.\<close>

definition pixel_window :: "int \<Rightarrow> int \<Rightarrow> u32 \<Rightarrow> u32 \<Rightarrow> winit_window" where
  "pixel_window x y w h = \<lparr>win_position = Some (x, y), win_size = (w, h), win_scale = Fin 1\<rparr>"

lemma f32_one [simp]: "as_f32 (Fin 1) = Fin 1"
  using f32_round_int [of 1] by simp

lemma whole_quotient [simp]:
  "\<bar>n\<bar> < 2 ^ 24 \<Longrightarrow> ieee_div f32_round (f32_round (of_int n)) (Fin 1) = Fin (of_int n)"
  by (simp add: f32_round_int)

lemma window_rect_pixels:
  assumes "\<bar>x\<bar> < 2 ^ 22" "\<bar>y\<bar> < 2 ^ 22" "uint w < 2 ^ 22" "uint h < 2 ^ 22"
  shows "window_rect (pixel_window x y w h) (x, y) = int_rect x y (uint w) (uint h)"
proof -
  have "\<bar>x\<bar> < 2 ^ 24" "\<bar>y\<bar> < 2 ^ 24" "\<bar>uint w\<bar> < 2 ^ 24" "\<bar>uint h\<bar> < 2 ^ 24" using assms by auto
  then show ?thesis
    unfolding window_rect_def pixel_window_def Let_def winit_window.simps fst_conv snd_conv f32_one
    by (simp only: whole_quotient int_rect_def)
qed

lemma physical_match_whole:
  fixes p :: u32
  assumes "uint p < 2 ^ 22"
  shows "\<not> physical_mismatch (Fin (of_int (uint p))) (Fin 1) p"
  using f64_round_int [of "uint p"] f64_round_int [of 0] assms
  by (simp add: physical_mismatch_def ieee_sub_def)

lemma whole_difference:
  fixes a b :: int
  assumes "\<bar>a\<bar> < 2 ^ 22" "\<bar>b\<bar> < 2 ^ 22"
  shows "ieee_sub f32_round (Fin (of_int a)) (Fin (of_int b)) = Fin (of_int (a - b))"
  using assms f32_round_int [of "a - b"] by (simp add: ieee_sub_def)

text \<open>The record of a window that fits its monitor.\<close>

definition window_record :: "int \<Rightarrow> int \<Rightarrow> u32 \<Rightarrow> u32 \<Rightarrow> string \<Rightarrow> widget_mode \<Rightarrow> u64 \<Rightarrow> widget_layout" where
  "window_record x y w h key mode t =
     \<lparr>wl_instance = CLOCK_INSTANCE_ID, wl_plugin = BUILTIN_CLOCK_PLUGIN, wl_monitor_key = Some key,
      wl_rect = int_rect x y (uint w) (uint h), wl_physical = \<lparr>ps_width = w, ps_height = h\<rparr>, wl_scale = Fin 1,
      wl_lost_monitor = False, wl_z = SINGLE_WINDOW_Z, wl_mode = mode, wl_version = LAYOUT_RECORD_VERSION,
      wl_updated_at = t\<rparr>"

lemma window_record_valid:
  assumes "0 < uint w" "uint w < 2 ^ 22" "0 < uint h" "uint h < 2 ^ 22" "key \<noteq> []"
  shows "layout_validate (window_record x y w h key mode t) = Ok ()"
proof -
  have "(0 :: rat) < of_int (uint w)" "(0 :: rat) < of_int (uint h)" using assms(1,3) by (simp_all only: of_int_0_less_iff)
  moreover have "w \<noteq> 0" "h \<noteq> 0" using assms(1,3) by auto
  ultimately show ?thesis
    using assms physical_match_whole [OF assms(2)] physical_match_whole [OF assms(4)]
    by (auto simp: layout_validate_def window_record_def rect_finite_def rect_non_positive_def int_rect_def SINGLE_WINDOW_Z_def)
qed

lemma window_record_stored:
  assumes "\<bar>x\<bar> < 2 ^ 24" "\<bar>y\<bar> < 2 ^ 24" "0 < uint w" "uint w < 2 ^ 22" "0 < uint h" "uint h < 2 ^ 22" "key \<noteq> []"
  shows "stored_layout_ok (window_record x y w h key mode t)"
proof -
  have f: "as_f32 (Fin (of_int n)) = Fin (of_int n)" if "\<bar>n\<bar> < 2 ^ 24" for n
    using f32_round_int [OF that] by simp
  have "\<bar>uint w\<bar> < 2 ^ 24" "\<bar>uint h\<bar> < 2 ^ 24" using assms by auto
  with f assms(1,2) have "as_f32 (Fin (of_int x)) = Fin (of_int x)" "as_f32 (Fin (of_int y)) = Fin (of_int y)"
    "as_f32 (Fin (of_int (uint w))) = Fin (of_int (uint w))" "as_f32 (Fin (of_int (uint h))) = Fin (of_int (uint h))"
    by blast+
  with window_record_valid [OF assms(3-7), of x y mode t] show ?thesis
    by (simp add: stored_layout_ok_def window_record_def int_rect_def scale_factor_new_def)
qed

lemma layout_from_pixels:
  assumes "\<bar>x\<bar> < 2 ^ 22" "\<bar>y\<bar> < 2 ^ 22" "0 < uint w" "uint w < 2 ^ 22" "0 < uint h" "uint h < 2 ^ 22"
    and m: "monitor_of_window (int_rect x y (uint w) (uint h)) ms = Some m" "ml_key m \<noteq> []"
      "ml_bounds m = int_rect bx b bw bh" "\<bar>bx\<bar> < 2 ^ 22" "\<bar>b\<bar> < 2 ^ 22"
  shows "layout_from_window CLOCK_INSTANCE_ID BUILTIN_CLOCK_PLUGIN
      \<lparr>ws_rect = int_rect x y (uint w) (uint h), ws_physical = \<lparr>ps_width = w, ps_height = h\<rparr>, ws_scale = Fin 1,
       ws_mode = mode\<rparr> ms t = Ok (Some (window_record (x - bx) (y - b) w h (ml_key m) mode t))"
proof -
  have made: "\<lparr>wl_instance = CLOCK_INSTANCE_ID, wl_plugin = BUILTIN_CLOCK_PLUGIN, wl_monitor_key = Some (ml_key m),
      wl_rect = \<lparr>lr_position =
          \<lparr>lp_x = ieee_sub f32_round (lp_x (lr_position (int_rect x y (uint w) (uint h)))) (lp_x (lr_position (ml_bounds m))),
           lp_y = ieee_sub f32_round (lp_y (lr_position (int_rect x y (uint w) (uint h)))) (lp_y (lr_position (ml_bounds m)))\<rparr>,
        lr_size = lr_size (int_rect x y (uint w) (uint h))\<rparr>,
      wl_physical = \<lparr>ps_width = w, ps_height = h\<rparr>, wl_scale = Fin 1, wl_lost_monitor = False, wl_z = SINGLE_WINDOW_Z,
      wl_mode = mode, wl_version = LAYOUT_RECORD_VERSION, wl_updated_at = t\<rparr>
    = window_record (x - bx) (y - b) w h (ml_key m) mode t"
    using whole_difference [OF assms(1) m(4)] whole_difference [OF assms(2) m(5)]
    by (simp add: window_record_def m(3) int_rect_def)
  show ?thesis
    unfolding layout_from_window_def Let_def window_snapshot.simps m(1) option.case made
    by (simp add: window_record_valid [OF assms(3-6) m(2)])
qed

lemma save_layout_pixels:
  assumes xy: "\<bar>x\<bar> < 2 ^ 22" "\<bar>y\<bar> < 2 ^ 22" "0 < uint w" "uint w < 2 ^ 22" "0 < uint h" "uint h < 2 ^ 22"
    and m: "monitor_of_window (int_rect x y (uint w) (uint h)) (dk_monitors k) = Some m" "ml_key m \<noteq> []"
      "ml_bounds m = int_rect bx b bw bh" "\<bar>bx\<bar> < 2 ^ 22" "\<bar>b\<bar> < 2 ^ 22"
    and k: "dk_store k = Some d" "dk_window k = pixel_window x y w h"
  shows "dk_store (save_layout i mode k)
    = Some (snd (layout_save (window_record (x - bx) (y - b) w h (ml_key m) mode (io_now i)) d))"
proof -
  have scale: "win_scale (dk_window k) = Fin 1" "win_position (dk_window k) = Some (x, y)"
    "win_size (dk_window k) = (w, h)" by (simp_all add: k(2) pixel_window_def)
  have one: "scale_factor_new (Fin 1) = Ok (Fin 1)" by (simp add: scale_factor_new_def)
  show ?thesis
    unfolding save_layout_def k(1) scale prod.case option.case one result.case fst_conv snd_conv
      window_rect_pixels [OF xy(1,2,4,6), folded k(2)] layout_from_pixels [OF xy m]
    by simp
qed

text \<open>The store after the record is saved lists it once.\<close>

lemma saved_record_listed:
  assumes ops: "list_all (op_ok lib) ops" and l: "stored_layout_ok l" "fits (wl_instance l)" "fits (wl_updated_at l)"
  shows "\<exists>ls. layout_list (snd (layout_save l (store_run lib ops opened_db))) = Ok ls
    \<and> find (\<lambda>r. wl_instance r = wl_instance l) ls = Some l"
proof -
  have "list_all (op_ok lib) (ops @ [SaveLayout l])" using ops l by (simp add: layout_typed_def)
  note run = opened_run [OF this]
  obtain ls where ls: "layout_list (store_run lib (ops @ [SaveLayout l]) opened_db) = Ok ls"
    "set ls = ran (sp_layouts (spec_run (ops @ [SaveLayout l]) spec_init))"
    using get_rel(6) [OF conjunct1 [OF run] conjunct2 [OF run]] by blast
  have saved: "sp_layouts (spec_run (ops @ [SaveLayout l]) spec_init) (wl_instance l) = Some l"
    using l by (simp add: spec_run_def stored_layout_ok_def)
  have only: "r = l" if "r \<in> set ls" "wl_instance r = wl_instance l" for r
  proof -
    from that(1) ls(2) obtain j where j: "sp_layouts (spec_run (ops @ [SaveLayout l]) spec_init) j = Some r"
      unfolding ran_def by blast
    then have "wl_instance r = j" using conjunct2 [OF run] by (auto simp: spec_ok_def layouts_ok_def)
    from this that(2) have "j = wl_instance l" by (rule trans [OF sym])
    from trans [OF sym [OF j [unfolded this]] saved] show ?thesis by (rule option.inject [THEN iffD1])
  qed
  have "l \<in> set ls" unfolding ls(2) using saved by (rule ranI)
  have "find (\<lambda>r. wl_instance r = wl_instance l) ls = Some l"
  proof (cases "find (\<lambda>r. wl_instance r = wl_instance l) ls")
    case None
    with \<open>l \<in> set ls\<close> show ?thesis unfolding find_None_iff by blast
  next
    case (Some r)
    then have "r \<in> set ls" "wl_instance r = wl_instance l" by (auto dest: find_Some_iff [THEN iffD1])
    from only [OF this] Some show ?thesis by simp
  qed
  with ls(1) show ?thesis by (simp add: store_run_def)
qed

text \<open>A monitor of the window with its bounds.\<close>

lemma monitor_of_window_in: "monitor_of_window r ms = Some m \<Longrightarrow> m \<in> set ms"
  by (auto simp: monitor_of_window_def find_Some_iff split: option.splits)

lemma recover_record:
  assumes top: "validate_monitor_topology ms = Ok primary" and whole: "\<forall>m \<in> set ms. whole_rect (ml_bounds m)"
    and size: "0 < uint w" "uint w < 2 ^ 22" "0 < uint h" "uint h < 2 ^ 22"
    and m: "m \<in> set ms" "ml_key m \<noteq> []" "ml_bounds m = int_rect bx b bw bh"
    and inside: "bx \<le> x" "x + uint w \<le> bx + bw" "b \<le> y" "y + uint h \<le> b + bh"
  shows "recover_layout (window_record (x - bx) (y - b) w h (ml_key m) mode t) ms
    = Some (Ok \<lparr>rl_monitor = m, rl_rect = int_rect x y (uint w) (uint h), rl_lost_monitor = False\<rparr>)"
proof -
  let ?l = "window_record (x - bx) (y - b) w h (ml_key m) mode t"
  have topology: "distinct (map ml_key ms)" "\<not> rect_non_positive (ml_bounds m)"
    using validate_monitor_topology_ok [OF top] m(1) by (auto simp: topology_ok_def)
  then have pos: "0 < bw" "0 < bh" using m(3) positive_int_rect by auto
  have bounds: "\<bar>bx\<bar> < 2 ^ 22" "\<bar>b\<bar> < 2 ^ 22" "\<bar>bw\<bar> < 2 ^ 22" "\<bar>bh\<bar> < 2 ^ 22"
    using whole m(1,3) by (auto simp: whole_rect_def whole_def int_rect_def)
  have requested: "requested_monitor ?l ms = Some m"
  proof (cases "requested_monitor ?l ms")
    case None
    with requested_monitor_cases(2) [OF None, of "ml_key m"] m(1) show ?thesis by (simp add: window_record_def)
  next
    case (Some n)
    with requested_monitor_cases(1) [OF Some] have "n \<in> set ms" "ml_key n = ml_key m" by (auto simp: window_record_def)
    with topology(1) m(1) Some show ?thesis by (metis distinct_map inj_on_eq_iff)
  qed
  have rel: "\<bar>x - bx\<bar> < 2 ^ 22" "\<bar>y - b\<bar> < 2 ^ 22" "\<bar>uint w\<bar> < 2 ^ 22" "\<bar>uint h\<bar> < 2 ^ 22"
    and small: "min (uint w) bw = uint w" "min (uint h) bh = uint h"
    and fit: "0 \<le> x - bx" "x - bx + uint w \<le> bw" "0 \<le> y - b" "y - b + uint h \<le> bh"
    using inside size bounds by auto
  have "place_on_monitor (wl_rect ?l) (ml_bounds m) = Some (Ok (int_rect x y (uint w) (uint h)))"
    using place_whole [OF rel size(1,3) bounds pos] fit small by (auto simp: m(3) window_record_def)
  with window_record_valid [OF size m(2), of "x - bx" "y - b" mode t] top requested show ?thesis
    by (simp add: recover_layout_def Let_def)
qed

lemma restore_target_pixels:
  assumes "\<bar>x\<bar> < 2 ^ 22" "\<bar>y\<bar> < 2 ^ 22" "win_scale win = Fin 1"
  shows "restore_target win \<lparr>lp_x = Fin (of_int x), lp_y = Fin (of_int y)\<rparr> = (x, y)"
proof -
  have r: "round_to_i32 (ieee_mul f64_round (Fin (of_int n)) (Fin 1)) = n" if "\<bar>n\<bar> < 2 ^ 22" for n :: int
  proof -
    have "\<lfloor>of_int n + 1 / 2 :: rat\<rfloor> = n" "\<lfloor>1 / 2 - of_int n :: rat\<rfloor> = - n" by linarith+
    then show ?thesis using that f64_round_int [of n] by (simp add: round_to_i32_def)
  qed
  show ?thesis by (simp only: restore_target_def assms(3) logical_position.simps r [OF assms(1)] r [OF assms(2)])
qed

text \<open>C33: A saved window reappears after a restart, at a scale factor of 1: whatever the store has been through (with
  configurations that the JSON library reads back), a window in whole pixels, of coordinates and sizes below \<open>2 ^ 22\<close>, that
  lies in its monitor, once saved, is found again by the next start of the program on the same monitors, all of whole
  pixels and at scale factor 1 as well, which brings the window to the very place if the window system moves it, asks for
  the very size and enters the saved mode.  Nothing is claimed for other scale factors, where the conversions between
  logical and physical pixels round.\<close>

theorem saved_window_reappears:
  assumes store: "list_all (op_ok lib) ops" "dk_store k = Some (store_run lib ops opened_db)" "fits (io_now i)"
    and window: "dk_window k = pixel_window x y w h" "\<bar>x\<bar> < 2 ^ 22" "\<bar>y\<bar> < 2 ^ 22"
      "0 < uint w" "uint w < 2 ^ 22" "0 < uint h" "uint h < 2 ^ 22"
    and monitors: "validate_monitor_topology (dk_monitors k) = Ok primary" "\<forall>m \<in> set (dk_monitors k). whole_rect (ml_bounds m)"
      "monitor_of_window (int_rect x y (uint w) (uint h)) (dk_monitors k) = Some m" "ml_key m \<noteq> []"
    and inside: "ml_bounds m = int_rect bx b bw bh" "bx \<le> x" "x + uint w \<le> bx + bw" "b \<le> y" "y + uint h \<le> b + bh"
    and restart: "dk_store k' = dk_store (save_layout i mode k)" "win_scale (dk_window k') = Fin 1"
      "io_monitors j = Some infos" "map (\<lambda>info. to_monitor_layout info (Fin 1)) infos = dk_monitors k" "io_move_ok j"
  shows "\<exists>k2. desk_step j StartRestore k' = Some k2
    \<and> (win_position (dk_window k') = Some (x, y) \<or> dk_move_request k2 = Some (x, y))
    \<and> dk_size_request k2 = Some \<lparr>ls_width = Fin (of_int (uint w)), ls_height = Fin (of_int (uint h))\<rparr>
    \<and> sh_mode (dk_controller k2) = mode"
proof -
  let ?l = "window_record (x - bx) (y - b) w h (ml_key m) mode (io_now i)"
  have m: "m \<in> set (dk_monitors k)" by (rule monitor_of_window_in [OF monitors(3)])
  have bounds: "\<bar>bx\<bar> < 2 ^ 22" "\<bar>b\<bar> < 2 ^ 22" "\<bar>bw\<bar> < 2 ^ 22" "\<bar>bh\<bar> < 2 ^ 22"
    using monitors(2) m inside(1) by (auto simp: whole_rect_def whole_def int_rect_def)
  have rel: "\<bar>x - bx\<bar> < 2 ^ 24" "\<bar>y - b\<bar> < 2 ^ 24" using window(2,3) bounds by auto
  have stored: "stored_layout_ok ?l" by (rule window_record_stored [OF rel window(4-7) monitors(4)])
  have l: "wl_instance ?l = CLOCK_INSTANCE_ID" "fits (wl_instance ?l)" "fits (wl_updated_at ?l)" "wl_mode ?l = mode"
    using store(3) by (simp_all add: window_record_def CLOCK_INSTANCE_ID_def fits_def)
  obtain ls where ls: "layout_list (snd (layout_save ?l (store_run lib ops opened_db))) = Ok ls"
    "find (\<lambda>r. wl_instance r = CLOCK_INSTANCE_ID) ls = Some ?l"
    using saved_record_listed [OF store(1) stored l(2,3)] unfolding l(1) by blast
  have saved: "dk_store k' = Some (snd (layout_save ?l (store_run lib ops opened_db)))"
    unfolding restart(1) by (rule save_layout_pixels [OF window(2-7) monitors(3,4) inside(1) bounds(1,2) store(2) window(1)])
  define k1 where "k1 = refresh_monitors j (k'\<lparr>dk_scale := win_scale (dk_window k')\<rparr>)"
  have one: "scale_factor_new (Fin 1) = Ok (Fin 1)" by (simp add: scale_factor_new_def)
  have k1: "dk_store k1 = dk_store k'" "dk_monitors k1 = dk_monitors k" "dk_window k1 = dk_window k'"
    using restart(2-4) by (simp_all add: k1_def refresh_monitors_def one)
  have valid: "layout_validate ?l = Ok ()" using stored by (simp add: stored_layout_ok_def)
  note recover = recover_record [OF monitors(1,2) window(4-7) m monitors(4) inside, of mode "io_now i"]
  have placement: "restored_placement k1 = Some (Some (int_rect x y (uint w) (uint h), mode, False))"
    unfolding restored_placement_def k1 saved option.case ls result.case recover valid l(4) by simp
  have target: "restore_target (dk_window k') (lr_position (int_rect x y (uint w) (uint h))) = (x, y)"
    using restore_target_pixels [OF window(2,3) restart(2)] by (simp add: int_rect_def)
  obtain moved k2 where k2: "apply_restored_position j (lr_position (int_rect x y (uint w) (uint h))) k1 = Some (moved, k2)"
    and moved: "win_position (dk_window k') = Some (x, y) \<or> dk_move_request k2 = Some (x, y)"
    using restart(5) by (cases "win_position (dk_window k') = Some (x, y)") (auto simp: apply_restored_position_def target k1(3) Let_def)
  let ?k3 = "k2\<lparr>dk_size_request := Some (lr_size (int_rect x y (uint w) (uint h))), dk_suppress := (moved \<or> dk_suppress k2)\<rparr>"
  have restored: "restore_window j k' = Some (Some mode, ?k3)"
    unfolding restore_window_def Let_def k1_def [symmetric] placement by (simp add: k2)
  show ?thesis
    using moved by (auto simp: desk_step_def restore_at_start_def restored Let_def int_rect_def)
qed

text \<open>A desktop of one monitor.\<close>

definition sample_io :: desk_io where
  "sample_io = \<lparr>io_now = 9, io_click_ok = True,
     io_monitors = Some [\<lparr>mi_key = ''main'', mi_position = (0, 0), mi_size = (800, 600), mi_primary = True\<rparr>],
     io_move_ok = True\<rparr>"

definition sample_monitor :: monitor_layout where
  "sample_monitor = \<lparr>ml_key = ''main'', ml_bounds = int_rect 0 0 800 600, ml_scale = Fin 1, ml_primary = True\<rparr>"

definition sample_desk :: desk where
  "sample_desk = (desk_start (Some opened_db) (pixel_window 100 50 260 120))\<lparr>dk_monitors := [sample_monitor]\<rparr>"

lemma sample_monitor_read:
  "map (\<lambda>info. to_monitor_layout info (Fin 1)) [\<lparr>mi_key = ''main'', mi_position = (0, 0), mi_size = (800, 600), mi_primary = True\<rparr>]
    = [sample_monitor]"
  using whole_quotient [of 0] whole_quotient [of 800] whole_quotient [of 600] f32_round_int [of 1]
  by (simp add: to_monitor_layout_def sample_monitor_def int_rect_def Let_def)

lemma sample_monitor_found:
  "monitor_of_window (int_rect 100 50 260 120) [sample_monitor] = Some sample_monitor"
  by (simp add: monitor_of_window_def sample_monitor_def)

lemma saved_window_reappears_witness:
  "\<exists>k2. desk_step sample_io StartRestore
      (desk_start (dk_store (save_layout sample_io Show sample_desk)) (pixel_window 0 0 260 120)) = Some k2
    \<and> dk_move_request k2 = Some (100, 50) \<and> sh_mode (dk_controller k2) = Show"
proof -
  have whole: "\<forall>m \<in> set (dk_monitors sample_desk). whole_rect (ml_bounds m)"
    by (auto simp: sample_desk_def sample_monitor_def whole_rect_def whole_def int_rect_def
        intro: exI [of _ 0] exI [of _ 800] exI [of _ 600])
  have top: "validate_monitor_topology (dk_monitors sample_desk) = Ok sample_monitor"
    by (simp add: sample_desk_def sample_monitor_def validate_monitor_topology_def check_monitor_def rect_finite_def
        rect_non_positive_def int_rect_def)
  have store: "list_all (op_ok sample_lib) []" "dk_store sample_desk = Some (store_run sample_lib [] opened_db)"
    "fits (io_now sample_io)"
    by (simp_all add: sample_desk_def desk_start_def store_run_def sample_io_def fits_def)
  have found: "monitor_of_window (int_rect 100 50 (uint (260 :: u32)) (uint (120 :: u32))) (dk_monitors sample_desk)
      = Some sample_monitor" "ml_key sample_monitor \<noteq> []" "ml_bounds sample_monitor = int_rect 0 0 800 600"
    using sample_monitor_found by (simp_all add: sample_desk_def sample_monitor_def)
  have window: "dk_window sample_desk = pixel_window 100 50 260 120" by (simp add: sample_desk_def desk_start_def)
  let ?k = "desk_start (dk_store (save_layout sample_io Show sample_desk)) (pixel_window 0 0 260 120)"
  have restart: "dk_store ?k = dk_store (save_layout sample_io Show sample_desk)" "win_scale (dk_window ?k) = Fin 1"
    "win_position (dk_window ?k) = Some (0, 0)" by (simp_all add: desk_start_def pixel_window_def)
  have reread: "io_monitors sample_io = Some [\<lparr>mi_key = ''main'', mi_position = (0, 0), mi_size = (800, 600), mi_primary = True\<rparr>]"
    "map (\<lambda>info. to_monitor_layout info (Fin 1)) [\<lparr>mi_key = ''main'', mi_position = (0, 0), mi_size = (800, 600), mi_primary = True\<rparr>]
      = dk_monitors sample_desk" "io_move_ok sample_io"
    using sample_monitor_read by (simp_all add: sample_io_def sample_desk_def)
  show ?thesis
    using saved_window_reappears [OF store window _ _ _ _ _ _ top whole found(1,2,3) _ _ _ _ restart(1,2) reread]
    by (auto simp: restart(3))
qed

end
