(* ===== verification/Command_Line.thy ===== *)
theory Command_Line
  imports Instance_Commands Install
begin

text \<open>
  The command line, \<open>floatile-cli/src/main.rs\<close>: how arguments are read, and the commands \<open>instance\<close>, \<open>trust\<close> and \<open>install\<close>
  from their arguments to the exit code.

  The world is the file system and the databases at their paths (the tables of the instances and those of the
  publishers are in the same file).  A path is resolved against the working directory.  \<open>install\<close> returns the worlds it
  has passed through, newest first.  What is printed is the answer or the error; texts are left out.
\<close>

section \<open>Reading arguments\<close>

datatype argument_error =
    MissingValue string
  | UnknownOption string
  | TooManyPositionals nat
  | BothConfigs
  | NotAnInteger string
  | NoStore
  | NoDatabase

text \<open>The options of the \<open>instance\<close> commands.\<close>

record instance_cli_options =
  co_positionals :: "string list"
  co_version :: "string option"
  co_config :: "string option"
  co_config_file :: "string option"
  co_database :: "string option"
  co_store :: "string option"
  co_reason :: "string option"
  co_json :: bool
  co_start :: bool

definition no_options :: instance_cli_options where
  "no_options =
     \<lparr>co_positionals = [], co_version = None, co_config = None, co_config_file = None, co_database = None,
      co_store = None, co_reason = None, co_json = False, co_start = False\<rparr>"

definition INSTANCE_VALUE_OPTIONS :: "string list" where
  "INSTANCE_VALUE_OPTIONS = [''--version'', ''--config'', ''--config-file'', ''--db'', ''--store'', ''--reason'']"

definition set_option :: "string \<Rightarrow> string \<Rightarrow> instance_cli_options \<Rightarrow> instance_cli_options" where
  "set_option name v p =
     (if name = ''--version'' then p\<lparr>co_version := Some v\<rparr>
      else if name = ''--config'' then p\<lparr>co_config := Some v\<rparr>
      else if name = ''--config-file'' then p\<lparr>co_config_file := Some v\<rparr>
      else if name = ''--db'' then p\<lparr>co_database := Some v\<rparr>
      else if name = ''--reason'' then p\<lparr>co_reason := Some v\<rparr>
      else p\<lparr>co_store := Some v\<rparr>)"

fun parse_loop :: "string list \<Rightarrow> instance_cli_options \<Rightarrow> (instance_cli_options, argument_error) result" where
  "parse_loop [] p = Ok p"
| "parse_loop (a # rest) p =
     (if a = ''--json'' then parse_loop rest (p\<lparr>co_json := True\<rparr>)
      else if a = ''--no-interactive'' then parse_loop rest p
      else if a = ''--start'' then parse_loop rest (p\<lparr>co_start := True\<rparr>)
      else if a \<in> set INSTANCE_VALUE_OPTIONS
      then (case rest of [] \<Rightarrow> Err (MissingValue a) | v # rest' \<Rightarrow> parse_loop rest' (set_option a v p))
      else if starts_with a ''-'' then Err (UnknownOption a)
      else parse_loop rest (p\<lparr>co_positionals := co_positionals p @ [a]\<rparr>))"

definition instance_options_parse :: "string list \<Rightarrow> (instance_cli_options, argument_error) result" where
  "instance_options_parse args =
     try_bind (parse_loop args no_options)
       (\<lambda>p. if co_config p \<noteq> None \<and> co_config_file p \<noteq> None then Err BothConfigs else Ok p)"

text \<open>The positional arguments of the other commands.\<close>

fun positionals_loop ::
  "string list \<Rightarrow> string list \<Rightarrow> string list \<Rightarrow> string list \<Rightarrow> (string list, argument_error) result"
where
  "positionals_loop value_options boolean_options [] acc = Ok acc"
| "positionals_loop value_options boolean_options (a # rest) acc =
     (if a \<in> {''--json'', ''--no-interactive'', ''--deny-warnings''} \<or> a \<in> set boolean_options
      then positionals_loop value_options boolean_options rest acc
      else if a \<in> set value_options
      then (case rest of
              [] \<Rightarrow> Err (MissingValue a)
            | v # rest' \<Rightarrow> if starts_with v ''-'' then Err (MissingValue a)
                           else positionals_loop value_options boolean_options rest' acc)
      else if starts_with a ''-'' then Err (UnknownOption a)
      else positionals_loop value_options boolean_options rest (acc @ [a]))"

definition author_positionals ::
  "string list \<Rightarrow> string list \<Rightarrow> string list \<Rightarrow> nat \<Rightarrow> (string list, argument_error) result"
where
  "author_positionals args value_options boolean_options maximum =
     try_bind (positionals_loop value_options boolean_options args [])
       (\<lambda>ps. if maximum < length ps then Err (TooManyPositionals maximum) else Ok ps)"

text \<open>What follows the first occurrence of an argument; \<open>option_path\<close> reads it as a path.\<close>

definition argument_after :: "string list \<Rightarrow> string \<Rightarrow> string option option" where
  "argument_after args name =
     (case dropWhile (\<lambda>a. a \<noteq> name) args of [] \<Rightarrow> None | [_] \<Rightarrow> Some None | _ # v # _ \<Rightarrow> Some (Some v))"

definition option_string :: "string list \<Rightarrow> string \<Rightarrow> string option" where
  "option_string args name = Option.bind (argument_after args name) (\<lambda>v. v)"

definition option_u64 :: "string list \<Rightarrow> string \<Rightarrow> u64 \<Rightarrow> (u64, argument_error) result" where
  "option_u64 args name default_value =
     (case argument_after args name of
        None \<Rightarrow> Ok default_value
      | Some None \<Rightarrow> Err (MissingValue name)
      | Some (Some v) \<Rightarrow> ok_or (NotAnInteger name) (parse_u64 v))"

section \<open>The surroundings of a command\<close>

record 'v cli_env =
  ce_plugin :: "'v plugin_env"
  ce_package :: "'v package_lib"
  ce_install :: install_env
  ce_read_dir :: "fs \<Rightarrow> path \<Rightarrow> string list option"
  ce_cwd :: path
  ce_db_var :: "string option"
  ce_plugin_var :: "string option"
  ce_data_dir :: "path option"
  ce_opening :: "path \<Rightarrow> open_attempt"
  ce_json :: "bytes \<Rightarrow> json option"
  ce_now :: u64

record cli_world =
  cw_fs :: fs
  cw_db :: "path \<Rightarrow> db"
  cw_trust :: "path \<Rightarrow> trust_db"

datatype exit_code = ExitSuccess | ExitFailure | ExitUsage

definition cli_path :: "'v cli_env \<Rightarrow> string \<Rightarrow> path" where
  "cli_path env name = path_join (ce_cwd env) name"

text \<open>\<open>Path::file_name\<close>\<close>

definition path_file_name :: "string \<Rightarrow> string option" where
  "path_file_name s =
     (let segments = filter (\<lambda>x. x \<noteq> [] \<and> x \<noteq> ''.'') (split_on CHR ''/'' s)
      in if segments = [] \<or> last segments = ''..'' then None else Some (last segments))"

text \<open>An environment variable that is set and not empty.\<close>

definition nonempty_var :: "string option \<Rightarrow> string option" where
  "nonempty_var v = (if v = Some [] then None else v)"

text \<open>The given path, or that of the variable, or the file in the data directory.\<close>

definition path_or ::
  "'v cli_env \<Rightarrow> string option \<Rightarrow> string option \<Rightarrow> string \<Rightarrow> argument_error \<Rightarrow> (path, argument_error) result"
where
  "path_or env given var name missing =
     (case given of
        Some p \<Rightarrow> Ok (cli_path env p)
      | None \<Rightarrow>
          (case nonempty_var var of
             Some p \<Rightarrow> Ok (cli_path env p)
           | None \<Rightarrow> ok_or missing (map_option (\<lambda>d. path_join d name) (ce_data_dir env))))"

definition options_database :: "'v cli_env \<Rightarrow> instance_cli_options \<Rightarrow> (path, argument_error) result" where
  "options_database env p = path_or env (co_database p) (ce_db_var env) ''layout.db'' NoDatabase"

definition options_plugin_store :: "'v cli_env \<Rightarrow> instance_cli_options \<Rightarrow> (path, 'v instance_command_error) result" where
  "options_plugin_store env p =
     map_err (\<lambda>_. IcInvalidArguments) (path_or env (co_store p) (ce_plugin_var env) ''plugins'' NoStore)"

definition opts_database :: "'v cli_env \<Rightarrow> string list \<Rightarrow> (path, argument_error) result" where
  "opts_database env args = path_or env (option_string args ''--db'') (ce_db_var env) ''layout.db'' NoDatabase"

definition opts_store :: "'v cli_env \<Rightarrow> string list \<Rightarrow> (path, argument_error) result" where
  "opts_store env args =
     (case argument_after args ''--store'' of
        Some v \<Rightarrow> ok_or NoStore (map_option (cli_path env) v)
      | None \<Rightarrow> ok_or NoStore (map_option (cli_path env) (nonempty_var (ce_plugin_var env))))"

section \<open>The instance commands\<close>

datatype instance_answer = AnswerOne instance_view | AnswerMany "instance_view list" | AnswerDeleted instance_view

definition instance_id_of :: "instance_cli_options \<Rightarrow> (u64, 'v instance_command_error) result" where
  "instance_id_of p =
     (case co_positionals p of
        [s] \<Rightarrow> ok_or IcInvalidArguments (parse_u64 s)
      | _ \<Rightarrow> Err IcInvalidArguments)"

definition cli_config :: "'v cli_env \<Rightarrow> instance_cli_options \<Rightarrow> fs \<Rightarrow> (json_map, 'v instance_command_error) result" where
  "cli_config env p fs =
     try_bind (case (co_config p, co_config_file p) of
          (Some v, _) \<Rightarrow> Ok v
        | (None, Some f) \<Rightarrow> ok_or IcInvalidArguments (fs_read (cli_path env f) fs)
        | (None, None) \<Rightarrow> Err IcInvalidArguments) (\<lambda>b.
     try_bind (ok_or IcInvalidArguments (ce_json env b)) (\<lambda>v.
     map_err IcConfig (config_new (sl_json_text (pe_store_lib (ce_plugin env))) v)))"

definition cli_config_or_empty ::
  "'v cli_env \<Rightarrow> instance_cli_options \<Rightarrow> fs \<Rightarrow> (json_map, 'v instance_command_error) result"
where
  "cli_config_or_empty env p fs = (if co_config p = None \<and> co_config_file p = None then Ok [] else cli_config env p fs)"

text \<open>The libraries with the chosen directory of plugins.\<close>

definition with_plugin_dir :: "'v cli_env \<Rightarrow> path \<Rightarrow> 'v plugin_env" where
  "with_plugin_dir env dir = (ce_plugin env)\<lparr>pe_dir := dir\<rparr>"

text \<open>A command that needs arguments first.\<close>

definition given :: "('a, 'e) result \<Rightarrow> 'd \<Rightarrow> ('a \<Rightarrow> ('b, 'e) result \<times> 'd) \<Rightarrow> ('b, 'e) result \<times> 'd" where
  "given arguments d command = (case arguments of Err e \<Rightarrow> (Err e, d) | Ok a \<Rightarrow> command a)"

definition answered :: "('a \<Rightarrow> 'b) \<Rightarrow> ('a, 'e) result \<times> 'd \<Rightarrow> ('b, 'e) result \<times> 'd" where
  "answered f r = (try_bind (fst r) (\<lambda>v. Ok (f v)), snd r)"

definition cmd_instance_create ::
  "'v cli_env \<Rightarrow> open_attempt \<Rightarrow> instance_cli_options \<Rightarrow> fs \<Rightarrow> db \<Rightarrow> (instance_answer, 'v instance_command_error) result \<times> db"
where
  "cmd_instance_create env attempt p fs d =
     given (case co_positionals p of [pid] \<Rightarrow> Ok pid | _ \<Rightarrow> Err IcInvalidArguments) d (\<lambda>pid.
     given (ok_or IcInvalidArguments (co_version p)) d (\<lambda>version.
     given (options_plugin_store env p) d (\<lambda>store.
     given (cli_config_or_empty env p fs) d (\<lambda>config.
     answered AnswerOne
       (create_instance (with_plugin_dir env store) attempt fs pid version config
          (if co_start p then DesiredRunning else DesiredStopped) (ce_now env) d)))))"

text \<open>\<open>None\<close> is an action that does not exist.\<close>

definition instance_action ::
  "'v::linorder cli_env \<Rightarrow> string \<Rightarrow> open_attempt \<Rightarrow> instance_cli_options \<Rightarrow> fs \<Rightarrow> trust_db \<Rightarrow> db
     \<Rightarrow> ((instance_answer, 'v instance_command_error) result \<times> db) option"
where
  "instance_action env action attempt p fs trust d =
     (let libs = ce_plugin env; now = ce_now env in
      if action = ''create'' then Some (cmd_instance_create env attempt p fs d)
      else if action = ''list'' \<and> co_positionals p = [] then Some (answered AnswerMany (list_instances libs attempt d))
      else if action = ''get''
      then Some (given (instance_id_of p) d (\<lambda>iid. answered AnswerOne (get_instance libs attempt iid d)))
      else if action = ''configure''
      then Some (given (instance_id_of p) d (\<lambda>iid. given (cli_config env p fs) d (\<lambda>config.
             given (options_plugin_store env p) d (\<lambda>store.
             answered AnswerOne (configure_instance (with_plugin_dir env store) attempt fs iid config now d)))))
      else if action = ''start''
      then Some (given (instance_id_of p) d (\<lambda>iid.
             answered AnswerOne (set_instance_desired_state libs attempt iid DesiredRunning now d)))
      else if action = ''stop''
      then Some (given (instance_id_of p) d (\<lambda>iid.
             answered AnswerOne (set_instance_desired_state libs attempt iid DesiredStopped now d)))
      else if action = ''delete''
      then Some (given (instance_id_of p) d (\<lambda>iid. answered AnswerDeleted (delete_instance libs attempt iid d)))
      else if action = ''rollback''
      then Some (given (instance_id_of p) d (\<lambda>iid.
             given (ok_or IcInvalidArguments (co_version p)) d (\<lambda>version.
             given (ok_or IcInvalidArguments (co_reason p)) d (\<lambda>reason.
             given (options_plugin_store env p) d (\<lambda>store.
             answered AnswerOne
               (rollback_instance (with_plugin_dir env store) attempt fs trust iid version reason now d))))))
      else None)"

definition instance_exit :: "('a, 'v instance_command_error) result \<Rightarrow> exit_code" where
  "instance_exit r =
     (case r of Ok _ \<Rightarrow> ExitSuccess | Err IcInvalidArguments \<Rightarrow> ExitUsage | Err _ \<Rightarrow> ExitFailure)"

definition cmd_instance ::
  "'v::linorder cli_env \<Rightarrow> string list \<Rightarrow> cli_world
     \<Rightarrow> exit_code \<times> (instance_answer, 'v instance_command_error) result option \<times> cli_world"
where
  "cmd_instance env args w =
     (case args of
        [] \<Rightarrow> (ExitUsage, None, w)
      | action # rest \<Rightarrow>
          (case instance_options_parse rest of
             Err _ \<Rightarrow> (ExitUsage, None, w)
           | Ok p \<Rightarrow>
               (case options_database env p of
                  Err _ \<Rightarrow> (ExitUsage, Some (Err IcInvalidArguments), w)
                | Ok path \<Rightarrow>
                    (case instance_action env action (ce_opening env path) p (cw_fs w) (cw_trust w path) (cw_db w path) of
                       None \<Rightarrow> (ExitUsage, None, w)
                     | Some (r, d) \<Rightarrow> (instance_exit r, Some r, w\<lparr>cw_db := (cw_db w)(path := d)\<rparr>)))))"

section \<open>The trust commands\<close>

definition cmd_trust ::
  "'v cli_env \<Rightarrow> string list \<Rightarrow> cli_world \<Rightarrow> exit_code \<times> (trust_view, trust_command_error) result option \<times> cli_world"
where
  "cmd_trust env args w =
     (case try_bind (author_positionals args [''--db''] [] 3) (\<lambda>ps. try_bind (opts_database env args) (\<lambda>path. Ok (ps, path))) of
        Err _ \<Rightarrow> (ExitUsage, None, w)
      | Ok (ps, path) \<Rightarrow>
          (let cr = il_crypto (pe_lib (ce_plugin env)); attempt = ce_opening env path; d = cw_trust w path; now = ce_now env;
               result = (case ps of
                   [action, pub] \<Rightarrow>
                     if action = ''show'' then Some (show_trust cr attempt pub d, d)
                     else if action = ''revoke-publisher'' then Some (revoke_publisher cr attempt pub now d)
                     else None
                 | [action, pub, key] \<Rightarrow>
                     if action = ''add-key'' then Some (add_key cr attempt pub key now d)
                     else if action = ''revoke-key'' then Some (revoke_key cr attempt pub key now d)
                     else None
                 | _ \<Rightarrow> None)
           in case result of
                None \<Rightarrow> (ExitUsage, None, w)
              | Some (r, d') \<Rightarrow>
                  (case r of Ok _ \<Rightarrow> ExitSuccess | Err _ \<Rightarrow> ExitFailure, Some r, w\<lparr>cw_trust := (cw_trust w)(path := d')\<rparr>)))"

section \<open>The installation command\<close>

definition install_exit ::
  "('a, 'e) result \<times> 'h list \<Rightarrow> ('h \<Rightarrow> cli_world) \<Rightarrow> cli_world list
     \<Rightarrow> exit_code \<times> ('a, 'e) result option \<times> cli_world list"
where
  "install_exit r world_of earlier =
     (case fst r of Ok _ \<Rightarrow> ExitSuccess | Err _ \<Rightarrow> ExitFailure, Some (fst r), map world_of (snd r) @ earlier)"

definition install_source :: "string \<Rightarrow> string" where
  "install_source name = (case path_file_name name of Some n \<Rightarrow> n | None \<Rightarrow> ''plugin.floatile'')"

text \<open>From the bytes of the package on.\<close>

definition install_read ::
  "'v::linorder cli_env \<Rightarrow> string list \<Rightarrow> path \<Rightarrow> string \<Rightarrow> bytes \<Rightarrow> cli_world
     \<Rightarrow> exit_code \<times> ('v installed_package, 'v install_error) result option \<times> cli_world list"
where
  "install_read env args store source bytes w =
     (let plib = ce_package env; ienv = ce_install env in
      if ''--require-trusted'' \<in> set args
      then (case opts_database env args of
              Err _ \<Rightarrow> (ExitUsage, None, [w])
            | Ok database \<Rightarrow>
                (case fs_mkdir_all (ie_faults ienv) (butlast database) (cw_fs w) of
                   None \<Rightarrow> (ExitFailure, None, [w])
                 | Some fs0 \<Rightarrow>
                     if ce_opening env database \<noteq> Opens then (ExitFailure, None, [w\<lparr>cw_fs := fs0\<rparr>, w])
                     else install_exit
                       (io_bind (recover_trusted_installs (pk_install plib) ienv store) (\<lambda>_.
                          install_trusted_package plib ienv (ce_read_dir env) bytes store source default_package_limits
                            (''--accept-permissions'' \<in> set args)) [(fs0, cw_trust w database)])
                       (\<lambda>(fs, d). w\<lparr>cw_fs := fs, cw_trust := (cw_trust w)(database := d)\<rparr>) [w]))
      else install_exit
        (install_package plib ienv bytes store source default_package_limits [(cw_fs w, cw_trust w [])])
        (\<lambda>(fs, d). w\<lparr>cw_fs := fs\<rparr>) [])"

definition install_arguments :: "'v cli_env \<Rightarrow> string list \<Rightarrow> (string \<times> path, argument_error) result" where
  "install_arguments env args =
     try_bind (author_positionals args [''--store'', ''--db''] [''--require-trusted'', ''--accept-permissions''] 1) (\<lambda>ps.
     try_bind (case ps of [] \<Rightarrow> Err (MissingValue ''install'') | p # _ \<Rightarrow> Ok p) (\<lambda>p.
     try_bind (opts_store env args) (\<lambda>store. Ok (p, store))))"

definition cmd_install ::
  "'v::linorder cli_env \<Rightarrow> string list \<Rightarrow> cli_world
     \<Rightarrow> exit_code \<times> ('v installed_package, 'v install_error) result option \<times> cli_world list"
where
  "cmd_install env args w =
     (case install_arguments env args of
        Err _ \<Rightarrow> (ExitUsage, None, [w])
      | Ok (p, store) \<Rightarrow>
          (case fs_read (cli_path env p) (cw_fs w) of
             None \<Rightarrow> (ExitFailure, None, [w])
           | Some bytes \<Rightarrow> install_read env args store (install_source p) bytes w))"

section \<open>The readers of the arguments agree\<close>

text \<open>An accepted argument list is a sequence of flags, options with a value, and positional arguments.\<close>

datatype arg_item = FlagItem string | ValueItem string string | PositionalItem string

fun item_words :: "arg_item \<Rightarrow> string list" where
  "item_words (FlagItem f) = [f]"
| "item_words (ValueItem name v) = [name, v]"
| "item_words (PositionalItem p) = [p]"

definition is_option :: "string \<Rightarrow> bool" where
  "is_option a \<longleftrightarrow> starts_with a ''-''"

fun item_ok :: "string list \<Rightarrow> string list \<Rightarrow> arg_item \<Rightarrow> bool" where
  "item_ok vs bs (FlagItem f) \<longleftrightarrow> f \<in> {''--json'', ''--no-interactive'', ''--deny-warnings''} \<or> f \<in> set bs"
| "item_ok vs bs (ValueItem name v) \<longleftrightarrow> name \<in> set vs \<and> \<not> is_option v"
| "item_ok vs bs (PositionalItem p) \<longleftrightarrow> \<not> is_option p"

definition item_positionals :: "arg_item list \<Rightarrow> string list" where
  "item_positionals items = List.map_filter (\<lambda>x. case x of PositionalItem p \<Rightarrow> Some p | _ \<Rightarrow> None) items"

fun item_value :: "string \<Rightarrow> arg_item list \<Rightarrow> string option" where
  "item_value name [] = None"
| "item_value name (ValueItem n v # items) = (if n = name then Some v else item_value name items)"
| "item_value name (x # items) = item_value name items"

lemma item_positionals_simps [simp]:
  "item_positionals [] = []" "item_positionals (FlagItem f # items) = item_positionals items"
  "item_positionals (ValueItem n v # items) = item_positionals items"
  "item_positionals (PositionalItem p # items) = p # item_positionals items"
  by (simp_all add: item_positionals_def List.map_filter_def)

lemma positionals_loop_items:
  "positionals_loop vs bs args acc = Ok ps \<Longrightarrow>
     \<exists>items. args = concat (map item_words items) \<and> list_all (item_ok vs bs) items \<and> ps = acc @ item_positionals items"
proof (induction vs bs args acc rule: positionals_loop.induct)
  case (1 vs bs acc)
  then show ?case by (intro exI [of _ "[]"]) simp
next
  case (2 vs bs a rest acc)
  show ?case
  proof (cases "a \<in> {''--json'', ''--no-interactive'', ''--deny-warnings''} \<or> a \<in> set bs")
    case True
    with "2.prems" "2.IH"(1) [OF True] obtain items where
      "rest = concat (map item_words items)" "list_all (item_ok vs bs) items" "ps = acc @ item_positionals items" by auto
    with True show ?thesis by (intro exI [of _ "FlagItem a # items"]) simp
  next
    case flag: False
    show ?thesis
    proof (cases "a \<in> set vs")
      case True
      with flag "2.prems" obtain v rest' where rest: "rest = v # rest'" and v: "\<not> starts_with v ''-''"
        and loop: "positionals_loop vs bs rest' acc = Ok ps" by (auto split: list.splits if_splits)
      from "2.IH"(2) [OF flag True rest v loop] obtain items where
        "rest' = concat (map item_words items)" "list_all (item_ok vs bs) items" "ps = acc @ item_positionals items" by auto
      with True rest v show ?thesis by (intro exI [of _ "ValueItem a v # items"]) (simp add: is_option_def)
    next
      case val: False
      with flag "2.prems" have a: "\<not> starts_with a ''-''" and loop: "positionals_loop vs bs rest (acc @ [a]) = Ok ps"
        by (auto split: if_splits)
      from "2.IH"(3) [OF flag val a loop] obtain items where
        "rest = concat (map item_words items)" "list_all (item_ok vs bs) items" "ps = (acc @ [a]) @ item_positionals items" by auto
      with a show ?thesis by (intro exI [of _ "PositionalItem a # items"]) (simp add: is_option_def)
    qed
  qed
qed

lemma items_value:
  assumes "list_all (item_ok vs bs) items" and "is_option name" and "name \<notin> set bs"
    and "name \<notin> {''--json'', ''--no-interactive'', ''--deny-warnings''}"
  shows "argument_after (concat (map item_words items)) name = map_option Some (item_value name items)"
  using assms
proof (induction items)
  case (Cons x items)
  then have ih: "argument_after (concat (map item_words items)) name = map_option Some (item_value name items)" by simp
  show ?case
  proof (cases x)
    case (FlagItem f)
    with Cons.prems have "f \<noteq> name" by auto
    with ih FlagItem show ?thesis by (simp add: argument_after_def)
  next
    case (ValueItem n v)
    with Cons.prems have "v \<noteq> name" by auto
    with ih ValueItem show ?thesis by (simp add: argument_after_def)
  next
    case (PositionalItem p)
    with Cons.prems have "p \<noteq> name" by auto
    with ih PositionalItem show ?thesis by (simp add: argument_after_def)
  qed
qed (simp add: argument_after_def)

lemma items_flag:
  assumes "list_all (item_ok vs bs) items" and "is_option f" and "f \<notin> set vs"
  shows "f \<in> set (concat (map item_words items)) \<longleftrightarrow> FlagItem f \<in> set items"
  using assms
proof (induction items)
  case (Cons x items)
  then show ?case by (cases x) auto
qed simp

text \<open>The commands read their arguments several times, once for the positional ones and once for every option and flag.
  All these readings agree: an accepted argument list divides into flags, options with their values and positional
  arguments; every option has the value it has there (the first, if it is given twice), a flag is set exactly if it
  is there, and is never mistaken for a value.\<close>

theorem argument_readers_agree:
  assumes "author_positionals args vs bs maximum = Ok ps"
  shows "\<exists>items. args = concat (map item_words items) \<and> list_all (item_ok vs bs) items
    \<and> ps = item_positionals items \<and> length ps \<le> maximum
    \<and> (\<forall>name. is_option name \<and> name \<notin> set bs \<union> {''--json'', ''--no-interactive'', ''--deny-warnings''} \<longrightarrow>
          option_string args name = item_value name items)
    \<and> (\<forall>f. is_option f \<and> f \<notin> set vs \<longrightarrow> (f \<in> set args \<longleftrightarrow> FlagItem f \<in> set items))"
proof -
  from assms have loop: "positionals_loop vs bs args [] = Ok ps" and len: "length ps \<le> maximum"
    by (auto simp: author_positionals_def split: if_splits)
  from positionals_loop_items [OF loop] obtain items where
    items: "args = concat (map item_words items)" "list_all (item_ok vs bs) items" "ps = item_positionals items" by auto
  have "option_string args name = item_value name items"
    if "is_option name" "name \<notin> set bs \<union> {''--json'', ''--no-interactive'', ''--deny-warnings''}" for name
    using items_value [OF items(2), of name] that by (cases "item_value name items") (auto simp: option_string_def items(1))
  moreover have "f \<in> set args \<longleftrightarrow> FlagItem f \<in> set items" if "is_option f" "f \<notin> set vs" for f
    using items_flag [OF items(2) that] by (simp add: items(1))
  ultimately show ?thesis using items len by blast
qed

lemma argument_readers_agree_witness:
  "\<exists>items. [''--db'', ''x.db'', ''clock.floatile'', ''--json''] = concat (map item_words items)
     \<and> option_string [''--db'', ''x.db'', ''clock.floatile'', ''--json''] ''--db'' = item_value ''--db'' items"
proof -
  have "author_positionals [''--db'', ''x.db'', ''clock.floatile'', ''--json''] [''--db''] [] 1 = Ok [''clock.floatile'']"
    by (simp add: author_positionals_def starts_with_def)
  from argument_readers_agree [OF this] show ?thesis by (auto simp: is_option_def starts_with_def)
qed

section \<open>A usage error changes nothing\<close>

text \<open>A result that is no usage error.\<close>

definition no_usage :: "('a, 'v instance_command_error) result \<Rightarrow> bool" where
  "no_usage r \<longleftrightarrow> r \<noteq> Err IcInvalidArguments"

named_theorems usage_rules

lemma no_usage_bind [usage_rules]: "no_usage r \<Longrightarrow> (\<And>a. no_usage (f a)) \<Longrightarrow> no_usage (try_bind r f)"
  by (cases r) (auto simp: no_usage_def)

lemma no_usage_map_err [usage_rules]: "(\<And>e. h e \<noteq> IcInvalidArguments) \<Longrightarrow> no_usage (map_err h r)"
  by (cases r) (auto simp: no_usage_def)

lemma no_usage_ok_or [usage_rules]: "e \<noteq> IcInvalidArguments \<Longrightarrow> no_usage (ok_or e x)"
  by (cases x) (auto simp: no_usage_def)

lemma no_usage_Ok [usage_rules]: "no_usage (Ok a)"
  by (simp add: no_usage_def)

lemma no_usage_stopped [usage_rules]: "no_usage (stopped_required p)"
  by (simp add: no_usage_def stopped_required_def)

lemma no_usage_config [usage_rules]: "no_usage (check_config env i c)"
proof -
  have "config_command_error e \<noteq> IcInvalidArguments" for e by (cases e) auto
  then show ?thesis unfolding check_config_def by (rule no_usage_map_err)
qed

lemma no_usage_required [usage_rules]: "no_usage (instance_required lib iid d)" "no_usage (get_from_store lib iid d)"
  "no_usage (installation_required pid version found)" "no_usage (instance_installation env fs p)"
  by (auto simp: instance_required_def get_from_store_def installation_required_def instance_installation_def intro!: usage_rules)

lemma no_usage_opened: "(\<And>d0. no_usage (fst (f d0))) \<Longrightarrow> no_usage (fst (with_database attempt d f))"
  by (cases attempt; cases "migrate d") (auto simp: with_database_def open_database_def no_usage_def)

lemma no_usage_after: "(\<And>d0. no_usage (answer d0)) \<Longrightarrow> no_usage (fst (after_update iid answer r))"
  by (auto simp: after_update_def no_usage_def split: prod.split result.split)

lemma no_usage_checked:
  "no_usage r \<Longrightarrow> (\<And>a. r = Ok a \<Longrightarrow> no_usage (fst (g a))) \<Longrightarrow>
     no_usage (fst (case r of Err e \<Rightarrow> (Err e, d) | Ok a \<Rightarrow> g a))"
  by (cases r) (auto simp: no_usage_def)

lemma no_usage_commands:
  "no_usage (fst (create_instance env attempt fs pid version config desired now d))"
  "no_usage (fst (list_instances env attempt d))" "no_usage (fst (get_instance env attempt iid d))"
  "no_usage (fst (configure_instance env attempt fs iid config now d))"
  "no_usage (fst (set_instance_desired_state env attempt iid desired now d))"
  "no_usage (fst (delete_instance env attempt iid d))"
proof -
  show "no_usage (fst (create_instance env attempt fs pid version config desired now d))"
    unfolding create_instance_def
    by (intro no_usage_checked no_usage_opened usage_rules) (auto simp: no_usage_def split: prod.split result.split)
  show "no_usage (fst (list_instances env attempt d))" "no_usage (fst (get_instance env attempt iid d))"
    by (auto simp: list_instances_def get_instance_def intro!: no_usage_opened usage_rules)
  show "no_usage (fst (configure_instance env attempt fs iid config now d))"
    "no_usage (fst (set_instance_desired_state env attempt iid desired now d))"
    "no_usage (fst (delete_instance env attempt iid d))"
    unfolding configure_instance_def set_instance_desired_state_def delete_instance_def
    by (intro no_usage_opened no_usage_checked no_usage_after usage_rules; simp)+
qed

lemma rollback_usage:
  "fst (rollback_instance env attempt fs trust iid version reason now d) = Err IcInvalidArguments \<Longrightarrow>
     snd (rollback_instance env attempt fs trust iid version reason now d) = d"
proof -
  have "no_usage (fst (with_database attempt d (\<lambda>d0.
          case rollback_checks env fs trust iid version d0 of
            Err e \<Rightarrow> (Err e, d0)
          | Ok (p, r) \<Rightarrow>
              after_update iid (get_from_store (pe_store_lib env) iid)
                (instance_rollback (pe_store_lib env) iid (pi_installation p) r reason (max now (pi_updated_at p)) d0))))"
    unfolding rollback_checks_def
    by (intro no_usage_opened no_usage_checked usage_rules) (auto intro!: no_usage_after usage_rules split: prod.split)
  then show "fst (rollback_instance env attempt fs trust iid version reason now d) = Err IcInvalidArguments \<Longrightarrow> ?thesis"
    by (auto simp: rollback_instance_def no_usage_def split: if_splits)
qed

text \<open>A usage error of a command keeps the database.\<close>

definition usage_keeps :: "'d \<Rightarrow> ('a, 'v instance_command_error) result \<times> 'd \<Rightarrow> bool" where
  "usage_keeps d r \<longleftrightarrow> (fst r = Err IcInvalidArguments \<longrightarrow> snd r = d)"

lemma usage_keeps_given: "(\<And>a. usage_keeps d (command a)) \<Longrightarrow> usage_keeps d (given r d command)"
  by (cases r) (auto simp: given_def usage_keeps_def)

lemma usage_keeps_answered: "usage_keeps d r \<Longrightarrow> usage_keeps d (answered f r)"
  by (cases "fst r") (auto simp: answered_def usage_keeps_def)

lemma usage_keeps_free: "no_usage (fst r) \<Longrightarrow> usage_keeps d r"
  by (simp add: usage_keeps_def no_usage_def)

lemma usage_keeps_action:
  "instance_action env action attempt p fs trust d = Some r \<Longrightarrow> usage_keeps d r"
proof -
  have rollback: "usage_keeps d (rollback_instance env' attempt fs trust iid version reason now d)"
    for env' iid version reason now using rollback_usage by (auto simp: usage_keeps_def)
  have create: "usage_keeps d (cmd_instance_create env attempt p fs d)"
    unfolding cmd_instance_create_def by (intro usage_keeps_given usage_keeps_answered usage_keeps_free no_usage_commands)
  show "instance_action env action attempt p fs trust d = Some r \<Longrightarrow> ?thesis"
    unfolding instance_action_def Let_def
    by (auto split: if_splits intro!: create rollback usage_keeps_given usage_keeps_answered
        usage_keeps_free [OF no_usage_commands(2)] usage_keeps_free [OF no_usage_commands(3)]
        usage_keeps_free [OF no_usage_commands(4)] usage_keeps_free [OF no_usage_commands(5)]
        usage_keeps_free [OF no_usage_commands(6)])
qed

lemma instance_exit_usage: "instance_exit r = ExitUsage \<longleftrightarrow> r = Err IcInvalidArguments"
  by (auto simp: instance_exit_def split: result.splits instance_command_error.splits)

text \<open>C30: An exit code of 2 means that nothing has happened: whatever the arguments, the file system and the databases
  are what they were before the command, for the commands on instances, on publishers and for the installation.\<close>

theorem usage_error_changes_nothing:
  "(fst (cmd_instance env args w) = ExitUsage \<longrightarrow> snd (snd (cmd_instance env args w)) = w)
   \<and> (fst (cmd_trust env args w) = ExitUsage \<longrightarrow> snd (snd (cmd_trust env args w)) = w)
   \<and> (fst (cmd_install env args w) = ExitUsage \<longrightarrow> snd (snd (cmd_install env args w)) = [w])"
proof (intro conjI impI)
  assume usage: "fst (cmd_instance env args w) = ExitUsage"
  show "snd (snd (cmd_instance env args w)) = w"
  proof (cases "\<exists>action rest p path r d. args = action # rest \<and> instance_options_parse rest = Ok p
      \<and> options_database env p = Ok path
      \<and> instance_action env action (ce_opening env path) p (cw_fs w) (cw_trust w path) (cw_db w path) = Some (r, d)")
    case True
    then obtain action rest p path r d where run: "args = action # rest" "instance_options_parse rest = Ok p"
      "options_database env p = Ok path"
      "instance_action env action (ce_opening env path) p (cw_fs w) (cw_trust w path) (cw_db w path) = Some (r, d)" by blast
    with usage have "r = Err IcInvalidArguments" by (simp add: cmd_instance_def instance_exit_usage)
    with usage_keeps_action [OF run(4)] have "d = cw_db w path" by (simp add: usage_keeps_def)
    with run show ?thesis by (simp add: cmd_instance_def)
  next
    case False
    then show ?thesis by (auto simp: cmd_instance_def split: list.splits result.splits option.splits)
  qed
next
  assume "fst (cmd_trust env args w) = ExitUsage"
  then show "snd (snd (cmd_trust env args w)) = w"
    by (auto simp: cmd_trust_def Let_def split: result.splits option.splits)
next
  assume "fst (cmd_install env args w) = ExitUsage"
  then show "snd (snd (cmd_install env args w)) = [w]"
    by (auto simp: cmd_install_def install_read_def install_exit_def Let_def split: result.splits option.splits if_splits)
qed

section \<open>What an installation from the command line has checked\<close>

lemma io_bind_Ok: "io_bind m f h = (Ok b, h') \<longleftrightarrow> (\<exists>a h1. m h = (Ok a, h1) \<and> f a h1 = (Ok b, h'))"
  by (auto simp: io_bind_def split: prod.splits result.splits)

lemma io_of_Ok: "io_of r h = (Ok a, h') \<longleftrightarrow> r = Ok a \<and> h' = h"
  by (auto simp: io_of_def)

lemma io_catch_Ok:
  "io_catch m f h = (Ok a, h') \<longleftrightarrow> m h = (Ok a, h') \<or> (\<exists>e h1. m h = (Err e, h1) \<and> f e h1 = (Ok a, h'))"
  by (auto simp: io_catch_def split: prod.splits result.splits)

lemma io_world_Ok: "io_world h = (Ok w, h') \<longleftrightarrow> w = hd h \<and> h' = h"
  by (auto simp: io_world_def)

lemmas io_Ok = io_bind_Ok io_of_Ok io_catch_Ok io_world_Ok

lemma staged_meta:
  "stage_and_commit lib env staging final v source h = (Ok meta, h') \<Longrightarrow> meta = staging_meta lib env v source Trusted"
  by (auto simp: stage_and_commit_def write_staging_def Let_def io_Ok)

lemma unsigned_meta:
  "install_validated lib env store v source h = (Ok ip, h') \<Longrightarrow>
     ip_meta ip = staging_meta lib env v source Unsigned \<and> ip_manifest ip = vp_manifest v"
  by (auto simp: install_validated_def write_staging_def Let_def io_Ok split: if_splits)

text \<open>What a trusted installation that succeeds has found in the world it started in.\<close>

lemma trusted_install_Ok:
  assumes "install_trusted_package plib env read_dir bytes store source limits accept h = (Ok ip, h')"
  obtains v trust envelope where "validate_package plib limits bytes = Ok v" "ip_manifest ip = vp_manifest v"
    "trust_get (il_crypto (pk_install plib)) (pub_id (mf_publisher (vp_manifest v))) (snd (hd h)) = Ok (Some trust)"
    "bt_lookup SIGNATURE_FILE (vp_files v) = Some envelope"
    "verify_signature_envelope (il_crypto (pk_install plib)) envelope (vp_files v) (pub_id (mf_publisher (vp_manifest v)))
       (verifier_binding trust) = Ok ()"
    "im_trust (ip_meta ip) = Trusted"
    "\<And>plan. ip_upgrade ip = Some plan \<Longrightarrow> up_requires_confirmation plan \<Longrightarrow> accept"
proof -
  let ?lib = "pk_install plib"
  from assms obtain v current upgrade meta h1 trust where v: "validate_package plib limits bytes = Ok v"
    and trust: "trust_get (il_crypto ?lib) (pub_id (mf_publisher (vp_manifest v))) (snd (hd h)) = Ok trust"
    and verified: "verify_package_signature ?lib (vp_files v) (pub_id (mf_publisher (vp_manifest v))) trust = Ok ()"
    and upgrade: "upgrade_of ?lib (vp_manifest v) accept current = Ok upgrade"
    and staged: "stage_and_commit ?lib env (path_join store (''.staging-'' @ ie_nonce env))
        (install_dir store (mf_id (vp_manifest v)) (mf_version (vp_manifest v))) v source h = (Ok meta, h1)"
    and ip: "ip = \<lparr>ip_dir = install_dir store (mf_id (vp_manifest v)) (mf_version (vp_manifest v)),
        ip_manifest = vp_manifest v, ip_meta = meta, ip_upgrade = upgrade\<rparr>"
    by (auto simp: install_trusted_package_def Let_def io_Ok split: if_splits)
  from verified obtain t envelope where t: "trust = Some t" "bt_lookup SIGNATURE_FILE (vp_files v) = Some envelope"
    "verify_signature_envelope (il_crypto ?lib) envelope (vp_files v) (pub_id (mf_publisher (vp_manifest v))) (verifier_binding t) = Ok ()"
    by (auto simp: verify_package_signature_def)
  have plan: "accept" if "upgrade = Some plan" "up_requires_confirmation plan" for plan
    using upgrade that by (auto simp: upgrade_of_def split: option.splits if_splits)
  show ?thesis
    by (rule that [OF v _ trust [unfolded t(1)] t(2,3)]) (use ip staged_meta [OF staged] plan in \<open>auto simp: staging_meta_def Let_def\<close>)
qed

lemma install_arguments_store: "install_arguments env args = Ok (p, store) \<Longrightarrow> opts_store env args = Ok store"
proof (cases "author_positionals args [''--store'', ''--db''] [''--require-trusted'', ''--accept-permissions''] 1")
  case (Ok ps)
  then show "install_arguments env args = Ok (p, store) \<Longrightarrow> opts_store env args = Ok store"
    by (cases ps; cases "opts_store env args") (auto simp: install_arguments_def)
qed (simp add: install_arguments_def)

lemma install_exit_Ok: "install_exit r f earlier = (ExitSuccess, Some (Ok a), h) \<longleftrightarrow> (\<exists>h0. r = (Ok a, h0) \<and> h = map f h0 @ earlier)"
  by (cases r) (auto simp: install_exit_def split: result.splits)

text \<open>C27: An installation that succeeds from the command line has done what its arguments ask for. With
  \<open>--require-trusted\<close> anywhere among them, interrupted installations were recovered first, and then the
  package of the one positional argument was installed, which passes all checks and has a signature that verifies, for
  exactly its files, under a publisher that is known and active after the recovery; an upgrade that asks for more
  permissions went through only if \<open>--accept-permissions\<close> was given. Without it the installation is
  marked as unsigned, and no database has changed at any moment.\<close>

theorem install_obeys_its_flags:
  assumes "cmd_install env args w = (ExitSuccess, Some (Ok ip), h)"
  shows "\<exists>name store bytes v. install_arguments env args = Ok (name, store) \<and> opts_store env args = Ok store
    \<and> fs_read (cli_path env name) (cw_fs w) = Some bytes
    \<and> validate_package (ce_package env) default_package_limits bytes = Ok v \<and> ip_manifest ip = vp_manifest v
    \<and> (if ''--require-trusted'' \<in> set args
       then im_trust (ip_meta ip) = Trusted
         \<and> (\<forall>plan. ip_upgrade ip = Some plan \<longrightarrow> up_requires_confirmation plan \<longrightarrow> ''--accept-permissions'' \<in> set args)
         \<and> (\<exists>database fs0 report h1 trust envelope. opts_database env args = Ok database
            \<and> fs_mkdir_all (ie_faults (ce_install env)) (butlast database) (cw_fs w) = Some fs0
            \<and> recover_trusted_installs (pk_install (ce_package env)) (ce_install env) store [(fs0, cw_trust w database)] = (Ok report, h1)
            \<and> trust_get (il_crypto (pk_install (ce_package env))) (pub_id (mf_publisher (vp_manifest v))) (snd (hd h1)) = Ok (Some trust)
            \<and> pt_state trust = TrustActive \<and> pt_publisher_id trust = pub_id (mf_publisher (vp_manifest v))
            \<and> bt_lookup SIGNATURE_FILE (vp_files v) = Some envelope
            \<and> verify_signature_envelope (il_crypto (pk_install (ce_package env))) envelope (vp_files v)
                (pub_id (mf_publisher (vp_manifest v))) (verifier_binding trust) = Ok ())
       else im_trust (ip_meta ip) = Unsigned \<and> (\<forall>u \<in> set h. cw_trust u = cw_trust w \<and> cw_db u = cw_db w))"
proof -
  let ?lib = "pk_install (ce_package env)" and ?ienv = "ce_install env"
  from assms obtain name store bytes where args: "install_arguments env args = Ok (name, store)" "opts_store env args = Ok store" "fs_read (cli_path env name) (cw_fs w) = Some bytes"
    and run: "install_read env args store (install_source name) bytes w = (ExitSuccess, Some (Ok ip), h)"
    by (auto simp: cmd_install_def split: result.splits option.splits dest: install_arguments_store)
  show ?thesis
  proof (cases "''--require-trusted'' \<in> set args")
    case True
    with run obtain database fs0 h0 where database: "opts_database env args = Ok database"
        "fs_mkdir_all (ie_faults ?ienv) (butlast database) (cw_fs w) = Some fs0"
      and io: "io_bind (recover_trusted_installs ?lib ?ienv store) (\<lambda>_.
          install_trusted_package (ce_package env) ?ienv (ce_read_dir env) bytes store (install_source name)
            default_package_limits (''--accept-permissions'' \<in> set args)) [(fs0, cw_trust w database)] = (Ok ip, h0)"
      by (auto simp: install_read_def Let_def install_exit_Ok split: result.splits if_splits option.splits)
    from io obtain report h1 where recovered: "recover_trusted_installs ?lib ?ienv store [(fs0, cw_trust w database)] = (Ok report, h1)"
      and installed: "install_trusted_package (ce_package env) ?ienv (ce_read_dir env) bytes store (install_source name)
          default_package_limits (''--accept-permissions'' \<in> set args) h1 = (Ok ip, h0)" unfolding io_bind_Ok by blast
    obtain v trust envelope where facts: "validate_package (ce_package env) default_package_limits bytes = Ok v" "ip_manifest ip = vp_manifest v"
      "trust_get (il_crypto ?lib) (pub_id (mf_publisher (vp_manifest v))) (snd (hd h1)) = Ok (Some trust)"
      "bt_lookup SIGNATURE_FILE (vp_files v) = Some envelope"
      "verify_signature_envelope (il_crypto ?lib) envelope (vp_files v) (pub_id (mf_publisher (vp_manifest v))) (verifier_binding trust) = Ok ()"
      "im_trust (ip_meta ip) = Trusted"
      "\<And>plan. ip_upgrade ip = Some plan \<Longrightarrow> up_requires_confirmation plan \<Longrightarrow> ''--accept-permissions'' \<in> set args"
      by (rule trusted_install_Ok [OF installed]) blast
    have "pt_state trust = TrustActive \<and> pt_publisher_id trust = pub_id (mf_publisher (vp_manifest v))"
      by (rule verify_signature_envelope_Ok [OF facts(5)]) (auto simp: verifier_binding_def split: trust_state.splits)
    with facts args database recovered True show ?thesis
      by (intro exI [of _ name] exI [of _ store] exI [of _ bytes] exI [of _ v]) auto
  next
    case False
    with run obtain h0 where io: "install_package (ce_package env) ?ienv bytes store (install_source name) default_package_limits
        [(cw_fs w, cw_trust w [])] = (Ok ip, h0)" and h: "h = map (\<lambda>(fs, d). w\<lparr>cw_fs := fs\<rparr>) h0"
      by (auto simp: install_read_def Let_def install_exit_Ok)
    then obtain v where v: "validate_package (ce_package env) default_package_limits bytes = Ok v"
      and "install_validated ?lib ?ienv store v (install_source name) [(cw_fs w, cw_trust w [])] = (Ok ip, h0)"
      by (auto simp: install_package_def io_Ok)
    from unsigned_meta [OF this(2)] v args False h show ?thesis
      by (intro exI [of _ name] exI [of _ store] exI [of _ bytes] exI [of _ v])
        (auto simp: staging_meta_def Let_def split: prod.splits)
  qed
qed

section \<open>A concrete command line\<close>

definition cli_lib :: "nat install_lib" where
  "cli_lib = sample_install_lib\<lparr>il_crypto := host_crypto\<rparr>"

definition cli_install_env :: install_env where
  "cli_install_env = \<lparr>ie_faults = (\<lambda>_. False), ie_now = 7, ie_nonce = ''12-34''\<rparr>"

definition cli_fs :: fs where
  "cli_fs = [[] \<mapsto> Directory, [''clock.floatile''] \<mapsto> Regular []]"

definition host_cli :: "nat cli_env" where
  "host_cli =
     \<lparr>ce_plugin = host_env, ce_package = sample_package_lib cli_lib sample_contents, ce_install = cli_install_env,
      ce_read_dir = (\<lambda>_ _. None), ce_cwd = [], ce_db_var = None, ce_plugin_var = None, ce_data_dir = Some [''data''],
      ce_opening = (\<lambda>_. Opens), ce_json = (\<lambda>_. Some (JObj [])), ce_now = 7\<rparr>"

definition cli_start :: cli_world where
  "cli_start = \<lparr>cw_fs = cli_fs, cw_db = (\<lambda>_. host_db), cw_trust = (\<lambda>_. host_trust)\<rparr>"

lemma cli_lib_simps [simp]:
  "il_crypto cli_lib = host_crypto" "il_semver cli_lib = example_semver" "il_sha256 cli_lib b = sample_digest CHR ''m''"
  "vl_parse (il_versions cli_lib) = example_semver" "vl_show (il_versions cli_lib) = (\<lambda>v. if v = 1 then ''1.0.0'' else ''1.1.0'')"
  "pk_install (sample_package_lib cli_lib sample_contents) = cli_lib"
  by (simp_all add: cli_lib_def sample_install_lib_def sample_package_lib_def host_crypto_def)

lemma cli_paths:
  "path_join base ''signature.json'' = base @ [''signature.json'']" "path_join base ''.staging-12-34'' = base @ [''.staging-12-34'']"
  "path_join base ''store'' = base @ [''store'']" "path_join base ''clock.floatile'' = base @ [''clock.floatile'']"
  by (simp_all add: path_join_plain plain_segment_def)

definition cli_pending :: "nat pending_installation" where
  "cli_pending = pending_of cli_lib cli_install_env sample_package 1
     (staging_meta cli_lib cli_install_env sample_package ''clock.floatile'' Trusted)"

lemma cli_pending_valid: "validate_pending (il_versions cli_lib) cli_pending = Ok ()"
proof -
  have "validate_plugin_id ''dev.clock'' = Ok ()"
    by (simp add: validate_plugin_id_def plugin_id_char_def ascii_eval)
  then show ?thesis
    by (simp add: validate_pending_def cli_pending_def pending_of_def Let_def cli_install_env_def validate_transaction_id_def ascii_eval
      validate_publisher_id_def MAX_PUBLISHER_ID_BYTES_def trust_validate_plugin_id_def MAX_PLUGIN_ID_BYTES_def
      sample_package_def example_manifest_def)
qed


lemma cli_pending_simps [simp]:
  "pn_transaction_id cli_pending = ''12-34''" "pn_publisher_id cli_pending = ''dev''" "pn_plugin_id cli_pending = ''dev.clock''"
  "pn_version cli_pending = 1" "pn_created_at cli_pending = 7" "pn_signed_digest cli_pending = sample_digest CHR ''m''"
  "pn_install_digest cli_pending = sample_digest CHR ''m''" "pn_staging_name cli_pending = ''.staging-12-34''"
  "pn_final_relative cli_pending = ''dev.clock/1.0.0''"
  by (simp_all add: cli_pending_def pending_of_def Let_def cli_install_env_def sample_package_def example_manifest_def
      signable_content_digest_def content_digest_def staging_meta_def)

lemma cli_checks:
  "validate_transaction_id ''12-34'' = Ok ()" "validate_publisher_id ''dev'' = Ok ()"
  "trust_validate_plugin_id ''dev.clock'' = Ok ()" "length (sample_digest c) = 32"
  by (simp_all add: validate_transaction_id_def ascii_eval validate_publisher_id_def MAX_PUBLISHER_ID_BYTES_def
      trust_validate_plugin_id_def MAX_PLUGIN_ID_BYTES_def sample_digest_def)

definition cli_row :: pending_row where
  "cli_row = \<lparr>gr_publisher = ''dev'', gr_plugin = ''dev.clock'', gr_version = ''1.0.0'', gr_signed = sample_digest CHR ''m'',
     gr_install = sample_digest CHR ''m'', gr_staging = ''.staging-12-34'', gr_final = ''dev.clock/1.0.0'', gr_created = 7\<rparr>"

definition cli_prepared_db :: trust_db where
  "cli_prepared_db = host_trust\<lparr>tb_pending := [(''12-34'', cli_row)]\<rparr>"

lemma cli_prepared:
  "prepare_install host_crypto (il_versions cli_lib) cli_pending host_trust = (Ok (), cli_prepared_db)"
proof -
  have "accepted_package (il_versions cli_lib) ''dev'' ''dev.clock'' host_trust = Ok None" "tb_pending host_trust = []"
    by (simp_all add: accepted_package_def cli_checks host_trust_def)
  then show ?thesis
    using cli_pending_valid
    by (simp add: prepare_install_def trust_commit_def check_candidate_def host_trusts dev_trust_def sqlite_time_def
        cli_prepared_db_def cli_row_def)
qed

lemma cli_finalized: "\<exists>d2. finalize_install (il_versions cli_lib) ''12-34'' 7 cli_prepared_db = (Ok FirstAccepted, d2)"
proof -
  have pending: "pending_install (il_versions cli_lib) ''12-34'' cli_prepared_db = Ok (Some cli_pending)"
  proof -
    have eq: "cli_pending = \<lparr>pn_transaction_id = ''12-34'', pn_publisher_id = ''dev'', pn_plugin_id = ''dev.clock'', pn_version = 1,
        pn_signed_digest = sample_digest CHR ''m'', pn_install_digest = sample_digest CHR ''m'',
        pn_staging_name = ''.staging-12-34'', pn_final_relative = ''dev.clock/1.0.0'', pn_created_at = 7\<rparr>"
      by (rule pending_installation.equality) simp_all
    show ?thesis
      using cli_pending_valid unfolding eq
      by (simp add: pending_install_def cli_checks cli_prepared_db_def row_to_pending_def cli_row_def example_semver_def
          digest_array_def read_time_def Let_def)
  qed
  have "bt_lookup ''dev'' (tb_publishers cli_prepared_db) = Some \<lparr>ur_state = ''active'', ur_updated = 1\<rparr>" "tb_accepted cli_prepared_db = []"
    by (simp_all add: cli_prepared_db_def host_trust_def)
  then show ?thesis
    by (simp add: finalize_install_def pending accept_package_def trust_commit_def cli_checks sqlite_time_def Let_def)
qed

lemma cli_directories:
  "install_dir [''store''] ''dev.clock'' ''1.0.0'' = [''store'', ''dev.clock'', ''1.0.0'']"
  "path_join [''store''] (''.staging-'' @ ie_nonce cli_install_env) = [''store'', ''.staging-12-34'']"
  by (simp_all add: install_dir_def sample_join cli_install_env_def cli_paths)

lemma cli_staging:
  "\<exists>h'. stage_and_commit cli_lib cli_install_env [''store'', ''.staging-12-34''] [''store'', ''dev.clock'', ''1.0.0'']
      sample_package ''clock.floatile'' [(cli_fs, host_trust)] = (Ok (staging_meta cli_lib cli_install_env sample_package ''clock.floatile'' Trusted), h')"
proof -
  obtain d2 where d2: "finalize_install (il_versions cli_lib) ''12-34'' 7 cli_prepared_db = (Ok FirstAccepted, d2)"
    using cli_finalized by blast
  have faults: "ie_faults cli_install_env = (\<lambda>_. False)" by (simp add: cli_install_env_def)
  have files: "vp_files sample_package = [(''logic/main.wasm'', ''w''), (''manifest.json'', ''{}''), (''signature.json'', ''s''), (''ui/main.ftui'', ''u'')]"
    "mf_version (vp_manifest sample_package) = ''1.0.0''"
    by (simp_all add: sample_package_def example_manifest_def)
  have version: "example_semver ''1.0.0'' = Some 1" by (simp add: example_semver_def)
  have pending: "pending_of cli_lib cli_install_env sample_package (Suc 0)
      (staging_meta cli_lib cli_install_env sample_package ''clock.floatile'' Trusted) = cli_pending"
    by (simp add: cli_pending_def)
  show ?thesis
    unfolding stage_and_commit_def write_staging_def commit_trusted_def
    by (simp add: files version pending faults write_file_def io_bind_def io_of_def io_catch_def io_fs_def io_db_def
       fs_mkdir_all_def fs_write_def fs_rename_def Let_def cli_paths sample_join desk_paths cli_fs_def cli_prepared d2)
qed

definition cli_arguments :: "string list" where
  "cli_arguments = [''clock.floatile'', ''--store'', ''store'', ''--db'', ''trust.db'', ''--require-trusted'']"

lemma cli_arguments_read:
  "install_arguments host_cli cli_arguments = Ok (''clock.floatile'', [''store''])"
  "opts_database host_cli cli_arguments = Ok [''trust.db'']" "install_source ''clock.floatile'' = ''clock.floatile''"
  "cli_path host_cli ''clock.floatile'' = [''clock.floatile'']"
proof -
  have db: "path_join [] ''trust.db'' = [''trust.db'']" by (simp add: path_join_plain plain_segment_def)
  have "author_positionals cli_arguments [''--store'', ''--db''] [''--require-trusted'', ''--accept-permissions''] 1 = Ok [''clock.floatile'']"
    by (simp add: author_positionals_def cli_arguments_def starts_with_def)
  moreover have "opts_store host_cli cli_arguments = Ok [''store'']"
    by (simp add: opts_store_def argument_after_def cli_arguments_def cli_path_def host_cli_def cli_paths)
  ultimately show "install_arguments host_cli cli_arguments = Ok (''clock.floatile'', [''store''])"
    by (simp add: install_arguments_def)
  show "opts_database host_cli cli_arguments = Ok [''trust.db'']"
    by (simp add: opts_database_def path_or_def option_string_def argument_after_def cli_arguments_def cli_path_def host_cli_def db)
  show "install_source ''clock.floatile'' = ''clock.floatile''"
    by (simp add: install_source_def path_file_name_def)
  show "cli_path host_cli ''clock.floatile'' = [''clock.floatile'']"
    by (simp add: cli_path_def host_cli_def cli_paths)
qed

lemma cli_installs:
  "\<exists>ip h'. install_trusted_package (sample_package_lib cli_lib sample_contents) cli_install_env (\<lambda>_ _. None) [] [''store''] ''clock.floatile''
      default_package_limits False [(cli_fs, host_trust)] = (Ok ip, h')"
proof -
  obtain h' where staged: "stage_and_commit cli_lib cli_install_env [''store'', ''.staging-12-34''] [''store'', ''dev.clock'', ''1.0.0'']
      sample_package ''clock.floatile'' [(cli_fs, host_trust)] = (Ok (staging_meta cli_lib cli_install_env sample_package ''clock.floatile'' Trusted), h')"
    using cli_staging by blast
  have package: "validate_package (sample_package_lib cli_lib sample_contents) default_package_limits [] = Ok sample_package"
    by (rule sample_package_valid) (simp_all add: cli_lib_def sample_install_lib_def)
  have manifest: "mf_id (vp_manifest sample_package) = ''dev.clock''" "mf_version (vp_manifest sample_package) = ''1.0.0''"
    "pub_id (mf_publisher (vp_manifest sample_package)) = ''dev''"
    by (simp_all add: sample_package_def example_manifest_def)
  have "verify_signature_envelope host_crypto ''s'' (vp_files sample_package) ''dev'' (verifier_binding dev_trust) = Ok ()"
    by (simp add: verify_signature_envelope_def verifier_binding_def dev_trust_def host_crypto_def MAX_SIGNATURE_ENVELOPE_BYTES_def
        MAX_PACKAGE_SIGNATURES_def decode_canonical_base64_def signable_content_digest_def content_digest_def
        publisher_key_id_def check_signature_def sample_digest_def)
  moreover have "bt_lookup SIGNATURE_FILE (vp_files sample_package) = Some ''s''"
    by (simp add: sample_package_def SIGNATURE_FILE_def)
  ultimately have verified: "verify_package_signature cli_lib (vp_files sample_package) ''dev'' (Some dev_trust) = Ok ()"
    by (simp add: verify_package_signature_def)
  have nonce: "ie_nonce cli_install_env = ''12-34''" by (simp add: cli_install_env_def)
  have fresh: "\<not> fs_exists [''store'', ''dev.clock'', ''1.0.0''] cli_fs"
    "load_highest cli_lib (\<lambda>_. None) [''store''] ''dev.clock'' cli_fs = Ok None"
    by (simp_all add: fs_exists_def cli_fs_def load_highest_def Let_def fs_is_dir_def sample_join)
  show ?thesis
    unfolding install_trusted_package_def
    by (simp add: package manifest cli_directories(1) nonce cli_paths Let_def host_trusts verified fresh upgrade_of_def io_bind_def io_of_def io_world_def staged)
qed

lemma install_obeys_its_flags_witness:
  "\<exists>ip h. cmd_install host_cli cli_arguments cli_start = (ExitSuccess, Some (Ok ip), h) \<and> im_trust (ip_meta ip) = Trusted
     \<and> ip_manifest ip = vp_manifest sample_package"
proof -
  obtain ip h' where installs: "install_trusted_package (sample_package_lib cli_lib sample_contents) cli_install_env (\<lambda>_ _. None) [] [''store'']
      ''clock.floatile'' default_package_limits False [(cli_fs, host_trust)] = (Ok ip, h')" using cli_installs by blast
  have recovers: "recover_trusted_installs cli_lib cli_install_env [''store''] [(cli_fs, host_trust)]
      = (Ok \<lparr>rr_finalized = 0, rr_aborted = 0\<rparr>, [(cli_fs, host_trust)])"
    by (simp add: recover_trusted_installs_def io_bind_def io_world_def io_of_def pending_installs_def host_trust_def)
  have flags: "''--require-trusted'' \<in> set cli_arguments" "''--accept-permissions'' \<notin> set cli_arguments"
    by (simp_all add: cli_arguments_def)
  have read: "fs_read [''clock.floatile''] (cw_fs cli_start) = Some []"
    by (simp add: fs_read_def cli_start_def cli_fs_def)
  have made: "fs_mkdir_all (\<lambda>_. False) [] cli_fs = Some cli_fs"
    by (auto simp: fs_mkdir_all_def cli_fs_def fun_eq_iff)
  have "install_read host_cli cli_arguments [''store''] ''clock.floatile'' [] cli_start
      = (ExitSuccess, Some (Ok ip),
         map (\<lambda>(fs, d). cli_start\<lparr>cw_fs := fs, cw_trust := (cw_trust cli_start)([''trust.db''] := d)\<rparr>) h' @ [cli_start])"
    using installs
    by (simp add: install_read_def Let_def flags cli_arguments_read install_exit_Ok)
      (simp add: host_cli_def cli_start_def io_bind_def recovers cli_install_env_def [THEN arg_cong [of _ _ ie_faults]] made
        flags install_exit_Ok)
  then have run: "cmd_install host_cli cli_arguments cli_start
      = (ExitSuccess, Some (Ok ip),
         map (\<lambda>(fs, d). cli_start\<lparr>cw_fs := fs, cw_trust := (cw_trust cli_start)([''trust.db''] := d)\<rparr>) h' @ [cli_start])"
    by (simp add: cmd_install_def cli_arguments_read read)
  from trusted_install_Ok [OF installs] have "ip_manifest ip = vp_manifest sample_package"
    using sample_package_valid [of cli_lib "[]"] by (auto simp: cli_lib_def sample_install_lib_def)
  with run install_obeys_its_flags [OF run] flags(1) show ?thesis by auto
qed

lemma usage_error_changes_nothing_witness:
  "snd (snd (cmd_instance host_cli [''restart''] cli_start)) = cli_start"
proof -
  have "fst (cmd_instance host_cli [''restart''] cli_start) = ExitUsage"
    by (simp add: cmd_instance_def instance_options_parse_def options_database_def path_or_def nonempty_var_def no_options_def
        host_cli_def instance_action_def)
  with usage_error_changes_nothing [of host_cli "[''restart'']" cli_start] show ?thesis by blast
qed

end
