(* ===== verification/Project.thy ===== *)
theory Project
  imports Command_Line
begin

text \<open>
  The author's project: \<open>floatile-cli/src/project.rs\<close>, which makes a manifest out of the configuration
  \<open>floatile.toml\<close>, and \<open>floatile-cli/src/migrate.rs\<close>, which rewrites the configuration.

  The TOML reader is third-party code: it gives a \<open>raw_project\<close>, the sections and fields that are there.  What
  serde fills in is written out (\<open>widget_of\<close>, \<open>sdk_of\<close>).  The metadata of the build is not part of the manifest's
  model.
\<close>

section \<open>The configuration\<close>

record raw_widget =
  rw_default_size :: "(ieee \<times> ieee) option"
  rw_min_size :: "(ieee \<times> ieee) option"
  rw_max_size :: "(ieee \<times> ieee) option"
  rw_resizable :: "bool option"

record raw_sdk =
  rk_language :: "string option"
  rk_version :: "string option"

record widget_cfg =
  wc_default_size :: "(ieee \<times> ieee) option"
  wc_min_size :: "(ieee \<times> ieee) option"
  wc_max_size :: "(ieee \<times> ieee) option"
  wc_resizable :: bool

record sdk_cfg =
  sk_language :: string
  sk_version :: string

record permission_cfg =
  pc_keys :: "string list"
  pc_max_bytes :: "u64 option"
  pc_max_per_minute :: "u32 option"
  pc_max_active :: "u32 option"
  pc_sample_rate_hz :: "u32 option"
  pc_origins :: "string list"
  pc_max_requests_per_minute :: "u32 option"
  pc_max_response_bytes :: "u64 option"
  pc_max_timeout_ms :: "u64 option"

record raw_project =
  rj_id :: string
  rj_name :: string
  rj_version :: string
  rj_sdk :: "raw_sdk option"
  rj_widget :: "raw_widget option"
  rj_permissions :: "(string, permission_cfg) btree"
  rj_http_templates :: "http_template list"
  rj_publisher :: "publisher option"

text \<open>A section that is missing is the \<open>Default\<close> of its type; a field that is missing in a section has its own
  default.\<close>

definition widget_of :: "raw_widget option \<Rightarrow> widget_cfg" where
  "widget_of w =
     (case w of
        None \<Rightarrow> \<lparr>wc_default_size = None, wc_min_size = None, wc_max_size = None, wc_resizable = False\<rparr>
      | Some x \<Rightarrow> \<lparr>wc_default_size = rw_default_size x, wc_min_size = rw_min_size x, wc_max_size = rw_max_size x,
                   wc_resizable = (case rw_resizable x of Some b \<Rightarrow> b | None \<Rightarrow> True)\<rparr>)"

definition CARGO_PKG_VERSION :: string where "CARGO_PKG_VERSION = ''0.1.0''"

definition sdk_of :: "raw_sdk option \<Rightarrow> sdk_cfg" where
  "sdk_of s =
     (let language = (case Option.bind s rk_language of Some l \<Rightarrow> l | None \<Rightarrow> ''rust'');
          version = (case Option.bind s rk_version of Some v \<Rightarrow> v | None \<Rightarrow> CARGO_PKG_VERSION)
      in \<lparr>sk_language = language, sk_version = version\<rparr>)"

section \<open>The manifest\<close>

datatype project_error =
    InvalidToml
  | ProjectManifest manifest_error
  | UnknownSection string

definition section_to_capabilities :: "string \<Rightarrow> capability_definition list option" where
  "section_to_capabilities name =
     (let capabilities = filter (\<lambda>d. cd_author_section d = Some name) CAPABILITY_REGISTRY
      in if capabilities = [] then None else Some capabilities)"

definition insert_some :: "string \<Rightarrow> ('a \<Rightarrow> json) \<Rightarrow> 'a option \<Rightarrow> json_map \<Rightarrow> json_map" where
  "insert_some key f v m = (case v of None \<Rightarrow> m | Some x \<Rightarrow> bt_insert key (f x) m)"

definition json_number_of :: "'a::len word \<Rightarrow> json" where
  "json_number_of n = JNum (PosInt (ucast n))"

definition permission_params :: "capability_param_kind \<Rightarrow> permission_cfg \<Rightarrow> json_map" where
  "permission_params kind c =
     (case kind of
        ParamsNone \<Rightarrow> []
      | ParamsStorage \<Rightarrow>
          insert_some ''maxBytes'' json_number_of (pc_max_bytes c)
            (if pc_keys c \<noteq> [] then bt_insert ''keys'' (JArr (map JStr (pc_keys c))) [] else [])
      | ParamsTimer \<Rightarrow>
          insert_some ''maxActive'' json_number_of (pc_max_active c)
            (insert_some ''maxPerMinute'' json_number_of (pc_max_per_minute c) [])
      | ParamsMetrics \<Rightarrow> insert_some ''sampleRateHz'' json_number_of (pc_sample_rate_hz c) []
      | ParamsNetwork \<Rightarrow>
          insert_some ''maxTimeoutMs'' json_number_of (pc_max_timeout_ms c)
            (insert_some ''maxResponseBytes'' json_number_of (pc_max_response_bytes c)
              (insert_some ''maxRequestsPerMinute'' json_number_of (pc_max_requests_per_minute c)
                (if pc_origins c \<noteq> [] then bt_insert ''origins'' (JArr (map JStr (pc_origins c))) [] else []))))"

definition permission_of :: "permission_cfg \<Rightarrow> capability_definition \<Rightarrow> permission_decl" where
  "permission_of c d =
     (let params = permission_params (cd_params d) c
      in \<lparr>pd_capability = cd_name d, pd_params = (if params = [] then None else Some (JObj params))\<rparr>)"

definition section_permissions ::
  "string \<times> permission_cfg \<Rightarrow> permission_decl list \<Rightarrow> (permission_decl list, project_error) result"
where
  "section_permissions e permissions =
     try_bind (ok_or (UnknownSection (fst e)) (section_to_capabilities (fst e)))
       (\<lambda>capabilities. Ok (permissions @ map (permission_of (snd e)) capabilities))"

definition size_or :: "(ieee \<times> ieee) option \<Rightarrow> ieee \<times> ieee \<Rightarrow> logical_size" where
  "size_or a d = (let v = (case a of Some x \<Rightarrow> x | None \<Rightarrow> d) in \<lparr>ls_width = fst v, ls_height = snd v\<rparr>)"

definition UI_API_VERSION :: string where "UI_API_VERSION = ''1.6.0''"

definition generate_manifest :: "(string \<Rightarrow> 'v option) \<Rightarrow> raw_project \<Rightarrow> (manifest, project_error) result" where
  "generate_manifest semver_parse c =
     try_bind (try_fold section_permissions (rj_permissions c) []) (\<lambda>permissions.
     try_bind (map_err ProjectManifest (package_path_parse ''ui/widget.ftui'')) (\<lambda>ui.
     try_bind (map_err ProjectManifest (package_path_parse ''logic/plugin.wasm'')) (\<lambda>logic.
     (let w = widget_of (rj_widget c);
          m = \<lparr>mf_manifest_version = MANIFEST_VERSION, mf_id = rj_id c, mf_name = rj_name c, mf_description = None,
               mf_version = rj_version c,
               mf_publisher = (case rj_publisher c of Some p \<Rightarrow> p | None \<Rightarrow> \<lparr>pub_id = rj_id c, pub_name = rj_name c\<rparr>),
               mf_engine_api_version = ENGINE_API_VERSION, mf_ui_api_version = UI_API_VERSION, mf_kind = Widget,
               mf_entrypoints = \<lparr>ep_ui = ui, ep_logic = logic\<rparr>,
               mf_sizes = \<lparr>sz_default = size_or (wc_default_size w) (Fin 240, Fin 120),
                           sz_min = size_or (wc_min_size w) (Fin 160, Fin 80),
                           sz_max = size_or (wc_max_size w) (Fin 800, Fin 600), sz_resizable = wc_resizable w\<rparr>,
               mf_permissions = permissions, mf_http_templates = rj_http_templates c,
               mf_config_schema = None, mf_storage_migration = None\<rparr>
      in try_bind (map_err ProjectManifest (validate_manifest semver_parse m)) (\<lambda>_. Ok m)))))"

section \<open>The migration\<close>

datatype migration_error = MissingConfig | UnsafeConfig | MigrateTooLarge | MigrateInvalid | MigrateRead | MigrateWrite

fun migration_error_code :: "migration_error \<Rightarrow> string" where
  "migration_error_code MissingConfig = ''FMIGRATE_CONFIG_MISSING''"
| "migration_error_code UnsafeConfig = ''FMIGRATE_CONFIG_UNSAFE''"
| "migration_error_code MigrateTooLarge = ''FMIGRATE_CONFIG_SIZE''"
| "migration_error_code MigrateInvalid = ''FMIGRATE_CONFIG_INVALID''"
| "migration_error_code MigrateRead = ''FMIGRATE_READ''"
| "migration_error_code MigrateWrite = ''FMIGRATE_WRITE''"

definition MAX_PROJECT_CONFIG_BYTES :: nat where "MAX_PROJECT_CONFIG_BYTES = 262144"

text \<open>The section without its first line break.\<close>

definition SDK_SECTION :: string where
  "SDK_SECTION =
     ''[sdk]'' @ [CHR 0x0A] @ ''language = '' @ [CHR 0x22] @ ''rust'' @ [CHR 0x22, CHR 0x0A]
     @ ''version = '' @ [CHR 0x22] @ ''0.1.0'' @ [CHR 0x22, CHR 0x0A]"

datatype migrate_op = ReadConfig | CreateStaging | WriteStaging | BackupConfig | ReplaceConfig | RestoreConfig
  | RemoveStaging | RemoveBackup

text \<open>\<open>me_partial\<close> is what a failed write leaves in the file.\<close>

record migrate_env =
  me_faults :: "migrate_op \<Rightarrow> bool"
  me_partial :: bytes
  me_pid :: string
  me_utf8 :: "bytes \<Rightarrow> bool"
  me_toml :: "bytes \<Rightarrow> raw_project option"

record migration_report =
  mr_write :: bool
  mr_changed :: bool
  mr_changes :: "string list"

definition create_new_file :: "path \<Rightarrow> fs \<Rightarrow> fs option" where
  "create_new_file p fs = (if fs p \<noteq> None \<or> fs (butlast p) \<noteq> Some Directory then None else Some (fs(p \<mapsto> Regular [])))"

definition rename_file :: "path \<Rightarrow> path \<Rightarrow> fs \<Rightarrow> fs option" where
  "rename_file src dst fs =
     (case fs src of
        Some (Regular b) \<Rightarrow>
          (if fs dst = Some Directory \<or> fs (butlast dst) \<noteq> Some Directory then None
           else Some ((fs(src := None))(dst \<mapsto> Regular b)))
      | _ \<Rightarrow> None)"

definition remove_file :: "path \<Rightarrow> fs \<Rightarrow> fs option" where
  "remove_file p fs = (case fs p of Some (Regular _) \<Rightarrow> Some (fs(p := None)) | _ \<Rightarrow> None)"

type_synonym 'a migrate_io = "(fs, 'a, migration_error) io"

definition file_step :: "migrate_env \<Rightarrow> migrate_op \<Rightarrow> (fs \<Rightarrow> fs option) \<Rightarrow> unit migrate_io" where
  "file_step env oper change =
     (\<lambda>h. case (if me_faults env oper then None else change (hd h)) of
            None \<Rightarrow> (Err MigrateWrite, h)
          | Some fs \<Rightarrow> (Ok (), fs # h))"

definition write_step :: "migrate_env \<Rightarrow> path \<Rightarrow> bytes \<Rightarrow> unit migrate_io" where
  "write_step env p b =
     (\<lambda>h. if me_faults env WriteStaging then (Err MigrateWrite, ((hd h)(p \<mapsto> Regular (me_partial env))) # h)
          else (Ok (), ((hd h)(p \<mapsto> Regular b)) # h))"

definition staging_path :: "migrate_env \<Rightarrow> path \<Rightarrow> path" where
  "staging_path env p = path_join (butlast p) (''.floatile.toml.migrate-'' @ me_pid env)"

definition backup_path :: "migrate_env \<Rightarrow> path \<Rightarrow> path" where
  "backup_path env p = path_join (butlast p) (''.floatile.toml.backup-'' @ me_pid env)"

definition replace_recoverably :: "migrate_env \<Rightarrow> path \<Rightarrow> bytes \<Rightarrow> unit migrate_io" where
  "replace_recoverably env p b =
     (let staging = staging_path env p;
          backup = backup_path env p;
          discard = io_ignore (file_step env RemoveStaging (remove_file staging))
      in io_bind (file_step env CreateStaging (create_new_file staging)) (\<lambda>_.
         io_bind (io_catch (write_step env staging b) (\<lambda>e. io_bind discard (\<lambda>_. io_of (Err e)))) (\<lambda>_.
         io_bind (io_catch (file_step env BackupConfig (rename_file p backup))
                    (\<lambda>e. io_bind discard (\<lambda>_. io_of (Err e)))) (\<lambda>_.
         io_bind (io_catch (file_step env ReplaceConfig (rename_file staging p))
                    (\<lambda>e. io_bind (io_ignore (file_step env RestoreConfig (rename_file backup p))) (\<lambda>_.
                         io_bind discard (\<lambda>_. io_of (Err e))))) (\<lambda>_.
         file_step env RemoveBackup (remove_file backup))))))"

definition migrated_text :: "bytes \<Rightarrow> bytes" where
  "migrated_text b = b @ (if ends_with b [CHR 0x0A] then [] else [CHR 0x0A]) @ SDK_SECTION"

definition migrate_project :: "migrate_env \<Rightarrow> path \<Rightarrow> bool \<Rightarrow> migration_report migrate_io" where
  "migrate_project env dir write =
     (let p = path_join dir ''floatile.toml''
      in io_bind io_world (\<lambda>fs.
         case fs p of
           None \<Rightarrow> io_of (Err MissingConfig)
         | Some Directory \<Rightarrow> io_of (Err UnsafeConfig)
         | Some (Regular b) \<Rightarrow>
             (if MAX_PROJECT_CONFIG_BYTES < length b then io_of (Err MigrateTooLarge)
              else if me_faults env ReadConfig \<or> \<not> me_utf8 env b then io_of (Err MigrateRead)
              else case me_toml env b of
                     None \<Rightarrow> io_of (Err MigrateInvalid)
                   | Some c \<Rightarrow>
                       (let needs_sdk = (rj_sdk c = None)
                        in io_bind (if write \<and> needs_sdk then replace_recoverably env p (migrated_text b) else io_of (Ok ()))
                             (\<lambda>_. io_of (Ok \<lparr>mr_write = write, mr_changed = (write \<and> needs_sdk),
                                mr_changes = (if needs_sdk then [''FMIGRATE_SDK_EXPLICIT''] else [])\<rparr>))))))"

text \<open>The command \<open>migrate\<close>, in the working directory \<open>cwd\<close>.\<close>

definition cmd_migrate ::
  "migrate_env \<Rightarrow> path \<Rightarrow> string list \<Rightarrow> fs \<Rightarrow> exit_code \<times> (migration_report, migration_error) result option \<times> fs list"
where
  "cmd_migrate env cwd args w =
     (case author_positionals args [] [''--write''] 1 of
        Err _ \<Rightarrow> (ExitUsage, None, [w])
      | Ok ps \<Rightarrow>
          (let dir = path_join cwd (case ps of [] \<Rightarrow> ''.'' | p # _ \<Rightarrow> p);
               r = migrate_project env dir (''--write'' \<in> set args) [w]
           in (case fst r of Ok _ \<Rightarrow> ExitSuccess | Err _ \<Rightarrow> ExitFailure, Some (fst r), snd r)))"

section \<open>What a generated manifest asks for\<close>

text \<open>The capabilities of a section are those of the registry that belong to it.\<close>

definition declared_names :: "string list \<Rightarrow> string set" where
  "declared_names sections =
     {cd_name d | d sec. d \<in> set CAPABILITY_REGISTRY \<and> cd_author_section d = Some sec \<and> sec \<in> set sections}"

lemma section_permissions_names:
  "try_fold section_permissions es ps = Ok qs \<Longrightarrow>
     map pd_capability qs = map pd_capability ps
       @ concat (map (\<lambda>e. map cd_name (filter (\<lambda>d. cd_author_section d = Some (fst e)) CAPABILITY_REGISTRY)) es)
     \<and> (\<forall>e \<in> set es. section_to_capabilities (fst e) \<noteq> None)"
proof (induction es arbitrary: ps)
  case (Cons e es)
  obtain caps where caps: "section_to_capabilities (fst e) = Some caps"
    using Cons.prems by (cases "section_to_capabilities (fst e)") (simp_all add: section_permissions_def [of e])
  have "section_permissions e ps = Ok (ps @ map (permission_of (snd e)) caps)"
    by (simp add: section_permissions_def caps)
  with Cons.prems have rest: "try_fold section_permissions es (ps @ map (permission_of (snd e)) caps) = Ok qs" by simp
  have "caps = filter (\<lambda>d. cd_author_section d = Some (fst e)) CAPABILITY_REGISTRY"
    using caps by (auto simp: section_to_capabilities_def Let_def split: if_splits)
  with Cons.IH [OF rest] caps show ?case by (simp add: permission_of_def Let_def comp_def)
qed simp

lemma registry_names_distinct: "distinct (map cd_name CAPABILITY_REGISTRY)"
  by (simp add: CAPABILITY_REGISTRY_def)

lemma section_names_distinct:
  "distinct sections \<Longrightarrow>
     distinct (concat (map (\<lambda>s. map cd_name (filter (\<lambda>d. cd_author_section d = Some s) CAPABILITY_REGISTRY)) sections))"
proof (induction sections)
  case (Cons s sections)
  have inj: "d = d'" if "d \<in> set CAPABILITY_REGISTRY" "d' \<in> set CAPABILITY_REGISTRY" "cd_name d = cd_name d'" for d d'
    using registry_names_distinct that by (auto simp: distinct_map dest: inj_onD)
  have "distinct (map cd_name (filter (\<lambda>d. cd_author_section d = Some s) CAPABILITY_REGISTRY))"
    using registry_names_distinct by (rule distinct_map_filter)
  with Cons show ?case by (auto dest: inj)
qed simp

text \<open>C29: The manifest that is generated from a project is valid, and it asks for exactly what the author has declared: it
  names every capability of every declared section of permissions, each once, and no other; a section that belongs to
  no capability is refused.\<close>

theorem generated_manifest_asks_for_declared_sections:
  assumes "generate_manifest semver_parse c = Ok m" and "bt_wf (rj_permissions c)"
  shows "validate_manifest semver_parse m = Ok () \<and> distinct (map pd_capability (mf_permissions m))
    \<and> pd_capability ` set (mf_permissions m) = declared_names (map fst (rj_permissions c))
    \<and> (\<forall>e \<in> set (rj_permissions c). section_to_capabilities (fst e) \<noteq> None)"
proof -
  from assms(1) obtain ps where fold: "try_fold section_permissions (rj_permissions c) [] = Ok ps"
    and m: "mf_permissions m = ps" "validate_manifest semver_parse m = Ok ()"
    by (auto simp: generate_manifest_def Let_def split: bind_splits)
  note names = section_permissions_names [OF fold]
  have "distinct (map fst (rj_permissions c))" using assms(2) by (simp add: bt_wf_def strict_sorted_iff)
  from section_names_distinct [OF this] names have "distinct (map pd_capability ps)" by (simp add: comp_def)
  moreover have "pd_capability ` set ps = declared_names (map fst (rj_permissions c))"
    using arg_cong [OF conjunct1 [OF names], of set] by (auto simp: declared_names_def)
  ultimately show ?thesis using m names by simp
qed

lemma widget_defaults:
  "wc_resizable (widget_of None) = False" "wc_resizable (widget_of (Some \<lparr>rw_default_size = None, rw_min_size = None,
     rw_max_size = None, rw_resizable = None\<rparr>)) = True"
  by (simp_all add: widget_of_def)

section \<open>The migration and the author's configuration\<close>

text \<open>The configuration is the old or the new one, or it is missing and the backup holds the old one.  Only the
  configuration and the two temporary files are touched.\<close>

definition configuration_kept :: "migrate_env \<Rightarrow> path \<Rightarrow> bytes \<Rightarrow> fs \<Rightarrow> fs \<Rightarrow> bool" where
  "configuration_kept env p b before fs \<longleftrightarrow>
     (fs p = Some (Regular b) \<or> fs p = Some (Regular (migrated_text b))
       \<or> (fs p = None \<and> fs (backup_path env p) = Some (Regular b)))
     \<and> (\<forall>q. q \<in> {p, staging_path env p, backup_path env p} \<or> fs q = before q)"

lemma io_spec_file_step:
  assumes "\<And>w w'. P w \<Longrightarrow> change w = Some w' \<Longrightarrow> Q w' \<and> C w'" and "\<And>w. P w \<Longrightarrow> E w"
  shows "io_spec P (file_step env oper change) (\<lambda>_. Q) E C"
  unfolding io_spec_def
proof (intro allI impI)
  fix w h assume "P w"
  show "\<exists>r new. file_step env oper change (w # h) = (r, new @ w # h) \<and> (\<forall>u \<in> set new. C u)
      \<and> (case r of Ok a \<Rightarrow> Q (hd (new @ w # h)) | Err e \<Rightarrow> E (hd (new @ w # h)))"
  proof (cases "if me_faults env oper then None else change w")
    case None
    with \<open>P w\<close> assms(2) show ?thesis by (intro exI [of _ "Err MigrateWrite"] exI [of _ "[]"]) (simp add: file_step_def split: if_splits)
  next
    case (Some w')
    with \<open>P w\<close> assms(1) [of w w'] show ?thesis
      by (intro exI [of _ "Ok ()"] exI [of _ "[w']"]) (simp add: file_step_def split: if_splits)
  qed
qed

lemma io_spec_write_step:
  assumes "\<And>w c. P w \<Longrightarrow> C (w(q \<mapsto> Regular c)) \<and> E (w(q \<mapsto> Regular c))" and "\<And>w. P w \<Longrightarrow> Q (w(q \<mapsto> Regular b))"
  shows "io_spec P (write_step env q b) (\<lambda>_. Q) E C"
  unfolding io_spec_def
proof (intro allI impI)
  fix w h assume "P w"
  show "\<exists>r new. write_step env q b (w # h) = (r, new @ w # h) \<and> (\<forall>u \<in> set new. C u)
      \<and> (case r of Ok a \<Rightarrow> Q (hd (new @ w # h)) | Err e \<Rightarrow> E (hd (new @ w # h)))"
  proof (cases "me_faults env WriteStaging")
    case True
    with \<open>P w\<close> assms(1) show ?thesis
      by (intro exI [of _ "Err MigrateWrite"] exI [of _ "[w(q \<mapsto> Regular (me_partial env))]"]) (simp add: write_step_def)
  next
    case False
    with \<open>P w\<close> assms show ?thesis
      by (intro exI [of _ "Ok ()"] exI [of _ "[w(q \<mapsto> Regular b)]"]) (simp add: write_step_def)
  qed
qed

lemma migrate_paths_distinct:
  assumes "plain_segment (me_pid env)"
  shows "staging_path env (dir @ [''floatile.toml'']) = dir @ [''.floatile.toml.migrate-'' @ me_pid env]"
    and "backup_path env (dir @ [''floatile.toml'']) = dir @ [''.floatile.toml.backup-'' @ me_pid env]"
  using assms by (simp_all add: staging_path_def backup_path_def path_join_plain plain_segment_def)

lemmas file_changes = create_new_file_def rename_file_def remove_file_def

lemma replace_recoverably_keeps:
  assumes paths: "distinct [p, staging_path env p, backup_path env p]" and b: "before p = Some (Regular b)"
  shows "io_spec (\<lambda>fs. fs = before) (replace_recoverably env p (migrated_text b))
    (\<lambda>_ fs. fs p = Some (Regular (migrated_text b)) \<and> configuration_kept env p b before fs)
    (configuration_kept env p b before) (configuration_kept env p b before)"
proof -
  let ?s = "staging_path env p" and ?b = "backup_path env p" and ?K = "configuration_kept env p b before"
  let ?old = "\<lambda>fs. fs p = Some (Regular b) \<and> ?K fs"
  let ?staged = "\<lambda>fs. fs ?s = Some (Regular (migrated_text b)) \<and> ?old fs"
  let ?moved = "\<lambda>fs. fs ?s = Some (Regular (migrated_text b)) \<and> fs ?b = Some (Regular b) \<and> fs p = None \<and> ?K fs"
  let ?new = "\<lambda>fs. fs p = Some (Regular (migrated_text b)) \<and> ?K fs"
  have [simp]: "p \<noteq> ?s" "p \<noteq> ?b" "?s \<noteq> ?b" "?s \<noteq> p" "?b \<noteq> p" "?b \<noteq> ?s" using paths by auto
  note kept = configuration_kept_def file_changes
  have discard: "io_spec ?K (io_bind (io_ignore (file_step env RemoveStaging (remove_file ?s))) (\<lambda>_. io_of (Err e))) Q ?K ?K"
    for e :: migration_error and Q :: "unit \<Rightarrow> fs \<Rightarrow> bool"
    by (rule io_spec_bind [where R = "\<lambda>_. ?K"], rule io_spec_ignore, rule io_spec_file_step)
      (auto simp: kept intro!: io_spec_of split: if_splits option.splits node.splits)
  have "io_spec (\<lambda>fs. fs = before) (file_step env CreateStaging (create_new_file ?s)) (\<lambda>_. ?old) ?K ?K"
    by (rule io_spec_file_step) (auto simp: kept b split: if_splits)
  moreover have "io_spec ?old (io_catch (write_step env ?s (migrated_text b))
      (\<lambda>e. io_bind (io_ignore (file_step env RemoveStaging (remove_file ?s))) (\<lambda>_. io_of (Err e)))) (\<lambda>_. ?staged) ?K ?K"
    by (rule io_spec_catch [where R = ?K], rule io_spec_write_step, auto simp: kept intro: discard)
  moreover have "io_spec ?staged (io_catch (file_step env BackupConfig (rename_file p ?b))
      (\<lambda>e. io_bind (io_ignore (file_step env RemoveStaging (remove_file ?s))) (\<lambda>_. io_of (Err e)))) (\<lambda>_. ?moved) ?K ?K"
    by (rule io_spec_catch [where R = ?K], rule io_spec_file_step)
      (auto simp: kept intro: discard split: if_splits option.splits node.splits)
  moreover have "io_spec ?moved (io_catch (file_step env ReplaceConfig (rename_file ?s p))
      (\<lambda>e. io_bind (io_ignore (file_step env RestoreConfig (rename_file ?b p)))
        (\<lambda>_. io_bind (io_ignore (file_step env RemoveStaging (remove_file ?s))) (\<lambda>_. io_of (Err e))))) (\<lambda>_. ?new) ?K ?K"
    by (rule io_spec_catch [where R = ?moved], rule io_spec_file_step, (auto simp: kept split: if_splits option.splits node.splits)[2],
        rule io_spec_bind [where R = "\<lambda>_. ?K"], rule io_spec_ignore, rule io_spec_file_step)
      (auto simp: kept intro: discard split: if_splits option.splits node.splits)
  moreover have "io_spec ?new (file_step env RemoveBackup (remove_file ?b)) (\<lambda>_. ?new) ?K ?K"
    by (rule io_spec_file_step) (auto simp: kept split: if_splits option.splits node.splits)
  ultimately show ?thesis
    unfolding replace_recoverably_def Let_def by (blast intro: io_spec_bind)
qed

text \<open>C28: A migration never loses the author's configuration.  Whatever step fails, and wherever it stops, every state of the
  disk it passes through has the old or the migrated configuration in place, or the old one in the backup; no other file
  is touched.  If it succeeds, the configuration in place is the one it reports, and without \<open>--write\<close> nothing is
  written.\<close>

theorem migration_never_loses_configuration:
  assumes run: "migrate_project env dir write [w] = (r, h)" and b: "w (dir @ [''floatile.toml'']) = Some (Regular b)"
    and pid: "plain_segment (me_pid env)"
  shows "(\<forall>fs \<in> set h. configuration_kept env (dir @ [''floatile.toml'']) b w fs)
    \<and> (\<forall>report. r = Ok report \<longrightarrow> hd h (dir @ [''floatile.toml'']) = Some (Regular (if mr_changed report then migrated_text b else b)))
    \<and> (write \<or> h = [w])"
proof -
  let ?p = "dir @ [''floatile.toml'']"
  have p: "path_join dir ''floatile.toml'' = ?p" by (simp add: path_join_plain plain_segment_def)
  have same: "configuration_kept env ?p b w w" by (simp add: configuration_kept_def b)
  have "distinct [?p, staging_path env ?p, backup_path env ?p]" by (simp add: migrate_paths_distinct [OF pid])
  note keeps = replace_recoverably_keeps [OF this, where before = w, OF b]
  obtain r' h' where replaced: "replace_recoverably env ?p (migrated_text b) [w] = (r', h')" by fastforce
  note steps = io_spec_run [OF keeps refl replaced]
  have kept: "\<forall>fs \<in> set h'. configuration_kept env ?p b w fs" using steps(1) same by blast
  show ?thesis
  proof (cases "h = [w]")
    case True
    with run same b show ?thesis
      using steps(2) replaced
      by (auto simp: migrate_project_def Let_def p io_bind_def io_world_def io_of_def
          split: option.splits if_splits result.splits)
  next
    case False
    with run b have "write" "h = h'" "\<And>report. r = Ok report \<Longrightarrow> r' = Ok () \<and> mr_changed report"
      using replaced
      by (auto simp: migrate_project_def Let_def p io_bind_def io_world_def io_of_def
          split: option.splits if_splits result.splits)
    with kept steps(2) show ?thesis by auto
  qed
qed

section \<open>A concrete project\<close>

definition clock_permission :: permission_cfg where
  "clock_permission = \<lparr>pc_keys = [], pc_max_bytes = None, pc_max_per_minute = Some 60, pc_max_active = Some 2,
     pc_sample_rate_hz = Some 1, pc_origins = [], pc_max_requests_per_minute = None, pc_max_response_bytes = None,
     pc_max_timeout_ms = None\<rparr>"

definition clock_project :: raw_project where
  "clock_project = \<lparr>rj_id = ''dev.clock'', rj_name = ''Clock'', rj_version = ''1.0.0'', rj_sdk = None, rj_widget = None,
     rj_permissions = [(''metrics'', clock_permission), (''timer'', clock_permission)], rj_http_templates = [],
     rj_publisher = None\<rparr>"

definition clock_permissions :: "permission_decl list" where
  "clock_permissions = [\<lparr>pd_capability = ''system:cpu'', pd_params = Some (params_json (Metrics 1))\<rparr>,
     \<lparr>pd_capability = ''system:memory'', pd_params = None\<rparr>,
     \<lparr>pd_capability = ''timer:schedule'', pd_params = Some (params_json (Timer 60 2))\<rparr>]"

lemma clock_sections: "try_fold section_permissions (rj_permissions clock_project) [] = Ok clock_permissions"
  by (simp add: clock_project_def clock_permission_def section_permissions_def section_to_capabilities_def CAPABILITY_REGISTRY_def
      permission_of_def permission_params_def insert_some_def json_number_of_def json_u64_def clock_permissions_def Let_def)

lemma clock_permissions_valid: "try_all validate_permission clock_permissions = Ok ()"
proof -
  have "parse_capability_params SystemCpu (Some (params_json (Metrics 1))) = Ok (Some (Metrics 1))"
    and "parse_capability_params TimerSchedule (Some (params_json (Timer 60 2))) = Ok (Some (Timer 60 2))"
    by (rule parse_params_json_Ok; simp add: params_valid_def cap_param_kind_def cap_definition_def CAPABILITY_REGISTRY_def)+
  moreover have "parse_capability_params SystemMemory None = Ok None"
    by (simp add: parse_capability_params_def default_params_def cap_param_kind_def cap_definition_def CAPABILITY_REGISTRY_def)
  moreover have "cap_from_name ''system:cpu'' = Some SystemCpu" "cap_from_name ''system:memory'' = Some SystemMemory"
    "cap_from_name ''timer:schedule'' = Some TimerSchedule"
    by (simp_all add: cap_from_name_def CAPABILITY_REGISTRY_def)
  ultimately show ?thesis
    by (simp add: clock_permissions_def validate_permission_def is_inherent_iff del: params_json.simps)
qed

lemma clock_paths:
  "package_path_parse ''ui/widget.ftui'' = Ok ''ui/widget.ftui''"
  "package_path_parse ''logic/plugin.wasm'' = Ok ''logic/plugin.wasm''"
  by (simp_all add: package_path_parse_def validate_package_path_def char_count_def utf8_continuation_def starts_with_def
      validate_path_segment_def ascii_eval)

lemma clock_manifest:
  "\<exists>m. generate_manifest example_semver clock_project = Ok m \<and> mf_permissions m = clock_permissions"
proof -
  have "validate_plugin_id ''dev.clock'' = Ok ()"
    by (simp add: validate_plugin_id_def plugin_id_char_def ascii_eval)
  moreover have "validate_name ''Clock'' = Ok ()"
    by (simp add: validate_name_def char_count_def utf8_continuation_def)
  moreover have "check_api_major ENGINE_API_VERSION ENGINE_API_VERSION = Ok ()"
    by (simp add: check_api_major_def ENGINE_API_VERSION_def)
  moreover have "major_of UI_API_VERSION = Some 1"
    by (simp add: major_of_def parse_u64_def ascii_eval UI_API_VERSION_def)
  ultimately show ?thesis
    by (simp add: generate_manifest_def clock_sections clock_paths Let_def validate_manifest_def clock_permissions_valid)
      (simp add: clock_project_def widget_of_def size_or_def validate_sizes_def size_positive_def validate_entrypoints_def
        example_semver_def ascii_eval char_count_def utf8_continuation_def
        validate_http_templates_def network_permission_def clock_permissions_def del: params_json.simps)
qed

lemma generated_manifest_asks_for_declared_sections_witness:
  "\<exists>m. generate_manifest example_semver clock_project = Ok m
     \<and> pd_capability ` set (mf_permissions m) = declared_names [''metrics'', ''timer'']"
proof -
  obtain m where "generate_manifest example_semver clock_project = Ok m" using clock_manifest by blast
  moreover from this have "pd_capability ` set (mf_permissions m) = declared_names (map fst (rj_permissions clock_project))"
    using generated_manifest_asks_for_declared_sections [of example_semver clock_project m]
    by (simp add: clock_project_def bt_wf_def)
  ultimately show ?thesis by (auto simp: clock_project_def)
qed

definition clock_migration :: migrate_env where
  "clock_migration = \<lparr>me_faults = (\<lambda>_. False), me_partial = [], me_pid = ''42'', me_utf8 = (\<lambda>_. True),
     me_toml = (\<lambda>_. Some clock_project)\<rparr>"

definition clock_disk :: fs where
  "clock_disk = [[] \<mapsto> Directory, [''floatile.toml''] \<mapsto> Regular ''[plugin]'']"

lemma migration_never_loses_configuration_witness:
  "\<exists>report h. migrate_project clock_migration [] True [clock_disk] = (Ok report, h) \<and> mr_changed report
     \<and> hd h [''floatile.toml''] = Some (Regular (migrated_text ''[plugin]''))"
proof -
  have pid: "plain_segment (me_pid clock_migration)" by (simp add: clock_migration_def plain_segment_def)
  have disk: "clock_disk ([] @ [''floatile.toml'']) = Some (Regular ''[plugin]'')" by (simp add: clock_disk_def)
  have env: "me_faults clock_migration = (\<lambda>_. False)" "me_utf8 clock_migration = (\<lambda>_. True)"
    "me_toml clock_migration = (\<lambda>_. Some clock_project)" "me_pid clock_migration = ''42''" "rj_sdk clock_project = None"
    by (simp_all add: clock_migration_def clock_project_def)
  have names: "staging_path clock_migration [''floatile.toml''] = [''.floatile.toml.migrate-42'']"
    "backup_path clock_migration [''floatile.toml''] = [''.floatile.toml.backup-42'']"
    using migrate_paths_distinct [OF pid, of "[]"] by (simp_all add: env)
  obtain h where replaced: "replace_recoverably clock_migration [''floatile.toml''] (migrated_text ''[plugin]'') [clock_disk] = (Ok (), h)"
    by (simp add: replace_recoverably_def Let_def names file_step_def write_step_def env io_bind_def io_of_def io_catch_def file_changes clock_disk_def)
  have "path_join [] ''floatile.toml'' = [''floatile.toml'']" by (simp add: path_join_plain plain_segment_def)
  then have "\<exists>report h. migrate_project clock_migration [] True [clock_disk] = (Ok report, h) \<and> mr_changed report"
    using disk replaced
    by (simp add: migrate_project_def Let_def io_get_run MAX_PROJECT_CONFIG_BYTES_def env) (simp add: io_bind_def io_of_def)
  then obtain report h where run: "migrate_project clock_migration [] True [clock_disk] = (Ok report, h)" "mr_changed report" by blast
  with migration_never_loses_configuration [OF run(1) disk pid] show ?thesis by auto
qed

end
