(* ===== verification/Spec2Isabelle.thy ===== *)
theory Spec2Isabelle
  imports Json Capability Manifest Install_Digest Distribution Signature Services Operations Connection
    Https Broker Instance_Model Layout Store_Db Store_Spec
    Files Trust_Store Installation Ui_Schema Ui_Document Package Commands Install Install_Recovery Host_State Actor Plugin_Manager Supervisor Control Instance_Commands Renderer Ui_Session Desktop Command_Line Project
begin

text \<open>
  Floatile shows small widgets on the desktop, each run by a plugin: a WebAssembly component with a manifest and a
  description of its user interface, delivered as a signed package.  The program is the host: it decides what is
  installed, what a plugin may do, what it may show, and what survives a crash or a restart.  This development models
  the host, \<open>src/crates\<close>, and proves what it promises.

  \<^bold>\<open>The parts and how they interact.\<close>  A package is checked (\<open>Package\<close>), its signature verified against the publishers
  the user trusts (\<open>Signature\<close>, \<open>Trust_Store\<close>), and written to the disk in a transaction that spans the file system and the
  database (\<open>Install\<close>).  An instance of an installed plugin is a row of the database (\<open>Store_Db\<close>), created and configured from
  the control window (\<open>Control\<close>) or the command line (\<open>Instance_Commands\<close>).  The supervisor (\<open>Supervisor\<close>) compares the rows with
  what runs, loads and verifies the installation of each instance that is wanted (\<open>Plugin_Manager\<close>) and starts a session
  (\<open>Ui_Session\<close>): the document is validated (\<open>Ui_Document\<close>), rendered (\<open>Renderer\<close>), and an actor (\<open>Actor\<close>) runs the plugin.
  Whatever the plugin asks of the host goes through its imports (\<open>Host_State\<close>) to the permission broker (\<open>Broker\<close>), which
  decides with the capability model (\<open>Capability\<close>), writes the audit and calls the services (\<open>Services\<close>, \<open>Https\<close>, \<open>Operations\<close>).
  The window on the desktop with its modes and its saved place is \<open>Desktop\<close>.

  \<^bold>\<open>Theories, and the code they model\<close> (paths below \<open>src/crates\<close>).

  \<^item> \<open>Floatile_Prelude\<close>: results, the ordered map of Rust (\<open>ordered_map\<close>), loops that stop at an error; \<open>Rate_Window\<close>: the contract
    \<open>fixed_window\<close> of a rate limiter; \<open>Floats\<close>: the arithmetic of \<open>f32\<close> and \<open>f64\<close>; \<open>Files\<close>: the file system; \<open>Commands\<close>: commands
    on a durable world with the history a crash can leave.
  \<^item> \<open>Json\<close> (\<open>floatile-ui-schema/src/patch.rs\<close>), \<open>Ui_Schema\<close> (\<open>schema.rs\<close>, \<open>path.rs\<close>, \<open>theme.rs\<close>, \<open>error.rs\<close>), \<open>Ui_Document\<close> (\<open>ir.rs\<close>,
    \<open>registry.rs\<close>, \<open>validate.rs\<close>): JSON values and their merge, the schema language with its check of a value, documents and
    their validation.
  \<^item> \<open>Capability\<close>, \<open>Manifest\<close>, \<open>Install_Digest\<close>, \<open>Distribution\<close>, \<open>Signature\<close>, \<open>Connection\<close>, \<open>Instance_Model\<close>, \<open>Layout\<close>: the files of
    \<open>floatile-core/src\<close>, in the order of their definitions.
  \<^item> \<open>Services\<close>, \<open>Operations\<close>, \<open>Https\<close>, \<open>Broker\<close>: \<open>floatile-services/src\<close>.  A service is a record of its state and an operation a
    function to its result and the next state; \<open>op_step\<close> interleaves the calls with the dispatcher and the tasks.
  \<^item> \<open>Store_Db\<close>, \<open>Trust_Store\<close>, \<open>Installation\<close>: \<open>floatile-store/src\<close>.  A table is a map from its primary key to its rows;
    \<open>Store_Spec\<close> is the abstract store with its refinement.
  \<^item> \<open>Host_State\<close> (\<open>state.rs\<close>, \<open>operation.rs\<close>) and \<open>Actor\<close> (\<open>lib.rs\<close>, \<open>error.rs\<close>): \<open>floatile-runtime/src\<close>.
  \<^item> \<open>Package\<close>, \<open>Install\<close> with \<open>Install_Recovery\<close>, \<open>Instance_Commands\<close>: \<open>package.rs\<close>, \<open>install.rs\<close>, and \<open>instance.rs\<close> with \<open>trust.rs\<close>
    of \<open>floatile-cli/src\<close>.  \<open>Command_Line\<close> is the part of \<open>main.rs\<close> that reads the arguments of \<open>instance\<close>, \<open>trust\<close> and \<open>install\<close> and runs
    these commands; \<open>Project\<close> (\<open>project.rs\<close>, \<open>migrate.rs\<close>, the command \<open>migrate\<close>) makes a manifest out of an author's configuration
    and rewrites the configuration.
  \<^item> \<open>Renderer\<close>: \<open>floatile-renderer/src\<close>.
  \<^item> \<open>Plugin_Manager\<close>, \<open>Supervisor\<close>, \<open>Control\<close>, \<open>Ui_Session\<close>, \<open>Desktop\<close>: \<open>plugin_manager.rs\<close>, \<open>instance_supervisor.rs\<close>,
    \<open>instance_control.rs\<close>, \<open>runtime_ui.rs\<close>, and \<open>lib.rs\<close> with the window of \<open>main.rs\<close>, of \<open>floatile-shell/src\<close>.

  \<^bold>\<open>How the code is translated.\<close>  A struct is a record, an enum a datatype with its variants, a function a definition with
  the same name where HOL allows it.  \<open>Result\<close> is \<open>result\<close> with \<open>try_bind\<close> for the question mark; a panic is \<open>None\<close>.  A string is
  the list of its UTF-8 bytes, \<open>u32\<close> and \<open>u64\<close> are words, lengths are natural numbers.  A mutable reference is a state that is
  returned changed; a lock or a channel makes the program a sequence of steps, each a critical section.  Third-party code
  (\<open>serde_json\<close>, \<open>semver\<close>, Ed25519, SHA-256, the zip and the component readers, SQLite's engine, Wasmtime, Slint, winit, \<open>url\<close>,
  \<open>tokio\<close>) is a parameter, collected in records such as \<open>crypto\<close>, \<open>install_lib\<close>, \<open>package_lib\<close>, \<open>url_lib\<close>, \<open>host_lib\<close>, \<open>control_lib\<close>
  and \<open>ui_env\<close>; what is relied on is a hypothesis of the theorem, and its witness instantiates it.  Texts for the user and
  log output are left out, codes and variants are kept.

  \<^bold>\<open>What is shown.\<close>

  \<^item> Installation: a package is accepted only with safe paths and sizes; what is installed loads back with exactly the
    validated files; after a crash at any step the recovery leaves the plugin absent or complete; the accepted version
    of a plugin never goes back; an accepted signature covers exactly the files.
  \<^item> Authority: an upgrade without confirmation and every rollback grant nothing new; every effect of a plugin was allowed
    and is in the audit; storage quotas, request rates and the bounds of operations hold in every reachable state; a
    request leaves the host only for the origin and the path its template and its connection allow.
  \<^item> User interface: every state a plugin can reach and every state shown conforms to the schema; a refused patch changes
    nothing; bindings of an accepted document read values of the types they were declared with; the rendered source is
    bounded, its literals read back.
  \<^item> Running: a failing plugin is cut off; the supervisor runs what the database wants and comes to rest; only verified
    installations run, with their own configuration; a session that is asked to stop ends; the user's events are
    forwarded in order or recorded as dropped.
  \<^item> Control: what the window saves passes the checks of the start; a running instance is not edited; the form of an
    instance keeps an untouched configuration; the command line and the window agree; a revoked publisher stays refused.
  \<^item> Command line: a usage error changes nothing; an installation did what its flags ask for; a migration loses no
    configuration at any step; a generated manifest asks for what the author declared.
  \<^item> Store: the tables refine the abstract store; identifiers are not used again and histories are monotone.
  \<^item> Desktop: clicks go through the window only while the recovery hotkey can bring it back; a saved window reappears.

  Some theorems state a fault: \<open>unready_window_loses_hotkey\<close>, \<open>retried_stop_is_lost\<close>, \<open>foreach_key_is_source_text\<close> and the panic
  \<open>recovery_panics_far_from_origin\<close>.

  \<^bold>\<open>Lemmas and contracts.\<close>  \<open>ordered_map\<close>, \<open>fixed_window\<close>, \<open>scope_order\<close> and \<open>row_table\<close> are the contracts between parts, interpreted on
  the definitions that provide them: the list map, the four rate limiters, the comparison of capability scopes, the codecs
  of three tables.  \<open>io_rules\<close> are the rules for commands: a specification says what holds at the return and in every world
  on the way, so the recovery is proved against each of them.  Invariants are proved by induction on runs
  (\<open>broker_exec\<close>, \<open>op_step\<close>, \<open>host_exec\<close>, \<open>sup_event\<close>, \<open>session_action\<close>, \<open>desk_event\<close>).

  \<^bold>\<open>Bounds.\<close>  No definition takes fuel: recursion is structural or terminates by a measure (the attempts left of a request,
  the size of a document).  Where the code loops for as long as it runs, the model is a run over a list of steps of any
  length, and that it comes to an end is a theorem (\<open>supervisor_comes_to_rest\<close>, \<open>stop_ends_session\<close>, \<open>failing_plugin_is_cut_off\<close>).
  The geometry of \<open>saved_window_reappears\<close> is in whole pixels below \<open>2^22\<close> at scale 1, where the sums of \<open>f32\<close> are exact.

  \<^bold>\<open>What the theorems leave out.\<close>  The text before each theorem states its hypotheses.  The ones to know: a package with a file
  \<open>install.json\<close> at its root is accepted but is excluded from the theorems on installation, since the metadata overwrites
  that file; the store is refined for configurations that the JSON library reads back unchanged; storage quotas are below
  \<open>2^63\<close> bytes; the worker of the supervisor repeats the report of an unreadable list of instances; the preparation of an
  HTTPS request reports the health of a connection before the permission is decided; the imports of a component are
  tested by prefix; nobody receives the last report of a session that was dropped.

  \<^bold>\<open>Not modelled.\<close>

  \<^item> \<open>floatile-cli\<close>: the choice of the command and what is printed (\<open>main.rs\<close>, \<open>lib.rs\<close>, \<open>output.rs\<close>), the templates of \<open>new\<close>
    (\<open>generate_template\<close>), and the commands of developers (\<open>build\<close>, \<open>check\<close>, \<open>dev\<close>, \<open>test\<close>, \<open>run\<close>, \<open>preview\<close>, \<open>inspect\<close>, \<open>conformance\<close>), which
    start compilers and editors; what they decide is decided in the parts they call.
  \<^item> \<open>floatile-runtime/src/harness.rs\<close>: collects events for those commands.
  \<^item> The rest of \<open>floatile-shell/src/main.rs\<close> and \<open>preview.rs\<close>: the construction of the windows, the tray icon, the bundled clock, the
    performance log and the shutdown, which are calls of the toolkit.
  \<^item> \<open>floatile-platform\<close> but for \<open>to_monitor_layout\<close>: calls of the window systems.
  \<^item> \<open>floatile-sdk\<close>, \<open>floatile-sdk-macros\<close>, \<open>floatile-plugin-api\<close> and the plugins: they run inside the sandbox; the host's promises
    hold for every plugin.
\<close>

end
